(* ===== verification/Prelude.thy ===== *)
theory Prelude
  imports Main
begin

text \<open>
  Shared vocabulary of the development: the collections of rewrite rules that the component
  theories extend, the JavaScript values the code computes with (strings, nullable values, the
  truthiness test), and the generic lemmas about tables held as lists of rows.

  Strings are lists of \<open>char\<close>, read as UTF-16 code units below 256.  On these the definitions below
  are JavaScript's own \<open>toLowerCase\<close>, \<open>trim\<close>, \<open>includes\<close>, \<open>startsWith\<close> and \<open>split\<close>: the lower-case
  mapping of Latin-1 stays inside Latin-1, and the only blanks below 256 are the six ASCII
  ones and the no-break space.  Integral numbers and \<open>bigint\<close>s are \<open>int\<close>.
\<close>

named_theorems row_simps \<open>reading a table after an insertion, update or deletion\<close>
named_theorems wp_rules \<open>weakest-precondition rules of the effect layer\<close>
named_theorems code_defs \<open>definitions that unfold to the code's own case analysis\<close>

section \<open>Nullable values\<close>

type_synonym instant = int   \<comment> \<open>milliseconds since the epoch, as \<open>Date.getTime()\<close> gives them\<close>
type_synonym bigint = int
type_synonym uuid = string

fun or_else :: "'a option \<Rightarrow> 'a \<Rightarrow> 'a" where
  "or_else None d = d"
| "or_else (Some x) d = x"

lemma or_else_eq: "or_else v d = (case v of None \<Rightarrow> d | Some x \<Rightarrow> x)"
  by (cases v) auto

text \<open>\<open>if (s)\<close> on a nullable string: null and the empty string are both false.\<close>

fun truthy :: "string option \<Rightarrow> bool" where
  "truthy None = False"
| "truthy (Some s) = (s \<noteq> [])"

lemma truthy_iff: "truthy v \<longleftrightarrow> (\<exists>s. v = Some s \<and> s \<noteq> [])"
  by (cases v) auto

section \<open>JavaScript strings\<close>

definition char_code :: "char \<Rightarrow> nat" where
  "char_code c = of_char c"

definition js_lower_char :: "char \<Rightarrow> char" where
  "js_lower_char c =
     (let n = char_code c
      in if (65 \<le> n \<and> n \<le> 90) \<or> (192 \<le> n \<and> n \<le> 222 \<and> n \<noteq> 215) then char_of (n + 32) else c)"

definition js_lower :: "string \<Rightarrow> string" where
  "js_lower s = map js_lower_char s"

definition js_space :: "char \<Rightarrow> bool" where
  "js_space c = (let n = char_code c in (9 \<le> n \<and> n \<le> 13) \<or> n = 32 \<or> n = 160)"

definition js_trim :: "string \<Rightarrow> string" where
  "js_trim s = rev (dropWhile js_space (rev (dropWhile js_space s)))"

fun js_starts_with :: "string \<Rightarrow> string \<Rightarrow> bool" where
  "js_starts_with s [] = True"
| "js_starts_with [] (p # ps) = False"
| "js_starts_with (c # cs) (p # ps) = (c = p \<and> js_starts_with cs ps)"

fun js_includes :: "string \<Rightarrow> string \<Rightarrow> bool" where
  "js_includes [] p = (p = [])"
| "js_includes (c # cs) p = (js_starts_with (c # cs) p \<or> js_includes cs p)"

text \<open>\<open>s.split(sep)\<close> for a separator of one character: always at least one piece.\<close>

fun js_split :: "char \<Rightarrow> string \<Rightarrow> string list" where
  "js_split sep [] = [[]]"
| "js_split sep (c # cs) =
     (if c = sep then [] # js_split sep cs
      else (case js_split sep cs of [] \<Rightarrow> [[c]] | w # ws \<Rightarrow> (c # w) # ws))"

text \<open>\<open>xs.join(sep)\<close>\<close>

fun js_join :: "string \<Rightarrow> string list \<Rightarrow> string" where
  "js_join sep [] = []"
| "js_join sep [x] = x"
| "js_join sep (x # y # ys) = x @ sep @ js_join sep (y # ys)"

text \<open>\<open>xs[i]\<close> on an array: \<open>undefined\<close> out of range.\<close>

definition js_nth :: "'a list \<Rightarrow> nat \<Rightarrow> 'a option" where
  "js_nth xs i = (if i < length xs then Some (xs ! i) else None)"

lemma js_lower_char_code: "char_code (js_lower_char c) =
   (let n = char_code c
    in if (65 \<le> n \<and> n \<le> 90) \<or> (192 \<le> n \<and> n \<le> 222 \<and> n \<noteq> 215) then n + 32 else n)"
  by (auto simp: js_lower_char_def char_code_def Let_def)

lemma js_lower_char_idem [simp]: "js_lower_char (js_lower_char c) = js_lower_char c"
proof -
  have "char_code (js_lower_char (js_lower_char c)) = char_code (js_lower_char c)"
    unfolding js_lower_char_code Let_def by auto
  then show ?thesis by (simp add: char_code_def)
qed

lemma js_lower_char_below:
  assumes "char_code d < 65"
  shows "js_lower_char c = d \<longleftrightarrow> c = d"
proof
  assume "js_lower_char c = d"
  then have "char_code c = char_code d"
    using js_lower_char_code [of c] assms by (auto simp: Let_def split: if_splits)
  then show "c = d" by (simp add: char_code_def)
next
  assume "c = d"
  then show "js_lower_char c = d" using assms by (auto simp: js_lower_char_def Let_def)
qed

lemma js_lower_idem [simp]: "js_lower (js_lower s) = js_lower s"
  by (simp add: js_lower_def)

lemma js_lower_length [simp]: "length (js_lower s) = length s"
  by (simp add: js_lower_def)

lemma js_lower_Nil_iff [simp]: "js_lower s = [] \<longleftrightarrow> s = []"
  by (simp add: js_lower_def)

lemma js_space_lower [simp]: "js_space (js_lower_char c) = js_space c"
  by (auto simp: js_space_def js_lower_char_code Let_def)

lemma js_trim_lower: "js_trim (js_lower s) = js_lower (js_trim s)"
proof -
  have "dropWhile js_space (map js_lower_char xs) = map js_lower_char (dropWhile js_space xs)" for xs
    by (induction xs) auto
  then show ?thesis by (simp add: js_trim_def js_lower_def rev_map)
qed

lemma dropWhile_stable: "xs = [] \<or> \<not> P (hd xs) \<Longrightarrow> dropWhile P xs = xs"
  by (cases xs) auto

lemma rev_dropWhile_rev_hd:
  assumes "xs \<noteq> []" and "\<not> P (hd xs)"
  shows "hd (rev (dropWhile P (rev xs))) = hd xs"
proof -
  obtain y ys where xs: "xs = y # ys" using assms(1) by (cases xs) auto
  have "dropWhile P (rev ys @ [y]) \<noteq> [] \<and> last (dropWhile P (rev ys @ [y])) = y"
    using assms(2) xs by (induction "rev ys" arbitrary: ys) (auto simp: dropWhile_append)
  then show ?thesis by (simp add: xs hd_rev)
qed

lemma js_trim_idem [simp]: "js_trim (js_trim s) = js_trim s"
proof -
  define x where "x = dropWhile js_space s"
  define y where "y = rev (dropWhile js_space (rev x))"
  have y: "js_trim s = y" by (simp add: js_trim_def x_def y_def)
  have "y = [] \<or> \<not> js_space (hd y)"
  proof (cases "x = []")
    case False
    then have h: "\<not> js_space (hd x)" unfolding x_def by (rule hd_dropWhile)
    with False have "hd y = hd x" unfolding y_def by (rule rev_dropWhile_rev_hd)
    with h show ?thesis by simp
  qed (simp add: y_def)
  then have "dropWhile js_space y = y" by (rule dropWhile_stable)
  moreover have "dropWhile js_space (rev y) = rev y" by (simp add: y_def)
  ultimately show ?thesis unfolding y by (simp add: js_trim_def)
qed

lemma js_split_not_Nil [simp]: "js_split sep s \<noteq> []"
  by (cases s) (auto split: list.splits)

lemma js_split_length: "length (js_split sep s) = Suc (count_list s sep)"
  by (induction s) (auto split: list.splits)

lemma js_join_split: "js_join [c] (js_split c s) = s"
proof (induction s)
  case (Cons x s)
  obtain w ws where w: "js_split c s = w # ws" by (cases "js_split c s") auto
  with Cons show ?case by (cases ws) auto
qed simp

lemma js_split_pieces: "w \<in> set (js_split c s) \<Longrightarrow> c \<notin> set w"
  by (induction s arbitrary: w) (auto split: list.splits if_splits)

lemma js_includes_append: "js_starts_with (q @ r) p \<Longrightarrow> js_includes (xs @ q @ r) p"
proof (induction xs)
  case Nil
  then show ?case by (cases "q @ r") (auto elim: js_starts_with.elims)
qed auto

section \<open>Tables as lists of rows\<close>

text \<open>
  A table is the list of its rows in insertion order.  \<open>select_first\<close> is the
  \<open>const [row] = await db.select()...\<close> of the repositories; \<open>update_where\<close> and
  \<open>delete_where\<close> are the statements of the same name.
\<close>

definition select_first :: "('r \<Rightarrow> bool) \<Rightarrow> 'r list \<Rightarrow> 'r option" where
  "select_first p t = find p t"

definition update_where :: "('r \<Rightarrow> bool) \<Rightarrow> ('r \<Rightarrow> 'r) \<Rightarrow> 'r list \<Rightarrow> 'r list" where
  "update_where p f t = map (\<lambda>r. if p r then f r else r) t"

definition delete_where :: "('r \<Rightarrow> bool) \<Rightarrow> 'r list \<Rightarrow> 'r list" where
  "delete_where p t = filter (\<lambda>r. \<not> p r) t"

definition count_where :: "('r \<Rightarrow> bool) \<Rightarrow> 'r list \<Rightarrow> nat" where
  "count_where p t = length (filter p t)"

definition unique_key :: "('r \<Rightarrow> 'k option) \<Rightarrow> 'r list \<Rightarrow> bool" where
  "unique_key k t = distinct (concat (map (\<lambda>r. case k r of None \<Rightarrow> [] | Some x \<Rightarrow> [x]) t))"

lemma select_first_Some:
  "select_first p t = Some r \<Longrightarrow> r \<in> set t \<and> p r"
  by (auto simp: select_first_def find_Some_iff)

lemma select_first_None [row_simps]:
  "select_first p t = None \<longleftrightarrow> (\<forall>r\<in>set t. \<not> p r)"
  by (auto simp: select_first_def find_None_iff)

lemma select_first_Nil [simp]: "select_first p [] = None"
  by (simp add: select_first_def)

lemma select_first_Cons [simp]:
  "select_first p (r # t) = (if p r then Some r else select_first p t)"
  by (simp add: select_first_def)

lemma select_first_append [row_simps]:
  "select_first p (t @ u) = (case select_first p t of None \<Rightarrow> select_first p u | Some r \<Rightarrow> Some r)"
  by (induction t) auto

lemma select_first_update [row_simps]:
  assumes "\<And>r. p (f r) = p r"
  shows "select_first p (update_where q f t) =
         map_option (\<lambda>r. if q r then f r else r) (select_first p t)"
  using assms by (induction t) (auto simp: update_where_def)

lemma select_first_frame:
  assumes "\<And>r. q r \<Longrightarrow> \<not> p r \<and> \<not> p (f r)"
  shows "select_first p (update_where q f t) = select_first p t"
  using assms by (induction t) (auto simp: update_where_def)

text \<open>Lookup by key after an update by key.\<close>

lemma select_first_keyed:
  assumes "\<And>r. \<kappa> (f r) = \<kappa> r"
  shows "select_first (\<lambda>r. \<kappa> r = a) (update_where (\<lambda>r. \<kappa> r = b) f t) =
         (if a = b then map_option f (select_first (\<lambda>r. \<kappa> r = b) t) else select_first (\<lambda>r. \<kappa> r = a) t)"
  using assms by (induction t) (auto simp: update_where_def)

lemma update_where_Nil [simp]: "update_where p f [] = []"
  by (simp add: update_where_def)

lemma update_where_Cons [simp]:
  "update_where p f (r # t) = (if p r then f r else r) # update_where p f t"
  by (simp add: update_where_def)

lemma update_where_append [row_simps]:
  "update_where p f (t @ u) = update_where p f t @ update_where p f u"
  by (simp add: update_where_def)

lemma length_update_where [simp]: "length (update_where p f t) = length t"
  by (simp add: update_where_def)

lemma set_update_where:
  "set (update_where p f t) = (\<lambda>r. if p r then f r else r) ` set t"
  by (simp add: update_where_def)

lemma map_update_where:
  assumes "\<And>r. k (f r) = k r"
  shows "map k (update_where p f t) = map k t"
  using assms by (induction t) auto

lemma update_where_none:
  "\<forall>r\<in>set t. \<not> p r \<Longrightarrow> update_where p f t = t"
  by (induction t) auto

lemma count_where_Nil [simp]: "count_where p [] = 0"
  by (simp add: count_where_def)

lemma count_where_Cons [simp]:
  "count_where p (r # t) = (if p r then Suc (count_where p t) else count_where p t)"
  by (simp add: count_where_def)

lemma count_where_append [row_simps]:
  "count_where p (t @ u) = count_where p t + count_where p u"
  by (simp add: count_where_def)

lemma count_where_update [row_simps]:
  assumes "\<And>r. p (f r) = p r"
  shows "count_where p (update_where q f t) = count_where p t"
  using assms by (induction t) auto

lemma count_where_zero: "count_where p t = 0 \<longleftrightarrow> (\<forall>r\<in>set t. \<not> p r)"
  by (simp add: count_where_def filter_empty_conv)

lemma delete_where_Nil [simp]: "delete_where p [] = []"
  by (simp add: delete_where_def)

lemma delete_where_Cons [simp]:
  "delete_where p (r # t) = (if p r then delete_where p t else r # delete_where p t)"
  by (simp add: delete_where_def)

lemma set_delete_where [simp]: "set (delete_where p t) = {r \<in> set t. \<not> p r}"
  by (auto simp: delete_where_def)

lemma select_first_delete:
  "select_first p (delete_where q t) = select_first (\<lambda>r. p r \<and> \<not> q r) t"
  by (induction t) auto

lemma unique_key_Nil [simp]: "unique_key k []"
  by (simp add: unique_key_def)

lemma unique_key_append:
  "unique_key k (t @ [r]) \<longleftrightarrow>
     unique_key k t \<and> (case k r of None \<Rightarrow> True | Some x \<Rightarrow> (\<forall>s\<in>set t. k s \<noteq> Some x))"
  by (auto simp: unique_key_def split: option.splits)

lemma unique_key_update:
  assumes "\<And>r. k (f r) = k r"
  shows "unique_key k (update_where p f t) = unique_key k t"
proof -
  have "map k (update_where p f t) = map k t" using assms by (rule map_update_where)
  then have "map (\<lambda>r. case k r of None \<Rightarrow> [] | Some x \<Rightarrow> [x]) (update_where p f t) =
             map (\<lambda>r. case k r of None \<Rightarrow> [] | Some x \<Rightarrow> [x]) t"
    by (metis (mono_tags, lifting) list.map_comp comp_apply map_eq_conv)
  then show ?thesis by (simp add: unique_key_def)
qed

lemma unique_key_at_most_one:
  assumes "unique_key k t" "r \<in> set t" "s \<in> set t" "k r = Some x" "k s = Some x"
  shows "r = s"
  using assms by (induction t) (auto simp: unique_key_def split: option.splits)

end
