(* ===== verification/Schema.thy ===== *)
theory Schema
  imports Prelude
begin

text \<open>
  The rows of the tables the modelled components read and write (\<open>src/db/schema/*.ts\<close>) and
  the database as a record of tables.  Columns the code only stores and never tests are kept when
  a modelled operation writes or returns them.  Status columns whose values are closed by a check
  constraint or by the code's own writes are datatypes.
\<close>

section \<open>users\<close>

datatype plan_code = Free | Personal | Pro | Team | Business

datatype subscription_status =
  SubFree | Trialing | SubActive | SubPaused | PastDue | Canceled | Unpaid | Incomplete | IncompleteExpired

record user_row =
  u_id :: bigint
  u_username :: "string option"
  u_locale :: "string option"
  u_isAllowed :: bool
  u_planCode :: plan_code
  u_subscriptionStatus :: subscription_status
  u_stripeCustomerId :: "string option"
  u_stripeSubscriptionId :: "string option"
  u_trialEndsAt :: "instant option"
  u_currentPeriodStart :: "instant option"
  u_currentPeriodEnd :: "instant option"
  u_paidThroughAt :: "instant option"
  u_createdAt :: instant
  u_updatedAt :: instant

section \<open>email_addresses, allow_rules, inbound_domains\<close>

datatype alias_status = Active | Paused | Deleted

record alias_row =
  al_id :: uuid
  al_localPart :: string
  al_fullAddress :: string
  al_domainId :: "uuid option"
  al_chatId :: bigint
  al_messageThreadId :: "bigint option"
  al_createdBy :: bigint
  al_label :: "string option"
  al_renderMode :: string
  al_privacyModeEnabled :: bool
  al_bodyDedupEnabled :: bool
  al_status :: alias_status
  al_routingVersion :: int
  al_createdAt :: instant
  al_updatedAt :: instant

record allow_rule_row =
  ar_id :: uuid
  ar_emailAddressId :: uuid
  ar_matchType :: string
  ar_matchValue :: string

datatype domain_kind = Shared | Custom
datatype domain_status = DomainActive | DomainPending | DomainDisabled

record domain_row =
  dm_id :: uuid
  dm_userId :: "bigint option"
  dm_domain :: string
  dm_kind :: domain_kind
  dm_status :: domain_status

section \<open>chats, alias_move_events\<close>

record chat_row =
  ch_id :: bigint
  ch_title :: string
  ch_type :: string
  ch_isActive :: bool
  ch_updatedAt :: instant

datatype authz_path = AdminPath | OrphanPath | MigrationPath
datatype move_outcome = MoveSucceeded | MoveFailed

record move_event_row =
  ev_operationId :: uuid
  ev_aliasId :: uuid
  ev_aliasOwnerId :: bigint
  ev_actorId :: "bigint option"
  ev_authzPath :: authz_path
  ev_oldChatId :: bigint
  ev_newChatId :: bigint
  ev_oldThreadId :: "bigint option"
  ev_newThreadId :: "bigint option"
  ev_outcome :: move_outcome

section \<open>delivery_logs, delivery_attempts, delivery_view_links\<close>

datatype delivery_status = Received | Processing | Retrying | Failed | Delivered | PermanentlyFailed

record encryption_meta =
  enc_mode :: string
  enc_wrappedDek :: "string option"
  enc_kekKeyId :: "string option"
  enc_encryptedAt :: "instant option"

record metadata_columns =
  md_envelopeFrom :: "string option"
  md_headerFrom :: "string option"
  md_subject :: "string option"
  md_ciphertext :: "string option"
  md_encryption :: encryption_meta

record log_row =
  dl_id :: uuid
  dl_emailAddressId :: uuid
  dl_userId :: "bigint option"
  dl_messageIdHeader :: "string option"
  dl_bodySha256 :: "string option"
  dl_bodyDedupApplied :: bool
  dl_metadata :: metadata_columns
  dl_receivedAt :: instant
  dl_processingStartedAt :: "instant option"
  dl_rawSizeBytes :: int
  dl_rawEmailPath :: "string option"
  dl_rawEmailEncryption :: encryption_meta
  dl_hasAttachments :: bool
  dl_finalStatus :: delivery_status

datatype attempt_status = AttemptSucceeded | AttemptFailed

datatype error_class =
  FloodWait | Forbidden | ChatNotFound | Migrated | BadRequest | Timeout | Network | Server | Other | Unknown

record attempt_row =
  da_deliveryLogId :: uuid
  da_attemptNo :: int
  da_targetChatId :: bigint
  da_targetThreadId :: "bigint option"
  da_telegramMessageId :: "bigint option"
  da_status :: attempt_status
  da_errorText :: "string option"
  da_errorClass :: "error_class option"
  da_createdAt :: instant

record view_link_row =
  vl_id :: uuid
  vl_deliveryLogId :: uuid
  vl_tokenHash :: string
  vl_expiresAt :: instant
  vl_viewedAt :: "instant option"

section \<open>attachments, attachment_links, usage and quota tables\<close>

record attachment_row =
  at_id :: uuid
  at_deliveryLogId :: uuid
  at_originalFilename :: "string option"
  at_contentType :: "string option"
  at_sizeBytes :: "int option"
  at_sha256 :: string
  at_storagePath :: string
  at_encryption :: encryption_meta
  at_createdAt :: instant

record link_row =
  ln_id :: uuid
  ln_attachmentId :: uuid
  ln_tokenHash :: string
  ln_expiresAt :: instant
  ln_downloadedAt :: "instant option"

record usage_row =
  um_userId :: bigint
  um_month :: string
  um_deliveredCount :: int
  um_rejectedCount :: int
  um_egressBytes :: bigint

record storage_row =
  su_userId :: bigint
  su_rawEmailBytes :: bigint
  su_attachmentBytes :: bigint

datatype quota_notice = MonthlyEmailLimitNotice | StorageLimitNotice | SubscriptionInactiveNotice | ApproachingLimitNotice

record quota_row =
  qn_userId :: bigint
  qn_reason :: quota_notice
  qn_month :: string
  qn_sentAt :: instant

section \<open>alias_activation\<close>

record activation_row =
  av_aliasId :: uuid
  av_firstDeliveredAt :: "instant option"
  av_claimsUsed :: int
  av_lastClaimAt :: "instant option"
  av_firstNoticeAt :: "instant option"
  av_token :: "string option"
  av_expiresAt :: "instant option"
  av_domain :: "string option"
  av_chatId :: "bigint option"
  av_routingVersion :: "int option"
  av_sentAt :: "instant option"
  av_firstSentAt :: "instant option"

section \<open>billing_webhook_events, manual_billing_events\<close>

record webhook_event_row =
  bw_eventId :: string
  bw_eventType :: string

record manual_event_row =
  mb_id :: uuid
  mb_telegramUserId :: bigint
  mb_planCode :: plan_code
  mb_subscriptionStatus :: subscription_status
  mb_paidThroughAt :: "instant option"
  mb_paymentReference :: "string option"
  mb_note :: "string option"
  mb_keptStripeLink :: bool
  mb_operatorSource :: string
  mb_createdAt :: instant

section \<open>hosted_onboarding_attempts, hosted_inbound_blocks\<close>

record bucket_row =
  hb_bucketType :: string
  hb_bucketKey :: string
  hb_windowStart :: string
  hb_attempts :: int

datatype block_type = SenderEmailBlock | SenderDomainBlock | RecipientDomainBlock | LocalPartBlock

record inbound_block_row =
  ib_id :: uuid
  ib_blockType :: block_type
  ib_value :: string
  ib_reason :: "string option"

section \<open>worker_request_nonces\<close>

record nonce_row =
  wn_signatureHash :: string
  wn_requestTimestamp :: instant
  wn_createdAt :: instant

section \<open>The database\<close>

record db =
  users :: "user_row list"
  aliases :: "alias_row list"
  allowRules :: "allow_rule_row list"
  inboundDomains :: "domain_row list"
  chats :: "chat_row list"
  aliasMoveEvents :: "move_event_row list"
  deliveryLogs :: "log_row list"
  deliveryAttempts :: "attempt_row list"
  deliveryViewLinks :: "view_link_row list"
  attachments :: "attachment_row list"
  attachmentLinks :: "link_row list"
  userUsageMonths :: "usage_row list"
  userStorageUsage :: "storage_row list"
  userQuotaNotifications :: "quota_row list"
  aliasActivation :: "activation_row list"
  billingWebhookEvents :: "webhook_event_row list"
  manualBillingEvents :: "manual_event_row list"
  hostedOnboardingAttempts :: "bucket_row list"
  hostedInboundBlocks :: "inbound_block_row list"
  workerRequestNonces :: "nonce_row list"

definition empty_db :: db where
  "empty_db = \<lparr> users = [], aliases = [], allowRules = [], inboundDomains = [], chats = [],
     aliasMoveEvents = [], deliveryLogs = [], deliveryAttempts = [], deliveryViewLinks = [],
     attachments = [], attachmentLinks = [], userUsageMonths = [], userStorageUsage = [],
     userQuotaNotifications = [], aliasActivation = [],
     billingWebhookEvents = [], manualBillingEvents = [], hostedOnboardingAttempts = [], hostedInboundBlocks = [], workerRequestNonces = [] \<rparr>"

lemma empty_db_simps [simp]:
  "users empty_db = []" "aliases empty_db = []" "allowRules empty_db = []" "inboundDomains empty_db = []" "chats empty_db = []"
  "aliasMoveEvents empty_db = []" "deliveryLogs empty_db = []" "deliveryAttempts empty_db = []" "deliveryViewLinks empty_db = []"
  "attachments empty_db = []" "attachmentLinks empty_db = []" "userUsageMonths empty_db = []" "userStorageUsage empty_db = []"
  "userQuotaNotifications empty_db = []" "aliasActivation empty_db = []"
  "billingWebhookEvents empty_db = []" "manualBillingEvents empty_db = []"
  "hostedOnboardingAttempts empty_db = []" "hostedInboundBlocks empty_db = []" "workerRequestNonces empty_db = []"
  by (simp_all add: empty_db_def)

definition no_encryption :: encryption_meta where
  "no_encryption = \<lparr> enc_mode = ''none'', enc_wrappedDek = None, enc_kekKeyId = None, enc_encryptedAt = None \<rparr>"

end
