(* ===== verification/Plans.thy ===== *)
theory Plans
  imports Schema
begin

text \<open>
  The plan table (\<open>src/billing/plans.ts\<close>): the code defaults, the operator's overrides merged
  over them field by field, and the lookups.  The module variable \<open>effectivePlans\<close> is the argument
  of the lookups; \<open>applyPlanLimitOverrides\<close> computes its new value.
\<close>

record plan_limits =
  lim_aliases :: int
  lim_allowRules :: int
  lim_deliveredEmailsMonth :: int
  lim_egressBytesMonth :: int
  lim_storageBytes :: int
  lim_maxMessageBytes :: int
  lim_retentionDays :: int
  lim_customDomains :: int
  lim_aliasEmailsPerHour :: int

record plan_definition =
  pl_code :: plan_code
  pl_name :: string
  pl_monthlyPriceUsd :: "int option"
  pl_yearlyPriceUsd :: "int option"
  pl_limits :: plan_limits

definition mib :: int where "mib = 1024 * 1024"
definition gib :: int where "gib = 1024 * mib"

fun plan_defaults :: "plan_code \<Rightarrow> plan_definition" where
  "plan_defaults Free = \<lparr> pl_code = Free, pl_name = ''Free'', pl_monthlyPriceUsd = Some 0,
     pl_yearlyPriceUsd = Some 0, pl_limits = \<lparr> lim_aliases = 3, lim_allowRules = 10,
       lim_deliveredEmailsMonth = 200, lim_egressBytesMonth = gib, lim_storageBytes = 100 * mib,
       lim_maxMessageBytes = 5 * mib, lim_retentionDays = 7, lim_customDomains = 0,
       lim_aliasEmailsPerHour = 60 \<rparr> \<rparr>"
| "plan_defaults Personal = \<lparr> pl_code = Personal, pl_name = ''Personal'', pl_monthlyPriceUsd = Some 5,
     pl_yearlyPriceUsd = Some 48, pl_limits = \<lparr> lim_aliases = 10, lim_allowRules = 50,
       lim_deliveredEmailsMonth = 1000, lim_egressBytesMonth = 10 * gib, lim_storageBytes = gib,
       lim_maxMessageBytes = 10 * mib, lim_retentionDays = 30, lim_customDomains = 0,
       lim_aliasEmailsPerHour = 60 \<rparr> \<rparr>"
| "plan_defaults Pro = \<lparr> pl_code = Pro, pl_name = ''Pro'', pl_monthlyPriceUsd = Some 12,
     pl_yearlyPriceUsd = Some 120, pl_limits = \<lparr> lim_aliases = 50, lim_allowRules = 500,
       lim_deliveredEmailsMonth = 10000, lim_egressBytesMonth = 100 * gib, lim_storageBytes = 10 * gib,
       lim_maxMessageBytes = 25 * mib, lim_retentionDays = 90, lim_customDomains = 0,
       lim_aliasEmailsPerHour = 60 \<rparr> \<rparr>"
| "plan_defaults Team = \<lparr> pl_code = Team, pl_name = ''Team'', pl_monthlyPriceUsd = Some 29,
     pl_yearlyPriceUsd = Some 290, pl_limits = \<lparr> lim_aliases = 200, lim_allowRules = 2000,
       lim_deliveredEmailsMonth = 100000, lim_egressBytesMonth = 500 * gib, lim_storageBytes = 50 * gib,
       lim_maxMessageBytes = 25 * mib, lim_retentionDays = 180, lim_customDomains = 3,
       lim_aliasEmailsPerHour = 60 \<rparr> \<rparr>"
| "plan_defaults Business = \<lparr> pl_code = Business, pl_name = ''Business'', pl_monthlyPriceUsd = None,
     pl_yearlyPriceUsd = None, pl_limits = \<lparr> lim_aliases = 1000, lim_allowRules = 10000,
       lim_deliveredEmailsMonth = 1000000, lim_egressBytesMonth = 5000 * gib, lim_storageBytes = 500 * gib,
       lim_maxMessageBytes = 25 * mib, lim_retentionDays = 365, lim_customDomains = 25,
       lim_aliasEmailsPerHour = 60 \<rparr> \<rparr>"

text \<open>\<open>Partial<PlanLimits>\<close>: a limit that is not given keeps its default.\<close>

record limit_overrides =
  ov_aliases :: "int option"
  ov_allowRules :: "int option"
  ov_deliveredEmailsMonth :: "int option"
  ov_egressBytesMonth :: "int option"
  ov_storageBytes :: "int option"
  ov_maxMessageBytes :: "int option"
  ov_retentionDays :: "int option"
  ov_customDomains :: "int option"
  ov_aliasEmailsPerHour :: "int option"

type_synonym plan_limit_overrides = "plan_code \<rightharpoonup> limit_overrides"
type_synonym plan_table = "plan_code \<Rightarrow> plan_definition"

definition merge_limits :: "plan_limits \<Rightarrow> limit_overrides \<Rightarrow> plan_limits" where
  "merge_limits l v = \<lparr>
     lim_aliases = or_else (ov_aliases v) (lim_aliases l),
     lim_allowRules = or_else (ov_allowRules v) (lim_allowRules l),
     lim_deliveredEmailsMonth = or_else (ov_deliveredEmailsMonth v) (lim_deliveredEmailsMonth l),
     lim_egressBytesMonth = or_else (ov_egressBytesMonth v) (lim_egressBytesMonth l),
     lim_storageBytes = or_else (ov_storageBytes v) (lim_storageBytes l),
     lim_maxMessageBytes = or_else (ov_maxMessageBytes v) (lim_maxMessageBytes l),
     lim_retentionDays = or_else (ov_retentionDays v) (lim_retentionDays l),
     lim_customDomains = or_else (ov_customDomains v) (lim_customDomains l),
     lim_aliasEmailsPerHour = or_else (ov_aliasEmailsPerHour v) (lim_aliasEmailsPerHour l) \<rparr>"

definition build_effective_plans :: "plan_limit_overrides \<Rightarrow> plan_table" where
  "build_effective_plans ov code =
     (let defaults = plan_defaults code
      in case ov code of
           None \<Rightarrow> defaults
         | Some v \<Rightarrow> defaults\<lparr>pl_limits := merge_limits (pl_limits defaults) v\<rparr>)"

text \<open>\<open>applyPlanLimitOverrides\<close> replaces the module's table; the previous one plays no part.\<close>

definition apply_plan_limit_overrides :: "plan_table \<Rightarrow> plan_limit_overrides \<Rightarrow> plan_table" where
  "apply_plan_limit_overrides current ov = build_effective_plans ov"

definition plan_codes :: "plan_code list" where
  "plan_codes = [Free, Personal, Pro, Team, Business]"

definition self_serve_plan_codes :: "plan_code list" where
  "self_serve_plan_codes = [Personal, Pro, Team]"

definition non_free_plan_codes :: "plan_code list" where
  "non_free_plan_codes = filter (\<lambda>c. c \<noteq> Free) plan_codes"

fun plan_code_name :: "plan_code \<Rightarrow> string" where
  "plan_code_name Free = ''free''"
| "plan_code_name Personal = ''personal''"
| "plan_code_name Pro = ''pro''"
| "plan_code_name Team = ''team''"
| "plan_code_name Business = ''business''"

definition is_plan_code :: "string \<Rightarrow> bool" where
  "is_plan_code s = list_ex (\<lambda>c. plan_code_name c = s) plan_codes"

definition get_plan_definition :: "plan_table \<Rightarrow> plan_code \<Rightarrow> plan_definition" where
  "get_plan_definition plans code = plans code"

definition list_plan_definitions :: "plan_table \<Rightarrow> plan_definition list" where
  "list_plan_definitions plans = map plans plan_codes"

lemma plan_codes_complete: "c \<in> set plan_codes"
  by (cases c) (simp_all add: plan_codes_def)

lemma plan_code_name_inject [simp]: "plan_code_name c = plan_code_name d \<longleftrightarrow> c = d"
  by (cases c; cases d) simp_all

lemma is_plan_code_iff: "is_plan_code s \<longleftrightarrow> (\<exists>c. plan_code_name c = s)"
  using plan_codes_complete by (auto simp: is_plan_code_def list_ex_iff)

lemma build_effective_code [simp]: "pl_code (build_effective_plans ov c) = c"
  by (cases c) (auto simp: build_effective_plans_def Let_def split: option.splits)

lemma build_effective_default: "ov c = None \<Longrightarrow> build_effective_plans ov c = plan_defaults c"
  by (simp add: build_effective_plans_def)

lemma merge_limits_id:
  "merge_limits l \<lparr> ov_aliases = None, ov_allowRules = None, ov_deliveredEmailsMonth = None,
     ov_egressBytesMonth = None, ov_storageBytes = None, ov_maxMessageBytes = None,
     ov_retentionDays = None, ov_customDomains = None, ov_aliasEmailsPerHour = None \<rparr> = l"
  by (simp add: merge_limits_def)

lemma list_plan_definitions_codes:
  "map pl_code (list_plan_definitions (build_effective_plans ov)) = plan_codes"
  by (simp add: list_plan_definitions_def comp_def)

end
