(* ===== verification/Libraries.thy ===== *)
theory Libraries
  imports Plans
begin

text \<open>
  The values the program gets from third-party code: what \<open>mailparser\<close> makes of a raw email, what
  \<open>mailauth\<close> reports about its sender, what the HTML renderer behind \<open>structuredEmailHtml.ts\<close>
  returns, and the metadata files of received emails that are not in the database yet.  The functions
  that produce them are fields of the environment (theory \<open>Effects\<close>).
\<close>

type_synonym bytes = string

section \<open>mailparser\<close>

datatype mail_address = MailAddress "string option" "string option" | MailGroup "string option" "mail_address list"

fun address_of :: "mail_address \<Rightarrow> string option" where
  "address_of (MailAddress n a) = a"
| "address_of (MailGroup n ms) = None"

record mail_attachment =
  ma_filename :: "string option"
  ma_contentType :: string
  ma_size :: "int option"
  ma_content :: bytes

record mail =
  ml_from :: "(mail_address list \<times> string) option"  \<comment> \<open>\<open>from.value\<close> and \<open>from.text\<close>\<close>
  ml_text :: "string option"
  ml_html :: "string option"                          \<comment> \<open>None for \<open>false\<close> and \<open>undefined\<close>\<close>
  ml_messageId :: "string option"
  ml_subject :: "string option"
  ml_attachments :: "mail_attachment list"

section \<open>mailauth\<close>

record dkim_result =
  dk_result :: string
  dk_signingDomain :: "string option"
  dk_aligned :: "string option"     \<comment> \<open>the aligned signing domain; None for \<open>false\<close>\<close>

record mailauth_result =
  mr_dkim :: "dkim_result list"
  mr_dmarc :: "string option"       \<comment> \<open>the DMARC verdict; None for \<open>false\<close>\<close>

section \<open>HTML rendering\<close>

record structured_html =
  st_classicHtml :: string
  st_plainText :: string
  st_richHtml :: "string option"
  st_textCharacters :: int
  st_blocks :: int
  st_ineligible :: "string option"

section \<open>Master keys\<close>

text \<open>The closure \<open>createLocalKeyProvider\<close> of \<open>security/encryption.ts\<close> returns, as the data it closes over.\<close>

record key_provider =
  kp_keyId :: string
  kp_masterKey :: bytes
  kp_keys :: "(string \<times> bytes) list"

section \<open>Telegram's chat members, Stripe's prices\<close>

text \<open>What \<open>getChatMember\<close> answers, as far as the program looks at it.\<close>

record chat_member_info =
  cm_status :: string
  cm_canPostMessages :: "bool option"
  cm_canSendMessages :: "bool option"
  cm_isMember :: "bool option"

text \<open>\<open>config.stripePriceIds\<close>\<close>

record stripe_price_ids =
  sp_personalMonthly :: string
  sp_personalYearly :: string
  sp_proMonthly :: string
  sp_proYearly :: string
  sp_teamMonthly :: string
  sp_teamYearly :: string

section \<open>Pending raw emails\<close>

record pending_raw =
  pr_rawEmailPath :: string
  pr_localPart :: string
  pr_recipientDomain :: "string option"
  pr_envelopeFrom :: "string option"
  pr_encryptionMode :: "string option"
  pr_wrappedDek :: "string option"
  pr_kekKeyId :: "string option"
  pr_createdAt :: "instant option"    \<comment> \<open>None: \<open>Date.parse\<close> gives \<open>NaN\<close>\<close>

end
