(* ===== verification/Session.thy ===== *)
theory Session
  imports Prelude
begin

text \<open>
  What a user was asked for last (\<open>src/telegram/session.ts\<close>): a map in memory whose entries live thirty
  minutes after they were last written.
\<close>

datatype pending_action =
    PendingNewEmail int string "int option"              \<comment> \<open>chat, its title, topic\<close>
  | PendingAllowRule string string                       \<comment> \<open>alias, its name\<close>
  | PendingAliasLabel string "int option" "int option"   \<comment> \<open>alias, the prompt's chat and message\<close>

record user_session =
  us_pending :: "pending_action option"
  us_lastTouched :: int

type_synonym sessions = "int \<rightharpoonup> user_session"

definition session_ttl_ms :: int where "session_ttl_ms = 30 * 60 * 1000"

definition sweep :: "int \<Rightarrow> sessions \<Rightarrow> sessions" where
  "sweep now s = (\<lambda>u. case s u of Some r \<Rightarrow> if us_lastTouched r < now - session_ttl_ms then None else Some r | None \<Rightarrow> None)"

definition get_session :: "int \<Rightarrow> int \<Rightarrow> sessions \<Rightarrow> user_session \<times> sessions" where
  "get_session now u s =
     (case s u of
        None \<Rightarrow> (\<lparr> us_pending = None, us_lastTouched = now \<rparr>, s)
      | Some r \<Rightarrow>
          if session_ttl_ms < now - us_lastTouched r then (\<lparr> us_pending = None, us_lastTouched = now \<rparr>, s(u := None))
          else (r, s))"

definition get_pending :: "int \<Rightarrow> int \<Rightarrow> sessions \<Rightarrow> pending_action option \<times> sessions" where
  "get_pending now u s = (case get_session now u s of (r, s') \<Rightarrow> (us_pending r, s'))"

definition set_pending :: "int \<Rightarrow> int \<Rightarrow> pending_action \<Rightarrow> sessions \<Rightarrow> sessions" where
  "set_pending now u p s =
     (case get_session now u s of (r, s') \<Rightarrow> s'(u \<mapsto> r\<lparr> us_pending := Some p, us_lastTouched := now \<rparr>))"

definition clear_pending :: "int \<Rightarrow> int \<Rightarrow> sessions \<Rightarrow> sessions" where
  "clear_pending now u s =
     (case get_session now u s of (r, s') \<Rightarrow>
        if us_pending r \<noteq> None then s'(u \<mapsto> r\<lparr> us_pending := None, us_lastTouched := now \<rparr>) else s')"

section \<open>A prompt lives half an hour\<close>

text \<open>What may happen to the store between a prompt and the answer, each at its time.\<close>

datatype session_op = Sweep int | Look int int | Prompt int int pending_action | Forget int int

fun op_time :: "session_op \<Rightarrow> int" where
  "op_time (Sweep t) = t" | "op_time (Look t u) = t" | "op_time (Prompt t u p) = t" | "op_time (Forget t u) = t"

fun op_user :: "session_op \<Rightarrow> int option" where
  "op_user (Sweep t) = None" | "op_user (Look t u) = None" | "op_user (Prompt t u p) = Some u" | "op_user (Forget t u) = Some u"

fun run_op :: "session_op \<Rightarrow> sessions \<Rightarrow> sessions" where
  "run_op (Sweep t) s = sweep t s"
| "run_op (Look t u) s = snd (get_pending t u s)"
| "run_op (Prompt t u p) s = set_pending t u p s"
| "run_op (Forget t u) s = clear_pending t u s"

lemma run_op_keeps:
  assumes "s u = Some r" and "op_time x \<le> us_lastTouched r + session_ttl_ms" and "op_user x \<noteq> Some u"
  shows "run_op x s u = Some r"
  using assms
  by (cases x) (auto simp: sweep_def get_pending_def get_session_def set_pending_def clear_pending_def split: option.splits)

lemma run_ops_keep:
  "s u = Some r \<Longrightarrow> \<forall>x\<in>set xs. op_time x \<le> us_lastTouched r + session_ttl_ms \<and> op_user x \<noteq> Some u \<Longrightarrow> fold run_op xs s u = Some r"
  by (induction xs arbitrary: s) (simp_all add: run_op_keeps)

text \<open>A prompt is answered for half an hour and no longer: after it, whatever sweeps, looks and prompts of other users happen
  within that time, the user's next message finds it; once the time is over it is gone, and so it is after it was cleared.\<close>

theorem prompt_lives_half_an_hour:
  assumes "\<forall>x\<in>set xs. op_time x \<le> t + session_ttl_ms \<and> op_user x \<noteq> Some u"
  shows "fst (get_pending now u (fold run_op xs (set_pending t u p s))) = (if now \<le> t + session_ttl_ms then Some p else None) \<and>
    fst (get_pending now u (clear_pending t u s)) = None"
proof -
  define r where "r = (fst (get_session t u s))\<lparr> us_pending := Some p, us_lastTouched := t \<rparr>"
  have r: "set_pending t u p s u = Some r" "us_lastTouched r = t" "us_pending r = Some p"
    by (simp_all add: set_pending_def r_def case_prod_unfold)
  have "fold run_op xs (set_pending t u p s) u = Some r" using run_ops_keep [of "set_pending t u p s" u r xs] r assms by simp
  then have "fst (get_pending now u (fold run_op xs (set_pending t u p s))) = (if now \<le> t + session_ttl_ms then Some p else None)"
    using r by (auto simp: get_pending_def get_session_def)
  moreover have "fst (get_pending now u (clear_pending t u s)) = None"
    by (auto simp: clear_pending_def get_pending_def get_session_def split: option.splits)
  ultimately show ?thesis ..
qed

theorem prompt_lives_half_an_hour_witness:
  "fst (get_pending 1800000 7 (fold run_op [Look 100 8, Prompt 200 9 (PendingAllowRule ''a'' ''b''), Sweep 1800000]
      (set_pending 0 7 (PendingNewEmail 10 ''ops'' (Some 4)) Map.empty))) = Some (PendingNewEmail 10 ''ops'' (Some 4)) \<and>
   fst (get_pending 1800001 7 (fold run_op [] (set_pending 0 7 (PendingNewEmail 10 ''ops'' (Some 4)) Map.empty))) = None"
  using prompt_lives_half_an_hour [of "[Look 100 8, Prompt 200 9 (PendingAllowRule ''a'' ''b''), Sweep 1800000]" 0 7 1800000
      "PendingNewEmail 10 ''ops'' (Some 4)" Map.empty]
    prompt_lives_half_an_hour [of "[]" 0 7 1800001 "PendingNewEmail 10 ''ops'' (Some 4)" Map.empty]
  by (simp add: session_ttl_ms_def)

end
