(* ===== verification/RateLimit.thy ===== *)
theory RateLimit
  imports Schema
begin

text \<open>
  The sliding-window limiter in memory (\<open>src/utils/rateLimit.ts\<close>): per key the times of the checks it let
  pass, and a sweep that forgets the keys whose times are all over.
\<close>

type_synonym limiter_store = "string \<rightharpoonup> instant list"

definition recent :: "int \<Rightarrow> string \<Rightarrow> limiter_store \<Rightarrow> instant list" where
  "recent cutoff key s = filter (\<lambda>t. cutoff < t) (case s key of Some ts \<Rightarrow> ts | None \<Rightarrow> [])"

definition rate_check :: "nat \<Rightarrow> int \<Rightarrow> instant \<Rightarrow> string \<Rightarrow> limiter_store \<Rightarrow> bool \<times> limiter_store" where
  "rate_check limit windowMs now key s =
     (let timestamps = recent (now - windowMs) key s
      in if limit \<le> length timestamps then (False, s(key \<mapsto> timestamps)) else (True, s(key \<mapsto> timestamps @ [now])))"

definition rate_sweep :: "int \<Rightarrow> instant \<Rightarrow> limiter_store \<Rightarrow> limiter_store" where
  "rate_sweep windowMs now s =
     (\<lambda>key. case s key of Some ts \<Rightarrow> if list_all (\<lambda>t. t \<le> now - windowMs) ts then None else Some ts | None \<Rightarrow> None)"

section \<open>Against its history\<close>

text \<open>What happens to a limiter; \<open>rate_run\<close> keeps the checks that passed, the oldest first.\<close>

datatype rate_op = Check instant string | Expire instant

fun rate_time :: "rate_op \<Rightarrow> instant" where
  "rate_time (Check t k) = t" | "rate_time (Expire t) = t"

fun rate_step :: "nat \<Rightarrow> int \<Rightarrow> rate_op \<Rightarrow> (string \<times> instant) list \<times> limiter_store \<Rightarrow> (string \<times> instant) list \<times> limiter_store" where
  "rate_step m w (Check t k) (g, s) = (case rate_check m w t k s of (passed, s') \<Rightarrow> (if passed then g @ [(k, t)] else g, s'))"
| "rate_step m w (Expire t) (g, s) = (g, rate_sweep w t s)"

definition rate_run :: "nat \<Rightarrow> int \<Rightarrow> rate_op list \<Rightarrow> (string \<times> instant) list \<times> limiter_store" where
  "rate_run m w ops = fold (rate_step m w) ops ([], Map.empty)"

definition passed_in :: "int \<Rightarrow> string \<Rightarrow> (string \<times> instant) list \<Rightarrow> instant list" where
  "passed_in cutoff key g = filter (\<lambda>t. cutoff < t) (map snd (filter (\<lambda>x. fst x = key) g))"

definition in_step :: "int \<Rightarrow> (string \<times> instant) list \<Rightarrow> limiter_store \<Rightarrow> bool" where
  "in_step c g s \<longleftrightarrow> (\<forall>cutoff key. c \<le> cutoff \<longrightarrow> recent cutoff key s = passed_in cutoff key g)"

lemma in_step_later: "in_step c g s \<Longrightarrow> c \<le> c' \<Longrightarrow> in_step c' g s"
  unfolding in_step_def by auto

lemma recent_update: "recent c key (s(k \<mapsto> ts)) = (if key = k then filter (\<lambda>t. c < t) ts else recent c key s)"
  by (simp add: recent_def)

lemma filter_recent: "c \<le> c' \<Longrightarrow> filter (\<lambda>t. c' < t) (recent c key s) = recent c' key s"
  unfolding recent_def filter_filter by (rule filter_cong) auto

lemma filter_passed: "c \<le> c' \<Longrightarrow> filter ((<) c') (passed_in c key g) = passed_in c' key g"
  unfolding passed_in_def filter_filter by (rule filter_cong) auto

lemma passed_in_append: "passed_in c key (g @ [(k, t)]) = passed_in c key g @ (if key = k \<and> c < t then [t] else [])"
  by (simp add: passed_in_def)

lemma recent_sweep: "t - w \<le> c \<Longrightarrow> recent c key (rate_sweep w t s) = recent c key s"
  by (cases "s key") (auto simp: recent_def rate_sweep_def list_all_iff, subst filter_False, fastforce+)

lemma rate_step_in_step:
  assumes "in_step c g s" and "c \<le> rate_time x - w" and "rate_step m w x (g, s) = (g', s')"
  shows "in_step (rate_time x - w) g' s'"
proof (cases x)
  case (Check t k)
  then have h: "in_step (t - w) g s" using assms in_step_later by fastforce
  have "recent c' key s' = passed_in c' key g'" if "t - w \<le> c'" for c' key
    using h that assms(3) unfolding in_step_def Check
    by (auto simp: rate_check_def Let_def recent_update filter_recent filter_passed passed_in_append split: if_splits)
  then show ?thesis by (simp add: in_step_def Check)
next
  case (Expire t)
  then show ?thesis using assms in_step_later [of c g s "t - w"] by (auto simp: in_step_def recent_sweep)
qed

lemma passed_in_mono: "c \<le> c' \<Longrightarrow> length (passed_in c' key g) \<le> length (passed_in c key g)"
proof -
  assume "c \<le> c'"
  then show ?thesis by (simp add: filter_passed [symmetric])
qed

text \<open>What holds of the history: it runs up to the last operation, and no window holds more than \<open>m\<close>.\<close>

definition fair :: "nat \<Rightarrow> int \<Rightarrow> instant \<Rightarrow> (string \<times> instant) list \<Rightarrow> bool" where
  "fair m w until g \<longleftrightarrow> (\<forall>(k, t)\<in>set g. t \<le> until) \<and>
     (\<forall>key t. length (filter (\<lambda>x. fst x = key \<and> t - w < snd x \<and> snd x \<le> t) g) \<le> m)"

lemma fair_append:
  assumes "fair m w until g" and "until \<le> t" and "length (passed_in (t - w) k g) < m"
  shows "fair m w t (g @ [(k, t)])"
proof -
  have "length (filter (\<lambda>x. fst x = key \<and> u - w < snd x \<and> snd x \<le> u) (g @ [(k, t)])) \<le> m" for key u
  proof (cases "key = k \<and> u - w < t \<and> t \<le> u")
    case False
    then show ?thesis using assms(1) by (auto simp: fair_def)
  next
    case True
    have "filter (\<lambda>x. fst x = key \<and> u - w < snd x \<and> snd x \<le> u) g = filter (\<lambda>x. fst x = k \<and> u - w < snd x) g"
      using assms(1,2) True by (intro filter_cong) (auto simp: fair_def)
    also have "length \<dots> = length (passed_in (u - w) k g)"
      by (simp add: passed_in_def filter_map filter_filter comp_def)
    also have "\<dots> \<le> length (passed_in (t - w) k g)" using True by (intro passed_in_mono) simp
    finally show ?thesis using True assms(3) by simp
  qed
  moreover have "\<forall>(k', t')\<in>set (g @ [(k, t)]). t' \<le> t" using assms(1,2) by (auto simp: fair_def)
  ultimately show ?thesis unfolding fair_def by blast
qed

lemma rate_run_invariant:
  assumes "sorted (map rate_time ops)" and "rate_run m w ops = (g, s)" and "ops \<noteq> [] \<Longrightarrow> rate_time (last ops) \<le> t"
  shows "in_step (t - w) g s \<and> fair m w t g"
  using assms
proof (induction ops arbitrary: g s t rule: rev_induct)
  case Nil
  then have "g = []" "s = Map.empty" by (auto simp: rate_run_def)
  then show ?case by (simp add: in_step_def fair_def recent_def passed_in_def)
next
  case (snoc x ops)
  obtain g0 s0 where r: "rate_run m w ops = (g0, s0)" by fastforce
  have last: "rate_time (last ops) \<le> rate_time x" if "ops \<noteq> []" using snoc.prems(1) that by (simp add: sorted_append)
  have ih: "in_step (rate_time x - w) g0 s0" "fair m w (rate_time x) g0"
    using snoc.IH [OF _ r last] snoc.prems(1) by (simp_all add: sorted_append)
  have step: "rate_step m w x (g0, s0) = (g, s)" using snoc.prems(2) r by (simp add: rate_run_def)
  have "in_step (t - w) g s" using rate_step_in_step [OF ih(1) _ step] in_step_later snoc.prems(3) by fastforce
  moreover have "fair m w (rate_time x) g"
  proof (cases x)
    case (Check u k)
    have "recent (u - w) k s0 = passed_in (u - w) k g0" using ih(1) by (simp add: in_step_def Check)
    then show ?thesis using step ih(2) fair_append [of m w "rate_time x" g0 u k]
      by (auto simp: Check rate_check_def Let_def not_le split: if_splits)
  next
    case (Expire u)
    then show ?thesis using step ih(2) by simp
  qed
  then have "fair m w t g" using snoc.prems(3) by (fastforce simp: fair_def)
  ultimately show ?case ..
qed

text \<open>A limiter is a sliding window: whatever checks and sweeps came before, a check passes exactly if fewer than \<open>m\<close> checks
  of its key passed within the window that ends now, and so no window of that length ever holds more than \<open>m\<close> of them.\<close>

theorem limiter_is_a_sliding_window:
  assumes "sorted (map rate_time ops)" and "\<forall>x\<in>set ops. rate_time x \<le> t" and "rate_run m w ops = (g, s)"
  shows "(fst (rate_check m w t key s) \<longleftrightarrow> length (filter (\<lambda>x. fst x = key \<and> t - w < snd x) g) < m) \<and>
    (\<forall>u. length (filter (\<lambda>x. fst x = key \<and> u - w < snd x \<and> snd x \<le> u) g) \<le> m)"
proof -
  have i: "in_step (t - w) g s" "fair m w t g" using rate_run_invariant [OF assms(1,3)] assms(2) by simp_all
  have "recent (t - w) key s = passed_in (t - w) key g" using i(1) by (simp add: in_step_def)
  moreover have "length (passed_in (t - w) key g) = length (filter (\<lambda>x. fst x = key \<and> t - w < snd x) g)"
    by (simp add: passed_in_def filter_map filter_filter comp_def)
  ultimately show ?thesis using i(2) by (auto simp: rate_check_def Let_def fair_def)
qed

lemma limiter_is_a_sliding_window_witness:
  "let (g, s) = rate_run 2 100 [Check 0 ''a'', Check 50 ''a'', Check 60 ''a'', Expire 90, Check 95 ''b'']
   in g = [(''a'', 0), (''a'', 50), (''b'', 95)] \<and> \<not> fst (rate_check 2 100 99 ''a'' s) \<and> fst (rate_check 2 100 100 ''a'' s)"
proof -
  let ?ops = "[Check 0 ''a'', Check 50 ''a'', Check 60 ''a'', Expire 90, Check 95 ''b'']"
  obtain g s where r: "rate_run 2 100 ?ops = (g, s)" by fastforce
  have g: "g = [(''a'', 0), (''a'', 50), (''b'', 95)]" using r
    by (auto simp: rate_run_def rate_check_def rate_sweep_def recent_def)
  show ?thesis using limiter_is_a_sliding_window [of ?ops 99 2 100 g s "''a''"] limiter_is_a_sliding_window [of ?ops 100 2 100 g s "''a''"] r g
    by simp
qed

end
