(* ===== verification/Effects.thy ===== *)
theory Effects
  imports Libraries Session RateLimit
begin

text \<open>
  The effect layer: what an \<open>async\<close> function of the program does to the world around it.

  A computation of type \<open>'a io\<close> reads an environment (everything the program does not control:
  the clock, the outcome of each database round trip, Telegram's answers, the disk, fresh
  identifiers, hashes) and maps a world to a result, an exception or a value, and the next world.
  Every interaction with the environment consumes one tick, and the environment is an arbitrary
  function of the tick, so a theorem about all environments covers every schedule of failures.

  Database statements and transactions follow PostgreSQL as the driver presents it:
  \<^item> a statement may be refused by the server, or run with its acknowledgement lost;
  \<^item> after an error inside a transaction the transaction is aborted: every later statement of it
    fails and \<open>COMMIT\<close> rolls back without raising;
  \<^item> after a lost connection inside a transaction every later statement fails and \<open>COMMIT\<close> raises;
  \<^item> a callback that throws rolls the transaction back and the exception passes on.
  Statements of other clients between two ticks are not modelled: the operations that need it take
  advisory locks, which make the transactions that share a lock one after another.
\<close>

section \<open>Telegram requests and errors\<close>

text \<open>What a rejected Bot API call throws: grammY's error with code, description and the migrate
  hint, or any other error with its message (a timeout, a network failure).\<close>

datatype send_error =
    BotApiError (api_code: int) (api_description: string) (api_migrate: "bigint option")
  | PlainError (plain_message: string)

record send_target =
  tgt_chat :: bigint
  tgt_thread :: "bigint option"

datatype tg_request =
    SendMessage send_target "string option" string            \<comment> \<open>parse mode, text\<close>
  | SendRichMessage send_target string                        \<comment> \<open>html\<close>
  | SendPhoto send_target "int option" string                 \<comment> \<open>reply id, photo\<close>
  | SendMediaGroup send_target "int option" "string list"
  | SendNotice send_target string "string list"               \<comment> \<open>HTML text, callback data of its buttons\<close>

fun request_target :: "tg_request \<Rightarrow> send_target" where
  "request_target (SendMessage t p s) = t"
| "request_target (SendRichMessage t h) = t"
| "request_target (SendPhoto t r p) = t"
| "request_target (SendMediaGroup t r ps) = t"
| "request_target (SendNotice t s bs) = t"

text \<open>What a handler of the bot asks Telegram for in the chat of the update: the message by its key in the catalogue,
  buttons by their callback data.\<close>

datatype bot_request =
    AnswerCallback "string option"
  | ReplyText string "string list"
  | EditText string "string list"
  | EditKeyboard "string list"
  | DeleteMenu
  | ReplyDocument

section \<open>World and environment\<close>

datatype exn =
    DbRefused                \<comment> \<open>the server refused the statement, or the connection is gone\<close>
  | TxAborted                \<comment> \<open>a statement of an aborted transaction\<close>
  | QueryError string        \<comment> \<open>DrizzleQueryError around a driver error with this SQLSTATE on \<open>cause\<close>\<close>
  | NotFound                 \<comment> \<open>ENOENT\<close>
  | DiskError
  | Thrown string            \<comment> \<open>\<open>new Error(message)\<close>\<close>
  | Raised string            \<comment> \<open>an instance of an error class of the program, by its name\<close>

datatype event =
    Requested tg_request
  | FileWritten string
  | FileDeleted string
  | DirDeleted string
  | LostDelivery             \<comment> \<open>\<open>recordDeliveryLost\<close>\<close>
  | Replied nat string       \<comment> \<open>HTTP status and body of the response\<close>
  | NoticeOffered string uuid "string option" "string option" "bytes option"
      \<comment> \<open>a bounce offered to the notice queue: stage, alias, From domain, envelope sender, MIME\<close>

datatype fault = Fine | Refused | AckLost

datatype tx_state = NoTx | InTx | Aborted | Broken

record world =
  w_db :: db
  w_tick :: nat
  w_tx :: tx_state
  w_txNow :: instant         \<comment> \<open>\<open>now()\<close> of the running transaction\<close>
  w_trace :: "event list"
  w_richUnavailable :: bool  \<comment> \<open>\<open>richMessageMethodUnavailable\<close> of \<open>sender.ts\<close>\<close>
  w_memberCache :: "((bigint \<times> bigint) \<times> (bool \<times> instant)) list"   \<comment> \<open>\<open>chatMemberCache\<close>: chat and user, result, expiry\<close>
  w_reachCache :: "(bigint \<times> (bool \<times> instant)) list"   \<comment> \<open>\<open>reachabilityCache\<close>: is the chat dead, expiry\<close>
  w_sessions :: sessions                \<comment> \<open>\<open>sessions\<close> of \<open>session.ts\<close>\<close>
  w_authLimiter :: limiter_store        \<comment> \<open>\<open>limiter\<close> of \<open>middleware/auth.ts\<close>\<close>
  w_preAuthLimiter :: limiter_store     \<comment> \<open>\<open>preAuthLimiter\<close> of \<open>bot.ts\<close>\<close>
  w_lastExportAt :: "bigint \<rightharpoonup> instant"   \<comment> \<open>\<open>lastExportAt\<close> of \<open>exportme.ts\<close>\<close>

record env =
  db_fault :: "nat \<Rightarrow> fault"
  error_code :: "exn \<Rightarrow> string option"   \<comment> \<open>the own \<open>code\<close> property of a thrown value, if it has one\<close>
  clock :: "nat \<Rightarrow> instant"
  fresh_uuid :: "nat \<Rightarrow> uuid"
  telegram :: "nat \<Rightarrow> tg_request \<Rightarrow> send_error + int"
  telegram_chat :: "nat \<Rightarrow> bigint \<Rightarrow> send_error + (string option \<times> string)"
  disk_write :: "nat \<Rightarrow> string \<Rightarrow> exn option"
  disk_delete :: "nat \<Rightarrow> string \<Rightarrow> exn option"
  disk_read :: "nat \<Rightarrow> string \<Rightarrow> exn + bytes"
  disk_list :: "nat \<Rightarrow> string \<Rightarrow> exn + (string \<times> bool) list"   \<comment> \<open>names; is it a directory\<close>
  disk_mtime :: "nat \<Rightarrow> string \<Rightarrow> exn + instant"
  disk_delete_dir :: "nat \<Rightarrow> string \<Rightarrow> exn option"
  sha256 :: "string \<Rightarrow> string"
  hmac_sha256 :: "string \<Rightarrow> string \<Rightarrow> string"
  random_hex :: "nat \<Rightarrow> string"          \<comment> \<open>\<open>randomBytes(16).toString("hex")\<close>\<close>
  nanoid_suffix :: "nat \<Rightarrow> string"       \<comment> \<open>\<open>customAlphabet("a..z0..9", 8)()\<close>\<close>
  hmac_secret :: "string option"
  active_provider :: "key_provider option"   \<comment> \<open>\<open>activeProvider\<close> of \<open>encryption.ts\<close>, set once at startup\<close>
  random_bytes :: "nat \<Rightarrow> nat \<Rightarrow> bytes"
  aes_keystream :: "bytes \<Rightarrow> bytes \<Rightarrow> nat \<Rightarrow> nat"   \<comment> \<open>AES-256 in counter mode: key, iv, position\<close>
  gcm_tag :: "bytes \<Rightarrow> bytes \<Rightarrow> string \<Rightarrow> bytes \<Rightarrow> bytes"   \<comment> \<open>key, iv, additional data, ciphertext\<close>
  app_mode_env :: "string option"
  config_app_mode :: "string option"   \<comment> \<open>None: \<open>loadConfig\<close> throws\<close>
  plan_table :: plan_table
  foreign_message :: "exn \<Rightarrow> string"    \<comment> \<open>the message of an error the program did not create\<close>
  disk_open :: "nat \<Rightarrow> string \<Rightarrow> exn option"
  pending_raws :: "nat \<Rightarrow> exn + pending_raw list"
  bot_healthy :: "nat \<Rightarrow> bool"
  should_stop :: "nat \<Rightarrow> bool"
  pipeline_active :: "nat \<Rightarrow> uuid \<Rightarrow> bool"   \<comment> \<open>\<open>pipelineTracker.isActive\<close>: a request of this process works on the log\<close>
  read_chunks :: "bytes \<Rightarrow> bytes list"       \<comment> \<open>how a read stream cuts a file\<close>
  parse_mail :: "bytes \<Rightarrow> exn + mail"
  mailauth :: "nat \<Rightarrow> bytes \<Rightarrow> string option \<Rightarrow> exn + mailauth_result"
  domain_to_ascii :: "string \<Rightarrow> string"
  domain_to_unicode :: "string \<Rightarrow> string"
  structured_email_html :: "string \<Rightarrow> structured_html"
  quota_text :: "string option \<Rightarrow> quota_notice \<Rightarrow> plan_definition \<Rightarrow> int \<Rightarrow> exn + string"
  chat_member :: "nat \<Rightarrow> bigint \<Rightarrow> bigint \<Rightarrow> send_error + chat_member_info"   \<comment> \<open>chat, user\<close>
  bot_id :: "nat \<Rightarrow> send_error + bigint"
  shutting_down :: "nat \<Rightarrow> bool"
  auth_slot :: "nat \<Rightarrow> bool"              \<comment> \<open>an authentication slot became free within the budget\<close>
  auth_in_time :: "nat \<Rightarrow> bool"           \<comment> \<open>the authentication settled within the budget\<close>
  in_flight :: "nat \<Rightarrow> int"                \<comment> \<open>\<open>pipelineTracker.inFlight\<close>\<close>
  catalogue :: "string option \<Rightarrow> string \<Rightarrow> string list \<Rightarrow> string"   \<comment> \<open>the message catalogue: locale, key, arguments\<close>
  worker_secret :: "string option"
  parse_number :: "string \<Rightarrow> int option"  \<comment> \<open>\<open>Number(s)\<close> in whole milliseconds, None for \<open>NaN\<close>\<close>
  stripe_prices :: "stripe_price_ids option"
  stripe_enabled :: bool                     \<comment> \<open>\<open>billingProvider\<close> is \<open>stripe\<close> and the secret key is set\<close>
  stripe_create_customer :: "nat \<Rightarrow> string \<Rightarrow> exn + string"          \<comment> \<open>idempotency key; the customer's id\<close>
  stripe_create_session :: "nat \<Rightarrow> string list \<Rightarrow> exn + string option"  \<comment> \<open>customer, reference, price, plan, interval; the URL\<close>
  stripe_create_portal :: "nat \<Rightarrow> string \<Rightarrow> exn + string"            \<comment> \<open>customer; the URL\<close>
  name_suffix :: "nat \<Rightarrow> string"             \<comment> \<open>\<open>customAlphabet("a..z0..9", 6)()\<close>\<close>
  mail_domain :: string
  hosted_mail_domain :: "string option"
  stream_outcome :: "nat \<Rightarrow> int \<times> bool"       \<comment> \<open>bytes of a response that left, and whether it finished\<close>
  bot_refusal :: "nat \<Rightarrow> bot_request \<Rightarrow> send_error option"   \<comment> \<open>None: Telegram did it\<close>

type_synonym 'a io = "env \<Rightarrow> world \<Rightarrow> (exn + 'a) \<times> world"

section \<open>Sequencing and exceptions\<close>

definition ret :: "'a \<Rightarrow> 'a io" where
  "ret a e w = (Inr a, w)"

definition throw :: "exn \<Rightarrow> 'a io" where
  "throw x e w = (Inl x, w)"

definition bind :: "'a io \<Rightarrow> ('a \<Rightarrow> 'b io) \<Rightarrow> 'b io" where
  "bind m f e w = (case m e w of (Inl x, w') \<Rightarrow> (Inl x, w') | (Inr a, w') \<Rightarrow> f a e w')"

definition catch :: "'a io \<Rightarrow> (exn \<Rightarrow> 'a io) \<Rightarrow> 'a io" where
  "catch m h e w = (case m e w of (Inl x, w') \<Rightarrow> h x e w' | (Inr a, w') \<Rightarrow> (Inr a, w'))"

definition ask :: "(env \<Rightarrow> 'a) \<Rightarrow> 'a io" where
  "ask f e w = (Inr (f e), w)"

definition of_result :: "exn + 'a \<Rightarrow> 'a io" where
  "of_result r e w = (r, w)"

fun for_each :: "'a list \<Rightarrow> ('a \<Rightarrow> unit io) \<Rightarrow> unit io" where
  "for_each [] f = ret ()"
| "for_each (x # xs) f = bind (f x) (\<lambda>_. for_each xs f)"

text \<open>\<open>Promise.all(xs.map(f))\<close>, one element after another.\<close>

fun for_map :: "'a list \<Rightarrow> ('a \<Rightarrow> 'b io) \<Rightarrow> 'b list io" where
  "for_map [] f = ret []"
| "for_map (x # xs) f = bind (f x) (\<lambda>y. bind (for_map xs f) (\<lambda>ys. ret (y # ys)))"

definition emit :: "event \<Rightarrow> unit io" where
  "emit v e w = (Inr (), w\<lparr>w_trace := w_trace w @ [v]\<rparr>)"

text \<open>The caches the process keeps in memory.\<close>

definition peek :: "(world \<Rightarrow> 'a) \<Rightarrow> 'a io" where
  "peek f e w = (Inr (f w), w)"

definition set_member_cache :: "((bigint \<times> bigint) \<times> (bool \<times> instant)) list \<Rightarrow> unit io" where
  "set_member_cache c e w = (Inr (), w\<lparr>w_memberCache := c\<rparr>)"

definition set_reach_cache :: "(bigint \<times> (bool \<times> instant)) list \<Rightarrow> unit io" where
  "set_reach_cache c e w = (Inr (), w\<lparr>w_reachCache := c\<rparr>)"

definition set_sessions :: "sessions \<Rightarrow> unit io" where
  "set_sessions s e w = (Inr (), w\<lparr>w_sessions := s\<rparr>)"

definition set_auth_limiter :: "limiter_store \<Rightarrow> unit io" where
  "set_auth_limiter s e w = (Inr (), w\<lparr>w_authLimiter := s\<rparr>)"

definition set_pre_auth_limiter :: "limiter_store \<Rightarrow> unit io" where
  "set_pre_auth_limiter s e w = (Inr (), w\<lparr>w_preAuthLimiter := s\<rparr>)"

definition set_last_export :: "(bigint \<rightharpoonup> instant) \<Rightarrow> unit io" where
  "set_last_export s e w = (Inr (), w\<lparr>w_lastExportAt := s\<rparr>)"

lemmas cache_simps = peek_def set_member_cache_def set_reach_cache_def set_sessions_def set_auth_limiter_def
  set_pre_auth_limiter_def set_last_export_def

section \<open>Reading the environment\<close>

definition at_tick :: "(env \<Rightarrow> nat \<Rightarrow> 'a) \<Rightarrow> 'a io" where
  "at_tick f e w = (Inr (f e (w_tick w)), w\<lparr>w_tick := Suc (w_tick w)\<rparr>)"

definition now :: "instant io" where "now = at_tick clock"

definition random_uuid :: "uuid io" where "random_uuid = at_tick fresh_uuid"

definition call_telegram :: "tg_request \<Rightarrow> (send_error + int) io" where
  "call_telegram r = bind (emit (Requested r)) (\<lambda>_. at_tick (\<lambda>e t. telegram e t r))"

section \<open>Database statements\<close>

definition abort :: "tx_state \<Rightarrow> tx_state" where
  "abort s = (if s = InTx then Aborted else s)"

definition break_tx :: "tx_state \<Rightarrow> tx_state" where
  "break_tx s = (if s = NoTx then NoTx else Broken)"

text \<open>A statement: given \<open>now()\<close> and the database, an error or a value and the new database.\<close>

definition db_stmt :: "(instant \<Rightarrow> db \<Rightarrow> exn + ('a \<times> db)) \<Rightarrow> 'a io" where
  "db_stmt f e w =
     (let t = w_tick w; w1 = w\<lparr>w_tick := Suc t\<rparr>;
          at = (if w_tx w = NoTx then clock e t else w_txNow w)
      in if w_tx w = Aborted then (Inl TxAborted, w1)
         else if w_tx w = Broken then (Inl DbRefused, w1)
         else case db_fault e t of
             Refused \<Rightarrow> (Inl DbRefused, w1\<lparr>w_tx := abort (w_tx w)\<rparr>)
           | AckLost \<Rightarrow>
               (case f at (w_db w) of
                  Inl x \<Rightarrow> (Inl x, w1\<lparr>w_tx := abort (w_tx w)\<rparr>)
                | Inr (a, d) \<Rightarrow> (Inl DbRefused, w1\<lparr>w_db := d, w_tx := break_tx (w_tx w)\<rparr>))
           | Fine \<Rightarrow>
               (case f at (w_db w) of
                  Inl x \<Rightarrow> (Inl x, w1\<lparr>w_tx := abort (w_tx w)\<rparr>)
                | Inr (a, d) \<Rightarrow> (Inr a, w1\<lparr>w_db := d\<rparr>)))"

definition db_read :: "(db \<Rightarrow> 'a) \<Rightarrow> 'a io" where
  "db_read f = db_stmt (\<lambda>_ d. Inr (f d, d))"

definition db_write :: "(db \<Rightarrow> db) \<Rightarrow> unit io" where
  "db_write f = db_stmt (\<lambda>_ d. Inr ((), f d))"

text \<open>\<open>select pg_advisory_xact_lock(k)\<close>: one round trip that leaves the rows alone.\<close>

definition advisory_lock :: "unit io" where
  "advisory_lock = db_read (\<lambda>_. ())"

definition transaction :: "'a io \<Rightarrow> 'a io" where
  "transaction m e w =
     (let t = w_tick w; w1 = w\<lparr>w_tick := Suc t\<rparr>
      in if db_fault e t \<noteq> Fine then (Inl DbRefused, w1)
         else case m e (w1\<lparr>w_tx := InTx, w_txNow := clock e t\<rparr>) of
             (Inl x, w2) \<Rightarrow>
               (Inl (if db_fault e (w_tick w2) = Fine then x else DbRefused),
                w2\<lparr>w_tick := Suc (w_tick w2), w_db := w_db w, w_tx := NoTx\<rparr>)
           | (Inr a, w2) \<Rightarrow>
               (let f = db_fault e (w_tick w2); w3 = w2\<lparr>w_tick := Suc (w_tick w2), w_tx := NoTx\<rparr>;
                    undone = w3\<lparr>w_db := w_db w\<rparr>
                in case w_tx w2 of
                     Broken \<Rightarrow> (Inl DbRefused, undone)
                   | Aborted \<Rightarrow> (if f = Fine then Inr a else Inl DbRefused, undone)
                   | _ \<Rightarrow> (case f of
                            Fine \<Rightarrow> (Inr a, w3)
                          | Refused \<Rightarrow> (Inl DbRefused, undone)
                          | AckLost \<Rightarrow> (Inl DbRefused, w3))))"

text \<open>A transaction inside a transaction is a savepoint: an error rolls back to it and leaves the outer one open.\<close>

definition rollback_to_savepoint :: "db \<Rightarrow> exn \<Rightarrow> 'a io" where
  "rollback_to_savepoint d x e w =
     (let w1 = w\<lparr>w_tick := Suc (w_tick w)\<rparr>
      in if w_tx w = Broken \<or> db_fault e (w_tick w) \<noteq> Fine
         then (Inl DbRefused, w1\<lparr>w_tx := (if w_tx w = Broken \<or> db_fault e (w_tick w) = AckLost then Broken else Aborted)\<rparr>)
         else (Inl x, w1\<lparr>w_db := d, w_tx := InTx\<rparr>))"

definition savepoint :: "'a io \<Rightarrow> 'a io" where
  "savepoint m =
     bind (db_read (\<lambda>_. ())) (\<lambda>_.
     bind (peek w_db) (\<lambda>d.
     catch (bind m (\<lambda>a. bind (db_read (\<lambda>_. ())) (\<lambda>_. ret a))) (rollback_to_savepoint d)))"

section \<open>Events a computation can emit\<close>

text \<open>\<open>emits G m\<close>: whatever \<open>m\<close> appends to the trace satisfies \<open>G\<close>.\<close>

definition emits :: "(event \<Rightarrow> bool) \<Rightarrow> 'a io \<Rightarrow> bool" where
  "emits G m \<longleftrightarrow>
     (\<forall>e w. \<exists>es. w_trace (snd (m e w)) = w_trace w @ es \<and> (\<forall>v\<in>set es. G v))"

named_theorems emits_rules \<open>events of composite computations\<close>

lemma emitsI:
  assumes "\<And>e w. \<exists>es. w_trace (snd (m e w)) = w_trace w @ es \<and> (\<forall>v\<in>set es. G v)"
  shows "emits G m"
  using assms by (simp add: emits_def)

lemma emitsE:
  assumes "emits G m"
  obtains es where "w_trace (snd (m e w)) = w_trace w @ es" "\<forall>v\<in>set es. G v"
  using assms unfolding emits_def by blast

lemma emits_mono: "emits G m \<Longrightarrow> (\<And>v. G v \<Longrightarrow> H v) \<Longrightarrow> emits H m"
  unfolding emits_def by blast

lemma emits_silent:
  assumes "\<And>e w. w_trace (snd (m e w)) = w_trace w"
  shows "emits G m"
  using assms by (intro emitsI) auto

lemma emits_ret [emits_rules]: "emits G (ret a)"
  by (rule emits_silent) (simp add: ret_def)

lemma emits_throw [emits_rules]: "emits G (throw x)"
  by (rule emits_silent) (simp add: throw_def)

lemma emits_ask [emits_rules]: "emits G (ask f)"
  by (rule emits_silent) (simp add: ask_def)

lemma emits_of_result [emits_rules]: "emits G (of_result r)"
  by (rule emits_silent) (simp add: of_result_def)

lemma emits_at_tick [emits_rules]: "emits G (at_tick f)"
  by (rule emits_silent) (simp add: at_tick_def)

lemma emits_now [emits_rules]: "emits G now"
  by (simp add: now_def emits_rules)

lemma emits_random_uuid [emits_rules]: "emits G random_uuid"
  by (simp add: random_uuid_def emits_rules)

lemma emits_emit [emits_rules]: "G v \<Longrightarrow> emits G (emit v)"
  by (intro emitsI) (auto simp: emit_def)

lemma emits_caches [emits_rules]: "emits G (peek g)" "emits G (set_member_cache mc)" "emits G (set_reach_cache rc)"
  "emits G (set_sessions ss)" "emits G (set_auth_limiter ls)" "emits G (set_pre_auth_limiter ls)" "emits G (set_last_export le)"
  by (rule emits_silent, simp add: cache_simps)+

lemma emits_bind [emits_rules]:
  assumes "emits G m" and "\<And>a. emits G (f a)"
  shows "emits G (bind m f)"
proof (rule emitsI)
  fix e w
  obtain r w' where m: "m e w = (r, w')" by fastforce
  obtain es where es: "w_trace w' = w_trace w @ es" "\<forall>v\<in>set es. G v"
    using emitsE [OF assms(1), of e w] m by auto
  show "\<exists>es. w_trace (snd (bind m f e w)) = w_trace w @ es \<and> (\<forall>v\<in>set es. G v)"
  proof (cases r)
    case (Inl x)
    with m es show ?thesis by (auto simp: bind_def)
  next
    case (Inr a)
    obtain es' where "w_trace (snd (f a e w')) = w_trace w' @ es'" "\<forall>v\<in>set es'. G v"
      using emitsE [OF assms(2)] by blast
    with m es Inr show ?thesis by (intro exI [of _ "es @ es'"]) (auto simp: bind_def)
  qed
qed

lemma emits_catch [emits_rules]:
  assumes "emits G m" and "\<And>x. emits G (h x)"
  shows "emits G (catch m h)"
proof (rule emitsI)
  fix e w
  obtain r w' where m: "m e w = (r, w')" by fastforce
  obtain es where es: "w_trace w' = w_trace w @ es" "\<forall>v\<in>set es. G v"
    using emitsE [OF assms(1), of e w] m by auto
  show "\<exists>es. w_trace (snd (catch m h e w)) = w_trace w @ es \<and> (\<forall>v\<in>set es. G v)"
  proof (cases r)
    case (Inl x)
    obtain es' where "w_trace (snd (h x e w')) = w_trace w' @ es'" "\<forall>v\<in>set es'. G v"
      using emitsE [OF assms(2)] by blast
    with m es Inl show ?thesis by (intro exI [of _ "es @ es'"]) (auto simp: catch_def)
  next
    case (Inr a)
    with m es show ?thesis by (auto simp: catch_def)
  qed
qed

lemma db_stmt_trace [simp]: "w_trace (snd (db_stmt f e w)) = w_trace w"
  by (auto simp: db_stmt_def Let_def split: fault.splits sum.splits prod.splits)

lemma emits_db_stmt [emits_rules]: "emits G (db_stmt f)"
  by (rule emits_silent) simp

lemma emits_db_read [emits_rules]: "emits G (db_read f)"
  by (simp add: db_read_def emits_rules)

lemma emits_db_write [emits_rules]: "emits G (db_write f)"
  by (simp add: db_write_def emits_rules)

lemma emits_advisory_lock [emits_rules]: "emits G advisory_lock"
  by (simp add: advisory_lock_def emits_rules)

lemma transaction_trace:
  "w_trace (snd (transaction m e w)) =
     (if db_fault e (w_tick w) \<noteq> Fine then w_trace w
      else w_trace (snd (m e (w\<lparr>w_tick := Suc (w_tick w), w_tx := InTx, w_txNow := clock e (w_tick w)\<rparr>))))"
  by (auto simp: transaction_def Let_def split: prod.splits sum.splits tx_state.splits fault.splits)

lemma emits_transaction [emits_rules]: "emits G m \<Longrightarrow> emits G (transaction m)"
proof (rule emitsI)
  fix e w
  assume G: "emits G m"
  show "\<exists>es. w_trace (snd (transaction m e w)) = w_trace w @ es \<and> (\<forall>v\<in>set es. G v)"
    using emitsE [OF G, of e "w\<lparr>w_tick := Suc (w_tick w), w_tx := InTx, w_txNow := clock e (w_tick w)\<rparr>"]
    by (auto simp: transaction_trace)
qed

lemma emits_for_each [emits_rules]: "(\<And>x. emits G (f x)) \<Longrightarrow> emits G (for_each xs f)"
  by (induction xs) (auto intro: emits_rules)

lemma emits_for_map [emits_rules]: "(\<And>x. emits G (f x)) \<Longrightarrow> emits G (for_map xs f)"
  by (induction xs) (auto intro!: emits_rules)

lemma emits_if [emits_rules]: "(b \<Longrightarrow> emits G m) \<Longrightarrow> (\<not> b \<Longrightarrow> emits G n) \<Longrightarrow> emits G (if b then m else n)"
  by simp

lemma emits_case_option [emits_rules]:
  "(v = None \<Longrightarrow> emits G m) \<Longrightarrow> (\<And>x. v = Some x \<Longrightarrow> emits G (f x)) \<Longrightarrow>
   emits G (case v of None \<Rightarrow> m | Some x \<Rightarrow> f x)"
  by (cases v) auto

lemma emits_case_sum [emits_rules]:
  "(\<And>x. v = Inl x \<Longrightarrow> emits G (f x)) \<Longrightarrow> (\<And>x. v = Inr x \<Longrightarrow> emits G (g x)) \<Longrightarrow>
   emits G (case v of Inl x \<Rightarrow> f x | Inr x \<Rightarrow> g x)"
  by (cases v) auto

lemma emits_case_prod [emits_rules]:
  "(\<And>x y. v = (x, y) \<Longrightarrow> emits G (f x y)) \<Longrightarrow> emits G (case v of (x, y) \<Rightarrow> f x y)"
  by (cases v) auto

lemma emits_call_telegram [emits_rules]: "G (Requested r) \<Longrightarrow> emits G (call_telegram r)"
  by (auto simp: call_telegram_def intro!: emits_rules)

section \<open>Invariants of the database\<close>

text \<open>\<open>keeps I m\<close>: \<open>m\<close> preserves \<open>I\<close> of the database, whatever fails on the way.\<close>

definition keeps :: "(db \<Rightarrow> bool) \<Rightarrow> 'a io \<Rightarrow> bool" where
  "keeps I m \<longleftrightarrow> (\<forall>e w. I (w_db w) \<longrightarrow> I (w_db (snd (m e w))))"

named_theorems keeps_rules \<open>database invariants of composite computations\<close>

lemma keepsI: "(\<And>e w. I (w_db w) \<Longrightarrow> I (w_db (snd (m e w)))) \<Longrightarrow> keeps I m"
  by (simp add: keeps_def)

lemma keepsD: "keeps I m \<Longrightarrow> I (w_db w) \<Longrightarrow> I (w_db (snd (m e w)))"
  by (simp add: keeps_def)

lemma keeps_silent: "(\<And>e w. w_db (snd (m e w)) = w_db w) \<Longrightarrow> keeps I m"
  by (simp add: keeps_def)

lemma keeps_ret [keeps_rules]: "keeps I (ret a)"
  and keeps_throw [keeps_rules]: "keeps I (throw x)"
  and keeps_ask [keeps_rules]: "keeps I (ask f)"
  and keeps_of_result [keeps_rules]: "keeps I (of_result r)"
  and keeps_at_tick [keeps_rules]: "keeps I (at_tick g)"
  and keeps_emit [keeps_rules]: "keeps I (emit v)"
  by (simp_all add: keeps_def ret_def throw_def ask_def of_result_def at_tick_def emit_def)

lemma keeps_caches [keeps_rules]: "keeps I (peek g)" "keeps I (set_member_cache mc)" "keeps I (set_reach_cache rc)"
  "keeps I (set_sessions ss)" "keeps I (set_auth_limiter ls)" "keeps I (set_pre_auth_limiter ls)" "keeps I (set_last_export le)"
  by (simp_all add: keeps_def cache_simps)

lemma keeps_now [keeps_rules]: "keeps I now"
  by (simp add: now_def keeps_rules)

lemma keeps_random_uuid [keeps_rules]: "keeps I random_uuid"
  by (simp add: random_uuid_def keeps_rules)

lemma keeps_bind [keeps_rules]: "keeps I m \<Longrightarrow> (\<And>a. keeps I (f a)) \<Longrightarrow> keeps I (bind m f)"
  unfolding keeps_def bind_def
  by (auto split: prod.splits sum.splits) (metis snd_conv)+

lemma keeps_catch [keeps_rules]: "keeps I m \<Longrightarrow> (\<And>x. keeps I (h x)) \<Longrightarrow> keeps I (catch m h)"
  unfolding keeps_def catch_def
  by (auto split: prod.splits sum.splits) (metis snd_conv)+

lemma keeps_call_telegram [keeps_rules]: "keeps I (call_telegram r)"
  by (simp add: call_telegram_def keeps_rules)

lemma keeps_db_stmt:
  assumes "\<And>t d a d'. I d \<Longrightarrow> f t d = Inr (a, d') \<Longrightarrow> I d'"
  shows "keeps I (db_stmt f)"
  using assms
  by (intro keepsI) (auto simp: db_stmt_def Let_def split: fault.splits sum.splits prod.splits)

lemma keeps_db_read [keeps_rules]: "keeps I (db_read f)"
  unfolding db_read_def by (rule keeps_db_stmt) auto

lemma keeps_db_write: "(\<And>d. I d \<Longrightarrow> I (f d)) \<Longrightarrow> keeps I (db_write f)"
  unfolding db_write_def by (rule keeps_db_stmt) auto

lemma keeps_advisory_lock [keeps_rules]: "keeps I advisory_lock"
  by (simp add: advisory_lock_def keeps_rules)

lemma keeps_transaction [keeps_rules]:
  assumes "keeps I m"
  shows "keeps I (transaction m)"
proof (rule keepsI)
  fix e :: env and w :: world
  assume I: "I (w_db w)"
  let ?w = "w\<lparr>w_tick := Suc (w_tick w), w_tx := InTx, w_txNow := clock e (w_tick w)\<rparr>"
  have "I (w_db (snd (m e ?w)))" using assms I by (simp add: keeps_def)
  with I show "I (w_db (snd (transaction m e w)))"
    by (auto simp: transaction_def Let_def split: prod.splits sum.splits tx_state.splits fault.splits)
qed

lemma keeps_for_each [keeps_rules]: "(\<And>x. keeps I (f x)) \<Longrightarrow> keeps I (for_each xs f)"
  by (induction xs) (auto intro: keeps_rules)

lemma keeps_for_map [keeps_rules]: "(\<And>x. keeps I (f x)) \<Longrightarrow> keeps I (for_map xs f)"
  by (induction xs) (auto intro!: keeps_rules)

lemma keeps_if [keeps_rules]: "(b \<Longrightarrow> keeps I m) \<Longrightarrow> (\<not> b \<Longrightarrow> keeps I n) \<Longrightarrow> keeps I (if b then m else n)"
  by simp

lemma keeps_case_option [keeps_rules]:
  "(v = None \<Longrightarrow> keeps I m) \<Longrightarrow> (\<And>x. v = Some x \<Longrightarrow> keeps I (f x)) \<Longrightarrow>
   keeps I (case v of None \<Rightarrow> m | Some x \<Rightarrow> f x)"
  by (cases v) auto

lemma keeps_case_sum [keeps_rules]:
  "(\<And>x. v = Inl x \<Longrightarrow> keeps I (f x)) \<Longrightarrow> (\<And>x. v = Inr x \<Longrightarrow> keeps I (g x)) \<Longrightarrow>
   keeps I (case v of Inl x \<Rightarrow> f x | Inr x \<Rightarrow> g x)"
  by (cases v) auto

lemma keeps_case_prod [keeps_rules]:
  "(\<And>x y. v = (x, y) \<Longrightarrow> keeps I (f x y)) \<Longrightarrow> keeps I (case v of (x, y) \<Rightarrow> f x y)"
  by (cases v) auto

section \<open>Normal returns\<close>

text \<open>What must have happened when a computation returns a value.\<close>

named_theorems run_simps \<open>characterisations of normal returns\<close>

lemma bind_Inr [run_simps]:
  "bind m f e w = (Inr b, w') \<longleftrightarrow> (\<exists>a w1. m e w = (Inr a, w1) \<and> f a e w1 = (Inr b, w'))"
  by (auto simp: bind_def split: prod.splits sum.splits)

lemma bind_Inl:
  "bind m f e w = (Inl x, w') \<longleftrightarrow>
     m e w = (Inl x, w') \<or> (\<exists>a w1. m e w = (Inr a, w1) \<and> f a e w1 = (Inl x, w'))"
  by (auto simp: bind_def split: prod.splits sum.splits)

lemma catch_Inr:
  "catch m h e w = (Inr b, w') \<longleftrightarrow>
     m e w = (Inr b, w') \<or> (\<exists>x w1. m e w = (Inl x, w1) \<and> h x e w1 = (Inr b, w'))"
  by (auto simp: catch_def split: prod.splits sum.splits)

lemma ret_Inr [run_simps]: "ret a e w = (Inr b, w') \<longleftrightarrow> b = a \<and> w' = w"
  by (auto simp: ret_def)

lemma ret_not_Inl [simp]: "ret a e w \<noteq> (Inl x, w')"
  by (simp add: ret_def)

lemma throw_not_Inr [simp]: "throw x e w \<noteq> (Inr a, w')"
  by (simp add: throw_def)

lemma ask_Inr [run_simps]: "ask f e w = (Inr b, w') \<longleftrightarrow> b = f e \<and> w' = w"
  by (auto simp: ask_def)

lemma at_tick_Inr [run_simps]:
  "at_tick f e w = (Inr b, w') \<longleftrightarrow> b = f e (w_tick w) \<and> w' = w\<lparr>w_tick := Suc (w_tick w)\<rparr>"
  by (auto simp: at_tick_def)

lemma at_tick_not_Inl [simp]: "at_tick f e w \<noteq> (Inl x, w')"
  by (simp add: at_tick_def)

lemma now_Inr [run_simps]:
  "now e w = (Inr b, w') \<longleftrightarrow> b = clock e (w_tick w) \<and> w' = w\<lparr>w_tick := Suc (w_tick w)\<rparr>"
  by (simp add: now_def at_tick_Inr)

lemma now_not_Inl [simp]: "now e w \<noteq> (Inl x, w')"
  by (simp add: now_def)

lemma random_uuid_Inr [run_simps]:
  "random_uuid e w = (Inr b, w') \<longleftrightarrow> b = fresh_uuid e (w_tick w) \<and> w' = w\<lparr>w_tick := Suc (w_tick w)\<rparr>"
  by (simp add: random_uuid_def at_tick_Inr)

lemma caches_Inr [run_simps]:
  "peek f e w = (Inr b, w') \<longleftrightarrow> b = f w \<and> w' = w"
  "set_member_cache mc e w = (Inr u, w') \<longleftrightarrow> w' = w\<lparr>w_memberCache := mc\<rparr>"
  "set_reach_cache rc e w = (Inr u, w') \<longleftrightarrow> w' = w\<lparr>w_reachCache := rc\<rparr>"
  "set_sessions ss e w = (Inr u, w') \<longleftrightarrow> w' = w\<lparr>w_sessions := ss\<rparr>"
  "set_auth_limiter ls e w = (Inr u, w') \<longleftrightarrow> w' = w\<lparr>w_authLimiter := ls\<rparr>"
  "set_pre_auth_limiter ls e w = (Inr u, w') \<longleftrightarrow> w' = w\<lparr>w_preAuthLimiter := ls\<rparr>"
  "set_last_export le e w = (Inr u, w') \<longleftrightarrow> w' = w\<lparr>w_lastExportAt := le\<rparr>"
  by (auto simp: cache_simps)

lemma emit_Inr [run_simps]:
  "emit v e w = (Inr b, w') \<longleftrightarrow> w' = w\<lparr>w_trace := w_trace w @ [v]\<rparr>"
  by (auto simp: emit_def)

definition stmt_time :: "env \<Rightarrow> world \<Rightarrow> instant" where
  "stmt_time e w = (if w_tx w = NoTx then clock e (w_tick w) else w_txNow w)"

lemma db_stmt_Inr [run_simps]:
  "db_stmt f e w = (Inr a, w') \<longleftrightarrow>
     w_tx w \<noteq> Aborted \<and> w_tx w \<noteq> Broken \<and> db_fault e (w_tick w) = Fine \<and>
     (\<exists>d. f (stmt_time e w) (w_db w) = Inr (a, d) \<and> w' = w\<lparr>w_tick := Suc (w_tick w), w_db := d\<rparr>)"
  by (auto simp: db_stmt_def stmt_time_def Let_def split: fault.splits sum.splits prod.splits)

lemma db_stmt_total_Inr:
  "db_stmt (\<lambda>_ d. Inr (g d)) e w = (Inr a, w') \<longleftrightarrow>
     w_tx w \<noteq> Aborted \<and> w_tx w \<noteq> Broken \<and> db_fault e (w_tick w) = Fine \<and> a = fst (g (w_db w)) \<and>
     w' = w\<lparr>w_tick := Suc (w_tick w), w_db := snd (g (w_db w))\<rparr>"
  by (cases "g (w_db w)") (auto simp: db_stmt_Inr)

lemma db_read_Inr [run_simps]:
  "db_read f e w = (Inr a, w') \<longleftrightarrow>
     w_tx w \<noteq> Aborted \<and> w_tx w \<noteq> Broken \<and> db_fault e (w_tick w) = Fine \<and>
     a = f (w_db w) \<and> w' = w\<lparr>w_tick := Suc (w_tick w)\<rparr>"
  by (auto simp: db_read_def db_stmt_Inr)

lemma db_write_Inr [run_simps]:
  "db_write f e w = (Inr a, w') \<longleftrightarrow>
     w_tx w \<noteq> Aborted \<and> w_tx w \<noteq> Broken \<and> db_fault e (w_tick w) = Fine \<and>
     w' = w\<lparr>w_tick := Suc (w_tick w), w_db := f (w_db w)\<rparr>"
  by (auto simp: db_write_def db_stmt_Inr)

lemma advisory_lock_Inr [run_simps]:
  "advisory_lock e w = (Inr a, w') \<longleftrightarrow>
     w_tx w \<noteq> Aborted \<and> w_tx w \<noteq> Broken \<and> db_fault e (w_tick w) = Fine \<and> w' = w\<lparr>w_tick := Suc (w_tick w)\<rparr>"
  by (auto simp: advisory_lock_def db_read_Inr)

definition begin_tx :: "env \<Rightarrow> world \<Rightarrow> world" where
  "begin_tx e w = w\<lparr>w_tick := Suc (w_tick w), w_tx := InTx, w_txNow := clock e (w_tick w)\<rparr>"

lemma begin_tx_simps [simp]:
  "w_db (begin_tx e w) = w_db w" "w_tx (begin_tx e w) = InTx" "w_trace (begin_tx e w) = w_trace w"
  "w_txNow (begin_tx e w) = clock e (w_tick w)" "w_tick (begin_tx e w) = Suc (w_tick w)"
  by (simp_all add: begin_tx_def)

text \<open>A transaction is all or nothing, whatever it returns.\<close>

lemma transaction_atomic:
  assumes "transaction m e w = (r, w')"
  shows "w_db w' = w_db w \<or>
         (\<exists>a w2. m e (begin_tx e w) = (Inr a, w2) \<and> w_tx w2 \<noteq> Aborted \<and> w_tx w2 \<noteq> Broken \<and> w_db w' = w_db w2)"
  using assms
  by (auto simp: transaction_def begin_tx_def Let_def split: prod.splits sum.splits tx_state.splits fault.splits if_splits)

lemma transaction_InrD:
  assumes "transaction m e w = (Inr a, w')"
  obtains w2 where "m e (begin_tx e w) = (Inr a, w2)" "w_tx w2 \<noteq> Broken" "w_tx w' = NoTx"
    "w_trace w' = w_trace w2" "w_db w' = (if w_tx w2 = Aborted then w_db w else w_db w2)"
    "w_tick w' = Suc (w_tick w2)" "w_richUnavailable w' = w_richUnavailable w2"
  using assms that
  by (auto simp: transaction_def begin_tx_def Let_def split: prod.splits sum.splits tx_state.splits fault.splits if_splits)

text \<open>A computation that returns without catching anything leaves the transaction open.\<close>

definition stays_open :: "'a io \<Rightarrow> bool" where
  "stays_open m \<longleftrightarrow> (\<forall>e w a w'. m e w = (Inr a, w') \<longrightarrow> w_tx w = InTx \<longrightarrow> w_tx w' = InTx)"

named_theorems open_rules \<open>computations that leave the transaction open\<close>

lemma stays_openD: "stays_open m \<Longrightarrow> m e w = (Inr a, w') \<Longrightarrow> w_tx w = InTx \<Longrightarrow> w_tx w' = InTx"
  by (simp add: stays_open_def)

lemma open_ret [open_rules]: "stays_open (ret a)"
  and open_throw [open_rules]: "stays_open (throw x)"
  and open_ask [open_rules]: "stays_open (ask f)"
  and open_at_tick [open_rules]: "stays_open (at_tick g)"
  and open_now [open_rules]: "stays_open now"
  and open_random_uuid [open_rules]: "stays_open random_uuid"
  and open_emit [open_rules]: "stays_open (emit v)"
  and open_db_stmt [open_rules]: "stays_open (db_stmt h)"
  and open_db_read [open_rules]: "stays_open (db_read i)"
  and open_db_write [open_rules]: "stays_open (db_write j)"
  and open_advisory_lock [open_rules]: "stays_open advisory_lock"
  by (auto simp: stays_open_def run_simps)

lemma open_caches [open_rules]: "stays_open (peek g)" "stays_open (set_member_cache mc)" "stays_open (set_reach_cache rc)"
  "stays_open (set_sessions ss)" "stays_open (set_auth_limiter ls)" "stays_open (set_pre_auth_limiter ls)" "stays_open (set_last_export le)"
  by (auto simp: stays_open_def run_simps)

lemma open_of_result [open_rules]: "stays_open (of_result r)"
  by (auto simp: stays_open_def of_result_def)

lemma open_bind [open_rules]: "stays_open m \<Longrightarrow> (\<And>a. stays_open (f a)) \<Longrightarrow> stays_open (bind m f)"
  unfolding stays_open_def bind_Inr by blast

lemma open_for_each [open_rules]: "(\<And>x. stays_open (f x)) \<Longrightarrow> stays_open (for_each xs f)"
  by (induction xs) (auto intro: open_rules)

lemma open_for_map [open_rules]: "(\<And>x. stays_open (f x)) \<Longrightarrow> stays_open (for_map xs f)"
  by (induction xs) (auto intro!: open_rules)

lemma open_if [open_rules]: "(b \<Longrightarrow> stays_open m) \<Longrightarrow> (\<not> b \<Longrightarrow> stays_open n) \<Longrightarrow> stays_open (if b then m else n)"
  by simp

lemma open_case_option [open_rules]:
  "(v = None \<Longrightarrow> stays_open m) \<Longrightarrow> (\<And>x. v = Some x \<Longrightarrow> stays_open (f x)) \<Longrightarrow>
   stays_open (case v of None \<Rightarrow> m | Some x \<Rightarrow> f x)"
  by (cases v) auto

lemma rollback_not_Inr [simp]: "rollback_to_savepoint d x e w \<noteq> (Inr a, w')"
  by (auto simp: rollback_to_savepoint_def Let_def)

lemma savepoint_InrD:
  assumes "savepoint m e w = (Inr a, w')"
  obtains v v' where "m e v = (Inr a, v')" "w_db v = w_db w" "w_tx v = w_tx w" "w_db w' = w_db v'" "w_tx w' = w_tx v'"
  using assms that by (auto simp: savepoint_def catch_Inr run_simps)

lemma open_savepoint [open_rules]: "stays_open m \<Longrightarrow> stays_open (savepoint m)"
  unfolding stays_open_def by (metis savepoint_InrD)

lemma transaction_open_InrD:
  assumes "transaction m e w = (Inr a, w')" and "stays_open m"
  obtains w2 where "m e (begin_tx e w) = (Inr a, w2)" "w_db w' = w_db w2" "w_trace w' = w_trace w2"
    "w_tx w' = NoTx" "w_tick w' = Suc (w_tick w2)"
proof -
  obtain w2 where w2: "m e (begin_tx e w) = (Inr a, w2)" "w_tx w' = NoTx" "w_trace w' = w_trace w2"
    "w_db w' = (if w_tx w2 = Aborted then w_db w else w_db w2)" "w_tick w' = Suc (w_tick w2)"
    using assms(1) by (rule transaction_InrD) blast
  have "w_tx w2 = InTx" using assms(2) w2(1) by (rule stays_openD) simp
  with w2 that show thesis by simp
qed

text \<open>Without faults a statement does what it says.\<close>

lemma locks_Inr:
  "for_each xs (\<lambda>_. advisory_lock) e w = (Inr u, w') \<Longrightarrow> w_db w' = w_db w \<and> w_tx w' = w_tx w \<and> w_trace w' = w_trace w \<and> w_txNow w' = w_txNow w"
  by (induction xs arbitrary: w) (auto simp: run_simps)

text \<open>\<open>quiet m\<close>: a normal return of \<open>m\<close> has read things and changed none.\<close>

definition quiet :: "'a io \<Rightarrow> bool" where
  "quiet m \<longleftrightarrow> (\<forall>e w a w'. m e w = (Inr a, w') \<longrightarrow>
     w_db w' = w_db w \<and> w_tx w' = w_tx w \<and> w_txNow w' = w_txNow w \<and> w_trace w' = w_trace w)"

named_theorems quiet_rules \<open>computations that only read\<close>

lemma quietD:
  assumes "quiet m" and "m e w = (Inr a, w')"
  shows "w_db w' = w_db w" "w_tx w' = w_tx w" "w_txNow w' = w_txNow w" "w_trace w' = w_trace w"
  using assms by (auto simp: quiet_def)

lemma quiet_ret [quiet_rules]: "quiet (ret a)"
  and quiet_throw [quiet_rules]: "quiet (throw x)"
  and quiet_ask [quiet_rules]: "quiet (ask f)"
  and quiet_at_tick [quiet_rules]: "quiet (at_tick g)"
  and quiet_now [quiet_rules]: "quiet now"
  and quiet_random_uuid [quiet_rules]: "quiet random_uuid"
  and quiet_db_read [quiet_rules]: "quiet (db_read i)"
  and quiet_advisory_lock [quiet_rules]: "quiet advisory_lock"
  by (auto simp: quiet_def run_simps)

lemma quiet_caches [quiet_rules]: "quiet (peek g)" "quiet (set_member_cache mc)" "quiet (set_reach_cache rc)"
  "quiet (set_sessions ss)" "quiet (set_auth_limiter ls)" "quiet (set_pre_auth_limiter ls)" "quiet (set_last_export le)"
  by (auto simp: quiet_def run_simps)

lemma quiet_of_result [quiet_rules]: "quiet (of_result r)"
  by (auto simp: quiet_def of_result_def)

lemma quiet_bind [quiet_rules]: "quiet m \<Longrightarrow> (\<And>a. quiet (f a)) \<Longrightarrow> quiet (bind m f)"
  unfolding quiet_def bind_Inr by metis

lemma quiet_if [quiet_rules]: "(b \<Longrightarrow> quiet m) \<Longrightarrow> (\<not> b \<Longrightarrow> quiet n) \<Longrightarrow> quiet (if b then m else n)"
  by simp

lemma quiet_case_option [quiet_rules]:
  "(v = None \<Longrightarrow> quiet m) \<Longrightarrow> (\<And>x. v = Some x \<Longrightarrow> quiet (f x)) \<Longrightarrow>
   quiet (case v of None \<Rightarrow> m | Some x \<Rightarrow> f x)"
  by (cases v) auto

lemma quiet_case_sum [quiet_rules]:
  "(\<And>x. v = Inl x \<Longrightarrow> quiet (f x)) \<Longrightarrow> (\<And>x. v = Inr x \<Longrightarrow> quiet (g x)) \<Longrightarrow>
   quiet (case v of Inl x \<Rightarrow> f x | Inr x \<Rightarrow> g x)"
  by (cases v) auto

lemma quiet_case_prod [quiet_rules]:
  "(\<And>x y. v = (x, y) \<Longrightarrow> quiet (f x y)) \<Longrightarrow> quiet (case v of (x, y) \<Rightarrow> f x y)"
  by (cases v) auto

lemma quiet_let [quiet_rules]: "quiet (f x) \<Longrightarrow> quiet (let y = x in f y)"
  by simp

lemma quiet_for_map [quiet_rules]: "(\<And>x. quiet (f x)) \<Longrightarrow> quiet (for_map xs f)"
  by (induction xs) (auto intro!: quiet_rules)

text \<open>\<open>advances m\<close>: no step of \<open>m\<close> turns the ticks back, so what it reads is read after it began.\<close>

definition advances :: "'a io \<Rightarrow> bool" where
  "advances m \<longleftrightarrow> (\<forall>e w. w_tick w \<le> w_tick (snd (m e w)))"

named_theorems advances_rules \<open>ticks of composite computations\<close>

lemma advancesD: "advances m \<Longrightarrow> m e w = (r, w') \<Longrightarrow> w_tick w \<le> w_tick w'"
  unfolding advances_def by (metis snd_conv)

lemma advances_basic [advances_rules]:
  "advances (ret a)" "advances (throw x)" "advances (ask f)" "advances (of_result r)" "advances (at_tick g)" "advances now"
  "advances random_uuid" "advances (emit v)" "advances (peek p)" "advances (set_member_cache mc)" "advances (set_reach_cache rc)"
  "advances (set_sessions ss)" "advances (set_auth_limiter ls)" "advances (set_pre_auth_limiter ls)" "advances (set_last_export le)"
  by (simp_all add: advances_def ret_def throw_def ask_def of_result_def at_tick_def now_def random_uuid_def emit_def cache_simps)

lemma advances_db_stmt [advances_rules]: "advances (db_stmt f)"
  by (auto simp: advances_def db_stmt_def Let_def split: fault.splits sum.splits prod.splits)

lemma advances_db [advances_rules]: "advances (db_read f)" "advances (db_write g)" "advances advisory_lock"
  by (simp_all add: db_read_def db_write_def advisory_lock_def advances_db_stmt)

lemma advances_bind [advances_rules]: "advances m \<Longrightarrow> (\<And>a. advances (f a)) \<Longrightarrow> advances (bind m f)"
  unfolding advances_def bind_def by (auto split: prod.splits sum.splits) (metis le_trans snd_conv)+

lemma advances_catch [advances_rules]: "advances m \<Longrightarrow> (\<And>x. advances (h x)) \<Longrightarrow> advances (catch m h)"
  unfolding advances_def catch_def by (auto split: prod.splits sum.splits) (metis le_trans snd_conv)+

lemma advances_for_each [advances_rules]: "(\<And>x. advances (f x)) \<Longrightarrow> advances (for_each xs f)"
  by (induction xs) (auto intro!: advances_rules)

lemma advances_cases [advances_rules]:
  "(b \<Longrightarrow> advances m) \<Longrightarrow> (\<not> b \<Longrightarrow> advances n) \<Longrightarrow> advances (if b then m else n)"
  "(v = None \<Longrightarrow> advances m) \<Longrightarrow> (\<And>x. v = Some x \<Longrightarrow> advances (g x)) \<Longrightarrow> advances (case v of None \<Rightarrow> m | Some x \<Rightarrow> g x)"
  "(\<And>x. u = Inl x \<Longrightarrow> advances (h x)) \<Longrightarrow> (\<And>x. u = Inr x \<Longrightarrow> advances (k x)) \<Longrightarrow> advances (case u of Inl x \<Rightarrow> h x | Inr x \<Rightarrow> k x)"
  "(\<And>x y. p = (x, y) \<Longrightarrow> advances (j x y)) \<Longrightarrow> advances (case p of (x, y) \<Rightarrow> j x y)"
  by (simp_all split: option.split sum.split prod.split)

lemma advances_transaction [advances_rules]: "advances m \<Longrightarrow> advances (transaction m)"
  unfolding advances_def
proof (intro allI)
  fix e w assume m: "\<forall>e w. w_tick w \<le> w_tick (snd (m e w))"
  have "Suc (w_tick w) \<le> w_tick (snd (m e (w\<lparr>w_tick := Suc (w_tick w), w_tx := InTx, w_txNow := clock e (w_tick w)\<rparr>)))"
    using m [rule_format, of "w\<lparr>w_tick := Suc (w_tick w), w_tx := InTx, w_txNow := clock e (w_tick w)\<rparr>" e] by simp
  then show "w_tick w \<le> w_tick (snd (transaction m e w))"
    by (auto simp: transaction_def Let_def split: prod.splits sum.splits tx_state.splits fault.splits)
qed

text \<open>\<open>err.message\<close>\<close>

definition error_message :: "env \<Rightarrow> exn \<Rightarrow> string" where
  "error_message e x = (case x of Thrown m \<Rightarrow> m | _ \<Rightarrow> foreign_message e x)"

text \<open>One step of a run without faults, for evaluating concrete runs.\<close>

lemma db_stmt_fine:
  "db_fault e (w_tick w) = Fine \<Longrightarrow> w_tx w \<noteq> Aborted \<Longrightarrow> w_tx w \<noteq> Broken \<Longrightarrow>
   db_stmt f e w = (case f (stmt_time e w) (w_db w) of
       Inl x \<Rightarrow> (Inl x, w\<lparr>w_tick := Suc (w_tick w), w_tx := abort (w_tx w)\<rparr>)
     | Inr (a, d) \<Rightarrow> (Inr a, w\<lparr>w_tick := Suc (w_tick w), w_db := d\<rparr>))"
  by (auto simp: db_stmt_def stmt_time_def Let_def split: sum.splits)

lemma transaction_fine:
  assumes "db_fault e (w_tick w) = Fine" and "m e (begin_tx e w) = (Inr a, w2)" and "w_tx w2 = InTx" and "db_fault e (w_tick w2) = Fine"
  shows "transaction m e w = (Inr a, w2\<lparr>w_tick := Suc (w_tick w2), w_tx := NoTx\<rparr>)"
  using assms by (simp add: transaction_def begin_tx_def Let_def)

lemmas step_simps = bind_def ret_def ask_def at_tick_def now_def random_uuid_def db_read_def db_write_def of_result_def throw_def
  catch_def advisory_lock_def emit_def call_telegram_def db_stmt_fine

text \<open>\<open>withBoundedTransaction\<close>: the timeouts are set in a statement of their own, first.\<close>

definition with_bounded_transaction :: "'a io \<Rightarrow> 'a io" where
  "with_bounded_transaction work = transaction (bind (db_read (\<lambda>_. ())) (\<lambda>_. work))"

section \<open>A day without faults\<close>

text \<open>The environment the concrete examples of the development start from: every statement, file
  operation and Telegram call succeeds, the clock stands still.\<close>

definition calm_env :: env where
  "calm_env = \<lparr> db_fault = (\<lambda>_. Fine), error_code = (\<lambda>_. None), clock = (\<lambda>_. 0), fresh_uuid = (\<lambda>t. replicate (Suc t) (CHR ''u'')),
     telegram = (\<lambda>_ _. Inr 1), telegram_chat = (\<lambda>_ _. Inr (None, ''private'')),
     disk_write = (\<lambda>_ _. None), disk_delete = (\<lambda>_ _. None), disk_read = (\<lambda>_ _. Inr []),
     disk_list = (\<lambda>_ _. Inr []), disk_mtime = (\<lambda>_ _. Inr 0), disk_delete_dir = (\<lambda>_ _. None),
     sha256 = (\<lambda>s. s), hmac_sha256 = (\<lambda>k m. replicate 64 (CHR ''0'')), random_hex = (\<lambda>_. replicate 32 (CHR ''0'')),
     nanoid_suffix = (\<lambda>_. ''abcdefgh''), hmac_secret = Some ''secret'',
     active_provider = None, random_bytes = (\<lambda>_ n. replicate n (CHR ''0'')), aes_keystream = (\<lambda>_ _ _. 0),
     gcm_tag = (\<lambda>_ _ _ _. replicate 16 (CHR ''0'')),
     app_mode_env = Some ''self-hosted'', config_app_mode = Some ''self-hosted'',
     plan_table = plan_defaults, foreign_message = (\<lambda>_. ''error''), disk_open = (\<lambda>_ _. None), pending_raws = (\<lambda>_. Inr []),
     bot_healthy = (\<lambda>_. True), should_stop = (\<lambda>_. False), pipeline_active = (\<lambda>_ _. False), read_chunks = (\<lambda>b. [b]),
     parse_mail = (\<lambda>b. Inr \<lparr> ml_from = None, ml_text = Some b, ml_html = None, ml_messageId = None, ml_subject = None, ml_attachments = [] \<rparr>),
     mailauth = (\<lambda>_ _ _. Inr \<lparr> mr_dkim = [], mr_dmarc = None \<rparr>),
     domain_to_ascii = (\<lambda>s. s), domain_to_unicode = (\<lambda>s. s),
     structured_email_html = (\<lambda>s. \<lparr> st_classicHtml = s, st_plainText = s, st_richHtml = None, st_textCharacters = 0, st_blocks = 0, st_ineligible = None \<rparr>),
     quota_text = (\<lambda>_ _ _ _. Inr []), chat_member = (\<lambda>_ _ _. Inr \<lparr> cm_status = ''administrator'', cm_canPostMessages = Some True,
       cm_canSendMessages = None, cm_isMember = None \<rparr>),
     bot_id = (\<lambda>_. Inr 1), shutting_down = (\<lambda>_. False), auth_slot = (\<lambda>_. True), auth_in_time = (\<lambda>_. True), in_flight = (\<lambda>_. 0),
     catalogue = (\<lambda>_ key _. key), worker_secret = Some ''secret'', parse_number = (\<lambda>_. Some 0), stripe_prices = None, stripe_enabled = False,
     stripe_create_customer = (\<lambda>_ _. Inr ''cus_1''), stripe_create_session = (\<lambda>_ _. Inr (Some ''https://pay'')),
     stripe_create_portal = (\<lambda>_ _. Inr ''https://portal''), name_suffix = (\<lambda>_. ''abcdef''), mail_domain = ''example.com'',
     hosted_mail_domain = None, stream_outcome = (\<lambda>_. (0, True)), bot_refusal = (\<lambda>_ _. None) \<rparr>"

lemma calm_env_simps [simp]:
  "db_fault calm_env t = Fine" "error_code calm_env x = None" "clock calm_env t = 0"
  "fresh_uuid calm_env t = replicate (Suc t) (CHR ''u'')" "telegram calm_env t rq = Inr 1"
  "telegram_chat calm_env t ch = Inr (None, ''private'')" "disk_write calm_env t p = None"
  "disk_delete calm_env t p = None" "disk_read calm_env t p = Inr []"
  "disk_list calm_env t p = Inr []" "disk_mtime calm_env t p = Inr 0" "disk_delete_dir calm_env t p = None"
  "disk_open calm_env t p = None" "sha256 calm_env s = s"
  "hmac_sha256 calm_env k hm = replicate 64 (CHR ''0'')" "random_hex calm_env t = replicate 32 (CHR ''0'')"
  "nanoid_suffix calm_env t = ''abcdefgh''" "hmac_secret calm_env = Some ''secret''"
  "active_provider calm_env = None" "app_mode_env calm_env = Some ''self-hosted''"
  "config_app_mode calm_env = Some ''self-hosted''" "plan_table calm_env = plan_defaults" "foreign_message calm_env x = ''error''"
  "pending_raws calm_env t = Inr []" "bot_healthy calm_env t" "\<not> should_stop calm_env t" "\<not> pipeline_active calm_env t i" "read_chunks calm_env b = [b]"
  "quota_text calm_env l q pd n = Inr []" "bot_id calm_env t = Inr 1" "\<not> shutting_down calm_env t" "auth_slot calm_env t" "auth_in_time calm_env t"
  "in_flight calm_env t = 0" "catalogue calm_env loc key args = key" "worker_secret calm_env = Some ''secret''" "parse_number calm_env str = Some 0"
  "stripe_prices calm_env = None" "\<not> stripe_enabled calm_env" "name_suffix calm_env t = ''abcdef''" "mail_domain calm_env = ''example.com''"
  "hosted_mail_domain calm_env = None" "bot_refusal calm_env t brq = None" "chat_member calm_env t ch us = Inr \<lparr> cm_status = ''administrator'', cm_canPostMessages = Some True,
     cm_canSendMessages = None, cm_isMember = None \<rparr>"
  "structured_email_html calm_env s =
     \<lparr> st_classicHtml = s, st_plainText = s, st_richHtml = None, st_textCharacters = 0, st_blocks = 0, st_ineligible = None \<rparr>"
  by (simp_all add: calm_env_def)

definition start_world :: "db \<Rightarrow> world" where
  "start_world d = \<lparr> w_db = d, w_tick = 0, w_tx = NoTx, w_txNow = 0, w_trace = [], w_richUnavailable = False,
     w_memberCache = [], w_reachCache = [],
     w_sessions = Map.empty, w_authLimiter = Map.empty, w_preAuthLimiter = Map.empty, w_lastExportAt = Map.empty \<rparr>"

lemma start_world_simps [simp]:
  "w_db (start_world d) = d" "w_tick (start_world d) = 0" "w_tx (start_world d) = NoTx"
  "w_trace (start_world d) = []" "w_richUnavailable (start_world d) = False" "w_memberCache (start_world d) = []" "w_reachCache (start_world d) = []"
  "w_sessions (start_world d) = Map.empty" "w_authLimiter (start_world d) = Map.empty" "w_preAuthLimiter (start_world d) = Map.empty"
  "w_lastExportAt (start_world d) = Map.empty"
  by (simp_all add: start_world_def)

end
