(* ===== verification/JsDate.thy ===== *)
theory JsDate
  imports Prelude
begin

text \<open>
  Calendar months in UTC.  The first part is the language's own proleptic Gregorian calendar
  (ECMAScript's \<open>DayFromYear\<close>, \<open>YearFromTime\<close>, \<open>MonthFromTime\<close>, \<open>Date.UTC\<close> and the
  prefix of \<open>toISOString\<close>); the second part is \<open>usageMonthForDate\<close> of
  \<open>src/db/repos/usage.ts\<close> and \<open>monthStart\<close>, \<open>nextMonthStart\<close> of
  \<open>src/db/repos/deliveryLogs.ts\<close>.  The lemmas show that the months tile the time line.
\<close>

section \<open>ECMAScript calendar\<close>

definition ms_per_day :: int where "ms_per_day = 86400000"

definition day_from_year :: "int \<Rightarrow> int" where
  "day_from_year y = 365 * (y - 1970) + (y - 1969) div 4 - (y - 1901) div 100 + (y - 1601) div 400"

text \<open>The year of a day: an estimate from the mean year, corrected by at most one either way.\<close>

definition year_from_day :: "int \<Rightarrow> int" where
  "year_from_day d =
     (let y = 1970 + (400 * d) div 146097
      in if day_from_year (y + 1) \<le> d then y + 1 else if day_from_year y \<le> d then y else y - 1)"

definition is_leap :: "int \<Rightarrow> bool" where
  "is_leap y \<longleftrightarrow> y mod 4 = 0 \<and> (y mod 100 \<noteq> 0 \<or> y mod 400 = 0)"

definition month_offset :: "bool \<Rightarrow> nat \<Rightarrow> int" where
  "month_offset leap m =
     [0, 31, 59, 90, 120, 151, 181, 212, 243, 273, 304, 334, 365] ! m + (if leap \<and> 2 \<le> m then 1 else 0)"

definition month_of_doy :: "bool \<Rightarrow> int \<Rightarrow> nat" where
  "month_of_doy leap n = count_where (\<lambda>m. month_offset leap m \<le> n) [1, 2, 3, 4, 5, 6, 7, 8, 9, 10, 11]"

definition utc_year :: "instant \<Rightarrow> int" where
  "utc_year t = year_from_day (t div ms_per_day)"

text \<open>\<open>getUTCMonth\<close>: 0 to 11.\<close>

definition utc_month :: "instant \<Rightarrow> nat" where
  "utc_month t =
     (let d = t div ms_per_day; y = year_from_day d in month_of_doy (is_leap y) (d - day_from_year y))"

text \<open>Midnight on the first day of month \<open>m\<close> (0 to 11) of year \<open>y\<close>.\<close>

definition month_instant :: "int \<Rightarrow> nat \<Rightarrow> instant" where
  "month_instant y m = (day_from_year y + month_offset (is_leap y) m) * ms_per_day"

text \<open>\<open>Date.UTC(y, m, 1)\<close> for \<open>0 \<le> m\<close>: months carry into years, and a year from 0 to 99 means
  1900 to 1999.\<close>

definition date_utc_first :: "int \<Rightarrow> nat \<Rightarrow> instant" where
  "date_utc_first y m =
     (let yr = (if 0 \<le> y \<and> y \<le> 99 then 1900 + y else y) in month_instant (yr + int (m div 12)) (m mod 12))"

lemma div_step:
  fixes z n :: int
  assumes "0 < n"
  shows "(z + 1) div n = z div n + (if (z + 1) mod n = 0 then 1 else 0)"
proof -
  define q r where "q = z div n" and "r = z mod n"
  have z: "z = n * q + r" and r: "0 \<le> r" "r < n" using assms by (simp_all add: q_def r_def)
  show ?thesis
  proof (cases "r + 1 = n")
    case True
    have "z + 1 = n * (q + 1) + 0" using z True by (simp add: algebra_simps)
    then have "(z + 1) div n = q + 1" "(z + 1) mod n = 0"
      using assms by (simp_all add: int_div_pos_eq)
    then show ?thesis by (simp add: q_def)
  next
    case False
    have e: "z + 1 = n * q + (r + 1)" using z by simp
    have "(z + 1) div n = q" using e r False by (intro int_div_pos_eq [of _ _ _ "r + 1"]) auto
    moreover have "(z + 1) mod n = r + 1" using e r False by (intro int_mod_pos_eq [of _ _ q]) auto
    ultimately show ?thesis using r by (simp add: q_def)
  qed
qed

lemma leap_cases:
  "(C \<longrightarrow> B) \<Longrightarrow> (B \<longrightarrow> A) \<Longrightarrow>
   (x::int) + 365 + (if A then 1 else 0) - (if B then 1 else 0) + (if C then 1 else 0) =
   x + (if A \<and> (\<not> B \<or> C) then 366 else 365)"
  by (cases A; cases B; cases C) simp_all

lemma leap_day: "day_from_year (y + 1) = day_from_year y + (if is_leap y then 366 else 365)"
proof -
  have "(y - 1968) mod 4 = y mod 4" using mod_mult_self1 [of y "-492" 4] by simp
  then have 4: "(y + 1 - 1969) div 4 = (y - 1969) div 4 + (if y mod 4 = 0 then 1 else 0)"
    using div_step [of 4 "y - 1969"] by simp
  have "(y - 1900) mod 100 = y mod 100" using mod_mult_self1 [of y "-19" 100] by simp
  then have 100: "(y + 1 - 1901) div 100 = (y - 1901) div 100 + (if y mod 100 = 0 then 1 else 0)"
    using div_step [of 100 "y - 1901"] by simp
  have "(y - 1600) mod 400 = y mod 400" using mod_mult_self1 [of y "-4" 400] by simp
  then have 400: "(y + 1 - 1601) div 400 = (y - 1601) div 400 + (if y mod 400 = 0 then 1 else 0)"
    using div_step [of 400 "y - 1601"] by simp
  have dvds: "y mod 400 = 0 \<longrightarrow> y mod 100 = 0" "y mod 100 = 0 \<longrightarrow> y mod 4 = 0"
    by (auto simp: mod_eq_0_iff_dvd intro: dvd_trans [of 100 400 y] dvd_trans [of 4 100 y])
  have "day_from_year (y + 1) = day_from_year y + 365 + (if y mod 4 = 0 then 1 else 0)
      - (if y mod 100 = 0 then 1 else 0) + (if y mod 400 = 0 then 1 else 0)"
    unfolding day_from_year_def 4 100 400 by (simp only: algebra_simps)
  then show ?thesis unfolding leap_cases [OF dvds] is_leap_def .
qed

lemma day_from_year_mono: "y \<le> z \<Longrightarrow> day_from_year y \<le> day_from_year z"
proof (induction z rule: int_ge_induct)
  case (step i)
  then show ?case by (simp add: leap_day)
qed simp

lemma div_bounds:
  fixes z n :: int
  assumes "0 < n"
  shows "n * (z div n) \<le> z" and "z < n * (z div n) + n"
  using mult_div_mod_eq [of n z] pos_mod_sign [OF assms, of z] pos_mod_bound [OF assms, of z]
  by linarith+

lemma day_from_year_bounds:
  shows day_from_year_lower: "146097 * (y - 1970) - 1000 \<le> 400 * day_from_year y"
    and day_from_year_upper: "400 * day_from_year y \<le> 146097 * (y - 1970) + 1000"
proof -
  define a b c where "a = (y - 1969) div 4" and "b = (y - 1901) div 100" and "c = (y - 1601) div 400"
  have bounds: "4 * a \<le> y - 1969" "y - 1969 < 4 * a + 4"
    "100 * b \<le> y - 1901" "y - 1901 < 100 * b + 100"
    "400 * c \<le> y - 1601" "y - 1601 < 400 * c + 400"
    unfolding a_def b_def c_def by (rule div_bounds, simp)+
  have d: "day_from_year y = 365 * (y - 1970) + a - b + c"
    by (simp add: day_from_year_def a_def b_def c_def)
  show "146097 * (y - 1970) - 1000 \<le> 400 * day_from_year y" unfolding d using bounds by (simp add: algebra_simps)
  show "400 * day_from_year y \<le> 146097 * (y - 1970) + 1000" unfolding d using bounds by (simp add: algebra_simps)
qed

lemma year_from_day_spec:
  "day_from_year (year_from_day d) \<le> d \<and> d < day_from_year (year_from_day d + 1)"
proof -
  define y where "y = 1970 + (400 * d) div 146097"
  have e: "146097 * (y - 1970) \<le> 400 * d" "400 * d < 146097 * (y - 1970) + 146097"
    unfolding y_def using div_bounds [of 146097 "400 * d"] by simp_all
  have lo: "day_from_year (y - 1) \<le> d" using day_from_year_upper [of "y - 1"] e by (simp add: algebra_simps)
  have hi: "d < day_from_year (y + 2)" using day_from_year_lower [of "y + 2"] e by (simp add: algebra_simps)
  show ?thesis using lo hi
    unfolding year_from_day_def y_def [symmetric] Let_def by (auto simp: add.assoc)
qed

lemma year_from_day_unique:
  assumes "day_from_year y \<le> d" and "d < day_from_year (y + 1)"
  shows "year_from_day d = y"
proof (rule ccontr)
  assume "year_from_day d \<noteq> y"
  then consider "year_from_day d + 1 \<le> y" | "y + 1 \<le> year_from_day d" by linarith
  then show False
    using year_from_day_spec [of d] assms day_from_year_mono [of "year_from_day d + 1" y]
      day_from_year_mono [of "y + 1" "year_from_day d"] by cases linarith+
qed

lemma month_of_doy_spec:
  assumes "0 \<le> n" and "n < month_offset leap 12"
  shows "month_of_doy leap n \<le> 11 \<and> month_offset leap (month_of_doy leap n) \<le> n \<and>
         n < month_offset leap (Suc (month_of_doy leap n))"
  using assms by (cases leap) (simp_all add: month_of_doy_def month_offset_def)

lemma month_offset_strict: "m < k \<Longrightarrow> k \<le> 12 \<Longrightarrow> month_offset leap m < month_offset leap k"
proof -
  have step: "k < 12 \<Longrightarrow> month_offset leap k < month_offset leap (Suc k)" for k
  proof -
    assume "k < 12"
    then have "k \<in> set [0..<12]" by simp
    then show ?thesis by (auto simp: upt_conv_Cons month_offset_def numeral_eq_Suc)
  qed
  show "m < k \<Longrightarrow> k \<le> 12 \<Longrightarrow> month_offset leap m < month_offset leap k"
  proof (induction k)
    case (Suc k)
    then show ?case using step [of k] by (cases "m = k") auto
  qed simp
qed

lemma month_of_doy_unique:
  assumes "m \<le> 11" "month_offset leap m \<le> n" "n < month_offset leap (Suc m)"
  shows "month_of_doy leap n = m"
proof -
  have "0 \<le> n" "n < month_offset leap 12"
    using assms month_offset_strict [of 0 m leap] month_offset_strict [of "Suc m" 12 leap]
    by (cases "m = 0"; cases "m = 11"; simp add: month_offset_def)+
  from month_of_doy_spec [OF this]
  have spec: "month_of_doy leap n \<le> 11" "month_offset leap (month_of_doy leap n) \<le> n"
    "n < month_offset leap (Suc (month_of_doy leap n))" by blast+
  show ?thesis
  proof (rule ccontr)
    assume "month_of_doy leap n \<noteq> m"
    then consider "Suc (month_of_doy leap n) \<le> m" | "Suc m \<le> month_of_doy leap n" by linarith
    then show False
    proof cases
      case 1
      then have "month_offset leap (Suc (month_of_doy leap n)) \<le> month_offset leap m"
        using month_offset_strict [of "Suc (month_of_doy leap n)" m leap] assms(1)
        by (cases "Suc (month_of_doy leap n) = m") auto
      with spec(3) assms(2) show False by linarith
    next
      case 2
      then have "month_offset leap (Suc m) \<le> month_offset leap (month_of_doy leap n)"
        using month_offset_strict [of "Suc m" "month_of_doy leap n" leap] spec(1)
        by (cases "Suc m = month_of_doy leap n") auto
      with spec(2) assms(3) show False by linarith
    qed
  qed
qed


definition month_end :: "int \<Rightarrow> nat \<Rightarrow> instant" where
  "month_end y m = (day_from_year y + month_offset (is_leap y) (Suc m)) * ms_per_day"

lemma le_div_day: "k * ms_per_day \<le> t \<longleftrightarrow> k \<le> t div ms_per_day"
proof
  assume "k * ms_per_day \<le> t"
  then have "(k * ms_per_day) div ms_per_day \<le> t div ms_per_day"
    by (intro zdiv_mono1) (simp_all add: ms_per_day_def)
  then show "k \<le> t div ms_per_day" by (simp add: ms_per_day_def)
next
  assume "k \<le> t div ms_per_day"
  then have "k * ms_per_day \<le> (t div ms_per_day) * ms_per_day"
    by (intro mult_right_mono) (simp_all add: ms_per_day_def)
  also have "\<dots> \<le> t" using div_bounds(1) [of ms_per_day t] by (simp add: ms_per_day_def)
  finally show "k * ms_per_day \<le> t" .
qed

lemma year_length: "day_from_year (y + 1) = day_from_year y + month_offset (is_leap y) 12"
  by (simp add: leap_day month_offset_def)

lemma month_offset_0 [simp]: "month_offset leap 0 = 0"
  by (simp add: month_offset_def)

lemma utc_month_bound: "utc_month t \<le> 11"
  using year_from_day_spec [of "t div ms_per_day"] month_of_doy_spec year_length
  by (auto simp: utc_month_def Let_def)

lemma month_interval:
  assumes m: "m \<le> 11"
  shows "month_instant y m \<le> t \<and> t < month_end y m \<longleftrightarrow> utc_year t = y \<and> utc_month t = m"
proof -
  define d where "d = t div ms_per_day"
  have iv: "month_instant y m \<le> t \<and> t < month_end y m \<longleftrightarrow>
      day_from_year y + month_offset (is_leap y) m \<le> d \<and> d < day_from_year y + month_offset (is_leap y) (Suc m)"
    using le_div_day [of _ t] unfolding month_instant_def month_end_def d_def by (meson not_le)
  have offs: "0 \<le> month_offset (is_leap y) m" "month_offset (is_leap y) (Suc m) \<le> month_offset (is_leap y) 12"
    using m month_offset_strict [of 0 m "is_leap y"] month_offset_strict [of "Suc m" 12 "is_leap y"]
    by (cases "m = 0"; cases "m = 11"; simp)+
  show ?thesis
  proof
    assume "month_instant y m \<le> t \<and> t < month_end y m"
    with iv have d: "day_from_year y + month_offset (is_leap y) m \<le> d"
      "d < day_from_year y + month_offset (is_leap y) (Suc m)" by blast+
    have y: "year_from_day d = y"
      by (rule year_from_day_unique) (use d offs year_length [of y] in linarith)+
    have "month_of_doy (is_leap y) (d - day_from_year y) = m"
      by (rule month_of_doy_unique [OF m]) (use d in linarith)+
    with y show "utc_year t = y \<and> utc_month t = m"
      by (simp add: utc_year_def utc_month_def d_def Let_def)
  next
    assume eq: "utc_year t = y \<and> utc_month t = m"
    then have y: "year_from_day d = y" by (simp add: utc_year_def d_def)
    with eq have mm: "month_of_doy (is_leap y) (d - day_from_year y) = m"
      by (simp add: utc_month_def Let_def d_def)
    have "0 \<le> d - day_from_year y" "d - day_from_year y < month_offset (is_leap y) 12"
      using year_from_day_spec [of d] year_length [of y] y by auto
    from month_of_doy_spec [OF this] mm iv show "month_instant y m \<le> t \<and> t < month_end y m"
      by (simp add: add.commute le_diff_eq diff_less_eq)
  qed
qed

lemma month_instant_less_end: "m \<le> 11 \<Longrightarrow> month_instant y m < month_end y m"
  using month_offset_strict [of m "Suc m" "is_leap y"]
  by (simp add: month_instant_def month_end_def ms_per_day_def)

lemma utc_month_instant:
  "m \<le> 11 \<Longrightarrow> utc_year (month_instant y m) = y \<and> utc_month (month_instant y m) = m"
  using month_interval [of m y "month_instant y m"] month_instant_less_end [of m y] by simp

lemma date_utc_next_month:
  assumes "m \<le> 11" "100 \<le> y"
  shows "date_utc_first y (m + 1) = month_end y m"
proof (cases "m = 11")
  case True
  then show ?thesis using assms year_length [of y]
    by (simp add: date_utc_first_def month_end_def month_instant_def)
next
  case False
  then show ?thesis using assms
    by (simp add: date_utc_first_def month_end_def month_instant_def)
qed

section \<open>Decimal digits\<close>

definition digit :: "nat \<Rightarrow> char" where "digit n = char_of (48 + n)"

definition is_digit :: "char \<Rightarrow> bool" where
  "is_digit c \<longleftrightarrow> 48 \<le> char_code c \<and> char_code c \<le> 57"

fun dec :: "nat \<Rightarrow> nat \<Rightarrow> string" where
  "dec 0 n = []"
| "dec (Suc w) n = dec w (n div 10) @ [digit (n mod 10)]"

definition undec :: "string \<Rightarrow> nat" where
  "undec s = foldl (\<lambda>a c. 10 * a + (char_code c - 48)) 0 s"

lemma digit_code: "n < 10 \<Longrightarrow> char_code (digit n) = 48 + n"
  by (simp add: digit_def char_code_def)

lemma is_digit_digit: "n < 10 \<Longrightarrow> is_digit (digit n)"
  by (simp add: is_digit_def digit_code)

lemma length_dec [simp]: "length (dec w n) = w"
  by (induction w n rule: dec.induct) auto

lemma dec_digits: "\<forall>c\<in>set (dec w n). is_digit c"
  by (induction w n rule: dec.induct) (auto simp: is_digit_digit)

lemma undec_snoc: "undec (s @ [c]) = 10 * undec s + (char_code c - 48)"
  by (simp add: undec_def)

lemma undec_dec: "n < 10 ^ w \<Longrightarrow> undec (dec w n) = n"
proof (induction w n rule: dec.induct)
  case (2 w n)
  then have "n div 10 < 10 ^ w" by (simp add: less_mult_imp_div_less mult.commute)
  with 2 show ?case by (simp add: undec_snoc digit_code)
qed (simp add: undec_def)

lemma undec_bound: "\<forall>c\<in>set s. is_digit c \<Longrightarrow> undec s < 10 ^ length s"
  by (induction s rule: rev_induct) (auto simp: undec_snoc undec_def is_digit_def)

lemma dec_undec: "\<forall>c\<in>set s. is_digit c \<Longrightarrow> dec (length s) (undec s) = s"
proof (induction s rule: rev_induct)
  case (snoc c s)
  then have c: "48 \<le> char_code c" "char_code c \<le> 57" by (auto simp: is_digit_def)
  then have "digit (char_code c - 48) = c" by (simp add: digit_def char_code_def)
  moreover obtain k where "char_code c = 48 + k" "k < 10" using c le_Suc_ex [of 48 "char_code c"] by auto
  ultimately show ?case using snoc by (simp add: undec_snoc)
qed simp

section \<open>Usage months\<close>

text \<open>\<open>date.toISOString()\<close> up to the month; years outside 0 to 9999 are signed and six digits wide.\<close>

definition iso_year :: "int \<Rightarrow> string" where
  "iso_year y =
     (if 0 \<le> y \<and> y \<le> 9999 then dec 4 (nat y)
      else (if y < 0 then ''-'' else ''+'') @ dec 6 (nat \<bar>y\<bar>))"

definition usage_month_for_date :: "instant \<Rightarrow> string" where
  "usage_month_for_date t = take 7 (iso_year (utc_year t) @ ''-'' @ dec 2 (utc_month t + 1))"

datatype month_error = InvalidMonth | MonthOutOfRange

text \<open>\<open>/^\d{4}-\d{2}$/\<close>\<close>

definition month_format :: "string \<Rightarrow> bool" where
  "month_format s \<longleftrightarrow> length s = 7 \<and> list_all is_digit (take 4 s) \<and> s ! 4 = CHR ''-'' \<and> list_all is_digit (drop 5 s)"

definition month_start :: "string \<Rightarrow> month_error + instant" where
  "month_start s =
     (if \<not> month_format s then Inl InvalidMonth
      else let m = undec (drop 5 s)
           in if m < 1 \<or> 12 < m then Inl MonthOutOfRange
              else Inr (month_instant (int (undec (take 4 s))) (m - 1)))"

definition next_month_start :: "string \<Rightarrow> month_error + instant" where
  "next_month_start s =
     (case month_start s of
        Inl e \<Rightarrow> Inl e
      | Inr start \<Rightarrow> Inr (date_utc_first (utc_year start) (utc_month start + 1)))"

lemma usage_month_in_range:
  "0 \<le> utc_year t \<Longrightarrow> utc_year t \<le> 9999 \<Longrightarrow>
   usage_month_for_date t = dec 4 (nat (utc_year t)) @ ''-'' @ dec 2 (utc_month t + 1)"
  by (simp add: usage_month_for_date_def iso_year_def)

lemma month_format_split:
  assumes "month_format s"
  shows "s = take 4 s @ ''-'' @ drop 5 s"
proof -
  have "length s = 7" "s ! 4 = CHR ''-''" using assms by (simp_all add: month_format_def)
  then show ?thesis using id_take_nth_drop [of 4 s] by simp
qed

lemma month_start_InrE:
  assumes "month_start s = Inr a"
  obtains y m where "y \<le> 9999" "m \<le> 11" "s = dec 4 y @ ''-'' @ dec 2 (m + 1)" "a = month_instant (int y) m"
proof -
  have f: "month_format s" and r: "1 \<le> undec (drop 5 s)" "undec (drop 5 s) \<le> 12"
    and a: "a = month_instant (int (undec (take 4 s))) (undec (drop 5 s) - 1)"
    using assms by (auto simp: month_start_def Let_def split: if_splits)
  have d4: "\<forall>c\<in>set (take 4 s). is_digit c" and d5: "\<forall>c\<in>set (drop 5 s). is_digit c" and l: "length s = 7"
    using f by (auto simp: month_format_def list_all_iff)
  have "dec 4 (undec (take 4 s)) = take 4 s" using dec_undec [OF d4] l by simp
  moreover have "dec 2 (undec (drop 5 s)) = drop 5 s" using dec_undec [OF d5] l by simp
  moreover have "undec (take 4 s) < 10 ^ 4" using undec_bound [OF d4] l by simp
  ultimately show thesis
    using that [of "undec (take 4 s)" "undec (drop 5 s) - 1"] month_format_split [OF f] r a by simp
qed

lemma usage_month_signed:
  assumes "\<not> (0 \<le> utc_year t \<and> utc_year t \<le> 9999)"
  shows "\<not> is_digit (hd (usage_month_for_date t))"
  using assms by (auto simp: usage_month_for_date_def iso_year_def is_digit_def char_code_def)

lemma dec_inject: "n < 10 ^ w \<Longrightarrow> k < 10 ^ w \<Longrightarrow> dec w n = dec w k \<longleftrightarrow> n = k"
  by (metis undec_dec)

lemma usage_month_eq_iff:
  assumes "y \<le> 9999" "m \<le> 11"
  shows "usage_month_for_date t = dec 4 y @ ''-'' @ dec 2 (m + 1) \<longleftrightarrow>
         utc_year t = int y \<and> utc_month t = m"
proof (cases "0 \<le> utc_year t \<and> utc_year t \<le> 9999")
  case True
  have "nat (utc_year t) < 10 ^ 4" "y < 10 ^ 4" "utc_month t + 1 < 10 ^ 2" "m + 1 < 10 ^ 2"
    using True assms utc_month_bound [of t] by (auto simp: nat_less_iff)
  then show ?thesis using True assms
    by (auto simp: usage_month_in_range dec_inject)
next
  case False
  have "dec 4 y \<noteq> []" by (metis length_dec list.size(3) zero_neq_numeral)
  then have "is_digit (hd (dec 4 y @ ''-'' @ dec 2 (m + 1)))" using dec_digits [of 4 y] by simp
  with usage_month_signed [OF False] show ?thesis using False assms by auto
qed

lemma months_tile:
  assumes "month_start s = Inr a" "next_month_start s = Inr b" "100 \<le> utc_year a"
  shows "usage_month_for_date t = s \<longleftrightarrow> a \<le> t \<and> t < b"
proof -
  obtain y m where ym: "y \<le> 9999" "m \<le> 11" "s = dec 4 y @ ''-'' @ dec 2 (m + 1)"
    "a = month_instant (int y) m" using assms(1) by (rule month_start_InrE)
  have "utc_year a = int y" "utc_month a = m" using utc_month_instant [OF ym(2)] ym(4) by blast+
  with assms have "b = month_end (int y) m"
    using date_utc_next_month [OF ym(2), of "int y"] by (auto simp: next_month_start_def)
  then show ?thesis
    using usage_month_eq_iff [OF ym(1,2), of t] month_interval [OF ym(2), of "int y" t] ym(3,4) by simp
qed

lemma usage_month_has_start:
  assumes "0 \<le> utc_year t" "utc_year t \<le> 9999"
  shows "month_start (usage_month_for_date t) = Inr (month_instant (utc_year t) (utc_month t))"
proof -
  have "take 4 (usage_month_for_date t) = dec 4 (nat (utc_year t))"
    "drop 5 (usage_month_for_date t) = dec 2 (utc_month t + 1)"
    "usage_month_for_date t ! 4 = CHR ''-''" "length (usage_month_for_date t) = 7"
    using assms by (simp_all add: usage_month_in_range nth_append)
  moreover have "undec (dec 4 (nat (utc_year t))) = nat (utc_year t)"
    "undec (dec 2 (utc_month t + 1)) = utc_month t + 1"
    using assms utc_month_bound [of t] by (simp_all add: undec_dec nat_less_iff)
  ultimately show ?thesis using assms utc_month_bound [of t] dec_digits
    by (simp add: month_start_def month_format_def list_all_iff Let_def)
qed

section \<open>Integers in decimal\<close>

text \<open>\<open>n.toString()\<close> of an integral number below 1e21, and of a \<open>bigint\<close>.\<close>

fun nat_string :: "nat \<Rightarrow> string" where
  "nat_string n = (if n < 10 then [digit n] else nat_string (n div 10) @ [digit (n mod 10)])"

declare nat_string.simps [simp del]

definition int_string :: "int \<Rightarrow> string" where
  "int_string n = (if n < 0 then CHR ''-'' # nat_string (nat (- n)) else nat_string (nat n))"

lemma undec_nat_string: "undec (nat_string n) = n"
proof (induction n rule: nat_string.induct)
  case (1 n)
  then show ?case
    by (cases "n < 10") (simp_all add: nat_string.simps [of n] undec_snoc digit_code undec_snoc [of "[]", simplified] undec_def)
qed

lemma nat_string_digits: "\<forall>c\<in>set (nat_string n). is_digit c"
proof (induction n rule: nat_string.induct)
  case (1 n)
  then show ?case
    by (cases "n < 10") (auto simp: nat_string.simps [of n] is_digit_digit)
qed

lemma nat_string_not_Nil: "nat_string n \<noteq> []"
  by (simp add: nat_string.simps [of n])

lemma int_string_chars: "c \<in> set (int_string n) \<Longrightarrow> is_digit c \<or> c = CHR ''-''"
  using nat_string_digits by (auto simp: int_string_def split: if_splits)

lemma int_string_inject [simp]: "int_string m = int_string n \<longleftrightarrow> m = n"
proof
  assume eq: "int_string m = int_string n"
  have sgn: "hd (int_string k) = CHR ''-'' \<longleftrightarrow> k < 0" for k
  proof (cases "k < 0")
    case False
    have "is_digit (hd (nat_string (nat k)))" using nat_string_digits nat_string_not_Nil hd_in_set by blast
    then have "hd (nat_string (nat k)) \<noteq> CHR ''-''" by (auto simp: is_digit_def char_code_def)
    with False show ?thesis by (simp add: int_string_def)
  qed (simp add: int_string_def)
  show "m = n"
  proof (cases "m < 0")
    case True
    with eq sgn have n: "n < 0" by metis
    with True eq have "undec (nat_string (nat (- m))) = undec (nat_string (nat (- n)))" by (simp add: int_string_def)
    with True n show ?thesis by (simp add: undec_nat_string)
  next
    case False
    with eq sgn have n: "\<not> n < 0" by metis
    with False eq have "undec (nat_string (nat m)) = undec (nat_string (nat n))" by (simp add: int_string_def)
    with False n show ?thesis by (simp add: undec_nat_string)
  qed
qed simp

end
