(* ===== verification/Tokens.thy ===== *)
theory Tokens
  imports Effects JsDate
begin

text \<open>
  Bearer tokens of download and view links (\<open>src/utils/tokens.ts\<close>): a nonce followed by the HMAC
  of scope, subject, expiry second and nonce.  SHA-256 and HMAC are fields of the environment; what
  the code needs of them (lengths, no collision between two given messages) is a named hypothesis.
\<close>

datatype token_scope = AttachmentScope | DeliveryViewScope

fun scope_name :: "token_scope \<Rightarrow> string" where
  "scope_name AttachmentScope = ''attachment''"
| "scope_name DeliveryViewScope = ''delivery-view''"

definition nonce_hex_len :: nat where "nonce_hex_len = 32"

definition expires_at_unix :: "instant \<Rightarrow> string" where
  "expires_at_unix t = int_string (t div 1000)"

definition token_message :: "token_scope \<Rightarrow> string \<Rightarrow> instant \<Rightarrow> string \<Rightarrow> string" where
  "token_message scope subjectId expiresAt nonce =
     scope_name scope @ '':'' @ subjectId @ '':'' @ expires_at_unix expiresAt @ '':'' @ nonce"

definition hash_stored_token :: "env \<Rightarrow> string \<Rightarrow> string" where
  "hash_stored_token e token = sha256 e token"

definition generate_scoped_token :: "token_scope \<Rightarrow> string \<Rightarrow> instant \<Rightarrow> (string \<times> instant) io" where
  "generate_scoped_token scope subjectId expiresAt =
     bind (ask hmac_secret) (\<lambda>secret.
       if \<not> truthy secret then throw (Thrown ''HMAC_SECRET not set'')
       else bind (at_tick random_hex) (\<lambda>nonce.
            bind (ask (\<lambda>e. hmac_sha256 e (the secret) (token_message scope subjectId expiresAt nonce))) (\<lambda>hmac.
            ret (nonce @ hmac, expiresAt))))"

text \<open>\<open>Buffer.from(s, "hex")\<close>: decoding stops at the first pair that is not two hexadecimal digits.\<close>

definition hex_value :: "char \<Rightarrow> nat option" where
  "hex_value c = (let n = char_code c in
     if 48 \<le> n \<and> n \<le> 57 then Some (n - 48)
     else if 97 \<le> n \<and> n \<le> 102 then Some (n - 87)
     else if 65 \<le> n \<and> n \<le> 70 then Some (n - 55) else None)"

fun hex_bytes :: "string \<Rightarrow> nat list" where
  "hex_bytes (a # b # cs) =
     (case hex_value a of
        None \<Rightarrow> []
      | Some x \<Rightarrow> (case hex_value b of None \<Rightarrow> [] | Some y \<Rightarrow> (16 * x + y) # hex_bytes cs))"
| "hex_bytes _ = []"

text \<open>\<open>timingSafeEqual\<close> throws on buffers of different lengths, which the code turns into \<open>false\<close>.\<close>

definition verify_at :: "env \<Rightarrow> instant \<Rightarrow> string \<Rightarrow> token_scope \<Rightarrow> string \<Rightarrow> instant \<Rightarrow> bool" where
  "verify_at e t token scope subjectId expiresAt =
     (if expiresAt \<le> t then False
      else if \<not> truthy (hmac_secret e) then False
      else if length token \<noteq> nonce_hex_len + 64 then False
      else (let nonce = take nonce_hex_len token; providedHmac = drop nonce_hex_len token;
                expectedHmac = hmac_sha256 e (the (hmac_secret e)) (token_message scope subjectId expiresAt nonce)
            in hex_bytes providedHmac = hex_bytes expectedHmac))"

definition verify_scoped_token :: "string \<Rightarrow> token_scope \<Rightarrow> string \<Rightarrow> instant \<Rightarrow> bool io" where
  "verify_scoped_token token scope subjectId expiresAt =
     bind now (\<lambda>t. ask (\<lambda>e. verify_at e t token scope subjectId expiresAt))"

definition generate_download_token_for_expiry :: "uuid \<Rightarrow> instant \<Rightarrow> (string \<times> instant) io" where
  "generate_download_token_for_expiry attachmentId expiresAt = generate_scoped_token AttachmentScope attachmentId expiresAt"

definition generate_delivery_view_token_for_expiry :: "uuid \<Rightarrow> instant \<Rightarrow> (string \<times> instant) io" where
  "generate_delivery_view_token_for_expiry logId expiresAt = generate_scoped_token DeliveryViewScope logId expiresAt"

definition verify_download_token :: "string \<Rightarrow> uuid \<Rightarrow> instant \<Rightarrow> bool io" where
  "verify_download_token token attachmentId expiresAt = verify_scoped_token token AttachmentScope attachmentId expiresAt"

definition verify_delivery_view_token :: "string \<Rightarrow> uuid \<Rightarrow> instant \<Rightarrow> bool io" where
  "verify_delivery_view_token token logId expiresAt = verify_scoped_token token DeliveryViewScope logId expiresAt"

definition generate_download_token :: "uuid \<Rightarrow> int \<Rightarrow> (string \<times> instant) io" where
  "generate_download_token attachmentId ttlHours =
     bind now (\<lambda>t. generate_download_token_for_expiry attachmentId (t + ttlHours * 60 * 60 * 1000))"

definition generate_delivery_view_token :: "uuid \<Rightarrow> int \<Rightarrow> (string \<times> instant) io" where
  "generate_delivery_view_token logId ttlHours =
     bind now (\<lambda>t. generate_delivery_view_token_for_expiry logId (t + ttlHours * 60 * 60 * 1000))"

section \<open>Messages determine what they name\<close>

lemma split_at_first:
  fixes c :: char
  assumes "x @ c # xs = y @ c # ys" and "c \<notin> set x" and "c \<notin> set y"
  shows "x = y \<and> xs = ys"
proof -
  have "js_split c (x @ c # xs) = js_split c (y @ c # ys)" using assms(1) by simp
  moreover have "js_split c (z @ c # zs) = z # js_split c zs" if "c \<notin> set z" for z zs
    using that by (induction z) auto
  ultimately have "x = y" using assms(2,3) by simp
  with assms(1) show ?thesis by simp
qed

lemma scope_name_inject [simp]: "scope_name s = scope_name s' \<longleftrightarrow> s = s'"
  by (cases s; cases s') simp_all

lemma scope_name_no_colon [simp]: "CHR '':'' \<notin> set (scope_name s)"
  by (cases s) simp_all

lemma expires_no_colon [simp]: "CHR '':'' \<notin> set (expires_at_unix t)"
  using int_string_chars [of "CHR '':''" "t div 1000"] by (auto simp: expires_at_unix_def is_digit_def char_code_def)

lemma token_message_inject:
  assumes "token_message s i x n = token_message s' i' x' n'" and "CHR '':'' \<notin> set i" and "CHR '':'' \<notin> set i'"
  shows "s = s' \<and> i = i' \<and> x div 1000 = x' div 1000 \<and> n = n'"
proof -
  let ?c = "CHR '':''"
  have a: "scope_name s @ ?c # i @ ?c # expires_at_unix x @ ?c # n =
      scope_name s' @ ?c # i' @ ?c # expires_at_unix x' @ ?c # n'"
    using assms(1) by (simp add: token_message_def)
  have b: "scope_name s = scope_name s' \<and>
      i @ ?c # expires_at_unix x @ ?c # n = i' @ ?c # expires_at_unix x' @ ?c # n'"
    by (rule split_at_first [OF a]) simp_all
  have c: "i = i' \<and> expires_at_unix x @ ?c # n = expires_at_unix x' @ ?c # n'"
    using b assms(2,3) split_at_first [of i ?c _ i'] by blast
  have d: "expires_at_unix x = expires_at_unix x' \<and> n = n'"
    using c split_at_first [of "expires_at_unix x" ?c n "expires_at_unix x'" n'] by simp
  from b c d show ?thesis by (simp add: expires_at_unix_def)
qed

text \<open>What a successful generation returns.\<close>

lemma generate_InrD:
  assumes "generate_scoped_token scope i x e w = (Inr (token, x'), w')"
  shows "truthy (hmac_secret e) \<and> x' = x \<and> w_db w' = w_db w \<and> token = random_hex e (w_tick w) @
      hmac_sha256 e (the (hmac_secret e)) (token_message scope i x (random_hex e (w_tick w)))"
  using assms by (auto simp: generate_scoped_token_def run_simps split: if_splits)

lemma token_parts:
  assumes "length n = nonce_hex_len" and "length h = 64"
  shows "take nonce_hex_len (n @ h) = n" "drop nonce_hex_len (n @ h) = h" "length (n @ h) = nonce_hex_len + 64"
  using assms by simp_all

text \<open>A freshly generated token is accepted for the scope, subject and expiry it was made for exactly
  as long as the expiry lies in the future.\<close>

theorem token_accepted_until_expiry:
  assumes "length (random_hex e (w_tick w)) = nonce_hex_len"
    and "\<And>k m. length (hmac_sha256 e k m) = 64"
    and "generate_scoped_token scope i x e w = (Inr (token, x'), w')"
  shows "verify_at e t token scope i x' \<longleftrightarrow> t < x"
  using generate_InrD [OF assms(3)] token_parts [OF assms(1,2)]
  by (auto simp: verify_at_def Let_def)

lemma token_accepted_until_expiry_witness:
  "verify_at calm_env 5000 (replicate 32 (CHR ''0'') @ replicate 64 (CHR ''0'')) DeliveryViewScope ''log-1'' 6000 \<longleftrightarrow> (5000::int) < 6000"
proof (rule token_accepted_until_expiry)
  show "generate_scoped_token DeliveryViewScope ''log-1'' 6000 calm_env (start_world empty_db) =
      (Inr (replicate 32 (CHR ''0'') @ replicate 64 (CHR ''0''), 6000), (start_world empty_db)\<lparr>w_tick := 1\<rparr>)"
    by (simp add: generate_scoped_token_def bind_def ask_def at_tick_def ret_def calm_env_def)
qed (simp_all add: calm_env_def nonce_hex_len_def)

text \<open>A token opens nothing but what it was issued for: if a token issued for one scope, subject and
  expiry is accepted for another, the two HMAC messages collide; without that collision scope and
  subject are the same and the two expiries lie in the same second.\<close>

theorem token_opens_only_its_subject:
  assumes len: "length (random_hex e (w_tick w)) = nonce_hex_len" "\<And>k m. length (hmac_sha256 e k m) = 64"
    and issued: "generate_scoped_token scope i x e w = (Inr (token, x'), w')"
    and accepted: "verify_at e t token scope2 i2 x2"
    and colons: "CHR '':'' \<notin> set i" "CHR '':'' \<notin> set i2"
    and no_collision:
      "hex_bytes (hmac_sha256 e (the (hmac_secret e)) (token_message scope i x (random_hex e (w_tick w)))) =
       hex_bytes (hmac_sha256 e (the (hmac_secret e)) (token_message scope2 i2 x2 (random_hex e (w_tick w)))) \<Longrightarrow>
       token_message scope i x (random_hex e (w_tick w)) = token_message scope2 i2 x2 (random_hex e (w_tick w))"
  shows "scope2 = scope \<and> i2 = i \<and> x2 div 1000 = x div 1000 \<and> t < x2"
proof -
  have "hex_bytes (hmac_sha256 e (the (hmac_secret e)) (token_message scope i x (random_hex e (w_tick w)))) =
        hex_bytes (hmac_sha256 e (the (hmac_secret e)) (token_message scope2 i2 x2 (random_hex e (w_tick w))))"
    and "t < x2"
    using accepted generate_InrD [OF issued] token_parts [OF len] by (auto simp: verify_at_def Let_def split: if_splits)
  then show ?thesis using token_message_inject [OF no_collision colons] by simp
qed

lemma token_opens_only_its_subject_witness:
  "DeliveryViewScope = DeliveryViewScope \<and> ''log-1'' = ''log-1'' \<and> (6400::instant) div 1000 = 6000 div 1000 \<and> (5000::instant) < 6400"
proof (rule token_opens_only_its_subject [where token = "replicate 32 (CHR ''0'') @ replicate 64 (CHR ''0'')"])
  show "generate_scoped_token DeliveryViewScope ''log-1'' 6000 calm_env (start_world empty_db) =
      (Inr (replicate 32 (CHR ''0'') @ replicate 64 (CHR ''0''), 6000), (start_world empty_db)\<lparr>w_tick := 1\<rparr>)"
    by (simp add: generate_scoped_token_def bind_def ask_def at_tick_def ret_def calm_env_def)
  show "verify_at calm_env 5000 (replicate 32 (CHR ''0'') @ replicate 64 (CHR ''0'')) DeliveryViewScope ''log-1'' 6400"
    by (simp add: verify_at_def calm_env_def nonce_hex_len_def)
qed (simp_all add: calm_env_def nonce_hex_len_def token_message_def expires_at_unix_def)

end
