(* ===== verification/Interfaces.thy ===== *)
theory Interfaces
  imports Prelude
begin

text \<open>
  The contracts between components, as locales: a client's lemmas are proved once from the laws,
  and the providing component interprets the locale on its own operations.
  \<^item> \<open>ledger\<close>: counters per key that are credited and debited, never below zero
    (monthly usage, storage accounting);
  \<^item> \<open>once_only\<close>: a claim that exactly one caller wins per key (quota notices, and every table
    whose primary key is the claim);
  \<^item> \<open>versioned\<close>: a record guarded by a version that every successful mutation advances
    (alias routing).
\<close>

section \<open>Ledgers\<close>

datatype 'k movement = Credit 'k int | Debit 'k int

fun movement_ok :: "'k movement \<Rightarrow> bool" where
  "movement_ok (Credit k n) = (0 \<le> n)"
| "movement_ok (Debit k n) = (0 \<le> n)"

fun credits :: "'k \<Rightarrow> 'k movement list \<Rightarrow> int" where
  "credits k [] = 0"
| "credits k (Credit l n # ms) = (if k = l then n else 0) + credits k ms"
| "credits k (Debit l n # ms) = credits k ms"

fun debits :: "'k \<Rightarrow> 'k movement list \<Rightarrow> int" where
  "debits k [] = 0"
| "debits k (Credit l n # ms) = debits k ms"
| "debits k (Debit l n # ms) = (if k = l then n else 0) + debits k ms"

locale ledger =
  fixes balance :: "'s \<Rightarrow> 'k \<Rightarrow> int"
    and credit :: "'k \<Rightarrow> int \<Rightarrow> 's \<Rightarrow> 's"
    and debit :: "'k \<Rightarrow> int \<Rightarrow> 's \<Rightarrow> 's"
  assumes credit_same: "0 \<le> n \<Longrightarrow> balance (credit k n s) k = balance s k + n"
    and credit_other: "k \<noteq> l \<Longrightarrow> balance (credit k n s) l = balance s l"
    and debit_same: "0 \<le> balance s k \<Longrightarrow> 0 \<le> n \<Longrightarrow> balance (debit k n s) k = max 0 (balance s k - n)"
    and debit_other: "k \<noteq> l \<Longrightarrow> balance (debit k n s) l = balance s l"
begin

primrec post :: "'k movement \<Rightarrow> 's \<Rightarrow> 's" where
  "post (Credit k n) s = credit k n s"
| "post (Debit k n) s = debit k n s"

definition post_all :: "'k movement list \<Rightarrow> 's \<Rightarrow> 's" where
  "post_all ms s = fold post ms s"

lemma balance_post:
  assumes "movement_ok m" and "0 \<le> balance s l"
  shows "balance (post m s) l =
    (case m of Credit k n \<Rightarrow> balance s l + (if k = l then n else 0)
             | Debit k n \<Rightarrow> max 0 (balance s l - (if k = l then n else 0)))"
proof (cases m)
  case (Credit k n)
  with assms show ?thesis using credit_same [of n l s] credit_other [of k l n s] by (cases "k = l") auto
next
  case (Debit k n)
  with assms show ?thesis using debit_same [of s l n] debit_other [of k l n s] by (cases "k = l") auto
qed

lemma post_nonneg: "movement_ok m \<Longrightarrow> 0 \<le> balance s l \<Longrightarrow> 0 \<le> balance (post m s) l"
  by (subst balance_post) (auto split: movement.splits)

lemma charge_refund:
  "0 \<le> n \<Longrightarrow> 0 \<le> balance s k \<Longrightarrow> balance (debit k n (credit k n s)) l = balance s l"
  using credit_same [of n k s] debit_same [of "credit k n s" k n] credit_other [of k l n s]
    debit_other [of k l n "credit k n s"]
  by (cases "k = l") auto

lemma refund_at_most:
  "0 \<le> n \<Longrightarrow> 0 \<le> balance s k \<Longrightarrow> balance s k - n \<le> balance (debit k n s) k"
  using debit_same [of s k n] by simp

text \<open>A whole history: never below zero, never above the credits, and short of the plain sum only
  where a debit met the floor.\<close>

lemma post_all_bounds:
  assumes "list_all movement_ok ms" and "0 \<le> balance s k"
  shows "0 \<le> balance (post_all ms s) k \<and> balance (post_all ms s) k \<le> balance s k + credits k ms \<and>
         balance s k + credits k ms - debits k ms \<le> balance (post_all ms s) k"
  using assms
proof (induction ms arbitrary: s)
  case (Cons m ms)
  then have nn: "0 \<le> balance (post m s) k" and ok: "movement_ok m" by (auto intro: post_nonneg)
  have "0 \<le> balance (post_all ms (post m s)) k \<and>
        balance (post_all ms (post m s)) k \<le> balance (post m s) k + credits k ms \<and>
        balance (post m s) k + credits k ms - debits k ms \<le> balance (post_all ms (post m s)) k"
    using Cons.IH [of "post m s"] Cons.prems nn by simp
  moreover have "balance (post m s) k =
    (case m of Credit l n \<Rightarrow> balance s k + (if l = k then n else 0)
             | Debit l n \<Rightarrow> max 0 (balance s k - (if l = k then n else 0)))"
    using ok Cons.prems(2) by (rule balance_post)
  ultimately show ?case using ok Cons.prems(2)
    by (cases m) (auto simp: post_all_def)
qed (simp add: post_all_def)

end

section \<open>Claims\<close>

text \<open>The keys won, in order, when the claims are made one after another.\<close>

fun run_claims :: "('k \<Rightarrow> 's \<Rightarrow> bool \<times> 's) \<Rightarrow> 'k list \<Rightarrow> 's \<Rightarrow> 'k list" where
  "run_claims claim [] s = []"
| "run_claims claim (k # ks) s =
     (case claim k s of (won, s') \<Rightarrow> (if won then [k] else []) @ run_claims claim ks s')"

locale once_only =
  fixes claimed :: "'s \<Rightarrow> 'k \<Rightarrow> bool"
    and claim :: "'k \<Rightarrow> 's \<Rightarrow> bool \<times> 's"
  assumes claim_won: "fst (claim k s) = (\<not> claimed s k)"
    and claim_marks: "claimed (snd (claim k s)) l = (l = k \<or> claimed s l)"
begin

lemma won_once:
  "count_list (run_claims claim ks s) k = (if k \<in> set ks \<and> \<not> claimed s k then 1 else 0)"
proof (induction ks arbitrary: s)
  case (Cons l ks)
  obtain won s' where c: "claim l s = (won, s')" by fastforce
  with claim_won [of l s] claim_marks [of l s k] Cons.IH [of s'] show ?case by auto
qed simp

lemma claimed_loses: "claimed s k \<Longrightarrow> k \<notin> set (run_claims claim ks s)"
  using won_once [of ks s k] by (simp add: count_list_0_iff)

end

section \<open>Compare-and-swap on a version\<close>

text \<open>\<open>version\<close> is None for a record that does not exist or is deleted for good.  Next to the guarded
  mutations there may be unguarded ones (\<open>rekey\<close>) that move a version forward or leave it.\<close>

datatype ('k, 'c, 'b) mutation = Guarded 'k int 'c | Rekey 'b

fun not_before :: "int \<Rightarrow> int option \<Rightarrow> bool" where
  "not_before v None = True"
| "not_before v (Some u) = (v \<le> u)"

locale versioned =
  fixes wf :: "'s \<Rightarrow> bool"
    and version :: "'s \<Rightarrow> 'k \<Rightarrow> int option"
    and apply_cas :: "'k \<Rightarrow> int \<Rightarrow> 'c \<Rightarrow> 's \<Rightarrow> bool \<times> 's"
    and rekey :: "'b \<Rightarrow> 's \<Rightarrow> 's"
  assumes cas_iff: "wf s \<Longrightarrow> fst (apply_cas k v c s) \<longleftrightarrow> version s k = Some v"
    and cas_wf: "wf s \<Longrightarrow> wf (snd (apply_cas k v c s))"
    and cas_advances: "wf s \<Longrightarrow> version s k = Some v \<Longrightarrow>
          version (snd (apply_cas k v c s)) k = Some (v + 1) \<or> version (snd (apply_cas k v c s)) k = None"
    and cas_frame: "wf s \<Longrightarrow> k \<noteq> l \<or> version s k \<noteq> Some v \<Longrightarrow> version (snd (apply_cas k v c s)) l = version s l"
    and rekey_wf: "wf s \<Longrightarrow> wf (rekey b s)"
    and rekey_forward: "wf s \<Longrightarrow> version s k = Some v \<Longrightarrow> \<exists>u\<ge>v. version (rekey b s) k = Some u"
    and rekey_none: "wf s \<Longrightarrow> version s k = None \<Longrightarrow> version (rekey b s) k = None"
begin

primrec mutate :: "('k, 'c, 'b) mutation \<Rightarrow> 's \<Rightarrow> 's" where
  "mutate (Guarded k v c) s = snd (apply_cas k v c s)"
| "mutate (Rekey b) s = rekey b s"

lemma mutate_wf: "wf s \<Longrightarrow> wf (mutate m s)"
  by (cases m) (auto intro: cas_wf rekey_wf)

lemma mutate_forward:
  assumes "wf s" and "not_before v (version s k)"
  shows "not_before v (version (mutate m s) k)"
proof (cases m)
  case (Guarded l u c)
  show ?thesis
  proof (cases "l = k \<and> version s l = Some u")
    case True
    with assms cas_advances [of s l u c] show ?thesis by (auto simp: Guarded)
  next
    case False
    then have "version (snd (apply_cas l u c s)) k = version s k"
      using assms(1) by (intro cas_frame) auto
    with assms(2) show ?thesis by (simp add: Guarded)
  qed
next
  case (Rekey b)
  with assms rekey_forward [of s k _ b] rekey_none [of s k b] show ?thesis
    by (cases "version s k") force+
qed

lemma run_forward:
  "wf s \<Longrightarrow> not_before v (version s k) \<Longrightarrow>
   wf (fold mutate ms s) \<and> not_before v (version (fold mutate ms s) k)"
  by (induction ms arbitrary: s) (auto intro: mutate_wf mutate_forward)

text \<open>A token that was used once is dead for good, whatever happens in between: restoring the
  guarded data does not restore the version.\<close>

lemma stale_token_fails:
  assumes "wf s" and won: "fst (apply_cas k v c s)"
  shows "\<not> fst (apply_cas k v d (fold mutate ms (snd (apply_cas k v c s))))"
proof -
  let ?s = "snd (apply_cas k v c s)"
  have "version s k = Some v" using assms cas_iff by blast
  then have "not_before (v + 1) (version ?s k)" using cas_advances [OF assms(1), of k v c] by auto
  then have "wf (fold mutate ms ?s)" "not_before (v + 1) (version (fold mutate ms ?s) k)"
    using run_forward [OF cas_wf [OF assms(1)]] by blast+
  then show ?thesis using cas_iff by fastforce
qed

end

end
