(* ===== verification/UsageRepo.thy ===== *)
theory UsageRepo
  imports Effects Interfaces JsDate
begin

text \<open>
  Monthly usage (\<open>src/db/repos/usage.ts\<close>), storage accounting
  (\<open>src/db/repos/storageUsage.ts\<close>), the claim table of quota notices
  (\<open>src/db/repos/quotaNotifications.ts\<close>) and the refund of an accepted email
  (\<open>src/billing/usageRefund.ts\<close>).  The counters interpret the \<open>ledger\<close> contract and the notice
  table the \<open>once_only\<close> contract.
\<close>

section \<open>user_usage_months\<close>

definition is_usage :: "bigint \<Rightarrow> string \<Rightarrow> usage_row \<Rightarrow> bool" where
  "is_usage u m r \<longleftrightarrow> um_userId r = u \<and> um_month r = m"

definition get_user_usage_month :: "bigint \<Rightarrow> string \<Rightarrow> db \<Rightarrow> usage_row option" where
  "get_user_usage_month u m d = select_first (is_usage u m) (userUsageMonths d)"

definition count_users_with_accepted_mail_in_month :: "string \<Rightarrow> db \<Rightarrow> nat" where
  "count_users_with_accepted_mail_in_month m d =
     count_where (\<lambda>r. um_month r = m \<and> um_deliveredCount r > 0) (userUsageMonths d)"

definition count_users_ever_delivered :: "db \<Rightarrow> nat" where
  "count_users_ever_delivered d =
     length (remdups (map um_userId (filter (\<lambda>r. um_deliveredCount r > 0) (userUsageMonths d))))"

definition add_usage :: "int \<Rightarrow> int \<Rightarrow> bigint \<Rightarrow> usage_row \<Rightarrow> usage_row" where
  "add_usage dc rc eb r = r\<lparr> um_deliveredCount := um_deliveredCount r + dc,
     um_rejectedCount := um_rejectedCount r + rc, um_egressBytes := um_egressBytes r + eb \<rparr>"

definition sub_usage :: "int \<Rightarrow> int \<Rightarrow> bigint \<Rightarrow> usage_row \<Rightarrow> usage_row" where
  "sub_usage dc rc eb r = r\<lparr> um_deliveredCount := max (um_deliveredCount r - dc) 0,
     um_rejectedCount := max (um_rejectedCount r - rc) 0, um_egressBytes := max (um_egressBytes r - eb) 0 \<rparr>"

text \<open>\<open>INSERT ... ON CONFLICT (user_id, month) DO UPDATE ... RETURNING\<close>\<close>

definition upsert_usage :: "bigint \<Rightarrow> string \<Rightarrow> int \<Rightarrow> int \<Rightarrow> bigint \<Rightarrow> db \<Rightarrow> usage_row \<times> db" where
  "upsert_usage u m dc rc eb d =
     (case get_user_usage_month u m d of
        None \<Rightarrow>
          (let r = \<lparr> um_userId = u, um_month = m, um_deliveredCount = dc, um_rejectedCount = rc, um_egressBytes = eb \<rparr>
           in (r, d\<lparr> userUsageMonths := userUsageMonths d @ [r] \<rparr>))
      | Some r \<Rightarrow>
          (add_usage dc rc eb r,
           d\<lparr> userUsageMonths := update_where (is_usage u m) (add_usage dc rc eb) (userUsageMonths d) \<rparr>))"

definition increment_user_usage_month :: "bigint \<Rightarrow> string \<Rightarrow> int \<Rightarrow> int \<Rightarrow> bigint \<Rightarrow> usage_row io" where
  "increment_user_usage_month u m deliveredCount rejectedCount egressBytes =
     (if deliveredCount < 0 \<or> rejectedCount < 0 \<or> egressBytes < 0
      then throw (Thrown ''Usage increments must be non-negative'')
      else db_stmt (\<lambda>_ d. Inr (upsert_usage u m deliveredCount rejectedCount egressBytes d)))"

definition lower_usage :: "bigint \<Rightarrow> string \<Rightarrow> int \<Rightarrow> int \<Rightarrow> bigint \<Rightarrow> db \<Rightarrow> usage_row option \<times> db" where
  "lower_usage u m dc rc eb d =
     (map_option (sub_usage dc rc eb) (get_user_usage_month u m d),
      d\<lparr> userUsageMonths := update_where (is_usage u m) (sub_usage dc rc eb) (userUsageMonths d) \<rparr>)"

definition decrement_user_usage_month :: "bigint \<Rightarrow> string \<Rightarrow> int \<Rightarrow> int \<Rightarrow> bigint \<Rightarrow> usage_row io" where
  "decrement_user_usage_month u m deliveredCount rejectedCount egressBytes =
     (if deliveredCount < 0 \<or> rejectedCount < 0 \<or> egressBytes < 0
      then throw (Thrown ''Usage decrements must be non-negative'')
      else bind (db_stmt (\<lambda>_ d. Inr (lower_usage u m deliveredCount rejectedCount egressBytes d)))
        (\<lambda>usage. case usage of
            None \<Rightarrow> throw (Thrown ''decrementUserUsageMonth: no row returned'')
          | Some r \<Rightarrow> ret r))"

section \<open>user_storage_usage\<close>

definition get_user_storage_usage :: "bigint \<Rightarrow> db \<Rightarrow> storage_row option" where
  "get_user_storage_usage u d = select_first (\<lambda>r. su_userId r = u) (userStorageUsage d)"

definition add_storage :: "bigint \<Rightarrow> bigint \<Rightarrow> storage_row \<Rightarrow> storage_row" where
  "add_storage raw att r =
     r\<lparr> su_rawEmailBytes := su_rawEmailBytes r + raw, su_attachmentBytes := su_attachmentBytes r + att \<rparr>"

definition sub_storage :: "bigint \<Rightarrow> bigint \<Rightarrow> storage_row \<Rightarrow> storage_row" where
  "sub_storage raw att r =
     r\<lparr> su_rawEmailBytes := max (su_rawEmailBytes r - raw) 0, su_attachmentBytes := max (su_attachmentBytes r - att) 0 \<rparr>"

definition assert_non_negative_storage_delta :: "bigint \<Rightarrow> bigint \<Rightarrow> unit io" where
  "assert_non_negative_storage_delta raw att =
     (if raw < 0 \<or> att < 0 then throw (Thrown ''Storage usage deltas must be non-negative'') else ret ())"

definition upsert_storage :: "bigint \<Rightarrow> bigint \<Rightarrow> bigint \<Rightarrow> db \<Rightarrow> storage_row \<times> db" where
  "upsert_storage u raw att d =
     (case get_user_storage_usage u d of
        None \<Rightarrow>
          (let r = \<lparr> su_userId = u, su_rawEmailBytes = raw, su_attachmentBytes = att \<rparr>
           in (r, d\<lparr> userStorageUsage := userStorageUsage d @ [r] \<rparr>))
      | Some r \<Rightarrow>
          (add_storage raw att r,
           d\<lparr> userStorageUsage := update_where (\<lambda>r. su_userId r = u) (add_storage raw att) (userStorageUsage d) \<rparr>))"

definition increment_user_storage_usage :: "bigint \<Rightarrow> bigint \<Rightarrow> bigint \<Rightarrow> storage_row io" where
  "increment_user_storage_usage u raw att =
     bind (assert_non_negative_storage_delta raw att)
       (\<lambda>_. db_stmt (\<lambda>_ d. Inr (upsert_storage u raw att d)))"

definition lower_storage :: "bigint \<Rightarrow> bigint \<Rightarrow> bigint \<Rightarrow> db \<Rightarrow> storage_row option \<times> db" where
  "lower_storage u raw att d =
     (map_option (sub_storage raw att) (get_user_storage_usage u d),
      d\<lparr> userStorageUsage := update_where (\<lambda>r. su_userId r = u) (sub_storage raw att) (userStorageUsage d) \<rparr>)"

definition decrement_user_storage_usage :: "bigint \<Rightarrow> bigint \<Rightarrow> bigint \<Rightarrow> storage_row io" where
  "decrement_user_storage_usage u raw att =
     bind (assert_non_negative_storage_delta raw att) (\<lambda>_.
     bind (db_stmt (\<lambda>_ d. Inr (lower_storage u raw att d)))
       (\<lambda>usage. case usage of
           None \<Rightarrow> throw (Thrown ''decrementUserStorageUsage: no row returned'')
         | Some r \<Rightarrow> ret r))"

section \<open>user_quota_notifications\<close>

definition quota_claimed :: "db \<Rightarrow> bigint \<times> quota_notice \<times> string \<Rightarrow> bool" where
  "quota_claimed d k \<longleftrightarrow>
     (case k of (u, reason, m) \<Rightarrow>
        list_ex (\<lambda>r. qn_userId r = u \<and> qn_reason r = reason \<and> qn_month r = m) (userQuotaNotifications d))"

text \<open>\<open>INSERT ... ON CONFLICT DO NOTHING RETURNING\<close>: a row comes back only for the winner.\<close>

definition insert_quota_claim :: "instant \<Rightarrow> bigint \<times> quota_notice \<times> string \<Rightarrow> db \<Rightarrow> bool \<times> db" where
  "insert_quota_claim t k d =
     (if quota_claimed d k then (False, d)
      else (case k of (u, reason, m) \<Rightarrow>
        (True, d\<lparr> userQuotaNotifications := userQuotaNotifications d @
                 [\<lparr> qn_userId = u, qn_reason = reason, qn_month = m, qn_sentAt = t \<rparr>] \<rparr>)))"

definition claim_quota_notification :: "bigint \<Rightarrow> quota_notice \<Rightarrow> string \<Rightarrow> bool io" where
  "claim_quota_notification u reason m = db_stmt (\<lambda>t d. Inr (insert_quota_claim t (u, reason, m) d))"

definition delete_old_quota_notifications :: "instant \<Rightarrow> db \<Rightarrow> nat \<times> db" where
  "delete_old_quota_notifications cutoff d =
     (count_where (\<lambda>r. qn_sentAt r < cutoff) (userQuotaNotifications d),
      d\<lparr> userQuotaNotifications := delete_where (\<lambda>r. qn_sentAt r < cutoff) (userQuotaNotifications d) \<rparr>)"

section \<open>Refund of an accepted email\<close>

text \<open>\<open>refundAcceptedEmail\<close>: the month the email was received in, best effort.\<close>

definition refund_accepted_email :: "bigint option \<Rightarrow> instant \<Rightarrow> unit io" where
  "refund_accepted_email userId receivedAt =
     (case userId of
        None \<Rightarrow> ret ()
      | Some u \<Rightarrow>
          (let month = usage_month_for_date receivedAt
           in catch (bind (decrement_user_usage_month u month 1 0 0) (\<lambda>_. ret ())) (\<lambda>_. ret ())))"

section \<open>Balances\<close>

definition delivered_count :: "db \<Rightarrow> bigint \<times> string \<Rightarrow> int" where
  "delivered_count d k = (case get_user_usage_month (fst k) (snd k) d of None \<Rightarrow> 0 | Some r \<Rightarrow> um_deliveredCount r)"

definition rejected_count :: "db \<Rightarrow> bigint \<times> string \<Rightarrow> int" where
  "rejected_count d k = (case get_user_usage_month (fst k) (snd k) d of None \<Rightarrow> 0 | Some r \<Rightarrow> um_rejectedCount r)"

definition egress_count :: "db \<Rightarrow> bigint \<times> string \<Rightarrow> int" where
  "egress_count d k = (case get_user_usage_month (fst k) (snd k) d of None \<Rightarrow> 0 | Some r \<Rightarrow> um_egressBytes r)"

definition raw_bytes :: "db \<Rightarrow> bigint \<Rightarrow> int" where
  "raw_bytes d u = (case get_user_storage_usage u d of None \<Rightarrow> 0 | Some r \<Rightarrow> su_rawEmailBytes r)"

definition attachment_bytes :: "db \<Rightarrow> bigint \<Rightarrow> int" where
  "attachment_bytes d u = (case get_user_storage_usage u d of None \<Rightarrow> 0 | Some r \<Rightarrow> su_attachmentBytes r)"

lemma is_usage_key: "is_usage u m = (\<lambda>r. (um_userId r, um_month r) = (u, m))"
  by (auto simp: is_usage_def)

lemma usage_lookup_update:
  assumes "\<And>r. um_userId (f r) = um_userId r" and "\<And>r. um_month (f r) = um_month r"
  shows "select_first (is_usage v n) (update_where (is_usage u m) f t) =
    (if v = u \<and> n = m then map_option f (select_first (is_usage u m) t) else select_first (is_usage v n) t)"
  unfolding is_usage_key using assms
  by (subst select_first_keyed [where \<kappa> = "\<lambda>r. (um_userId r, um_month r)"]) simp_all

lemma usage_after_upsert [row_simps]:
  "get_user_usage_month v n (snd (upsert_usage u m dc rc eb d)) =
     (if v = u \<and> n = m then Some (fst (upsert_usage u m dc rc eb d)) else get_user_usage_month v n d)"
  by (cases "get_user_usage_month u m d")
    (auto simp: upsert_usage_def get_user_usage_month_def usage_lookup_update add_usage_def Let_def
      select_first_append is_usage_def split: option.splits)

lemma usage_after_lower [row_simps]:
  "get_user_usage_month v n (snd (lower_usage u m dc rc eb d)) =
     (if v = u \<and> n = m then fst (lower_usage u m dc rc eb d) else get_user_usage_month v n d)"
  by (simp add: lower_usage_def get_user_usage_month_def usage_lookup_update sub_usage_def)

lemma storage_after_upsert [row_simps]:
  "get_user_storage_usage v (snd (upsert_storage u raw att d)) =
     (if v = u then Some (fst (upsert_storage u raw att d)) else get_user_storage_usage v d)"
  by (cases "get_user_storage_usage u d")
    (auto simp: upsert_storage_def get_user_storage_usage_def select_first_keyed add_storage_def Let_def
      select_first_append split: option.splits)

lemma storage_after_lower [row_simps]:
  "get_user_storage_usage v (snd (lower_storage u raw att d)) =
     (if v = u then fst (lower_storage u raw att d) else get_user_storage_usage v d)"
  by (simp add: lower_storage_def get_user_storage_usage_def select_first_keyed sub_storage_def)

lemma fst_upsert_usage:
  "fst (upsert_usage u m dc rc eb d) =
     add_usage dc rc eb (or_else (get_user_usage_month u m d)
       \<lparr> um_userId = u, um_month = m, um_deliveredCount = 0, um_rejectedCount = 0, um_egressBytes = 0 \<rparr>)"
  by (cases "get_user_usage_month u m d") (simp_all add: upsert_usage_def Let_def add_usage_def)

lemma fst_upsert_storage:
  "fst (upsert_storage u raw att d) =
     add_storage raw att (or_else (get_user_storage_usage u d)
       \<lparr> su_userId = u, su_rawEmailBytes = 0, su_attachmentBytes = 0 \<rparr>)"
  by (cases "get_user_storage_usage u d") (simp_all add: upsert_storage_def Let_def add_storage_def)

lemma fst_lower_usage: "fst (lower_usage u m dc rc eb d) = map_option (sub_usage dc rc eb) (get_user_usage_month u m d)"
  by (simp add: lower_usage_def)

lemma fst_lower_storage: "fst (lower_storage u raw att d) = map_option (sub_storage raw att) (get_user_storage_usage u d)"
  by (simp add: lower_storage_def)

lemmas balance_defs = delivered_count_def rejected_count_def egress_count_def raw_bytes_def attachment_bytes_def

interpretation delivered: ledger delivered_count
    "\<lambda>k n d. snd (upsert_usage (fst k) (snd k) n 0 0 d)" "\<lambda>k n d. snd (lower_usage (fst k) (snd k) n 0 0 d)"
  by unfold_locales
    (auto simp: balance_defs row_simps fst_upsert_usage fst_lower_usage add_usage_def sub_usage_def prod_eq_iff
      split: option.splits)

interpretation rejected: ledger rejected_count
    "\<lambda>k n d. snd (upsert_usage (fst k) (snd k) 0 n 0 d)" "\<lambda>k n d. snd (lower_usage (fst k) (snd k) 0 n 0 d)"
  by unfold_locales
    (auto simp: balance_defs row_simps fst_upsert_usage fst_lower_usage add_usage_def sub_usage_def prod_eq_iff
      split: option.splits)

interpretation egress: ledger egress_count
    "\<lambda>k n d. snd (upsert_usage (fst k) (snd k) 0 0 n d)" "\<lambda>k n d. snd (lower_usage (fst k) (snd k) 0 0 n d)"
  by unfold_locales
    (auto simp: balance_defs row_simps fst_upsert_usage fst_lower_usage add_usage_def sub_usage_def prod_eq_iff
      split: option.splits)

interpretation raw_storage: ledger raw_bytes
    "\<lambda>u n d. snd (upsert_storage u n 0 d)" "\<lambda>u n d. snd (lower_storage u n 0 d)"
  by unfold_locales
    (auto simp: balance_defs row_simps fst_upsert_storage fst_lower_storage add_storage_def sub_storage_def
      split: option.splits)

interpretation attachment_storage: ledger attachment_bytes
    "\<lambda>u n d. snd (upsert_storage u 0 n d)" "\<lambda>u n d. snd (lower_storage u 0 n d)"
  by unfold_locales
    (auto simp: balance_defs row_simps fst_upsert_storage fst_lower_storage add_storage_def sub_storage_def
      split: option.splits)

interpretation quota_claims: once_only quota_claimed "insert_quota_claim t" for t
  by unfold_locales (auto simp: insert_quota_claim_def quota_claimed_def split: prod.splits)

end
