(* ===== verification/DeliveryRepo.thy ===== *)
theory DeliveryRepo
  imports Tokens UsageRepo
begin

text \<open>
  Delivery logs, attempts, attachments and their links, view links, allow rules
  (\<open>src/db/repos/deliveryLogs.ts\<close>, \<open>deliveryAttempts.ts\<close>, \<open>attachments.ts\<close>,
  \<open>attachmentLinks.ts\<close>, \<open>deliveryViewLinks.ts\<close>, \<open>allowRules.ts\<close>).  The unique indexes of the
  tables are part of the insertions; the one-shot links interpret the \<open>once_only\<close> contract.
\<close>

section \<open>delivery_logs\<close>

definition non_final_delivery_statuses :: "delivery_status list" where
  "non_final_delivery_statuses = [Received, Processing, Retrying, Failed]"

text \<open>The unique indexes: the primary key, (alias, Message-ID) and, where body deduplication was
  applied, (alias, body hash).\<close>

definition msgid_key :: "log_row \<Rightarrow> (uuid \<times> string) option" where
  "msgid_key l = map_option (\<lambda>m. (dl_emailAddressId l, m)) (dl_messageIdHeader l)"

definition body_key :: "log_row \<Rightarrow> (uuid \<times> string) option" where
  "body_key l = (if dl_bodyDedupApplied l then map_option (\<lambda>h. (dl_emailAddressId l, h)) (dl_bodySha256 l) else None)"

definition same_key :: "('r \<Rightarrow> 'k option) \<Rightarrow> 'r \<Rightarrow> 'r \<Rightarrow> bool" where
  "same_key k r s \<longleftrightarrow> k r \<noteq> None \<and> k r = k s"

definition log_conflict :: "log_row \<Rightarrow> log_row \<Rightarrow> bool" where
  "log_conflict l r \<longleftrightarrow> dl_id r = dl_id l \<or> same_key msgid_key l r \<or> same_key body_key l r"

definition insert_delivery_log :: "instant \<Rightarrow> log_row \<Rightarrow> db \<Rightarrow> exn + (log_row \<times> db)" where
  "insert_delivery_log t data d =
     (if list_ex (log_conflict data) (deliveryLogs d) then Inl (QueryError ''23505'')
      else (let l = data\<lparr> dl_receivedAt := t \<rparr> in Inr (l, d\<lparr> deliveryLogs := deliveryLogs d @ [l] \<rparr>)))"

text \<open>\<open>createDeliveryLog\<close>: null when the thrown value itself carries the code 23505, otherwise the
  exception passes on.\<close>

definition create_delivery_log :: "log_row \<Rightarrow> log_row option io" where
  "create_delivery_log data =
     catch (bind (db_stmt (\<lambda>t d. insert_delivery_log t data d)) (\<lambda>l. ret (Some l)))
       (\<lambda>err. bind (ask error_code) (\<lambda>code.
          if code err = Some ''23505'' then ret None else throw err))"

definition find_delivery_log_by_id :: "uuid \<Rightarrow> db \<Rightarrow> log_row option" where
  "find_delivery_log_by_id i d = select_first (\<lambda>l. dl_id l = i) (deliveryLogs d)"

definition find_delivery_log_by_message_id :: "string \<Rightarrow> uuid \<Rightarrow> db \<Rightarrow> log_row option" where
  "find_delivery_log_by_message_id messageId aliasId d =
     select_first (\<lambda>l. dl_messageIdHeader l = Some messageId \<and> dl_emailAddressId l = aliasId) (deliveryLogs d)"

definition find_delivery_log_by_body_hash :: "string \<Rightarrow> uuid \<Rightarrow> db \<Rightarrow> log_row option" where
  "find_delivery_log_by_body_hash bodySha256 aliasId d =
     select_first (\<lambda>l. dl_bodySha256 l = Some bodySha256 \<and> dl_emailAddressId l = aliasId \<and> dl_bodyDedupApplied l)
       (deliveryLogs d)"

definition find_delivery_log_by_raw_email_path :: "string \<Rightarrow> db \<Rightarrow> log_row option" where
  "find_delivery_log_by_raw_email_path p d = select_first (\<lambda>l. dl_rawEmailPath l = Some p) (deliveryLogs d)"

definition set_log :: "uuid \<Rightarrow> (log_row \<Rightarrow> log_row) \<Rightarrow> db \<Rightarrow> db" where
  "set_log i f d = d\<lparr> deliveryLogs := update_where (\<lambda>l. dl_id l = i) f (deliveryLogs d) \<rparr>"

definition update_delivery_log_status :: "uuid \<Rightarrow> delivery_status \<Rightarrow> unit io" where
  "update_delivery_log_status i st = db_write (set_log i (\<lambda>l. l\<lparr> dl_finalStatus := st \<rparr>))"

definition mark_delivery_log_processing :: "uuid \<Rightarrow> unit io" where
  "mark_delivery_log_processing i =
     bind now (\<lambda>t. db_write (set_log i (\<lambda>l. l\<lparr> dl_finalStatus := Processing, dl_processingStartedAt := Some t \<rparr>)))"

definition needs_retry :: "instant \<Rightarrow> instant \<Rightarrow> log_row \<Rightarrow> bool" where
  "needs_retry receivedBefore processingStaleBefore l \<longleftrightarrow>
     dl_rawEmailPath l \<noteq> None \<and> dl_receivedAt l < receivedBefore \<and>
     (dl_finalStatus l \<in> {Failed, Received, Retrying} \<or>
      (dl_finalStatus l = Processing \<and>
       (case dl_processingStartedAt l of None \<Rightarrow> True | Some s \<Rightarrow> s < processingStaleBefore)))"

definition find_logs_needing_retry :: "instant \<Rightarrow> instant \<Rightarrow> db \<Rightarrow> log_row list" where
  "find_logs_needing_retry receivedBefore processingStaleBefore d =
     filter (needs_retry receivedBefore processingStaleBefore) (deliveryLogs d)"

definition default_claimable :: "delivery_status list" where
  "default_claimable = [Failed, Received, Processing, Retrying]"

definition claim_stmt :: "uuid \<Rightarrow> delivery_status list \<Rightarrow> db \<Rightarrow> bool \<times> db" where
  "claim_stmt i expectedStatuses d =
     (let hit = (\<lambda>l. dl_id l = i \<and> dl_finalStatus l \<in> set expectedStatuses)
      in (list_ex hit (deliveryLogs d),
          d\<lparr> deliveryLogs := update_where hit (\<lambda>l. l\<lparr> dl_finalStatus := Retrying \<rparr>) (deliveryLogs d) \<rparr>))"

definition claim_delivery_log_for_retry :: "uuid \<Rightarrow> delivery_status list \<Rightarrow> bool io" where
  "claim_delivery_log_for_retry i expectedStatuses = db_stmt (\<lambda>_ d. Inr (claim_stmt i expectedStatuses d))"

text \<open>The backlog: one grouped query, then a loop over its rows.\<close>

record backlog_summary =
  bs_counts :: "delivery_status \<Rightarrow> nat option"
  bs_oldest :: "instant option"

definition backlog_rows :: "db \<Rightarrow> (delivery_status \<times> nat \<times> instant) list" where
  "backlog_rows d =
     (let open_logs = filter (\<lambda>l. dl_finalStatus l \<in> set non_final_delivery_statuses) (deliveryLogs d)
      in map (\<lambda>s. let g = filter (\<lambda>l. dl_finalStatus l = s) open_logs
                  in (s, length g, Min (set (map dl_receivedAt g))))
           (remdups (map dl_finalStatus open_logs)))"

definition add_backlog_row :: "delivery_status \<times> nat \<times> instant \<Rightarrow> backlog_summary \<Rightarrow> backlog_summary" where
  "add_backlog_row row s = (case row of (st, n, oldest) \<Rightarrow>
     s\<lparr> bs_counts := (bs_counts s)(st \<mapsto> n),
        bs_oldest := (case bs_oldest s of None \<Rightarrow> Some oldest | Some o' \<Rightarrow> Some (if oldest < o' then oldest else o')) \<rparr>)"

definition summarize_delivery_backlog :: "db \<Rightarrow> backlog_summary" where
  "summarize_delivery_backlog d = fold add_backlog_row (backlog_rows d) \<lparr> bs_counts = Map.empty, bs_oldest = None \<rparr>"

definition count_recent_deliveries_by_alias :: "uuid \<Rightarrow> instant \<Rightarrow> db \<Rightarrow> nat" where
  "count_recent_deliveries_by_alias aliasId receivedSince d =
     count_where (\<lambda>l. dl_emailAddressId l = aliasId \<and> receivedSince \<le> dl_receivedAt l) (deliveryLogs d)"

definition count_delivery_logs_by_user_in_month ::
  "bigint \<Rightarrow> string \<Rightarrow> delivery_status list \<Rightarrow> db \<Rightarrow> month_error + nat" where
  "count_delivery_logs_by_user_in_month u month statuses d =
     (if statuses = [] then Inr 0
      else case month_start month of
          Inl x \<Rightarrow> Inl x
        | Inr start \<Rightarrow>
            (case next_month_start month of
               Inl x \<Rightarrow> Inl x
             | Inr end' \<Rightarrow>
                 Inr (count_where (\<lambda>l. dl_userId l = Some u \<and> start \<le> dl_receivedAt l \<and> dl_receivedAt l < end' \<and>
                        dl_finalStatus l \<in> set statuses) (deliveryLogs d))))"

section \<open>delivery_attempts\<close>

text \<open>\<open>INSERT ... ON CONFLICT (delivery_log_id, attempt_no) DO NOTHING\<close>\<close>

definition add_attempt :: "attempt_row \<Rightarrow> db \<Rightarrow> db" where
  "add_attempt a d =
     (if list_ex (\<lambda>r. da_deliveryLogId r = da_deliveryLogId a \<and> da_attemptNo r = da_attemptNo a) (deliveryAttempts d)
      then d else d\<lparr> deliveryAttempts := deliveryAttempts d @ [a] \<rparr>)"

definition insert_delivery_attempt :: "attempt_row \<Rightarrow> unit io" where
  "insert_delivery_attempt a = db_stmt (\<lambda>t d. Inr ((), add_attempt (a\<lparr> da_createdAt := t \<rparr>) d))"

definition count_attempts_by_log :: "uuid \<Rightarrow> db \<Rightarrow> nat" where
  "count_attempts_by_log logId d = count_where (\<lambda>a. da_deliveryLogId a = logId) (deliveryAttempts d)"

definition count_counted_failed_attempts_by_log :: "uuid \<Rightarrow> error_class list \<Rightarrow> db \<Rightarrow> nat" where
  "count_counted_failed_attempts_by_log logId uncountedClasses d =
     (let failedForLog = (\<lambda>a. da_deliveryLogId a = logId \<and> da_status a = AttemptFailed)
      in count_where
           (if uncountedClasses = [] then failedForLog
            else (\<lambda>a. failedForLog a \<and>
                   (case da_errorClass a of None \<Rightarrow> True | Some c \<Rightarrow> c \<notin> set uncountedClasses)))
           (deliveryAttempts d))"

section \<open>attachments and their links\<close>

definition count_attachment_storage :: "db \<Rightarrow> nat \<times> int" where
  "count_attachment_storage d =
     (length (attachments d), sum_list (map (\<lambda>a. or_else (at_sizeBytes a) 0) (attachments d)))"

definition create_attachment :: "attachment_row \<Rightarrow> attachment_row io" where
  "create_attachment a = db_stmt (\<lambda>t d.
     if list_ex (\<lambda>r. at_id r = at_id a) (attachments d) then Inl (QueryError ''23505'')
     else (let r = a\<lparr> at_createdAt := t \<rparr> in Inr (r, d\<lparr> attachments := attachments d @ [r] \<rparr>)))"

definition list_attachments_by_delivery_log_id :: "uuid \<Rightarrow> db \<Rightarrow> attachment_row list" where
  "list_attachments_by_delivery_log_id logId d = filter (\<lambda>a. at_deliveryLogId a = logId) (attachments d)"

record link_with_attachment =
  lw_link :: link_row
  lw_attachment :: attachment_row
  lw_userId :: "bigint option"

text \<open>Two inner joins on primary keys, filtered by the hash of the presented token.\<close>

definition find_attachment_link_by_hash :: "string \<Rightarrow> db \<Rightarrow> link_with_attachment option" where
  "find_attachment_link_by_hash tokenHash d =
     (case [ \<lparr> lw_link = ln, lw_attachment = att, lw_userId = dl_userId log \<rparr> .
               ln \<leftarrow> attachmentLinks d, ln_tokenHash ln = tokenHash,
               att \<leftarrow> attachments d, at_id att = ln_attachmentId ln,
               log \<leftarrow> deliveryLogs d, dl_id log = at_deliveryLogId att ] of
        [] \<Rightarrow> None | r # rs \<Rightarrow> Some r)"

definition find_attachment_link_by_token :: "string \<Rightarrow> link_with_attachment option io" where
  "find_attachment_link_by_token token =
     bind (ask (\<lambda>e. hash_stored_token e token)) (\<lambda>h. db_read (find_attachment_link_by_hash h))"

definition mark_link_stmt :: "instant \<Rightarrow> uuid \<Rightarrow> db \<Rightarrow> bool \<times> db" where
  "mark_link_stmt t linkId d =
     (let fresh = (\<lambda>l. ln_id l = linkId \<and> ln_downloadedAt l = None)
      in (list_ex fresh (attachmentLinks d),
          d\<lparr> attachmentLinks := update_where fresh (\<lambda>l. l\<lparr> ln_downloadedAt := Some t \<rparr>) (attachmentLinks d) \<rparr>))"

definition mark_link_downloaded :: "uuid \<Rightarrow> bool io" where
  "mark_link_downloaded linkId = bind now (\<lambda>t. db_stmt (\<lambda>_ d. Inr (mark_link_stmt t linkId d)))"

definition add_attachment_link :: "link_row \<Rightarrow> db \<Rightarrow> exn + (unit \<times> db)" where
  "add_attachment_link ln d =
     (if list_ex (\<lambda>l. ln_id l = ln_id ln \<or> ln_tokenHash l = ln_tokenHash ln) (attachmentLinks d) then Inl (QueryError ''23505'')
      else Inr ((), d\<lparr> attachmentLinks := attachmentLinks d @ [ln] \<rparr>))"

definition create_attachment_link :: "uuid \<Rightarrow> string \<Rightarrow> instant \<Rightarrow> unit io" where
  "create_attachment_link attachmentId token expiresAt =
     bind (ask (\<lambda>e. hash_stored_token e token)) (\<lambda>tokenHash.
     bind random_uuid (\<lambda>i.
     db_stmt (\<lambda>_. add_attachment_link
       \<lparr> ln_id = i, ln_attachmentId = attachmentId, ln_tokenHash = tokenHash, ln_expiresAt = expiresAt, ln_downloadedAt = None \<rparr>)))"

definition delete_expired_attachment_links :: "instant \<Rightarrow> db \<Rightarrow> nat \<times> db" where
  "delete_expired_attachment_links t d =
     (count_where (\<lambda>l. ln_expiresAt l < t) (attachmentLinks d),
      d\<lparr> attachmentLinks := delete_where (\<lambda>l. ln_expiresAt l < t) (attachmentLinks d) \<rparr>)"

section \<open>delivery_view_links\<close>

text \<open>One link per log: a second creation replaces the token of the first and makes it unseen again.\<close>

definition upsert_view_link :: "view_link_row \<Rightarrow> db \<Rightarrow> exn + (unit \<times> db)" where
  "upsert_view_link v d =
     (if list_ex (\<lambda>r. vl_tokenHash r = vl_tokenHash v \<and> vl_deliveryLogId r \<noteq> vl_deliveryLogId v) (deliveryViewLinks d)
      then Inl (QueryError ''23505'')
      else if list_ex (\<lambda>r. vl_deliveryLogId r = vl_deliveryLogId v) (deliveryViewLinks d)
      then Inr ((), d\<lparr> deliveryViewLinks := update_where (\<lambda>r. vl_deliveryLogId r = vl_deliveryLogId v)
              (\<lambda>r. r\<lparr> vl_tokenHash := vl_tokenHash v, vl_expiresAt := vl_expiresAt v, vl_viewedAt := None \<rparr>) (deliveryViewLinks d) \<rparr>)
      else Inr ((), d\<lparr> deliveryViewLinks := deliveryViewLinks d @ [v] \<rparr>))"

definition create_delivery_view_link :: "uuid \<Rightarrow> string \<Rightarrow> instant \<Rightarrow> unit io" where
  "create_delivery_view_link logId tokenHash expiresAt =
     bind random_uuid (\<lambda>i. db_stmt (\<lambda>_. upsert_view_link
       \<lparr> vl_id = i, vl_deliveryLogId = logId, vl_tokenHash = tokenHash, vl_expiresAt = expiresAt, vl_viewedAt = None \<rparr>))"

definition find_delivery_view_link_by_token_hash :: "string \<Rightarrow> db \<Rightarrow> (view_link_row \<times> log_row) option" where
  "find_delivery_view_link_by_token_hash tokenHash d =
     (case [ (v, l) . v \<leftarrow> deliveryViewLinks d, vl_tokenHash v = tokenHash,
                      l \<leftarrow> deliveryLogs d, dl_id l = vl_deliveryLogId v ] of
        [] \<Rightarrow> None | r # rs \<Rightarrow> Some r)"

definition delete_expired_delivery_view_links :: "instant \<Rightarrow> db \<Rightarrow> nat \<times> db" where
  "delete_expired_delivery_view_links t d =
     (count_where (\<lambda>v. vl_expiresAt v < t) (deliveryViewLinks d),
      d\<lparr> deliveryViewLinks := delete_where (\<lambda>v. vl_expiresAt v < t) (deliveryViewLinks d) \<rparr>)"

definition unseen_view_link :: "instant \<Rightarrow> uuid \<Rightarrow> view_link_row \<Rightarrow> bool" where
  "unseen_view_link t i v \<longleftrightarrow> vl_id v = i \<and> vl_viewedAt v = None \<and> t < vl_expiresAt v"

definition mark_view_stmt :: "instant \<Rightarrow> instant \<Rightarrow> uuid \<Rightarrow> db \<Rightarrow> bool \<times> db" where
  "mark_view_stmt s t i d =
     (list_ex (unseen_view_link t i) (deliveryViewLinks d),
      d\<lparr> deliveryViewLinks := update_where (unseen_view_link t i) (\<lambda>v. v\<lparr> vl_viewedAt := Some s \<rparr>) (deliveryViewLinks d) \<rparr>)"

definition mark_delivery_view_link_viewed :: "uuid \<Rightarrow> instant \<Rightarrow> bool io" where
  "mark_delivery_view_link_viewed i t = bind now (\<lambda>s. db_stmt (\<lambda>_ d. Inr (mark_view_stmt s t i d)))"

text \<open>\<open>createPrivacyViewUrl\<close> of \<open>src/email/privacy.ts\<close>\<close>

definition create_privacy_view_url :: "uuid \<Rightarrow> string \<Rightarrow> instant \<Rightarrow> string io" where
  "create_privacy_view_url logId publicBaseUrl expiresAt =
     bind (generate_delivery_view_token_for_expiry logId expiresAt) (\<lambda>(token, _).
     bind (ask (\<lambda>e. hash_stored_token e token)) (\<lambda>h.
     bind (create_delivery_view_link logId h expiresAt) (\<lambda>_.
     ret (publicBaseUrl @ ''/view/'' @ token))))"

section \<open>allow_rules\<close>

definition add_allow_rule :: "uuid \<Rightarrow> string \<Rightarrow> string \<Rightarrow> allow_rule_row io" where
  "add_allow_rule aliasId matchType matchValue =
     bind random_uuid (\<lambda>i.
       let r = \<lparr> ar_id = i, ar_emailAddressId = aliasId, ar_matchType = matchType, ar_matchValue = matchValue \<rparr>
       in db_stmt (\<lambda>_ d. Inr (r, d\<lparr> allowRules := allowRules d @ [r] \<rparr>)))"

definition find_allow_rule_by_match :: "uuid \<Rightarrow> string \<Rightarrow> string \<Rightarrow> db \<Rightarrow> allow_rule_row option" where
  "find_allow_rule_by_match aliasId matchType matchValue d =
     select_first (\<lambda>r. ar_emailAddressId r = aliasId \<and> ar_matchType r = matchType \<and> ar_matchValue r = matchValue) (allowRules d)"

definition remove_allow_rule :: "uuid \<Rightarrow> string \<Rightarrow> unit io" where
  "remove_allow_rule aliasId matchValue =
     db_write (\<lambda>d. d\<lparr> allowRules := delete_where (\<lambda>r. ar_emailAddressId r = aliasId \<and> ar_matchValue r = matchValue) (allowRules d) \<rparr>)"

definition find_allow_rule_by_id :: "uuid \<Rightarrow> db \<Rightarrow> allow_rule_row option" where
  "find_allow_rule_by_id i d = select_first (\<lambda>r. ar_id r = i) (allowRules d)"

definition list_allow_rules :: "uuid \<Rightarrow> db \<Rightarrow> allow_rule_row list" where
  "list_allow_rules aliasId d = filter (\<lambda>r. ar_emailAddressId r = aliasId) (allowRules d)"

definition count_allow_rules_by_user :: "bigint \<Rightarrow> db \<Rightarrow> nat" where
  "count_allow_rules_by_user u d =
     length [ r . r \<leftarrow> allowRules d, a \<leftarrow> aliases d,
              al_id a = ar_emailAddressId r \<and> al_createdBy a = u \<and> al_status a \<noteq> Deleted ]"

definition check_preflight_allow_rules :: "uuid \<Rightarrow> db \<Rightarrow> bool" where
  "check_preflight_allow_rules aliasId d = (length (list_allow_rules aliasId d) > 0)"

section \<open>The unique indexes hold\<close>

definition logs_unique :: "db \<Rightarrow> bool" where
  "logs_unique d \<longleftrightarrow> distinct (map dl_id (deliveryLogs d)) \<and>
     unique_key msgid_key (deliveryLogs d) \<and> unique_key body_key (deliveryLogs d)"

lemma key_received [simp]:
  "msgid_key (l\<lparr>dl_receivedAt := t\<rparr>) = msgid_key l" "body_key (l\<lparr>dl_receivedAt := t\<rparr>) = body_key l"
  "msgid_key (l\<lparr>dl_finalStatus := s\<rparr>) = msgid_key l" "body_key (l\<lparr>dl_finalStatus := s\<rparr>) = body_key l"
  "msgid_key (l\<lparr>dl_processingStartedAt := p\<rparr>) = msgid_key l" "body_key (l\<lparr>dl_processingStartedAt := p\<rparr>) = body_key l"
  by (simp_all add: msgid_key_def body_key_def)

lemma logs_unique_insert:
  "logs_unique d \<Longrightarrow> insert_delivery_log t l d = Inr (r, d') \<Longrightarrow> logs_unique d'"
  by (auto simp: logs_unique_def insert_delivery_log_def unique_key_append list_ex_iff log_conflict_def same_key_def Let_def
      split: if_splits option.splits) metis+

lemma logs_unique_set:
  assumes "\<And>l. dl_id (f l) = dl_id l" "\<And>l. msgid_key (f l) = msgid_key l" "\<And>l. body_key (f l) = body_key l"
  shows "logs_unique (d\<lparr>deliveryLogs := update_where p f (deliveryLogs d)\<rparr>) = logs_unique d"
  using assms by (simp add: logs_unique_def map_update_where unique_key_update)

lemma keeps_create_delivery_log [keeps_rules]: "keeps logs_unique (create_delivery_log l)"
  unfolding create_delivery_log_def
  by (intro keeps_rules keeps_db_stmt) (auto intro: logs_unique_insert)

lemma keeps_log_writes [keeps_rules]:
  "keeps logs_unique (update_delivery_log_status i st)"
  "keeps logs_unique (mark_delivery_log_processing i)"
  "keeps logs_unique (claim_delivery_log_for_retry i sts)"
  unfolding update_delivery_log_status_def mark_delivery_log_processing_def claim_delivery_log_for_retry_def
    set_log_def claim_stmt_def Let_def
  by (auto intro!: keeps_rules keeps_db_write keeps_db_stmt simp: logs_unique_set)


text \<open>What an insertion that hits a unique index makes of the race it exists for: with a driver error
  whose own \<open>code\<close> is 23505 the function returns null, as its comment says; with an error that keeps
  the code on its cause (the query error of the pinned driver) it throws.  The database is unchanged
  either way.\<close>

theorem duplicate_insert_outcome:
  assumes "w_tx w = NoTx" and "db_fault e (w_tick w) = Fine" and "list_ex (log_conflict l) (deliveryLogs (w_db w))"
  shows "fst (create_delivery_log l e w) =
      (if error_code e (QueryError ''23505'') = Some ''23505'' then Inr None else Inl (QueryError ''23505'')) \<and>
    w_db (snd (create_delivery_log l e w)) = w_db w"
  using assms
  by (simp add: create_delivery_log_def catch_def bind_def db_stmt_def insert_delivery_log_def ask_def throw_def ret_def)

definition sample_log :: log_row where
  "sample_log = \<lparr> dl_id = ''l1'', dl_emailAddressId = ''a1'', dl_userId = Some 7, dl_messageIdHeader = Some ''<m1@x>'',
     dl_bodySha256 = Some ''h'', dl_bodyDedupApplied = False,
     dl_metadata = \<lparr> md_envelopeFrom = None, md_headerFrom = None, md_subject = None, md_ciphertext = None, md_encryption = no_encryption \<rparr>,
     dl_receivedAt = 0, dl_processingStartedAt = None, dl_rawSizeBytes = 10, dl_rawEmailPath = Some ''/raw/l1'',
     dl_rawEmailEncryption = no_encryption, dl_hasAttachments = False, dl_finalStatus = Received \<rparr>"

lemma duplicate_insert_outcome_witness:
  "fst (create_delivery_log (sample_log\<lparr>dl_id := ''l2''\<rparr>) calm_env (start_world (empty_db\<lparr>deliveryLogs := [sample_log]\<rparr>))) =
      (if error_code calm_env (QueryError ''23505'') = Some ''23505'' then Inr None else Inl (QueryError ''23505'')) \<and>
   w_db (snd (create_delivery_log (sample_log\<lparr>dl_id := ''l2''\<rparr>) calm_env (start_world (empty_db\<lparr>deliveryLogs := [sample_log]\<rparr>)))) =
      empty_db\<lparr>deliveryLogs := [sample_log]\<rparr>"
  using duplicate_insert_outcome [of "start_world (empty_db\<lparr>deliveryLogs := [sample_log]\<rparr>)" calm_env "sample_log\<lparr>dl_id := ''l2''\<rparr>"]
  by (simp add: calm_env_def sample_log_def log_conflict_def same_key_def msgid_key_def)

section \<open>One-shot links\<close>

definition link_spent :: "db \<Rightarrow> uuid \<Rightarrow> bool" where
  "link_spent d i \<longleftrightarrow> \<not> list_ex (\<lambda>l. ln_id l = i \<and> ln_downloadedAt l = None) (attachmentLinks d)"

definition view_spent :: "instant \<Rightarrow> db \<Rightarrow> uuid \<Rightarrow> bool" where
  "view_spent t d i \<longleftrightarrow> \<not> list_ex (unseen_view_link t i) (deliveryViewLinks d)"

lemma list_ex_update_where:
  "list_ex p (update_where q f t) \<longleftrightarrow> list_ex (\<lambda>r. p (if q r then f r else r)) t"
  by (induction t) auto

interpretation downloads: once_only link_spent "mark_link_stmt t" for t
  by unfold_locales
    (auto simp: mark_link_stmt_def link_spent_def set_update_where list_ex_iff Let_def split: if_splits)

interpretation views: once_only "view_spent t" "mark_view_stmt s t" for s t
  by unfold_locales
    (auto simp: mark_view_stmt_def view_spent_def unseen_view_link_def set_update_where list_ex_iff split: if_splits)

text \<open>An attachment link is good for one download: of any sequence of attempts to mark links as
  downloaded, the attempts on one link succeed exactly once if the link existed and was unused, and
  never otherwise.\<close>

theorem link_downloaded_once:
  "count_list (run_claims (mark_link_stmt t) requests d) i =
     (if i \<in> set requests \<and> list_ex (\<lambda>l. ln_id l = i \<and> ln_downloadedAt l = None) (attachmentLinks d) then 1 else 0)"
  using downloads.won_once [of t requests d i] by (simp add: link_spent_def)

section \<open>Attempts\<close>

lemma add_attempt_idem [simp]: "add_attempt a (add_attempt a d) = add_attempt a d"
  by (auto simp: add_attempt_def list_ex_iff)

definition attempt_recorded :: "attempt_row \<Rightarrow> db \<Rightarrow> bool" where
  "attempt_recorded a d \<longleftrightarrow>
     list_ex (\<lambda>r. da_deliveryLogId r = da_deliveryLogId a \<and> da_attemptNo r = da_attemptNo a) (deliveryAttempts d)"

lemma count_attempts_add:
  "count_attempts_by_log i (add_attempt a d) =
     count_attempts_by_log i d + (if da_deliveryLogId a = i \<and> \<not> attempt_recorded a d then 1 else 0)"
  by (auto simp: add_attempt_def attempt_recorded_def count_attempts_by_log_def count_where_append)

lemma counted_failures_add:
  "count_counted_failed_attempts_by_log i cs (add_attempt a d) =
     count_counted_failed_attempts_by_log i cs d +
     (if da_deliveryLogId a = i \<and> da_status a = AttemptFailed \<and> \<not> attempt_recorded a d \<and>
         (case da_errorClass a of None \<Rightarrow> True | Some c \<Rightarrow> c \<notin> set cs) then 1 else 0)"
  by (auto simp: add_attempt_def attempt_recorded_def count_counted_failed_attempts_by_log_def count_where_append Let_def
      split: option.splits)

section \<open>The backlog\<close>

lemma fold_backlog:
  assumes "distinct (map fst rows)"
  shows "bs_counts (fold add_backlog_row rows s) st =
      (case map_of rows st of None \<Rightarrow> bs_counts s st | Some (n, x) \<Rightarrow> Some n) \<and>
    bs_oldest (fold add_backlog_row rows s) =
      (if rows = [] then bs_oldest s
       else Some (Min (set (map (snd \<circ> snd) rows) \<union> set_option (bs_oldest s))))"
  using assms
proof (induction rows arbitrary: s)
  case (Cons r rows)
  obtain u n x where r: "r = (u, n, x)" by (cases r) auto
  let ?s = "add_backlog_row r s"
  have c: "bs_counts ?s = (bs_counts s)(u \<mapsto> n)" by (simp add: add_backlog_row_def r)
  have o: "bs_oldest ?s = Some (Min ({x} \<union> set_option (bs_oldest s)))"
    by (cases "bs_oldest s") (auto simp: add_backlog_row_def r min_def)
  have IH: "bs_counts (fold add_backlog_row rows ?s) st =
      (case map_of rows st of None \<Rightarrow> bs_counts ?s st | Some (n, x) \<Rightarrow> Some n)"
    "bs_oldest (fold add_backlog_row rows ?s) =
      (if rows = [] then bs_oldest ?s else Some (Min (set (map (snd \<circ> snd) rows) \<union> set_option (bs_oldest ?s))))"
    using Cons.IH [of ?s] Cons.prems by simp_all
  have "map_of rows u = None" using Cons.prems r by (auto simp: map_of_eq_None_iff)
  moreover have "Min (A \<union> {Min ({x} \<union> set_option v)}) = Min (insert x (A \<union> set_option v))"
    if "finite A" "A \<noteq> {}" for A :: "int set" and v
    using that by (cases v) (simp_all add: Min_insert2 min.assoc min.commute min.left_commute Min_Un)
  ultimately show ?case
    using IH c o r by (auto split: option.splits)
qed simp

lemma backlog_rows_distinct: "distinct (map fst (backlog_rows d))"
  by (simp add: backlog_rows_def Let_def comp_def)

lemma backlog_rows_lookup:
  "map_of (backlog_rows d) st =
     (let g = filter (\<lambda>l. dl_finalStatus l = st \<and> st \<in> set non_final_delivery_statuses) (deliveryLogs d)
      in if g = [] then None else Some (length g, Min (set (map dl_receivedAt g))))"
proof -
  let ?o = "filter (\<lambda>l. dl_finalStatus l \<in> set non_final_delivery_statuses) (deliveryLogs d)"
  let ?v = "\<lambda>s. let g = filter (\<lambda>l. dl_finalStatus l = s) ?o in (length g, Min (set (map dl_receivedAt g)))"
  have "backlog_rows d = map (\<lambda>s. (s, ?v s)) (remdups (map dl_finalStatus ?o))"
    by (simp add: backlog_rows_def Let_def)
  then have "map_of (backlog_rows d) st = (if st \<in> dl_finalStatus ` set ?o then Some (?v st) else None)"
    by (simp add: map_of_map_keys map_of_map_restrict restrict_map_def)
  moreover have "filter (\<lambda>l. dl_finalStatus l = st) ?o =
      filter (\<lambda>l. dl_finalStatus l = st \<and> st \<in> set non_final_delivery_statuses) (deliveryLogs d)"
    by (auto intro: filter_cong)
  moreover have "st \<in> dl_finalStatus ` set ?o \<longleftrightarrow>
      filter (\<lambda>l. dl_finalStatus l = st \<and> st \<in> set non_final_delivery_statuses) (deliveryLogs d) \<noteq> []"
    by (auto simp: filter_empty_conv)
  ultimately show ?thesis by (simp add: Let_def)
qed

lemma backlog_oldest_rows:
  fixes d
  defines "op \<equiv> {l \<in> set (deliveryLogs d). dl_finalStatus l \<in> set non_final_delivery_statuses}"
  shows "set (map (snd \<circ> snd) (backlog_rows d)) =
     (\<lambda>s. Min (dl_receivedAt ` {l \<in> op. dl_finalStatus l = s})) ` (dl_finalStatus ` op)"
proof -
  let ?o = "filter (\<lambda>l. dl_finalStatus l \<in> set non_final_delivery_statuses) (deliveryLogs d)"
  have "op = set ?o" by (auto simp: op_def)
  moreover have "set (map (snd \<circ> snd) (backlog_rows d)) =
      (\<lambda>s. Min (set (map dl_receivedAt (filter (\<lambda>l. dl_finalStatus l = s) ?o)))) ` set (remdups (map dl_finalStatus ?o))"
    by (simp only: backlog_rows_def Let_def map_map set_map comp_def snd_conv)
  ultimately show ?thesis by (simp only: set_map set_remdups set_filter)
qed

lemma Min_of_groups:
  fixes f :: "'a \<Rightarrow> int"
  assumes "finite A" "A \<noteq> {}"
  shows "Min ((\<lambda>s. Min (f ` {x \<in> A. g x = s})) ` (g ` A)) = Min (f ` A)"
proof (rule antisym)
  have ne: "finite (f ` {x \<in> A. g x = g y})" "f y \<in> f ` {x \<in> A. g x = g y}" if "y \<in> A" for y using assms that by auto
  have fin: "finite ((\<lambda>s. Min (f ` {x \<in> A. g x = s})) ` (g ` A))" using assms by simp
  show "Min ((\<lambda>s. Min (f ` {x \<in> A. g x = s})) ` (g ` A)) \<le> Min (f ` A)"
  proof (rule Min.boundedI)
    fix b assume "b \<in> f ` A"
    then obtain y where y: "y \<in> A" "b = f y" by auto
    have "Min ((\<lambda>s. Min (f ` {x \<in> A. g x = s})) ` (g ` A)) \<le> Min (f ` {x \<in> A. g x = g y})"
      using fin y(1) by (intro Min_le) auto
    also have "\<dots> \<le> f y" using ne [OF y(1)] by (rule Min_le)
    finally show "Min ((\<lambda>s. Min (f ` {x \<in> A. g x = s})) ` (g ` A)) \<le> b" using y by simp
  qed (use assms in auto)
  show "Min (f ` A) \<le> Min ((\<lambda>s. Min (f ` {x \<in> A. g x = s})) ` (g ` A))"
  proof (rule Min.boundedI [OF fin])
    fix b assume "b \<in> (\<lambda>s. Min (f ` {x \<in> A. g x = s})) ` (g ` A)"
    then obtain y where y: "y \<in> A" "b = Min (f ` {x \<in> A. g x = g y})" by auto
    show "Min (f ` A) \<le> b" unfolding y(2)
      by (rule Min_antimono) (use assms y ne in auto)
  qed (use assms in auto)
qed

text \<open>The backlog summary counts exactly the logs in each non-final status, has no entry for a status
  without logs nor for a final one, and its \<open>oldestReceivedAt\<close> is the least \<open>received_at\<close> of all
  non-final logs, null when there is none.\<close>

theorem backlog_summary_exact:
  "bs_counts (summarize_delivery_backlog d) st =
     (let n = count_where (\<lambda>l. dl_finalStatus l = st) (deliveryLogs d)
      in if st \<in> set non_final_delivery_statuses \<and> n \<noteq> 0 then Some n else None) \<and>
   bs_oldest (summarize_delivery_backlog d) =
     (let open_logs = filter (\<lambda>l. dl_finalStatus l \<in> set non_final_delivery_statuses) (deliveryLogs d)
      in if open_logs = [] then None else Some (Min (dl_receivedAt ` set open_logs)))"
proof -
  note F = fold_backlog [OF backlog_rows_distinct [of d], of "\<lparr> bs_counts = Map.empty, bs_oldest = None \<rparr>" st]
  let ?o = "{l \<in> set (deliveryLogs d). dl_finalStatus l \<in> set non_final_delivery_statuses}"
  have c: "bs_counts (summarize_delivery_backlog d) st =
     (let n = count_where (\<lambda>l. dl_finalStatus l = st) (deliveryLogs d)
      in if st \<in> set non_final_delivery_statuses \<and> n \<noteq> 0 then Some n else None)"
    using F by (cases "st \<in> set non_final_delivery_statuses")
      (auto simp: summarize_delivery_backlog_def backlog_rows_lookup Let_def count_where_def split: if_splits)
  have nil: "backlog_rows d = [] \<longleftrightarrow> ?o = {}"
    by (auto simp: backlog_rows_def Let_def filter_empty_conv)
  have m: "?o \<noteq> {} \<Longrightarrow> Min (set (map (snd \<circ> snd) (backlog_rows d))) = Min (dl_receivedAt ` ?o)"
  proof -
    assume ne: "?o \<noteq> {}"
    show "Min (set (map (snd \<circ> snd) (backlog_rows d))) = Min (dl_receivedAt ` ?o)"
      unfolding backlog_oldest_rows using Min_of_groups [of ?o dl_receivedAt dl_finalStatus] ne by simp
  qed
  have "bs_oldest (summarize_delivery_backlog d) = (if ?o = {} then None else Some (Min (dl_receivedAt ` ?o)))"
    using F m nil by (simp add: summarize_delivery_backlog_def)
  with c show ?thesis by (simp add: Let_def filter_empty_conv)
qed

section \<open>Monthly counts\<close>

text \<open>The delivery counts of a month cover the same emails as the billing counters of that month: a
  log falls into the queried interval exactly when \<open>usageMonthForDate\<close> of its receipt is that
  month.\<close>

theorem month_count_matches_billing_month:
  assumes "month_start month = Inr start" and "next_month_start month = Inr end'" and "100 \<le> utc_year start"
  shows "count_delivery_logs_by_user_in_month u month statuses d =
     Inr (count_where (\<lambda>l. dl_userId l = Some u \<and> usage_month_for_date (dl_receivedAt l) = month \<and>
            dl_finalStatus l \<in> set statuses) (deliveryLogs d))"
  using months_tile [OF assms]
  by (cases "statuses = []") (simp_all add: count_delivery_logs_by_user_in_month_def assms(1,2) count_where_def conj_assoc)

lemma month_count_matches_billing_month_witness:
  "count_delivery_logs_by_user_in_month 7 ''2024-02'' [Delivered] (empty_db\<lparr>deliveryLogs := [sample_log]\<rparr>) =
     Inr (count_where (\<lambda>l. dl_userId l = Some 7 \<and> usage_month_for_date (dl_receivedAt l) = ''2024-02'' \<and>
            dl_finalStatus l \<in> set [Delivered]) (deliveryLogs (empty_db\<lparr>deliveryLogs := [sample_log]\<rparr>)))"
proof (rule month_count_matches_billing_month)
  show "month_start ''2024-02'' = Inr 1706745600000" by code_simp
  show "next_month_start ''2024-02'' = Inr 1709251200000" by code_simp
  show "100 \<le> utc_year 1706745600000" by code_simp
qed

end
