(* ===== verification/AliasRepo.thy ===== *)
theory AliasRepo
  imports Effects Interfaces
begin

text \<open>
  Aliases, their routing and the chats and domains they point at
  (\<open>src/db/repos/aliases.ts\<close>, \<open>aliasRouting.ts\<close>, \<open>chats.ts\<close>, \<open>inboundDomains.ts\<close>).
  Every routing mutation is a compare-and-swap on \<open>routing_version\<close>; the lemmas at the end
  interpret the \<open>versioned\<close> contract on them.
\<close>

section \<open>Queries on aliases\<close>

definition find_alias_by_id :: "uuid \<Rightarrow> db \<Rightarrow> alias_row option" where
  "find_alias_by_id i d = select_first (\<lambda>a. al_id a = i) (aliases d)"

definition list_alias_owners_by_chat :: "bigint \<Rightarrow> db \<Rightarrow> bigint list" where
  "list_alias_owners_by_chat c d = remdups (map al_createdBy (filter (\<lambda>a. al_chatId a = c) (aliases d)))"

definition find_aliases_by_creator :: "bigint \<Rightarrow> db \<Rightarrow> alias_row list" where
  "find_aliases_by_creator u d = filter (\<lambda>a. al_createdBy a = u \<and> al_status a \<noteq> Deleted) (aliases d)"

definition find_alias_by_local_part :: "string \<Rightarrow> db \<Rightarrow> alias_row option" where
  "find_alias_by_local_part lp d = select_first (\<lambda>a. al_localPart a = lp \<and> al_domainId a = None) (aliases d)"

definition find_alias_by_full_address :: "string \<Rightarrow> db \<Rightarrow> alias_row option" where
  "find_alias_by_full_address fa d =
     select_first (\<lambda>a. al_fullAddress a = js_lower fa \<and> al_status a \<noteq> Deleted) (aliases d)"

definition find_alias_by_local_part_and_domain_id :: "string \<Rightarrow> uuid \<Rightarrow> db \<Rightarrow> alias_row option" where
  "find_alias_by_local_part_and_domain_id lp dn d =
     select_first (\<lambda>a. al_localPart a = lp \<and> al_domainId a = Some dn) (aliases d)"

definition list_aliases_by_chat :: "bigint \<Rightarrow> db \<Rightarrow> alias_row list" where
  "list_aliases_by_chat c d = filter (\<lambda>a. al_chatId a = c \<and> al_status a \<noteq> Deleted) (aliases d)"

definition count_active_aliases_by_user :: "bigint \<Rightarrow> db \<Rightarrow> nat" where
  "count_active_aliases_by_user u d = count_where (\<lambda>a. al_createdBy a = u \<and> al_status a \<noteq> Deleted) (aliases d)"

definition count_users_with_alias :: "db \<Rightarrow> nat" where
  "count_users_with_alias d = length (remdups (map al_createdBy (filter (\<lambda>a. al_status a \<noteq> Deleted) (aliases d))))"

definition count_aliases_by_status :: "db \<Rightarrow> (alias_status \<times> nat) list" where
  "count_aliases_by_status d =
     map (\<lambda>s. (s, count_where (\<lambda>a. al_status a = s) (aliases d))) (remdups (map al_status (aliases d)))"

section \<open>Creation and plain updates\<close>

record new_alias =
  na_localPart :: string
  na_fullAddress :: string
  na_domainId :: "uuid option"
  na_chatId :: bigint
  na_messageThreadId :: "bigint option"
  na_createdBy :: bigint
  na_renderMode :: string
  na_privacyModeEnabled :: bool
  na_bodyDedupEnabled :: bool
  na_status :: alias_status

text \<open>The three unique indexes of \<open>email_addresses\<close>.\<close>

definition alias_conflict :: "new_alias \<Rightarrow> alias_row \<Rightarrow> bool" where
  "alias_conflict n a \<longleftrightarrow>
     (al_localPart a = na_localPart n \<and> al_domainId a = na_domainId n) \<or>
     js_lower (al_fullAddress a) = js_lower (na_fullAddress n)"

definition create_alias_stmt :: "uuid \<Rightarrow> instant \<Rightarrow> new_alias \<Rightarrow> db \<Rightarrow> exn + (alias_row \<times> db)" where
  "create_alias_stmt i t n d =
     (if list_ex (alias_conflict n) (aliases d) then Inl (QueryError ''23505'')
      else let a = \<lparr> al_id = i, al_localPart = na_localPart n, al_fullAddress = na_fullAddress n,
                al_domainId = na_domainId n, al_chatId = na_chatId n, al_messageThreadId = na_messageThreadId n,
                al_createdBy = na_createdBy n, al_label = None, al_renderMode = na_renderMode n,
                al_privacyModeEnabled = na_privacyModeEnabled n, al_bodyDedupEnabled = na_bodyDedupEnabled n,
                al_status = na_status n, al_routingVersion = 0, al_createdAt = t, al_updatedAt = t \<rparr>
           in Inr (a, d\<lparr> aliases := aliases d @ [a] \<rparr>))"

definition create_alias :: "new_alias \<Rightarrow> alias_row io" where
  "create_alias n = bind random_uuid (\<lambda>i. db_stmt (\<lambda>t d. create_alias_stmt i t n d))"

definition set_alias :: "uuid \<Rightarrow> (alias_row \<Rightarrow> alias_row) \<Rightarrow> db \<Rightarrow> db" where
  "set_alias i f d = d\<lparr> aliases := update_where (\<lambda>a. al_id a = i) f (aliases d) \<rparr>"

definition update_alias_status :: "uuid \<Rightarrow> alias_status \<Rightarrow> unit io" where
  "update_alias_status i st =
     bind now (\<lambda>t. db_write (set_alias i (\<lambda>a. a\<lparr> al_status := st, al_updatedAt := t \<rparr>)))"

definition update_alias_render_mode :: "uuid \<Rightarrow> string \<Rightarrow> unit io" where
  "update_alias_render_mode i m =
     bind now (\<lambda>t. db_write (set_alias i (\<lambda>a. a\<lparr> al_renderMode := m, al_updatedAt := t \<rparr>)))"

definition update_alias_body_dedup :: "uuid \<Rightarrow> bool \<Rightarrow> unit io" where
  "update_alias_body_dedup i b =
     bind now (\<lambda>t. db_write (set_alias i (\<lambda>a. a\<lparr> al_bodyDedupEnabled := b, al_updatedAt := t \<rparr>)))"

definition update_alias_privacy_mode :: "uuid \<Rightarrow> bool \<Rightarrow> unit io" where
  "update_alias_privacy_mode i b =
     bind now (\<lambda>t. db_write (set_alias i (\<lambda>a. a\<lparr> al_privacyModeEnabled := b, al_updatedAt := t \<rparr>)))"

definition update_alias_label :: "uuid \<Rightarrow> string option \<Rightarrow> unit io" where
  "update_alias_label i l =
     bind now (\<lambda>t. db_write (set_alias i (\<lambda>a. a\<lparr> al_label := l, al_updatedAt := t \<rparr>)))"

text \<open>Re-pointing a migrated chat: the rows hit, with what \<open>RETURNING\<close> reports of them.\<close>

record repointed_alias =
  ra_id :: uuid
  ra_createdBy :: bigint
  ra_messageThreadId :: "bigint option"

definition repoint_row :: "bigint \<Rightarrow> instant \<Rightarrow> alias_row \<Rightarrow> alias_row" where
  "repoint_row c t a = a\<lparr> al_chatId := c, al_routingVersion := al_routingVersion a + 1, al_updatedAt := t \<rparr>"

definition repoint_aliases_to_chat :: "bigint \<Rightarrow> bigint \<Rightarrow> instant \<Rightarrow> db \<Rightarrow> repointed_alias list \<times> db" where
  "repoint_aliases_to_chat oldC newC t d =
     (map (\<lambda>a. \<lparr> ra_id = al_id a, ra_createdBy = al_createdBy a, ra_messageThreadId = al_messageThreadId a \<rparr>)
        (filter (\<lambda>a. al_chatId a = oldC) (aliases d)),
      d\<lparr> aliases := update_where (\<lambda>a. al_chatId a = oldC) (repoint_row newC t) (aliases d) \<rparr>)"

section \<open>Tombstones\<close>

definition alias_tombstone_marker :: string where
  "alias_tombstone_marker = ''~del~''"

text \<open>PostgreSQL's \<open>split_part(s, '@', 2)\<close>.\<close>

definition split_part_2 :: "string \<Rightarrow> string" where
  "split_part_2 s = or_else (js_nth (js_split (CHR ''@'') s) 1) []"

definition tombstone_row :: "string \<Rightarrow> instant \<Rightarrow> alias_row \<Rightarrow> alias_row" where
  "tombstone_row suffix t a =
     (let tag = alias_tombstone_marker @ suffix
      in a\<lparr> al_localPart := al_localPart a @ tag,
            al_fullAddress := al_localPart a @ tag @ ''@'' @ split_part_2 (al_fullAddress a),
            al_status := Deleted, al_updatedAt := t \<rparr>)"

text \<open>Rows go with the row they belong to (\<open>ON DELETE CASCADE\<close> in \<open>drizzle/*.sql\<close>): with a delivery log its attempts, its
  view link and its attachments with their links; with an alias its allow rules, its activation row and its logs.\<close>

definition drop_logs :: "(log_row \<Rightarrow> bool) \<Rightarrow> db \<Rightarrow> db" where
  "drop_logs gone d =
     (let log_gone = (\<lambda>i. list_ex (\<lambda>l. gone l \<and> dl_id l = i) (deliveryLogs d));
          att_gone = (\<lambda>i. list_ex (\<lambda>a. log_gone (at_deliveryLogId a) \<and> at_id a = i) (attachments d))
      in d\<lparr> deliveryLogs := delete_where gone (deliveryLogs d),
            deliveryAttempts := delete_where (\<lambda>x. log_gone (da_deliveryLogId x)) (deliveryAttempts d),
            deliveryViewLinks := delete_where (\<lambda>x. log_gone (vl_deliveryLogId x)) (deliveryViewLinks d),
            attachments := delete_where (\<lambda>x. log_gone (at_deliveryLogId x)) (attachments d),
            attachmentLinks := delete_where (\<lambda>x. att_gone (ln_attachmentId x)) (attachmentLinks d) \<rparr>)"

definition drop_aliases :: "(alias_row \<Rightarrow> bool) \<Rightarrow> db \<Rightarrow> db" where
  "drop_aliases gone d =
     (let alias_gone = (\<lambda>i. list_ex (\<lambda>a. gone a \<and> al_id a = i) (aliases d))
      in (drop_logs (\<lambda>l. alias_gone (dl_emailAddressId l)) d)
         \<lparr> aliases := delete_where gone (aliases d),
           allowRules := delete_where (\<lambda>r. alias_gone (ar_emailAddressId r)) (allowRules d),
           aliasActivation := delete_where (\<lambda>v. alias_gone (av_aliasId v)) (aliasActivation d) \<rparr>)"

lemma drop_logs_none: "(\<And>l. l \<in> set (deliveryLogs d) \<Longrightarrow> \<not> gone l) \<Longrightarrow> drop_logs gone d = d"
proof -
  assume n: "\<And>l. l \<in> set (deliveryLogs d) \<Longrightarrow> \<not> gone l"
  then have "(\<lambda>i. list_ex (\<lambda>l. gone l \<and> dl_id l = i) (deliveryLogs d)) = (\<lambda>_. False)" by (auto simp: list_ex_iff)
  moreover have "delete_where gone (deliveryLogs d) = deliveryLogs d" using n by (simp add: delete_where_def filter_id_conv)
  moreover have "list_ex (\<lambda>_. False) xs \<longleftrightarrow> False" for xs :: "attachment_row list" by (simp add: list_ex_iff)
  ultimately show ?thesis by (simp add: drop_logs_def delete_where_def)
qed

lemma drop_logs_simps [simp]:
  "users (drop_logs gone d) = users d" "aliases (drop_logs gone d) = aliases d"
  by (simp_all add: drop_logs_def Let_def)

lemma drop_aliases_simps [simp]:
  "users (drop_aliases gone d) = users d" "aliases (drop_aliases gone d) = delete_where gone (aliases d)"
  by (simp_all add: drop_aliases_def Let_def)

lemma drop_aliases_without_logs:
  assumes "\<And>a l. gone a \<Longrightarrow> l \<in> set (deliveryLogs d) \<Longrightarrow> dl_emailAddressId l \<noteq> al_id a"
  shows "deliveryLogs (drop_aliases gone d) = deliveryLogs d" "attachments (drop_aliases gone d) = attachments d"
proof -
  have "drop_logs (\<lambda>l. list_ex (\<lambda>a. gone a \<and> al_id a = dl_emailAddressId l) (aliases d)) d = d"
    by (rule drop_logs_none) (use assms in \<open>fastforce simp: list_ex_iff\<close>)
  then show "deliveryLogs (drop_aliases gone d) = deliveryLogs d" "attachments (drop_aliases gone d) = attachments d"
    by (simp_all add: drop_aliases_def)
qed

definition delete_expired_alias_tombstones :: "instant \<Rightarrow> db \<Rightarrow> nat \<times> db" where
  "delete_expired_alias_tombstones cutoff d =
     (let expired = (\<lambda>a. al_status a = Deleted \<and> js_includes (al_localPart a) alias_tombstone_marker
            \<and> al_updatedAt a < cutoff \<and> \<not> list_ex (\<lambda>l. dl_emailAddressId l = al_id a) (deliveryLogs d))
      in (count_where expired (aliases d), drop_aliases expired d))"

definition escape_like_pattern :: "string \<Rightarrow> string" where
  "escape_like_pattern v =
     concat (map (\<lambda>c. if c \<in> {CHR 92, CHR ''%'', CHR ''_''} then [CHR 92, c] else [c]) v)"

text \<open>SQL \<open>s LIKE p\<close> with the default escape character.\<close>

fun sql_like :: "string \<Rightarrow> string \<Rightarrow> bool" where
  "sql_like [] s = (s = [])"
| "sql_like (p # ps) s =
     (if p = CHR ''%'' then
        sql_like ps s \<or> (case s of [] \<Rightarrow> False | c # cs \<Rightarrow> sql_like (p # ps) cs)
      else case s of
        [] \<Rightarrow> False
      | c # cs \<Rightarrow>
          (if p = CHR ''_'' then sql_like ps cs
           else if p = CHR 92 then
             (case ps of [] \<Rightarrow> False | q # qs \<Rightarrow> c = q \<and> sql_like qs cs)
           else c = p \<and> sql_like ps cs))"

text \<open>\<open>ORDER BY updated_at DESC LIMIT 1\<close>\<close>

fun newest :: "alias_row list \<Rightarrow> alias_row option" where
  "newest [] = None"
| "newest (a # as) =
     (case newest as of None \<Rightarrow> Some a | Some b \<Rightarrow> if al_updatedAt b > al_updatedAt a then Some b else Some a)"

definition find_recent_alias_tombstone :: "string \<Rightarrow> instant \<Rightarrow> db \<Rightarrow> alias_row option" where
  "find_recent_alias_tombstone lp since d =
     (let pattern = escape_like_pattern lp @ alias_tombstone_marker @ ''%''
      in newest (filter (\<lambda>a. sql_like pattern (al_localPart a) \<and> al_status a = Deleted \<and> al_updatedAt a > since)
           (aliases d)))"

section \<open>Version-guarded mutations\<close>

record move_event_input =
  mei_operationId :: uuid
  mei_aliasId :: uuid
  mei_aliasOwnerId :: bigint
  mei_actorId :: "bigint option"
  mei_authzPath :: authz_path
  mei_oldChatId :: bigint
  mei_newChatId :: bigint
  mei_oldThreadId :: "bigint option"
  mei_newThreadId :: "bigint option"
  mei_outcome :: "move_outcome option"

definition move_event_of :: "move_event_input \<Rightarrow> move_event_row" where
  "move_event_of v = \<lparr> ev_operationId = mei_operationId v, ev_aliasId = mei_aliasId v,
     ev_aliasOwnerId = mei_aliasOwnerId v, ev_actorId = mei_actorId v, ev_authzPath = mei_authzPath v,
     ev_oldChatId = mei_oldChatId v, ev_newChatId = mei_newChatId v, ev_oldThreadId = mei_oldThreadId v,
     ev_newThreadId = mei_newThreadId v, ev_outcome = or_else (mei_outcome v) MoveSucceeded \<rparr>"

definition add_move_event :: "move_event_input \<Rightarrow> db \<Rightarrow> db" where
  "add_move_event v d = d\<lparr> aliasMoveEvents := aliasMoveEvents d @ [move_event_of v] \<rparr>"

definition insert_alias_move_event :: "move_event_input \<Rightarrow> unit io" where
  "insert_alias_move_event v = db_write (add_move_event v)"

definition lock_order :: "bigint option list \<Rightarrow> bigint list" where
  "lock_order ids = sort (remdups (List.map_filter id ids))"

definition cas_condition :: "uuid \<Rightarrow> int \<Rightarrow> alias_row \<Rightarrow> bool" where
  "cas_condition i v a \<longleftrightarrow> al_id a = i \<and> al_routingVersion a = v \<and> al_status a \<noteq> Deleted"

text \<open>\<open>UPDATE ... SET f WHERE casCondition RETURNING *\<close>\<close>

definition cas_update :: "uuid \<Rightarrow> int \<Rightarrow> (alias_row \<Rightarrow> alias_row) \<Rightarrow> db \<Rightarrow> alias_row option \<times> db" where
  "cas_update i v f d =
     (map_option f (select_first (cas_condition i v) (aliases d)),
      d\<lparr> aliases := update_where (cas_condition i v) f (aliases d) \<rparr>)"

record move_params =
  mv_aliasId :: uuid
  mv_expectedVersion :: int
  mv_newChatId :: bigint
  mv_oldChatId :: bigint
  mv_oldThreadId :: "bigint option"
  mv_actorId :: "bigint option"
  mv_authzPath :: authz_path
  mv_aliasOwnerId :: bigint
  mv_operationId :: "uuid option"

definition move_row :: "bigint \<Rightarrow> instant \<Rightarrow> alias_row \<Rightarrow> alias_row" where
  "move_row c t a =
     a\<lparr> al_chatId := c, al_messageThreadId := None, al_routingVersion := al_routingVersion a + 1, al_updatedAt := t \<rparr>"

definition move_event_input_of :: "move_params \<Rightarrow> uuid \<Rightarrow> move_event_input" where
  "move_event_input_of p op = \<lparr> mei_operationId = op, mei_aliasId = mv_aliasId p,
     mei_aliasOwnerId = mv_aliasOwnerId p, mei_actorId = mv_actorId p, mei_authzPath = mv_authzPath p,
     mei_oldChatId = mv_oldChatId p, mei_newChatId = mv_newChatId p, mei_oldThreadId = mv_oldThreadId p,
     mei_newThreadId = None, mei_outcome = None \<rparr>"

text \<open>The result is None for \<open>version_conflict\<close>.\<close>

definition move_alias_body :: "move_params \<Rightarrow> alias_row option io" where
  "move_alias_body p =
     bind (for_each (lock_order [Some (mv_aliasOwnerId p), mv_actorId p]) (\<lambda>_. advisory_lock)) (\<lambda>_.
     bind now (\<lambda>t.
     bind (db_stmt (\<lambda>_ d. Inr (cas_update (mv_aliasId p) (mv_expectedVersion p) (move_row (mv_newChatId p) t) d)))
       (\<lambda>alias. case alias of
           None \<Rightarrow> ret None
         | Some a \<Rightarrow>
             bind (case mv_operationId p of None \<Rightarrow> random_uuid | Some op \<Rightarrow> ret op) (\<lambda>op.
             bind (insert_alias_move_event (move_event_input_of p op)) (\<lambda>_.
             ret (Some a))))))"

definition move_alias_with_cas :: "move_params \<Rightarrow> alias_row option io" where
  "move_alias_with_cas p = transaction (move_alias_body p)"

definition topic_row :: "bigint option \<Rightarrow> instant \<Rightarrow> alias_row \<Rightarrow> alias_row" where
  "topic_row th t a =
     a\<lparr> al_messageThreadId := th, al_routingVersion := al_routingVersion a + 1, al_updatedAt := t \<rparr>"

definition set_alias_topic_with_cas :: "uuid \<Rightarrow> int \<Rightarrow> bigint option \<Rightarrow> alias_row option io" where
  "set_alias_topic_with_cas i v th =
     bind now (\<lambda>t. db_stmt (\<lambda>_ d. Inr (cas_update i v (topic_row th t) d)))"

definition soft_delete_alias_with_cas :: "uuid \<Rightarrow> int \<Rightarrow> alias_row option io" where
  "soft_delete_alias_with_cas i v =
     bind (at_tick nanoid_suffix) (\<lambda>suffix.
     bind now (\<lambda>t. db_stmt (\<lambda>_ d. Inr (cas_update i v (tombstone_row suffix t) d))))"

section \<open>Chats\<close>

definition find_chat_by_id :: "bigint \<Rightarrow> db \<Rightarrow> chat_row option" where
  "find_chat_by_id c d = select_first (\<lambda>r. ch_id r = c) (chats d)"

definition find_active_chats :: "db \<Rightarrow> chat_row list" where
  "find_active_chats d = filter ch_isActive (chats d)"

definition count_chats :: "db \<Rightarrow> nat \<times> nat" where
  "count_chats d = (length (chats d), count_where ch_isActive (chats d))"

definition upsert_chat_at :: "instant \<Rightarrow> bigint \<Rightarrow> string \<Rightarrow> string \<Rightarrow> db \<Rightarrow> db" where
  "upsert_chat_at t c title ty d =
     (case find_chat_by_id c d of
        None \<Rightarrow> d\<lparr> chats := chats d @ [\<lparr> ch_id = c, ch_title = title, ch_type = ty, ch_isActive = True, ch_updatedAt = t \<rparr>] \<rparr>
      | Some _ \<Rightarrow> d\<lparr> chats := update_where (\<lambda>r. ch_id r = c)
            (\<lambda>r. r\<lparr> ch_title := title, ch_type := ty, ch_isActive := True, ch_updatedAt := t \<rparr>) (chats d) \<rparr>)"

definition upsert_chat :: "bigint \<Rightarrow> string \<Rightarrow> string \<Rightarrow> unit io" where
  "upsert_chat c title ty = bind now (\<lambda>t. db_write (upsert_chat_at t c title ty))"

definition deactivate_chat_at :: "instant \<Rightarrow> bigint \<Rightarrow> db \<Rightarrow> db" where
  "deactivate_chat_at t c d =
     d\<lparr> chats := update_where (\<lambda>r. ch_id r = c) (\<lambda>r. r\<lparr> ch_isActive := False, ch_updatedAt := t \<rparr>) (chats d) \<rparr>"

definition deactivate_chat :: "bigint \<Rightarrow> unit io" where
  "deactivate_chat c = bind now (\<lambda>t. db_write (deactivate_chat_at t c))"

section \<open>Inbound domains\<close>

definition find_inbound_domain_by_domain :: "string \<Rightarrow> db \<Rightarrow> domain_row option" where
  "find_inbound_domain_by_domain dn d = select_first (\<lambda>r. dm_domain r = js_lower dn) (inboundDomains d)"

definition find_active_inbound_domain_by_domain :: "string \<Rightarrow> db \<Rightarrow> domain_row option" where
  "find_active_inbound_domain_by_domain dn d =
     select_first (\<lambda>r. dm_domain r = js_lower dn \<and> dm_status r = DomainActive) (inboundDomains d)"

definition list_inbound_domains_by_user :: "bigint \<Rightarrow> db \<Rightarrow> domain_row list" where
  "list_inbound_domains_by_user u d = filter (\<lambda>r. dm_userId r = Some u) (inboundDomains d)"

text \<open>\<open>INSERT ... ON CONFLICT (domain) DO NOTHING RETURNING\<close>\<close>

definition insert_shared_domain :: "uuid \<Rightarrow> string \<Rightarrow> db \<Rightarrow> domain_row option \<times> db" where
  "insert_shared_domain i dn d =
     (if list_ex (\<lambda>r. dm_domain r = dn) (inboundDomains d) then (None, d)
      else let r = \<lparr> dm_id = i, dm_userId = None, dm_domain = dn, dm_kind = Shared, dm_status = DomainActive \<rparr>
           in (Some r, d\<lparr> inboundDomains := inboundDomains d @ [r] \<rparr>))"

definition shared_and_active :: "domain_row \<Rightarrow> domain_row io" where
  "shared_and_active r =
     (if dm_kind r \<noteq> Shared \<or> dm_status r \<noteq> DomainActive
      then throw (Thrown ''ensureSharedInboundDomain: hosted shared domain is not active'') else ret r)"

definition ensure_shared_inbound_domain :: "string \<Rightarrow> domain_row io" where
  "ensure_shared_inbound_domain dn =
     (let normalizedDomain = js_lower dn in
      bind (db_read (find_inbound_domain_by_domain normalizedDomain)) (\<lambda>existing.
      case existing of
        Some r \<Rightarrow> shared_and_active r
      | None \<Rightarrow>
          bind random_uuid (\<lambda>i.
          bind (db_stmt (\<lambda>_ d. Inr (insert_shared_domain i normalizedDomain d))) (\<lambda>created.
          case created of
            Some r \<Rightarrow> ret r
          | None \<Rightarrow>
              bind (db_read (find_inbound_domain_by_domain normalizedDomain)) (\<lambda>raced.
              case raced of
                None \<Rightarrow> throw (Thrown ''ensureSharedInboundDomain: no row returned'')
              | Some r \<Rightarrow> shared_and_active r)))))"

definition update_inbound_domain_status_stmt :: "uuid \<Rightarrow> domain_status \<Rightarrow> db \<Rightarrow> domain_row option \<times> db" where
  "update_inbound_domain_status_stmt i st d =
     (map_option (\<lambda>r. r\<lparr> dm_status := st \<rparr>) (select_first (\<lambda>r. dm_id r = i) (inboundDomains d)),
      d\<lparr> inboundDomains := update_where (\<lambda>r. dm_id r = i) (\<lambda>r. r\<lparr> dm_status := st \<rparr>) (inboundDomains d) \<rparr>)"


section \<open>Routing is a versioned resource\<close>

definition alias_ids_unique :: "db \<Rightarrow> bool" where
  "alias_ids_unique d \<longleftrightarrow> distinct (map al_id (aliases d))"

definition live_version :: "db \<Rightarrow> uuid \<Rightarrow> int option" where
  "live_version d i =
     map_option al_routingVersion (select_first (\<lambda>a. al_id a = i \<and> al_status a \<noteq> Deleted) (aliases d))"

datatype routing_change = MoveTo bigint instant | SetTopic "bigint option" instant | SoftDelete string instant

fun change_row :: "routing_change \<Rightarrow> alias_row \<Rightarrow> alias_row" where
  "change_row (MoveTo c t) = move_row c t"
| "change_row (SetTopic th t) = topic_row th t"
| "change_row (SoftDelete suffix t) = tombstone_row suffix t"

definition apply_change :: "uuid \<Rightarrow> int \<Rightarrow> routing_change \<Rightarrow> db \<Rightarrow> bool \<times> db" where
  "apply_change i v c d = (case cas_update i v (change_row c) d of (r, d') \<Rightarrow> (r \<noteq> None, d'))"

definition rekey_chat :: "bigint \<times> bigint \<times> instant \<Rightarrow> db \<Rightarrow> db" where
  "rekey_chat b d = (case b of (oldC, newC, t) \<Rightarrow> snd (repoint_aliases_to_chat oldC newC t d))"

lemma change_row_id [simp]: "al_id (change_row c a) = al_id a"
  by (cases c) (simp_all add: move_row_def topic_row_def tombstone_row_def Let_def)

lemma repoint_row_simps [simp]:
  "al_id (repoint_row c t a) = al_id a" "al_status (repoint_row c t a) = al_status a"
  "al_chatId (repoint_row c t a) = c" "al_routingVersion (repoint_row c t a) = al_routingVersion a + 1"
  by (simp_all add: repoint_row_def)

lemma distinct_select:
  "distinct (map al_id t) \<Longrightarrow> a \<in> set t \<Longrightarrow> al_id a = i \<Longrightarrow> select_first (\<lambda>a. al_id a = i \<and> P a) t = (if P a then Some a else None)"
proof (induction t)
  case (Cons b t)
  show ?case
  proof (cases "b = a")
    case True
    with Cons.prems have "\<forall>r\<in>set t. al_id r \<noteq> i" by (auto simp: image_iff)
    then have "select_first (\<lambda>a. al_id a = i \<and> P a) t = None" by (simp add: select_first_None)
    with True Cons.prems show ?thesis by simp
  next
    case False
    with Cons show ?thesis by auto
  qed
qed simp

lemma live_version_Some:
  assumes "alias_ids_unique d"
  shows "live_version d i = Some v \<longleftrightarrow>
    (\<exists>a\<in>set (aliases d). al_id a = i \<and> al_status a \<noteq> Deleted \<and> al_routingVersion a = v)"
  using assms distinct_select [of "aliases d" _ i "\<lambda>a. al_status a \<noteq> Deleted"]
  by (auto simp: live_version_def alias_ids_unique_def dest: select_first_Some)

lemma cas_hit_iff:
  assumes "alias_ids_unique d"
  shows "fst (cas_update i v f d) \<noteq> None \<longleftrightarrow> live_version d i = Some v"
  using assms select_first_None [of "cas_condition i v" "aliases d"]
  by (auto simp: cas_update_def live_version_Some cas_condition_def)

lemma live_version_None:
  "live_version d i = None \<longleftrightarrow> (\<forall>a\<in>set (aliases d). al_id a = i \<longrightarrow> al_status a = Deleted)"
  by (auto simp: live_version_def select_first_None)

lemma cas_update_aliases:
  "aliases (snd (cas_update i v f d)) = update_where (cas_condition i v) f (aliases d)"
  by (simp add: cas_update_def)

lemma change_unique: "alias_ids_unique d \<Longrightarrow> alias_ids_unique (snd (apply_change i v c d))"
  by (simp add: alias_ids_unique_def apply_change_def cas_update_def map_update_where)

lemma change_frame:
  assumes "alias_ids_unique d" "i \<noteq> j \<or> live_version d i \<noteq> Some v"
  shows "live_version (snd (apply_change i v c d)) j = live_version d j"
proof (cases "live_version d i = Some v")
  case True
  with assms(2) have "i \<noteq> j" by simp
  then have "select_first (\<lambda>a. al_id a = j \<and> al_status a \<noteq> Deleted) (update_where (cas_condition i v) (change_row c) t) =
        select_first (\<lambda>a. al_id a = j \<and> al_status a \<noteq> Deleted) t" for t
    by (intro select_first_frame) (auto simp: cas_condition_def)
  then show ?thesis by (simp add: apply_change_def live_version_def cas_update_def)
next
  case False
  then have "update_where (cas_condition i v) (change_row c) (aliases d) = aliases d"
    using assms(1) by (intro update_where_none) (auto simp: live_version_Some cas_condition_def)
  then show ?thesis by (simp add: apply_change_def live_version_def cas_update_def)
qed

lemma change_advances:
  assumes u: "alias_ids_unique d" and v: "live_version d i = Some v"
  shows "live_version (snd (apply_change i v c d)) i = (case c of SoftDelete _ _ \<Rightarrow> None | _ \<Rightarrow> Some (v + 1))"
proof -
  obtain a where a: "a \<in> set (aliases d)" "al_id a = i" "al_status a \<noteq> Deleted" "al_routingVersion a = v"
    using v live_version_Some [OF u] by blast
  let ?d = "snd (apply_change i v c d)"
  have u': "alias_ids_unique ?d" by (rule change_unique [OF u])
  have "change_row c a \<in> set (aliases ?d)"
    using a by (force simp: apply_change_def cas_update_def set_update_where cas_condition_def)
  moreover have "al_id (change_row c a) = i" using a by simp
  ultimately have "select_first (\<lambda>a. al_id a = i \<and> al_status a \<noteq> Deleted) (aliases ?d) =
      (if al_status (change_row c a) \<noteq> Deleted then Some (change_row c a) else None)"
    using u' by (intro distinct_select) (auto simp: alias_ids_unique_def)
  then show ?thesis using a
    by (cases c) (auto simp: live_version_def move_row_def topic_row_def tombstone_row_def Let_def)
qed

lemma rekey_unique: "alias_ids_unique d \<Longrightarrow> alias_ids_unique (rekey_chat b d)"
  by (auto simp: alias_ids_unique_def rekey_chat_def repoint_aliases_to_chat_def map_update_where split: prod.splits)

lemma rekey_version:
  "live_version (rekey_chat (c, c', t) d) i =
     map_option (\<lambda>a. al_routingVersion a + (if al_chatId a = c then 1 else 0))
       (select_first (\<lambda>a. al_id a = i \<and> al_status a \<noteq> Deleted) (aliases d))"
proof -
  have "select_first (\<lambda>a. al_id a = i \<and> al_status a \<noteq> Deleted) (update_where (\<lambda>a. al_chatId a = c) (repoint_row c' t) x) =
     map_option (\<lambda>a. if al_chatId a = c then repoint_row c' t a else a)
       (select_first (\<lambda>a. al_id a = i \<and> al_status a \<noteq> Deleted) x)" for x
    by (rule select_first_update) simp
  then show ?thesis
    by (auto simp: rekey_chat_def repoint_aliases_to_chat_def live_version_def option.map_comp comp_def
        intro!: map_option_cong)
qed

interpretation routing: versioned alias_ids_unique live_version apply_change rekey_chat
proof
  fix d k v c
  assume u: "alias_ids_unique d"
  show "fst (apply_change k v c d) = (live_version d k = Some v)"
    using cas_hit_iff [OF u, of k v "change_row c"]
    by (cases "cas_update k v (change_row c) d") (simp add: apply_change_def)
  show "alias_ids_unique (snd (apply_change k v c d))" by (rule change_unique [OF u])
  show "live_version (snd (apply_change k v c d)) k = Some (v + 1) \<or> live_version (snd (apply_change k v c d)) k = None"
    if "live_version d k = Some v"
    using change_advances [OF u that, of c] by (auto split: routing_change.splits)
  show "live_version (snd (apply_change k v c d)) l = live_version d l" if "k \<noteq> l \<or> live_version d k \<noteq> Some v" for l
    using u that by (rule change_frame)
next
  fix d :: db and k and b :: "bigint \<times> bigint \<times> instant"
  assume u: "alias_ids_unique d"
  obtain c c' t where b: "b = (c, c', t)" by (cases b)
  show "alias_ids_unique (rekey_chat b d)" using u by (rule rekey_unique)
  show "\<exists>u\<ge>v. live_version (rekey_chat b d) k = Some u" if "live_version d k = Some v" for v
  proof -
    have z: "live_version d k = Some v" by (rule that)
    obtain a where a: "select_first (\<lambda>a. al_id a = k \<and> al_status a \<noteq> Deleted) (aliases d) = Some a"
      "v = al_routingVersion a"
      using z by (auto simp: live_version_def)
    then show ?thesis unfolding b rekey_version by simp
  qed
  show "live_version (rekey_chat b d) k = None" if "live_version d k = None"
    using that unfolding b rekey_version by (simp add: live_version_def)
qed

section \<open>Tombstones free the name\<close>

lemma sql_like_percent: "sql_like ''%'' s"
  by (induction s) simp_all

lemma sql_like_literal:
  "sql_like (escape_like_pattern v @ p) s \<longleftrightarrow> (\<exists>r. s = v @ r \<and> sql_like p r)"
proof (induction v arbitrary: s)
  case Nil
  then show ?case by (simp add: escape_like_pattern_def)
next
  case (Cons c v)
  have "sql_like (escape_like_pattern (c # v) @ p) s \<longleftrightarrow>
        (\<exists>cs. s = c # cs \<and> sql_like (escape_like_pattern v @ p) cs)"
    by (cases s) (auto simp: escape_like_pattern_def)
  with Cons.IH show ?case by auto
qed

lemma tombstone_pattern:
  "sql_like (escape_like_pattern lp @ alias_tombstone_marker @ ''%'') s \<longleftrightarrow>
   (\<exists>r. s = lp @ alias_tombstone_marker @ r)"
proof -
  have "escape_like_pattern alias_tombstone_marker = alias_tombstone_marker"
    by (simp add: escape_like_pattern_def alias_tombstone_marker_def)
  then have "sql_like (alias_tombstone_marker @ ''%'') t \<longleftrightarrow> (\<exists>r. t = alias_tombstone_marker @ r)" for t
    using sql_like_literal [of alias_tombstone_marker "''%''" t] sql_like_percent by auto
  then show ?thesis by (simp only: sql_like_literal) blast
qed

lemma newest_None [simp]: "newest as = None \<longleftrightarrow> as = []"
  by (cases as) (auto split: option.splits)

lemma newest_Some: "newest as = Some a \<Longrightarrow> a \<in> set as \<and> (\<forall>b\<in>set as. al_updatedAt b \<le> al_updatedAt a)"
proof (induction as arbitrary: a)
  case (Cons b as)
  show ?case
  proof (cases "newest as")
    case None
    with Cons.prems show ?thesis by simp
  next
    case (Some c)
    with Cons.IH [OF Some] Cons.prems show ?thesis by (auto split: if_splits)
  qed
qed simp

section \<open>Moves are atomic with their audit\<close>

lemmas row_effect_simps = move_row_def topic_row_def tombstone_row_def

lemma cas_miss_unchanged: "fst (cas_update i v f d) = None \<Longrightarrow> snd (cas_update i v f d) = d"
  by (simp add: cas_update_def select_first_None update_where_none)

definition moved_with_audit :: "move_params \<Rightarrow> db \<Rightarrow> db \<Rightarrow> bool" where
  "moved_with_audit p d d' \<longleftrightarrow>
     (\<exists>t op. fst (cas_update (mv_aliasId p) (mv_expectedVersion p) (move_row (mv_newChatId p) t) d) \<noteq> None \<and>
        d' = add_move_event (move_event_input_of p op)
               (snd (cas_update (mv_aliasId p) (mv_expectedVersion p) (move_row (mv_newChatId p) t) d)))"


lemma move_body_Inr:
  assumes "bind (for_each ls (\<lambda>_. advisory_lock)) (\<lambda>_.
       bind now (\<lambda>t.
       bind (db_stmt (\<lambda>_ d. Inr (cas_update i v (f t) d)))
         (\<lambda>alias. case alias of
             None \<Rightarrow> ret None
           | Some a \<Rightarrow> bind (g a) (\<lambda>op. bind (insert_alias_move_event (h op)) (\<lambda>_. ret (Some a)))))) e w = (Inr r, w2)"
    and g: "\<And>a e w b w'. g a e w = (Inr b, w') \<Longrightarrow> w_db w' = w_db w"
  shows "\<exists>t. r = fst (cas_update i v (f t) (w_db w)) \<and>
     (case r of None \<Rightarrow> w_db w2 = w_db w
      | Some a \<Rightarrow> \<exists>op. w_db w2 = add_move_event (h op) (snd (cas_update i v (f t) (w_db w))))"
proof -
  obtain u w0 t w1 where l: "for_each ls (\<lambda>_. advisory_lock) e w = (Inr u, w0)"
    and t: "now e w0 = (Inr t, w1)"
    and cont: "bind (db_stmt (\<lambda>_ d. Inr (cas_update i v (f t) d)))
         (\<lambda>alias. case alias of
             None \<Rightarrow> ret None
           | Some a \<Rightarrow> bind (g a) (\<lambda>op. bind (insert_alias_move_event (h op)) (\<lambda>_. ret (Some a)))) e w1 = (Inr r, w2)"
    using assms(1) unfolding bind_Inr by blast
  have w1: "w_db w1 = w_db w" using locks_Inr [OF l] t by (simp add: now_Inr)
  obtain hit d where c: "cas_update i v (f t) (w_db w1) = (hit, d)" by fastforce
  show ?thesis
  proof (cases hit)
    case None
    with c have "d = w_db w1" using cas_miss_unchanged [of i v "f t" "w_db w1"] by simp
    with None cont c w1 show ?thesis by (intro exI [of _ t]) (auto simp: run_simps)
  next
    case (Some a)
    with cont c w1 g show ?thesis
      by (intro exI [of _ t]) (auto simp: run_simps insert_alias_move_event_def; fastforce)
  qed
qed

lemma move_alias_body_Inr:
  assumes "move_alias_body p e w0 = (Inr r, w2)"
  shows "r = None \<and> w_db w2 = w_db w0 \<or> (\<exists>a. r = Some a \<and> moved_with_audit p (w_db w0) (w_db w2))"
proof -
  have op: "w_db w' = w_db w"
    if "(case mv_operationId p of None \<Rightarrow> random_uuid | Some op \<Rightarrow> ret op) e w = (Inr b, w')" for e w b w'
    using that by (cases "mv_operationId p") (simp_all add: random_uuid_Inr ret_Inr)
  have "\<exists>t. r = fst (cas_update (mv_aliasId p) (mv_expectedVersion p) (move_row (mv_newChatId p) t) (w_db w0)) \<and>
    (case r of None \<Rightarrow> w_db w2 = w_db w0
     | Some a \<Rightarrow> \<exists>op. w_db w2 = add_move_event (move_event_input_of p op)
         (snd (cas_update (mv_aliasId p) (mv_expectedVersion p) (move_row (mv_newChatId p) t) (w_db w0))))"
    by (rule move_body_Inr [OF assms [unfolded move_alias_body_def]]) (rule op)
  then obtain t where t: "r = fst (cas_update (mv_aliasId p) (mv_expectedVersion p) (move_row (mv_newChatId p) t) (w_db w0))"
    "case r of None \<Rightarrow> w_db w2 = w_db w0
     | Some a \<Rightarrow> \<exists>op. w_db w2 = add_move_event (move_event_input_of p op)
         (snd (cas_update (mv_aliasId p) (mv_expectedVersion p) (move_row (mv_newChatId p) t) (w_db w0)))"
    by blast
  show ?thesis
  proof (cases r)
    case (Some a)
    obtain op where "w_db w2 = add_move_event (move_event_input_of p op)
         (snd (cas_update (mv_aliasId p) (mv_expectedVersion p) (move_row (mv_newChatId p) t) (w_db w0)))"
      using t(2) unfolding Some by auto
    moreover have "fst (cas_update (mv_aliasId p) (mv_expectedVersion p) (move_row (mv_newChatId p) t) (w_db w0)) \<noteq> None"
      using t(1) Some by (metis option.distinct(1))
    ultimately show ?thesis using Some unfolding moved_with_audit_def by blast
  qed (use t in auto)
qed

lemma open_move_alias_body [open_rules]: "stays_open (move_alias_body p)"
  unfolding move_alias_body_def insert_alias_move_event_def by (intro open_rules)



text \<open>The mutations of routing in any order: guarded ones by any caller, and chat migrations.\<close>

primrec run_routing :: "(uuid, routing_change, bigint \<times> bigint \<times> instant) mutation \<Rightarrow> db \<Rightarrow> db" where
  "run_routing (Guarded i v c) d = snd (cas_update i v (change_row c) d)"
| "run_routing (Rekey b) d = rekey_chat b d"

lemma apply_change_cas:
  "fst (apply_change i v c d) \<longleftrightarrow> fst (cas_update i v (change_row c) d) \<noteq> None"
  "snd (apply_change i v c d) = snd (cas_update i v (change_row c) d)"
  by (simp_all add: apply_change_def split: prod.splits)

lemma run_routing_mutate: "run_routing = routing.mutate"
proof (rule ext)+
  fix m d
  show "run_routing m d = routing.mutate m d" by (cases m) (simp_all add: apply_change_cas)
qed

text \<open>C17: A confirmation token is spent by its first use: after a guarded mutation succeeded with a
  version, no later mutation of that alias with the same version succeeds, whatever moves, topic
  changes, deletions and chat migrations of any alias ran in between (an A-B-A round trip
  included).\<close>

theorem spent_token_never_wins:
  assumes "alias_ids_unique d" and "fst (cas_update i v (change_row c) d) \<noteq> None"
  shows "fst (cas_update i v (change_row c') (fold run_routing ms (snd (cas_update i v (change_row c) d)))) = None"
  using routing.stale_token_fails [of d i v c c' ms] assms
  by (simp add: apply_change_cas run_routing_mutate)

definition sample_alias :: alias_row where
  "sample_alias = \<lparr> al_id = ''a1'', al_localPart = ''alerts'', al_fullAddress = ''alerts@example.com'',
     al_domainId = None, al_chatId = 10, al_messageThreadId = Some 4, al_createdBy = 7, al_label = None,
     al_renderMode = ''plaintext'', al_privacyModeEnabled = False, al_bodyDedupEnabled = False,
     al_status = Active, al_routingVersion = 3, al_createdAt = 0, al_updatedAt = 0 \<rparr>"

lemma spent_token_never_wins_witness:
  "fst (cas_update ''a1'' 3 (change_row (MoveTo 20 1)) (empty_db\<lparr>aliases := [sample_alias]\<rparr>)) \<noteq> None \<and>
   fst (cas_update ''a1'' 3 (change_row (MoveTo 99 5))
     (fold run_routing [Guarded ''a1'' 4 (MoveTo 10 2), Rekey (10, 30, 3)]
       (snd (cas_update ''a1'' 3 (change_row (MoveTo 20 1)) (empty_db\<lparr>aliases := [sample_alias]\<rparr>))))) = None"
proof -
  have u: "alias_ids_unique (empty_db\<lparr>aliases := [sample_alias]\<rparr>)" by (simp add: alias_ids_unique_def)
  have h: "fst (cas_update ''a1'' 3 (change_row (MoveTo 20 1)) (empty_db\<lparr>aliases := [sample_alias]\<rparr>)) \<noteq> None"
    by (simp add: cas_update_def cas_condition_def sample_alias_def)
  show ?thesis using h spent_token_never_wins [OF u h] by blast
qed

definition alias_names_unique :: "db \<Rightarrow> bool" where
  "alias_names_unique d \<longleftrightarrow>
     distinct (map (\<lambda>a. (al_domainId a, al_localPart a)) (aliases d)) \<and>
     distinct (map (\<lambda>a. js_lower (al_fullAddress a)) (aliases d))"

definition well_addressed :: "alias_row \<Rightarrow> bool" where
  "well_addressed a \<longleftrightarrow> CHR ''@'' \<notin> set (al_localPart a) \<and>
     (\<exists>dn. CHR ''@'' \<notin> set dn \<and> al_fullAddress a = al_localPart a @ ''@'' @ dn)"

lemma js_split_no_sep: "c \<notin> set s \<Longrightarrow> js_split c s = [s]"
  by (induction s) auto

lemma js_split_once: "c \<notin> set s \<Longrightarrow> js_split c (s @ c # t) = s # js_split c t"
  by (induction s) auto

lemma tombstone_address:
  assumes "well_addressed a"
  shows "length (al_fullAddress (tombstone_row suffix t a)) > length (al_fullAddress a)"
proof -
  obtain dn where "CHR ''@'' \<notin> set (al_localPart a)" "CHR ''@'' \<notin> set dn" "al_fullAddress a = al_localPart a @ ''@'' @ dn"
    using assms by (auto simp: well_addressed_def)
  then show ?thesis
    by (simp add: tombstone_row_def split_part_2_def js_split_once js_split_no_sep js_nth_def alias_tombstone_marker_def)
qed

lemma distinct_map_conflict:
  "distinct (map k xs) \<Longrightarrow> a \<in> set xs \<Longrightarrow> b \<in> set xs \<Longrightarrow> k a = k b \<Longrightarrow> a = b"
  by (induction xs) (auto simp: image_iff)

lemma soft_delete_frees_name:
  assumes names: "alias_names_unique d" and ids: "alias_ids_unique d"
    and a: "a \<in> set (aliases d)" "cas_condition i v a" "well_addressed a"
    and n: "na_localPart n = al_localPart a" "na_domainId n = al_domainId a" "na_fullAddress n = al_fullAddress a"
  shows "\<exists>r d'. create_alias_stmt j t n (snd (cas_update i v (change_row (SoftDelete suffix s)) d)) = Inr (r, d')"
proof -
  have "\<not> alias_conflict n b" if b: "b \<in> set (aliases (snd (cas_update i v (change_row (SoftDelete suffix s)) d)))" for b
  proof -
    obtain r where r: "r \<in> set (aliases d)" "b = (if cas_condition i v r then tombstone_row suffix s r else r)"
      using b by (auto simp: cas_update_aliases set_update_where)
    show ?thesis
    proof (cases "cas_condition i v r")
      case True
      then have "al_id r = al_id a" using a(2) by (simp add: cas_condition_def)
      then have "r = a" using ids distinct_map_conflict [of al_id "aliases d" r a] r(1) a(1) by (simp add: alias_ids_unique_def)
      then have e: "b = tombstone_row suffix s a" using r(2) True by simp
      have "al_localPart b \<noteq> al_localPart a" by (simp add: e tombstone_row_def Let_def alias_tombstone_marker_def)
      moreover have "js_lower (al_fullAddress b) \<noteq> js_lower (al_fullAddress a)"
        using tombstone_address [OF a(3), of suffix s] js_lower_length e by (metis less_irrefl)
      ultimately show ?thesis using n by (auto simp: alias_conflict_def)
    next
      case False
      then have "b = r" and "r \<noteq> a" using r a(2) by auto
      then show ?thesis using names n r(1) a(1)
          distinct_map_conflict [of "\<lambda>a. (al_domainId a, al_localPart a)" "aliases d" r a]
          distinct_map_conflict [of "\<lambda>a. js_lower (al_fullAddress a)" "aliases d" r a]
        by (auto simp: alias_conflict_def alias_names_unique_def)
    qed
  qed
  then show ?thesis by (auto simp: create_alias_stmt_def list_ex_iff Let_def)
qed

text \<open>Deleting an alias frees its name at once: a deletion under the guard leaves the database
  with no row that stands in the way of creating the same local part and address again.\<close>

theorem deletion_frees_the_name:
  assumes "alias_names_unique d" "alias_ids_unique d"
    "a \<in> set (aliases d)" "cas_condition i v a" "well_addressed a"
    "na_localPart n = al_localPart a" "na_domainId n = al_domainId a" "na_fullAddress n = al_fullAddress a"
  shows "list_ex (alias_conflict n) (aliases d) \<and>
    (\<exists>r d'. create_alias_stmt j t n (snd (cas_update i v (tombstone_row suffix s) d)) = Inr (r, d'))"
proof
  show "list_ex (alias_conflict n) (aliases d)" using assms(3,6-8) by (auto simp: list_ex_iff alias_conflict_def)
  show "\<exists>r d'. create_alias_stmt j t n (snd (cas_update i v (tombstone_row suffix s) d)) = Inr (r, d')"
    using soft_delete_frees_name [OF assms, of j t suffix s] by simp
qed

definition sample_new_alias :: new_alias where
  "sample_new_alias = \<lparr> na_localPart = ''alerts'', na_fullAddress = ''alerts@example.com'', na_domainId = None,
     na_chatId = 11, na_messageThreadId = None, na_createdBy = 8, na_renderMode = ''plaintext'',
     na_privacyModeEnabled = False, na_bodyDedupEnabled = False, na_status = Active \<rparr>"

lemma deletion_frees_the_name_witness:
  "list_ex (alias_conflict sample_new_alias) (aliases (empty_db\<lparr>aliases := [sample_alias]\<rparr>)) \<and>
    (\<exists>r d'. create_alias_stmt ''b2'' 9 sample_new_alias
       (snd (cas_update ''a1'' 3 (tombstone_row ''x7f3k2p9'' 5) (empty_db\<lparr>aliases := [sample_alias]\<rparr>))) = Inr (r, d'))"
proof (rule deletion_frees_the_name [where a = sample_alias])
  show "alias_names_unique (empty_db\<lparr>aliases := [sample_alias]\<rparr>)" by (simp add: alias_names_unique_def)
  show "alias_ids_unique (empty_db\<lparr>aliases := [sample_alias]\<rparr>)" by (simp add: alias_ids_unique_def)
  show "sample_alias \<in> set (aliases (empty_db\<lparr>aliases := [sample_alias]\<rparr>))" by simp
  show "cas_condition ''a1'' 3 sample_alias" by (simp add: cas_condition_def sample_alias_def)
  show "well_addressed sample_alias"
    unfolding well_addressed_def sample_alias_def by (auto intro!: exI [of _ "''example.com''"])
qed (simp_all add: sample_new_alias_def sample_alias_def)

end
