(* ===== verification/Limits.thy ===== *)
theory Limits
  imports DeliveryRepo AliasRepo
begin

text \<open>
  Plan limits (\<open>src/billing/limits.ts\<close>) and the notices about them
  (\<open>src/billing/quotaNotifier.ts\<close>).  In self-hosted mode every check passes; in hosted mode the
  plan in force comes from the owner's row.  \<open>loadConfig\<close> is the environment field
  \<open>config_app_mode\<close>, the message catalogue \<open>quota_text\<close>.
\<close>

section \<open>Limits\<close>

datatype limit_code =
  SubscriptionInactive | AliasLimit | AllowRuleLimit | MonthlyEmailLimit | StorageLimit | MessageSizeLimit | EgressLimit

datatype limit_result = LimitOk | LimitHit limit_code "int option" "int option"   \<comment> \<open>code, limit, used\<close>

definition past_due_grace_ms :: int where "past_due_grace_ms = 7 * 24 * 60 * 60 * 1000"

text \<open>\<open>getEffectivePlan\<close> at time \<open>t\<close>\<close>

definition effective_plan_at :: "plan_table \<Rightarrow> instant \<Rightarrow> user_row \<Rightarrow> plan_definition" where
  "effective_plan_at plans t user =
     (if u_planCode user = Free then get_plan_definition plans Free
      else if u_planCode user = Business then get_plan_definition plans Business
      else case u_subscriptionStatus user of
          Trialing \<Rightarrow> get_plan_definition plans (u_planCode user)
        | SubActive \<Rightarrow> get_plan_definition plans (u_planCode user)
        | PastDue \<Rightarrow>
            (case u_paidThroughAt user of
               Some p \<Rightarrow> if t - p \<le> past_due_grace_ms then get_plan_definition plans (u_planCode user)
                        else get_plan_definition plans Free
             | None \<Rightarrow> get_plan_definition plans Free)
        | _ \<Rightarrow> get_plan_definition plans Free)"

definition get_effective_plan :: "user_row \<Rightarrow> plan_definition io" where
  "get_effective_plan user = bind now (\<lambda>t. ask (\<lambda>e. effective_plan_at (plan_table e) t user))"

definition should_enforce_hosted_limits :: "env \<Rightarrow> bool" where
  "should_enforce_hosted_limits e =
     (if app_mode_env e = Some ''hosted'' then True
      else if app_mode_env e = Some ''self-hosted'' then False
      else config_app_mode e = Some ''hosted'')"

definition user_by_id :: "bigint \<Rightarrow> db \<Rightarrow> user_row option" where
  "user_by_id i d = select_first (\<lambda>u. u_id u = i) (users d)"

definition find_user_by_id :: "bigint \<Rightarrow> user_row option io" where
  "find_user_by_id i = db_read (user_by_id i)"

definition check_alias_create_limit :: "bigint option \<Rightarrow> limit_result io" where
  "check_alias_create_limit userId =
     bind (ask should_enforce_hosted_limits) (\<lambda>hosted.
       if \<not> hosted then ret LimitOk
       else case userId of
           None \<Rightarrow> ret (LimitHit SubscriptionInactive None None)
         | Some i \<Rightarrow> bind (find_user_by_id i) (\<lambda>user.
             case user of
               None \<Rightarrow> ret (LimitHit SubscriptionInactive None None)
             | Some u \<Rightarrow>
                 bind (get_effective_plan u) (\<lambda>plan.
                 bind (db_read (count_active_aliases_by_user (u_id u))) (\<lambda>used.
                   if lim_aliases (pl_limits plan) \<le> int used
                   then ret (LimitHit AliasLimit (Some (lim_aliases (pl_limits plan))) (Some (int used)))
                   else ret LimitOk))))"

definition check_allow_rule_create_limit :: "bigint option \<Rightarrow> limit_result io" where
  "check_allow_rule_create_limit userId =
     bind (ask should_enforce_hosted_limits) (\<lambda>hosted.
       if \<not> hosted then ret LimitOk
       else case userId of
           None \<Rightarrow> ret (LimitHit SubscriptionInactive None None)
         | Some i \<Rightarrow> bind (find_user_by_id i) (\<lambda>user.
             case user of
               None \<Rightarrow> ret (LimitHit SubscriptionInactive None None)
             | Some u \<Rightarrow>
                 bind (get_effective_plan u) (\<lambda>plan.
                 bind (db_read (count_allow_rules_by_user (u_id u))) (\<lambda>used.
                   if lim_allowRules (pl_limits plan) \<le> int used
                   then ret (LimitHit AllowRuleLimit (Some (lim_allowRules (pl_limits plan))) (Some (int used)))
                   else ret LimitOk))))"

record inbound_plan =
  ip_hosted :: bool
  ip_user :: "user_row option"
  ip_plan :: plan_definition

definition resolve_inbound_plan :: "bigint option \<Rightarrow> inbound_plan io" where
  "resolve_inbound_plan userId =
     bind (ask should_enforce_hosted_limits) (\<lambda>hosted.
     bind (ask (\<lambda>e. get_plan_definition (plan_table e) Free)) (\<lambda>free.
       if \<not> hosted then ret \<lparr> ip_hosted = False, ip_user = None, ip_plan = free \<rparr>
       else bind (case userId of None \<Rightarrow> ret None | Some i \<Rightarrow> find_user_by_id i) (\<lambda>user.
            bind (case user of Some u \<Rightarrow> get_effective_plan u | None \<Rightarrow> ret free) (\<lambda>plan.
            ret \<lparr> ip_hosted = True, ip_user = user, ip_plan = plan \<rparr>))))"

text \<open>The quota decision on what one read of storage and usage returns; \<open>checkInboundLimitForPlan\<close>
  skips the storage read when no delta is given or it is not positive.\<close>

definition storage_total :: "storage_row option \<Rightarrow> int" where
  "storage_total s = (case s of None \<Rightarrow> 0 | Some r \<Rightarrow> su_rawEmailBytes r) +
                     (case s of None \<Rightarrow> 0 | Some r \<Rightarrow> su_attachmentBytes r)"

definition check_inbound_limit_for_plan ::
  "inbound_plan \<Rightarrow> int option \<Rightarrow> bigint option \<Rightarrow> string \<Rightarrow> limit_result io" where
  "check_inbound_limit_for_plan inbound rawSizeBytes storageDeltaBytes month =
     (if \<not> ip_hosted inbound then ret LimitOk
      else case ip_user inbound of
          None \<Rightarrow> ret (LimitHit SubscriptionInactive None None)
        | Some user \<Rightarrow>
            (let limits = pl_limits (ip_plan inbound)
             in if (case rawSizeBytes of None \<Rightarrow> False | Some n \<Rightarrow> lim_maxMessageBytes limits < n)
                then ret (LimitHit MessageSizeLimit (Some (lim_maxMessageBytes limits)) rawSizeBytes)
                else bind (case storageDeltaBytes of
                         None \<Rightarrow> ret LimitOk
                       | Some delta \<Rightarrow>
                           (if delta \<le> 0 then ret LimitOk
                            else bind (db_read (get_user_storage_usage (u_id user))) (\<lambda>storage.
                              let currentBytes = storage_total storage
                              in if lim_storageBytes limits < currentBytes + delta
                                 then ret (LimitHit StorageLimit (Some (lim_storageBytes limits)) (Some currentBytes))
                                 else ret LimitOk))) (\<lambda>storageCheck.
                     if storageCheck \<noteq> LimitOk then ret storageCheck
                     else bind (db_read (get_user_usage_month (u_id user) month)) (\<lambda>usage.
                       let deliveredCount = (case usage of None \<Rightarrow> 0 | Some r \<Rightarrow> um_deliveredCount r)
                       in if lim_deliveredEmailsMonth limits \<le> deliveredCount
                          then ret (LimitHit MonthlyEmailLimit (Some (lim_deliveredEmailsMonth limits)) (Some deliveredCount))
                          else ret LimitOk))))"

definition check_inbound_limit :: "bigint option \<Rightarrow> int option \<Rightarrow> bigint option \<Rightarrow> string \<Rightarrow> limit_result io" where
  "check_inbound_limit userId rawSizeBytes storageDeltaBytes month =
     bind (resolve_inbound_plan userId) (\<lambda>p. check_inbound_limit_for_plan p rawSizeBytes storageDeltaBytes month)"

definition check_egress_limit :: "bigint option \<Rightarrow> bigint \<Rightarrow> string \<Rightarrow> limit_result io" where
  "check_egress_limit userId egressBytes month =
     bind (ask should_enforce_hosted_limits) (\<lambda>hosted.
       if \<not> hosted then ret LimitOk
       else case userId of
           None \<Rightarrow> ret (LimitHit SubscriptionInactive None None)
         | Some i \<Rightarrow>
             if egressBytes \<le> 0 then ret LimitOk
             else bind (find_user_by_id i) (\<lambda>user.
               case user of
                 None \<Rightarrow> ret (LimitHit SubscriptionInactive None None)
               | Some u \<Rightarrow>
                   bind (get_effective_plan u) (\<lambda>plan.
                   bind (db_read (get_user_usage_month (u_id u) month)) (\<lambda>usage.
                     let currentBytes = (case usage of None \<Rightarrow> 0 | Some r \<Rightarrow> um_egressBytes r);
                         cap = lim_egressBytesMonth (pl_limits plan)
                     in if cap < currentBytes + egressBytes
                        then ret (LimitHit EgressLimit (Some cap) (Some currentBytes))
                        else ret LimitOk))))"

definition has_active_hosted_user :: "bigint option \<Rightarrow> bool io" where
  "has_active_hosted_user userId =
     bind (ask should_enforce_hosted_limits) (\<lambda>hosted.
       if \<not> hosted then ret True
       else case userId of None \<Rightarrow> ret False
            | Some i \<Rightarrow> bind (find_user_by_id i) (\<lambda>user. ret (user \<noteq> None)))"

definition with_user_quota_lock :: "bigint option \<Rightarrow> 'a io \<Rightarrow> 'a io" where
  "with_user_quota_lock userId work =
     bind (ask should_enforce_hosted_limits) (\<lambda>hosted.
       if \<not> hosted \<or> userId = None then work
       else transaction (bind advisory_lock (\<lambda>_. work)))"

section \<open>Notices\<close>

fun quota_notification_reason :: "limit_code \<Rightarrow> quota_notice option" where
  "quota_notification_reason MonthlyEmailLimit = Some MonthlyEmailLimitNotice"
| "quota_notification_reason StorageLimit = Some StorageLimitNotice"
| "quota_notification_reason SubscriptionInactive = Some SubscriptionInactiveNotice"
| "quota_notification_reason _ = None"

definition is_quota_notification_reason :: "limit_code \<Rightarrow> bool" where
  "is_quota_notification_reason c = (quota_notification_reason c \<noteq> None)"

definition private_message :: "bigint \<Rightarrow> string \<Rightarrow> tg_request" where
  "private_message userId text = SendMessage \<lparr> tgt_chat = userId, tgt_thread = None \<rparr> (Some ''HTML'') text"

definition swallow :: "unit io \<Rightarrow> unit io" where
  "swallow m = catch m (\<lambda>_. ret ())"

definition notify_quota_exhausted :: "bool \<Rightarrow> bigint \<Rightarrow> quota_notice \<Rightarrow> string \<Rightarrow> unit io" where
  "notify_quota_exhausted api userId reason month = swallow (
     if \<not> api then ret ()
     else bind (claim_quota_notification userId reason month) (\<lambda>won.
       if \<not> won then ret ()
       else bind (find_user_by_id userId) (\<lambda>user.
         case user of
           None \<Rightarrow> ret ()
         | Some u \<Rightarrow>
             bind (get_effective_plan u) (\<lambda>plan.
             bind (bind (ask (\<lambda>e. quota_text e (u_locale u) reason plan 0)) of_result) (\<lambda>text.
             bind (call_telegram (private_message userId text)) (\<lambda>_. ret ()))))))"

text \<open>\<open>Math.ceil(limit * 0.8)\<close>: the double nearest to 0.8 exceeds it by less than one part in
  10 to the 16, so for limits below 10 to the 14 the rounded product has the ceiling of 4 limit / 5.\<close>

definition approaching_threshold :: "int \<Rightarrow> int" where
  "approaching_threshold limit = (4 * limit + 4) div 5"

definition notify_approaching_monthly_limit :: "bool \<Rightarrow> bigint \<Rightarrow> string \<Rightarrow> int \<Rightarrow> unit io" where
  "notify_approaching_monthly_limit api userId month deliveredCount = swallow (
     bind (ask should_enforce_hosted_limits) (\<lambda>hosted.
       if \<not> api \<or> \<not> hosted then ret ()
       else bind (find_user_by_id userId) (\<lambda>user.
         case user of
           None \<Rightarrow> ret ()
         | Some u \<Rightarrow>
             bind (get_effective_plan u) (\<lambda>plan.
               let limit = lim_deliveredEmailsMonth (pl_limits plan); used = deliveredCount;
                   threshold = approaching_threshold limit
               in if used < threshold \<or> limit \<le> used then ret ()
                  else bind (claim_quota_notification userId ApproachingLimitNotice month) (\<lambda>won.
                    if \<not> won then ret ()
                    else bind (bind (ask (\<lambda>e. quota_text e (u_locale u) ApproachingLimitNotice plan used)) of_result) (\<lambda>text.
                         bind (call_telegram (private_message userId text)) (\<lambda>_. ret ())))))))"

section \<open>What the checks establish\<close>

lemma user_by_id_Some: "user_by_id i d = Some u \<Longrightarrow> u_id u = i \<and> u \<in> set (users d)"
  by (auto simp: user_by_id_def dest: select_first_Some)

lemma quiet_limits [quiet_rules]:
  "quiet (find_user_by_id i)" "quiet (get_effective_plan u)" "quiet (resolve_inbound_plan v)"
  "quiet (check_inbound_limit_for_plan p sz delta month)" "quiet (check_inbound_limit v sz delta month)"
  "quiet (check_egress_limit v b month)" "quiet (check_alias_create_limit v)" "quiet (check_allow_rule_create_limit v)"
  unfolding find_user_by_id_def get_effective_plan_def resolve_inbound_plan_def check_inbound_limit_for_plan_def
    check_inbound_limit_def check_egress_limit_def check_alias_create_limit_def check_allow_rule_create_limit_def
  by (intro quiet_rules)+

lemma effective_plan_Inr:
  "get_effective_plan u e w = (Inr p, w') \<Longrightarrow> p = effective_plan_at (plan_table e) (clock e (w_tick w)) u"
  by (simp add: get_effective_plan_def run_simps)

lemma resolve_inbound_planD:
  assumes "resolve_inbound_plan (Some i) e w = (Inr p, w')"
  shows "ip_hosted p = should_enforce_hosted_limits e"
    and "ip_hosted p \<Longrightarrow> ip_user p = user_by_id i (w_db w)"
    and "ip_hosted p \<Longrightarrow> ip_user p = Some u \<Longrightarrow> \<exists>t. ip_plan p = effective_plan_at (plan_table e) t u"
  using assms
  by (auto simp: resolve_inbound_plan_def find_user_by_id_def run_simps get_effective_plan_def split: if_splits option.splits)

lemma inbound_limit_okD:
  assumes "check_inbound_limit_for_plan p (Some sz) (Some delta) month e w = (Inr LimitOk, w')" and "ip_hosted p"
  shows "\<exists>u. ip_user p = Some u \<and> sz \<le> lim_maxMessageBytes (pl_limits (ip_plan p)) \<and>
     (0 < delta \<longrightarrow> storage_total (get_user_storage_usage (u_id u) (w_db w)) + delta \<le> lim_storageBytes (pl_limits (ip_plan p))) \<and>
     delivered_count (w_db w) (u_id u, month) < lim_deliveredEmailsMonth (pl_limits (ip_plan p))"
  using assms
  by (auto simp: check_inbound_limit_for_plan_def run_simps Let_def delivered_count_def split: option.splits if_splits)

lemma inbound_limit_self_hosted:
  "\<not> ip_hosted p \<Longrightarrow> check_inbound_limit_for_plan p sz delta month = ret LimitOk"
  by (simp add: check_inbound_limit_for_plan_def)

text \<open>The plan in force is the free plan or the user's own plan, and it is not the user's own once the
  subscription is over: seven days after the paid period of a past-due subscription at the latest,
  at once in every other lapsed state; business users keep theirs.\<close>

theorem effective_plan_follows_subscription:
  "effective_plan_at plans t u =
     (if u_planCode u = Business \<or>
         u_subscriptionStatus u \<in> {Trialing, SubActive} \<or>
         (u_subscriptionStatus u = PastDue \<and>
          (case u_paidThroughAt u of None \<Rightarrow> False | Some p \<Rightarrow> t \<le> p + 7 * 86400000))
      then plans (u_planCode u) else plans Free)"
  by (cases "u_subscriptionStatus u")
    (auto simp: effective_plan_at_def get_plan_definition_def past_due_grace_ms_def split: option.splits)

text \<open>A notice leaves only after its claim was won; the claim table makes it unique.\<close>

lemma claim_quota_Inr:
  assumes "claim_quota_notification u r m e w = (Inr won, w')"
  shows "won = (\<not> quota_claimed (w_db w) (u, r, m)) \<and> quota_claimed (w_db w') (u, r, m) \<and> w_trace w' = w_trace w"
  using assms quota_claims.claim_won quota_claims.claim_marks
  by (auto simp: claim_quota_notification_def run_simps) (metis fst_conv snd_conv)+

definition sends_only_claimed :: "bigint \<times> quota_notice \<times> string \<Rightarrow> unit io \<Rightarrow> bool" where
  "sends_only_claimed k m \<longleftrightarrow> (\<forall>e w. w_trace (snd (m e w)) \<noteq> w_trace w \<longrightarrow>
     \<not> quota_claimed (w_db w) k \<and> quota_claimed (w_db (snd (m e w))) k)"

lemma swallow_world: "snd (swallow m e w) = snd (m e w)"
  by (auto simp: swallow_def catch_def ret_def split: prod.splits sum.splits)

lemma swallow_returns: "fst (swallow m e w) = Inr ()"
  by (auto simp: swallow_def catch_def ret_def split: prod.splits sum.splits)

lemma sends_swallow: "sends_only_claimed k m \<Longrightarrow> sends_only_claimed k (swallow m)"
  by (simp add: sends_only_claimed_def swallow_world)

lemma sends_silent: "(\<And>e w. w_trace (snd (m e w)) = w_trace w) \<Longrightarrow> sends_only_claimed k m"
  by (simp add: sends_only_claimed_def)

lemma sends_after_quiet:
  assumes "quiet m" and "\<And>e w. w_trace (snd (m e w)) = w_trace w" and "\<And>a. sends_only_claimed k (f a)"
  shows "sends_only_claimed k (bind m f)"
  unfolding sends_only_claimed_def
proof (intro allI impI)
  fix e w
  assume tr: "w_trace (snd (bind m f e w)) \<noteq> w_trace w"
  obtain r w1 where m: "m e w = (r, w1)" by fastforce
  show "\<not> quota_claimed (w_db w) k \<and> quota_claimed (w_db (snd (bind m f e w))) k"
  proof (cases r)
    case (Inl x)
    with tr m assms(2) [of e w] show ?thesis by (simp add: bind_def)
  next
    case (Inr a)
    with m quietD [OF assms(1)] have same: "w_db w1 = w_db w" "w_trace w1 = w_trace w" by auto
    have run: "bind m f e w = f a e w1" using m Inr by (simp add: bind_def)
    then have "w_trace (snd (f a e w1)) \<noteq> w_trace w1" using tr same by simp
    then have "\<not> quota_claimed (w_db w1) k \<and> quota_claimed (w_db (snd (f a e w1))) k"
      using assms(3) [of a] unfolding sends_only_claimed_def by blast
    then show ?thesis unfolding run same(1) .
  qed
qed

lemma sends_after_claim:
  assumes "\<And>e w. w_db (snd (g e w)) = w_db w"
  shows "sends_only_claimed (u, r, m) (bind (claim_quota_notification u r m) (\<lambda>won. if \<not> won then ret () else g))"
  unfolding sends_only_claimed_def
proof (intro allI impI)
  fix e w
  let ?c = "bind (claim_quota_notification u r m) (\<lambda>won. if \<not> won then ret () else g)"
  assume tr: "w_trace (snd (?c e w)) \<noteq> w_trace w"
  obtain res w1 where c: "claim_quota_notification u r m e w = (res, w1)" by fastforce
  have quiet_trace: "w_trace w1 = w_trace w"
    using c by (metis claim_quota_notification_def db_stmt_trace snd_conv)
  show "\<not> quota_claimed (w_db w) (u, r, m) \<and> quota_claimed (w_db (snd (?c e w))) (u, r, m)"
  proof (cases res)
    case (Inl x)
    with tr c quiet_trace show ?thesis by (simp add: bind_def)
  next
    case (Inr won)
    with c have f: "won = (\<not> quota_claimed (w_db w) (u, r, m))" "quota_claimed (w_db w1) (u, r, m)"
      using claim_quota_Inr by blast+
    have "won"
    proof (rule ccontr)
      assume "\<not> won"
      with c Inr have "?c e w = (Inr (), w1)" by (simp add: bind_def ret_def)
      with tr quiet_trace show False by simp
    qed
    with f c Inr assms [of e w1] show ?thesis by (simp add: bind_def)
  qed
qed

lemma sends_if: "(b \<Longrightarrow> sends_only_claimed k m) \<Longrightarrow> (\<not> b \<Longrightarrow> sends_only_claimed k n) \<Longrightarrow> sends_only_claimed k (if b then m else n)"
  by simp

lemma sends_case_option:
  "sends_only_claimed k m \<Longrightarrow> (\<And>x. sends_only_claimed k (f x)) \<Longrightarrow>
   sends_only_claimed k (case v of None \<Rightarrow> m | Some x \<Rightarrow> f x)"
  by (cases v) auto

lemma same_trace_db_read: "w_trace (snd (db_read f e w)) = w_trace w"
  by (simp add: db_read_def)

lemma same_trace_now: "w_trace (snd (now e w)) = w_trace w"
  by (simp add: now_def at_tick_def)

lemma same_trace_effective: "w_trace (snd (get_effective_plan u e w)) = w_trace w"
  by (simp add: get_effective_plan_def bind_def now_def at_tick_def ask_def)

lemma notice_body_keeps_db:
  "w_db (snd (bind (find_user_by_id i) (\<lambda>user. case user of None \<Rightarrow> ret ()
      | Some u \<Rightarrow> bind (get_effective_plan u) (\<lambda>plan. bind (bind (ask (\<lambda>e. q e u plan)) of_result) (\<lambda>text.
          bind (call_telegram (private_message j text)) (\<lambda>_. ret ())))) e w)) = w_db w"
  "w_db (snd (bind (bind (ask (\<lambda>e. r e)) of_result) (\<lambda>text. bind (call_telegram (private_message j text)) (\<lambda>_. ret ())) e w)) = w_db w"
  by (auto simp: bind_def find_user_by_id_def db_read_def db_stmt_def ret_def ask_def of_result_def call_telegram_def
      emit_def at_tick_def get_effective_plan_def now_def Let_def
      split: prod.splits sum.splits option.splits fault.splits)

text \<open>A quota notice is sent at most once per user, reason and month: a call that puts anything on the
  wire found the claim row free and leaves it taken, so every later call for the same user, reason
  and month sends nothing.  This holds for the exhaustion notices and for the early warning, under
  every pattern of database and Telegram failures.\<close>

theorem quota_notice_at_most_once:
  "sends_only_claimed (u, r, m) (notify_quota_exhausted api u r m) \<and>
   sends_only_claimed (u, ApproachingLimitNotice, m) (notify_approaching_monthly_limit api u m n)"
proof
  show "sends_only_claimed (u, r, m) (notify_quota_exhausted api u r m)"
    unfolding notify_quota_exhausted_def
    by (intro sends_swallow sends_if sends_after_claim sends_silent) (simp_all add: notice_body_keeps_db ret_def)
  show "sends_only_claimed (u, ApproachingLimitNotice, m) (notify_approaching_monthly_limit api u m n)"
    unfolding notify_approaching_monthly_limit_def Let_def find_user_by_id_def
    by (intro sends_swallow sends_if sends_after_claim sends_silent sends_after_quiet sends_case_option quiet_rules)
      (simp_all add: notice_body_keeps_db ret_def same_trace_db_read same_trace_effective ask_def)
qed

end
