(* ===== verification/MailParser.thy ===== *)
theory MailParser
  imports Effects
begin

text \<open>
  From raw bytes to the parsed email (\<open>src/email/parser.ts\<close>), its cleaned body
  (\<open>src/email/cleaner.ts\<close>), the display form of its From addresses
  (\<open>src/email/addressDisplay.ts\<close>) and the envelope sender (\<open>src/email/envelopeSender.ts\<close>).
  \<open>simpleParser\<close> and the IDNA functions of \<open>node:url\<close> are fields of the environment.
\<close>

section \<open>Address display\<close>

text \<open>NFKC maps no Latin-1 character to one of these, so the test may look at the name itself.\<close>

definition name_needs_quotes :: "string \<Rightarrow> bool" where
  "name_needs_quotes n = list_ex (\<lambda>c. c \<in> set ''<>@,;:'') n"

definition quoted :: "string \<Rightarrow> string" where
  "quoted n = [CHR 0x22] @ concat (map (\<lambda>c. if c = CHR 0x5C \<or> c = CHR 0x22 then [CHR 0x5C, c] else [c]) n) @ [CHR 0x22]"

definition display_name :: "string \<Rightarrow> string" where
  "display_name n = (if name_needs_quotes n then quoted n else n)"

fun format_entry :: "mail_address \<Rightarrow> string" where
  "format_entry (MailGroup nm members) =
     (let name = js_trim (or_else nm []);
          ms = js_join '', '' (filter (\<lambda>x. x \<noteq> []) (map format_entry members))
      in if name = [] then ms
         else display_name name @ '':'' @ (if ms \<noteq> [] then '' '' @ ms else []) @ '';'')"
| "format_entry (MailAddress nm adr) =
     (let name = js_trim (or_else nm []); address = js_trim (or_else adr [])
      in if name = [] \<or> js_lower name = js_lower address then address
         else if address \<noteq> [] then display_name name @ '' <'' @ address @ ''>'' else quoted name)"

definition format_list :: "mail_address list \<Rightarrow> string" where
  "format_list l = js_join '', '' (filter (\<lambda>x. x \<noteq> []) (map format_entry l))"

definition format_address_display :: "mail_address list \<Rightarrow> string option" where
  "format_address_display l = (let t = format_list l in if t = [] then None else Some t)"

text \<open>The domain of a mailbox.  \<open>closing_quote i s\<close> scans \<open>s\<close>, the address from index \<open>i\<close> on.\<close>

fun closing_quote :: "nat \<Rightarrow> string \<Rightarrow> nat option" where
  "closing_quote i [] = None"
| "closing_quote i [c] = (if c = CHR 0x22 then Some i else None)"
| "closing_quote i (c # d # cs) =
     (if c = CHR 0x5C then closing_quote (i + 2) cs
      else if c = CHR 0x22 then Some i else closing_quote (i + 1) (d # cs))"

fun index_of :: "char \<Rightarrow> nat \<Rightarrow> string \<Rightarrow> nat option" where
  "index_of c i [] = None"
| "index_of c i (x # xs) = (if x = c then Some i else index_of c (i + 1) xs)"

text \<open>\<open>localEnd\<close>: one past the closing quote of a quoted local part, else the first at sign;
  None where the code has a number that is not positive.\<close>

definition local_end :: "string \<Rightarrow> nat option" where
  "local_end address =
     (if js_starts_with address [CHR 0x22]
      then (case closing_quote 1 (drop 1 address) of None \<Rightarrow> None | Some q \<Rightarrow> Some (q + 1))
      else (case index_of (CHR ''@'') 0 address of None \<Rightarrow> None | Some i \<Rightarrow> if i = 0 then None else Some i))"

definition domain_part :: "string \<Rightarrow> string option" where
  "domain_part address =
     (case local_end address of
        None \<Rightarrow> None
      | Some i \<Rightarrow>
          (if js_nth address i \<noteq> Some (CHR ''@'') then None
           else (let domain = drop (i + 1) address in if js_includes domain ''@'' then None else Some domain)))"

text \<open>\<open>HIDDEN_CHARACTER\<close> below 256: the controls, the blanks and the soft hyphen.\<close>

definition hidden_character :: "char \<Rightarrow> bool" where
  "hidden_character c = (let n = char_code c in n \<le> 32 \<or> (127 \<le> n \<and> n \<le> 160) \<or> n = 173)"

definition ldh_char :: "char \<Rightarrow> bool" where
  "ldh_char c = (let n = char_code c in (97 \<le> n \<and> n \<le> 122) \<or> (48 \<le> n \<and> n \<le> 57) \<or> n = 45)"

definition ldh_label :: "string \<Rightarrow> bool" where
  "ldh_label l \<longleftrightarrow> 1 \<le> length l \<and> length l \<le> 63 \<and> list_all ldh_char l \<and> hd l \<noteq> CHR ''-'' \<and> last l \<noteq> CHR ''-''"

definition max_domain_length :: nat where "max_domain_length = 253"

definition mailbox_domain_for_display :: "env \<Rightarrow> string \<Rightarrow> string option" where
  "mailbox_domain_for_display e address =
     (case domain_part (js_lower address) of
        None \<Rightarrow> None
      | Some domain \<Rightarrow>
          (if domain = [] \<or> list_ex hidden_character domain then None
           else (let ascii = domain_to_ascii e domain
                 in if domain \<noteq> ascii \<and> domain \<noteq> domain_to_unicode e ascii then None
                    else (let labels = js_split (CHR ''.'') ascii;
                              tld = last labels
                          in if length ascii \<le> max_domain_length \<and> 2 \<le> length labels \<and> list_all ldh_label labels \<and>
                                tld \<noteq> [] \<and> 97 \<le> char_code (hd tld) \<and> char_code (hd tld) \<le> 122
                             then Some domain else None))))"

section \<open>Parsed emails\<close>

record parsed_attachment =
  pa_filename :: string
  pa_contentType :: string
  pa_sizeBytes :: int
  pa_content :: bytes
  pa_sha256 :: string

record parsed_email =
  pe_messageId :: "string option"
  pe_subject :: "string option"
  pe_envelopeFrom :: "string option"
  pe_headerFrom :: "string option"
  pe_headerFromDisplay :: "string option"
  pe_headerFromEmail :: "string option"
  pe_headerFromDomain :: "string option"
  pe_textBody :: "string option"
  pe_htmlBody :: "string option"
  pe_bodySha256 :: "string option"
  pe_attachments :: "parsed_attachment list"
  pe_rawSizeBytes :: int

definition at_domain :: "string \<Rightarrow> string option" where
  "at_domain s = js_nth (js_split (CHR ''@'') s) 1"

definition parsed_of_mail :: "env \<Rightarrow> mail \<Rightarrow> int \<Rightarrow> parsed_email" where
  "parsed_of_mail e m rawSizeBytes =
     (let headerFromEmail = (case ml_from m of
             Some ([a], t) \<Rightarrow> map_option js_lower (address_of a) | _ \<Rightarrow> None);
          textBody = ml_text m;
          htmlBody = (if truthy (ml_html m) then ml_html m else None);
          bodyContent = (case textBody of Some t \<Rightarrow> Some t | None \<Rightarrow> htmlBody)
      in \<lparr> pe_messageId = ml_messageId m,
           pe_subject = ml_subject m,
           pe_envelopeFrom = (case ml_from m of Some (a # as, t) \<Rightarrow> address_of a | _ \<Rightarrow> None),
           pe_headerFrom = map_option snd (ml_from m),
           pe_headerFromDisplay = (case ml_from m of None \<Rightarrow> None | Some (as, t) \<Rightarrow> format_address_display as),
           pe_headerFromEmail = headerFromEmail,
           pe_headerFromDomain = (case headerFromEmail of None \<Rightarrow> None | Some a \<Rightarrow> at_domain a),
           pe_textBody = textBody,
           pe_htmlBody = htmlBody,
           pe_bodySha256 = (if truthy bodyContent then Some (sha256 e (the bodyContent)) else None),
           pe_attachments = map (\<lambda>a. \<lparr> pa_filename = or_else (ma_filename a) ''attachment'', pa_contentType = ma_contentType a,
               pa_sizeBytes = or_else (ma_size a) (int (length (ma_content a))), pa_content = ma_content a,
               pa_sha256 = sha256 e (ma_content a) \<rparr>) (ml_attachments m),
           pe_rawSizeBytes = rawSizeBytes \<rparr>)"

definition parse_email :: "bytes \<Rightarrow> int \<Rightarrow> parsed_email io" where
  "parse_email raw rawSizeBytes =
     bind (ask (\<lambda>e. map_sum id (\<lambda>m. parsed_of_mail e m rawSizeBytes) (parse_mail e raw))) of_result"

definition normalize_envelope_sender :: "string option \<Rightarrow> string option" where
  "normalize_envelope_sender v =
     (let sender = map_option js_trim v in if truthy sender then sender else None)"

section \<open>Cleaning a body\<close>

definition newline :: char where "newline = CHR 0x0A"
definition carriage_return :: char where "carriage_return = CHR 0x0D"

text \<open>The text before the first position at which a pattern that runs to the end of the text
  matches.\<close>

fun cut_at :: "(string \<Rightarrow> bool) \<Rightarrow> string \<Rightarrow> string" where
  "cut_at p [] = []"
| "cut_at p (c # cs) = (if p (c # cs) then [] else c # cut_at p cs)"

definition skip_char :: "char \<Rightarrow> string \<Rightarrow> string" where
  "skip_char c s = (if js_starts_with s [c] then drop 1 s else s)"

definition signature_here :: "string \<Rightarrow> bool" where
  "signature_here s \<longleftrightarrow> js_starts_with s (newline # ''--'') \<and>
     js_starts_with (skip_char carriage_return (skip_char (CHR '' '') (drop 3 s))) [newline]"

definition wrote_here :: "string \<Rightarrow> bool" where
  "wrote_here s \<longleftrightarrow> js_starts_with s ''wrote:'' \<and>
     js_starts_with (skip_char carriage_return (dropWhile (\<lambda>c. c = CHR '' '' \<or> c = CHR 0x09) (drop 6 s))) [newline]"

definition attribution_here :: "string \<Rightarrow> bool" where
  "attribution_here s \<longleftrightarrow> js_starts_with s (newline # ''On '') \<and>
     list_ex (\<lambda>k. wrote_here (drop (4 + k) s)) [0..<201]"

definition unquote_lines :: "string \<Rightarrow> string" where
  "unquote_lines s = js_join [newline] (filter (\<lambda>l. \<not> js_starts_with l ''>'') (js_split newline s))"

definition clean_email_body :: "string \<Rightarrow> string" where
  "clean_email_body text =
     (if text = [] then text
      else js_trim (unquote_lines (cut_at attribution_here (cut_at signature_here text))))"

section \<open>Properties\<close>

lemma cut_at_none: "(\<And>a b. s = a @ b \<Longrightarrow> b \<noteq> [] \<Longrightarrow> \<not> p b) \<Longrightarrow> cut_at p s = s"
proof (induction s)
  case (Cons c s)
  have "\<not> p (c # s)" using Cons.prems [of "[]" "c # s"] by simp
  moreover have "cut_at p s = s" by (rule Cons.IH) (use Cons.prems [of "c # _"] in auto)
  ultimately show ?case by simp
qed simp

lemma cut_at_prefix: "\<exists>r. s = cut_at p s @ r"
  by (induction s) auto

lemma cut_at_tail:
  assumes "\<And>a b. x = a @ b \<Longrightarrow> p (b @ m @ r) = p (b @ m @ r')" and "p (m @ r)" and "m \<noteq> []"
  shows "cut_at p (x @ m @ r) = cut_at p (x @ m @ r')"
  using assms(1)
proof (induction x)
  case Nil
  then have "p (m @ r')" using assms(2) by force
  with assms(2,3) show ?case by (cases m) auto
next
  case (Cons c x)
  have "p ((c # x) @ m @ r) = p ((c # x) @ m @ r')" using Cons.prems [of "[]" "c # x"] by simp
  moreover have "cut_at p (x @ m @ r) = cut_at p (x @ m @ r')"
    by (rule Cons.IH) (use Cons.prems [of "c # _"] in auto)
  ultimately show ?case by simp
qed

lemma starts_with_take: "length q \<le> n \<Longrightarrow> js_starts_with (take n s) q = js_starts_with s q"
proof (induction q arbitrary: n s)
  case (Cons c q)
  then show ?case by (cases s; cases n) auto
qed simp

lemma skip_char_take: "skip_char c (take (Suc n) s) = take (if js_starts_with s [c] then n else Suc n) (skip_char c s)"
  by (cases s) (auto simp: skip_char_def)

lemma signature_here_local: "signature_here (take 6 s) = signature_here s"
proof -
  have "drop 3 (take 6 s) = take 3 (drop 3 s)" by (simp add: take_drop [symmetric] drop_take)
  moreover have "js_starts_with (skip_char carriage_return (skip_char (CHR '' '') (take 3 t))) [newline] =
      js_starts_with (skip_char carriage_return (skip_char (CHR '' '') t)) [newline]" for t
    by (cases t; cases "tl t"; cases "tl (tl t)") (auto simp: skip_char_def)
  ultimately show ?thesis using starts_with_take [of "newline # ''--''" 6 s] by (simp add: signature_here_def)
qed

text \<open>Nothing of a signature survives: what follows a signature delimiter line (\<open>-- \<close>) has no influence
  on the cleaned body.\<close>

theorem signature_dropped:
  "clean_email_body (body @ newline # ''-- '' @ newline # signature) =
   clean_email_body (body @ newline # ''-- '' @ newline # signature')"
proof -
  let ?m = "newline # ''-- '' @ [newline]"
  have "cut_at signature_here (body @ ?m @ signature) = cut_at signature_here (body @ ?m @ signature')"
  proof (rule cut_at_tail)
    fix a b assume "body = a @ b"
    show "signature_here (b @ ?m @ signature) = signature_here (b @ ?m @ signature')"
    proof (cases b)
      case Nil
      then show ?thesis by (simp add: signature_here_def skip_char_def newline_def carriage_return_def)
    next
      case (Cons c cs)
      have t: "take 6 (b @ m @ r) = take 6 (b @ m)" if "length m = 5" for m r :: string
        using that Cons by simp
      have "length ?m = 5" by simp
      then have "take 6 (b @ ?m @ signature) = take 6 (b @ ?m @ signature')" by (simp only: t)
      then show ?thesis by (metis signature_here_local)
    qed
  qed (simp_all add: signature_here_def skip_char_def newline_def carriage_return_def)
  then show ?thesis by (simp add: clean_email_body_def)
qed

lemma unquote_lines_plain:
  "(\<And>l. l \<in> set (js_split newline s) \<Longrightarrow> \<not> js_starts_with l ''>'') \<Longrightarrow> unquote_lines s = s"
  by (simp add: unquote_lines_def filter_id_conv js_join_split)

lemma index_of_spec:
  "index_of c i s = Some k \<Longrightarrow> \<exists>a b. s = a @ c # b \<and> c \<notin> set a \<and> k = i + length a"
proof (induction s arbitrary: i)
  case (Cons x s)
  show ?case
  proof (cases "x = c")
    case False
    with Cons obtain a b where "s = a @ c # b" "c \<notin> set a" "k = i + 1 + length a" by fastforce
    with False show ?thesis by (intro exI [of _ "x # a"] exI [of _ b]) auto
  qed (use Cons.prems in auto)
qed simp

lemma includes_char: "js_includes s [c] \<longleftrightarrow> c \<in> set s"
  by (induction s) auto

lemma domain_part_Some:
  assumes "domain_part a = Some d"
  shows "\<exists>l. a = l @ CHR ''@'' # d \<and> CHR ''@'' \<notin> set d \<and> (CHR ''@'' \<in> set l \<longrightarrow> js_starts_with a [CHR 0x22])"
proof -
  obtain i where i: "local_end a = Some i" "js_nth a i = Some (CHR ''@'')" "d = drop (i + 1) a" "CHR ''@'' \<notin> set d"
    using assms by (auto simp: domain_part_def includes_char Let_def split: option.splits if_splits)
  have lt: "i < length a" and at: "a ! i = CHR ''@''" using i(2) by (auto simp: js_nth_def split: if_splits)
  have a: "a = take i a @ CHR ''@'' # d" using id_take_nth_drop [OF lt] at i(3) by simp
  have "CHR ''@'' \<notin> set (take i a)" if "\<not> js_starts_with a [CHR 0x22]"
  proof -
    have "index_of (CHR ''@'') 0 a = Some i"
      using i(1) that by (auto simp: local_end_def split: option.splits if_splits)
    then obtain x y where "a = x @ CHR ''@'' # y" "CHR ''@'' \<notin> set x" "i = length x"
      using index_of_spec by fastforce
    then show ?thesis by simp
  qed
  with a i(4) show ?thesis by blast
qed

text \<open>The sender domain a privacy alert shows is the domain of a well-formed mailbox: the address is that
  domain after an at sign, the domain itself holds no at sign and no control, blank or soft-hyphen
  character, and a further at sign can only be inside a quoted local part
  (so \<open>a@evil.com@bank.com\<close> shows nothing).\<close>

theorem shown_domain_is_mailbox_domain:
  assumes "mailbox_domain_for_display e address = Some d"
  shows "\<exists>l. js_lower address = l @ CHR ''@'' # d \<and> CHR ''@'' \<notin> set d \<and>
           (CHR ''@'' \<in> set l \<longrightarrow> js_starts_with address [CHR 0x22]) \<and>
           (\<forall>c\<in>set d. \<not> hidden_character c)"
proof -
  have d: "domain_part (js_lower address) = Some d" and h: "\<not> list_ex hidden_character d"
    using assms by (auto simp: mailbox_domain_for_display_def Let_def split: option.splits if_splits)
  have "js_starts_with (js_lower address) [CHR 0x22] = js_starts_with address [CHR 0x22]"
    using js_lower_char_below [of "CHR 0x22"] by (cases address) (auto simp: js_lower_def char_code_def)
  with domain_part_Some [OF d] h show ?thesis by (auto simp: list_ex_iff)
qed

lemma shown_domain_is_mailbox_domain_witness:
  "mailbox_domain_for_display calm_env ''a@evil.com@bank.com'' = None \<and>
   (\<exists>l. js_lower ''Alice@Bank.com'' = l @ CHR ''@'' # ''bank.com'' \<and> CHR ''@'' \<notin> set ''bank.com'' \<and>
      (CHR ''@'' \<in> set l \<longrightarrow> js_starts_with ''Alice@Bank.com'' [CHR 0x22]) \<and>
      (\<forall>c\<in>set ''bank.com''. \<not> hidden_character c))"
proof
  show "mailbox_domain_for_display calm_env ''a@evil.com@bank.com'' = None" by code_simp
  show "\<exists>l. js_lower ''Alice@Bank.com'' = l @ CHR ''@'' # ''bank.com'' \<and> CHR ''@'' \<notin> set ''bank.com'' \<and>
      (CHR ''@'' \<in> set l \<longrightarrow> js_starts_with ''Alice@Bank.com'' [CHR 0x22]) \<and>
      (\<forall>c\<in>set ''bank.com''. \<not> hidden_character c)"
  proof (rule shown_domain_is_mailbox_domain)
    show "mailbox_domain_for_display calm_env ''Alice@Bank.com'' = Some ''bank.com''" by code_simp
  qed
qed

end
