(* ===== verification/SenderRules.thy ===== *)
theory SenderRules
  imports MailParser
begin

text \<open>
  Who may write to an alias: the allow rules (\<open>src/email/allowRuleEvaluator.ts\<close>) over the
  authenticated identity of the sender (\<open>src/email/authenticateSender.ts\<close>).  The verdicts of
  \<open>mailauth\<close> (DKIM, DMARC) are a field of the environment.
\<close>

section \<open>The authenticated identity\<close>

datatype auth_status = AuthPass | AuthFail | AuthTemperror | AuthPermerror

record sender_auth =
  sa_headerFromEmail :: "string option"
  sa_headerFromDomain :: "string option"
  sa_dkimPassDomains :: "string list"
  sa_dmarcPass :: bool
  sa_authenticatedDomains :: "string list"
  sa_status :: auth_status
  sa_reason :: string

definition normalize_email :: "string option \<Rightarrow> string option" where
  "normalize_email v =
     (let normalized = map_option (\<lambda>s. js_lower (js_trim s)) v
      in if truthy normalized \<and> js_includes (the normalized) ''@'' then normalized else None)"

definition normalize_domain :: "string option \<Rightarrow> string option" where
  "normalize_domain v =
     (let normalized = map_option (\<lambda>s. js_lower (js_trim s)) v in if truthy normalized then normalized else None)"

definition domain_from_email :: "string option \<Rightarrow> string option" where
  "domain_from_email v = (case v of None \<Rightarrow> None | Some s \<Rightarrow> at_domain s)"

definition is_temp_auth_result :: "string \<Rightarrow> bool" where
  "is_temp_auth_result v = (v = ''temperror'' \<or> v = ''temperr'')"

definition refused_auth :: "string option \<Rightarrow> string option \<Rightarrow> auth_status \<Rightarrow> string \<Rightarrow> sender_auth" where
  "refused_auth email domain st reason =
     \<lparr> sa_headerFromEmail = email, sa_headerFromDomain = domain, sa_dkimPassDomains = [], sa_dmarcPass = False,
       sa_authenticatedDomains = [], sa_status = st, sa_reason = reason \<rparr>"

text \<open>Lines 67 to 120: the verdicts on an email with one valid From address.\<close>

definition dmarc_pass :: "mailauth_result \<Rightarrow> bool" where
  "dmarc_pass r = (mr_dmarc r = Some ''pass'')"

definition dmarc_temp_error :: "mailauth_result \<Rightarrow> bool" where
  "dmarc_temp_error r = (case mr_dmarc r of None \<Rightarrow> False | Some v \<Rightarrow> is_temp_auth_result v)"

definition aligned_dkim_pass :: "mailauth_result \<Rightarrow> bool" where
  "aligned_dkim_pass r = list_ex (\<lambda>row. dk_result row = ''pass'' \<and> truthy (dk_aligned row)) (mr_dkim r)"

definition judge_sender :: "string \<Rightarrow> string \<Rightarrow> mailauth_result \<Rightarrow> sender_auth" where
  "judge_sender email domain r =
     (let dkimPassDomains = filter (\<lambda>s. s \<noteq> []) (List.map_filter (\<lambda>row. map_option js_lower (dk_signingDomain row))
              (filter (\<lambda>row. dk_result row = ''pass'') (mr_dkim r)));
          hasTempError = (list_ex (\<lambda>row. is_temp_auth_result (dk_result row)) (mr_dkim r) \<or> dmarc_temp_error r);
          authenticated = (dmarc_pass r \<or> (aligned_dkim_pass r \<and> \<not> dmarc_temp_error r));
          auth = \<lparr> sa_headerFromEmail = Some email, sa_headerFromDomain = Some domain,
                   sa_dkimPassDomains = dkimPassDomains, sa_dmarcPass = dmarc_pass r, sa_authenticatedDomains = [],
                   sa_status = AuthFail, sa_reason = ''sender_auth_failed'' \<rparr>
      in if authenticated
         then auth\<lparr> sa_authenticatedDomains := [domain], sa_status := AuthPass, sa_reason := ''authenticated'' \<rparr>
         else if hasTempError
         then auth\<lparr> sa_status := AuthTemperror, sa_reason := ''sender_auth_temperror'' \<rparr>
         else auth)"

definition authenticate_sender :: "bytes \<Rightarrow> string option \<Rightarrow> sender_auth io" where
  "authenticate_sender rawEmail envelopeFrom =
     bind (bind (ask (\<lambda>e. parse_mail e rawEmail)) of_result) (\<lambda>parsed.
       let fromValues = (case ml_from parsed of None \<Rightarrow> [] | Some (v, t) \<Rightarrow> v)
       in if length fromValues \<noteq> 1
          then ret (refused_auth None None AuthPermerror
                 (if fromValues = [] then ''header_from_missing'' else ''header_from_multiple''))
          else (let headerFromEmail = normalize_email (address_of (hd fromValues));
                    headerFromDomain = domain_from_email headerFromEmail
                in if \<not> truthy headerFromEmail \<or> \<not> truthy headerFromDomain
                   then ret (refused_auth headerFromEmail headerFromDomain AuthPermerror ''header_from_invalid'')
                   else bind (at_tick (\<lambda>e t. mailauth e t rawEmail envelopeFrom)) (\<lambda>res.
                     case res of
                       Inl err \<Rightarrow> bind (ask (\<lambda>e. error_message e err)) (\<lambda>m.
                           ret (refused_auth headerFromEmail headerFromDomain AuthTemperror m))
                     | Inr r \<Rightarrow> ret (judge_sender (the headerFromEmail) (the headerFromDomain) r))))"

section \<open>Allow rules\<close>

datatype allow_match_type = ExactEmail | DomainMatch

datatype allow_reason = SenderNotAllowed | SenderAuthFailed | SenderAuthTemperror

text \<open>\<open>AllowEvaluationResult\<close>: allowed, or the reason why not.\<close>

datatype allow_evaluation = Allowed | NotAllowed allow_reason

definition normalize_match_type :: "string \<Rightarrow> allow_match_type option" where
  "normalize_match_type v =
     (if v = ''exact_email'' then Some ExactEmail else if v = ''domain'' then Some DomainMatch else None)"

definition matches_rule_identity :: "allow_rule_row \<Rightarrow> string option \<Rightarrow> string option \<Rightarrow> bool" where
  "matches_rule_identity rule email domain =
     (let matchValue = js_lower (ar_matchValue rule)
      in case normalize_match_type (ar_matchType rule) of
           Some ExactEmail \<Rightarrow> normalize_email email = Some matchValue
         | Some DomainMatch \<Rightarrow> normalize_domain domain = Some matchValue
         | None \<Rightarrow> False)"

definition has_authenticated_rule_candidate :: "allow_rule_row list \<Rightarrow> string option \<Rightarrow> string option \<Rightarrow> bool" where
  "has_authenticated_rule_candidate rules headerFromEmail headerFromDomain =
     list_ex (\<lambda>rule. matches_rule_identity rule headerFromEmail headerFromDomain) rules"

definition matches_authenticated_rule :: "allow_rule_row list \<Rightarrow> sender_auth \<Rightarrow> bool" where
  "matches_authenticated_rule rules auth =
     (let headerFromEmail = normalize_email (sa_headerFromEmail auth);
          headerFromDomain = normalize_domain (sa_headerFromDomain auth)
      in if \<not> truthy headerFromDomain then False
         else if headerFromDomain \<notin> set (map (\<lambda>d. normalize_domain (Some d)) (sa_authenticatedDomains auth)) then False
         else list_ex (\<lambda>rule. matches_rule_identity rule headerFromEmail headerFromDomain) rules)"

definition evaluate_allow_rules :: "allow_rule_row list \<Rightarrow> sender_auth option \<Rightarrow> allow_evaluation" where
  "evaluate_allow_rules rules senderAuth =
     (if rules = [] then NotAllowed SenderNotAllowed
      else case senderAuth of
          None \<Rightarrow> NotAllowed SenderNotAllowed
        | Some auth \<Rightarrow>
            if \<not> has_authenticated_rule_candidate rules (sa_headerFromEmail auth) (sa_headerFromDomain auth)
            then NotAllowed SenderNotAllowed
            else if sa_status auth = AuthTemperror then NotAllowed SenderAuthTemperror
            else if matches_authenticated_rule rules auth then Allowed
            else NotAllowed SenderAuthFailed)"

section \<open>Properties\<close>

lemma normalize_domain_idem [simp]: "normalize_domain (normalize_domain v) = normalize_domain v"
  by (cases v) (auto simp: normalize_domain_def Let_def js_trim_lower)

lemma normalize_email_idem [simp]: "normalize_email (normalize_email v) = normalize_email v"
  by (cases v) (auto simp: normalize_email_def Let_def js_trim_lower)

lemma matches_normalized:
  "matches_rule_identity r (normalize_email m) (normalize_domain d) = matches_rule_identity r m d"
  by (simp add: matches_rule_identity_def Let_def split: option.splits allow_match_type.splits)

lemma evaluate_allowed_iff:
  "evaluate_allow_rules rules (Some auth) = Allowed \<longleftrightarrow>
     sa_status auth \<noteq> AuthTemperror \<and> matches_authenticated_rule rules auth"
  by (auto simp: evaluate_allow_rules_def matches_authenticated_rule_def has_authenticated_rule_candidate_def
      matches_normalized Let_def split: if_splits)

lemma allowed_rules_mono:
  "set rules \<subseteq> set rules' \<Longrightarrow> evaluate_allow_rules rules v = Allowed \<Longrightarrow> evaluate_allow_rules rules' v = Allowed"
  by (cases v)
    (auto simp: evaluate_allowed_iff matches_authenticated_rule_def list_ex_iff Let_def evaluate_allow_rules_def [of _ None]
      split: if_splits)

lemma authenticate_InrD:
  assumes "authenticate_sender raw env e w = (Inr auth, w')" and "sa_authenticatedDomains auth \<noteq> []"
  shows "\<exists>m a t r email domain. parse_mail e raw = Inr m \<and> ml_from m = Some ([a], t) \<and>
     normalize_email (address_of a) = Some email \<and> at_domain email = Some domain \<and>
     mailauth e (w_tick w) raw env = Inr r \<and> auth = judge_sender email domain r \<and>
     (dmarc_pass r \<or> (aligned_dkim_pass r \<and> \<not> dmarc_temp_error r))"
proof -
  obtain m where m: "parse_mail e raw = Inr m"
    using assms(1) by (auto simp: authenticate_sender_def run_simps of_result_def)
  show ?thesis
  proof (cases "\<exists>a t. ml_from m = Some ([a], t)")
    case False
    then have "length (case ml_from m of None \<Rightarrow> [] | Some (v, t) \<Rightarrow> v) \<noteq> 1"
      by (auto simp: length_Suc_conv split: option.splits)
    with assms m have False
      by (auto simp: authenticate_sender_def run_simps of_result_def Let_def refused_auth_def)
    then show ?thesis ..
  next
    case True
    then obtain a t where at: "ml_from m = Some ([a], t)" by blast
    let ?em = "normalize_email (address_of a)" and ?dn = "domain_from_email (normalize_email (address_of a))"
    have ok: "truthy ?em \<and> truthy ?dn"
      by (rule ccontr) (use assms m at in \<open>auto simp: authenticate_sender_def run_simps of_result_def Let_def refused_auth_def\<close>)
    then obtain email domain where ed: "?em = Some email" "?dn = Some domain" by (cases ?em; cases ?dn) auto
    obtain r where r: "mailauth e (w_tick w) raw env = Inr r" "auth = judge_sender email domain r"
      using assms m at ok ed
      by (auto simp: authenticate_sender_def run_simps of_result_def Let_def refused_auth_def split: sum.splits)
    then have "dmarc_pass r \<or> (aligned_dkim_pass r \<and> \<not> dmarc_temp_error r)"
      using assms(2) by (auto simp: judge_sender_def Let_def split: if_splits)
    with m at ed r show ?thesis by (auto simp: domain_from_email_def)
  qed
qed

lemma judge_fields [simp]:
  "sa_headerFromEmail (judge_sender email domain r) = Some email"
  "sa_headerFromDomain (judge_sender email domain r) = Some domain"
  by (simp_all add: judge_sender_def Let_def)

lemma sender_identity:
  assumes auth: "authenticate_sender raw env e w = (Inr auth, w')"
    and allowed: "evaluate_allow_rules rules (Some auth) = Allowed"
  shows "\<exists>m a t r email domain. parse_mail e raw = Inr m \<and> ml_from m = Some ([a], t) \<and>
     normalize_email (address_of a) = Some email \<and> at_domain email = Some domain \<and>
     mailauth e (w_tick w) raw env = Inr r \<and>
     (dmarc_pass r \<or> (aligned_dkim_pass r \<and> \<not> dmarc_temp_error r)) \<and>
     (\<exists>rule\<in>set rules. (ar_matchType rule = ''exact_email'' \<and> js_lower (ar_matchValue rule) = email) \<or>
        (ar_matchType rule = ''domain'' \<and> Some (js_lower (ar_matchValue rule)) = normalize_domain (Some domain)))"
proof -
  have ma: "matches_authenticated_rule rules auth" using allowed by (simp add: evaluate_allowed_iff)
  then have "sa_authenticatedDomains auth \<noteq> []" by (auto simp: matches_authenticated_rule_def Let_def split: if_splits)
  then obtain m a t r email domain where x: "parse_mail e raw = Inr m" "ml_from m = Some ([a], t)"
    "normalize_email (address_of a) = Some email" "at_domain email = Some domain"
    "mailauth e (w_tick w) raw env = Inr r" "auth = judge_sender email domain r"
    "dmarc_pass r \<or> (aligned_dkim_pass r \<and> \<not> dmarc_temp_error r)"
    using authenticate_InrD [OF auth] by blast
  have ne: "normalize_email (Some email) = Some email" using x(3) normalize_email_idem by metis
  obtain rule where rule: "rule \<in> set rules" "matches_rule_identity rule (Some email) (Some domain)"
    using ma x(6) ne matches_normalized
    by (auto simp: matches_authenticated_rule_def list_ex_iff Let_def split: if_splits) metis
  have "(ar_matchType rule = ''exact_email'' \<and> js_lower (ar_matchValue rule) = email) \<or>
        (ar_matchType rule = ''domain'' \<and> Some (js_lower (ar_matchValue rule)) = normalize_domain (Some domain))"
    using rule(2) ne by (auto simp: matches_rule_identity_def normalize_match_type_def Let_def split: if_splits)
  with x rule(1) show ?thesis by blast
qed

text \<open>C7: No unauthenticated sender passes the allow rules: when the rules accept what sender
  authentication returned, the email has exactly one From address, \<open>mailauth\<close> passed DMARC for it,
  or an aligned DKIM signature while the DMARC lookup had no temporary failure, and a rule of the
  alias names that very address or its domain.\<close>

theorem accepted_sender_is_authenticated:
  assumes auth: "authenticate_sender raw env e w = (Inr auth, w')"
    and allowed: "evaluate_allow_rules rules (Some auth) = Allowed"
  shows "\<exists>m a t r email domain. parse_mail e raw = Inr m \<and> ml_from m = Some ([a], t) \<and>
     normalize_email (address_of a) = Some email \<and> at_domain email = Some domain \<and>
     mailauth e (w_tick w) raw env = Inr r \<and>
     (dmarc_pass r \<or> (aligned_dkim_pass r \<and> \<not> dmarc_temp_error r)) \<and>
     (\<exists>rule\<in>set rules. (ar_matchType rule = ''exact_email'' \<and> js_lower (ar_matchValue rule) = email) \<or>
        (ar_matchType rule = ''domain'' \<and> Some (js_lower (ar_matchValue rule)) = normalize_domain (Some domain)))"
  using sender_identity [OF auth allowed] .

definition alice_mail :: mail where
  "alice_mail = \<lparr> ml_from = Some ([MailAddress (Some ''Alice'') (Some '' Alice@Bank.com'')], ''Alice''), ml_text = Some ''hi'',
     ml_html = None, ml_messageId = Some ''<m1@bank.com>'', ml_subject = Some ''s'', ml_attachments = [] \<rparr>"

definition alice_env :: env where
  "alice_env = calm_env\<lparr> parse_mail := (\<lambda>_. Inr alice_mail),
     mailauth := (\<lambda>_ _ _. Inr \<lparr> mr_dkim = [], mr_dmarc = Some ''pass'' \<rparr>) \<rparr>"

definition bank_rule :: allow_rule_row where
  "bank_rule = \<lparr> ar_id = ''r1'', ar_emailAddressId = ''a1'', ar_matchType = ''domain'', ar_matchValue = ''BANK.com'' \<rparr>"

lemma alice_env_simps [simp]:
  "db_fault alice_env t = Fine" "error_code alice_env x = None" "clock alice_env t = 0"
  "fresh_uuid alice_env t = replicate (Suc t) (CHR ''u'')" "active_provider alice_env = None"
  "app_mode_env alice_env = Some ''self-hosted''" "plan_table alice_env = plan_defaults"
  "parse_mail alice_env b = Inr alice_mail" "mailauth alice_env t raw v = Inr \<lparr> mr_dkim = [], mr_dmarc = Some ''pass'' \<rparr>"
  by (simp_all add: alice_env_def)

lemma alice_authenticated:
  "authenticate_sender raw v alice_env w =
     (Inr (judge_sender ''alice@bank.com'' ''bank.com'' \<lparr> mr_dkim = [], mr_dmarc = Some ''pass'' \<rparr>), w\<lparr>w_tick := Suc (w_tick w)\<rparr>)"
proof -
  have "normalize_email (Some '' Alice@Bank.com'') = Some ''alice@bank.com''" by code_simp
  moreover have "at_domain ''alice@bank.com'' = Some ''bank.com''" by code_simp
  ultimately show ?thesis
    by (simp add: authenticate_sender_def step_simps alice_mail_def domain_from_email_def Let_def)
qed

lemma alice_allowed:
  "evaluate_allow_rules [bank_rule] (Some (judge_sender ''alice@bank.com'' ''bank.com'' \<lparr> mr_dkim = [], mr_dmarc = Some ''pass'' \<rparr>)) = Allowed"
  by code_simp

lemma accepted_sender_is_authenticated_witness:
  "\<exists>m a t r email domain. parse_mail alice_env ''raw'' = Inr m \<and> ml_from m = Some ([a], t) \<and>
     normalize_email (address_of a) = Some email \<and> at_domain email = Some domain \<and>
     mailauth alice_env (w_tick (start_world empty_db)) ''raw'' None = Inr r \<and>
     (dmarc_pass r \<or> (aligned_dkim_pass r \<and> \<not> dmarc_temp_error r)) \<and>
     (\<exists>rule\<in>set [bank_rule]. (ar_matchType rule = ''exact_email'' \<and> js_lower (ar_matchValue rule) = email) \<or>
        (ar_matchType rule = ''domain'' \<and> Some (js_lower (ar_matchValue rule)) = normalize_domain (Some domain)))"
  by (rule accepted_sender_is_authenticated [OF alice_authenticated alice_allowed])

end
