(* ===== verification/Encryption.thy ===== *)
theory Encryption
  imports Tokens
begin

text \<open>
  Encryption at rest (\<open>src/security/encryption.ts\<close>) and the metadata columns of a delivery log
  (\<open>src/security/deliveryLogMetadata.ts\<close>): a file is sealed with AES-256-GCM under a fresh data key,
  which is itself sealed under a master key and kept beside the row.  GCM encrypts by adding the key
  stream of the block cipher to the data and authenticates the result; the key stream and the tag are
  the environment's \<open>aes_keystream\<close> and \<open>gcm_tag\<close>.  Base64 and hexadecimal are modelled.
\<close>

section \<open>Base64\<close>

definition base64_char :: "nat \<Rightarrow> char" where
  "base64_char n =
     (if n < 26 then char_of (65 + n) else if n < 52 then char_of (71 + n) else if n < 62 then char_of (n - 4)
      else if n = 62 then CHR ''+'' else CHR ''/'')"

text \<open>\<open>Buffer.from\<close> also takes the URL-safe alphabet and passes over characters of neither.\<close>

definition base64_value :: "char \<Rightarrow> nat option" where
  "base64_value c = (let n = char_code c in
     if 65 \<le> n \<and> n \<le> 90 then Some (n - 65)
     else if 97 \<le> n \<and> n \<le> 122 then Some (n - 71)
     else if 48 \<le> n \<and> n \<le> 57 then Some (n + 4)
     else if n = 43 \<or> n = 45 then Some 62
     else if n = 47 \<or> n = 95 then Some 63 else None)"

fun to_base64 :: "bytes \<Rightarrow> string" where
  "to_base64 [] = []"
| "to_base64 [a] =
     (let x = char_code a in [base64_char (x div 4), base64_char (x mod 4 * 16), CHR ''='', CHR ''=''])"
| "to_base64 [a, b] =
     (let x = char_code a; y = char_code b
      in [base64_char (x div 4), base64_char (x mod 4 * 16 + y div 16), base64_char (y mod 16 * 4), CHR ''=''])"
| "to_base64 (a # b # c # cs) =
     (let x = char_code a; y = char_code b; z = char_code c
      in [base64_char (x div 4), base64_char (x mod 4 * 16 + y div 16), base64_char (y mod 16 * 4 + z div 64), base64_char (z mod 64)]
         @ to_base64 cs)"

fun base64_bytes :: "nat list \<Rightarrow> bytes" where
  "base64_bytes (p # q # r # s # vs) =
     [char_of (p * 4 + q div 16), char_of (q mod 16 * 16 + r div 4), char_of (r mod 4 * 64 + s)] @ base64_bytes vs"
| "base64_bytes [p, q, r] = [char_of (p * 4 + q div 16), char_of (q mod 16 * 16 + r div 4)]"
| "base64_bytes [p, q] = [char_of (p * 4 + q div 16)]"
| "base64_bytes _ = []"

definition from_base64 :: "string \<Rightarrow> bytes" where
  "from_base64 s = base64_bytes (List.map_filter base64_value (takeWhile (\<lambda>c. c \<noteq> CHR ''='') s))"

lemma char_code_less: "char_code c < 256"
  by (simp add: char_code_def)

lemma char_code_of: "n < 256 \<Longrightarrow> char_code (char_of n) = n"
  by (simp add: char_code_def)

lemma of_char_code [simp]: "char_of (char_code c) = c"
  by (simp add: char_code_def)

lemma base64_value_char: "n < 64 \<Longrightarrow> base64_value (base64_char n) = Some n"
proof -
  assume n: "n < 64"
  have s: "base64_value (CHR ''+'') = Some 62" "base64_value (CHR ''/'') = Some 63" by code_simp+
  consider "n < 26" | "26 \<le> n" "n < 52" | "52 \<le> n" "n < 62" | "n = 62" | "n = 63" using n by linarith
  then show "base64_value (base64_char n) = Some n"
  proof cases
    case 3
    then obtain k where "n = 52 + k" "k < 10" using le_Suc_ex by force
    then show ?thesis by (simp add: base64_char_def base64_value_def char_code_of Let_def)
  qed (simp_all add: base64_char_def s, simp_all add: base64_value_def char_code_of Let_def)
qed

lemma base64_char_pad: "n < 64 \<Longrightarrow> base64_char n \<noteq> CHR ''=''"
proof -
  have "base64_value (CHR ''='') = None" by code_simp
  then show "n < 64 \<Longrightarrow> base64_char n \<noteq> CHR ''=''" using base64_value_char by fastforce
qed

definition base64_values :: "string \<Rightarrow> nat list" where
  "base64_values s = List.map_filter base64_value (takeWhile (\<lambda>c. c \<noteq> CHR ''='') s)"

lemma base64_values_simps [simp]:
  "base64_values [] = []" "base64_values (CHR ''='' # s) = []"
  "n < 64 \<Longrightarrow> base64_values (base64_char n # s) = n # base64_values s"
  by (simp_all add: base64_values_def List.map_filter_def base64_value_char base64_char_pad)

lemma group_bounds:
  fixes x y z :: nat
  assumes "x < 256" "y < 256" "z < 256"
  shows "x div 4 < 64" "x mod 4 * 16 < 64" "x mod 4 * 16 + y div 16 < 64" "y mod 16 * 4 < 64" "y mod 16 * 4 + z div 64 < 64" "z mod 64 < 64"
proof -
  have "x mod 4 < 4" "y mod 16 < 16" "z mod 64 < 64" by simp_all
  moreover have "x div 4 < 64" "y div 16 < 16" "z div 64 < 4" using assms by auto
  ultimately show "x div 4 < 64" "x mod 4 * 16 < 64" "x mod 4 * 16 + y div 16 < 64" "y mod 16 * 4 < 64"
    "y mod 16 * 4 + z div 64 < 64" "z mod 64 < 64" by linarith+
qed

lemma group_digits:
  fixes x y z :: nat
  assumes "x < 256" "y < 256" "z < 256"
  shows "x div 4 * 4 + (x mod 4 * 16) div 16 = x" "x div 4 * 4 + (x mod 4 * 16 + y div 16) div 16 = x"
    "(x mod 4 * 16 + y div 16) mod 16 * 16 + (y mod 16 * 4) div 4 = y"
    "(x mod 4 * 16 + y div 16) mod 16 * 16 + (y mod 16 * 4 + z div 64) div 4 = y"
    "(y mod 16 * 4 + z div 64) mod 4 * 64 + z mod 64 = z"
proof -
  have "y div 16 < 16" "z div 64 < 4" using assms by auto
  then have a: "(x mod 4 * 16 + y div 16) div 16 = x mod 4" "(x mod 4 * 16 + y div 16) mod 16 = y div 16"
    "(y mod 16 * 4 + z div 64) div 4 = y mod 16" "(y mod 16 * 4 + z div 64) mod 4 = z div 64" by auto
  show "x div 4 * 4 + (x mod 4 * 16) div 16 = x" "x div 4 * 4 + (x mod 4 * 16 + y div 16) div 16 = x"
    "(x mod 4 * 16 + y div 16) mod 16 * 16 + (y mod 16 * 4) div 4 = y"
    "(x mod 4 * 16 + y div 16) mod 16 * 16 + (y mod 16 * 4 + z div 64) div 4 = y"
    "(y mod 16 * 4 + z div 64) mod 4 * 64 + z mod 64 = z"
    unfolding a by simp_all
qed

lemma from_to_base64: "from_base64 (to_base64 s) = s"
proof -
  have "base64_bytes (base64_values (to_base64 s)) = s"
  proof (induction s rule: to_base64.induct)
    case (2 a)
    then show ?case using group_bounds [of "char_code a" 0 0] group_digits [of "char_code a" 0 0] char_code_less [of a]
      by (simp add: Let_def)
  next
    case (3 a b)
    then show ?case using group_bounds [of "char_code a" "char_code b" 0] group_digits [of "char_code a" "char_code b" 0]
        char_code_less [of a] char_code_less [of b]
      by (simp add: Let_def)
  next
    case (4 a b c cs)
    then show ?case using group_bounds [of "char_code a" "char_code b" "char_code c"] group_digits [of "char_code a" "char_code b" "char_code c"]
        char_code_less [of a] char_code_less [of b] char_code_less [of c]
      by (simp add: Let_def)
  qed simp
  then show ?thesis by (simp add: from_base64_def base64_values_def)
qed

lemma to_base64_Nil [simp]: "to_base64 s = [] \<longleftrightarrow> s = []"
proof
  assume "to_base64 s = []"
  then have "from_base64 (to_base64 s) = []" by (simp add: from_base64_def List.map_filter_def)
  then show "s = []" by (simp add: from_to_base64)
qed simp

section \<open>Keys\<close>

definition key_length :: nat where "key_length = 32"
definition iv_length :: nat where "iv_length = 12"
definition tag_length :: nat where "tag_length = 16"
definition file_magic :: bytes where "file_magic = ''ETG1''"
definition file_version :: char where "file_version = CHR 0x01"

definition hex_char :: "char \<Rightarrow> bool" where "hex_char c \<longleftrightarrow> hex_value c \<noteq> None"

definition parse_master_encryption_key :: "string \<Rightarrow> exn + bytes" where
  "parse_master_encryption_key value =
     (let trimmed = js_trim value
      in if length trimmed = 64 \<and> list_all hex_char trimmed then Inr (map char_of (hex_bytes trimmed))
         else (let decoded = from_base64 trimmed
               in if length decoded \<noteq> key_length then Inl (Thrown ''MASTER_ENCRYPTION_KEY must decode to exactly 32 bytes'')
                  else Inr decoded))"

text \<open>\<open>entry.indexOf("=")\<close>\<close>

fun split_at_equals :: "string \<Rightarrow> (string \<times> string) option" where
  "split_at_equals [] = None"
| "split_at_equals (c # cs) =
     (if c = CHR ''='' then Some ([], cs) else map_option (\<lambda>(a, b). (c # a, b)) (split_at_equals cs))"

text \<open>One entry of the keyring; \<open>result\<close> is the record built so far.\<close>

definition add_keyring_entry :: "string \<Rightarrow> (string \<times> string) list \<Rightarrow> exn + (string \<times> string) list" where
  "add_keyring_entry entry result =
     (case split_at_equals entry of
        None \<Rightarrow> Inl (Thrown ''MASTER_ENCRYPTION_KEYRING entries must use the format key_id=base64_or_hex_key'')
      | Some (before, after) \<Rightarrow>
          if before = [] \<or> after = [] then Inl (Thrown ''MASTER_ENCRYPTION_KEYRING entries must use the format key_id=base64_or_hex_key'')
          else (let keyId = js_trim before; key = js_trim after
                in if keyId = [] then Inl (Thrown ''MASTER_ENCRYPTION_KEYRING entries must include a non-empty key id'')
                   else if key = [] then Inl (Thrown (''MASTER_ENCRYPTION_KEYRING entry '' @ keyId @ '' is missing a key value''))
                   else if map_of result keyId \<noteq> None then Inl (Thrown (''MASTER_ENCRYPTION_KEYRING contains duplicate key id '' @ keyId))
                   else (case parse_master_encryption_key key of Inl x \<Rightarrow> Inl x | Inr _ \<Rightarrow> Inr (result @ [(keyId, key)]))))"

fun parse_keyring_entries :: "string list \<Rightarrow> (string \<times> string) list \<Rightarrow> exn + (string \<times> string) list" where
  "parse_keyring_entries [] result = Inr result"
| "parse_keyring_entries (entry # entries) result =
     (case add_keyring_entry entry result of Inl x \<Rightarrow> Inl x | Inr result' \<Rightarrow> parse_keyring_entries entries result')"

definition parse_master_encryption_keyring :: "string option \<Rightarrow> exn + (string \<times> string) list" where
  "parse_master_encryption_keyring value =
     (if js_trim (or_else value []) = [] then Inr []
      else parse_keyring_entries (filter (\<lambda>e. e \<noteq> []) (map js_trim (js_split (CHR '';'') (or_else value [])))) [])"

fun parse_additional_keys :: "(string \<times> string) list \<Rightarrow> exn + (string \<times> bytes) list" where
  "parse_additional_keys [] = Inr []"
| "parse_additional_keys ((keyId, value) # rest) =
     (case parse_master_encryption_key value of
        Inl x \<Rightarrow> Inl x
      | Inr k \<Rightarrow> (case parse_additional_keys rest of Inl x \<Rightarrow> Inl x | Inr ks \<Rightarrow> Inr ((keyId, k) # ks)))"

record encryption_config =
  ec_mode :: string
  ec_masterKey :: "string option"
  ec_masterKeyId :: "string option"
  ec_additionalMasterKeys :: "(string \<times> string) list"

definition create_local_key_provider :: "bytes \<Rightarrow> string \<Rightarrow> (string \<times> bytes) list \<Rightarrow> key_provider" where
  "create_local_key_provider masterKey keyId additionalKeys =
     \<lparr> kp_keyId = keyId, kp_masterKey = masterKey, kp_keys = (keyId, masterKey) # additionalKeys \<rparr>"

definition configure_storage_encryption :: "encryption_config \<Rightarrow> exn + key_provider option" where
  "configure_storage_encryption config =
     (if ec_mode config = ''none'' then Inr None
      else if \<not> truthy (ec_masterKey config)
      then Inl (Thrown ''MASTER_ENCRYPTION_KEY is required when STORAGE_ENCRYPTION_MODE=local-v1'')
      else (let activeKeyId = or_else (ec_masterKeyId config) ''local-env-v1''
            in if truthy (map_of (ec_additionalMasterKeys config) activeKeyId)
               then Inl (Thrown (''MASTER_ENCRYPTION_KEYRING must not redefine the active key id '' @ activeKeyId))
               else case parse_master_encryption_key (the (ec_masterKey config)) of
                   Inl x \<Rightarrow> Inl x
                 | Inr masterKey \<Rightarrow>
                     (case parse_additional_keys (ec_additionalMasterKeys config) of
                        Inl x \<Rightarrow> Inl x
                      | Inr additional \<Rightarrow> Inr (Some (create_local_key_provider masterKey activeKeyId additional)))))"

definition list_configured_storage_key_ids :: "key_provider option \<Rightarrow> string list" where
  "list_configured_storage_key_ids provider = (case provider of None \<Rightarrow> [] | Some p \<Rightarrow> map fst (kp_keys p))"

definition can_use_storage_key_id :: "key_provider option \<Rightarrow> string option \<Rightarrow> string option \<Rightarrow> bool" where
  "can_use_storage_key_id provider mode keyId =
     (if or_else mode ''none'' = ''none'' then True
      else if mode \<noteq> Some ''local-v1'' then False
      else case provider of None \<Rightarrow> False | Some p \<Rightarrow> map_of (kp_keys p) (or_else keyId (kp_keyId p)) \<noteq> None)"

section \<open>AES-256-GCM\<close>

unbundle bit_operations_syntax

definition xor_byte :: "nat \<Rightarrow> char \<Rightarrow> char" where
  "xor_byte k c = char_of (char_code c XOR take_bit 8 k)"

fun xor_stream :: "(nat \<Rightarrow> nat) \<Rightarrow> nat \<Rightarrow> bytes \<Rightarrow> bytes" where
  "xor_stream ks i [] = []"
| "xor_stream ks i (c # cs) = xor_byte (ks i) c # xor_stream ks (Suc i) cs"

definition gcm_seal :: "env \<Rightarrow> bytes \<Rightarrow> bytes \<Rightarrow> string \<Rightarrow> bytes \<Rightarrow> bytes \<times> bytes" where
  "gcm_seal e key iv aad plaintext =
     (let ciphertext = xor_stream (aes_keystream e key iv) 0 plaintext in (ciphertext, gcm_tag e key iv aad ciphertext))"

definition gcm_open :: "env \<Rightarrow> bytes \<Rightarrow> bytes \<Rightarrow> string \<Rightarrow> bytes \<Rightarrow> bytes \<Rightarrow> exn + bytes" where
  "gcm_open e key iv aad ciphertext tag =
     (if length key \<noteq> key_length then Inl (Thrown ''Invalid key length'')
      else if gcm_tag e key iv aad ciphertext \<noteq> tag then Inl (Thrown ''Unsupported state or unable to authenticate data'')
      else Inr (xor_stream (aes_keystream e key iv) 0 ciphertext))"

definition wrap_aad :: "string \<Rightarrow> string" where "wrap_aad keyId = ''local-wrap:'' @ keyId"

definition wrap_key :: "key_provider \<Rightarrow> bytes \<Rightarrow> (string \<times> string) io" where
  "wrap_key p plaintextDek =
     bind (at_tick (\<lambda>e t. random_bytes e t iv_length)) (\<lambda>iv.
     bind (ask (\<lambda>e. gcm_seal e (kp_masterKey p) iv (wrap_aad (kp_keyId p)) plaintextDek)) (\<lambda>(ciphertext, tag).
     ret (to_base64 (iv @ ciphertext @ tag), kp_keyId p)))"

definition unwrap_key :: "env \<Rightarrow> key_provider \<Rightarrow> string \<Rightarrow> string option \<Rightarrow> exn + bytes" where
  "unwrap_key e p wrappedDek wrappedKeyId =
     (let unwrapKeyId = or_else wrappedKeyId (kp_keyId p)
      in case map_of (kp_keys p) unwrapKeyId of
           None \<Rightarrow> Inl (Thrown (''No configured master key for key id '' @ unwrapKeyId))
         | Some kek \<Rightarrow>
             (let payload = from_base64 wrappedDek
              in if length payload < iv_length + tag_length then Inl (Thrown ''Wrapped DEK payload is truncated'')
                 else gcm_open e kek (take iv_length payload) (wrap_aad unwrapKeyId)
                        (take (length payload - tag_length - iv_length) (drop iv_length payload))
                        (drop (length payload - tag_length) payload)))"

section \<open>Buffers\<close>

definition encrypt_buffer_for_storage :: "bytes \<Rightarrow> string \<Rightarrow> (bytes \<times> encryption_meta) io" where
  "encrypt_buffer_for_storage plaintext aad =
     bind (ask active_provider) (\<lambda>provider.
       case provider of
         None \<Rightarrow> ret (plaintext, no_encryption)
       | Some p \<Rightarrow>
           bind (at_tick (\<lambda>e t. random_bytes e t key_length)) (\<lambda>dek.
           bind (at_tick (\<lambda>e t. random_bytes e t iv_length)) (\<lambda>iv.
           bind (ask (\<lambda>e. gcm_seal e dek iv aad plaintext)) (\<lambda>(ciphertext, tag).
           bind (wrap_key p dek) (\<lambda>(wrappedDek, keyId).
           bind now (\<lambda>t.
           ret (file_magic @ [file_version] @ iv @ ciphertext @ tag,
                \<lparr> enc_mode = ''local-v1'', enc_wrappedDek = Some wrappedDek, enc_kekKeyId = Some keyId, enc_encryptedAt = Some t \<rparr>)))))))"

definition header_size :: nat where "header_size = length file_magic + 1 + iv_length"

definition unsupported_version :: "char \<Rightarrow> exn" where
  "unsupported_version v = Thrown (''Unsupported encrypted blob version: '' @ nat_string (char_code v))"

definition decrypt_buffer_from_storage :: "env \<Rightarrow> bytes \<Rightarrow> encryption_meta \<Rightarrow> string \<Rightarrow> exn + bytes" where
  "decrypt_buffer_from_storage e blob metadata aad =
     (if enc_mode metadata = ''none'' then Inr blob
      else if enc_mode metadata \<noteq> ''local-v1'' then Inl (Thrown (''Unsupported storage encryption mode: '' @ enc_mode metadata))
      else case active_provider e of
          None \<Rightarrow> Inl (Thrown ''Storage encryption is not configured'')
        | Some p \<Rightarrow>
            if \<not> truthy (enc_wrappedDek metadata) then Inl (Thrown ''Encrypted blob is missing wrapped DEK metadata'')
            else if length blob < header_size + tag_length then Inl (Thrown ''Encrypted blob is truncated'')
            else if take (length file_magic) blob \<noteq> file_magic then Inl (Thrown ''Encrypted blob has invalid magic header'')
            else if blob ! length file_magic \<noteq> file_version then Inl (unsupported_version (blob ! length file_magic))
            else (let iv = take iv_length (drop (length file_magic + 1) blob);
                      ciphertext = take (length blob - tag_length - header_size) (drop header_size blob);
                      tag = drop (length blob - tag_length) blob
                  in case unwrap_key e p (the (enc_wrappedDek metadata)) (enc_kekKeyId metadata) of
                       Inl x \<Rightarrow> Inl x
                     | Inr dek \<Rightarrow> gcm_open e dek iv aad ciphertext tag))"

definition rewrap_storage_encryption_metadata :: "encryption_meta \<Rightarrow> encryption_meta io" where
  "rewrap_storage_encryption_metadata metadata =
     (if enc_mode metadata \<noteq> ''local-v1'' then ret metadata
      else if \<not> truthy (enc_wrappedDek metadata) then throw (Thrown ''Encrypted metadata is missing wrapped DEK'')
      else bind (ask active_provider) (\<lambda>provider.
        case provider of
          None \<Rightarrow> throw (Thrown ''Storage encryption is not configured'')
        | Some p \<Rightarrow>
            if or_else (enc_kekKeyId metadata) (kp_keyId p) = kp_keyId p then ret metadata
            else bind (bind (ask (\<lambda>e. unwrap_key e p (the (enc_wrappedDek metadata)) (enc_kekKeyId metadata))) of_result) (\<lambda>dek.
                 bind (wrap_key p dek) (\<lambda>(wrappedDek, keyId).
                 ret (metadata\<lparr> enc_wrappedDek := Some wrappedDek, enc_kekKeyId := Some keyId \<rparr>)))))"

section \<open>What is sealed opens\<close>

lemma xor_byte_xor_byte [simp]: "xor_byte k (xor_byte k c) = c"
proof -
  let ?x = "char_code c" and ?k = "take_bit 8 k"
  have x: "take_bit 8 ?x = ?x" using char_code_less [of c] by (simp add: take_bit_nat_eq_self_iff)
  have "?x XOR ?k = take_bit 8 (?x XOR ?k)" by (simp add: x)
  also have "\<dots> < 2 ^ 8" by (rule take_bit_nat_less_exp)
  finally have "char_code (char_of (?x XOR ?k)) = ?x XOR ?k" by (simp add: char_code_of)
  then show ?thesis by (simp add: xor_byte_def xor.assoc)
qed

lemma xor_stream_xor_stream [simp]: "xor_stream ks i (xor_stream ks i p) = p"
  by (induction ks i p rule: xor_stream.induct) simp_all

lemma length_xor_stream [simp]: "length (xor_stream ks i p) = length p"
  by (induction ks i p rule: xor_stream.induct) simp_all

lemma xor_stream_append: "xor_stream ks i (p @ q) = xor_stream ks i p @ xor_stream ks (i + length p) q"
  by (induction ks i p rule: xor_stream.induct) simp_all

text \<open>What the code relies on: random bytes and tags have the length asked for.\<close>

definition crypto_lengths :: "env \<Rightarrow> bool" where
  "crypto_lengths e \<longleftrightarrow>
     (\<forall>t n. length (random_bytes e t n) = n) \<and> (\<forall>k iv aad c. length (gcm_tag e k iv aad c) = tag_length)"

lemma crypto_lengthsD:
  "crypto_lengths e \<Longrightarrow> length (random_bytes e t n) = n" "crypto_lengths e \<Longrightarrow> length (gcm_tag e k iv aad c) = tag_length"
  by (simp_all add: crypto_lengths_def)

lemma length_hex_bytes: "list_all hex_char s \<Longrightarrow> length (hex_bytes s) = length s div 2"
  by (induction s rule: hex_bytes.induct) (auto simp: hex_char_def)

lemma parse_master_key_length: "parse_master_encryption_key s = Inr k \<Longrightarrow> length k = key_length"
  by (auto simp: parse_master_encryption_key_def length_hex_bytes key_length_def Let_def split: if_splits)

lemma configured_provider:
  assumes "configure_storage_encryption c = Inr (Some p)"
  shows "map_of (kp_keys p) (kp_keyId p) = Some (kp_masterKey p)" "length (kp_masterKey p) = key_length"
  using assms
  by (auto simp: configure_storage_encryption_def create_local_key_provider_def Let_def parse_master_key_length
      split: if_splits sum.splits)

lemma gcm_open_seal:
  "length key = key_length \<Longrightarrow> gcm_seal e key iv aad p = (c, tag) \<Longrightarrow> gcm_open e key iv aad c tag = Inr p"
  by (auto simp: gcm_seal_def gcm_open_def Let_def)

lemma gcm_seal_lengths:
  "gcm_seal e key iv aad p = (c, tag) \<Longrightarrow> crypto_lengths e \<Longrightarrow> length c = length p \<and> length tag = tag_length"
  by (auto simp: gcm_seal_def Let_def crypto_lengthsD)

lemma wrap_key_Inr:
  "wrap_key p dek e w = (Inr r, w') \<longleftrightarrow>
     (\<exists>c tag. gcm_seal e (kp_masterKey p) (random_bytes e (w_tick w) iv_length) (wrap_aad (kp_keyId p)) dek = (c, tag) \<and>
        r = (to_base64 (random_bytes e (w_tick w) iv_length @ c @ tag), kp_keyId p) \<and> w' = w\<lparr>w_tick := Suc (w_tick w)\<rparr>)"
  by (auto simp: wrap_key_def step_simps split: prod.splits)

text \<open>Opening a sealed payload again: the pieces are cut where they were joined.\<close>

lemma cut_payload:
  assumes "length iv = iv_length" "length tag = tag_length"
  shows "take iv_length (iv @ c @ tag) = iv"
    "take (length (iv @ c @ tag) - tag_length - iv_length) (drop iv_length (iv @ c @ tag)) = c"
    "drop (length (iv @ c @ tag) - tag_length) (iv @ c @ tag) = tag"
    "\<not> length (iv @ c @ tag) < iv_length + tag_length"
  using assms by simp_all

text \<open>A configured set of keys that still has the key \<open>keyId\<close> with the bytes \<open>kek\<close>.\<close>

definition has_key :: "key_provider \<Rightarrow> string \<Rightarrow> bytes \<Rightarrow> bool" where
  "has_key p keyId kek \<longleftrightarrow> map_of (kp_keys p) keyId = Some kek \<and> length kek = key_length"

lemma unwrap_wrapped:
  assumes w: "wrap_key p dek e w = (Inr (wrapped, keyId), w')" and l: "crypto_lengths e"
    and same: "gcm_tag e' = gcm_tag e" "aes_keystream e' = aes_keystream e" and k: "has_key p' (kp_keyId p) (kp_masterKey p)"
  shows "unwrap_key e' p' wrapped (Some keyId) = Inr dek"
proof -
  let ?iv = "random_bytes e (w_tick w) iv_length"
  obtain c tag where s: "gcm_seal e (kp_masterKey p) ?iv (wrap_aad (kp_keyId p)) dek = (c, tag)"
    and r: "wrapped = to_base64 (?iv @ c @ tag)" "keyId = kp_keyId p" using w by (auto simp: wrap_key_Inr)
  have lens: "length ?iv = iv_length" "length tag = tag_length" using l gcm_seal_lengths [OF s l] by (simp_all add: crypto_lengthsD)
  have "gcm_open e' (kp_masterKey p) ?iv (wrap_aad (kp_keyId p)) c tag = Inr dek"
    using s k by (auto simp: gcm_seal_def gcm_open_def has_key_def Let_def same)
  then show ?thesis using k cut_payload [OF lens, of c]
    by (simp add: unwrap_key_def r from_to_base64 has_key_def Let_def)
qed

lemma wrapped_truthy:
  assumes "wrap_key p dek e w = (Inr (wrapped, keyId), w')" and "crypto_lengths e"
  shows "truthy (Some wrapped)"
proof -
  obtain c tag where "wrapped = to_base64 (random_bytes e (w_tick w) iv_length @ c @ tag)" using assms by (auto simp: wrap_key_Inr)
  moreover have "random_bytes e (w_tick w) iv_length \<noteq> []"
    using crypto_lengthsD(1) [OF assms(2), of "w_tick w" iv_length] by (auto simp: iv_length_def)
  ultimately show ?thesis by simp
qed

lemma encrypt_Inr:
  assumes "encrypt_buffer_for_storage plain aad e w = (Inr (blob, meta), w')" and "active_provider e = Some p" and "crypto_lengths e"
  obtains dek iv c tag wrapped w1 w2 t where "length dek = key_length" "length iv = iv_length" "length tag = tag_length"
    "gcm_seal e dek iv aad plain = (c, tag)" "wrap_key p dek e w1 = (Inr (wrapped, kp_keyId p), w2)"
    "blob = file_magic @ [file_version] @ iv @ c @ tag"
    "meta = \<lparr> enc_mode = ''local-v1'', enc_wrappedDek = Some wrapped, enc_kekKeyId = Some (kp_keyId p), enc_encryptedAt = Some t \<rparr>"
proof -
  let ?dek = "random_bytes e (w_tick w) key_length" and ?iv = "random_bytes e (Suc (w_tick w)) iv_length"
  obtain c tag where s: "gcm_seal e ?dek ?iv aad plain = (c, tag)" by fastforce
  let ?w1 = "w\<lparr>w_tick := Suc (Suc (w_tick w))\<rparr>"
  obtain wrapped keyId w2 where k: "wrap_key p ?dek e ?w1 = (Inr (wrapped, keyId), w2)"
    by (cases "gcm_seal e (kp_masterKey p) (random_bytes e (w_tick ?w1) iv_length) (wrap_aad (kp_keyId p)) ?dek") (simp add: wrap_key_Inr)
  have "keyId = kp_keyId p" using k by (auto simp: wrap_key_Inr)
  moreover have "blob = file_magic @ [file_version] @ ?iv @ c @ tag \<and>
    meta = \<lparr> enc_mode = ''local-v1'', enc_wrappedDek = Some wrapped, enc_kekKeyId = Some keyId, enc_encryptedAt = Some (clock e (w_tick w2)) \<rparr>"
    using assms(1,2) s k by (simp add: encrypt_buffer_for_storage_def step_simps)
  ultimately show thesis using that [OF _ _ _ s] k gcm_seal_lengths [OF s assms(3)] assms(3) by (simp add: crypto_lengthsD)
qed

lemma decrypt_sealed:
  assumes "blob = file_magic @ [file_version] @ iv @ c @ tag" and "length iv = iv_length" "length tag = tag_length"
    and "enc_mode meta = ''local-v1''" "enc_wrappedDek meta = Some wrapped" "truthy (Some wrapped)"
    and "active_provider e = Some p"
  shows "decrypt_buffer_from_storage e blob meta aad =
    (case unwrap_key e p wrapped (enc_kekKeyId meta) of Inl x \<Rightarrow> Inl x | Inr dek \<Rightarrow> gcm_open e dek iv aad c tag)"
proof -
  have l: "length file_magic = 4" "header_size = 17" "iv_length = 12" "tag_length = 16"
    by (simp_all add: file_magic_def header_size_def iv_length_def tag_length_def)
  have "drop (length file_magic + 1) blob = iv @ c @ tag" "drop header_size blob = c @ tag" "take (length file_magic) blob = file_magic"
    "blob ! length file_magic = file_version" "drop (length blob - tag_length) blob = tag" "\<not> length blob < header_size + tag_length"
    "length blob - tag_length - header_size = length c"
    using assms(1,2,3) by (simp_all add: l(2-4)) (simp_all add: file_magic_def, simp add: eval_nat_numeral)
  then show ?thesis using assms by (simp add: decrypt_buffer_from_storage_def Let_def)
qed

lemma decrypt_encrypted:
  assumes "encrypt_buffer_for_storage plain aad e w = (Inr (blob, meta), w')"
    and "configure_storage_encryption c = Inr (active_provider e)" and "crypto_lengths e"
    and "gcm_tag e' = gcm_tag e" "aes_keystream e' = aes_keystream e"
    and "\<forall>p. active_provider e = Some p \<longrightarrow> (\<exists>p'. active_provider e' = Some p' \<and> has_key p' (kp_keyId p) (kp_masterKey p))"
  shows "decrypt_buffer_from_storage e' blob meta aad = Inr plain"
proof (cases "active_provider e")
  case None
  with assms(1) show ?thesis
    by (auto simp: encrypt_buffer_for_storage_def bind_Inr ask_Inr ret_Inr no_encryption_def decrypt_buffer_from_storage_def)
next
  case (Some p)
  obtain dek iv ct tag wrapped w1 w2 t where s: "length dek = key_length" "length iv = iv_length" "length tag = tag_length"
    "gcm_seal e dek iv aad plain = (ct, tag)" "wrap_key p dek e w1 = (Inr (wrapped, kp_keyId p), w2)"
    "blob = file_magic @ [file_version] @ iv @ ct @ tag"
    and m: "meta = \<lparr> enc_mode = ''local-v1'', enc_wrappedDek = Some wrapped, enc_kekKeyId = Some (kp_keyId p), enc_encryptedAt = Some t \<rparr>"
    using encrypt_Inr [OF assms(1) Some assms(3)] by metis
  obtain p' where p': "active_provider e' = Some p'" "has_key p' (kp_keyId p) (kp_masterKey p)" using assms(6) Some by blast
  have "unwrap_key e' p' wrapped (Some (kp_keyId p)) = Inr dek"
    by (rule unwrap_wrapped [OF s(5) assms(3,4,5) p'(2)])
  moreover have "gcm_open e' dek iv aad ct tag = Inr plain"
    using s(1,4) by (auto simp: gcm_seal_def gcm_open_def Let_def assms(4,5))
  ultimately show ?thesis
    using decrypt_sealed [OF s(6,2,3) _ _ wrapped_truthy [OF s(5) assms(3)] p'(1), of meta aad] by (simp add: m)
qed

text \<open>C37: A file that was sealed reads back as it was written, also after the active master key has been
  replaced, as long as the old key is kept in the keyring.\<close>

theorem sealed_file_reads_back:
  assumes "encrypt_buffer_for_storage plain aad e w = (Inr (blob, meta), w')"
    and "configure_storage_encryption c = Inr (active_provider e)" and "crypto_lengths e"
    and "gcm_tag e' = gcm_tag e" "aes_keystream e' = aes_keystream e"
    and "\<forall>p. active_provider e = Some p \<longrightarrow> (\<exists>p'. active_provider e' = Some p' \<and> has_key p' (kp_keyId p) (kp_masterKey p))"
  shows "decrypt_buffer_from_storage e' blob meta aad = Inr plain"
  using assms by (rule decrypt_encrypted)

text \<open>Moving a file to the active master key never changes what it decrypts to, and afterwards
  only the active key is needed.\<close>

theorem rewrap_keeps_content:
  assumes "rewrap_storage_encryption_metadata meta e w = (Inr meta', w')"
    and "configure_storage_encryption c = Inr (Some p)" and "active_provider e = Some p" and "crypto_lengths e"
  shows "decrypt_buffer_from_storage e blob meta' aad = decrypt_buffer_from_storage e blob meta aad \<and>
    (enc_mode meta = ''local-v1'' \<longrightarrow> or_else (enc_kekKeyId meta') (kp_keyId p) = kp_keyId p)"
proof (cases "enc_mode meta = ''local-v1'' \<and> or_else (enc_kekKeyId meta) (kp_keyId p) \<noteq> kp_keyId p")
  case False
  then have "meta' = meta \<and> (enc_mode meta = ''local-v1'' \<longrightarrow> or_else (enc_kekKeyId meta) (kp_keyId p) = kp_keyId p)"
    using assms(1,3) by (auto simp: rewrap_storage_encryption_metadata_def bind_Inr ask_Inr ret_Inr throw_def split: if_splits)
  then show ?thesis by simp
next
  case True
  obtain dek wrapped keyId w1 w2 where t: "truthy (enc_wrappedDek meta)" and u: "unwrap_key e p (the (enc_wrappedDek meta)) (enc_kekKeyId meta) = Inr dek"
    and k: "wrap_key p dek e w1 = (Inr (wrapped, keyId), w2)"
    and m: "meta' = meta\<lparr> enc_wrappedDek := Some wrapped, enc_kekKeyId := Some keyId \<rparr>"
    using assms(1,3) True
    by (auto simp: rewrap_storage_encryption_metadata_def bind_Inr ask_Inr ret_Inr throw_def of_result_def split: if_splits)
  have id: "keyId = kp_keyId p" using k by (auto simp: wrap_key_Inr)
  have "unwrap_key e p wrapped (Some (kp_keyId p)) = Inr dek"
    using unwrap_wrapped [OF k assms(4) refl refl] configured_provider [OF assms(2)] by (simp add: has_key_def id)
  moreover have "wrapped \<noteq> []" using wrapped_truthy [OF k assms(4)] by simp
  ultimately have "decrypt_buffer_from_storage e blob meta' aad = decrypt_buffer_from_storage e blob meta aad"
    using t u True assms(3) by (simp add: m id decrypt_buffer_from_storage_def Let_def)
  then show ?thesis by (simp add: m id)
qed

section \<open>A change of the master key, run\<close>

definition old_key_config :: encryption_config where
  "old_key_config = \<lparr> ec_mode = ''local-v1'', ec_masterKey = Some (replicate 64 (CHR ''1'')), ec_masterKeyId = Some ''k1'', ec_additionalMasterKeys = [] \<rparr>"

definition new_key_config :: encryption_config where
  "new_key_config = \<lparr> ec_mode = ''local-v1'', ec_masterKey = Some (replicate 64 (CHR ''2'')), ec_masterKeyId = Some ''k2'',
     ec_additionalMasterKeys = [(''k1'', replicate 64 (CHR ''1''))] \<rparr>"

definition old_provider :: key_provider where
  "old_provider = create_local_key_provider (replicate 32 (CHR 0x11)) ''k1'' []"

definition new_provider :: key_provider where
  "new_provider = create_local_key_provider (replicate 32 (CHR 0x22)) ''k2'' [(''k1'', replicate 32 (CHR 0x11))]"

lemma sample_keys_configured:
  "configure_storage_encryption old_key_config = Inr (Some old_provider)"
  "configure_storage_encryption new_key_config = Inr (Some new_provider)"
  by code_simp+

lemma sample_has_key: "has_key new_provider (kp_keyId old_provider) (kp_masterKey old_provider)"
  by code_simp

definition sealing_env :: "key_provider \<Rightarrow> env" where
  "sealing_env p = calm_env\<lparr>active_provider := Some p\<rparr>"

lemma sealing_env_simps [simp]:
  "active_provider (sealing_env p) = Some p" "gcm_tag (sealing_env p) = gcm_tag calm_env"
  "aes_keystream (sealing_env p) = aes_keystream calm_env" "crypto_lengths (sealing_env p)"
  by (simp_all add: sealing_env_def crypto_lengths_def calm_env_def tag_length_def)

lemma sealing_runs:
  assumes "active_provider e = Some p"
  shows "\<exists>blob meta w'. encrypt_buffer_for_storage plain aad e w = (Inr (blob, meta), w')"
  using assms
  by (cases "gcm_seal e (random_bytes e (w_tick w) key_length) (random_bytes e (Suc (w_tick w)) iv_length) aad plain";
      cases "gcm_seal e (kp_masterKey p) (random_bytes e (Suc (Suc (w_tick w))) iv_length) (wrap_aad (kp_keyId p)) (random_bytes e (w_tick w) key_length)")
    (simp add: encrypt_buffer_for_storage_def wrap_key_def step_simps)

theorem sealed_file_reads_back_witness:
  "\<exists>blob meta w'. encrypt_buffer_for_storage ''hello'' ''attachment:1'' (sealing_env old_provider) (start_world empty_db) = (Inr (blob, meta), w') \<and>
     decrypt_buffer_from_storage (sealing_env new_provider) blob meta ''attachment:1'' = Inr ''hello''"
proof -
  obtain blob meta w' where r: "encrypt_buffer_for_storage ''hello'' ''attachment:1'' (sealing_env old_provider) (start_world empty_db) = (Inr (blob, meta), w')"
    using sealing_runs [of "sealing_env old_provider" old_provider] by (simp, blast)
  have "decrypt_buffer_from_storage (sealing_env new_provider) blob meta ''attachment:1'' = Inr ''hello''"
    using r by (rule sealed_file_reads_back [where c = old_key_config]) (simp_all add: sample_keys_configured sample_has_key)
  with r show ?thesis by blast
qed

theorem rewrap_keeps_content_witness:
  "\<exists>meta meta' w'. enc_kekKeyId meta = Some ''k1'' \<and> enc_mode meta = ''local-v1'' \<and>
     rewrap_storage_encryption_metadata meta (sealing_env new_provider) (start_world empty_db) = (Inr meta', w') \<and>
     (\<forall>blob aad. decrypt_buffer_from_storage (sealing_env new_provider) blob meta' aad = decrypt_buffer_from_storage (sealing_env new_provider) blob meta aad) \<and>
     or_else (enc_kekKeyId meta') ''k2'' = ''k2''"
proof -
  let ?w = "start_world empty_db" and ?e = "sealing_env new_provider"
  have id: "kp_keyId new_provider = ''k2''" "kp_keyId old_provider = ''k1''" by (simp_all add: new_provider_def old_provider_def create_local_key_provider_def)
  obtain wrapped keyId w1 where k: "wrap_key old_provider ''dek'' (sealing_env old_provider) ?w = (Inr (wrapped, keyId), w1)"
    by (cases "gcm_seal (sealing_env old_provider) (kp_masterKey old_provider) (random_bytes (sealing_env old_provider) (w_tick ?w) iv_length) (wrap_aad (kp_keyId old_provider)) ''dek''")
      (simp add: wrap_key_Inr)
  then have i: "keyId = ''k1''" by (auto simp: wrap_key_Inr id)
  let ?meta = "\<lparr> enc_mode = ''local-v1'', enc_wrappedDek = Some wrapped, enc_kekKeyId = Some ''k1'', enc_encryptedAt = Some 0 \<rparr>"
  have u: "unwrap_key ?e new_provider wrapped (Some ''k1'') = Inr ''dek''"
    using unwrap_wrapped [OF k, of ?e new_provider] by (simp add: sample_has_key i)
  have t: "wrapped \<noteq> []" using wrapped_truthy [OF k] by simp
  obtain wrapped2 keyId2 w2 where k2: "wrap_key new_provider ''dek'' ?e ?w = (Inr (wrapped2, keyId2), w2)"
    by (cases "gcm_seal ?e (kp_masterKey new_provider) (random_bytes ?e (w_tick ?w) iv_length) (wrap_aad (kp_keyId new_provider)) ''dek''")
      (simp add: wrap_key_Inr)
  have i2: "keyId2 = ''k2''" using k2 by (auto simp: wrap_key_Inr id)
  have r: "rewrap_storage_encryption_metadata ?meta ?e ?w =
      (Inr (?meta\<lparr> enc_wrappedDek := Some wrapped2, enc_kekKeyId := Some keyId2 \<rparr>), w2)"
    using t by (simp add: rewrap_storage_encryption_metadata_def step_simps id u k2)
  show ?thesis
    by (intro exI [of _ ?meta] exI [of _ "?meta\<lparr> enc_wrappedDek := Some wrapped2, enc_kekKeyId := Some keyId2 \<rparr>"] exI [of _ w2])
      (use r rewrap_keeps_content [OF r sample_keys_configured(2)] in \<open>simp add: id i2\<close>)
qed

end
