(* ===== verification/Json.thy ===== *)
theory Json
  imports Prelude
begin

text \<open>
  \<open>JSON.stringify\<close> and \<open>JSON.parse\<close>, as far as the program relies on them: it prints flat objects of
  strings and nulls and reads back what it printed.  Strings are the UTF-8 bytes of the
  JavaScript strings.  A \<open>\u\<close> escape gives the bytes of its code unit; two surrogate escapes are not
  joined (\<open>JSON.stringify\<close> prints no such pair).  Numbers keep their spelling.
\<close>

datatype json = JNull | JBool bool | JNum string | JStr string | JArr "json list" | JObj "(string \<times> json) list"

section \<open>Printing\<close>

definition json_hex :: "nat \<Rightarrow> char" where
  "json_hex n = (if n < 10 then char_of (48 + n) else char_of (87 + n))"

definition json_escape :: "char \<Rightarrow> string" where
  "json_escape c = (let n = (of_char c :: nat) in
     if n = 34 then [CHR 0x5C, c]
     else if n = 92 then [CHR 0x5C, c]
     else if n = 8 then [CHR 0x5C, CHR ''b''] else if n = 9 then [CHR 0x5C, CHR ''t''] else if n = 10 then [CHR 0x5C, CHR ''n'']
     else if n = 12 then [CHR 0x5C, CHR ''f''] else if n = 13 then [CHR 0x5C, CHR ''r'']
     else if n < 32 then [CHR 0x5C, CHR ''u'', CHR ''0'', CHR ''0'', json_hex (n div 16), json_hex (n mod 16)]
     else [c])"

definition json_quote :: "string \<Rightarrow> string" where
  "json_quote s = CHR 0x22 # concat (map json_escape s) @ [CHR 0x22]"

fun json_text :: "json \<Rightarrow> string"
  and json_items :: "json list \<Rightarrow> string"
  and json_members :: "(string \<times> json) list \<Rightarrow> string" where
  "json_text JNull = ''null''"
| "json_text (JBool b) = (if b then ''true'' else ''false'')"
| "json_text (JNum n) = n"
| "json_text (JStr s) = json_quote s"
| "json_text (JArr xs) = ''['' @ json_items xs @ '']''"
| "json_text (JObj ms) = ''{'' @ json_members ms @ ''}''"
| "json_items [] = []"
| "json_items [x] = json_text x"
| "json_items (x # y # ys) = json_text x @ '','' @ json_items (y # ys)"
| "json_members [] = []"
| "json_members [(k, x)] = json_quote k @ '':'' @ json_text x"
| "json_members ((k, x) # m # ms) = json_quote k @ '':'' @ json_text x @ '','' @ json_members (m # ms)"

section \<open>Reading\<close>

definition json_digit :: "char \<Rightarrow> bool" where
  "json_digit c \<longleftrightarrow> 48 \<le> (of_char c :: nat) \<and> (of_char c :: nat) \<le> 57"

definition json_hex_value :: "char \<Rightarrow> nat option" where
  "json_hex_value c = (let n = (of_char c :: nat) in
     if 48 \<le> n \<and> n \<le> 57 then Some (n - 48) else if 97 \<le> n \<and> n \<le> 102 then Some (n - 87)
     else if 65 \<le> n \<and> n \<le> 70 then Some (n - 55) else None)"

definition code_unit_bytes :: "nat \<Rightarrow> string" where
  "code_unit_bytes n =
     (if n < 0x80 then [char_of n]
      else if n < 0x800 then [char_of (0xC0 + n div 64), char_of (0x80 + n mod 64)]
      else [char_of (0xE0 + n div 4096), char_of (0x80 + n div 64 mod 64), char_of (0x80 + n mod 64)])"

definition simple_escape :: "char \<Rightarrow> string option" where
  "simple_escape c =
     (if c = CHR 0x22 \<or> c = CHR 0x5C \<or> c = CHR ''/'' then Some [c]
      else if c = CHR ''b'' then Some [CHR 0x08] else if c = CHR ''f'' then Some [CHR 0x0C]
      else if c = CHR ''n'' then Some [CHR 0x0A] else if c = CHR ''r'' then Some [CHR 0x0D]
      else if c = CHR ''t'' then Some [CHR 0x09] else None)"

text \<open>The characters of a string up to its closing quote, and what follows it.\<close>

fun json_chars :: "string \<Rightarrow> (string \<times> string) option" where
  "json_chars [] = None"
| "json_chars (c # cs) =
     (if c = CHR 0x22 then Some ([], cs)
      else if c = CHR 0x5C then
        (case cs of
           [] \<Rightarrow> None
         | x # ds \<Rightarrow>
             if x = CHR ''u'' then
               (case ds of
                  a # b # c' # d # es \<Rightarrow>
                    (case (json_hex_value a, json_hex_value b, json_hex_value c', json_hex_value d) of
                       (Some p, Some q, Some r, Some s) \<Rightarrow>
                         map_option (\<lambda>(t, rest). (code_unit_bytes (p * 4096 + q * 256 + r * 16 + s) @ t, rest)) (json_chars es)
                     | _ \<Rightarrow> None)
                | _ \<Rightarrow> None)
             else case simple_escape x of
                 None \<Rightarrow> None
               | Some e \<Rightarrow> map_option (\<lambda>(t, rest). (e @ t, rest)) (json_chars ds))
      else if (of_char c :: nat) < 32 then None
      else map_option (\<lambda>(t, rest). (c # t, rest)) (json_chars cs))"

definition json_space :: "char \<Rightarrow> bool" where
  "json_space c \<longleftrightarrow> c = CHR 0x20 \<or> c = CHR 0x09 \<or> c = CHR 0x0A \<or> c = CHR 0x0D"

definition skip_space :: "string \<Rightarrow> string" where
  "skip_space s = dropWhile json_space s"

definition json_number_char :: "char \<Rightarrow> bool" where
  "json_number_char c \<longleftrightarrow> json_digit c \<or> c = CHR ''-'' \<or> c = CHR ''+'' \<or> c = CHR ''.'' \<or> c = CHR ''e'' \<or> c = CHR ''E''"

definition json_exponent_ok :: "string \<Rightarrow> bool" where
  "json_exponent_ok s =
     (case s of
        [] \<Rightarrow> True
      | c # cs \<Rightarrow> (c = CHR ''e'' \<or> c = CHR ''E'') \<and>
          (let ds = (case cs of d # ds \<Rightarrow> if d = CHR ''-'' \<or> d = CHR ''+'' then ds else cs | [] \<Rightarrow> cs)
           in ds \<noteq> [] \<and> list_all json_digit ds))"

definition json_fraction_ok :: "string \<Rightarrow> bool" where
  "json_fraction_ok s =
     (case s of
        [] \<Rightarrow> True
      | c # cs \<Rightarrow> if c = CHR ''.'' then takeWhile json_digit cs \<noteq> [] \<and> json_exponent_ok (dropWhile json_digit cs)
                  else json_exponent_ok s)"

definition json_number_ok :: "string \<Rightarrow> bool" where
  "json_number_ok s =
     (let t = (case s of c # cs \<Rightarrow> if c = CHR ''-'' then cs else s | [] \<Rightarrow> s)
      in case t of
           [] \<Rightarrow> False
         | c # cs \<Rightarrow> json_digit c \<and> (if c = CHR ''0'' then json_fraction_ok cs else json_fraction_ok (dropWhile json_digit cs)))"

definition json_literal :: "string \<Rightarrow> (json \<times> string) option" where
  "json_literal s =
     (if take 4 s = ''null'' then Some (JNull, drop 4 s)
      else if take 4 s = ''true'' then Some (JBool True, drop 4 s)
      else if take 5 s = ''false'' then Some (JBool False, drop 5 s)
      else (let n = takeWhile json_number_char s
            in if json_number_ok n then Some (JNum n, dropWhile json_number_char s) else None))"

text \<open>One value with the blanks before it; every call reads at least one character, so the length of the
  text bounds the number of nested calls.\<close>

fun json_value :: "nat \<Rightarrow> string \<Rightarrow> (json \<times> string) option"
  and json_array :: "nat \<Rightarrow> string \<Rightarrow> (json list \<times> string) option"
  and json_object :: "nat \<Rightarrow> string \<Rightarrow> ((string \<times> json) list \<times> string) option" where
  "json_value 0 s = None"
| "json_value (Suc n) s =
     (let t = skip_space s
      in case t of
           [] \<Rightarrow> None
         | c # cs \<Rightarrow>
             if c = CHR 0x22 then map_option (\<lambda>(x, rest). (JStr x, rest)) (json_chars cs)
             else if c = CHR ''['' then
               (case skip_space cs of
                  d # ds \<Rightarrow> if d = CHR '']'' then Some (JArr [], ds) else map_option (\<lambda>(xs, rest). (JArr xs, rest)) (json_array n cs)
                | [] \<Rightarrow> None)
             else if c = CHR ''{'' then
               (case skip_space cs of
                  d # ds \<Rightarrow> if d = CHR ''}'' then Some (JObj [], ds) else map_option (\<lambda>(xs, rest). (JObj xs, rest)) (json_object n cs)
                | [] \<Rightarrow> None)
             else json_literal t)"
| "json_array 0 s = None"
| "json_array (Suc n) s =
     (case json_value n s of
        None \<Rightarrow> None
      | Some (x, rest) \<Rightarrow>
          (case skip_space rest of
             [] \<Rightarrow> None
           | c # cs \<Rightarrow>
               if c = CHR '']'' then Some ([x], cs)
               else if c = CHR '','' then map_option (\<lambda>(xs, r). (x # xs, r)) (json_array n cs)
               else None))"
| "json_object 0 s = None"
| "json_object (Suc n) s =
     (case skip_space s of
        [] \<Rightarrow> None
      | q # qs \<Rightarrow>
          if q \<noteq> CHR 0x22 then None
          else case json_chars qs of
              None \<Rightarrow> None
            | Some (k, rest) \<Rightarrow>
                (case skip_space rest of
                   [] \<Rightarrow> None
                 | c # cs \<Rightarrow>
                     if c \<noteq> CHR '':'' then None
                     else case json_value n cs of
                         None \<Rightarrow> None
                       | Some (x, rest') \<Rightarrow>
                           (case skip_space rest' of
                              [] \<Rightarrow> None
                            | d # ds \<Rightarrow>
                                if d = CHR ''}'' then Some ([(k, x)], ds)
                                else if d = CHR '','' then map_option (\<lambda>(xs, r). ((k, x) # xs, r)) (json_object n ds)
                                else None)))"

definition json_parse :: "string \<Rightarrow> json option" where
  "json_parse s =
     (case json_value (Suc (length s)) s of
        None \<Rightarrow> None
      | Some (v, rest) \<Rightarrow> if skip_space rest = [] then Some v else None)"

text \<open>A member of a parsed object: the last one of a name counts.\<close>

definition json_member :: "string \<Rightarrow> (string \<times> json) list \<Rightarrow> json option" where
  "json_member k ms = map_of (rev ms) k"

section \<open>Reading what was printed\<close>

lemma json_hex_value_hex: "n < 16 \<Longrightarrow> json_hex_value (json_hex n) = Some n"
  by (auto simp: json_hex_value_def json_hex_def Let_def)

lemma json_control_chars:
  assumes "n < 32"
  shows "json_chars ([CHR 0x5C, CHR ''u'', CHR ''0'', CHR ''0'', json_hex (n div 16), json_hex (n mod 16)] @ s) =
    map_option (\<lambda>(t, r). (char_of n # t, r)) (json_chars s)"
proof -
  have "n div 16 < 16" "n mod 16 < 16" using assms by auto
  moreover have "json_hex_value (CHR ''0'') = Some 0" by code_simp
  moreover have "n div 16 * 16 + n mod 16 = n" by simp
  ultimately show ?thesis using assms
    by (simp add: json_hex_value_hex code_unit_bytes_def)
qed

lemma special_chars:
  "char_of (34::nat) = CHR 0x22" "char_of (92::nat) = CHR 0x5C" "char_of (8::nat) = CHR 0x08" "char_of (9::nat) = CHR 0x09"
  "char_of (10::nat) = CHR 0x0A" "char_of (12::nat) = CHR 0x0C" "char_of (13::nat) = CHR 0x0D"
  by code_simp+

lemma json_chars_escape: "json_chars (json_escape c @ s) = map_option (\<lambda>(t, r). (c # t, r)) (json_chars s)"
proof -
  define n where "n = (of_char c :: nat)"
  have c: "c = char_of n" by (simp add: n_def)
  consider "n = 34" | "n = 92" | "n = 8" | "n = 9" | "n = 10" | "n = 12" | "n = 13"
    | "n \<noteq> 8" "n \<noteq> 9" "n \<noteq> 10" "n \<noteq> 12" "n \<noteq> 13" "n < 32" | "n \<noteq> 34" "n \<noteq> 92" "32 \<le> n" by linarith
  then show ?thesis
  proof cases
    case 8
    then have "json_escape c = [CHR 0x5C, CHR ''u'', CHR ''0'', CHR ''0'', json_hex (n div 16), json_hex (n mod 16)]"
      by (simp add: json_escape_def n_def [symmetric] Let_def)
    then show ?thesis using json_control_chars [of n s] 8 by (simp add: c)
  next
    case 9
    then have "c \<noteq> CHR 0x22" "c \<noteq> CHR 0x5C" "json_escape c = [c]"
      by (auto simp: json_escape_def n_def Let_def)
    then show ?thesis using 9 by (simp add: n_def)
  qed (simp_all add: json_escape_def c special_chars simple_escape_def Let_def)
qed

lemma json_chars_quote: "json_chars (concat (map json_escape s) @ CHR 0x22 # rest) = Some (s, rest)"
  by (induction s) (simp_all add: json_chars_escape del: json_chars.simps(2), simp)

end
