(* ===== verification/LogMetadata.thy ===== *)
theory LogMetadata
  imports Encryption Json
begin

text \<open>
  The metadata columns of a delivery log (\<open>src/security/deliveryLogMetadata.ts\<close>): sender and subject,
  in plain columns or sealed as one JSON document bound to the log's id.
\<close>

definition metadata_aad :: "uuid \<Rightarrow> string" where
  "metadata_aad deliveryLogId = ''delivery-log-meta:'' @ deliveryLogId"

definition nullable_json :: "string option \<Rightarrow> json" where
  "nullable_json v = (case v of None \<Rightarrow> JNull | Some s \<Rightarrow> JStr s)"

text \<open>\<open>JSON.stringify(normalizeMetadata(value))\<close>\<close>

definition metadata_payload :: "string option \<Rightarrow> string option \<Rightarrow> string option \<Rightarrow> bytes" where
  "metadata_payload envelopeFrom headerFrom subject =
     json_text (JObj [(''envelopeFrom'', nullable_json envelopeFrom), (''headerFrom'', nullable_json headerFrom), (''subject'', nullable_json subject)])"

definition prepare_delivery_log_metadata_write :: "uuid \<Rightarrow> string option \<Rightarrow> string option \<Rightarrow> string option \<Rightarrow> metadata_columns io" where
  "prepare_delivery_log_metadata_write deliveryLogId envelopeFrom headerFrom subject =
     bind (encrypt_buffer_for_storage (metadata_payload envelopeFrom headerFrom subject) (metadata_aad deliveryLogId)) (\<lambda>(blob, metadata).
       if enc_mode metadata = ''none'' then
         ret \<lparr> md_envelopeFrom = envelopeFrom, md_headerFrom = headerFrom, md_subject = subject, md_ciphertext = None, md_encryption = no_encryption \<rparr>
       else
         ret \<lparr> md_envelopeFrom = None, md_headerFrom = None, md_subject = None, md_ciphertext = Some (to_base64 blob), md_encryption = metadata \<rparr>)"

definition normalize_string_field :: "json option \<Rightarrow> string option" where
  "normalize_string_field v = (case v of Some (JStr s) \<Rightarrow> Some s | _ \<Rightarrow> None)"

text \<open>Reading a member of \<open>null\<close> throws; any other value that is not an object has no such members.\<close>

definition parse_metadata_payload :: "bytes \<Rightarrow> exn + string option \<times> string option \<times> string option" where
  "parse_metadata_payload payload =
     (case json_parse payload of
        None \<Rightarrow> Inl (Thrown ''SyntaxError'')
      | Some JNull \<Rightarrow> Inl (Thrown ''TypeError'')
      | Some (JObj ms) \<Rightarrow>
          Inr (normalize_string_field (json_member ''envelopeFrom'' ms), normalize_string_field (json_member ''headerFrom'' ms),
               normalize_string_field (json_member ''subject'' ms))
      | Some _ \<Rightarrow> Inr (None, None, None))"

definition read_delivery_log_metadata :: "env \<Rightarrow> uuid \<Rightarrow> metadata_columns \<Rightarrow> exn + string option \<times> string option \<times> string option" where
  "read_delivery_log_metadata e logId cols =
     (let mode = enc_mode (md_encryption cols)
      in if mode = ''none'' then Inr (md_envelopeFrom cols, md_headerFrom cols, md_subject cols)
         else if mode \<noteq> ''local-v1'' then Inl (Thrown (''Unsupported delivery-log metadata encryption mode: '' @ mode))
         else if \<not> truthy (md_ciphertext cols) then Inl (Thrown ''Encrypted delivery-log metadata is missing ciphertext'')
         else case decrypt_buffer_from_storage e (from_base64 (the (md_ciphertext cols))) (md_encryption cols) (metadata_aad logId) of
             Inl x \<Rightarrow> Inl x
           | Inr plaintext \<Rightarrow> parse_metadata_payload plaintext)"

definition backfill_delivery_log_metadata :: "uuid \<Rightarrow> metadata_columns \<Rightarrow> metadata_columns io" where
  "backfill_delivery_log_metadata logId cols =
     (if enc_mode (md_encryption cols) \<noteq> ''none'' then ret cols
      else prepare_delivery_log_metadata_write logId (md_envelopeFrom cols) (md_headerFrom cols) (md_subject cols))"

text \<open>The two columns a rewrap writes: the wrapped key and its master key's id.\<close>

definition rewrap_delivery_log_metadata :: "metadata_columns \<Rightarrow> (string option \<times> string option) io" where
  "rewrap_delivery_log_metadata cols =
     (if enc_mode (md_encryption cols) \<noteq> ''local-v1''
      then ret (enc_wrappedDek (md_encryption cols), enc_kekKeyId (md_encryption cols))
      else bind (rewrap_storage_encryption_metadata (md_encryption cols)) (\<lambda>rewrapped.
        ret (enc_wrappedDek rewrapped, enc_kekKeyId rewrapped)))"

section \<open>The columns give back the metadata\<close>

lemma json_object_member:
  assumes "json_value n (json_text v @ d # ds) = Some (v, d # ds)" and "d = CHR '','' \<or> d = CHR ''}''"
  shows "json_object (Suc n) (json_quote k @ CHR '':'' # json_text v @ d # ds) =
    (if d = CHR ''}'' then Some ([(k, v)], ds) else map_option (\<lambda>(xs, r). ((k, v) # xs, r)) (json_object n ds))"
  using assms by (auto simp: json_quote_def skip_space_def json_space_def json_chars_quote)

lemma json_value_nullable: "json_value (Suc n) (json_text (nullable_json v) @ d # ds) = Some (nullable_json v, d # ds)"
  by (cases v)
    (simp_all add: nullable_json_def skip_space_def json_space_def json_literal_def json_quote_def json_chars_quote)

lemma parse_metadata_payload: "parse_metadata_payload (metadata_payload a b c) = Inr (a, b, c)"
proof -
  let ?ms = "[(''envelopeFrom'', nullable_json a), (''headerFrom'', nullable_json b), (''subject'', nullable_json c)]"
  let ?b = "json_quote ''headerFrom'' @ '':'' @ json_text (nullable_json b) @ '','' @ json_quote ''subject'' @ '':'' @ json_text (nullable_json c) @ ''}''"
  have "json_object (Suc (Suc (Suc (Suc n)))) (json_members ?ms @ ''}'') = Some (?ms, [])" for n
    using json_object_member [where n = "Suc (Suc (Suc n))" and v = "nullable_json a" and k = "''envelopeFrom''" and d = "CHR '',''" and ds = ?b]
      json_object_member [where n = "Suc (Suc n)" and v = "nullable_json b" and k = "''headerFrom''" and d = "CHR '',''"
        and ds = "json_quote ''subject'' @ '':'' @ json_text (nullable_json c) @ ''}''"]
      json_object_member [where n = "Suc n" and v = "nullable_json c" and k = "''subject''" and d = "CHR ''}''" and ds = "[]"]
    by (simp del: json_object.simps json_value.simps add: json_value_nullable)
  then have o: "json_object (Suc (Suc (Suc (Suc n)))) (json_members ?ms @ ''}'') = Some (?ms, [])" for n .
  have "\<exists>n. length (metadata_payload a b c) = Suc (Suc (Suc (Suc n)))"
    by (simp add: metadata_payload_def json_quote_def del: json_text.simps(1,2,3,4,5))
  then obtain n where n: "length (metadata_payload a b c) = Suc (Suc (Suc (Suc n)))" by blast
  have "\<exists>r. json_members ?ms = CHR 0x22 # r" by (simp add: json_quote_def)
  then have "json_parse (metadata_payload a b c) = Some (JObj ?ms)"
    using o [of n] unfolding json_parse_def n
    by (auto simp: metadata_payload_def skip_space_def json_space_def simp del: json_object.simps json_members.simps)
  then show ?thesis
    by (cases a; cases b; cases c) (simp_all add: parse_metadata_payload_def json_member_def normalize_string_field_def nullable_json_def)
qed

text \<open>The metadata written for a log reads back as it was given, in plain columns or sealed, also after
  the active master key has been replaced, as long as the old key is kept in the keyring.\<close>

theorem log_metadata_reads_back:
  assumes "prepare_delivery_log_metadata_write logId envelopeFrom headerFrom subject e w = (Inr cols, w')"
    and "configure_storage_encryption c = Inr (active_provider e)" and "crypto_lengths e"
    and "gcm_tag e' = gcm_tag e" "aes_keystream e' = aes_keystream e"
    and "\<forall>p. active_provider e = Some p \<longrightarrow> (\<exists>p'. active_provider e' = Some p' \<and> has_key p' (kp_keyId p) (kp_masterKey p))"
  shows "read_delivery_log_metadata e' logId cols = Inr (envelopeFrom, headerFrom, subject)"
proof -
  obtain blob meta w1 where r: "encrypt_buffer_for_storage (metadata_payload envelopeFrom headerFrom subject) (metadata_aad logId) e w = (Inr (blob, meta), w1)"
    and k: "cols = (if enc_mode meta = ''none'' then
         \<lparr> md_envelopeFrom = envelopeFrom, md_headerFrom = headerFrom, md_subject = subject, md_ciphertext = None, md_encryption = no_encryption \<rparr>
       else \<lparr> md_envelopeFrom = None, md_headerFrom = None, md_subject = None, md_ciphertext = Some (to_base64 blob), md_encryption = meta \<rparr>)"
    using assms(1) by (auto simp: prepare_delivery_log_metadata_write_def bind_Inr ret_Inr split: if_splits)
  have d: "decrypt_buffer_from_storage e' blob meta (metadata_aad logId) = Inr (metadata_payload envelopeFrom headerFrom subject)"
    using r assms(2-6) by (rule decrypt_encrypted)
  show ?thesis
  proof (cases "enc_mode meta = ''none''")
    case True
    then show ?thesis by (simp add: k read_delivery_log_metadata_def no_encryption_def)
  next
    case False
    then obtain p where p: "active_provider e = Some p" using r
      by (auto simp: encrypt_buffer_for_storage_def bind_Inr ask_Inr ret_Inr no_encryption_def split: option.splits)
    obtain iv ct tag where b: "blob = file_magic @ [file_version] @ iv @ ct @ tag" "enc_mode meta = ''local-v1''"
      by (rule encrypt_Inr [OF r p assms(3)]) (use that in auto)
    have "to_base64 blob \<noteq> []" by (simp add: b file_magic_def del: to_base64.simps)
    then show ?thesis using d b(2) by (simp add: k read_delivery_log_metadata_def from_to_base64 parse_metadata_payload Let_def)
  qed
qed

theorem log_metadata_reads_back_witness:
  "\<exists>cols w'. prepare_delivery_log_metadata_write ''l1'' (Some ''a@b.c'') None (Some ''hi'') (sealing_env old_provider) (start_world empty_db) = (Inr cols, w') \<and>
     read_delivery_log_metadata (sealing_env new_provider) ''l1'' cols = Inr (Some ''a@b.c'', None, Some ''hi'')"
proof -
  obtain blob meta w1 where "encrypt_buffer_for_storage (metadata_payload (Some ''a@b.c'') None (Some ''hi'')) (metadata_aad ''l1'')
      (sealing_env old_provider) (start_world empty_db) = (Inr (blob, meta), w1)"
    using sealing_runs [of "sealing_env old_provider" old_provider] by (simp, blast)
  then obtain cols w' where r: "prepare_delivery_log_metadata_write ''l1'' (Some ''a@b.c'') None (Some ''hi'') (sealing_env old_provider) (start_world empty_db) = (Inr cols, w')"
    by (cases "enc_mode meta = ''none''") (auto simp: prepare_delivery_log_metadata_write_def bind_def ret_def)
  have "read_delivery_log_metadata (sealing_env new_provider) ''l1'' cols = Inr (Some ''a@b.c'', None, Some ''hi'')"
    using r by (rule log_metadata_reads_back [where c = old_key_config]) (simp_all add: sample_keys_configured sample_has_key)
  with r show ?thesis by blast
qed

section \<open>Frame rules\<close>

lemma quiet_encryption [quiet_rules]:
  "quiet (wrap_key p dek)" "quiet (encrypt_buffer_for_storage plain aad)" "quiet (prepare_delivery_log_metadata_write i a b c)"
  unfolding prepare_delivery_log_metadata_write_def encrypt_buffer_for_storage_def wrap_key_def
  by (intro quiet_rules)+

end
