(* ===== verification/InboundQueue.thy ===== *)
theory InboundQueue
  imports Limits SenderRules LogMetadata
begin

text \<open>
  The acceptance stage of inbound email (\<open>src/email/pipeline/queue.ts\<close>, its types in
  \<open>pipeline/types.ts\<close>) with the alias lookup (\<open>src/email/inboundRouting.ts\<close>) and the duplicate test
  (\<open>src/email/dedup.ts\<close>).  The quota decision, the duplicate test, the hourly
  cap, the log and the charges run in one transaction under the owner's and the alias's lock.
\<close>

section \<open>Types\<close>

record pipeline_input =
  pi_rawEmail :: bytes
  pi_rawEmailPath :: "string option"
  pi_localPart :: string
  pi_recipientDomain :: "string option"
  pi_envelopeFrom :: "string option"
  pi_publicBaseUrl :: string
  pi_rawEmailEncryption :: "encryption_meta option"
  pi_attachmentDir :: string
  pi_attachmentTtlHours :: int
  pi_rawEmailTtlHours :: int
  pi_telegramRichMessagesEnabled :: "bool option"

datatype reject_reason =
    AliasNotFound | RejectedSender allow_reason | DuplicateEmail | RateLimited | OverLimit limit_code
  | UserDeleted | SendFailed | ChatMigrated

record pipeline_result =
  res_ok :: bool
  res_reason :: "reject_reason option"
  res_userId :: "bigint option"
  res_month :: "string option"
  res_senderRejection :: "(uuid \<times> string option) option"   \<comment> \<open>alias id, header From domain\<close>

record queued_email =
  qe_alias :: alias_row
  qe_parsed :: parsed_email
  qe_deliveryLog :: log_row
  qe_envelopeFrom :: "string option"
  qe_publicBaseUrl :: string
  qe_attachmentDir :: string
  qe_attachmentTtlHours :: int
  qe_rawEmailTtlHours :: int
  qe_telegramRichMessagesEnabled :: bool

datatype queue_result = Queued queued_email string int   \<comment> \<open>job, usage month, delivered count\<close>
  | NotQueued pipeline_result

definition accepted :: pipeline_result where
  "accepted = \<lparr> res_ok = True, res_reason = None, res_userId = None, res_month = None, res_senderRejection = None \<rparr>"

definition rejected_for :: "reject_reason \<Rightarrow> pipeline_result" where
  "rejected_for r = \<lparr> res_ok = False, res_reason = Some r, res_userId = None, res_month = None, res_senderRejection = None \<rparr>"

section \<open>Alias lookup\<close>

definition should_use_hosted_domain_routing :: "env \<Rightarrow> bool" where
  "should_use_hosted_domain_routing e =
     (if app_mode_env e = Some ''hosted'' then True
      else if app_mode_env e = Some ''self-hosted'' then False
      else config_app_mode e = Some ''hosted'')"

definition find_alias_for_inbound :: "string \<Rightarrow> string option \<Rightarrow> alias_row option io" where
  "find_alias_for_inbound localPart recipientDomain =
     bind (ask should_use_hosted_domain_routing) (\<lambda>hosted.
       if \<not> hosted then db_read (find_alias_by_local_part localPart)
       else if \<not> truthy recipientDomain then ret None
       else bind (db_read (find_inbound_domain_by_domain (the recipientDomain))) (\<lambda>domain.
         case domain of
           None \<Rightarrow> ret None
         | Some dmn \<Rightarrow> if dm_status dmn \<noteq> DomainActive then ret None
                      else db_read (find_alias_by_local_part_and_domain_id localPart (dm_id dmn))))"

section \<open>Duplicates\<close>

definition is_duplicate :: "string option \<Rightarrow> string option \<Rightarrow> uuid \<Rightarrow> bool \<Rightarrow> bool io" where
  "is_duplicate messageId bodySha256 aliasId bodyDedupEnabled =
     bind (if truthy messageId
           then bind (db_read (find_delivery_log_by_message_id (the messageId) aliasId)) (\<lambda>existing. ret (existing \<noteq> None))
           else ret False) (\<lambda>byMessageId.
       if byMessageId then ret True
       else case bodySha256 of
           None \<Rightarrow> ret False
         | Some h \<Rightarrow> if \<not> bodyDedupEnabled then ret False
                    else bind (db_read (find_delivery_log_by_body_hash h aliasId)) (\<lambda>existing. ret (existing \<noteq> None)))"

section \<open>The locked decision\<close>

datatype locked_decision = LimitDecision limit_code | DuplicateDecision | RateDecision | AcceptDecision log_row int

definition reserved_attachment_bytes :: "parsed_email \<Rightarrow> int" where
  "reserved_attachment_bytes parsed = fold (\<lambda>a s. s + pa_sizeBytes a) (pe_attachments parsed) 0"

definition new_delivery_log ::
  "uuid \<Rightarrow> metadata_columns \<Rightarrow> pipeline_input \<Rightarrow> alias_row \<Rightarrow> parsed_email \<Rightarrow> log_row" where
  "new_delivery_log logId meta inp al parsed =
     \<lparr> dl_id = logId, dl_emailAddressId = al_id al, dl_userId = Some (al_createdBy al),
       dl_messageIdHeader = pe_messageId parsed, dl_bodySha256 = pe_bodySha256 parsed,
       dl_bodyDedupApplied = al_bodyDedupEnabled al, dl_metadata = meta,
       dl_receivedAt = 0, dl_processingStartedAt = None, dl_rawSizeBytes = pe_rawSizeBytes parsed,
       dl_rawEmailPath = pi_rawEmailPath inp,
       dl_rawEmailEncryption = or_else (pi_rawEmailEncryption inp) no_encryption,
       dl_hasAttachments = (pe_attachments parsed \<noteq> []), dl_finalStatus = Received \<rparr>"

text \<open>Lines 126 to 184: the log and the two charges.\<close>

definition accept_email :: "pipeline_input \<Rightarrow> alias_row \<Rightarrow> parsed_email \<Rightarrow> string option \<Rightarrow> string \<Rightarrow> locked_decision io" where
  "accept_email inp al parsed envelopeFrom month =
     bind random_uuid (\<lambda>logId.
     bind (prepare_delivery_log_metadata_write logId envelopeFrom (pe_headerFrom parsed) (pe_subject parsed)) (\<lambda>meta.
     bind (create_delivery_log (new_delivery_log logId meta inp al parsed)) (\<lambda>log.
       case log of
         None \<Rightarrow> ret DuplicateDecision
       | Some l \<Rightarrow>
           bind (increment_user_usage_month (al_createdBy al) month 1 0 0) (\<lambda>usageAfterCharge.
           bind (increment_user_storage_usage (al_createdBy al) (int (length (pi_rawEmail inp)))
                   (reserved_attachment_bytes parsed)) (\<lambda>_.
           ret (AcceptDecision l (um_deliveredCount usageAfterCharge)))))))"

text \<open>Lines 77 to 196: the transaction's callback.\<close>

definition locked_queue_decision ::
  "pipeline_input \<Rightarrow> alias_row \<Rightarrow> parsed_email \<Rightarrow> string option \<Rightarrow> string \<Rightarrow> locked_decision io" where
  "locked_queue_decision inp al parsed envelopeFrom month =
     bind advisory_lock (\<lambda>_.
     bind advisory_lock (\<lambda>_.
     bind (resolve_inbound_plan (Some (al_createdBy al))) (\<lambda>inboundPlan.
     bind (check_inbound_limit_for_plan inboundPlan (Some (int (length (pi_rawEmail inp))))
             (Some (int (length (pi_rawEmail inp)) + reserved_attachment_bytes parsed)) month) (\<lambda>inboundLimit.
       case inboundLimit of
         LimitHit code lim used \<Rightarrow>
           bind (if is_quota_notification_reason code
                 then bind (increment_user_usage_month (al_createdBy al) month 0 1 0) (\<lambda>_. ret ())
                 else ret ()) (\<lambda>_.
           ret (LimitDecision code))
       | LimitOk \<Rightarrow>
           bind (is_duplicate (pe_messageId parsed) (pe_bodySha256 parsed) (al_id al) (al_bodyDedupEnabled al)) (\<lambda>dup.
             if dup then ret DuplicateDecision
             else bind now (\<lambda>t.
                  bind (db_read (count_recent_deliveries_by_alias (al_id al) (t - 60 * 60 * 1000))) (\<lambda>recentDeliveries.
                    if lim_aliasEmailsPerHour (pl_limits (ip_plan inboundPlan)) \<le> int recentDeliveries
                    then ret RateDecision
                    else accept_email inp al parsed envelopeFrom month)))))))"

definition queue_allowed_inbound_email ::
  "pipeline_input \<Rightarrow> alias_row \<Rightarrow> parsed_email \<Rightarrow> string option \<Rightarrow> queue_result io" where
  "queue_allowed_inbound_email inp al parsed envelopeFrom =
     bind now (\<lambda>t.
       let month = usage_month_for_date t
       in bind (transaction (locked_queue_decision inp al parsed envelopeFrom month)) (\<lambda>decision.
         case decision of
           DuplicateDecision \<Rightarrow> ret (NotQueued (rejected_for DuplicateEmail))
         | RateDecision \<Rightarrow> ret (NotQueued (rejected_for RateLimited))
         | LimitDecision code \<Rightarrow>
             ret (NotQueued ((rejected_for (OverLimit code))\<lparr> res_userId := Some (al_createdBy al), res_month := Some month \<rparr>))
         | AcceptDecision log deliveredCount \<Rightarrow>
             ret (Queued \<lparr> qe_alias = al, qe_parsed = parsed, qe_deliveryLog = log, qe_envelopeFrom = envelopeFrom,
                    qe_publicBaseUrl = pi_publicBaseUrl inp, qe_attachmentDir = pi_attachmentDir inp,
                    qe_attachmentTtlHours = pi_attachmentTtlHours inp, qe_rawEmailTtlHours = pi_rawEmailTtlHours inp,
                    qe_telegramRichMessagesEnabled = or_else (pi_telegramRichMessagesEnabled inp) True \<rparr>
                  month deliveredCount)))"

section \<open>The stage\<close>

definition sender_evaluation :: "bytes \<Rightarrow> string option \<Rightarrow> parsed_email \<Rightarrow> allow_rule_row list \<Rightarrow> allow_evaluation io" where
  "sender_evaluation rawEmail envelopeFrom parsed rules =
     bind (if has_authenticated_rule_candidate rules (pe_headerFromEmail parsed) (pe_headerFromDomain parsed)
           then bind (authenticate_sender rawEmail envelopeFrom) (\<lambda>a. ret (Some a))
           else ret None) (\<lambda>senderAuth.
     ret (evaluate_allow_rules rules senderAuth))"

definition queue_inbound_email :: "pipeline_input \<Rightarrow> queue_result io" where
  "queue_inbound_email inp =
     bind (find_alias_for_inbound (pi_localPart inp) (pi_recipientDomain inp)) (\<lambda>found.
       case found of
         None \<Rightarrow> ret (NotQueued (rejected_for AliasNotFound))
       | Some al \<Rightarrow>
           if al_status al \<noteq> Active then ret (NotQueued (rejected_for AliasNotFound))
           else
             bind (parse_email (pi_rawEmail inp) (int (length (pi_rawEmail inp)))) (\<lambda>parsed.
               let envelopeFrom = normalize_envelope_sender (pi_envelopeFrom inp)
               in bind (db_read (list_allow_rules (al_id al))) (\<lambda>rules.
                  bind (sender_evaluation (pi_rawEmail inp) envelopeFrom parsed rules) (\<lambda>allowEvaluation.
                    case allowEvaluation of
                      NotAllowed reason \<Rightarrow>
                        ret (NotQueued ((rejected_for (RejectedSender reason))\<lparr> res_senderRejection :=
                          (if reason = SenderNotAllowed then Some (al_id al, pe_headerFromDomain parsed) else None) \<rparr>))
                    | Allowed \<Rightarrow> queue_allowed_inbound_email inp al parsed envelopeFrom))))"

section \<open>What a decision does to the database\<close>

definition charge_email :: "bigint \<Rightarrow> string \<Rightarrow> int \<Rightarrow> int \<Rightarrow> log_row \<Rightarrow> db \<Rightarrow> db" where
  "charge_email u month raw att log d =
     snd (upsert_storage u raw att (snd (upsert_usage u month 1 0 0 (d\<lparr>deliveryLogs := deliveryLogs d @ [log]\<rparr>))))"

lemma usage_of_logs [simp]:
  "get_user_usage_month u m (d\<lparr>deliveryLogs := x\<rparr>) = get_user_usage_month u m d"
  "get_user_storage_usage u (d\<lparr>deliveryLogs := x\<rparr>) = get_user_storage_usage u d"
  by (simp_all add: get_user_usage_month_def get_user_storage_usage_def)

lemma usage_of_storage [simp]:
  "get_user_usage_month v n (snd (upsert_storage u raw att d)) = get_user_usage_month v n d"
  "get_user_storage_usage v (snd (upsert_usage u m dc rc eb d)) = get_user_storage_usage v d"
  "deliveryLogs (snd (upsert_storage u raw att d)) = deliveryLogs d"
  "deliveryLogs (snd (upsert_usage u m dc rc eb d)) = deliveryLogs d"
  by (auto simp: upsert_storage_def upsert_usage_def get_user_usage_month_def get_user_storage_usage_def Let_def
      split: option.splits)

lemma charge_email_balances:
  "delivered_count (charge_email u m raw att log d) k = delivered_count d k + (if k = (u, m) then 1 else 0)"
  "rejected_count (charge_email u m raw att log d) k = rejected_count d k"
  "egress_count (charge_email u m raw att log d) k = egress_count d k"
  "raw_bytes (charge_email u m raw att log d) v = raw_bytes d v + (if v = u then raw else 0)"
  "attachment_bytes (charge_email u m raw att log d) v = attachment_bytes d v + (if v = u then att else 0)"
  "deliveryLogs (charge_email u m raw att log d) = deliveryLogs d @ [log]"
  by (auto simp: charge_email_def balance_defs row_simps fst_upsert_usage fst_upsert_storage add_usage_def add_storage_def
      prod_eq_iff split: option.splits)

lemma charged_count:
  "um_deliveredCount (fst (upsert_usage u m 1 0 0 (d\<lparr>deliveryLogs := x\<rparr>))) = delivered_count (charge_email u m raw att log d) (u, m)"
  unfolding charge_email_balances by (simp add: fst_upsert_usage add_usage_def delivered_count_def split: option.splits)

lemma create_delivery_log_Inr:
  assumes "create_delivery_log l e w = (Inr r, w')" and "w_tx w = InTx" and "w_tx w' \<noteq> Broken"
  shows "(r = None \<and> w_db w' = w_db w) \<or>
     (r = Some (l\<lparr>dl_receivedAt := w_txNow w\<rparr>) \<and> \<not> list_ex (log_conflict l) (deliveryLogs (w_db w)) \<and> w_tx w' = InTx \<and>
      w_txNow w' = w_txNow w \<and>
      w_db w' = (w_db w)\<lparr>deliveryLogs := deliveryLogs (w_db w) @ [l\<lparr>dl_receivedAt := w_txNow w\<rparr>]\<rparr>)"
  using assms
  by (auto simp: create_delivery_log_def catch_def bind_def db_stmt_def insert_delivery_log_def ret_def ask_def throw_def Let_def
      break_tx_def abort_def split: prod.splits sum.splits fault.splits if_splits)

lemma increment_usage_Inr:
  "increment_user_usage_month u m dc rc eb e w = (Inr r, w') \<longleftrightarrow>
     0 \<le> dc \<and> 0 \<le> rc \<and> 0 \<le> eb \<and> w_tx w \<noteq> Aborted \<and> w_tx w \<noteq> Broken \<and> db_fault e (w_tick w) = Fine \<and>
     r = fst (upsert_usage u m dc rc eb (w_db w)) \<and>
     w' = w\<lparr>w_tick := Suc (w_tick w), w_db := snd (upsert_usage u m dc rc eb (w_db w))\<rparr>"
  by (auto simp: increment_user_usage_month_def db_stmt_total_Inr)

lemma increment_storage_Inr:
  "increment_user_storage_usage u raw att e w = (Inr r, w') \<longleftrightarrow>
     0 \<le> raw \<and> 0 \<le> att \<and> w_tx w \<noteq> Aborted \<and> w_tx w \<noteq> Broken \<and> db_fault e (w_tick w) = Fine \<and>
     r = fst (upsert_storage u raw att (w_db w)) \<and>
     w' = w\<lparr>w_tick := Suc (w_tick w), w_db := snd (upsert_storage u raw att (w_db w))\<rparr>"
  by (auto simp: increment_user_storage_usage_def assert_non_negative_storage_delta_def bind_Inr ret_Inr db_stmt_total_Inr)

lemma quiet_queue [quiet_rules]:
  "quiet (is_duplicate mid h a b)"
  "quiet (find_alias_for_inbound lp dn)" "quiet (parse_email raw n)"
  unfolding is_duplicate_def find_alias_for_inbound_def parse_email_def
  by (intro quiet_rules)+

lemma quiet_authenticate [quiet_rules]: "quiet (authenticate_sender raw env)"
  unfolding authenticate_sender_def Let_def by (intro quiet_rules)

lemma quiet_evaluation [quiet_rules]: "quiet (sender_evaluation raw env parsed rules)"
  unfolding sender_evaluation_def by (intro quiet_rules)

lemma accept_email_Inr:
  assumes "accept_email inp al parsed env month e w = (Inr dcn, w')" and "w_tx w = InTx" and "w_tx w' \<noteq> Broken"
  shows "(dcn = DuplicateDecision \<and> w_db w' = w_db w) \<or>
     (\<exists>logId meta log. log = (new_delivery_log logId meta inp al parsed)\<lparr>dl_receivedAt := w_txNow w\<rparr> \<and>
        \<not> list_ex (log_conflict log) (deliveryLogs (w_db w)) \<and> 0 \<le> reserved_attachment_bytes parsed \<and> w_tx w' = InTx \<and>
        w_db w' = charge_email (al_createdBy al) month (int (length (pi_rawEmail inp))) (reserved_attachment_bytes parsed) log (w_db w) \<and>
        dcn = AcceptDecision log (delivered_count (w_db w') (al_createdBy al, month)))"
proof -
  obtain logId w1 meta w2 r w3 where
      u: "random_uuid e w = (Inr logId, w1)"
    and m: "prepare_delivery_log_metadata_write logId env (pe_headerFrom parsed) (pe_subject parsed) e w1 = (Inr meta, w2)"
    and c: "create_delivery_log (new_delivery_log logId meta inp al parsed) e w2 = (Inr r, w3)"
    and k: "(case r of None \<Rightarrow> ret DuplicateDecision
       | Some l \<Rightarrow> bind (increment_user_usage_month (al_createdBy al) month 1 0 0) (\<lambda>usageAfterCharge.
           bind (increment_user_storage_usage (al_createdBy al) (int (length (pi_rawEmail inp))) (reserved_attachment_bytes parsed)) (\<lambda>_.
           ret (AcceptDecision l (um_deliveredCount usageAfterCharge))))) e w3 = (Inr dcn, w')"
    using assms(1) unfolding accept_email_def by (auto simp: bind_Inr)
  have q: "w_db w2 = w_db w" "w_tx w2 = InTx" "w_txNow w2 = w_txNow w"
    using quietD [OF quiet_random_uuid u] quietD [OF quiet_encryption(3) m] assms(2) by auto
  have nb: "w_tx w3 \<noteq> Broken"
    using k assms(3) by (auto simp: run_simps increment_usage_Inr increment_storage_Inr split: option.splits)
  let ?l = "new_delivery_log logId meta inp al parsed"
  from create_delivery_log_Inr [OF c q(2) nb] show ?thesis
  proof
    assume "r = None \<and> w_db w3 = w_db w2"
    with k q show ?thesis by (auto simp: run_simps)
  next
    assume r: "r = Some (?l\<lparr>dl_receivedAt := w_txNow w2\<rparr>) \<and> \<not> list_ex (log_conflict ?l) (deliveryLogs (w_db w2)) \<and>
      w_tx w3 = InTx \<and> w_txNow w3 = w_txNow w2 \<and>
      w_db w3 = (w_db w2)\<lparr>deliveryLogs := deliveryLogs (w_db w2) @ [?l\<lparr>dl_receivedAt := w_txNow w2\<rparr>]\<rparr>"
    let ?log = "?l\<lparr>dl_receivedAt := w_txNow w\<rparr>"
    have "log_conflict ?log = log_conflict ?l" by (rule ext) (simp add: log_conflict_def same_key_def)
    moreover have "w_db w' = charge_email (al_createdBy al) month (int (length (pi_rawEmail inp))) (reserved_attachment_bytes parsed) ?log (w_db w)"
      and "dcn = AcceptDecision ?log (um_deliveredCount (fst (upsert_usage (al_createdBy al) month 1 0 0 (w_db w3))))"
      and "w_tx w' = InTx" "0 \<le> reserved_attachment_bytes parsed"
      using k r q by (auto simp: bind_Inr ret_Inr increment_usage_Inr increment_storage_Inr charge_email_def)
    moreover have "um_deliveredCount (fst (upsert_usage (al_createdBy al) month 1 0 0 (w_db w3))) =
        delivered_count (charge_email (al_createdBy al) month (int (length (pi_rawEmail inp))) (reserved_attachment_bytes parsed) ?log (w_db w)) (al_createdBy al, month)"
      using r q by (simp add: charged_count)
    ultimately show ?thesis using r q by (intro disjI2 exI [of _ logId] exI [of _ meta] exI [of _ ?log]) simp
  qed
qed

text \<open>What the decision found when it let an email in: the plan in force at some instant of the decision
  left room for it.\<close>

definition room_for :: "env \<Rightarrow> alias_row \<Rightarrow> string \<Rightarrow> int \<Rightarrow> int \<Rightarrow> db \<Rightarrow> bool" where
  "room_for e al month raw att d \<longleftrightarrow>
     (\<exists>limits t.
        (if should_enforce_hosted_limits e
         then \<exists>u s. user_by_id (al_createdBy al) d = Some u \<and> limits = pl_limits (effective_plan_at (plan_table e) s u) \<and>
                raw \<le> lim_maxMessageBytes limits \<and>
                (0 < raw + att \<longrightarrow> raw_bytes d (al_createdBy al) + attachment_bytes d (al_createdBy al) + (raw + att) \<le> lim_storageBytes limits) \<and>
                delivered_count d (al_createdBy al, month) < lim_deliveredEmailsMonth limits
         else limits = pl_limits (plan_table e Free)) \<and>
        int (count_recent_deliveries_by_alias (al_id al) (t - 60 * 60 * 1000) d) < lim_aliasEmailsPerHour limits)"

definition queue_effect :: "env \<Rightarrow> pipeline_input \<Rightarrow> alias_row \<Rightarrow> parsed_email \<Rightarrow> string \<Rightarrow> locked_decision \<Rightarrow> db \<Rightarrow> db \<Rightarrow> bool" where
  "queue_effect e inp al parsed month dcn d d' \<longleftrightarrow>
     (case dcn of
        LimitDecision code \<Rightarrow>
          d' = (if is_quota_notification_reason code then snd (upsert_usage (al_createdBy al) month 0 1 0 d) else d)
      | DuplicateDecision \<Rightarrow> d' = d
      | RateDecision \<Rightarrow> d' = d
      | AcceptDecision log n \<Rightarrow>
          (\<exists>logId meta t. log = (new_delivery_log logId meta inp al parsed)\<lparr>dl_receivedAt := t\<rparr>) \<and>
          \<not> list_ex (log_conflict log) (deliveryLogs d) \<and>
          room_for e al month (int (length (pi_rawEmail inp))) (reserved_attachment_bytes parsed) d \<and>
          d' = charge_email (al_createdBy al) month (int (length (pi_rawEmail inp))) (reserved_attachment_bytes parsed) log d \<and>
          n = delivered_count d' (al_createdBy al, month))"

lemma room_for_intro:
  assumes p: "resolve_inbound_plan (Some (al_createdBy al)) e w1 = (Inr p, w2)" "w_db w1 = d" "w_db w2 = d"
    and c: "check_inbound_limit_for_plan p (Some raw) (Some (raw + att)) month e w2 = (Inr LimitOk, w3)"
    and n: "int (count_recent_deliveries_by_alias (al_id al) (t - 60 * 60 * 1000) d) < lim_aliasEmailsPerHour (pl_limits (ip_plan p))"
  shows "room_for e al month raw att d"
proof (cases "should_enforce_hosted_limits e")
  case False
  then have "ip_plan p = plan_table e Free"
    using p(1) by (auto simp: resolve_inbound_plan_def run_simps get_plan_definition_def)
  with False n show ?thesis by (auto simp: room_for_def)
next
  case True
  then have h: "ip_hosted p" using resolve_inbound_planD(1) [OF p(1)] by simp
  obtain u where u: "ip_user p = Some u" "raw \<le> lim_maxMessageBytes (pl_limits (ip_plan p))"
    "0 < raw + att \<longrightarrow> storage_total (get_user_storage_usage (u_id u) d) + (raw + att) \<le> lim_storageBytes (pl_limits (ip_plan p))"
    "delivered_count d (u_id u, month) < lim_deliveredEmailsMonth (pl_limits (ip_plan p))"
    using inbound_limit_okD [OF c h] p(3) by auto
  have id: "user_by_id (al_createdBy al) d = Some u" using resolve_inbound_planD(2) [OF p(1) h] u(1) p(2) by simp
  then have "u_id u = al_createdBy al" by (simp add: user_by_id_Some)
  moreover obtain s where "ip_plan p = effective_plan_at (plan_table e) s u"
    using resolve_inbound_planD(3) [OF p(1) h u(1)] by blast
  moreover have "storage_total (get_user_storage_usage x d) = raw_bytes d x + attachment_bytes d x" for x
    by (simp add: storage_total_def raw_bytes_def attachment_bytes_def)
  ultimately show ?thesis using True u id n by (auto simp: room_for_def)
qed

lemma locked_decision_Inr:
  assumes run: "locked_queue_decision inp al parsed env month e w = (Inr dcn, w')"
    and tx: "w_tx w = InTx" "w_tx w' \<noteq> Broken"
  shows "queue_effect e inp al parsed month dcn (w_db w) (w_db w') \<and>
    (w_tx w' = InTx \<or> (dcn = DuplicateDecision \<and> w_db w' = w_db w))"
proof -
  let ?raw = "int (length (pi_rawEmail inp))" and ?att = "reserved_attachment_bytes parsed" and ?u = "al_createdBy al"
  obtain w1 w2 p w3 lr w4 where
      l1: "advisory_lock e w = (Inr (), w1)" and l2: "advisory_lock e w1 = (Inr (), w2)"
    and p: "resolve_inbound_plan (Some ?u) e w2 = (Inr p, w3)"
    and c: "check_inbound_limit_for_plan p (Some ?raw) (Some (?raw + ?att)) month e w3 = (Inr lr, w4)"
    and k: "(case lr of
         LimitHit code lim used \<Rightarrow>
           bind (if is_quota_notification_reason code
                 then bind (increment_user_usage_month ?u month 0 1 0) (\<lambda>_. ret ()) else ret ()) (\<lambda>_. ret (LimitDecision code))
       | LimitOk \<Rightarrow>
           bind (is_duplicate (pe_messageId parsed) (pe_bodySha256 parsed) (al_id al) (al_bodyDedupEnabled al)) (\<lambda>dup.
             if dup then ret DuplicateDecision
             else bind now (\<lambda>t. bind (db_read (count_recent_deliveries_by_alias (al_id al) (t - 60 * 60 * 1000))) (\<lambda>recentDeliveries.
                    if lim_aliasEmailsPerHour (pl_limits (ip_plan p)) \<le> int recentDeliveries
                    then ret RateDecision else accept_email inp al parsed env month)))) e w4 = (Inr dcn, w')"
    using run unfolding locked_queue_decision_def by (auto simp: bind_Inr)
  have d: "w_db w2 = w_db w" "w_db w3 = w_db w" "w_db w4 = w_db w" "w_tx w4 = InTx"
    using quietD [OF quiet_advisory_lock l1] quietD [OF quiet_advisory_lock l2] quietD [OF quiet_limits(3) p]
      quietD [OF quiet_limits(4) c] tx(1) by simp_all
  show ?thesis
  proof (cases lr)
    case (LimitHit code lim used)
    with k d show ?thesis
      by (cases "is_quota_notification_reason code") (auto simp: run_simps increment_usage_Inr queue_effect_def)
  next
    case LimitOk
    then obtain dup w5 where dup: "is_duplicate (pe_messageId parsed) (pe_bodySha256 parsed) (al_id al) (al_bodyDedupEnabled al) e w4 = (Inr dup, w5)"
      and k5: "(if dup then ret DuplicateDecision
             else bind now (\<lambda>t. bind (db_read (count_recent_deliveries_by_alias (al_id al) (t - 60 * 60 * 1000))) (\<lambda>recentDeliveries.
                    if lim_aliasEmailsPerHour (pl_limits (ip_plan p)) \<le> int recentDeliveries
                    then ret RateDecision else accept_email inp al parsed env month))) e w5 = (Inr dcn, w')"
      using k by (auto simp: bind_Inr)
    have d5: "w_db w5 = w_db w" "w_tx w5 = InTx" using quietD [OF quiet_queue(1) dup] d by simp_all
    show ?thesis
    proof (cases dup)
      case True
      with k5 d5 show ?thesis by (auto simp: run_simps queue_effect_def)
    next
      case False
      then obtain t w6 n w7 where t: "now e w5 = (Inr t, w6)"
        and n: "db_read (count_recent_deliveries_by_alias (al_id al) (t - 60 * 60 * 1000)) e w6 = (Inr n, w7)"
        and k7: "(if lim_aliasEmailsPerHour (pl_limits (ip_plan p)) \<le> int n then ret RateDecision
                  else accept_email inp al parsed env month) e w7 = (Inr dcn, w')"
        using k5 by (auto simp only: bind_Inr if_False)
      have w6: "w_db w6 = w_db w" using quietD [OF quiet_now t] d5 by simp
      then have nn: "n = count_recent_deliveries_by_alias (al_id al) (t - 60 * 60 * 1000) (w_db w)"
        using n by (simp add: db_read_Inr)
      have w7: "w_db w7 = w_db w" "w_tx w7 = InTx"
        using quietD [OF quiet_now t] quietD [OF quiet_db_read n] d5 by simp_all
      show ?thesis
      proof (cases "lim_aliasEmailsPerHour (pl_limits (ip_plan p)) \<le> int n")
        case True
        with k7 w7 show ?thesis by (auto simp: run_simps queue_effect_def)
      next
        case False
        then have "room_for e al month ?raw ?att (w_db w)"
          using room_for_intro [OF p d(1,2) c [unfolded LimitOk], of t] nn by simp
        moreover have "accept_email inp al parsed env month e w7 = (Inr dcn, w')" using k7 False by simp
        ultimately show ?thesis
          using accept_email_Inr [OF _ w7(2) tx(2)] w7(1) by (fastforce simp: queue_effect_def)
      qed
    qed
  qed
qed

text \<open>What the caller is told, as a function of the committed decision.\<close>

fun queue_answer :: "alias_row \<Rightarrow> string \<Rightarrow> locked_decision \<Rightarrow> pipeline_result option" where
  "queue_answer al month DuplicateDecision = Some (rejected_for DuplicateEmail)"
| "queue_answer al month RateDecision = Some (rejected_for RateLimited)"
| "queue_answer al month (LimitDecision code) =
     Some ((rejected_for (OverLimit code))\<lparr> res_userId := Some (al_createdBy al), res_month := Some month \<rparr>)"
| "queue_answer al month (AcceptDecision log n) = None"

lemma queue_allowed_Inr:
  assumes "queue_allowed_inbound_email inp al parsed env e w = (Inr r, w')" and "w_tx w = NoTx"
  shows "\<exists>month dcn. month = usage_month_for_date (clock e (w_tick w)) \<and>
     queue_effect e inp al parsed month dcn (w_db w) (w_db w') \<and>
     (case r of
        NotQueued a \<Rightarrow> queue_answer al month dcn = Some a
      | Queued job m n \<Rightarrow> dcn = AcceptDecision (qe_deliveryLog job) n \<and> m = month \<and> qe_alias job = al \<and> qe_parsed job = parsed)"
proof -
  let ?m = "usage_month_for_date (clock e (w_tick w))"
  let ?job = "\<lambda>log. \<lparr> qe_alias = al, qe_parsed = parsed, qe_deliveryLog = log, qe_envelopeFrom = env,
                    qe_publicBaseUrl = pi_publicBaseUrl inp, qe_attachmentDir = pi_attachmentDir inp,
                    qe_attachmentTtlHours = pi_attachmentTtlHours inp, qe_rawEmailTtlHours = pi_rawEmailTtlHours inp,
                    qe_telegramRichMessagesEnabled = or_else (pi_telegramRichMessagesEnabled inp) True \<rparr>"
  obtain t0 w1 dcn w2 where n: "now e w = (Inr t0, w1)"
    and t: "transaction (locked_queue_decision inp al parsed env (usage_month_for_date t0)) e w1 = (Inr dcn, w2)"
    and fin: "(case dcn of
           DuplicateDecision \<Rightarrow> ret (NotQueued (rejected_for DuplicateEmail))
         | RateDecision \<Rightarrow> ret (NotQueued (rejected_for RateLimited))
         | LimitDecision code \<Rightarrow>
             ret (NotQueued ((rejected_for (OverLimit code))\<lparr> res_userId := Some (al_createdBy al), res_month := Some (usage_month_for_date t0) \<rparr>))
         | AcceptDecision log deliveredCount \<Rightarrow> ret (Queued (?job log) (usage_month_for_date t0) deliveredCount)) e w2 = (Inr r, w')"
    using assms(1) unfolding queue_allowed_inbound_email_def Let_def by (auto simp only: bind_Inr)
  have t0: "t0 = clock e (w_tick w)" using n by (simp add: now_Inr)
  have w': "w' = w2" using fin by (cases dcn) (auto simp: ret_Inr)
  have d1: "w_db w1 = w_db w" using quietD [OF quiet_now n] by simp
  obtain w3 where w3: "locked_queue_decision inp al parsed env ?m e (begin_tx e w1) = (Inr dcn, w3)" "w_tx w3 \<noteq> Broken"
    "w_db w2 = (if w_tx w3 = Aborted then w_db w1 else w_db w3)"
    using t [unfolded t0] by (rule transaction_InrD) blast
  have "queue_effect e inp al parsed ?m dcn (w_db w) (w_db w3)"
    "w_tx w3 = InTx \<or> (dcn = DuplicateDecision \<and> w_db w3 = w_db w)"
    using locked_decision_Inr [OF w3(1) _ w3(2)] d1 by auto
  then have "queue_effect e inp al parsed ?m dcn (w_db w) (w_db w2)" using w3(3) d1 by auto
  then show ?thesis using fin w' t0
    by (intro exI [of _ ?m] exI [of _ dcn]) (cases dcn; auto simp: ret_Inr)
qed

lemma queue_inbound_Inr:
  assumes "queue_inbound_email inp e w = (Inr r, w')"
  obtains (refused) a where "r = NotQueued a" "w_db w' = w_db w" "res_userId a = None"
      "res_reason a = Some AliasNotFound \<or> (\<exists>x. res_reason a = Some (RejectedSender x))"
  | (allowed) al parsed w1 where "w_db w1 = w_db w" "w_tx w1 = w_tx w" "al_status al = Active"
      "\<exists>w0. find_alias_for_inbound (pi_localPart inp) (pi_recipientDomain inp) e w = (Inr (Some al), w0)"
      "\<exists>m. parse_mail e (pi_rawEmail inp) = Inr m \<and> parsed = parsed_of_mail e m (int (length (pi_rawEmail inp)))"
      "\<exists>auth w2 w3. authenticate_sender (pi_rawEmail inp) (normalize_envelope_sender (pi_envelopeFrom inp)) e w2 = (Inr auth, w3) \<and>
         evaluate_allow_rules (list_allow_rules (al_id al) (w_db w)) (Some auth) = Allowed"
      "queue_allowed_inbound_email inp al parsed (normalize_envelope_sender (pi_envelopeFrom inp)) e w1 = (Inr r, w')"
proof -
  let ?env = "normalize_envelope_sender (pi_envelopeFrom inp)"
  obtain found w0 where f: "find_alias_for_inbound (pi_localPart inp) (pi_recipientDomain inp) e w = (Inr found, w0)"
    and k: "(case found of
         None \<Rightarrow> ret (NotQueued (rejected_for AliasNotFound))
       | Some al \<Rightarrow>
           if al_status al \<noteq> Active then ret (NotQueued (rejected_for AliasNotFound))
           else
             bind (parse_email (pi_rawEmail inp) (int (length (pi_rawEmail inp)))) (\<lambda>parsed.
                  bind (db_read (list_allow_rules (al_id al))) (\<lambda>rules.
                  bind (sender_evaluation (pi_rawEmail inp) ?env parsed rules) (\<lambda>allowEvaluation.
                    case allowEvaluation of
                      NotAllowed reason \<Rightarrow>
                        ret (NotQueued ((rejected_for (RejectedSender reason))\<lparr> res_senderRejection :=
                          (if reason = SenderNotAllowed then Some (al_id al, pe_headerFromDomain parsed) else None) \<rparr>))
                    | Allowed \<Rightarrow> queue_allowed_inbound_email inp al parsed ?env)))) e w0 = (Inr r, w')"
    using assms unfolding queue_inbound_email_def Let_def by (auto simp only: bind_Inr)
  have d0: "w_db w0 = w_db w" "w_tx w0 = w_tx w" using quietD [OF quiet_queue(2) f] by simp_all
  show thesis
  proof (cases "\<exists>al. found = Some al \<and> al_status al = Active")
    case False
    with k d0 have "r = NotQueued (rejected_for AliasNotFound)" "w_db w' = w_db w"
      by (auto simp: ret_Inr split: option.splits if_splits)
    then show thesis by (intro refused) (auto simp: rejected_for_def)
  next
    case True
    then obtain al where al: "found = Some al" "al_status al = Active" by blast
    obtain parsed w1 rules w2 ev w3 where
        p: "parse_email (pi_rawEmail inp) (int (length (pi_rawEmail inp))) e w0 = (Inr parsed, w1)"
      and ru: "db_read (list_allow_rules (al_id al)) e w1 = (Inr rules, w2)"
      and sv: "sender_evaluation (pi_rawEmail inp) ?env parsed rules e w2 = (Inr ev, w3)"
      and fin: "(case ev of
                      NotAllowed reason \<Rightarrow>
                        ret (NotQueued ((rejected_for (RejectedSender reason))\<lparr> res_senderRejection :=
                          (if reason = SenderNotAllowed then Some (al_id al, pe_headerFromDomain parsed) else None) \<rparr>))
                    | Allowed \<Rightarrow> queue_allowed_inbound_email inp al parsed ?env) e w3 = (Inr r, w')"
      using k al by (simp only: option.case if_False not_not simp_thms bind_Inr) blast
    have d3: "w_db w3 = w_db w" "w_tx w3 = w_tx w" "w_db w1 = w_db w"
      using quietD [OF quiet_queue(3) p] quietD [OF quiet_db_read ru] quietD [OF quiet_evaluation sv] d0 by simp_all
    have rules: "rules = list_allow_rules (al_id al) (w_db w)" using ru d3 by (simp add: db_read_Inr)
    show thesis
    proof (cases ev)
      case (NotAllowed x)
      with fin d3 show thesis by (intro refused) (auto simp: ret_Inr rejected_for_def)
    next
      case Allowed
      obtain auth w4 w5 where "authenticate_sender (pi_rawEmail inp) ?env e w4 = (Inr auth, w5)" "evaluate_allow_rules rules (Some auth) = Allowed"
        using sv Allowed by (auto simp: sender_evaluation_def run_simps evaluate_allow_rules_def split: if_splits)
      moreover have "\<exists>m. parse_mail e (pi_rawEmail inp) = Inr m \<and> parsed = parsed_of_mail e m (int (length (pi_rawEmail inp)))"
        using p by (cases "parse_mail e (pi_rawEmail inp)") (auto simp: parse_email_def bind_def ask_def of_result_def)
      ultimately show thesis using allowed [OF d3(1,2) al(2)] f al(1) fin Allowed rules by simp blast
    qed
  qed
qed

section \<open>A concrete email\<close>

definition sample_input :: pipeline_input where
  "sample_input = \<lparr> pi_rawEmail = ''raw'', pi_rawEmailPath = Some ''/raw/1.eml'', pi_localPart = ''alerts'', pi_recipientDomain = None,
     pi_envelopeFrom = Some ''bounce@bank.com'', pi_publicBaseUrl = ''https://m'', pi_rawEmailEncryption = None,
     pi_attachmentDir = ''/att'', pi_attachmentTtlHours = 24, pi_rawEmailTtlHours = 24, pi_telegramRichMessagesEnabled = None \<rparr>"
definition sample_db :: db where
  "sample_db = empty_db\<lparr> aliases := [sample_alias], allowRules := [bank_rule] \<rparr>"

lemma alice_parsed:
  "pe_headerFromEmail (parsed_of_mail e alice_mail n) = Some '' alice@bank.com''"
  "pe_headerFromDomain (parsed_of_mail e alice_mail n) = Some ''bank.com''"
  "pe_messageId (parsed_of_mail e alice_mail n) = Some ''<m1@bank.com>''"
  "pe_attachments (parsed_of_mail e alice_mail n) = []"
proof -
  have "js_lower '' Alice@Bank.com'' = '' alice@bank.com''" by code_simp
  moreover have "at_domain '' alice@bank.com'' = Some ''bank.com''" by code_simp
  ultimately show "pe_headerFromEmail (parsed_of_mail e alice_mail n) = Some '' alice@bank.com''"
  "pe_headerFromDomain (parsed_of_mail e alice_mail n) = Some ''bank.com''"
  "pe_messageId (parsed_of_mail e alice_mail n) = Some ''<m1@bank.com>''"
  "pe_attachments (parsed_of_mail e alice_mail n) = []"
  by (simp_all add: parsed_of_mail_def alice_mail_def Let_def)
qed

lemma alice_candidate: "has_authenticated_rule_candidate [bank_rule] (Some '' alice@bank.com'') (Some ''bank.com'')"
  by code_simp

lemma alice_evaluation: "sender_evaluation raw v (parsed_of_mail e alice_mail n) [bank_rule] alice_env w = (Inr Allowed, w\<lparr>w_tick := Suc (w_tick w)\<rparr>)"
  by (simp add: sender_evaluation_def alice_parsed alice_candidate alice_allowed alice_authenticated step_simps)

lemma sample_lookups: "find_alias_by_local_part ''alerts'' sample_db = Some sample_alias" "list_allow_rules (al_id sample_alias) sample_db = [bank_rule]"
  "al_status sample_alias = Active"
  by (simp_all add: find_alias_by_local_part_def list_allow_rules_def sample_db_def sample_alias_def bank_rule_def)


lemma epoch_month: "usage_month_for_date 0 = ''1970-01''" by code_simp

lemma alice_body: "pe_bodySha256 (parsed_of_mail alice_env alice_mail n) = Some ''hi''"
  by (simp add: parsed_of_mail_def alice_mail_def Let_def alice_env_def)

lemma sample_reaches_decision: "queue_inbound_email sample_input alice_env (start_world sample_db) =
    queue_allowed_inbound_email sample_input sample_alias (parsed_of_mail alice_env alice_mail 3) (Some ''bounce@bank.com'') alice_env
     ((start_world sample_db)\<lparr>w_tick := 3\<rparr>)"
proof -
  have "normalize_envelope_sender (Some ''bounce@bank.com'') = Some ''bounce@bank.com''" by code_simp
  then show ?thesis
  by (simp add: queue_inbound_email_def sample_input_def find_alias_for_inbound_def step_simps should_use_hosted_domain_routing_def sample_lookups parse_email_def alice_evaluation Let_def start_world_def eval_nat_numeral)
qed
lemma sample_decision: 
  "\<exists>log w'. locked_queue_decision sample_input sample_alias (parsed_of_mail alice_env alice_mail 3) v ''1970-01'' alice_env
     (begin_tx alice_env ((start_world sample_db)\<lparr>w_tick := n\<rparr>)) = (Inr (AcceptDecision log 1), w') \<and> w_tx w' = InTx"
  by (simp add: start_world_def begin_tx_def locked_queue_decision_def resolve_inbound_plan_def check_inbound_limit_for_plan_def step_simps should_enforce_hosted_limits_def
     is_duplicate_def alice_parsed alice_body find_delivery_log_by_message_id_def sample_db_def sample_alias_def count_recent_deliveries_by_alias_def get_plan_definition_def
     accept_email_def prepare_delivery_log_metadata_write_def encrypt_buffer_for_storage_def Let_def create_delivery_log_def insert_delivery_log_def no_encryption_def
     increment_user_usage_month_def increment_user_storage_usage_def assert_non_negative_storage_delta_def reserved_attachment_bytes_def
     upsert_usage_def get_user_usage_month_def upsert_storage_def get_user_storage_usage_def)

lemma sample_queued: "\<exists>job w'. queue_inbound_email sample_input alice_env (start_world sample_db) = (Inr (Queued job ''1970-01'' 1), w')"
proof -
  obtain log w' where l: "locked_queue_decision sample_input sample_alias (parsed_of_mail alice_env alice_mail 3) (Some ''bounce@bank.com'') ''1970-01'' alice_env
     (begin_tx alice_env ((start_world sample_db)\<lparr>w_tick := 4\<rparr>)) = (Inr (AcceptDecision log 1), w')" "w_tx w' = InTx" using sample_decision by blast
  have "\<exists>w2. transaction (locked_queue_decision sample_input sample_alias (parsed_of_mail alice_env alice_mail 3) (Some ''bounce@bank.com'') ''1970-01'') alice_env
     ((start_world sample_db)\<lparr>w_tick := 4\<rparr>) = (Inr (AcceptDecision log 1), w2)"
    using l transaction_fine [of alice_env "(start_world sample_db)\<lparr>w_tick := 4\<rparr>"
        "locked_queue_decision sample_input sample_alias (parsed_of_mail alice_env alice_mail 3) (Some ''bounce@bank.com'') ''1970-01''" _ w']
    by simp
  then show ?thesis unfolding sample_reaches_decision by (auto simp: queue_allowed_inbound_email_def bind_def now_def at_tick_def epoch_month Let_def ret_def)
qed

section \<open>Properties of the stage\<close>





text \<open>C3: End to end, only allow-listed and authenticated mail is queued: behind every queued email stands an
  active alias, a header with exactly one From address, a DMARC pass or an aligned DKIM pass for its
  domain, and an allow rule of that alias naming the address or the domain.\<close>

theorem queued_mail_is_allow_listed:
  assumes "queue_inbound_email inp e w = (Inr (Queued job month n), w')" and "w_tx w = NoTx"
  shows "al_status (qe_alias job) = Active \<and>
    (\<exists>m a t r k email domain. parse_mail e (pi_rawEmail inp) = Inr m \<and> ml_from m = Some ([a], t) \<and>
       normalize_email (address_of a) = Some email \<and> at_domain email = Some domain \<and>
       mailauth e k (pi_rawEmail inp) (normalize_envelope_sender (pi_envelopeFrom inp)) = Inr r \<and>
       (dmarc_pass r \<or> (aligned_dkim_pass r \<and> \<not> dmarc_temp_error r)) \<and>
       (\<exists>rule\<in>set (list_allow_rules (al_id (qe_alias job)) (w_db w)).
          (ar_matchType rule = ''exact_email'' \<and> js_lower (ar_matchValue rule) = email) \<or>
          (ar_matchType rule = ''domain'' \<and> Some (js_lower (ar_matchValue rule)) = normalize_domain (Some domain))))"
  using assms(1)
proof (cases rule: queue_inbound_Inr)
  case (allowed al parsed w1)
  have nt: "w_tx w1 = NoTx" using allowed(2) assms(2) by simp
  have job: "qe_alias job = al" using queue_allowed_Inr [OF allowed(7) nt] by auto
  obtain auth w2 w3 where au: "authenticate_sender (pi_rawEmail inp) (normalize_envelope_sender (pi_envelopeFrom inp)) e w2 = (Inr auth, w3)"
    "evaluate_allow_rules (list_allow_rules (al_id al) (w_db w)) (Some auth) = Allowed"
    using allowed(6) by blast
  show ?thesis using sender_identity [OF au] allowed(3) job by blast
qed simp

lemma queued_mail_is_allow_listed_witness:
  "\<exists>job w'. queue_inbound_email sample_input alice_env (start_world sample_db) = (Inr (Queued job ''1970-01'' 1), w') \<and>
     al_status (qe_alias job) = Active \<and>
     (\<exists>rule\<in>set (list_allow_rules (al_id (qe_alias job)) sample_db). ar_matchType rule \<in> {''exact_email'', ''domain''})"
proof -
  obtain job w' where run: "queue_inbound_email sample_input alice_env (start_world sample_db) = (Inr (Queued job ''1970-01'' 1), w')"
    using sample_queued by blast
  then show ?thesis using queued_mail_is_allow_listed [OF run] by auto
qed

text \<open>C32: A failure in the middle of the decision leaves nothing half done: when the acceptance of an allowed
  email ends in an exception, the database is either untouched or shows the complete effect of one
  decision (the commit took effect and its acknowledgement was lost).\<close>

theorem queue_failure_is_atomic:
  assumes "queue_allowed_inbound_email inp al parsed env e w = (Inl x, w')" and "w_tx w = NoTx"
  shows "w_db w' = w_db w \<or> (\<exists>month dcn. queue_effect e inp al parsed month dcn (w_db w) (w_db w'))"
proof -
  let ?t = "clock e (w_tick w)"
  have "\<not> (\<exists>y w2. now e w = (Inl y, w2))" by simp
  moreover have fin: "fst ((case dcn of
           DuplicateDecision \<Rightarrow> ret (NotQueued (rejected_for DuplicateEmail))
         | RateDecision \<Rightarrow> ret (NotQueued (rejected_for RateLimited))
         | LimitDecision code \<Rightarrow> ret (NotQueued (f code))
         | AcceptDecision log c \<Rightarrow> ret (g log c)) e w2) \<noteq> Inl y" for dcn f g w2 y
    by (cases dcn) (simp_all add: ret_def)
  ultimately obtain w1 where n: "now e w = (Inr ?t, w1)"
    and t: "transaction (locked_queue_decision inp al parsed env (usage_month_for_date ?t)) e w1 = (Inl x, w')"
    using assms(1) unfolding queue_allowed_inbound_email_def Let_def
    by (auto simp: bind_Inl now_Inr) (metis fst_conv)
  have d1: "w_db w1 = w_db w" using quietD [OF quiet_now n] by simp
  consider "w_db w' = w_db w1"
    | a w2 where "locked_queue_decision inp al parsed env (usage_month_for_date ?t) e (begin_tx e w1) = (Inr a, w2)"
        "w_tx w2 \<noteq> Broken" "w_db w' = w_db w2"
    using transaction_atomic [OF t] by blast
  then show ?thesis
  proof cases
    case (2 a w2)
    then show ?thesis using locked_decision_Inr [OF 2(1) _ 2(2)] d1 by auto
  qed (simp add: d1)
qed

lemma queue_failure_is_atomic_witness:
  "\<exists>w' e. queue_allowed_inbound_email sample_input sample_alias (parsed_of_mail e alice_mail 3) None e (start_world sample_db) = (Inl DbRefused, w') \<and>
     (w_db w' = sample_db \<or> (\<exists>month dcn. queue_effect e sample_input sample_alias (parsed_of_mail e alice_mail 3) month dcn sample_db (w_db w')))"
proof -
  let ?e = "alice_env\<lparr>db_fault := (\<lambda>t. if t = 2 then Refused else Fine)\<rparr>"
  let ?p = "parsed_of_mail ?e alice_mail 3"
  have "\<exists>w'. queue_allowed_inbound_email sample_input sample_alias ?p None ?e (start_world sample_db) = (Inl DbRefused, w')"
    by (simp add: queue_allowed_inbound_email_def bind_def now_def at_tick_def transaction_def Let_def locked_queue_decision_def
        advisory_lock_def db_read_def db_stmt_def abort_def start_world_def)
  then obtain w' where run: "queue_allowed_inbound_email sample_input sample_alias ?p None ?e (start_world sample_db) = (Inl DbRefused, w')"
    by blast
  then show ?thesis using queue_failure_is_atomic [OF run] by auto
qed

end
