(* ===== verification/TelegramErrors.thy ===== *)
theory TelegramErrors
  imports Effects
begin

text \<open>
  Classification of failed Telegram sends and the retry policy drawn from it
  (\<open>src/telegram/errorClassifier.ts\<close>).  A structured failure keeps the Bot API code, the
  description and the migrate hint; a flattened message is classified by its words.
\<close>

record send_failure =
  sf_code :: "int option"
  sf_description :: string
  sf_transient :: bool
  sf_migrateToChatId :: "bigint option"

datatype retry_disposition = FailPermanently | RetryUncounted | RetryCounted

definition uncounted_retry_error_classes :: "error_class list" where
  "uncounted_retry_error_classes = [FloodWait, Timeout, Network, Server, Migrated]"

definition transient_send_error_classes :: "error_class list" where
  "transient_send_error_classes = [FloodWait, Timeout, Network, Server]"

definition classify_string :: "string option \<Rightarrow> error_class" where
  "classify_string error =
     (let normalized = js_lower (or_else error [])
      in if normalized = [] then Unknown
         else if js_includes normalized ''upgraded to a supergroup'' then Migrated
         else if js_includes normalized ''flood'' \<or> js_includes normalized ''too many requests''
              \<or> js_includes normalized ''retry after'' then FloodWait
         else if js_includes normalized ''forbidden'' \<or> js_includes normalized ''blocked'' then Forbidden
         else if js_includes normalized ''chat not found'' \<or> js_includes normalized ''thread not found''
              then ChatNotFound
         else if js_includes normalized ''bad request'' then BadRequest
         else if js_includes normalized ''timeout'' \<or> js_includes normalized ''timed out'' then Timeout
         else if js_includes normalized ''network'' \<or> js_includes normalized ''econn''
              \<or> js_includes normalized ''fetch'' then Network
         else if js_includes normalized ''internal server'' \<or> js_includes normalized ''bad gateway''
              \<or> js_includes normalized ''service unavailable'' then Server
         else Other)"

text \<open>\<open>classifyStructured\<close> reads only the code, the description and the hint.\<close>

definition classify_structured :: "int option \<Rightarrow> string \<Rightarrow> bigint option \<Rightarrow> error_class" where
  "classify_structured code description migrate =
     (let normalized = js_lower description
      in if migrate \<noteq> None \<or> js_includes normalized ''upgraded to a supergroup'' then Migrated
         else if code = Some 429 then FloodWait
         else if code = Some 403 then Forbidden
         else if code = Some 400 then
           (if js_includes normalized ''chat not found'' \<or> js_includes normalized ''thread not found''
            then ChatNotFound else BadRequest)
         else if (case code of Some c \<Rightarrow> c \<ge> 500 | None \<Rightarrow> False) then Server
         else classify_string (Some description))"

text \<open>The argument of \<open>classifyTelegramError\<close>: a structured failure or a nullable message.\<close>

datatype error_arg = Structured send_failure | Message "string option"

fun classify_telegram_error :: "error_arg \<Rightarrow> error_class" where
  "classify_telegram_error (Structured f) =
     classify_structured (sf_code f) (sf_description f) (sf_migrateToChatId f)"
| "classify_telegram_error (Message m) = classify_string m"

text \<open>\<open>asBotApiError\<close>: which thrown values carry the Bot API fields.\<close>

fun as_bot_api_error :: "send_error \<Rightarrow> (int \<times> string \<times> bigint option) option" where
  "as_bot_api_error (BotApiError c d m) = Some (c, d, m)"
| "as_bot_api_error (PlainError msg) = None"

fun describe_send_error :: "send_error \<Rightarrow> send_failure" where
  "describe_send_error err =
     (case as_bot_api_error err of
        Some (c, d, m) \<Rightarrow>
          \<lparr> sf_code = Some c, sf_description = d,
            sf_transient = (classify_structured (Some c) d m \<in> set transient_send_error_classes),
            sf_migrateToChatId = m \<rparr>
      | None \<Rightarrow>
          (let description = plain_message err
           in \<lparr> sf_code = None, sf_description = description,
                sf_transient = (classify_string (Some description) \<in> set transient_send_error_classes),
                sf_migrateToChatId = None \<rparr>))"

definition retry_disposition_for_error :: "error_arg \<Rightarrow> retry_disposition" where
  "retry_disposition_for_error error =
     (let c = classify_telegram_error error
      in if c = Forbidden \<or> c = ChatNotFound then FailPermanently
         else if c \<in> set uncounted_retry_error_classes then RetryUncounted
         else RetryCounted)"

section \<open>The policy seen from outside\<close>

text \<open>
  The delivery code stores the class of a failure with the attempt and later recounts the
  attempts whose class is not in the uncounted list.  The two agree when the disposition is a
  function of the class.
\<close>

fun disposition_of_class :: "error_class \<Rightarrow> retry_disposition" where
  "disposition_of_class Forbidden = FailPermanently"
| "disposition_of_class ChatNotFound = FailPermanently"
| "disposition_of_class FloodWait = RetryUncounted"
| "disposition_of_class Timeout = RetryUncounted"
| "disposition_of_class Network = RetryUncounted"
| "disposition_of_class Server = RetryUncounted"
| "disposition_of_class Migrated = RetryUncounted"
| "disposition_of_class BadRequest = RetryCounted"
| "disposition_of_class Other = RetryCounted"
| "disposition_of_class Unknown = RetryCounted"

lemma disposition_factors:
  "retry_disposition_for_error a = disposition_of_class (classify_telegram_error a)"
  by (cases "classify_telegram_error a")
    (simp_all add: retry_disposition_for_error_def uncounted_retry_error_classes_def Let_def)

lemma uncounted_iff:
  "c \<in> set uncounted_retry_error_classes \<longleftrightarrow> disposition_of_class c = RetryUncounted"
  by (cases c) (simp_all add: uncounted_retry_error_classes_def)

lemma transient_uncounted:
  "set transient_send_error_classes = set uncounted_retry_error_classes - {Migrated}"
  by (auto simp: transient_send_error_classes_def uncounted_retry_error_classes_def)

lemma classify_migrate_hint:
  "sf_migrateToChatId f \<noteq> None \<Longrightarrow> classify_telegram_error (Structured f) = Migrated"
  by (simp add: classify_structured_def)

lemma describe_keeps_hint:
  "sf_migrateToChatId (describe_send_error (BotApiError c d m)) = m"
  by simp

lemma describe_transient:
  "sf_transient (describe_send_error err) \<longleftrightarrow>
     classify_telegram_error (Structured (describe_send_error err)) \<in> set transient_send_error_classes"
  by (cases err) (auto simp: Let_def classify_structured_def classify_string_def transient_send_error_classes_def)

lemma migrated_never_transient:
  assumes "sf_migrateToChatId (describe_send_error err) \<noteq> None"
  shows "\<not> sf_transient (describe_send_error err)"
  using assms describe_transient [of err] classify_migrate_hint [OF assms]
  by (simp add: transient_send_error_classes_def)

text \<open>The order of the tests.  Telegram words both of these as a bad request.\<close>

lemma classify_group_upgraded:
  "classify_string (Some ''400 Bad Request: group chat was upgraded to a supergroup chat'') = Migrated"
  by (simp add: classify_string_def js_lower_def js_lower_char_def char_code_def Let_def)

lemma classify_chat_not_found:
  "classify_string (Some ''Bad Request: chat not found'') = ChatNotFound"
  by (simp add: classify_string_def js_lower_def js_lower_char_def char_code_def Let_def)

end
