(* ===== verification/Sender.thy ===== *)
theory Sender
  imports TelegramErrors "HOL-Library.Sublist"
begin

text \<open>
  Sending to Telegram (\<open>src/telegram/sender.ts\<close>): the bounded retry loop around one Bot API call,
  the rich transport with its classic fallback and the latch that turns it off, and photos in groups
  of ten.  Timeouts are answers of the environment (\<open>PlainError\<close>), waiting and the temporary files
  of streamed attachments have no counterpart.
\<close>

definition max_send_attempts :: nat where "max_send_attempts = 3"   \<comment> \<open>\<open>RETRY_DELAYS_MS.length\<close>\<close>
definition media_group_max :: nat where "media_group_max = 10"

record send_options =
  so_target :: send_target
  so_text :: string
  so_parseMode :: "string option"
  so_richHtml :: "string option"
  so_richMessagesEnabled :: "bool option"

record send_result =
  sr_ok :: bool
  sr_telegramMessageId :: "int option"
  sr_error :: "string option"
  sr_failure :: "send_failure option"

record photo_item =
  ph_id :: uuid
  ph_storagePath :: string
  ph_filename :: string
  ph_encryption :: encryption_meta

record photos_result =
  ps_failedPhotos :: "photo_item list"
  ps_failure :: "send_failure option"

definition ps_ok :: "photos_result \<Rightarrow> bool" where
  "ps_ok r = (length (ps_failedPhotos r) = 0)"

section \<open>One call with retries\<close>

definition sent :: "int \<Rightarrow> send_result" where
  "sent i = \<lparr> sr_ok = True, sr_telegramMessageId = Some i, sr_error = None, sr_failure = None \<rparr>"

definition not_sent :: "send_failure option \<Rightarrow> send_result" where
  "not_sent f = \<lparr> sr_ok = False, sr_telegramMessageId = None,
     sr_error = Some (case f of None \<Rightarrow> ''unknown error'' | Some g \<Rightarrow> sf_description g), sr_failure = f \<rparr>"

text \<open>\<open>send_loop r attempts k last\<close>: the loop with \<open>k\<close> iterations left after \<open>attempts\<close> calls.\<close>

fun send_loop :: "tg_request \<Rightarrow> nat \<Rightarrow> nat \<Rightarrow> send_failure option \<Rightarrow> (send_result \<times> nat) io" where
  "send_loop r attempts 0 lastFailure = ret (not_sent lastFailure, attempts)"
| "send_loop r attempts (Suc k) lastFailure =
     bind (call_telegram r) (\<lambda>answer.
       case answer of
         Inr msg \<Rightarrow> ret (sent msg, attempts + 1)
       | Inl err \<Rightarrow>
           (let f = describe_send_error err
            in if sf_migrateToChatId f \<noteq> None then ret (not_sent (Some f), attempts + 1)
               else if sf_code f \<noteq> None \<and> \<not> sf_transient f then ret (not_sent (Some f), attempts + 1)
               else send_loop r (attempts + 1) k (Some f)))"

definition send_with_retries :: "tg_request \<Rightarrow> (send_result \<times> nat) io" where
  "send_with_retries r = send_loop r 0 max_send_attempts None"

definition send_classic_telegram_message :: "send_options \<Rightarrow> send_result io" where
  "send_classic_telegram_message opts =
     bind (send_with_retries (SendMessage (so_target opts)
        (if truthy (so_parseMode opts) then so_parseMode opts else None) (so_text opts)))
       (\<lambda>outcome. ret (fst outcome))"

definition send_rich_telegram_message :: "send_options \<Rightarrow> (send_result \<times> nat) io" where
  "send_rich_telegram_message opts = send_with_retries (SendRichMessage (so_target opts) (or_else (so_richHtml opts) []))"

section \<open>The classic fallback\<close>

definition line_end :: "char \<Rightarrow> bool" where
  "line_end c = (char_code c = 10 \<or> char_code c = 13)"

definition includes_any :: "string \<Rightarrow> string list \<Rightarrow> bool" where
  "includes_any s ws = list_ex (js_includes s) ws"

text \<open>\<open>/(?:ws).*(?:vs)/\<close>: a word of the first list, then one of the second on the same line.\<close>

fun later_on_line :: "string list \<Rightarrow> string \<Rightarrow> bool" where
  "later_on_line vs [] = False"
| "later_on_line vs (c # cs) = (list_ex (js_starts_with (c # cs)) vs \<or> (\<not> line_end c \<and> later_on_line vs cs))"

fun word_then :: "string list \<Rightarrow> string list \<Rightarrow> string \<Rightarrow> bool" where
  "word_then ws vs [] = False"
| "word_then ws vs (c # cs) =
     (list_ex (\<lambda>w. js_starts_with (c # cs) w \<and> later_on_line vs (drop (length w) (c # cs))) ws \<or> word_then ws vs cs)"

definition is_destination_or_auth_failure :: "string \<Rightarrow> bool" where
  "is_destination_or_auth_failure description =
     (let d = js_lower description
      in word_then [''chat'', ''peer'', ''thread'', ''topic''] [''closed'', ''forbidden'', ''invalid'', ''not found''] d \<or>
         includes_any d [''blocked'', ''forbidden'', ''not enough rights'', ''write forbidden''])"

definition should_use_classic_fallback :: "send_failure option \<Rightarrow> bool" where
  "should_use_classic_fallback failure =
     (case failure of
        None \<Rightarrow> False
      | Some f \<Rightarrow>
          if sf_transient f \<or> sf_migrateToChatId f \<noteq> None then False
          else if sf_code f = Some 404 then True
          else sf_code f = Some 400 \<and> classify_telegram_error (Structured f) = BadRequest \<and>
               \<not> is_destination_or_auth_failure (sf_description f))"

definition rich_unavailable :: "bool io" where
  "rich_unavailable e w = (Inr (w_richUnavailable w), w)"

definition set_rich_unavailable :: "bool \<Rightarrow> unit io" where
  "set_rich_unavailable b e w = (Inr (), w\<lparr>w_richUnavailable := b\<rparr>)"

definition send_telegram_message :: "send_options \<Rightarrow> send_result io" where
  "send_telegram_message opts =
     (if \<not> truthy (so_richHtml opts) then send_classic_telegram_message opts
      else bind rich_unavailable (\<lambda>unavailable.
        if so_richMessagesEnabled opts = Some False \<or> unavailable then send_classic_telegram_message opts
        else bind (send_rich_telegram_message opts) (\<lambda>(richResult, attempts).
          if sr_ok richResult then ret richResult
          else bind (if (case sr_failure richResult of Some f \<Rightarrow> sf_code f = Some 404 | None \<Rightarrow> False)
                     then set_rich_unavailable True else ret ()) (\<lambda>_.
               if attempts \<noteq> 1 \<or> \<not> should_use_classic_fallback (sr_failure richResult) then ret richResult
               else send_classic_telegram_message opts))))"

section \<open>Photos\<close>

text \<open>The first error of opening a chunk's attachments, after all of them were tried
  (\<open>Promise.allSettled\<close>, then \<open>throw r.reason\<close>).\<close>

fun open_all :: "photo_item list \<Rightarrow> exn option io" where
  "open_all [] = ret None"
| "open_all (p # ps) =
     bind (at_tick (\<lambda>e t. disk_open e t (ph_storagePath p))) (\<lambda>r.
     bind (open_all ps) (\<lambda>s. ret (case r of Some x \<Rightarrow> Some x | None \<Rightarrow> s)))"

definition photo_request :: "send_target \<Rightarrow> int option \<Rightarrow> photo_item list \<Rightarrow> tg_request" where
  "photo_request tgt replyTo chunk =
     (if length chunk = 1 then SendPhoto tgt replyTo (ph_storagePath (hd chunk))
      else SendMediaGroup tgt replyTo (map ph_storagePath chunk))"

definition send_chunk :: "send_target \<Rightarrow> int option \<Rightarrow> photo_item list \<Rightarrow> send_failure option io" where
  "send_chunk tgt replyTo chunk =
     bind (open_all chunk) (\<lambda>r.
       case r of
         Some x \<Rightarrow> bind (ask (\<lambda>e. error_message e x)) (\<lambda>m. ret (Some (describe_send_error (PlainError m))))
       | None \<Rightarrow> bind (call_telegram (photo_request tgt replyTo chunk)) (\<lambda>answer.
           ret (case answer of Inr _ \<Rightarrow> None | Inl err \<Rightarrow> Some (describe_send_error err))))"

function chunks :: "nat \<Rightarrow> 'a list \<Rightarrow> 'a list list" where
  "chunks n xs = (if xs = [] \<or> n = 0 then [] else take n xs # chunks n (drop n xs))"
  by auto
termination by (relation "measure (\<lambda>(n, xs). length xs)") auto

declare chunks.simps [simp del]

fun photo_loop :: "send_target \<Rightarrow> int option \<Rightarrow> photo_item list list \<Rightarrow> photos_result \<Rightarrow> photos_result io" where
  "photo_loop tgt replyTo [] acc = ret acc"
| "photo_loop tgt replyTo (chunk # rest) acc =
     bind (send_chunk tgt replyTo chunk) (\<lambda>r.
       case r of
         None \<Rightarrow> photo_loop tgt None rest acc
       | Some f \<Rightarrow>
           (let acc1 = \<lparr> ps_failedPhotos = ps_failedPhotos acc @ chunk,
                         ps_failure = (case ps_failure acc of None \<Rightarrow> Some f | Some g \<Rightarrow> Some g) \<rparr>
            in if sf_migrateToChatId f \<noteq> None
               then ret \<lparr> ps_failedPhotos = ps_failedPhotos acc1 @ concat rest, ps_failure = Some f \<rparr>
               else photo_loop tgt None rest acc1))"

definition send_telegram_photos :: "send_target \<Rightarrow> int option \<Rightarrow> photo_item list \<Rightarrow> photos_result io" where
  "send_telegram_photos tgt replyToMessageId photos =
     photo_loop tgt replyToMessageId (chunks media_group_max photos) \<lparr> ps_failedPhotos = [], ps_failure = None \<rparr>"

section \<open>Properties\<close>

definition to_target :: "send_target \<Rightarrow> event \<Rightarrow> bool" where
  "to_target tgt v = (case v of Requested r \<Rightarrow> request_target r = tgt | _ \<Rightarrow> True)"

lemma to_target_simps [simp]: "to_target tgt (Requested r) = (request_target r = tgt)"
  by (simp add: to_target_def)

lemma emits_send_loop [emits_rules]: "G (Requested r) \<Longrightarrow> emits G (send_loop r n k l)"
  by (induction k arbitrary: n l) (auto simp: Let_def intro!: emits_rules)

lemma emits_rich_flag [emits_rules]: "emits G rich_unavailable" "emits G (set_rich_unavailable b)"
  by (auto intro!: emits_silent simp: rich_unavailable_def set_rich_unavailable_def)

lemma emits_send_message [emits_rules]:
  assumes "G (Requested (SendMessage (so_target opts) (if truthy (so_parseMode opts) then so_parseMode opts else None) (so_text opts)))"
    and "G (Requested (SendRichMessage (so_target opts) (or_else (so_richHtml opts) [])))"
  shows "emits G (send_telegram_message opts)"
  unfolding send_telegram_message_def send_classic_telegram_message_def send_rich_telegram_message_def send_with_retries_def
  by (intro emits_rules assms)

lemma emits_open_all [emits_rules]: "emits G (open_all ps)"
  by (induction ps) (auto intro!: emits_rules)

lemma emits_send_chunk [emits_rules]: "G (Requested (photo_request tgt replyTo chunk)) \<Longrightarrow> emits G (send_chunk tgt replyTo chunk)"
  unfolding send_chunk_def by (intro emits_rules)

lemma emits_photo_loop:
  "(\<And>v c. G (Requested (photo_request tgt v c))) \<Longrightarrow> emits G (photo_loop tgt replyTo cs acc)"
  by (induction cs arbitrary: replyTo acc) (auto simp: Let_def intro!: emits_rules)

lemma request_target_photo [simp]: "request_target (photo_request tgt v c) = tgt"
  by (simp add: photo_request_def)

lemma emits_send_photos [emits_rules]: "emits (to_target tgt) (send_telegram_photos tgt replyTo ps)"
  unfolding send_telegram_photos_def by (rule emits_photo_loop) simp

lemma emits_send_message_target [emits_rules]: "emits (to_target (so_target opts)) (send_telegram_message opts)"
  by (intro emits_rules) simp_all

text \<open>The database is not touched.\<close>

lemma keeps_send_loop [keeps_rules]: "keeps I (send_loop r n k l)"
  by (induction k arbitrary: n l) (auto simp: Let_def intro!: keeps_rules)

lemma keeps_rich_flag [keeps_rules]: "keeps I rich_unavailable" "keeps I (set_rich_unavailable b)"
  by (auto intro!: keeps_silent simp: rich_unavailable_def set_rich_unavailable_def)

lemma keeps_send_message [keeps_rules]: "keeps I (send_telegram_message opts)"
  unfolding send_telegram_message_def send_classic_telegram_message_def send_rich_telegram_message_def send_with_retries_def
  by (intro keeps_rules)

lemma keeps_open_all [keeps_rules]: "keeps I (open_all ps)"
  by (induction ps) (auto intro!: keeps_rules)

lemma keeps_photo_loop [keeps_rules]: "keeps I (photo_loop tgt replyTo cs acc)"
  by (induction cs arbitrary: replyTo acc) (auto simp: Let_def send_chunk_def intro!: keeps_rules)

lemma keeps_send_photos [keeps_rules]: "keeps I (send_telegram_photos tgt replyTo ps)"
  unfolding send_telegram_photos_def by (rule keeps_rules)

section \<open>One call\<close>

text \<open>What the loop leaves behind: the requests are copies of one request, at most three, and the
  outcome is the answer to the last; unless it is the only one, every earlier answer was an error
  without a migrate hint, transient or without a code.\<close>

lemma send_loop_run:
  assumes "send_loop r n k l e w = (res, w')" "0 < k"
  shows "\<exists>j out. 1 \<le> j \<and> j \<le> k \<and> w_trace w' = w_trace w @ replicate j (Requested r) \<and> res = Inr (out, n + j) \<and>
     (case telegram e (w_tick w + (j - 1)) r of
        Inr msg \<Rightarrow> out = sent msg
      | Inl err \<Rightarrow> out = not_sent (Some (describe_send_error err)))"
  using assms
proof (induction k arbitrary: n l w)
  case (Suc k)
  let ?w = "w\<lparr>w_trace := w_trace w @ [Requested r], w_tick := Suc (w_tick w)\<rparr>"
  have call: "call_telegram r e w = (Inr (telegram e (w_tick w) r), ?w)"
    by (simp add: call_telegram_def bind_def emit_def at_tick_def)
  show ?case
  proof (cases "telegram e (w_tick w) r")
    case (Inr msg)
    with Suc.prems call show ?thesis by (intro exI [of _ 1]) (auto simp: bind_def ret_def)
  next
    case (Inl err)
    let ?f = "describe_send_error err"
    show ?thesis
    proof (cases "sf_migrateToChatId ?f \<noteq> None \<or> (sf_code ?f \<noteq> None \<and> \<not> sf_transient ?f) \<or> k = 0")
      case True
      with Suc.prems call Inl show ?thesis by (intro exI [of _ 1]) (auto simp: bind_def ret_def Let_def split: if_splits)
    next
      case False
      then have run: "send_loop r (n + 1) k (Some ?f) e ?w = (res, w')" and "0 < k"
        using Suc.prems call Inl by (auto simp: bind_def Let_def split: if_splits)
      from Suc.IH [OF run \<open>0 < k\<close>] obtain j out where j: "1 \<le> j" "j \<le> k"
        "w_trace w' = w_trace ?w @ replicate j (Requested r)" "res = Inr (out, n + 1 + j)"
        "case telegram e (w_tick ?w + (j - 1)) r of Inr msg \<Rightarrow> out = sent msg
           | Inl err \<Rightarrow> out = not_sent (Some (describe_send_error err))" by auto
      then have "w_tick ?w + (j - 1) = w_tick w + (Suc j - 1)" by simp
      with j show ?thesis by (intro exI [of _ "Suc j"] exI [of _ out]) auto
    qed
  qed
qed simp

definition classic_request :: "send_options \<Rightarrow> tg_request" where
  "classic_request opts =
     SendMessage (so_target opts) (if truthy (so_parseMode opts) then so_parseMode opts else None) (so_text opts)"

definition rich_request :: "send_options \<Rightarrow> tg_request" where
  "rich_request opts = SendRichMessage (so_target opts) (or_else (so_richHtml opts) [])"

lemma classic_run:
  assumes "send_classic_telegram_message opts e w = (res, w')"
  shows "\<exists>j out t. 1 \<le> j \<and> j \<le> 3 \<and> w_trace w' = w_trace w @ replicate j (Requested (classic_request opts)) \<and> res = Inr out \<and>
     (case telegram e t (classic_request opts) of
        Inr msg \<Rightarrow> out = sent msg | Inl err \<Rightarrow> out = not_sent (Some (describe_send_error err)))"
proof -
  obtain r1 w1 where s: "send_loop (classic_request opts) 0 3 None e w = (r1, w1)" by fastforce
  then obtain j out where j: "1 \<le> j" "j \<le> 3" "w_trace w1 = w_trace w @ replicate j (Requested (classic_request opts))" "r1 = Inr (out, j)"
     "case telegram e (w_tick w + (j - 1)) (classic_request opts) of
        Inr msg \<Rightarrow> out = sent msg | Inl err \<Rightarrow> out = not_sent (Some (describe_send_error err))"
    using send_loop_run [OF s] by auto
  have "res = Inr out \<and> w' = w1" using assms s j(4)
    by (simp add: send_classic_telegram_message_def send_with_retries_def max_send_attempts_def classic_request_def bind_def ret_def)
  with j show ?thesis by blast
qed

lemma fallback_rejection:
  assumes "should_use_classic_fallback (Some (describe_send_error err))"
  shows "\<exists>c d. err = BotApiError c d None \<and> (c = 400 \<or> c = 404)"
  using assms by (cases err) (auto simp: should_use_classic_fallback_def Let_def split: if_splits)

text \<open>The shape of every send: rich requests, then classic ones.\<close>

lemma send_message_run:
  assumes "send_telegram_message opts e w = (res, w')"
  shows "\<exists>i j out t r. w_trace w' = w_trace w @ replicate i (Requested (rich_request opts)) @ replicate j (Requested (classic_request opts)) \<and>
     i \<le> 3 \<and> j \<le> 3 \<and> 1 \<le> i + j \<and> res = Inr out \<and> r = (if j = 0 then rich_request opts else classic_request opts) \<and>
     (case telegram e t r of Inr msg \<Rightarrow> out = sent msg | Inl err \<Rightarrow> out = not_sent (Some (describe_send_error err))) \<and>
     (i = 0 \<or> j = 0 \<or> (i = 1 \<and> (\<exists>c d. telegram e (w_tick w) (rich_request opts) = Inl (BotApiError c d None) \<and> (c = 400 \<or> c = 404))))"
proof (cases "\<not> truthy (so_richHtml opts) \<or> so_richMessagesEnabled opts = Some False \<or> w_richUnavailable w")
  case True
  then have "send_classic_telegram_message opts e w = (res, w')"
    using assms by (auto simp: send_telegram_message_def bind_def rich_unavailable_def split: if_splits)
  from classic_run [OF this] obtain j out t where j: "1 \<le> j" "j \<le> 3"
      "w_trace w' = w_trace w @ replicate j (Requested (classic_request opts))" "res = Inr out"
      "case telegram e t (classic_request opts) of Inr msg \<Rightarrow> out = sent msg | Inl err \<Rightarrow> out = not_sent (Some (describe_send_error err))"
    by blast
  then show ?thesis by (intro exI [of _ 0] exI [of _ j] exI [of _ out] exI [of _ t]) auto
next
  case False
  obtain r1 w1 where s: "send_loop (rich_request opts) 0 3 None e w = (r1, w1)" by fastforce
  then obtain i out where i: "1 \<le> i" "i \<le> 3" "w_trace w1 = w_trace w @ replicate i (Requested (rich_request opts))" "r1 = Inr (out, i)"
    "case telegram e (w_tick w + (i - 1)) (rich_request opts) of Inr msg \<Rightarrow> out = sent msg
       | Inl err \<Rightarrow> out = not_sent (Some (describe_send_error err))"
    using send_loop_run [OF s] by auto
  let ?latch = "case sr_failure out of Some f \<Rightarrow> sf_code f = Some 404 | None \<Rightarrow> False"
  define w2 where "w2 = (if \<not> sr_ok out \<and> ?latch then w1\<lparr>w_richUnavailable := True\<rparr> else w1)"
  have w2: "w_trace w2 = w_trace w1" by (simp add: w2_def)
  have k: "(if sr_ok out \<or> i \<noteq> 1 \<or> \<not> should_use_classic_fallback (sr_failure out) then ret out
             else send_classic_telegram_message opts) e w2 = (res, w')"
    using assms False s i(4) unfolding w2_def
    by (auto simp: send_telegram_message_def bind_def rich_unavailable_def set_rich_unavailable_def ret_def
        send_rich_telegram_message_def send_with_retries_def max_send_attempts_def rich_request_def split: if_splits)
  show ?thesis
  proof (cases "sr_ok out \<or> i \<noteq> 1 \<or> \<not> should_use_classic_fallback (sr_failure out)")
    case True
    with k have "res = Inr out" "w' = w2" by (auto simp: ret_def)
    with i w2 show ?thesis by (intro exI [of _ i] exI [of _ 0] exI [of _ out] exI [of _ "w_tick w + (i - 1)"]) auto
  next
    case no: False
    then obtain err where err: "telegram e (w_tick w) (rich_request opts) = Inl err" "should_use_classic_fallback (Some (describe_send_error err))"
      using i(5) by (auto simp: sent_def not_sent_def split: sum.splits)
    have "send_classic_telegram_message opts e w2 = (res, w')" using k no by simp
    from classic_run [OF this] obtain j out2 t where j: "1 \<le> j" "j \<le> 3"
      "w_trace w' = w_trace w2 @ replicate j (Requested (classic_request opts))" "res = Inr out2"
      "case telegram e t (classic_request opts) of Inr msg \<Rightarrow> out2 = sent msg | Inl err \<Rightarrow> out2 = not_sent (Some (describe_send_error err))"
      by blast
    have "i = 1" using no by simp
    with i w2 j fallback_rejection [OF err(2)] err(1) show ?thesis
      by (intro exI [of _ 1] exI [of _ j] exI [of _ out2] exI [of _ t]) auto
  qed
qed

text \<open>C31: A message changes transport only after a definite refusal: a send makes at most three rich and at
  most three classic requests, and it makes both kinds only when its single rich request was
  answered by Telegram with a 400 or 404 that carries no migrate hint.  So a rich message whose
  outcome is unknown (a timeout, a server error, a repeated request) is never sent a second time as
  a classic one.\<close>

theorem transport_changes_only_after_refusal:
  "\<exists>i j. w_trace (snd (send_telegram_message opts e w)) =
       w_trace w @ replicate i (Requested (rich_request opts)) @ replicate j (Requested (classic_request opts)) \<and>
     i \<le> 3 \<and> j \<le> 3 \<and> 1 \<le> i + j \<and>
     (i = 0 \<or> j = 0 \<or>
      (i = 1 \<and> (\<exists>c d. telegram e (w_tick w) (rich_request opts) = Inl (BotApiError c d None) \<and> (c = 400 \<or> c = 404))))"
proof -
  obtain res w' where run: "send_telegram_message opts e w = (res, w')" by fastforce
  from send_message_run [OF run] run show ?thesis by auto
qed

text \<open>A send tells the truth: it always returns, it reports success exactly with the message id that
  Telegram gave for the last request it made, and a failure it reports describes the error Telegram
  gave for that request.\<close>

theorem send_reports_last_answer:
  "\<exists>out t r. fst (send_telegram_message opts e w) = Inr out \<and>
     last (w_trace (snd (send_telegram_message opts e w))) = Requested r \<and> request_target r = so_target opts \<and>
     (case telegram e t r of
        Inr msg \<Rightarrow> sr_ok out \<and> sr_telegramMessageId out = Some msg
      | Inl err \<Rightarrow> \<not> sr_ok out \<and> sr_failure out = Some (describe_send_error err))"
proof -
  obtain res w' where run: "send_telegram_message opts e w = (res, w')" by fastforce
  obtain i j out t r where x: "w_trace w' = w_trace w @ replicate i (Requested (rich_request opts)) @ replicate j (Requested (classic_request opts))"
     "1 \<le> i + j" "res = Inr out" "r = (if j = 0 then rich_request opts else classic_request opts)"
     "case telegram e t r of Inr msg \<Rightarrow> out = sent msg | Inl err \<Rightarrow> out = not_sent (Some (describe_send_error err))"
    using send_message_run [OF run] by blast
  have "last (w_trace w') = Requested r"
    using x(1,2,4) by (cases "j = 0") (auto simp: last_append last_replicate)
  moreover have "request_target r = so_target opts" using x(4) by (simp add: classic_request_def rich_request_def)
  ultimately show ?thesis using x(3,5) run
    by (intro exI [of _ out] exI [of _ t] exI [of _ r]) (auto simp: sent_def not_sent_def split: sum.splits)
qed

section \<open>Photo batches\<close>

lemma concat_chunks: "0 < n \<Longrightarrow> concat (chunks n xs) = xs"
  by (induction n xs rule: chunks.induct) (subst chunks.simps, auto)

lemma chunks_bound: "c \<in> set (chunks n xs) \<Longrightarrow> length c \<le> n \<and> c \<noteq> []"
  by (induction n xs rule: chunks.induct) (subst (asm) (2) chunks.simps, auto split: if_splits)

fun request_photos :: "tg_request \<Rightarrow> string set" where
  "request_photos (SendPhoto t v p) = {p}"
| "request_photos (SendMediaGroup t v ps) = set ps"
| "request_photos _ = {}"

fun event_photos :: "event \<Rightarrow> string set" where
  "event_photos (Requested r) = request_photos r"
| "event_photos _ = {}"

definition photo_paths :: "event list \<Rightarrow> string set" where
  "photo_paths es = (\<Union>v\<in>set es. event_photos v)"

lemma photo_paths_append [simp]: "photo_paths (xs @ ys) = photo_paths xs \<union> photo_paths ys"
  by (simp add: photo_paths_def)

lemma photo_paths_simps [simp]: "photo_paths [] = {}" "photo_paths (v # es) = event_photos v \<union> photo_paths es"
  by (simp_all add: photo_paths_def)

lemma request_photos_chunk [simp]: "c \<noteq> [] \<Longrightarrow> request_photos (photo_request tgt v c) = ph_storagePath ` set c"
  by (cases c) (auto simp: photo_request_def)

lemma open_all_run: "\<exists>r w'. open_all ps e w = (Inr r, w') \<and> w_trace w' = w_trace w"
proof (induction ps arbitrary: w)
  case (Cons p ps)
  obtain r w' where "open_all ps e (w\<lparr>w_tick := Suc (w_tick w)\<rparr>) = (Inr r, w')" "w_trace w' = w_trace w"
    using Cons.IH [of "w\<lparr>w_tick := Suc (w_tick w)\<rparr>"] by auto
  then show ?case by (simp add: bind_def at_tick_def ret_def)
qed (simp add: ret_def)

lemma send_chunk_run:
  "\<exists>r w' es. send_chunk tgt v c e w = (Inr r, w') \<and> w_trace w' = w_trace w @ es \<and>
     (r = None \<longrightarrow> es = [Requested (photo_request tgt v c)])"
proof -
  obtain r w' where o: "open_all c e w = (Inr r, w')" "w_trace w' = w_trace w" using open_all_run by blast
  then show ?thesis
    by (cases r) (auto simp: send_chunk_def bind_def ask_def ret_def call_telegram_def emit_def at_tick_def)
qed

lemma photo_loop_run:
  assumes "\<forall>c\<in>set cs. c \<noteq> []"
  shows "\<exists>out w' es. photo_loop tgt v cs acc e w = (Inr out, w') \<and> w_trace w' = w_trace w @ es \<and>
     (\<exists>more. ps_failedPhotos out = ps_failedPhotos acc @ more \<and> subseq more (concat cs) \<and>
        (\<forall>p\<in>set (concat cs). p \<in> set more \<or> ph_storagePath p \<in> photo_paths es) \<and>
        (ps_failure out = None \<longleftrightarrow> ps_failure acc = None \<and> more = []))"
  using assms
proof (induction cs arbitrary: v acc w)
  case Nil
  then show ?case by (auto simp: ret_def)
next
  case (Cons c cs)
  obtain r w1 es where c: "send_chunk tgt v c e w = (Inr r, w1)" "w_trace w1 = w_trace w @ es"
    "r = None \<longrightarrow> es = [Requested (photo_request tgt v c)]" using send_chunk_run by blast
  have ne: "c \<noteq> []" "\<forall>c\<in>set cs. c \<noteq> []" using Cons.prems by auto
  show ?case
  proof (cases r)
    case None
    obtain out w' es' more where IH: "photo_loop tgt None cs acc e w1 = (Inr out, w')" "w_trace w' = w_trace w1 @ es'"
      "ps_failedPhotos out = ps_failedPhotos acc @ more" "subseq more (concat cs)"
      "\<forall>p\<in>set (concat cs). p \<in> set more \<or> ph_storagePath p \<in> photo_paths es'"
      "ps_failure out = None \<longleftrightarrow> ps_failure acc = None \<and> more = []"
      using Cons.IH [OF ne(2), of None acc w1] by (elim exE conjE) (rule that)
    have "photo_paths es = ph_storagePath ` set c" using c(3) None ne(1) by simp
    with IH c None show ?thesis
      by (intro exI [of _ out] exI [of _ w'] exI [of _ "es @ es'"]) (auto simp: bind_def intro!: exI [of _ more] list_emb_append2)
  next
    case (Some f)
    let ?acc = "\<lparr> ps_failedPhotos = ps_failedPhotos acc @ c,
       ps_failure = (case ps_failure acc of None \<Rightarrow> Some f | Some g \<Rightarrow> Some g) \<rparr>"
    show ?thesis
    proof (cases "sf_migrateToChatId f = None")
      case False
      with c Some show ?thesis
        by (intro exI [of _ "\<lparr> ps_failedPhotos = ps_failedPhotos acc @ c @ concat cs, ps_failure = Some f \<rparr>"] exI [of _ w1] exI [of _ es])
          (auto simp: bind_def ret_def Let_def ne(1))
    next
      case True
      obtain out w' es' more where IH: "photo_loop tgt None cs ?acc e w1 = (Inr out, w')" "w_trace w' = w_trace w1 @ es'"
        "ps_failedPhotos out = ps_failedPhotos ?acc @ more" "subseq more (concat cs)"
        "\<forall>p\<in>set (concat cs). p \<in> set more \<or> ph_storagePath p \<in> photo_paths es'"
        "ps_failure out = None \<longleftrightarrow> ps_failure ?acc = None \<and> more = []"
        using Cons.IH [OF ne(2), of None ?acc w1] by (elim exE conjE) (rule that)
      have "ps_failure out \<noteq> None" using IH(6) by (auto split: option.splits)
      with IH c Some True show ?thesis
        by (intro exI [of _ out] exI [of _ w'] exI [of _ "es @ es'"])
          (auto simp: bind_def Let_def ne(1) intro!: exI [of _ "c @ more"] list_emb_append_mono)
    qed
  qed
qed

text \<open>No photo is dropped in silence: a batch always returns, every photo of it is either in a request to
  the chat or in the list of failed photos, the failed photos come in the batch's order and none is
  invented, and a failure is reported exactly when a photo failed.\<close>

theorem photos_accounted_for:
  "\<exists>out es. fst (send_telegram_photos tgt replyTo photos e w) = Inr out \<and>
     w_trace (snd (send_telegram_photos tgt replyTo photos e w)) = w_trace w @ es \<and>
     subseq (ps_failedPhotos out) photos \<and>
     set photos = {p \<in> set photos. p \<in> set (ps_failedPhotos out) \<or> ph_storagePath p \<in> photo_paths es} \<and>
     (ps_failure out = None \<longleftrightarrow> ps_ok out)"
proof -
  have ne: "\<forall>c\<in>set (chunks media_group_max photos). c \<noteq> []" using chunks_bound by blast
  have "concat (chunks media_group_max photos) = photos" by (rule concat_chunks) (simp add: media_group_max_def)
  with photo_loop_run [OF ne, of tgt replyTo "\<lparr> ps_failedPhotos = [], ps_failure = None \<rparr>" e w] show ?thesis
    by (auto simp: send_telegram_photos_def ps_ok_def)
qed

end
