(* ===== verification/ChatMigration.thy ===== *)
theory ChatMigration
  imports AliasRepo
begin

text \<open>
  Repair after a group became a supergroup (\<open>src/telegram/chatMigration.ts\<close>): one transaction under
  the chat's migration lock registers the new chat, re-points every alias with one audit event each,
  and deactivates the old chat.
\<close>

type_synonym chat_meta = "string \<times> string"    \<comment> \<open>title, type\<close>

definition with_chat_migration_lock :: "bigint \<Rightarrow> 'a io \<Rightarrow> 'a io" where
  "with_chat_migration_lock chatId work = transaction (bind advisory_lock (\<lambda>_. work))"

definition fetch_chat_meta :: "bool \<Rightarrow> bigint \<Rightarrow> chat_meta option io" where
  "fetch_chat_meta api newChatId =
     bind (db_read (find_chat_by_id newChatId)) (\<lambda>preRegistered.
       if preRegistered = None \<and> api
       then bind (at_tick (\<lambda>e t. telegram_chat e t newChatId)) (\<lambda>chat.
         ret (case chat of
                Inl err \<Rightarrow> None
              | Inr (title, ty) \<Rightarrow> Some (if truthy title then the title else ''Unknown'', ty)))
       else ret None)"

definition migration_event :: "bigint \<Rightarrow> bigint \<Rightarrow> uuid \<Rightarrow> repointed_alias \<Rightarrow> move_event_input" where
  "migration_event oldChatId newChatId operationId al = \<lparr> mei_operationId = operationId, mei_aliasId = ra_id al,
     mei_aliasOwnerId = ra_createdBy al, mei_actorId = None, mei_authzPath = MigrationPath,
     mei_oldChatId = oldChatId, mei_newChatId = newChatId,
     mei_oldThreadId = ra_messageThreadId al, mei_newThreadId = ra_messageThreadId al, mei_outcome = None \<rparr>"

definition repoint_stmt :: "bigint \<Rightarrow> bigint \<Rightarrow> repointed_alias list io" where
  "repoint_stmt oldChatId newChatId =
     bind now (\<lambda>t. db_stmt (\<lambda>_ d. Inr (repoint_aliases_to_chat oldChatId newChatId t d)))"

text \<open>Lines 99 to 108: the row of the new chat.\<close>

definition register_new_chat :: "bigint \<Rightarrow> bigint \<Rightarrow> chat_meta option \<Rightarrow> chat_meta option \<Rightarrow> unit io" where
  "register_new_chat oldChatId newChatId meta fetched =
     bind (db_read (find_chat_by_id oldChatId)) (\<lambda>oldRow.
     bind (db_read (find_chat_by_id newChatId)) (\<lambda>existingNew.
       case meta of
         Some (title, ty) \<Rightarrow> upsert_chat newChatId title ty
       | None \<Rightarrow>
           if existingNew = None
           then (case fetched of
                   Some (title, ty) \<Rightarrow> upsert_chat newChatId title ty
                 | None \<Rightarrow> upsert_chat newChatId (case oldRow of Some r \<Rightarrow> ch_title r | None \<Rightarrow> ''Unknown'') ''supergroup'')
           else ret ()))"

text \<open>Lines 98 to 150: the transaction's callback.\<close>

definition rekey_body :: "bigint \<Rightarrow> bigint \<Rightarrow> chat_meta option \<Rightarrow> chat_meta option \<Rightarrow> nat io" where
  "rekey_body oldChatId newChatId meta fetched =
     bind (register_new_chat oldChatId newChatId meta fetched) (\<lambda>_.
     bind (db_read (list_alias_owners_by_chat oldChatId)) (\<lambda>owners.
     bind (for_each (lock_order (map Some owners)) (\<lambda>_. advisory_lock)) (\<lambda>_.
     bind (repoint_stmt oldChatId newChatId) (\<lambda>repointed.
     bind random_uuid (\<lambda>operationId.
     bind (for_each repointed (\<lambda>al. insert_alias_move_event (migration_event oldChatId newChatId operationId al))) (\<lambda>_.
     bind (deactivate_chat oldChatId) (\<lambda>_.
     ret (length repointed))))))))"

text \<open>\<open>invalidateChatAuthorizationCache\<close> and \<open>invalidateReachabilityCache\<close>\<close>

definition invalidate_chat_authorization_cache :: "bigint \<Rightarrow> unit io" where
  "invalidate_chat_authorization_cache chatId =
     bind (peek w_memberCache) (\<lambda>cache. set_member_cache (filter (\<lambda>((chat, user), entry). chat \<noteq> chatId) cache))"

definition invalidate_reachability_cache :: "bigint \<Rightarrow> unit io" where
  "invalidate_reachability_cache chatId =
     bind (peek w_reachCache) (\<lambda>cache. set_reach_cache (filter (\<lambda>(chat, entry). chat \<noteq> chatId) cache))"

definition invalidate_caches :: "bigint \<Rightarrow> bigint \<Rightarrow> unit io" where
  "invalidate_caches oldChatId newChatId =
     bind (invalidate_chat_authorization_cache oldChatId) (\<lambda>_.
     bind (invalidate_chat_authorization_cache newChatId) (\<lambda>_.
     bind (invalidate_reachability_cache oldChatId) (\<lambda>_.
     invalidate_reachability_cache newChatId)))"

definition repair_chat_migration :: "bool \<Rightarrow> bigint \<Rightarrow> bigint \<Rightarrow> chat_meta option \<Rightarrow> nat io" where
  "repair_chat_migration api oldChatId newChatId meta =
     bind (if meta = None then fetch_chat_meta api newChatId else ret None) (\<lambda>fetched.
     bind (with_chat_migration_lock oldChatId (rekey_body oldChatId newChatId meta fetched)) (\<lambda>aliasCount.
     bind (invalidate_caches oldChatId newChatId) (\<lambda>_.
     ret aliasCount)))"

text \<open>The service messages: \<open>migrate_to_chat_id\<close> in the old chat, \<open>migrate_from_chat_id\<close> in the new.\<close>

definition migrate_to_chat_id_handler :: "bigint option \<Rightarrow> bigint option \<Rightarrow> unit io" where
  "migrate_to_chat_id_handler migrateTo chat =
     (case (migrateTo, chat) of
        (Some newChatId, Some c) \<Rightarrow> bind (repair_chat_migration True c newChatId None) (\<lambda>_. ret ())
      | _ \<Rightarrow> ret ())"

definition migrate_from_chat_id_handler :: "bigint option \<Rightarrow> (bigint \<times> string option \<times> string) option \<Rightarrow> unit io" where
  "migrate_from_chat_id_handler migrateFrom chat =
     (case (migrateFrom, chat) of
        (Some oldChatId, Some (c, title, ty)) \<Rightarrow>
          bind (repair_chat_migration True oldChatId c (Some (if truthy title then the title else ''Unknown'', ty))) (\<lambda>_. ret ())
      | _ \<Rightarrow> ret ())"

section \<open>The effect of a repair\<close>

definition moved_aliases :: "bigint \<Rightarrow> db \<Rightarrow> alias_row list" where
  "moved_aliases c d = filter (\<lambda>a. al_chatId a = c) (aliases d)"

definition migration_audit :: "bigint \<Rightarrow> bigint \<Rightarrow> uuid \<Rightarrow> alias_row \<Rightarrow> move_event_row" where
  "migration_audit oldChatId newChatId op a = \<lparr> ev_operationId = op, ev_aliasId = al_id a, ev_aliasOwnerId = al_createdBy a,
     ev_actorId = None, ev_authzPath = MigrationPath, ev_oldChatId = oldChatId, ev_newChatId = newChatId,
     ev_oldThreadId = al_messageThreadId a, ev_newThreadId = al_messageThreadId a, ev_outcome = MoveSucceeded \<rparr>"

definition repaired :: "bigint \<Rightarrow> bigint \<Rightarrow> uuid \<Rightarrow> instant \<Rightarrow> db \<Rightarrow> db \<Rightarrow> bool" where
  "repaired oldChatId newChatId op t d d' \<longleftrightarrow>
     aliases d' = update_where (\<lambda>a. al_chatId a = oldChatId) (repoint_row newChatId t) (aliases d) \<and>
     aliasMoveEvents d' = aliasMoveEvents d @ map (migration_audit oldChatId newChatId op) (moved_aliases oldChatId d) \<and>
     (\<exists>r\<in>set (chats d'). ch_id r = newChatId) \<and>
     (\<forall>r\<in>set (chats d'). ch_id r = oldChatId \<longrightarrow> \<not> ch_isActive r) \<and>
     deliveryLogs d' = deliveryLogs d \<and> userUsageMonths d' = userUsageMonths d"

lemma fold_move_events:
  "for_each as (\<lambda>al. insert_alias_move_event (f al)) e w = (Inr u, w') \<Longrightarrow>
   w_db w' = (w_db w)\<lparr>aliasMoveEvents := aliasMoveEvents (w_db w) @ map (\<lambda>al. move_event_of (f al)) as\<rparr>"
  by (induction as arbitrary: w) (auto simp: run_simps insert_alias_move_event_def add_move_event_def)

lemma upsert_chat_simps [simp]:
  "aliases (upsert_chat_at t c ti ty d) = aliases d" "aliasMoveEvents (upsert_chat_at t c ti ty d) = aliasMoveEvents d"
  "deliveryLogs (upsert_chat_at t c ti ty d) = deliveryLogs d" "userUsageMonths (upsert_chat_at t c ti ty d) = userUsageMonths d"
  by (simp_all add: upsert_chat_at_def split: option.splits)

lemma upsert_chat_present: "\<exists>r\<in>set (chats (upsert_chat_at t c ti ty d)). ch_id r = c"
proof (cases "find_chat_by_id c d")
  case (Some r)
  then have "r \<in> set (chats d)" "ch_id r = c" using select_first_Some [of _ "chats d" r] by (auto simp: find_chat_by_id_def)
  then have "r\<lparr>ch_title := ti, ch_type := ty, ch_isActive := True, ch_updatedAt := t\<rparr> \<in> set (chats (upsert_chat_at t c ti ty d))"
    by (auto simp: upsert_chat_at_def Some set_update_where)
  then show ?thesis using \<open>ch_id r = c\<close> by (intro bexI) simp_all
qed (simp add: upsert_chat_at_def)

lemma bind_db_read_Inr:
  "bind (db_read f) g e w = (Inr a, w') \<Longrightarrow> \<exists>v. g (f (w_db w)) e v = (Inr a, w') \<and> w_db v = w_db w"
  by (auto simp: bind_Inr db_read_Inr intro!: exI [of _ "w\<lparr>w_tick := Suc (w_tick w)\<rparr>"])

lemma register_Inr:
  assumes "register_new_chat oldC newC meta fetched e w = (Inr u, w')"
  shows "aliases (w_db w') = aliases (w_db w) \<and> aliasMoveEvents (w_db w') = aliasMoveEvents (w_db w) \<and>
    deliveryLogs (w_db w') = deliveryLogs (w_db w) \<and> userUsageMonths (w_db w') = userUsageMonths (w_db w) \<and>
    (\<exists>r\<in>set (chats (w_db w')). ch_id r = newC)"
proof -
  have "\<exists>r\<in>set (chats d). ch_id r = newC" if "find_chat_by_id newC d = Some x" for d x
    using that select_first_Some by (fastforce simp: find_chat_by_id_def)
  then have pre: "\<exists>r\<in>set (chats d). ch_id r = newC" if "find_chat_by_id newC d \<noteq> None" for d using that by blast
  have up: "aliases (w_db v') = aliases (w_db v) \<and> aliasMoveEvents (w_db v') = aliasMoveEvents (w_db v) \<and>
      deliveryLogs (w_db v') = deliveryLogs (w_db v) \<and> userUsageMonths (w_db v') = userUsageMonths (w_db v) \<and>
      (\<exists>r\<in>set (chats (w_db v')). ch_id r = newC)"
    if "upsert_chat newC ti ty e v = (Inr u, v')" for v v' ti ty
    using that by (auto simp: upsert_chat_def bind_Inr now_Inr db_write_Inr upsert_chat_present)
  obtain v1 where v1: "bind (db_read (find_chat_by_id newC)) (\<lambda>existingNew. case meta of Some (title, ty) \<Rightarrow> upsert_chat newC title ty
       | None \<Rightarrow> if existingNew = None
           then (case fetched of Some (title, ty) \<Rightarrow> upsert_chat newC title ty
                 | None \<Rightarrow> upsert_chat newC (case find_chat_by_id oldC (w_db w) of Some r \<Rightarrow> ch_title r | None \<Rightarrow> ''Unknown'') ''supergroup'')
           else ret ()) e v1 = (Inr u, w')" "w_db v1 = w_db w"
    using bind_db_read_Inr [OF assms [unfolded register_new_chat_def]] by blast
  obtain v2 where d: "w_db v2 = w_db w" and r: "(case meta of Some (title, ty) \<Rightarrow> upsert_chat newC title ty
       | None \<Rightarrow> if find_chat_by_id newC (w_db w) = None
           then (case fetched of Some (title, ty) \<Rightarrow> upsert_chat newC title ty
                 | None \<Rightarrow> upsert_chat newC (case find_chat_by_id oldC (w_db w) of Some r \<Rightarrow> ch_title r | None \<Rightarrow> ''Unknown'') ''supergroup'')
           else ret ()) e v2 = (Inr u, w')"
    using bind_db_read_Inr [OF v1(1)] unfolding v1(2) by blast
  show ?thesis
  proof (cases meta)
    case (Some m)
    then show ?thesis using r up d by (cases m) simp
  next
    case None
    then show ?thesis using r up d pre
      by (cases "find_chat_by_id newC (w_db w) = None"; cases fetched) (auto simp: ret_Inr split: prod.splits)
  qed
qed

lemma deactivated_chats:
  assumes "\<exists>r\<in>set (chats d). ch_id r = c"
  shows "(\<exists>r\<in>set (chats (deactivate_chat_at s k d)). ch_id r = c) \<and>
    (\<forall>r\<in>set (chats (deactivate_chat_at s k d)). ch_id r = k \<longrightarrow> \<not> ch_isActive r)"
proof -
  obtain r where r: "r \<in> set (chats d)" "ch_id r = c" using assms by blast
  let ?r = "if ch_id r = k then r\<lparr>ch_isActive := False, ch_updatedAt := s\<rparr> else r"
  have "?r \<in> set (chats (deactivate_chat_at s k d))" using r(1) by (simp add: deactivate_chat_at_def set_update_where)
  moreover have "ch_id ?r = c" using r(2) by simp
  ultimately have present: "\<exists>r\<in>set (chats (deactivate_chat_at s k d)). ch_id r = c" by (rule rev_bexI)
  have inactive: "\<forall>r\<in>set (chats (deactivate_chat_at s k d)). ch_id r = k \<longrightarrow> \<not> ch_isActive r"
  proof (intro ballI impI)
    fix q assume "q \<in> set (chats (deactivate_chat_at s k d))" and id: "ch_id q = k"
    then have "(\<exists>x. q = x\<lparr>ch_isActive := False, ch_updatedAt := s\<rparr>) \<or> ch_id q \<noteq> k"
      unfolding deactivate_chat_at_def by (simp add: set_update_where image_iff) blast
    then show "\<not> ch_isActive q" using id by (elim disjE exE) simp_all
  qed
  show ?thesis using present inactive by (rule conjI)
qed

lemma rekey_body_Inr:
  assumes "rekey_body oldC newC meta fetched e w = (Inr n, w')"
  shows "\<exists>op t. repaired oldC newC op t (w_db w) (w_db w') \<and> n = length (moved_aliases oldC (w_db w))"
proof -
  obtain u w1 owners w2 u2 w3 repointed w4 op w5 u5 w6 u6 w7 where
      r: "register_new_chat oldC newC meta fetched e w = (Inr u, w1)"
    and o: "db_read (list_alias_owners_by_chat oldC) e w1 = (Inr owners, w2)"
    and l: "for_each (lock_order (map Some owners)) (\<lambda>_. advisory_lock) e w2 = (Inr u2, w3)"
    and p: "repoint_stmt oldC newC e w3 = (Inr repointed, w4)"
    and i: "random_uuid e w4 = (Inr op, w5)"
    and v: "for_each repointed (\<lambda>al. insert_alias_move_event (migration_event oldC newC op al)) e w5 = (Inr u5, w6)"
    and x: "deactivate_chat oldC e w6 = (Inr u6, w7)" and n: "n = length repointed" and w': "w' = w7"
    using assms unfolding rekey_body_def bind_Inr ret_Inr by (elim exE conjE)
  have d3: "w_db w3 = w_db w1" using o locks_Inr [OF l] by (simp add: db_read_Inr)
  obtain t where rp: "repointed = fst (repoint_aliases_to_chat oldC newC t (w_db w1))"
    "w_db w4 = snd (repoint_aliases_to_chat oldC newC t (w_db w1))"
    using p d3 by (auto simp: repoint_stmt_def bind_Inr now_Inr db_stmt_total_Inr)
  obtain s where d': "w_db w' = deactivate_chat_at s oldC (w_db w6)" using x w' by (auto simp: deactivate_chat_def run_simps)
  have d6: "w_db w6 = (w_db w4)\<lparr>aliasMoveEvents := aliasMoveEvents (w_db w4) @ map (\<lambda>al. move_event_of (migration_event oldC newC op al)) repointed\<rparr>"
    using fold_move_events [OF v] i by (simp add: random_uuid_Inr)
  have a: "map (\<lambda>al. move_event_of (migration_event oldC newC op al)) repointed = map (migration_audit oldC newC op) (moved_aliases oldC (w_db w))"
    using register_Inr [OF r]
    by (simp add: rp(1) repoint_aliases_to_chat_def moved_aliases_def migration_audit_def move_event_of_def migration_event_def comp_def)
  have c: "(\<exists>r\<in>set (chats (w_db w')). ch_id r = newC) \<and> (\<forall>r\<in>set (chats (w_db w')). ch_id r = oldC \<longrightarrow> \<not> ch_isActive r)"
    using deactivated_chats [of "w_db w6" newC s oldC] register_Inr [OF r] rp(2) d' d6
    by (simp add: repoint_aliases_to_chat_def)
  have "repaired oldC newC op t (w_db w) (w_db w')"
    unfolding repaired_def using register_Inr [OF r] rp(2) c
    by (simp add: d' d6 a repoint_aliases_to_chat_def deactivate_chat_at_def)
  then show ?thesis using n rp(1) register_Inr [OF r]
    by (auto simp: repoint_aliases_to_chat_def moved_aliases_def)
qed

lemma quiet_fetch [quiet_rules]: "quiet (fetch_chat_meta api c)"
  unfolding fetch_chat_meta_def by (intro quiet_rules)

lemma open_rekey [open_rules]: "stays_open (rekey_body oldC newC meta fetched)"
  unfolding rekey_body_def register_new_chat_def upsert_chat_def repoint_stmt_def insert_alias_move_event_def deactivate_chat_def
  by (intro open_rules) (auto intro!: open_rules split: prod.splits)

lemma invalidations_run:
  "invalidate_caches oldC newC e w = (Inr (), w\<lparr>
     w_memberCache := filter (\<lambda>((chat, user), entry). chat \<noteq> oldC \<and> chat \<noteq> newC) (w_memberCache w),
     w_reachCache := filter (\<lambda>(chat, entry). chat \<noteq> oldC \<and> chat \<noteq> newC) (w_reachCache w)\<rparr>)"
  by (auto simp: invalidate_caches_def invalidate_chat_authorization_cache_def invalidate_reachability_cache_def
      bind_def cache_simps case_prod_unfold conj_commute intro!: filter_cong)

lemma invalidate_caches_rules [keeps_rules, emits_rules, advances_rules]:
  "keeps I (invalidate_caches oldC newC)" "emits G (invalidate_caches oldC newC)" "advances (invalidate_caches oldC newC)"
  by (simp_all add: keeps_def emits_def advances_def invalidations_run)

lemma repair_effect:
  assumes "repair_chat_migration api oldC newC meta e w = (r, w')" and "w_tx w = NoTx"
  shows "case r of
      Inr n \<Rightarrow> \<exists>op t. repaired oldC newC op t (w_db w) (w_db w') \<and> n = length (moved_aliases oldC (w_db w))
    | Inl x \<Rightarrow> w_db w' = w_db w \<or> (\<exists>op t. repaired oldC newC op t (w_db w) (w_db w'))"
proof -
  obtain f w1 where f: "(if meta = None then fetch_chat_meta api newC else ret None) e w = (f, w1)" by fastforce
  have fdb: "w_db w1 = w_db w"
    using f by (auto simp: fetch_chat_meta_def ret_def bind_def db_read_def db_stmt_def at_tick_def Let_def
        split: if_splits prod.splits sum.splits fault.splits)
  show ?thesis
  proof (cases f)
    case (Inl x)
    with f assms(1) have "r = Inl x" "w' = w1" by (auto simp: repair_chat_migration_def bind_def)
    with fdb show ?thesis by simp
  next
    case (Inr fetched)
    let ?b = "bind advisory_lock (\<lambda>_. rekey_body oldC newC meta fetched)"
    obtain s w2 where t: "transaction ?b e w1 = (s, w2)" by fastforce
    have body: "\<exists>op t. repaired oldC newC op t (w_db v) (w_db v') \<and> n = length (moved_aliases oldC (w_db v))"
      if run: "?b e v = (Inr n, v')" for v v' n
    proof -
      obtain u v1 where "advisory_lock e v = (Inr u, v1)" "rekey_body oldC newC meta fetched e v1 = (Inr n, v')"
        using run unfolding bind_Inr by (elim exE conjE)
      then show ?thesis using rekey_body_Inr [of oldC newC meta fetched e v1 n v'] by (simp add: advisory_lock_Inr)
    qed
    have rest: "case s of Inl x \<Rightarrow> r = Inl x \<and> w' = w2 | Inr n \<Rightarrow> r = Inr n \<and> w_db w' = w_db w2"
      using assms(1) f Inr t
      by (auto simp: repair_chat_migration_def with_chat_migration_lock_def bind_def ret_def invalidations_run split: sum.splits)
    show ?thesis
    proof (cases s)
      case (Inl x)
      have "w_db w2 = w_db w1 \<or> (\<exists>a w3. ?b e (begin_tx e w1) = (Inr a, w3) \<and> w_tx w3 \<noteq> Aborted \<and> w_tx w3 \<noteq> Broken \<and> w_db w2 = w_db w3)"
        by (rule transaction_atomic [OF t])
      then have "w_db w2 = w_db w \<or> (\<exists>op t. repaired oldC newC op t (w_db w) (w_db w2))"
        using body fdb by fastforce
      with rest Inl show ?thesis by simp
    next
      case (Inr n)
      have "stays_open ?b" by (intro open_rules)
      then obtain w3 where "?b e (begin_tx e w1) = (Inr n, w3)" "w_db w2 = w_db w3"
        by (rule transaction_open_InrD [OF t [unfolded Inr]]) blast
      then have "\<exists>op t. repaired oldC newC op t (w_db w) (w_db w2) \<and> n = length (moved_aliases oldC (w_db w))"
        using body [of "begin_tx e w1" n w3] fdb by simp
      with rest Inr show ?thesis by simp
    qed
  qed
qed


text \<open>The repair is idempotent: after a repair to a different chat no alias points at the old chat any
  more, and a second repair of the same pair, whichever of the three observers starts it, changes no
  alias and writes no audit event.\<close>

theorem migration_repair_idempotent:
  assumes first: "repair_chat_migration api oldC newC meta e w = (Inr n, w1)" and "w_tx w = NoTx" and "oldC \<noteq> newC"
    and second: "repair_chat_migration api2 oldC newC meta2 e2 w2 = (r, w3)" and "w_tx w2 = NoTx" and "w_db w2 = w_db w1"
  shows "moved_aliases oldC (w_db w1) = [] \<and> aliases (w_db w3) = aliases (w_db w1) \<and>
         aliasMoveEvents (w_db w3) = aliasMoveEvents (w_db w1) \<and> (\<forall>k. r = Inr k \<longrightarrow> k = 0)"
proof -
  obtain op t where "repaired oldC newC op t (w_db w) (w_db w1)"
    using repair_effect [OF first assms(2)] by auto
  then have "al_chatId a \<noteq> oldC" if "a \<in> set (aliases (w_db w1))" for a
    using that assms(3) by (auto simp: repaired_def set_update_where split: if_splits)
  then have none: "moved_aliases oldC (w_db w1) = []" by (simp add: moved_aliases_def filter_empty_conv)
  then have same: "aliases d' = aliases (w_db w1) \<and> aliasMoveEvents d' = aliasMoveEvents (w_db w1)"
    if "repaired oldC newC op' t' (w_db w1) d'" for op' t' d'
    using that update_where_none [of "aliases (w_db w1)" "\<lambda>a. al_chatId a = oldC"]
    by (auto simp: repaired_def moved_aliases_def filter_empty_conv)
  show ?thesis using repair_effect [OF second assms(5)] none same unfolding assms(6)
    by (cases r) auto
qed

lemma sample_repair:
  assumes "w_tx w = NoTx" and "w_db w = empty_db\<lparr>aliases := [sample_alias]\<rparr>"
  shows "\<exists>w'. repair_chat_migration False 10 99 (Some (''T'', ''supergroup'')) calm_env w = (Inr 1, w') \<and> w_tx w' = NoTx"
proof -
  let ?b = "bind advisory_lock (\<lambda>_. rekey_body 10 99 (Some (''T'', ''supergroup'')) None)"
  have "\<exists>w2. ?b calm_env (begin_tx calm_env w) = (Inr 1, w2) \<and> w_tx w2 = InTx"
    using assms
    by (simp add: rekey_body_def register_new_chat_def upsert_chat_def step_simps begin_tx_def repoint_stmt_def
        insert_alias_move_event_def deactivate_chat_def list_alias_owners_by_chat_def sample_alias_def lock_order_def
        repoint_aliases_to_chat_def find_chat_by_id_def upsert_chat_at_def List.map_filter_def)
  then obtain w2 where "?b calm_env (begin_tx calm_env w) = (Inr 1, w2)" "w_tx w2 = InTx" by blast
  then have "\<exists>w2. transaction ?b calm_env w = (Inr 1, w2) \<and> w_tx w2 = NoTx"
    using transaction_fine [of calm_env w ?b 1 w2] by simp
  then show ?thesis
    by (auto simp: repair_chat_migration_def with_chat_migration_lock_def bind_def ret_def invalidations_run)
qed


lemma migration_repair_idempotent_witness:
  "\<exists>w1 r w3. repair_chat_migration False 10 99 (Some (''T'', ''supergroup'')) calm_env (start_world (empty_db\<lparr>aliases := [sample_alias]\<rparr>)) = (Inr 1, w1) \<and>
     repair_chat_migration True 10 99 None calm_env w1 = (r, w3) \<and>
     aliases (w_db w3) = aliases (w_db w1) \<and> aliasMoveEvents (w_db w3) = aliasMoveEvents (w_db w1)"
proof -
  obtain w1 where run: "repair_chat_migration False 10 99 (Some (''T'', ''supergroup'')) calm_env (start_world (empty_db\<lparr>aliases := [sample_alias]\<rparr>)) = (Inr 1, w1)"
    "w_tx w1 = NoTx" using sample_repair [of "start_world (empty_db\<lparr>aliases := [sample_alias]\<rparr>)"] by auto
  obtain r w3 where second: "repair_chat_migration True 10 99 None calm_env w1 = (r, w3)" by fastforce
  show ?thesis using migration_repair_idempotent [OF run(1) _ _ second run(2)] run(1) second by auto
qed

end
