(* ===== verification/AliasActivation.thy ===== *)
theory AliasActivation
  imports DeliveryRepo AliasRepo
begin

text \<open>
  The statements of the first-bounce notice (\<open>src/db/repos/aliasActivation.ts\<close>): the working-alias
  marker, the claim that spends one of an alias's notices, the one-tap token.  Every statement is a
  function of \<open>now()\<close> and the database; the last section runs arbitrary sequences of them.
\<close>

definition activation_claim_budget :: int where "activation_claim_budget = 3"

definition activation_claim_window_hours :: int where "activation_claim_window_hours = 24"

definition activation_token_ttl_days :: int where "activation_token_ttl_days = 7"

definition activation_new_alias_days :: int where "activation_new_alias_days = 7"

definition make_hours :: "int \<Rightarrow> int" where "make_hours n = n * 3600000"

definition make_days :: "int \<Rightarrow> int" where "make_days n = n * 86400000"

definition is_activation :: "uuid \<Rightarrow> activation_row \<Rightarrow> bool" where
  "is_activation i r \<longleftrightarrow> av_aliasId r = i"

definition find_activation :: "uuid \<Rightarrow> db \<Rightarrow> activation_row option" where
  "find_activation i d = select_first (is_activation i) (aliasActivation d)"

text \<open>The column defaults of a fresh row.\<close>

definition blank_activation :: "uuid \<Rightarrow> activation_row" where
  "blank_activation i = \<lparr> av_aliasId = i, av_firstDeliveredAt = None, av_claimsUsed = 0, av_lastClaimAt = None,
     av_firstNoticeAt = None, av_token = None, av_expiresAt = None, av_domain = None, av_chatId = None,
     av_routingVersion = None, av_sentAt = None, av_firstSentAt = None \<rparr>"

definition put_activation :: "activation_row \<Rightarrow> db \<Rightarrow> db" where
  "put_activation r d = d\<lparr> aliasActivation := aliasActivation d @ [r] \<rparr>"

definition update_activations :: "(activation_row \<Rightarrow> bool) \<Rightarrow> (activation_row \<Rightarrow> activation_row) \<Rightarrow> db \<Rightarrow> db" where
  "update_activations p f d = d\<lparr> aliasActivation := update_where p f (aliasActivation d) \<rparr>"

text \<open>SQL's \<open>expires_at > now()\<close> and \<open>expires_at < now()\<close>: neither holds of NULL.\<close>

definition unexpired :: "instant \<Rightarrow> activation_row \<Rightarrow> bool" where
  "unexpired t r \<longleftrightarrow> (case av_expiresAt r of Some x \<Rightarrow> t < x | None \<Rightarrow> False)"

definition expired :: "instant \<Rightarrow> activation_row \<Rightarrow> bool" where
  "expired t r \<longleftrightarrow> (case av_expiresAt r of Some x \<Rightarrow> x < t | None \<Rightarrow> False)"

section \<open>Working-alias marker\<close>

definition succeeded_attempt_exists :: "uuid \<Rightarrow> db \<Rightarrow> bool" where
  "succeeded_attempt_exists i d \<longleftrightarrow>
     list_ex (\<lambda>l. dl_emailAddressId l = i \<and>
       list_ex (\<lambda>a. da_deliveryLogId a = dl_id l \<and> da_status a = AttemptSucceeded) (deliveryAttempts d)) (deliveryLogs d)"

definition mark_first_delivered_stmt :: "uuid \<Rightarrow> instant \<Rightarrow> db \<Rightarrow> db" where
  "mark_first_delivered_stmt i t d =
     (if find_activation i d = None then put_activation ((blank_activation i)\<lparr> av_firstDeliveredAt := Some t \<rparr>) d
      else update_activations (\<lambda>r. is_activation i r \<and> av_firstDeliveredAt r = None)
             (\<lambda>r. r\<lparr> av_firstDeliveredAt := Some t \<rparr>) d)"

definition mark_alias_first_delivered :: "uuid \<Rightarrow> unit io" where
  "mark_alias_first_delivered i =
     with_bounded_transaction (db_stmt (\<lambda>t d. Inr ((), mark_first_delivered_stmt i t d)))"

text \<open>Grouped by alias, in the order the aliases appear: the alias and its earliest succeeded attempt.\<close>

definition unmarked_deliveries :: "db \<Rightarrow> (uuid \<times> instant) list" where
  "unmarked_deliveries d =
     (let hits = concat (map (\<lambda>a. if da_status a = AttemptSucceeded
                then map (\<lambda>l. (dl_emailAddressId l, da_createdAt a)) (filter (\<lambda>l. dl_id l = da_deliveryLogId a) (deliveryLogs d))
                else []) (deliveryAttempts d));
          open_hits = filter (\<lambda>(i, t). \<not> list_ex (\<lambda>r. is_activation i r \<and> av_firstDeliveredAt r \<noteq> None) (aliasActivation d)) hits
      in map (\<lambda>i. (i, Min (set (map snd (filter (\<lambda>(j, t). j = i) open_hits))))) (remdups (map fst open_hits)))"

definition mark_all :: "(uuid \<times> instant) list \<Rightarrow> db \<Rightarrow> db" where
  "mark_all ms d = fold (\<lambda>m. mark_first_delivered_stmt (fst m) (snd m)) ms d"

definition reconcile_first_delivered_markers :: "db \<Rightarrow> nat \<times> db" where
  "reconcile_first_delivered_markers d =
     (length (unmarked_deliveries d), mark_all (unmarked_deliveries d) d)"

definition clear_expired_activation_tokens :: "instant \<Rightarrow> db \<Rightarrow> nat \<times> db" where
  "clear_expired_activation_tokens t d =
     (let stale = (\<lambda>r. expired t r \<and> (av_token r \<noteq> None \<or> av_domain r \<noteq> None))
      in (count_where stale (aliasActivation d),
          update_activations stale (\<lambda>r. r\<lparr> av_token := None, av_domain := None \<rparr>) d))"

section \<open>The notice: gate, claim, domain, revalidation, acknowledgement\<close>

record activation_gate =
  ag_aliasId :: uuid
  ag_status :: alias_status
  ag_ownerId :: bigint
  ag_chatId :: bigint
  ag_routingVersion :: int
  ag_recentlyCreated :: bool
  ag_working :: bool
  ag_ownerNeverAccepted :: bool

definition working_alias :: "uuid \<Rightarrow> db \<Rightarrow> bool" where
  "working_alias i d \<longleftrightarrow> list_ex (\<lambda>r. is_activation i r \<and> av_firstDeliveredAt r \<noteq> None) (aliasActivation d) \<or>
     succeeded_attempt_exists i d"

definition read_activation_gate :: "uuid \<Rightarrow> instant \<Rightarrow> db \<Rightarrow> activation_gate option" where
  "read_activation_gate i t d =
     map_option (\<lambda>a. \<lparr> ag_aliasId = al_id a, ag_status = al_status a, ag_ownerId = al_createdBy a, ag_chatId = al_chatId a,
        ag_routingVersion = al_routingVersion a,
        ag_recentlyCreated = (t - make_days activation_new_alias_days \<le> al_createdAt a),
        ag_working = working_alias (al_id a) d,
        ag_ownerNeverAccepted =
          (sum_list (map um_deliveredCount (filter (\<lambda>u. um_userId u = al_createdBy a) (userUsageMonths d))) = 0) \<rparr>)
      (find_alias_by_id i d)"

record activation_claim =
  ac_aliasId :: uuid
  ac_token :: string
  ac_chatId :: bigint
  ac_routingVersion :: int

text \<open>The condition of \<open>ON CONFLICT DO UPDATE WHERE\<close>.\<close>

definition claim_open :: "instant \<Rightarrow> activation_row \<Rightarrow> bool" where
  "claim_open t r \<longleftrightarrow> av_firstDeliveredAt r = None \<and> av_claimsUsed r < activation_claim_budget \<and>
     (case av_lastClaimAt r of None \<Rightarrow> True | Some x \<Rightarrow> x \<le> t - make_hours activation_claim_window_hours)"

definition claimed_row :: "activation_claim \<Rightarrow> instant \<Rightarrow> activation_row \<Rightarrow> activation_row" where
  "claimed_row c t r = r\<lparr> av_claimsUsed := av_claimsUsed r + 1, av_lastClaimAt := Some t,
     av_firstNoticeAt := Some (or_else (av_firstNoticeAt r) t), av_token := Some (ac_token c),
     av_expiresAt := Some (t + make_days activation_token_ttl_days), av_domain := None,
     av_chatId := Some (ac_chatId c), av_routingVersion := Some (ac_routingVersion c) \<rparr>"

definition claim_activation_notice :: "activation_claim \<Rightarrow> instant \<Rightarrow> db \<Rightarrow> bool \<times> db" where
  "claim_activation_notice c t d =
     (case find_activation (ac_aliasId c) d of
        None \<Rightarrow> (True, put_activation (claimed_row c t (blank_activation (ac_aliasId c))) d)
      | Some r \<Rightarrow>
          if claim_open t r then (True, update_activations (is_activation (ac_aliasId c)) (claimed_row c t) d)
          else (False, d))"

definition live_token :: "uuid \<Rightarrow> string \<Rightarrow> instant \<Rightarrow> activation_row \<Rightarrow> bool" where
  "live_token i tok t r \<longleftrightarrow> is_activation i r \<and> av_token r = Some tok \<and> unexpired t r"

definition set_activation_domain :: "uuid \<Rightarrow> string \<Rightarrow> string \<Rightarrow> instant \<Rightarrow> db \<Rightarrow> bool \<times> db" where
  "set_activation_domain i tok dmn t d =
     (list_ex (live_token i tok t) (aliasActivation d),
      update_activations (live_token i tok t) (\<lambda>r. r\<lparr> av_domain := Some dmn \<rparr>) d)"

record activation_revalidation =
  vr_status :: alias_status
  vr_ownerId :: bigint
  vr_chatId :: bigint
  vr_routingVersion :: int
  vr_fullAddress :: string
  vr_ownerLocale :: "string option"
  vr_token :: "string option"
  vr_domain :: "string option"
  vr_working :: bool

definition read_activation_revalidation :: "uuid \<Rightarrow> instant \<Rightarrow> db \<Rightarrow> activation_revalidation option" where
  "read_activation_revalidation i t d =
     (case (find_alias_by_id i d, find_activation i d) of
        (Some a, Some r) \<Rightarrow> Some \<lparr> vr_status = al_status a, vr_ownerId = al_createdBy a, vr_chatId = al_chatId a,
          vr_routingVersion = al_routingVersion a, vr_fullAddress = al_fullAddress a,
          vr_ownerLocale = (case select_first (\<lambda>u. u_id u = al_createdBy a) (users d) of Some u \<Rightarrow> u_locale u | None \<Rightarrow> None),
          vr_token = (if unexpired t r then av_token r else None),
          vr_domain = (if unexpired t r then av_domain r else None),
          vr_working = (av_firstDeliveredAt r \<noteq> None \<or> succeeded_attempt_exists (al_id a) d) \<rparr>
      | _ \<Rightarrow> None)"

definition record_activation_notice_sent :: "uuid \<Rightarrow> instant \<Rightarrow> db \<Rightarrow> db" where
  "record_activation_notice_sent i t d =
     update_activations (is_activation i) (\<lambda>r. r\<lparr> av_sentAt := Some t, av_firstSentAt := Some (or_else (av_firstSentAt r) t) \<rparr>) d"

section \<open>The one-tap button\<close>

record consumed_token =
  ct_domain :: "string option"
  ct_chatId :: "bigint option"
  ct_routingVersion :: "int option"

definition consume_activation_token :: "uuid \<Rightarrow> string \<Rightarrow> instant \<Rightarrow> db \<Rightarrow> consumed_token option \<times> db" where
  "consume_activation_token i tok t d =
     (map_option (\<lambda>r. \<lparr> ct_domain = av_domain r, ct_chatId = av_chatId r, ct_routingVersion = av_routingVersion r \<rparr>)
        (select_first (live_token i tok t) (aliasActivation d)),
      update_activations (live_token i tok t) (\<lambda>r. r\<lparr> av_token := None \<rparr>) d)"

section \<open>Sequences of activation statements\<close>

datatype activation_op =
    OpMark uuid | OpReconcile | OpClear | OpClaim activation_claim | OpDomain uuid string string
  | OpSent uuid | OpConsume uuid string

fun activation_step :: "activation_op \<Rightarrow> instant \<Rightarrow> db \<Rightarrow> bool \<times> db" where
  "activation_step (OpMark i) t d = (True, mark_first_delivered_stmt i t d)"
| "activation_step OpReconcile t d = (True, snd (reconcile_first_delivered_markers d))"
| "activation_step OpClear t d = (True, snd (clear_expired_activation_tokens t d))"
| "activation_step (OpClaim c) t d = claim_activation_notice c t d"
| "activation_step (OpDomain i tok dmn) t d = set_activation_domain i tok dmn t d"
| "activation_step (OpSent i) t d = (True, record_activation_notice_sent i t d)"
| "activation_step (OpConsume i tok) t d =
     (fst (consume_activation_token i tok t d) \<noteq> None, snd (consume_activation_token i tok t d))"

text \<open>The statements of a history that took effect, with their times.\<close>

fun won_ops :: "(instant \<times> activation_op) list \<Rightarrow> db \<Rightarrow> (instant \<times> activation_op) list" where
  "won_ops [] d = []"
| "won_ops ((t, p) # ps) d =
     (if fst (activation_step p t d) then [(t, p)] else []) @ won_ops ps (snd (activation_step p t d))"

fun claims_for :: "uuid \<Rightarrow> activation_op \<Rightarrow> bool" where
  "claims_for i (OpClaim c) = (ac_aliasId c = i)"
| "claims_for i p = False"

fun issues :: "uuid \<Rightarrow> string \<Rightarrow> activation_op \<Rightarrow> bool" where
  "issues i tok (OpClaim c) = (ac_aliasId c = i \<and> ac_token c = tok)"
| "issues i tok p = False"

definition claim_times :: "uuid \<Rightarrow> (instant \<times> activation_op) list \<Rightarrow> instant list" where
  "claim_times i h = map fst (filter (\<lambda>(t, p). claims_for i p) h)"

text \<open>The primary key of the table.\<close>

definition activations_unique :: "db \<Rightarrow> bool" where
  "activations_unique d \<longleftrightarrow> distinct (map av_aliasId (aliasActivation d))"

definition claims_used :: "uuid \<Rightarrow> db \<Rightarrow> int" where
  "claims_used i d = (case find_activation i d of None \<Rightarrow> 0 | Some r \<Rightarrow> av_claimsUsed r)"

definition last_claim :: "uuid \<Rightarrow> db \<Rightarrow> instant option" where
  "last_claim i d = (case find_activation i d of None \<Rightarrow> None | Some r \<Rightarrow> av_lastClaimAt r)"

definition stored_token :: "uuid \<Rightarrow> db \<Rightarrow> string option" where
  "stored_token i d = (case find_activation i d of None \<Rightarrow> None | Some r \<Rightarrow> av_token r)"

definition is_marked :: "uuid \<Rightarrow> db \<Rightarrow> bool" where
  "is_marked i d \<longleftrightarrow> (case find_activation i d of None \<Rightarrow> False | Some r \<Rightarrow> av_firstDeliveredAt r \<noteq> None)"

lemmas activation_view = claims_used_def last_claim_def stored_token_def is_marked_def

lemma find_put: "find_activation i (put_activation r d) =
    (case find_activation i d of None \<Rightarrow> if av_aliasId r = i then Some r else None | Some x \<Rightarrow> Some x)"
  by (auto simp: find_activation_def put_activation_def is_activation_def select_first_append split: option.split)

lemma find_update:
  assumes "\<And>r. av_aliasId (f r) = av_aliasId r"
  shows "find_activation i (update_activations q f d) = map_option (\<lambda>r. if q r then f r else r) (find_activation i d)"
  using assms by (simp add: find_activation_def update_activations_def is_activation_def select_first_update)

lemma find_activation_id: "find_activation i d = Some r \<Longrightarrow> av_aliasId r = i"
  using select_first_Some by (fastforce simp: find_activation_def is_activation_def)

lemma unique_put: "activations_unique d \<Longrightarrow> find_activation (av_aliasId r) d = None \<Longrightarrow> activations_unique (put_activation r d)"
  by (auto simp: activations_unique_def put_activation_def find_activation_def select_first_None is_activation_def)

lemma unique_update:
  "(\<And>r. av_aliasId (f r) = av_aliasId r) \<Longrightarrow> activations_unique (update_activations q f d) = activations_unique d"
  by (simp add: activations_unique_def update_activations_def map_update_where)

lemma live_unique:
  assumes "activations_unique d"
  shows "select_first (live_token i tok t) (aliasActivation d) =
    (case find_activation i d of Some r \<Rightarrow> if live_token i tok t r then Some r else None | None \<Rightarrow> None)"
  using assms unfolding activations_unique_def find_activation_def
proof (induction "aliasActivation d" arbitrary: d)
  case (Cons r rs)
  show ?case
  proof (cases "av_aliasId r = i")
    case True
    have "av_aliasId r \<notin> av_aliasId ` set rs" using Cons.prems unfolding Cons.hyps(2) [symmetric] by simp
    then have "select_first (live_token i tok t) rs = None"
      unfolding True by (auto simp: select_first_None live_token_def is_activation_def image_iff)
    then show ?thesis using True Cons.hyps(2) [symmetric] by (simp add: is_activation_def)
  next
    case False
    then show ?thesis using Cons.prems Cons.hyps(2) [symmetric] Cons.hyps(1) [of "d\<lparr>aliasActivation := rs\<rparr>"]
      by (simp add: live_token_def is_activation_def)
  qed
qed simp

text \<open>Marking changes nothing of the claim.\<close>

lemma find_mark: "find_activation i (mark_first_delivered_stmt j t d) =
    (case find_activation i d of
       None \<Rightarrow> if i = j then Some ((blank_activation i)\<lparr> av_firstDeliveredAt := Some t \<rparr>) else None
     | Some r \<Rightarrow> Some (if i = j \<and> av_firstDeliveredAt r = None then r\<lparr> av_firstDeliveredAt := Some t \<rparr> else r))"
  using find_activation_id [of i d]
  by (auto simp: mark_first_delivered_stmt_def find_put find_update blank_activation_def is_activation_def split: option.split)

lemma mark_view: "claims_used i (mark_first_delivered_stmt j t d) = claims_used i d"
  "last_claim i (mark_first_delivered_stmt j t d) = last_claim i d"
  "stored_token i (mark_first_delivered_stmt j t d) = stored_token i d"
  "is_marked i d \<Longrightarrow> is_marked i (mark_first_delivered_stmt j t d)"
  by (simp_all add: activation_view find_mark blank_activation_def split: option.splits)

lemma mark_unique: "activations_unique d \<Longrightarrow> activations_unique (mark_first_delivered_stmt j t d)"
  by (cases "find_activation j d") (simp_all add: mark_first_delivered_stmt_def unique_put unique_update blank_activation_def)

lemma mark_all_Cons: "mark_all (m # ms) d = mark_all ms (mark_first_delivered_stmt (fst m) (snd m) d)"
  by (simp add: mark_all_def)

lemma marks_view: "claims_used i (mark_all ms d) = claims_used i d" "last_claim i (mark_all ms d) = last_claim i d"
  "stored_token i (mark_all ms d) = stored_token i d"
  by (induction ms arbitrary: d) (simp_all add: mark_all_Cons mark_view, simp_all add: mark_all_def)

lemma marks_keep: "is_marked i d \<Longrightarrow> is_marked i (mark_all ms d)" "activations_unique d \<Longrightarrow> activations_unique (mark_all ms d)"
  by (induction ms arbitrary: d) (simp_all add: mark_all_Cons mark_view mark_unique, simp_all add: mark_all_def)

lemma step_unique: "activations_unique d \<Longrightarrow> activations_unique (snd (activation_step p t d))"
  by (cases p) (auto simp: mark_unique reconcile_first_delivered_markers_def marks_view marks_keep clear_expired_activation_tokens_def Let_def
      unique_update claim_activation_notice_def claimed_row_def unique_put blank_activation_def set_activation_domain_def
      record_activation_notice_sent_def consume_activation_token_def split: option.splits)

lemma step_marked: "is_marked i d \<Longrightarrow> is_marked i (snd (activation_step p t d))"
proof (cases p)
  case OpReconcile
  then show "is_marked i d \<Longrightarrow> ?thesis" by (simp add: reconcile_first_delivered_markers_def marks_view marks_keep)
qed (auto simp: clear_expired_activation_tokens_def Let_def is_marked_def find_update find_put find_mark claim_activation_notice_def
    claimed_row_def set_activation_domain_def record_activation_notice_sent_def consume_activation_token_def split: option.splits)

text \<open>What one statement does to the claim of an alias.\<close>

lemma step_claim:
  assumes "activations_unique d"
  shows "(if fst (activation_step p t d) \<and> claims_for i p
          then \<not> is_marked i d \<and> claims_used i (snd (activation_step p t d)) = claims_used i d + 1 \<and> claims_used i (snd (activation_step p t d)) \<le> activation_claim_budget \<and>
               last_claim i (snd (activation_step p t d)) = Some t \<and>
               (\<forall>s. last_claim i d = Some s \<longrightarrow> s + make_hours activation_claim_window_hours \<le> t)
          else claims_used i (snd (activation_step p t d)) = claims_used i d \<and> last_claim i (snd (activation_step p t d)) = last_claim i d)"
proof (cases p)
  case OpReconcile
  then show ?thesis by (simp add: reconcile_first_delivered_markers_def marks_view marks_keep)
next
  case (OpMark j)
  then show ?thesis by (simp add: mark_view)
next
  case (OpClaim c)
  then show ?thesis
    by (auto simp: claim_activation_notice_def activation_view find_put find_update claimed_row_def blank_activation_def
        is_activation_def claim_open_def activation_claim_budget_def find_activation_id split: option.splits if_splits)
qed (auto simp: activation_view find_update clear_expired_activation_tokens_def Let_def set_activation_domain_def
    record_activation_notice_sent_def consume_activation_token_def split: option.splits)

lemma step_token:
  assumes "activations_unique d" and "\<not> issues i tok p"
  shows "(stored_token i d \<noteq> Some tok \<longrightarrow> stored_token i (snd (activation_step p t d)) \<noteq> Some tok) \<and>
    (p = OpConsume i tok \<longrightarrow> fst (activation_step p t d) \<longrightarrow>
       stored_token i d = Some tok \<and> stored_token i (snd (activation_step p t d)) \<noteq> Some tok)"
proof (cases p)
  case OpReconcile
  then show ?thesis by (simp add: reconcile_first_delivered_markers_def marks_view marks_keep)
next
  case (OpMark j)
  then show ?thesis by (simp add: mark_view)
next
  case (OpClaim c)
  then show ?thesis using assms(2)
    by (auto simp: claim_activation_notice_def activation_view find_put find_update claimed_row_def blank_activation_def
        is_activation_def find_activation_id split: option.splits if_splits)
next
  case (OpConsume j tk)
  then show ?thesis
    by (auto simp: activation_view find_update consume_activation_token_def live_unique [OF assms(1)] live_token_def split: option.splits if_splits)
qed (auto simp: activation_view find_update clear_expired_activation_tokens_def Let_def set_activation_domain_def
    record_activation_notice_sent_def split: option.splits)

section \<open>Properties\<close>

lemma won_claims_bound:
  assumes "activations_unique d" and "claims_used i d \<le> activation_claim_budget"
  shows "claims_used i d + int (length (claim_times i (won_ops ps d))) \<le> activation_claim_budget"
  using assms
proof (induction ps d rule: won_ops.induct)
  case (2 t p ps d)
  let ?d = "snd (activation_step p t d)"
  have "claims_used i ?d \<le> activation_claim_budget" using step_claim [OF 2(2), of p t i] 2(3) by (auto split: if_splits)
  with 2 step_unique [OF 2(2), of p t] step_claim [OF 2(2), of p t i] show ?case
    by (auto simp: claim_times_def split: if_splits)
qed (simp add: claim_times_def)

lemma won_claims_spaced:
  assumes "activations_unique d"
  shows "sorted_wrt (\<lambda>s t. s + make_hours activation_claim_window_hours \<le> t) (claim_times i (won_ops ps d)) \<and>
    (\<forall>s. last_claim i d = Some s \<longrightarrow> (\<forall>t\<in>set (claim_times i (won_ops ps d)). s + make_hours activation_claim_window_hours \<le> t))"
  using assms
proof (induction ps d rule: won_ops.induct)
  case (2 t p ps d)
  let ?d = "snd (activation_step p t d)"
  have w: "0 \<le> make_hours activation_claim_window_hours" by (simp add: make_hours_def activation_claim_window_hours_def)
  have IH: "sorted_wrt (\<lambda>s t. s + make_hours activation_claim_window_hours \<le> t) (claim_times i (won_ops ps ?d))"
    "\<forall>s. last_claim i ?d = Some s \<longrightarrow> (\<forall>t\<in>set (claim_times i (won_ops ps ?d)). s + make_hours activation_claim_window_hours \<le> t)"
    using 2 step_unique by blast+
  show ?case
  proof (cases "fst (activation_step p t d) \<and> claims_for i p")
    case True
    then have h: "claim_times i (won_ops ((t, p) # ps) d) = t # claim_times i (won_ops ps ?d)" by (simp add: claim_times_def)
    have l: "last_claim i ?d = Some t" "\<forall>s. last_claim i d = Some s \<longrightarrow> s + make_hours activation_claim_window_hours \<le> t"
      using step_claim [OF 2(2), of p t i] True by auto
    show ?thesis unfolding h using IH l w by fastforce
  next
    case False
    then have h: "claim_times i (won_ops ((t, p) # ps) d) = claim_times i (won_ops ps ?d)" by (auto simp: claim_times_def)
    have "last_claim i ?d = last_claim i d" using step_claim [OF 2(2), of p t i] False by (auto split: if_splits)
    with IH show ?thesis unfolding h by simp
  qed
qed (simp add: claim_times_def)

lemma won_claims_marked:
  assumes "activations_unique d" and "is_marked i d"
  shows "claim_times i (won_ops ps d) = []"
  using assms
proof (induction ps d rule: won_ops.induct)
  case (2 t p ps d)
  have "\<not> (fst (activation_step p t d) \<and> claims_for i p)" using step_claim [OF 2(2), of p t i] 2(3) by auto
  with 2 step_unique step_marked show ?case by (auto simp: claim_times_def)
qed (simp add: claim_times_def)

text \<open>The owner of an alias is never flooded with bounce notices.  Whatever sequence of activation
  statements runs, at whatever times: an alias wins at most three claims over its lifetime, any two of
  them at least 24 hours apart, and none once the alias has delivered mail.\<close>

theorem notices_are_bounded:
  assumes "activations_unique d" and "claims_used i d \<le> activation_claim_budget"
  shows "claims_used i d + int (length (claim_times i (won_ops ps d))) \<le> 3 \<and>
    sorted_wrt (\<lambda>s t. s + 24 * 3600000 \<le> t) (claim_times i (won_ops ps d)) \<and>
    claim_times i (won_ops ps (mark_first_delivered_stmt i t0 d)) = []"
proof (intro conjI)
  show "claims_used i d + int (length (claim_times i (won_ops ps d))) \<le> 3"
    using won_claims_bound [OF assms, of ps] by (simp add: activation_claim_budget_def)
  show "sorted_wrt (\<lambda>s t. s + 24 * 3600000 \<le> t) (claim_times i (won_ops ps d))"
    using won_claims_spaced [OF assms(1), of i ps] by (simp add: make_hours_def activation_claim_window_hours_def)
  have "is_marked i (mark_first_delivered_stmt i t0 d)"
    by (auto simp: is_marked_def find_mark split: option.splits)
  then show "claim_times i (won_ops ps (mark_first_delivered_stmt i t0 d)) = []"
    using won_claims_marked mark_unique [OF assms(1)] by blast
qed

definition sample_claim :: activation_claim where
  "sample_claim = \<lparr> ac_aliasId = ''a1'', ac_token = ''tok'', ac_chatId = 10, ac_routingVersion = 3 \<rparr>"

lemma notices_are_bounded_witness:
  "claims_used ''a1'' empty_db + int (length (claim_times ''a1'' (won_ops
      [(0, OpClaim sample_claim), (5, OpClaim sample_claim), (86400000, OpClaim sample_claim)] empty_db))) \<le> 3 \<and>
   claim_times ''a1'' (won_ops [(0, OpClaim sample_claim), (5, OpClaim sample_claim), (86400000, OpClaim sample_claim)] empty_db) = [0, 86400000]"
proof
  have u: "activations_unique empty_db" "claims_used ''a1'' empty_db \<le> activation_claim_budget"
    by (simp_all add: activations_unique_def claims_used_def find_activation_def activation_claim_budget_def)
  show "claims_used ''a1'' empty_db + int (length (claim_times ''a1'' (won_ops
      [(0, OpClaim sample_claim), (5, OpClaim sample_claim), (86400000, OpClaim sample_claim)] empty_db))) \<le> 3"
    using notices_are_bounded [OF u] by blast
  show "claim_times ''a1'' (won_ops [(0, OpClaim sample_claim), (5, OpClaim sample_claim), (86400000, OpClaim sample_claim)] empty_db) = [0, 86400000]"
    by (simp add: claim_times_def claim_activation_notice_def find_activation_def sample_claim_def put_activation_def update_activations_def
        is_activation_def claimed_row_def blank_activation_def claim_open_def activation_claim_budget_def make_hours_def activation_claim_window_hours_def)
qed

lemma consumed_count:
  assumes "activations_unique d" and "\<forall>(t, p)\<in>set ps. \<not> issues i tok p"
  shows "count_list (map snd (won_ops ps d)) (OpConsume i tok) \<le> (if stored_token i d = Some tok then 1 else 0)"
  using assms
proof (induction ps d rule: won_ops.induct)
  case (2 t p ps d)
  let ?d = "snd (activation_step p t d)"
  have IH: "count_list (map snd (won_ops ps ?d)) (OpConsume i tok) \<le> (if stored_token i ?d = Some tok then 1 else 0)"
    using 2 step_unique by auto
  have s: "(stored_token i d \<noteq> Some tok \<longrightarrow> stored_token i ?d \<noteq> Some tok) \<and>
    (p = OpConsume i tok \<longrightarrow> fst (activation_step p t d) \<longrightarrow> stored_token i d = Some tok \<and> stored_token i ?d \<noteq> Some tok)"
    using 2 by (intro step_token) auto
  show ?case
  proof (cases "p = OpConsume i tok \<and> fst (activation_step p t d)")
    case True
    then have "stored_token i d = Some tok" "stored_token i ?d \<noteq> Some tok" using s by blast+
    then show ?thesis using True IH by (simp del: activation_step.simps)
  next
    case False
    then have "count_list (map snd (won_ops ((t, p) # ps) d)) (OpConsume i tok) = count_list (map snd (won_ops ps ?d)) (OpConsume i tok)"
      by (auto simp del: activation_step.simps)
    with s IH show ?thesis by (auto split: if_splits)
  qed
qed simp

text \<open>A one-tap token works once, and only for the claim that issued it: after the claim, in any
  sequence of activation statements that does not issue the same token again, at most one tap
  consumes it; and if a newer claim replaced it, or the alias had another token all along, none does.\<close>

theorem activation_token_spent_once:
  assumes "activations_unique d" and "\<forall>(t, p)\<in>set ps. \<not> issues i tok p"
  shows "count_list (map snd (won_ops ps d)) (OpConsume i tok) \<le> 1 \<and>
    (stored_token i d \<noteq> Some tok \<longrightarrow> OpConsume i tok \<notin> snd ` set (won_ops ps d))"
proof -
  have c: "count_list (map snd (won_ops ps d)) (OpConsume i tok) \<le> (if stored_token i d = Some tok then 1 else 0)"
    by (rule consumed_count [OF assms])
  then have "stored_token i d \<noteq> Some tok \<Longrightarrow> OpConsume i tok \<notin> set (map snd (won_ops ps d))"
    by (simp add: count_list_0_iff del: set_map)
  with c show ?thesis by (auto split: if_splits)
qed

lemma activation_token_spent_once_witness:
  "count_list (map snd (won_ops [(1, OpConsume ''a1'' ''tok''), (2, OpConsume ''a1'' ''tok'')]
      (snd (claim_activation_notice sample_claim 0 empty_db)))) (OpConsume ''a1'' ''tok'') \<le> 1 \<and>
   won_ops [(1, OpConsume ''a1'' ''tok''), (2, OpConsume ''a1'' ''tok'')] (snd (claim_activation_notice sample_claim 0 empty_db))
     = [(1, OpConsume ''a1'' ''tok'')]"
proof
  have u: "activations_unique (snd (claim_activation_notice sample_claim 0 empty_db))"
    by (simp add: activations_unique_def claim_activation_notice_def find_activation_def put_activation_def)
  have n: "\<forall>(t, p)\<in>set [(1, OpConsume ''a1'' ''tok''), (2, OpConsume ''a1'' ''tok'')]. \<not> issues ''a1'' ''tok'' p" by simp
  show "count_list (map snd (won_ops [(1, OpConsume ''a1'' ''tok''), (2, OpConsume ''a1'' ''tok'')]
      (snd (claim_activation_notice sample_claim 0 empty_db)))) (OpConsume ''a1'' ''tok'') \<le> 1"
    using activation_token_spent_once [OF u n] by blast
  show "won_ops [(1, OpConsume ''a1'' ''tok''), (2, OpConsume ''a1'' ''tok'')] (snd (claim_activation_notice sample_claim 0 empty_db))
     = [(1, OpConsume ''a1'' ''tok'')]"
    by (simp add: claim_activation_notice_def find_activation_def put_activation_def claimed_row_def blank_activation_def sample_claim_def
        consume_activation_token_def live_token_def is_activation_def unexpired_def update_activations_def make_days_def activation_token_ttl_days_def)
qed

end
