(* ===== verification/Renderer.thy ===== *)
theory Renderer
  imports MailParser JsDate
begin

text \<open>
  What a delivered email looks like (\<open>src/email/renderer.ts\<close>, \<open>src/utils/html.ts\<close>): the header with its
  sanitised fields, the body cut to the room that is left, the attachment list, the rich variant under
  its own budgets, the attachment fallback and the privacy alert.  The renderer of email HTML
  (\<open>structuredEmailHtml.ts\<close>, over a third-party parser) is the argument \<open>h\<close>.  \<open>Array.from(s).length\<close>
  is the length of \<open>s\<close> on the code units the model has; the ellipsis U+2026, one code unit outside
  their range, is written as the unused unit 0x85, and the bidirectional controls the source strips are
  outside the range too.
\<close>

section \<open>Escaping\<close>

definition replace_char :: "char \<Rightarrow> string \<Rightarrow> string \<Rightarrow> string" where
  "replace_char c r s = concat (map (\<lambda>x. if x = c then r else [x]) s)"

definition escape_html :: "string \<Rightarrow> string" where
  "escape_html s = replace_char (CHR 39) ''&#39;'' (replace_char (CHR ''>'') ''&gt;''
     (replace_char (CHR ''<'') ''&lt;'' (replace_char (CHR ''&'') ''&amp;'' s)))"

definition escape_html_attribute :: "string \<Rightarrow> string" where
  "escape_html_attribute s = replace_char (CHR 34) ''&quot;'' (escape_html s)"

section \<open>Constants and options\<close>

definition max_len :: nat where "max_len = 4096"
definition truncation_notice :: string where "truncation_notice = [CHR 10] @ ''[... truncated]''"
definition separator :: string where "separator = [CHR 10, CHR 10]"
definition max_rich_text_characters :: int where "max_rich_text_characters = 32768"
definition max_rich_blocks :: int where "max_rich_blocks = 500"
definition rich_header_blocks :: int where "rich_header_blocks = 2"
definition unknown_sender :: string where "unknown_sender = ''unknown sender''"
definition max_header_field_length :: nat where "max_header_field_length = 512"
definition ellipsis :: char where "ellipsis = CHR 0x85"

datatype render_mode = Plaintext | Html

definition normalize_render_mode :: "string option \<Rightarrow> render_mode" where
  "normalize_render_mode v = (if v = Some ''html'' \<or> v = Some ''markdown'' then Html else Plaintext)"

definition parse_mode_for_render_mode :: "render_mode \<Rightarrow> string option" where
  "parse_mode_for_render_mode m = (if m = Plaintext then None else Some ''HTML'')"

record attachment_link =
  li_filename :: string
  li_sizeBytes :: int
  li_url :: string

datatype selected_body = TextBody string | HtmlBody string

record rendered_email =
  rd_text :: string
  rd_parseMode :: "string option"
  rd_richHtml :: "string option"
  rd_richIneligibleReason :: "string option"

section \<open>Header\<close>

definition line_break :: "char \<Rightarrow> bool" where
  "line_break c \<longleftrightarrow> c = CHR 10 \<or> c = CHR 13"

text \<open>\<open>s.replace(/[\r\n]+/g, " ")\<close>: every run of line breaks becomes one space.\<close>

fun collapse_breaks :: "string \<Rightarrow> string" where
  "collapse_breaks [] = []"
| "collapse_breaks [c] = (if line_break c then '' '' else [c])"
| "collapse_breaks (c # d # s) =
     (if line_break c then (if line_break d then collapse_breaks (d # s) else CHR '' '' # collapse_breaks (d # s))
      else c # collapse_breaks (d # s))"

definition header_control :: "char \<Rightarrow> bool" where
  "header_control c \<longleftrightarrow> (let n = char_code c in n \<le> 8 \<or> (11 \<le> n \<and> n \<le> 31) \<or> n = 127)"

definition sanitize_header_field :: "string \<Rightarrow> string" where
  "sanitize_header_field v =
     (let cleaned = filter (\<lambda>c. \<not> header_control c) (collapse_breaks v)
      in if length cleaned \<le> max_header_field_length then cleaned
         else take (max_header_field_length - 1) cleaned @ [ellipsis])"

definition build_header :: "render_mode \<Rightarrow> string \<Rightarrow> string \<Rightarrow> string \<Rightarrow> string" where
  "build_header m from to subject =
     (let f = sanitize_header_field from; t = sanitize_header_field to; s = sanitize_header_field subject
      in if m = Html
         then ''<blockquote><b>From:</b> '' @ escape_html f @ [CHR 10] @ ''<b>To:</b> '' @ escape_html t @ [CHR 10]
              @ ''<b>Subject:</b> '' @ escape_html s @ ''</blockquote>''
         else ''From: '' @ f @ [CHR 10] @ ''To: '' @ t @ [CHR 10] @ ''Subject: '' @ s)"

section \<open>Attachments, truncation\<close>

definition build_attachments_section :: "attachment_link list \<Rightarrow> render_mode \<Rightarrow> string" where
  "build_attachments_section links m =
     (if links = [] then []
      else ''Attachments:'' @ [CHR 10] @ js_join [CHR 10]
             (map (\<lambda>a. if m = Html
                       then ''<a href='' @ [CHR 34] @ escape_html_attribute (li_url a) @ [CHR 34] @ ''>'' @ escape_html (li_filename a) @ ''</a>''
                       else li_filename a @ '': '' @ li_url a) links))"

definition truncate_to_budget :: "(string \<Rightarrow> structured_html) \<Rightarrow> string \<Rightarrow> int \<Rightarrow> render_mode \<Rightarrow> string" where
  "truncate_to_budget h text budget m =
     (if budget \<le> 0 then truncation_notice
      else if int (length text) \<le> budget then text
      else (let cutLen = budget - int (length truncation_notice)
            in if cutLen \<le> 0 then truncation_notice
               else (let truncated = take (nat cutLen) text @ truncation_notice
                     in if m = Plaintext then truncated else st_classicHtml (h truncated))))"

definition finalize_truncated_rich_text :: "(string \<Rightarrow> structured_html) \<Rightarrow> string \<Rightarrow> render_mode \<Rightarrow> string" where
  "finalize_truncated_rich_text h text m = (if m = Plaintext then text else st_classicHtml (h text))"

text \<open>The loop of \<open>clampToMaxLen\<close>: the lines of the attachment section that stay.\<close>

function keep_lines :: "string \<Rightarrow> string \<Rightarrow> string list \<Rightarrow> string list" where
  "keep_lines header body ls =
     (if 1 < length ls \<and> max_len < length (js_join separator [header, body, js_join [CHR 10] ls])
      then keep_lines header body (butlast ls) else ls)"
  by pat_completeness auto
termination
  by (relation "measure (\<lambda>(header, body, ls). length ls)") auto

declare keep_lines.simps [simp del]

definition clamp_to_max_len :: "(string \<Rightarrow> structured_html) \<Rightarrow> string \<Rightarrow> string \<Rightarrow> string option \<Rightarrow> render_mode \<Rightarrow> string" where
  "clamp_to_max_len h header body section_text m =
     (let joined = js_join separator ([header, body] @ (case section_text of None \<Rightarrow> [] | Some a \<Rightarrow> [a]))
      in if length joined \<le> max_len then joined
         else case section_text of
           None \<Rightarrow> finalize_truncated_rich_text h (take max_len joined) m
         | Some a \<Rightarrow>
             (let result = js_join separator [header, body, js_join [CHR 10] (keep_lines header body (js_split (CHR 10) a))]
              in if length result \<le> max_len then result
                 else finalize_truncated_rich_text h (take max_len result) m))"

section \<open>Body\<close>

definition select_body_source :: "parsed_email \<Rightarrow> render_mode \<Rightarrow> selected_body" where
  "select_body_source email m =
     (if m = Html
      then (if truthy (pe_htmlBody email) then HtmlBody (or_else (pe_htmlBody email) []) else TextBody (or_else (pe_textBody email) []))
      else (if truthy (pe_textBody email) then TextBody (or_else (pe_textBody email) [])
            else if truthy (pe_htmlBody email) then HtmlBody (or_else (pe_htmlBody email) [])
            else TextBody []))"

text \<open>\<open>s.replace(/\r\n?/g, "\n")\<close>\<close>

fun unix_newlines :: "string \<Rightarrow> string" where
  "unix_newlines [] = []"
| "unix_newlines [c] = (if c = CHR 13 then [CHR 10] else [c])"
| "unix_newlines (c # d # s) =
     (if c = CHR 13 then (if d = CHR 10 then CHR 10 # unix_newlines s else CHR 10 # unix_newlines (d # s))
      else c # unix_newlines (d # s))"

definition blank_char :: "char \<Rightarrow> bool" where
  "blank_char c \<longleftrightarrow> c \<in> {CHR 32, CHR 9, CHR 0xA0}"

text \<open>\<open>([ \t\u00a0]*\n)*\<close>, as much as matches.\<close>

function skip_blank_lines :: "string \<Rightarrow> string" where
  "skip_blank_lines s =
     (case dropWhile blank_char s of
        [] \<Rightarrow> s
      | c # cs \<Rightarrow> if c = CHR 10 then skip_blank_lines cs else s)"
  by pat_completeness auto
termination
proof (relation "measure length")
  fix s c cs assume "dropWhile blank_char s = c # cs"
  then have "length (c # cs) \<le> length s" using length_dropWhile_le [of blank_char s] by simp
  then show "(cs, s) \<in> measure length" by simp
qed simp

declare skip_blank_lines.simps [simp del]

lemma skip_blank_lines_shorter: "length (skip_blank_lines s) \<le> length s"
proof (induction s rule: skip_blank_lines.induct)
  case (1 s)
  show ?case
  proof (cases "dropWhile blank_char s")
    case (Cons c cs)
    then have "length (c # cs) \<le> length s" using length_dropWhile_le [of blank_char s] by simp
    with 1 [OF Cons] Cons show ?thesis by (subst skip_blank_lines.simps) auto
  next
    case Nil
    then show ?thesis by (subst skip_blank_lines.simps) (simp del: dropWhile_eq_Nil_conv)
  qed
qed

text \<open>A match of the separator of \<open>structuredFromText\<close> at the start of \<open>s\<close>: what follows it.\<close>

definition paragraph_break :: "string \<Rightarrow> string option" where
  "paragraph_break s =
     (case s of
        [] \<Rightarrow> None
      | c # cs \<Rightarrow>
          if c \<noteq> CHR 10 then None
          else (case dropWhile blank_char cs of
                  [] \<Rightarrow> None
                | d # ds \<Rightarrow> if d = CHR 10 then Some (skip_blank_lines ds) else None))"

lemma paragraph_break_shorter: "paragraph_break s = Some r \<Longrightarrow> length r < length s"
proof -
  assume r: "paragraph_break s = Some r"
  then obtain c cs d ds where s: "s = c # cs" "dropWhile blank_char cs = d # ds" "r = skip_blank_lines ds"
    by (auto simp: paragraph_break_def split: list.splits if_splits)
  have "length (d # ds) \<le> length cs" using length_dropWhile_le [of blank_char cs] s(2) by simp
  then show ?thesis using skip_blank_lines_shorter [of ds] s by simp
qed

function split_paragraphs :: "string \<Rightarrow> string list" where
  "split_paragraphs s =
     (case paragraph_break s of
        Some r \<Rightarrow> [] # split_paragraphs r
      | None \<Rightarrow>
          (case s of
             [] \<Rightarrow> [[]]
           | c # cs \<Rightarrow> (case split_paragraphs cs of [] \<Rightarrow> [[c]] | p # ps \<Rightarrow> (c # p) # ps)))"
  by pat_completeness auto
termination
  by (relation "measure length") (auto dest: paragraph_break_shorter)

declare split_paragraphs.simps [simp del]

definition structured_from_text :: "(string \<Rightarrow> structured_html) \<Rightarrow> string \<Rightarrow> structured_html option" where
  "structured_from_text h text =
     (let normalized = js_trim (unix_newlines text)
      in if normalized = [] then None
         else Some (h (concat (map (\<lambda>p. ''<p>'' @ replace_char (CHR 10) ''<br>'' (escape_html p) @ ''</p>'') (split_paragraphs normalized)))))"

definition render_selected_body :: "(string \<Rightarrow> structured_html) \<Rightarrow> selected_body \<Rightarrow> render_mode \<Rightarrow> string \<times> structured_html option" where
  "render_selected_body h sel m =
     (if m = Plaintext
      then (let text = (case sel of HtmlBody c \<Rightarrow> st_plainText (h c) | TextBody c \<Rightarrow> c)
            in (text, structured_from_text h text))
      else (case sel of
              TextBody c \<Rightarrow> (escape_html c, structured_from_text h c)
            | HtmlBody c \<Rightarrow> (st_classicHtml (h c), Some (h c))))"

section \<open>Rich messages\<close>

definition filename_control :: "char \<Rightarrow> bool" where
  "filename_control c \<longleftrightarrow> (let n = char_code c in n \<le> 31 \<or> n = 127)"

fun collapse_controls :: "string \<Rightarrow> string" where
  "collapse_controls [] = []"
| "collapse_controls [c] = (if filename_control c then '' '' else [c])"
| "collapse_controls (c # d # s) =
     (if filename_control c then (if filename_control d then collapse_controls (d # s) else CHR '' '' # collapse_controls (d # s))
      else c # collapse_controls (d # s))"

definition sanitize_filename :: "string \<Rightarrow> string" where
  "sanitize_filename v = (let cleaned = js_trim (collapse_controls v) in if cleaned = [] then ''attachment'' else cleaned)"

definition omission_notice :: "nat \<Rightarrow> string" where
  "omission_notice n = nat_string n @ '' attachment'' @ (if n = 1 then [] else ''s'') @ '' omitted''"

definition rich_attachments_label :: string where "rich_attachments_label = ''Attachments:''"

definition rich_cost :: "string list \<Rightarrow> nat \<Rightarrow> nat \<Rightarrow> nat" where
  "rich_cost names c omitted =
     length rich_attachments_label + sum_list (map (\<lambda>n. 1 + length n) (take c names)) +
     (if 0 < omitted then 1 + length (omission_notice omitted) else 0)"

fun keep_count :: "string list \<Rightarrow> int \<Rightarrow> nat \<Rightarrow> nat" where
  "keep_count names budget 0 = 0"
| "keep_count names budget (Suc k) =
     (if budget < int (rich_cost names (Suc k) (length names - Suc k)) then keep_count names budget k else Suc k)"

text \<open>None: \<open>undefined\<close> (nothing fits); Some None: \<open>null\<close> (no attachments).\<close>

definition build_rich_attachments_section :: "attachment_link list \<Rightarrow> int \<Rightarrow> string option option" where
  "build_rich_attachments_section links budget =
     (if links = [] then Some None
      else (let names = map (\<lambda>l. sanitize_filename (li_filename l)) links; k = keep_count names budget (length links)
            in if k = 0 then None
               else (let shown = map (\<lambda>(l, n). ''<a href='' @ [CHR 34] @ escape_html_attribute (li_url l) @ [CHR 34] @ ''>'' @ escape_html n @ ''</a>'')
                             (zip (take k links) names);
                         ls = shown @ (if k < length links then [escape_html (omission_notice (length links - k))] else [])
                     in Some (Some (''<p><b>'' @ rich_attachments_label @ ''</b><br>'' @ js_join ''<br>'' ls @ ''</p>'')))))"

definition build_rich_delivery_html ::
  "string \<Rightarrow> string \<Rightarrow> string \<Rightarrow> structured_html option \<Rightarrow> attachment_link list \<Rightarrow> string option" where
  "build_rich_delivery_html inFrom inTo inSubject structured links =
     (case structured of
        None \<Rightarrow> None
      | Some st \<Rightarrow>
          if \<not> truthy (st_richHtml st) then None
          else (let from = sanitize_header_field inFrom; to = sanitize_header_field inTo; subject = sanitize_header_field inSubject;
                    headerText = ''From: '' @ from @ [CHR 10] @ ''To: '' @ to @ [CHR 10] @ ''Subject: '' @ subject;
                    textBudget = max_rich_text_characters - st_textCharacters st - int (length headerText);
                    blocksUsed = st_blocks st + rich_header_blocks
                in if textBudget < 0 \<or> max_rich_blocks < blocksUsed then None
                   else case build_rich_attachments_section links textBudget of
                     None \<Rightarrow> None
                   | Some atts \<Rightarrow>
                       if truthy atts \<and> max_rich_blocks < blocksUsed + 1 then None
                       else Some (''<blockquote><b>From:</b> '' @ escape_html from @ ''<br><b>To:</b> '' @ escape_html to @
                              ''<br><b>Subject:</b> '' @ escape_html subject @ ''</blockquote><hr>'' @
                              or_else (st_richHtml st) [] @ or_else atts [])))"

section \<open>The message\<close>

definition render_email_for_delivery ::
  "(string \<Rightarrow> structured_html) \<Rightarrow> parsed_email \<Rightarrow> render_mode \<Rightarrow> string \<Rightarrow> attachment_link list \<Rightarrow> rendered_email" where
  "render_email_for_delivery h email m aliasFullAddress links =
     (let from = or_else (pe_headerFromDisplay email) ''unknown'';
          subject = or_else (pe_subject email) ''(no subject)'';
          header = build_header m from aliasFullAddress subject;
          attachmentsSection = build_attachments_section links m;
          fixedCost = length header + length separator + (if attachmentsSection = [] then 0 else length separator + length attachmentsSection);
          bodyBudget = int max_len - int fixedCost;
          (classic, structured) = render_selected_body h (select_body_source email m) m;
          body = truncate_to_budget h classic bodyBudget m;
          text = clamp_to_max_len h header body (if attachmentsSection = [] then None else Some attachmentsSection) m;
          richHtml = build_rich_delivery_html from aliasFullAddress subject structured links
      in \<lparr> rd_text = text, rd_parseMode = parse_mode_for_render_mode m, rd_richHtml = richHtml,
           rd_richIneligibleReason =
             (if richHtml \<noteq> None then None
              else case structured of
                None \<Rightarrow> None
              | Some st \<Rightarrow> if st_ineligible st \<noteq> None then st_ineligible st
                           else if truthy (st_richHtml st) then Some ''delivery_budget'' else None) \<rparr>)"

definition render_attachment_fallback :: "attachment_link list \<Rightarrow> string" where
  "render_attachment_fallback links =
     (let intro = ''Some image attachments could not be uploaded to Telegram. Download them here:''
      in if links = [] then intro
         else js_join [CHR 10] ([intro, [], ''Attachments:''] @ map (\<lambda>a. li_filename a @ '': '' @ li_url a) links))"

definition extract_sender_hint :: "env \<Rightarrow> parsed_email \<Rightarrow> string" where
  "extract_sender_hint e email =
     (let address = (if truthy (pe_headerFromEmail email) then or_else (pe_headerFromEmail email) []
                     else or_else (pe_envelopeFrom email) [])
      in or_else (mailbox_domain_for_display e address) unknown_sender)"

definition render_privacy_alert :: "env \<Rightarrow> parsed_email \<Rightarrow> string \<Rightarrow> string \<Rightarrow> bool \<Rightarrow> string" where
  "render_privacy_alert e email aliasFullAddress viewUrl hasAttachments =
     (let hint = sanitize_header_field (extract_sender_hint e email);
          sender = escape_html (if hint = [] then unknown_sender else hint)
      in js_join [CHR 10] (filter (\<lambda>l. l \<noteq> [])
           [''<b>Private email alert</b>'',
            ''Alias: <code>'' @ escape_html aliasFullAddress @ ''</code>'',
            ''Sender: '' @ sender,
            ''Subject: hidden by privacy mode'',
            (if hasAttachments then ''Attachments: hidden by privacy mode'' else []),
            ''Open: <a href='' @ [CHR 34] @ escape_html_attribute viewUrl @ [CHR 34] @ ''>view email</a>'']))"

section \<open>Escaped text\<close>

lemma replace_char_append: "replace_char c r (s @ t) = replace_char c r s @ replace_char c r t"
  by (simp add: replace_char_def)

lemma escape_html_chars: "escape_html s = concat (map (\<lambda>x. if x = CHR ''&'' then ''&amp;'' else if x = CHR ''<'' then ''&lt;''
    else if x = CHR ''>'' then ''&gt;'' else if x = CHR 39 then ''&#39;'' else [x]) s)"
proof (induction s)
  case (Cons c s)
  have "escape_html (c # s) = escape_html [c] @ escape_html s"
    using replace_char_append by (simp add: escape_html_def replace_char_def)
  moreover have "escape_html [c] = (if c = CHR ''&'' then ''&amp;'' else if c = CHR ''<'' then ''&lt;''
    else if c = CHR ''>'' then ''&gt;'' else if c = CHR 39 then ''&#39;'' else [c])"
    by (simp add: escape_html_def replace_char_def)
  ultimately show ?case using Cons by simp
qed (simp add: escape_html_def replace_char_def)

lemma escape_html_clean: "CHR ''<'' \<notin> set (escape_html s) \<and> CHR ''>'' \<notin> set (escape_html s)"
  unfolding escape_html_chars by (induction s) auto

lemma escape_html_no_break: "CHR 10 \<in> set (escape_html s) \<longleftrightarrow> CHR 10 \<in> set s"
  unfolding escape_html_chars by (induction s) auto

lemma escape_attribute_clean: "CHR 34 \<notin> set (escape_html_attribute s)"
  by (induction "escape_html s") (auto simp: escape_html_attribute_def replace_char_def)

section \<open>Properties\<close>

lemma collapse_breaks_clean: "c \<in> set (collapse_breaks s) \<Longrightarrow> \<not> line_break c"
  by (induction s rule: collapse_breaks.induct) (auto simp: line_break_def split: if_splits)

lemma sanitized_clean: "c \<in> set (sanitize_header_field v) \<Longrightarrow> \<not> line_break c"
  by (auto simp: sanitize_header_field_def Let_def ellipsis_def line_break_def dest!: in_set_takeD split: if_splits)
    (auto dest!: collapse_breaks_clean simp: line_break_def)

lemma sanitized_length: "length (sanitize_header_field v) \<le> max_header_field_length"
  by (simp add: sanitize_header_field_def Let_def max_header_field_length_def)

lemma sanitized_no_lf: "CHR 10 \<notin> set (sanitize_header_field v)"
  using sanitized_clean by (auto simp: line_break_def)

lemma js_split_piece: "c \<notin> set s \<Longrightarrow> js_split c s = [s]"
  by (induction s) auto

lemma js_split_at: "c \<notin> set s \<Longrightarrow> js_split c (s @ c # t) = s # js_split c t"
  by (induction s) auto

text \<open>C35: Nobody forges a header line.  Whatever bytes a sender puts into From, To and Subject, the header
  of the delivered message has exactly the three lines of its labels, each field on its own line; in
  HTML mode the only tags of the header are the ones the program writes.\<close>

theorem header_cannot_be_forged:
  "js_split (CHR 10) (build_header Plaintext from to subject) =
     [''From: '' @ sanitize_header_field from, ''To: '' @ sanitize_header_field to, ''Subject: '' @ sanitize_header_field subject] \<and>
   js_split (CHR 10) (build_header Html from to subject) =
     [''<blockquote><b>From:</b> '' @ escape_html (sanitize_header_field from),
      ''<b>To:</b> '' @ escape_html (sanitize_header_field to),
      ''<b>Subject:</b> '' @ escape_html (sanitize_header_field subject) @ ''</blockquote>''] \<and>
   (\<forall>v. CHR ''<'' \<notin> set (escape_html v) \<and> CHR ''>'' \<notin> set (escape_html v))"
proof (intro conjI)
  let ?f = "sanitize_header_field from" and ?t = "sanitize_header_field to" and ?s = "sanitize_header_field subject"
  have n: "CHR 10 \<notin> set (''From: '' @ ?f)" "CHR 10 \<notin> set (''To: '' @ ?t)" "CHR 10 \<notin> set (''Subject: '' @ ?s)"
    using sanitized_no_lf by simp_all
  have "build_header Plaintext from to subject = (''From: '' @ ?f) @ CHR 10 # ((''To: '' @ ?t) @ CHR 10 # (''Subject: '' @ ?s))"
    by (simp add: build_header_def Let_def)
  then show "js_split (CHR 10) (build_header Plaintext from to subject) = [''From: '' @ ?f, ''To: '' @ ?t, ''Subject: '' @ ?s]"
    by (simp only: js_split_at [OF n(1)] js_split_at [OF n(2)] js_split_piece [OF n(3)])
  have e: "CHR 10 \<notin> set (escape_html (sanitize_header_field v))" for v
    using sanitized_no_lf escape_html_no_break by blast
  have h: "CHR 10 \<notin> set (''<blockquote><b>From:</b> '' @ escape_html ?f)" "CHR 10 \<notin> set (''<b>To:</b> '' @ escape_html ?t)"
    "CHR 10 \<notin> set (''<b>Subject:</b> '' @ escape_html ?s @ ''</blockquote>'')"
    using e by simp_all
  have "build_header Html from to subject = (''<blockquote><b>From:</b> '' @ escape_html ?f) @ CHR 10 #
      ((''<b>To:</b> '' @ escape_html ?t) @ CHR 10 # (''<b>Subject:</b> '' @ escape_html ?s @ ''</blockquote>''))"
    by (simp add: build_header_def Let_def)
  then show "js_split (CHR 10) (build_header Html from to subject) =
     [''<blockquote><b>From:</b> '' @ escape_html ?f, ''<b>To:</b> '' @ escape_html ?t,
      ''<b>Subject:</b> '' @ escape_html ?s @ ''</blockquote>'']"
    by (simp only: js_split_at [OF h(1)] js_split_at [OF h(2)] js_split_piece [OF h(3)])
qed (use escape_html_clean in blast)

lemma finalized_plain_length: "length s \<le> n \<Longrightarrow> length (finalize_truncated_rich_text h s Plaintext) \<le> n"
  by (simp add: finalize_truncated_rich_text_def)

lemma cut_cases: "length (if length j \<le> max_len then j else finalize_truncated_rich_text h (take max_len j) m) \<le> max_len \<or>
    (\<exists>s. length s = max_len \<and> (if length j \<le> max_len then j else finalize_truncated_rich_text h (take max_len j) m)
       = finalize_truncated_rich_text h s m)"
  by (cases "length j \<le> max_len") (auto intro!: exI [of _ "take max_len j"])

lemma clamp_cases:
  "length (clamp_to_max_len h header body sec m) \<le> max_len \<or>
   (\<exists>s. length s = max_len \<and> clamp_to_max_len h header body sec m = finalize_truncated_rich_text h s m)"
proof (cases sec)
  case None
  then have "clamp_to_max_len h header body sec m =
      (let j = js_join separator [header, body]
       in if length j \<le> max_len then j else finalize_truncated_rich_text h (take max_len j) m)"
    by (simp add: clamp_to_max_len_def Let_def del: js_join.simps)
  then show ?thesis unfolding Let_def by (simp only: cut_cases)
next
  case (Some a)
  show ?thesis
  proof (cases "length (js_join separator [header, body, a]) \<le> max_len")
    case True
    then show ?thesis by (simp add: clamp_to_max_len_def Let_def Some)
  next
    case False
    then have "clamp_to_max_len h header body sec m =
        (let j = js_join separator [header, body, js_join [CHR 10] (keep_lines header body (js_split (CHR 10) a))]
         in if length j \<le> max_len then j else finalize_truncated_rich_text h (take max_len j) m)"
      by (simp add: clamp_to_max_len_def Some Let_def del: js_join.simps)
    then show ?thesis unfolding Let_def by (simp only: cut_cases)
  qed
qed

text \<open>C36: A message never exceeds Telegram's limit of 4096 by what the program itself builds: a plaintext
  message has at most 4096 characters, whatever the email; an HTML message does too, unless it is what
  the HTML sanitiser made of a text cut to exactly 4096 characters.\<close>

theorem message_fits_telegram:
  "length (rd_text (render_email_for_delivery h email Plaintext addr links)) \<le> 4096 \<and>
   (length (rd_text (render_email_for_delivery h email Html addr links)) \<le> 4096 \<or>
    (\<exists>s. length s = 4096 \<and> rd_text (render_email_for_delivery h email Html addr links) = st_classicHtml (h s)))"
proof -
  have t: "\<exists>header body sec. rd_text (render_email_for_delivery h email m addr links) = clamp_to_max_len h header body sec m" for m
    by (auto simp: render_email_for_delivery_def Let_def split: prod.split)
  obtain header body sec where p: "rd_text (render_email_for_delivery h email Plaintext addr links) = clamp_to_max_len h header body sec Plaintext"
    using t by blast
  obtain header' body' sec' where q: "rd_text (render_email_for_delivery h email Html addr links) = clamp_to_max_len h header' body' sec' Html"
    using t by blast
  show ?thesis unfolding p q
    using clamp_cases [of h header body sec Plaintext] clamp_cases [of h header' body' sec' Html]
    by (auto simp: finalize_truncated_rich_text_def max_len_def)
qed

lemma keep_count_le: "keep_count names budget k \<le> k"
  by (induction k) (auto intro: le_SucI)

lemma keep_count_fits: "0 < keep_count names budget k \<Longrightarrow>
    int (rich_cost names (keep_count names budget k) (length names - keep_count names budget k)) \<le> budget"
  by (induction k) (auto split: if_splits)

lemma keep_count_most: "keep_count names budget k < j \<Longrightarrow> j \<le> k \<Longrightarrow> budget < int (rich_cost names j (length names - j))"
  by (induction k) (auto simp: le_Suc_eq split: if_splits)

text \<open>The attachment list of a rich message is as long as its budget allows and never cut inside a
  link: the visible text of the kept entries and of the omission note fits the budget, one more entry
  would not, and when nothing fits the rich message is given up so that the classic one carries the
  links.\<close>

theorem rich_attachments_maximal:
  "let names = map (\<lambda>l. sanitize_filename (li_filename l)) links; k = keep_count names budget (length links)
   in k \<le> length links \<and>
      (build_rich_attachments_section links budget = None \<longleftrightarrow> links \<noteq> [] \<and> k = 0) \<and>
      (0 < k \<longrightarrow> int (rich_cost names k (length links - k)) \<le> budget) \<and>
      (\<forall>j. k < j \<longrightarrow> j \<le> length links \<longrightarrow> budget < int (rich_cost names j (length links - j)))"
proof -
  let ?n = "map (\<lambda>l. sanitize_filename (li_filename l)) links"
  let ?k = "keep_count ?n budget (length links)"
  have "?k \<le> length links" by (rule keep_count_le)
  moreover have "build_rich_attachments_section links budget = None \<longleftrightarrow> links \<noteq> [] \<and> ?k = 0"
    by (simp add: build_rich_attachments_section_def Let_def)
  moreover have "0 < ?k \<longrightarrow> int (rich_cost ?n ?k (length links - ?k)) \<le> budget"
    using keep_count_fits [of ?n budget "length links"] by simp
  moreover have "\<forall>j. ?k < j \<longrightarrow> j \<le> length links \<longrightarrow> budget < int (rich_cost ?n j (length links - j))"
    using keep_count_most [of ?n budget "length links"] by simp
  ultimately show ?thesis by (simp add: Let_def)
qed

definition sample_links :: "attachment_link list" where
  "sample_links = map (\<lambda>n. \<lparr> li_filename = n, li_sizeBytes = 1, li_url = ''https://m/dl/'' @ n \<rparr>) (replicate 3 (replicate 30 (CHR ''a'')))"

definition sample_names :: "string list" where
  "sample_names = map (\<lambda>l. sanitize_filename (li_filename l)) sample_links"

lemma rich_attachments_maximal_witness:
  "0 < keep_count sample_names 100 3 \<and> keep_count sample_names 100 3 < 3 \<and>
   int (rich_cost sample_names (keep_count sample_names 100 3) (3 - keep_count sample_names 100 3)) \<le> 100 \<and>
   100 < int (rich_cost sample_names 3 0)"
proof -
  have k: "0 < keep_count sample_names 100 3" "keep_count sample_names 100 3 < 3" by code_simp+
  have "length sample_links = 3" by (simp add: sample_links_def)
  then have m: "int (rich_cost sample_names (keep_count sample_names 100 3) (3 - keep_count sample_names 100 3)) \<le> 100"
    "\<forall>j. keep_count sample_names 100 3 < j \<longrightarrow> j \<le> 3 \<longrightarrow> 100 < int (rich_cost sample_names j (3 - j))"
    using k rich_attachments_maximal [of sample_links 100] unfolding sample_names_def Let_def by simp_all
  from m(2) [rule_format, of 3] m(1) k show ?thesis by simp
qed

end
