(* ===== verification/DeliveryRoute.thy ===== *)
theory DeliveryRoute
  imports Limits Sender
begin

text \<open>
  What the first delivery of an email and its retries share: the one read of the alias that fixes the
  destination of an attempt (\<open>src/email/deliveryRoute.ts\<close>), the bounded repetition of a write
  (\<open>src/utils/retryAsync.ts\<close>) and the choice between photo and download link
  (\<open>src/email/imageTypes.ts\<close>).
\<close>

section \<open>The route of an attempt\<close>

text \<open>Left: \<open>ok: false\<close> with the observed status.\<close>

definition read_attempt_route :: "uuid \<Rightarrow> (alias_status option + (alias_row \<times> send_target)) io" where
  "read_attempt_route aliasId =
     bind (db_read (find_alias_by_id aliasId)) (\<lambda>found.
       ret (case found of
              None \<Rightarrow> Inl None
            | Some al \<Rightarrow>
                if al_status al \<noteq> Active then Inl (Some (al_status al))
                else Inr (al, \<lparr> tgt_chat = al_chatId al, tgt_thread = al_messageThreadId al \<rparr>)))"

section \<open>Repeated writes\<close>

text \<open>\<open>retry_from last n fn\<close>: \<open>n\<close> tries are left, the last error was \<open>last\<close>; the delays have no
  counterpart.\<close>

primrec retry_from :: "exn \<Rightarrow> nat \<Rightarrow> 'a io \<Rightarrow> 'a io" where
  "retry_from lastError 0 fn = throw lastError"
| "retry_from lastError (Suc n) fn = catch fn (\<lambda>err. retry_from err n fn)"

definition retry_async :: "nat \<Rightarrow> 'a io \<Rightarrow> 'a io" where
  "retry_async attempts fn = retry_from (Thrown ''undefined'') attempts fn"

section \<open>Photos\<close>

definition image_mime_types :: "string list" where
  "image_mime_types = [''image/jpeg'', ''image/jpg'', ''image/png'', ''image/gif'', ''image/webp'']"

definition is_image_content_type :: "string \<Rightarrow> bool" where
  "is_image_content_type contentType = (js_trim (hd (js_split (CHR '';'') (js_lower contentType))) \<in> set image_mime_types)"

definition telegram_photo_max_bytes :: int where "telegram_photo_max_bytes = 10 * 1024 * 1024"

definition is_inline_photo :: "string \<Rightarrow> int option \<Rightarrow> bool" where
  "is_inline_photo contentType sizeBytes =
     (if \<not> is_image_content_type contentType then False
      else case sizeBytes of None \<Rightarrow> True | Some n \<Rightarrow> n \<le> telegram_photo_max_bytes)"

section \<open>Catching\<close>

text \<open>\<open>try\<close> with the error as a value.\<close>

definition try_io :: "'a io \<Rightarrow> (exn + 'a) io" where
  "try_io m e w = (Inr (fst (m e w)), snd (m e w))"

lemma try_io_Inr: "try_io m e w = (Inr r, w') \<longleftrightarrow> m e w = (r, w')"
  by (cases "m e w") (auto simp: try_io_def)

lemma swallow_Inr: "swallow m e w = (Inr u, w') \<longleftrightarrow> w' = snd (m e w)"
  by (cases "m e w") (auto simp: swallow_def catch_def ret_def split: sum.splits)

lemma emits_try [emits_rules]: "emits G m \<Longrightarrow> emits G (try_io m)"
  and keeps_try [keeps_rules]: "keeps I m \<Longrightarrow> keeps I (try_io m)"
  by (simp_all add: emits_def keeps_def try_io_def)

lemma emits_swallow [emits_rules]: "emits G m \<Longrightarrow> emits G (swallow m)"
  and keeps_swallow [keeps_rules]: "keeps I m \<Longrightarrow> keeps I (swallow m)"
  by (simp_all add: swallow_def emits_rules keeps_rules)

lemma emits_retry_from [emits_rules]: "emits G m \<Longrightarrow> emits G (retry_from x n m)"
  by (induction n arbitrary: x) (auto intro: emits_rules)

lemma keeps_retry_from [keeps_rules]: "keeps I m \<Longrightarrow> keeps I (retry_from x n m)"
  by (induction n arbitrary: x) (auto intro: keeps_rules)

lemma emits_retry [emits_rules]: "emits G m \<Longrightarrow> emits G (retry_async n m)"
  and keeps_retry [keeps_rules]: "keeps I m \<Longrightarrow> keeps I (retry_async n m)"
  by (simp_all add: retry_async_def emits_rules keeps_rules)

lemma keeps_read_route [keeps_rules]: "keeps I (read_attempt_route i)"
  and emits_read_route [emits_rules]: "emits G (read_attempt_route i)"
  unfolding read_attempt_route_def by (intro keeps_rules emits_rules)+

section \<open>Transactions end where they began\<close>

text \<open>\<open>settled m\<close>: \<open>m\<close>, started outside a transaction, ends outside one, however it ends.\<close>

definition settled :: "'a io \<Rightarrow> bool" where
  "settled m \<longleftrightarrow> (\<forall>e w. w_tx w = NoTx \<longrightarrow> w_tx (snd (m e w)) = NoTx)"

named_theorems settled_rules \<open>computations that end outside a transaction\<close>

lemma settledD: "settled m \<Longrightarrow> w_tx w = NoTx \<Longrightarrow> w_tx (snd (m e w)) = NoTx"
  by (simp add: settled_def)

lemma settled_basic [settled_rules]:
  "settled (ret a)" "settled (throw x)" "settled (ask f)" "settled (of_result r)" "settled (at_tick g)" "settled (emit v)"
  "settled now" "settled random_uuid"
  by (simp_all add: settled_def ret_def throw_def ask_def of_result_def at_tick_def emit_def now_def random_uuid_def)

lemma settled_db_stmt [settled_rules]: "settled (db_stmt f)"
  by (auto simp: settled_def db_stmt_def Let_def abort_def break_tx_def split: fault.splits sum.splits prod.splits)

lemma settled_db [settled_rules]: "settled (db_read i)" "settled (db_write j)" "settled advisory_lock"
  by (simp_all add: db_read_def db_write_def advisory_lock_def settled_db_stmt)

lemma settled_transaction [settled_rules]: "settled (transaction m)"
  by (auto simp: settled_def transaction_def Let_def split: prod.splits sum.splits tx_state.splits fault.splits)

lemma settled_bind [settled_rules]: "settled m \<Longrightarrow> (\<And>a. settled (f a)) \<Longrightarrow> settled (bind m f)"
  unfolding settled_def bind_def by (auto split: prod.splits sum.splits) (metis snd_conv)+

lemma settled_catch [settled_rules]: "settled m \<Longrightarrow> (\<And>x. settled (h x)) \<Longrightarrow> settled (catch m h)"
  unfolding settled_def catch_def by (auto split: prod.splits sum.splits) (metis snd_conv)+

lemma settled_retry_from [settled_rules]: "settled m \<Longrightarrow> settled (retry_from x n m)"
  by (induction n arbitrary: x) (auto intro: settled_rules)

lemma settled_retry [settled_rules]: "settled m \<Longrightarrow> settled (retry_async n m)"
  by (simp add: retry_async_def settled_rules)

lemma settled_swallow [settled_rules]: "settled m \<Longrightarrow> settled (swallow m)"
  by (simp add: swallow_def settled_rules)

lemma settled_if [settled_rules]: "(b \<Longrightarrow> settled m) \<Longrightarrow> (\<not> b \<Longrightarrow> settled n) \<Longrightarrow> settled (if b then m else n)"
  by simp

lemma settled_case_option [settled_rules]:
  "(v = None \<Longrightarrow> settled m) \<Longrightarrow> (\<And>x. v = Some x \<Longrightarrow> settled (f x)) \<Longrightarrow> settled (case v of None \<Rightarrow> m | Some x \<Rightarrow> f x)"
  by (cases v) auto

lemma settled_case_sum [settled_rules]:
  "(\<And>x. v = Inl x \<Longrightarrow> settled (f x)) \<Longrightarrow> (\<And>x. v = Inr x \<Longrightarrow> settled (g x)) \<Longrightarrow>
   settled (case v of Inl x \<Rightarrow> f x | Inr x \<Rightarrow> g x)"
  by (cases v) auto

lemma settled_case_prod [settled_rules]: "(\<And>x y. v = (x, y) \<Longrightarrow> settled (f x y)) \<Longrightarrow> settled (case v of (x, y) \<Rightarrow> f x y)"
  by (cases v) auto

lemma settled_for_each [settled_rules]: "(\<And>x. settled (f x)) \<Longrightarrow> settled (for_each xs f)"
  by (induction xs) (auto intro: settled_rules)

lemma settled_for_map [settled_rules]: "(\<And>x. settled (f x)) \<Longrightarrow> settled (for_map xs f)"
  by (induction xs) (auto intro!: settled_rules)

section \<open>What a repeated write leaves behind\<close>

text \<open>When the repetition returns, the last try returned, from a world that still satisfies what every
  failing try preserves.\<close>

lemma retry_from_Inr:
  assumes "retry_from x n m e w = (Inr a, w')" and "P w" and step: "\<And>v y v'. P v \<Longrightarrow> m e v = (Inl y, v') \<Longrightarrow> P v'"
  shows "\<exists>v. P v \<and> m e v = (Inr a, w')"
  using assms(1,2)
proof (induction n arbitrary: x w)
  case 0
  then show ?case by (simp add: throw_def)
next
  case (Suc n)
  show ?case
  proof (cases "m e w")
    case (Pair r v)
    show ?thesis
    proof (cases r)
      case (Inl y)
      then have "retry_from y n m e v = (Inr a, w')" using Suc.prems(1) Pair by (simp add: catch_def)
      moreover have "P v" by (rule step [OF Suc.prems(2)]) (simp add: Pair Inl)
      ultimately show ?thesis by (rule Suc.IH)
    next
      case (Inr b)
      then show ?thesis using Suc.prems Pair by (auto simp: catch_def)
    qed
  qed
qed

lemma retry_async_Inr:
  assumes "retry_async n m e w = (Inr a, w')" and "P w" and "\<And>v y v'. P v \<Longrightarrow> m e v = (Inl y, v') \<Longrightarrow> P v'"
  shows "\<exists>v. P v \<and> m e v = (Inr a, w')"
  by (rule retry_from_Inr [where P = P, OF assms(1) [unfolded retry_async_def] assms(2)]) (rule assms(3))

lemma read_attempt_route_Inr:
  assumes "read_attempt_route i e w = (Inr (Inr (al, route)), w')"
  shows "find_alias_by_id i (w_db w) = Some al" "al_status al = Active"
    "route = \<lparr> tgt_chat = al_chatId al, tgt_thread = al_messageThreadId al \<rparr>" "w_db w' = w_db w" "w_tx w' = w_tx w" "w_trace w' = w_trace w"
  using assms by (auto simp: read_attempt_route_def bind_Inr db_read_Inr ret_Inr split: option.splits if_splits)

end
