(* ===== verification/Storage.thy ===== *)
theory Storage
  imports LogMetadata
begin

text \<open>
  Files of emails and attachments (\<open>src/storage/disk.ts\<close>).  Content is encrypted before it is
  written, bound to the attachment's id or to the file's name.  The disk's answers are the
  environment's; the trace records what was written and deleted.
\<close>

section \<open>Writing\<close>

text \<open>\<open>path.basename\<close>\<close>

definition path_basename :: "string \<Rightarrow> string" where
  "path_basename p = rev (takeWhile (\<lambda>c. c \<noteq> CHR ''/'') (dropWhile (\<lambda>c. c = CHR ''/'') (rev p)))"

definition attachment_aad :: "uuid \<Rightarrow> string" where
  "attachment_aad attachmentId = ''attachment:'' @ attachmentId"

definition raw_email_aads :: "string \<Rightarrow> string list" where
  "raw_email_aads storagePath =
     (let stableAad = ''raw-email:'' @ path_basename storagePath; legacyAad = ''raw-email:'' @ storagePath
      in if stableAad = legacyAad then [stableAad] else [stableAad, legacyAad])"

text \<open>\<open>mkdir\<close> and \<open>writeFile\<close>\<close>

definition write_file :: "string \<Rightarrow> unit io" where
  "write_file path =
     bind (at_tick (\<lambda>e t. disk_write e t path)) (\<lambda>r.
       case r of None \<Rightarrow> emit (FileWritten path) | Some err \<Rightarrow> throw err)"

definition write_attachment :: "string \<Rightarrow> uuid \<Rightarrow> bytes \<Rightarrow> encryption_meta io" where
  "write_attachment storagePath attachmentId data =
     bind (encrypt_buffer_for_storage data (attachment_aad attachmentId)) (\<lambda>(blob, metadata).
     bind (write_file storagePath) (\<lambda>_. ret metadata))"

definition write_raw_email :: "string \<Rightarrow> bytes \<Rightarrow> encryption_meta io" where
  "write_raw_email storagePath data =
     bind (encrypt_buffer_for_storage data (hd (raw_email_aads storagePath))) (\<lambda>(blob, metadata).
     bind (write_file storagePath) (\<lambda>_. ret metadata))"

section \<open>Deleting and reading\<close>

text \<open>\<open>deleteFile\<close>: a file that is gone already is no error.\<close>

definition delete_file :: "string \<Rightarrow> unit io" where
  "delete_file filePath =
     bind (at_tick (\<lambda>e t. disk_delete e t filePath)) (\<lambda>r.
       case r of
         None \<Rightarrow> emit (FileDeleted filePath)
       | Some err \<Rightarrow> if err \<noteq> NotFound then throw err else ret ())"

definition delete_dir :: "string \<Rightarrow> unit io" where
  "delete_dir dirPath =
     bind (at_tick (\<lambda>e t. disk_delete_dir e t dirPath)) (\<lambda>r.
       case r of None \<Rightarrow> emit (DirDeleted dirPath) | Some err \<Rightarrow> throw err)"

definition pending_raw_email_meta_path :: "string \<Rightarrow> string" where
  "pending_raw_email_meta_path rawEmailPath = rawEmailPath @ ''.pending.json''"

definition delete_pending_raw_email_meta :: "string \<Rightarrow> unit io" where
  "delete_pending_raw_email_meta rawEmailPath = delete_file (pending_raw_email_meta_path rawEmailPath)"

definition list_pending_raw_emails :: "pending_raw list io" where
  "list_pending_raw_emails = bind (at_tick pending_raws) of_result"

definition known_encryption_mode :: "string option \<Rightarrow> bool" where
  "known_encryption_mode m \<longleftrightarrow> m = None \<or> m = Some ''none'' \<or> m = Some ''local-v1''"

text \<open>The additional data is tried as it is written today and, for older files, with the whole path;
  the last failure is the one thrown.\<close>

fun decrypt_with_aads :: "env \<Rightarrow> bytes \<Rightarrow> encryption_meta \<Rightarrow> string list \<Rightarrow> exn + bytes" where
  "decrypt_with_aads e raw metadata [] = Inl (Thrown ''Failed to decrypt raw email'')"
| "decrypt_with_aads e raw metadata [aad] = decrypt_buffer_from_storage e raw metadata aad"
| "decrypt_with_aads e raw metadata (aad # aads) =
     (case decrypt_buffer_from_storage e raw metadata aad of Inr b \<Rightarrow> Inr b | Inl _ \<Rightarrow> decrypt_with_aads e raw metadata aads)"

text \<open>\<open>readRawEmail\<close>: the file is read first, then its encryption mode is checked.\<close>

definition read_raw_email :: "string \<Rightarrow> string option \<Rightarrow> string option \<Rightarrow> string option \<Rightarrow> bytes io" where
  "read_raw_email storagePath encryptionMode wrappedDek kekKeyId =
     bind (bind (at_tick (\<lambda>e t. disk_read e t storagePath)) of_result) (\<lambda>raw.
       if \<not> known_encryption_mode encryptionMode
       then throw (Thrown (''Unsupported raw email encryption mode: '' @ or_else encryptionMode []))
       else bind (ask (\<lambda>e. decrypt_with_aads e raw
              \<lparr> enc_mode = or_else encryptionMode ''none'', enc_wrappedDek = wrappedDek, enc_kekKeyId = kekKeyId, enc_encryptedAt = None \<rparr>
              (raw_email_aads storagePath))) of_result)"

definition read_attachment_bytes :: "string \<Rightarrow> uuid \<Rightarrow> encryption_meta \<Rightarrow> bytes io" where
  "read_attachment_bytes storagePath attachmentId metadata =
     bind (bind (at_tick (\<lambda>e t. disk_read e t storagePath)) of_result) (\<lambda>raw.
       if \<not> known_encryption_mode (Some (enc_mode metadata))
       then throw (Thrown (''Unsupported attachment encryption mode: '' @ enc_mode metadata))
       else bind (ask (\<lambda>e. decrypt_buffer_from_storage e raw metadata (attachment_aad attachmentId))) of_result)"

section \<open>Computations that leave the database alone\<close>

lemma keeps_encryption [keeps_rules]: "keeps I (wrap_key p dek)" "keeps I (encrypt_buffer_for_storage plain aad)"
  unfolding encrypt_buffer_for_storage_def wrap_key_def by (intro keeps_rules)+

lemma emits_encryption [emits_rules]: "emits G (wrap_key p dek)" "emits G (encrypt_buffer_for_storage plain aad)"
  unfolding encrypt_buffer_for_storage_def wrap_key_def by (intro emits_rules)+

lemma keeps_disk [keeps_rules]:
  "keeps I (write_file p)" "keeps I (write_attachment p i x)" "keeps I (write_raw_email p x)" "keeps I (delete_file p)" "keeps I (delete_dir p)"
  "keeps I (delete_pending_raw_email_meta p)" "keeps I list_pending_raw_emails" "keeps I (read_raw_email p m wd kk)" "keeps I (read_attachment_bytes p i em)"
  unfolding write_attachment_def write_raw_email_def write_file_def delete_file_def delete_dir_def delete_pending_raw_email_meta_def
    list_pending_raw_emails_def read_raw_email_def read_attachment_bytes_def
  by (intro keeps_rules)+

lemma emits_disk [emits_rules]:
  "G (FileWritten p) \<Longrightarrow> emits G (write_file p)"
  "G (FileWritten p) \<Longrightarrow> emits G (write_attachment p i x)" "G (FileWritten p) \<Longrightarrow> emits G (write_raw_email p x)"
  "G (FileDeleted p) \<Longrightarrow> emits G (delete_file p)" "G (DirDeleted p) \<Longrightarrow> emits G (delete_dir p)"
  "G (FileDeleted (pending_raw_email_meta_path p)) \<Longrightarrow> emits G (delete_pending_raw_email_meta p)"
  "emits G list_pending_raw_emails" "emits G (read_raw_email p m wd kk)" "emits G (read_attachment_bytes p i em)"
  unfolding write_attachment_def write_raw_email_def write_file_def delete_file_def delete_dir_def delete_pending_raw_email_meta_def
    list_pending_raw_emails_def read_raw_email_def read_attachment_bytes_def
  by (intro emits_rules; assumption)+

lemma delete_file_Inr:
  "delete_file p e w = (Inr u, w') \<Longrightarrow>
     (w_trace w' = w_trace w @ [FileDeleted p] \<or> (disk_delete e (w_tick w) p = Some NotFound \<and> w_trace w' = w_trace w)) \<and>
     w_db w' = w_db w \<and> w_tx w' = w_tx w"
  by (auto simp: delete_file_def bind_Inr at_tick_Inr emit_Inr ret_Inr throw_def split: option.splits if_splits)

end
