(* ===== verification/Deliver.thy ===== *)
theory Deliver
  imports DeliveryRoute Storage Renderer ChatMigration InboundQueue AliasActivation
begin

text \<open>
  The delivery stage of an accepted email (\<open>src/email/pipeline/deliver.ts\<close>): a transaction under the
  owner's lock stores the attachments and renders the message, a second one checks that the alias is
  still active, then one read of the alias fixes the route of every request of the attempt.  The
  outcome of the text is stored before anything else is sent.  \<open>api\<close> is true when a bot is configured.
  Log lines and metrics other than the count of lost deliveries have no counterpart.
\<close>

section \<open>Attachments\<close>

record stored_image =
  si_photo :: photo_item
  si_attachmentId :: uuid
  si_sizeBytes :: int

record stored_parts =
  sp_links :: "attachment_link list"
  sp_images :: "stored_image list"

text \<open>A fresh download link of an attachment and its entry in the message.\<close>

definition download_link :: "string \<Rightarrow> int \<Rightarrow> uuid \<Rightarrow> string \<Rightarrow> int \<Rightarrow> attachment_link io" where
  "download_link publicBaseUrl ttlHours attachmentId filename sizeBytes =
     bind (generate_download_token attachmentId ttlHours) (\<lambda>(token, expiresAt).
     bind (create_attachment_link attachmentId token expiresAt) (\<lambda>_.
     ret \<lparr> li_filename = filename, li_sizeBytes = sizeBytes, li_url = publicBaseUrl @ ''/dl/'' @ token \<rparr>))"

text \<open>The directory in \<open>attachmentDir\<close> is absolute and normalised, so \<open>join\<close> concatenates.\<close>

definition attachment_path :: "queued_email \<Rightarrow> uuid \<Rightarrow> string" where
  "attachment_path job fileId = qe_attachmentDir job @ ''/'' @ dl_id (qe_deliveryLog job) @ ''/'' @ fileId @ ''.bin''"

definition attachment_record :: "queued_email \<Rightarrow> uuid \<Rightarrow> string \<Rightarrow> parsed_attachment \<Rightarrow> encryption_meta \<Rightarrow> attachment_row" where
  "attachment_record job attachmentId storagePath att meta =
     \<lparr> at_id = attachmentId, at_deliveryLogId = dl_id (qe_deliveryLog job), at_originalFilename = Some (pa_filename att),
       at_contentType = Some (pa_contentType att), at_sizeBytes = Some (pa_sizeBytes att), at_sha256 = pa_sha256 att,
       at_storagePath = storagePath, at_encryption = meta, at_createdAt = 0 \<rparr>"

text \<open>The compensation when the row was not stored.\<close>

definition release_attachment :: "queued_email \<Rightarrow> string \<Rightarrow> parsed_attachment \<Rightarrow> unit io" where
  "release_attachment job storagePath att =
     bind (try_io (delete_file storagePath)) (\<lambda>deleted.
       if (\<exists>u. deleted = Inr u) \<and> 0 < pa_sizeBytes att
       then swallow (bind (decrement_user_storage_usage (al_createdBy (qe_alias job)) 0 (pa_sizeBytes att)) (\<lambda>_. ret ()))
       else ret ())"

definition offer_attachment :: "queued_email \<Rightarrow> parsed_attachment \<Rightarrow> attachment_row \<Rightarrow> stored_parts \<Rightarrow> stored_parts io" where
  "offer_attachment job att dbAtt acc =
     (if is_inline_photo (pa_contentType att) (Some (pa_sizeBytes att))
      then ret (acc\<lparr> sp_images := sp_images acc @
             [\<lparr> si_photo = \<lparr> ph_id = at_id dbAtt, ph_storagePath = at_storagePath dbAtt, ph_filename = pa_filename att,
                              ph_encryption = at_encryption dbAtt \<rparr>,
                si_attachmentId = at_id dbAtt, si_sizeBytes = pa_sizeBytes att \<rparr>] \<rparr>)
      else if \<not> al_privacyModeEnabled (qe_alias job)
      then bind (download_link (qe_publicBaseUrl job) (qe_attachmentTtlHours job) (at_id dbAtt) (pa_filename att) (pa_sizeBytes att))
             (\<lambda>l. ret (acc\<lparr> sp_links := sp_links acc @ [l] \<rparr>))
      else ret acc)"

text \<open>Lines 112 to 186: one attachment; a failure is logged and the loop goes on.\<close>

definition store_attachment :: "queued_email \<Rightarrow> parsed_attachment \<Rightarrow> stored_parts \<Rightarrow> stored_parts io" where
  "store_attachment job att acc =
     bind random_uuid (\<lambda>attachmentId.
     bind random_uuid (\<lambda>fileId.
       let storagePath = attachment_path job fileId
       in bind (try_io (bind (write_attachment storagePath attachmentId (pa_content att)) (\<lambda>meta.
                  create_attachment (attachment_record job attachmentId storagePath att meta)))) (\<lambda>stored.
          case stored of
            Inl err \<Rightarrow> bind (release_attachment job storagePath att) (\<lambda>_. ret acc)
          | Inr dbAtt \<Rightarrow> catch (offer_attachment job att dbAtt acc) (\<lambda>_. ret acc))))"

primrec store_attachments :: "queued_email \<Rightarrow> parsed_attachment list \<Rightarrow> stored_parts \<Rightarrow> stored_parts io" where
  "store_attachments job [] acc = ret acc"
| "store_attachments job (att # atts) acc = bind (store_attachment job att acc) (store_attachments job atts)"

section \<open>Preparation\<close>

definition still_deliverable :: "alias_row \<Rightarrow> alias_row option \<Rightarrow> bool" where
  "still_deliverable al currentAlias =
     (case currentAlias of
        None \<Rightarrow> False
      | Some cur \<Rightarrow> al_status cur = Active \<and> al_createdBy cur = al_createdBy al)"

definition build_privacy_mode_message :: "log_row \<Rightarrow> parsed_email \<Rightarrow> string \<Rightarrow> string \<Rightarrow> int \<Rightarrow> string io" where
  "build_privacy_mode_message log parsed aliasFullAddress publicBaseUrl rawEmailTtlHours =
     (if \<not> truthy (dl_rawEmailPath log) then throw (Thrown ''privacy mode requires a durable raw email path'')
      else bind (create_privacy_view_url (dl_id log) publicBaseUrl (dl_receivedAt log + rawEmailTtlHours * 60 * 60 * 1000)) (\<lambda>viewUrl.
           ask (\<lambda>e. render_privacy_alert e parsed aliasFullAddress viewUrl (0 < length (pe_attachments parsed)))))"

record prepared_delivery =
  pd_images :: "stored_image list"
  pd_text :: string
  pd_parseMode :: "string option"
  pd_richHtml :: "string option"

definition clean_parsed :: "parsed_email \<Rightarrow> parsed_email" where
  "clean_parsed parsed =
     (if truthy (pe_textBody parsed) then parsed\<lparr> pe_textBody := Some (clean_email_body (the (pe_textBody parsed))) \<rparr> else parsed)"

text \<open>Lines 188 to 203.\<close>

definition render_prepared :: "queued_email \<Rightarrow> parsed_email \<Rightarrow> stored_parts \<Rightarrow> prepared_delivery io" where
  "render_prepared job parsed parts =
     (if al_privacyModeEnabled (qe_alias job)
      then bind (build_privacy_mode_message (qe_deliveryLog job) parsed (al_fullAddress (qe_alias job)) (qe_publicBaseUrl job)
                   (qe_rawEmailTtlHours job)) (\<lambda>text.
           ret \<lparr> pd_images = sp_images parts, pd_text = text, pd_parseMode = Some ''HTML'', pd_richHtml = None \<rparr>)
      else bind (ask (\<lambda>e. render_email_for_delivery (structured_email_html e) parsed
                   (normalize_render_mode (Some (al_renderMode (qe_alias job)))) (al_fullAddress (qe_alias job)) (sp_links parts))) (\<lambda>rendered.
           ret \<lparr> pd_images = sp_images parts, pd_text = rd_text rendered, pd_parseMode = rd_parseMode rendered,
                 pd_richHtml = rd_richHtml rendered \<rparr>))"

text \<open>Lines 81 to 213: the transaction's callback.  None: \<open>ok: false\<close>.\<close>

definition prepare_delivery :: "queued_email \<Rightarrow> prepared_delivery option io" where
  "prepare_delivery job =
     bind advisory_lock (\<lambda>_.
     bind (db_read (find_alias_by_id (al_id (qe_alias job)))) (\<lambda>currentAlias.
       if \<not> still_deliverable (qe_alias job) currentAlias then ret None
       else bind (mark_delivery_log_processing (dl_id (qe_deliveryLog job))) (\<lambda>_.
            let parsed = clean_parsed (qe_parsed job)
            in bind (store_attachments job (pe_attachments parsed) \<lparr> sp_links = [], sp_images = [] \<rparr>) (\<lambda>parts.
               bind (render_prepared job parsed parts) (\<lambda>p. ret (Some p))))))"

text \<open>Lines 223 to 244.\<close>

definition recheck_alias :: "queued_email \<Rightarrow> bool io" where
  "recheck_alias job =
     bind advisory_lock (\<lambda>_.
     bind (db_read (find_alias_by_id (al_id (qe_alias job)))) (\<lambda>currentAlias.
     ret (still_deliverable (qe_alias job) currentAlias)))"

section \<open>Outcome of the text\<close>

definition failure_arg :: "send_result \<Rightarrow> error_arg" where
  "failure_arg result = (case sr_failure result of Some f \<Rightarrow> Structured f | None \<Rightarrow> Message (sr_error result))"

definition send_error_class :: "send_result \<Rightarrow> error_class option" where
  "send_error_class result = (if sr_ok result then None else Some (classify_telegram_error (failure_arg result)))"

definition failed_status :: "send_result \<Rightarrow> delivery_status" where
  "failed_status result =
     (if \<not> sr_ok result \<and> retry_disposition_for_error (failure_arg result) = FailPermanently then PermanentlyFailed else Failed)"

definition attempt_for :: "uuid \<Rightarrow> int \<Rightarrow> send_target \<Rightarrow> send_result \<Rightarrow> attempt_row" where
  "attempt_for logId attemptNo route result =
     \<lparr> da_deliveryLogId = logId, da_attemptNo = attemptNo, da_targetChatId = tgt_chat route, da_targetThreadId = tgt_thread route,
       da_telegramMessageId = (if sr_telegramMessageId result = Some 0 then None else sr_telegramMessageId result),
       da_status = (if sr_ok result then AttemptSucceeded else AttemptFailed),
       da_errorText = sr_error result, da_errorClass = send_error_class result, da_createdAt = 0 \<rparr>"

definition post_send_persist_attempts :: nat where "post_send_persist_attempts = 3"

definition persist_outcome :: "uuid \<Rightarrow> attempt_row \<Rightarrow> delivery_status \<Rightarrow> unit io" where
  "persist_outcome logId attempt finalStatus =
     retry_async post_send_persist_attempts (transaction (
       bind (insert_delivery_attempt attempt) (\<lambda>_. update_delivery_log_status logId finalStatus)))"

section \<open>After the text\<close>

definition migrate_hint :: "send_result \<Rightarrow> bigint option" where
  "migrate_hint result = (case sr_failure result of None \<Rightarrow> None | Some f \<Rightarrow> sf_migrateToChatId f)"

definition repair_quietly :: "bigint \<Rightarrow> bigint \<Rightarrow> unit io" where
  "repair_quietly oldChat newChat = swallow (bind (repair_chat_migration True oldChat newChat None) (\<lambda>_. ret ()))"

text \<open>Lines 335 to 377.\<close>

definition after_failed_text :: "queued_email \<Rightarrow> send_target \<Rightarrow> send_result \<Rightarrow> pipeline_result io" where
  "after_failed_text job route result =
     bind (if failed_status result = PermanentlyFailed
           then bind (emit LostDelivery) (\<lambda>_.
                refund_accepted_email (dl_userId (qe_deliveryLog job)) (dl_receivedAt (qe_deliveryLog job)))
           else ret ()) (\<lambda>_.
     bind (case migrate_hint result of Some newChat \<Rightarrow> repair_quietly (tgt_chat route) newChat | None \<Rightarrow> ret ()) (\<lambda>_.
     ret (rejected_for SendFailed)))"

definition abort_attempt_for_migration :: "queued_email \<Rightarrow> send_target \<Rightarrow> bigint \<Rightarrow> pipeline_result io" where
  "abort_attempt_for_migration job route newChatId =
     bind (repair_quietly (tgt_chat route) newChatId) (\<lambda>_.
     bind (swallow (update_delivery_log_status (dl_id (qe_deliveryLog job)) Failed)) (\<lambda>_.
     ret (rejected_for ChatMigrated)))"

definition fallback_options :: "send_target \<Rightarrow> attachment_link list \<Rightarrow> send_options" where
  "fallback_options route links =
     \<lparr> so_target = route, so_text = render_attachment_fallback links, so_parseMode = None, so_richHtml = None, so_richMessagesEnabled = None \<rparr>"

text \<open>Lines 443 to 486: links to the photos that Telegram did not take.\<close>

definition send_photo_fallback :: "queued_email \<Rightarrow> prepared_delivery \<Rightarrow> send_target \<Rightarrow> photo_item list \<Rightarrow> pipeline_result option io" where
  "send_photo_fallback job p route failedPhotos =
     (let failedPaths = map ph_storagePath failedPhotos
      in bind (for_map (filter (\<lambda>i. ph_storagePath (si_photo i) \<in> set failedPaths) (pd_images p))
                (\<lambda>i. download_link (qe_publicBaseUrl job) (qe_attachmentTtlHours job) (si_attachmentId i) (ph_filename (si_photo i)) (si_sizeBytes i))) (\<lambda>fallbackLinks.
         bind (send_telegram_message (fallback_options route fallbackLinks)) (\<lambda>fallbackResult.
           if sr_ok fallbackResult then ret None
           else case migrate_hint fallbackResult of
               None \<Rightarrow> ret None
             | Some newChat \<Rightarrow> bind (abort_attempt_for_migration job route newChat) (\<lambda>r. ret (Some r)))))"

text \<open>Lines 423 to 494.  None: the attempt goes on.\<close>

definition deliver_photos :: "queued_email \<Rightarrow> prepared_delivery \<Rightarrow> send_target \<Rightarrow> int option \<Rightarrow> pipeline_result option io" where
  "deliver_photos job p route textMessageId =
     (if al_privacyModeEnabled (qe_alias job) \<or> pd_images p = [] then ret None
      else catch (bind (send_telegram_photos route textMessageId (map si_photo (pd_images p))) (\<lambda>photoResult.
           case (case ps_failure photoResult of None \<Rightarrow> None | Some f \<Rightarrow> sf_migrateToChatId f) of
             Some newChat \<Rightarrow> bind (abort_attempt_for_migration job route newChat) (\<lambda>r. ret (Some r))
           | None \<Rightarrow> if 0 < length (ps_failedPhotos photoResult)
                     then send_photo_fallback job p route (ps_failedPhotos photoResult) else ret None)) (\<lambda>_. ret None))"

section \<open>The stage\<close>

definition text_options :: "queued_email \<Rightarrow> prepared_delivery \<Rightarrow> send_target \<Rightarrow> send_options" where
  "text_options job p route =
     \<lparr> so_target = route, so_text = pd_text p, so_parseMode = pd_parseMode p, so_richHtml = pd_richHtml p,
       so_richMessagesEnabled = Some (qe_telegramRichMessagesEnabled job) \<rparr>"

text \<open>Lines 271 to 499.\<close>

definition deliver_to_route :: "queued_email \<Rightarrow> prepared_delivery \<Rightarrow> send_target \<Rightarrow> pipeline_result io" where
  "deliver_to_route job p route =
     bind (send_telegram_message (text_options job p route)) (\<lambda>result.
     let logId = dl_id (qe_deliveryLog job)
     in bind (persist_outcome logId (attempt_for logId 1 route result) (if sr_ok result then Delivered else failed_status result)) (\<lambda>_.
        if \<not> sr_ok result then after_failed_text job route result
        else bind (swallow (mark_alias_first_delivered (al_id (qe_alias job)))) (\<lambda>_.
             bind (deliver_photos job p route (sr_telegramMessageId result)) (\<lambda>aborted.
             ret (or_else aborted accepted)))))"

text \<open>Lines 220 to 269.\<close>

definition deliver_prepared :: "queued_email \<Rightarrow> prepared_delivery \<Rightarrow> pipeline_result io" where
  "deliver_prepared job p =
     bind (transaction (recheck_alias job)) (\<lambda>stillActive.
       if \<not> stillActive then ret (rejected_for UserDeleted)
       else bind (read_attempt_route (al_id (qe_alias job))) (\<lambda>attemptRoute.
         case attemptRoute of
           Inl _ \<Rightarrow> ret (rejected_for UserDeleted)
         | Inr (cur, route) \<Rightarrow>
             if al_createdBy cur \<noteq> al_createdBy (qe_alias job) then ret (rejected_for UserDeleted)
             else deliver_to_route job p route))"

definition deliver_queued_email :: "bool \<Rightarrow> queued_email \<Rightarrow> pipeline_result io" where
  "deliver_queued_email api job =
     catch (bind (transaction (prepare_delivery job)) (\<lambda>prepared.
         case prepared of
           None \<Rightarrow> ret (rejected_for UserDeleted)
         | Some p \<Rightarrow> if api then deliver_prepared job p else ret accepted))
       (\<lambda>err. bind (swallow (update_delivery_log_status (dl_id (qe_deliveryLog job)) Failed)) (\<lambda>_. throw err))"

text \<open>\<open>processInboundEmail\<close> of \<open>pipeline/index.ts\<close>.\<close>

definition process_inbound_email :: "bool \<Rightarrow> pipeline_input \<Rightarrow> pipeline_result io" where
  "process_inbound_email api inp =
     bind (queue_inbound_email inp) (\<lambda>queued.
       case queued of NotQueued r \<Rightarrow> ret r | Queued job _ _ \<Rightarrow> deliver_queued_email api job)"

section \<open>What the parts can touch\<close>

text \<open>Each lemma names the tables a computation writes: an invariant that does not look at them is kept.\<close>

lemma keeps_token [keeps_rules]: "keeps I (generate_download_token i t)"
  and keeps_view_token [keeps_rules]: "keeps I (generate_delivery_view_token_for_expiry i t)"
  unfolding generate_download_token_def generate_download_token_for_expiry_def generate_delivery_view_token_for_expiry_def generate_scoped_token_def
  by (intro keeps_rules)+

lemma keeps_swallow_value: "keeps I m \<Longrightarrow> keeps I (swallow (bind m (\<lambda>_. ret ())))"
  by (intro keeps_rules)

lemma keeps_download_link:
  assumes "\<And>d x. I (d\<lparr>attachmentLinks := x\<rparr>) = I d"
  shows "keeps I (download_link b t i f s)"
  unfolding download_link_def create_attachment_link_def
  by (intro keeps_rules keeps_db_stmt) (auto simp: add_attachment_link_def assms split: if_splits)

lemma keeps_status_write:
  assumes "\<And>d x. I (d\<lparr>deliveryLogs := x\<rparr>) = I d"
  shows "keeps I (update_delivery_log_status i s)" "keeps I (mark_delivery_log_processing i)"
  unfolding update_delivery_log_status_def mark_delivery_log_processing_def set_log_def
  by (auto intro!: keeps_rules keeps_db_write simp: assms)

lemma keeps_privacy_url:
  assumes "\<And>d x. I (d\<lparr>deliveryViewLinks := x\<rparr>) = I d"
  shows "keeps I (create_privacy_view_url i b t)"
  unfolding create_privacy_view_url_def create_delivery_view_link_def
  by (intro keeps_rules keeps_db_stmt) (auto simp: upsert_view_link_def assms split: if_splits)

lemma keeps_storage_release:
  assumes "\<And>d x. I (d\<lparr>userStorageUsage := x\<rparr>) = I d"
  shows "keeps I (decrement_user_storage_usage u raw att)"
  unfolding decrement_user_storage_usage_def assert_non_negative_storage_delta_def
  by (intro keeps_rules keeps_db_stmt) (auto simp: lower_storage_def assms)

lemma keeps_prepare:
  assumes "\<And>d x. I (d\<lparr>attachmentLinks := x\<rparr>) = I d" "keeps I (mark_delivery_log_processing (dl_id (qe_deliveryLog job)))"
    "\<And>d x. I (d\<lparr>deliveryViewLinks := x\<rparr>) = I d" "\<And>d x. I (d\<lparr>userStorageUsage := x\<rparr>) = I d" "\<And>d x. I (d\<lparr>attachments := x\<rparr>) = I d"
  shows "keeps I (prepare_delivery job)"
proof -
  have row: "keeps I (create_attachment a)" for a
    unfolding create_attachment_def by (rule keeps_db_stmt) (auto simp: assms Let_def split: if_splits)
  have one: "keeps I (store_attachment job att acc)" for att acc
    unfolding store_attachment_def release_attachment_def offer_attachment_def Let_def
    by (intro keeps_rules row keeps_storage_release keeps_download_link assms)
  have "keeps I (store_attachments job atts acc)" for atts acc
    by (induction atts arbitrary: acc) (auto intro: keeps_rules one)
  then show ?thesis
    unfolding prepare_delivery_def render_prepared_def build_privacy_mode_message_def Let_def
    by (intro keeps_rules keeps_privacy_url assms)
qed

lemma keeps_recheck [keeps_rules]: "keeps I (recheck_alias job)"
  unfolding recheck_alias_def by (intro keeps_rules)

lemma keeps_repair:
  assumes "\<And>d x. I (d\<lparr>chats := x\<rparr>) = I d" "\<And>d x. I (d\<lparr>aliases := x\<rparr>) = I d" "\<And>d x. I (d\<lparr>aliasMoveEvents := x\<rparr>) = I d"
  shows "keeps I (repair_chat_migration api oldC newC meta)"
proof -
  have "keeps I (upsert_chat c ti ty)" for c ti ty
    unfolding upsert_chat_def by (auto intro!: keeps_rules keeps_db_write simp: upsert_chat_at_def assms split: option.splits)
  moreover have "keeps I (deactivate_chat c)" for c
    unfolding deactivate_chat_def by (auto intro!: keeps_rules keeps_db_write simp: deactivate_chat_at_def assms)
  moreover have "keeps I (insert_alias_move_event v)" for v
    unfolding insert_alias_move_event_def by (auto intro!: keeps_rules keeps_db_write simp: add_move_event_def assms)
  moreover have "keeps I (repoint_stmt a b)" for a b
    unfolding repoint_stmt_def by (auto intro!: keeps_rules keeps_db_stmt simp: repoint_aliases_to_chat_def assms)
  ultimately show ?thesis
    unfolding repair_chat_migration_def fetch_chat_meta_def with_chat_migration_lock_def rekey_body_def register_new_chat_def
    by (intro keeps_rules)
qed

lemma keeps_mark_first:
  assumes "\<And>d x. I (d\<lparr>aliasActivation := x\<rparr>) = I d"
  shows "keeps I (mark_alias_first_delivered i)"
  unfolding mark_alias_first_delivered_def with_bounded_transaction_def
  by (intro keeps_rules keeps_db_stmt) (auto simp: mark_first_delivered_stmt_def put_activation_def update_activations_def assms)

section \<open>One destination\<close>

definition no_request :: "event \<Rightarrow> bool" where
  "no_request v \<longleftrightarrow> (\<forall>rq. v \<noteq> Requested rq)"

lemma no_request_simps [simp]: "no_request (FileWritten p)" "no_request (FileDeleted p)" "no_request LostDelivery"
  "\<not> no_request (Requested rq)"
  by (simp_all add: no_request_def)

lemma no_request_target: "no_request v \<Longrightarrow> to_target tgt v"
  by (cases v) (simp_all add: to_target_def)

lemma emits_repos [emits_rules]:
  "emits G (download_link b t i f s)" "emits G (update_delivery_log_status i st)" "emits G (mark_delivery_log_processing i)"
  "emits G (decrement_user_storage_usage u raw att)" "emits G (create_attachment a)" "emits G (create_privacy_view_url i b t')"
  "emits G (insert_delivery_attempt at')" "emits G (refund_accepted_email u' t'')" "emits G (mark_alias_first_delivered i)"
  unfolding download_link_def create_attachment_link_def generate_download_token_def generate_download_token_for_expiry_def
    generate_scoped_token_def update_delivery_log_status_def mark_delivery_log_processing_def decrement_user_storage_usage_def
    assert_non_negative_storage_delta_def create_attachment_def create_privacy_view_url_def create_delivery_view_link_def
    generate_delivery_view_token_for_expiry_def insert_delivery_attempt_def refund_accepted_email_def decrement_user_usage_month_def
    mark_alias_first_delivered_def with_bounded_transaction_def Let_def
  by (intro emits_rules)+

lemma emits_repair [emits_rules]:
  "emits G (repair_chat_migration api oldC newC meta)"
  unfolding repair_chat_migration_def fetch_chat_meta_def with_chat_migration_lock_def rekey_body_def register_new_chat_def
    upsert_chat_def repoint_stmt_def insert_alias_move_event_def deactivate_chat_def
  by (intro emits_rules)

lemma emits_prepare: "emits no_request (prepare_delivery job)"
proof -
  have "emits no_request (store_attachments job atts acc)" for atts acc
    by (induction atts arbitrary: acc)
      (auto intro!: emits_rules simp: store_attachment_def release_attachment_def offer_attachment_def swallow_def Let_def)
  then show ?thesis
    unfolding prepare_delivery_def render_prepared_def build_privacy_mode_message_def Let_def by (intro emits_rules)
qed

lemma emits_migrated_text [emits_rules]:
  "emits (to_target tgt) (repair_quietly o' n)" "emits (to_target tgt) (abort_attempt_for_migration job route newC)"
  unfolding repair_quietly_def abort_attempt_for_migration_def by (auto intro!: emits_rules simp: to_target_def)

lemma emits_to_route: "emits (to_target route) (deliver_to_route job p route)"
proof -
  have msg: "emits (to_target route) (send_telegram_message opts)" if "so_target opts = route" for opts
    using that by (intro emits_rules) simp_all
  have o': "so_target (text_options job p route) = route" "so_target (fallback_options route ls) = route" for ls
    by (simp_all add: text_options_def fallback_options_def)
  show ?thesis
    unfolding deliver_to_route_def deliver_photos_def send_photo_fallback_def after_failed_text_def persist_outcome_def Let_def
    by (intro emits_rules msg o') (simp add: to_target_def)
qed

text \<open>Events that depend on what the database holds at the start.\<close>

definition emits_on :: "(db \<Rightarrow> bool) \<Rightarrow> (event \<Rightarrow> bool) \<Rightarrow> 'a io \<Rightarrow> bool" where
  "emits_on P G m \<longleftrightarrow>
     (\<forall>e w. P (w_db w) \<longrightarrow> (\<exists>es. w_trace (snd (m e w)) = w_trace w @ es \<and> (\<forall>v\<in>set es. G v)))"

lemma emits_on_weaken: "emits G m \<Longrightarrow> emits_on P G m"
  by (simp add: emits_def emits_on_def)

lemma emits_on_bind:
  assumes "emits_on P G m" and "keeps P m" and "\<And>a. emits_on P G (f a)"
  shows "emits_on P G (bind m f)"
  unfolding emits_on_def
proof (intro allI impI)
  fix e :: env and w :: world assume P: "P (w_db w)"
  obtain r w1 where m: "m e w = (r, w1)" by fastforce
  have P1: "P (w_db w1)" using keepsD [OF assms(2) P, of e] m by simp
  obtain es where es: "w_trace w1 = w_trace w @ es" "\<forall>v\<in>set es. G v" using assms(1) P m unfolding emits_on_def by (metis snd_conv)
  show "\<exists>es. w_trace (snd (bind m f e w)) = w_trace w @ es \<and> (\<forall>v\<in>set es. G v)"
  proof (cases r)
    case (Inl x)
    with m es show ?thesis by (auto simp: bind_def)
  next
    case (Inr a)
    obtain es' where "w_trace (snd (f a e w1)) = w_trace w1 @ es'" "\<forall>v\<in>set es'. G v"
      using assms(3) P1 unfolding emits_on_def by blast
    with m es Inr show ?thesis by (intro exI [of _ "es @ es'"]) (auto simp: bind_def)
  qed
qed

lemma emits_on_catch:
  assumes "emits_on P G m" and "\<And>x. emits G (h x)"
  shows "emits_on P G (catch m h)"
  unfolding emits_on_def
proof (intro allI impI)
  fix e :: env and w :: world assume P: "P (w_db w)"
  obtain r w1 where m: "m e w = (r, w1)" by fastforce
  obtain es where es: "w_trace w1 = w_trace w @ es" "\<forall>v\<in>set es. G v" using assms(1) P m unfolding emits_on_def by (metis snd_conv)
  show "\<exists>es. w_trace (snd (catch m h e w)) = w_trace w @ es \<and> (\<forall>v\<in>set es. G v)"
  proof (cases r)
    case (Inl x)
    obtain es' where "w_trace (snd (h x e w1)) = w_trace w1 @ es'" "\<forall>v\<in>set es'. G v" using emitsE [OF assms(2)] by blast
    with m es Inl show ?thesis by (intro exI [of _ "es @ es'"]) (auto simp: catch_def)
  next
    case (Inr a)
    with m es show ?thesis by (auto simp: catch_def)
  qed
qed

lemma emits_on_if: "(b \<Longrightarrow> emits_on P G m) \<Longrightarrow> (\<not> b \<Longrightarrow> emits_on P G n) \<Longrightarrow> emits_on P G (if b then m else n)"
  by simp

lemma emits_on_case_option:
  "(v = None \<Longrightarrow> emits_on P G m) \<Longrightarrow> (\<And>x. v = Some x \<Longrightarrow> emits_on P G (f x)) \<Longrightarrow>
   emits_on P G (case v of None \<Rightarrow> m | Some x \<Rightarrow> f x)"
  by (cases v) auto

text \<open>The read of the route: what follows knows the alias that was read.\<close>

lemma emits_on_route:
  assumes "\<And>v. emits_on P G (f (Inl v))"
    and "\<And>al. find_alias_by_id i A = Some al \<Longrightarrow> al_status al = Active \<Longrightarrow>
      emits_on P G (f (Inr (al, \<lparr> tgt_chat = al_chatId al, tgt_thread = al_messageThreadId al \<rparr>)))"
    and "\<And>d. P d \<Longrightarrow> find_alias_by_id i d = find_alias_by_id i A"
  shows "emits_on P G (bind (read_attempt_route i) f)"
  unfolding emits_on_def
proof (intro allI impI)
  fix e :: env and w :: world assume P: "P (w_db w)"
  obtain r w1 where m: "read_attempt_route i e w = (r, w1)" by fastforce
  have k: "P (w_db w1)" using keepsD [where I = P, OF keeps_read_route P] m by (metis snd_conv)
  have t: "w_trace w1 = w_trace w" using emitsE [OF emits_read_route [where G = "\<lambda>_. False"], of i e w] m by auto
  show "\<exists>es. w_trace (snd (bind (read_attempt_route i) f e w)) = w_trace w @ es \<and> (\<forall>v\<in>set es. G v)"
  proof (cases r)
    case (Inl x)
    with m t show ?thesis by (simp add: bind_def)
  next
    case (Inr q)
    have "emits_on P G (f q)"
    proof (cases q)
      case (Inl v)
      then show ?thesis by (simp add: assms(1))
    next
      case (Inr ar)
      obtain al route where ar: "ar = (al, route)" by fastforce
      with m \<open>r = Inr q\<close> Inr have "read_attempt_route i e w = (Inr (Inr (al, route)), w1)" by simp
      from read_attempt_route_Inr [OF this] assms(2) assms(3) [OF P] show ?thesis by (simp add: Inr ar)
    qed
    then obtain es where "w_trace (snd (f q e w1)) = w_trace w1 @ es" "\<forall>v\<in>set es. G v" using k unfolding emits_on_def by blast
    with m t Inr show ?thesis by (intro exI [of _ es]) (simp add: bind_def)
  qed
qed

definition route_events :: "queued_email \<Rightarrow> db \<Rightarrow> event \<Rightarrow> bool" where
  "route_events job d v \<longleftrightarrow>
     (\<forall>rq. v = Requested rq \<longrightarrow> (\<exists>al. find_alias_by_id (al_id (qe_alias job)) d = Some al \<and> still_deliverable (qe_alias job) (Some al) \<and>
        request_target rq = \<lparr> tgt_chat = al_chatId al, tgt_thread = al_messageThreadId al \<rparr>))"

lemma emits_on_deliver:
  "emits_on (\<lambda>d. aliases d = aliases A) (route_events job A) (deliver_queued_email api job)"
proof -
  let ?P = "\<lambda>d. aliases d = aliases A" and ?G = "route_events job A"
  have quiet: "emits ?G m" if "emits no_request m" for m :: "'b io"
    using that by (rule emits_mono) (simp add: route_events_def no_request_def)
  have k: "keeps ?P (transaction (prepare_delivery job))" by (intro keeps_rules keeps_prepare keeps_status_write) simp_all
  have prep: "emits ?G (transaction (prepare_delivery job))" by (intro quiet emits_rules emits_prepare)
  have re: "emits ?G (transaction (recheck_alias job))" unfolding recheck_alias_def by (intro emits_rules)
  have rk: "keeps ?P (transaction (recheck_alias job))" by (intro keeps_rules)
  have route: "emits_on ?P ?G (bind (read_attempt_route (al_id (qe_alias job))) (\<lambda>attemptRoute. case attemptRoute of
       Inl _ \<Rightarrow> ret (rejected_for UserDeleted)
     | Inr (cur, route) \<Rightarrow> if al_createdBy cur \<noteq> al_createdBy (qe_alias job) then ret (rejected_for UserDeleted)
          else deliver_to_route job p route))" for p
  proof (rule emits_on_route [where A = A])
    fix al assume al: "find_alias_by_id (al_id (qe_alias job)) A = Some al" "al_status al = Active"
    let ?r = "\<lparr> tgt_chat = al_chatId al, tgt_thread = al_messageThreadId al \<rparr>"
    have "emits ?G (deliver_to_route job p ?r)" if "al_createdBy al = al_createdBy (qe_alias job)"
      using that al by (intro emits_mono [OF emits_to_route]) (auto simp: route_events_def still_deliverable_def)
    then show "emits_on ?P ?G (case Inr (al, ?r) of Inl x \<Rightarrow> ret (rejected_for UserDeleted)
        | Inr (cur, route) \<Rightarrow> if al_createdBy cur \<noteq> al_createdBy (qe_alias job) then ret (rejected_for UserDeleted)
             else deliver_to_route job p route)"
      by (auto intro!: emits_on_weaken emits_rules)
  qed (simp_all add: find_alias_by_id_def emits_on_weaken emits_rules)
  have "emits_on ?P ?G (deliver_prepared job p)" for p
    unfolding deliver_prepared_def
    by (intro emits_on_bind [OF emits_on_weaken [OF re] rk] emits_on_if emits_on_weaken [OF emits_ret] route)
  then show ?thesis
    unfolding deliver_queued_email_def
    by (intro emits_on_catch emits_on_bind emits_on_case_option emits_on_if emits_on_weaken [OF prep] k emits_on_weaken [OF emits_ret] emits_rules)
qed

text \<open>C6: An email never splits across chats: whatever happens during a delivery (retries, the photo batch, the
  fallback for refused photos, a migration in the middle), every request goes to one destination, the
  chat and topic of the alias, which is active and still belongs to the owner the email was accepted
  for; without such an alias nothing is sent at all.\<close>

theorem delivery_has_one_destination:
  assumes "deliver_queued_email api job e w = (r, w')"
  shows "\<exists>es. w_trace w' = w_trace w @ es \<and>
    (\<forall>rq. Requested rq \<in> set es \<longrightarrow>
      (\<exists>al. find_alias_by_id (al_id (qe_alias job)) (w_db w) = Some al \<and> al_status al = Active \<and>
         al_createdBy al = al_createdBy (qe_alias job) \<and>
         request_target rq = \<lparr> tgt_chat = al_chatId al, tgt_thread = al_messageThreadId al \<rparr>))"
proof -
  obtain es where "w_trace w' = w_trace w @ es" "\<forall>v\<in>set es. route_events job (w_db w) v"
    using emits_on_deliver [of "w_db w" job api] assms unfolding emits_on_def by (metis snd_conv)
  then show ?thesis by (auto simp: route_events_def still_deliverable_def)
qed

section \<open>The outcome of a delivery\<close>

definition status_of :: "uuid \<Rightarrow> db \<Rightarrow> delivery_status option" where
  "status_of i d = map_option dl_finalStatus (find_delivery_log_by_id i d)"

lemma status_of_frames [simp]:
  "status_of i (d\<lparr>chats := x1\<rparr>) = status_of i d" "status_of i (d\<lparr>aliases := x2\<rparr>) = status_of i d"
  "status_of i (d\<lparr>aliasMoveEvents := x3\<rparr>) = status_of i d" "status_of i (d\<lparr>attachmentLinks := x4\<rparr>) = status_of i d"
  "status_of i (d\<lparr>userUsageMonths := x5\<rparr>) = status_of i d" "status_of i (d\<lparr>aliasActivation := x6\<rparr>) = status_of i d"
  "status_of i (d\<lparr>deliveryAttempts := x7\<rparr>) = status_of i d"
  by (simp_all add: status_of_def find_delivery_log_by_id_def)

lemma status_of_set:
  "status_of i (set_log i (\<lambda>l. l\<lparr>dl_finalStatus := s\<rparr>) d) = map_option (\<lambda>_. s) (status_of i d)"
  by (simp add: status_of_def find_delivery_log_by_id_def set_log_def select_first_update option.map_comp comp_def)
    (cases "select_first (\<lambda>l. dl_id l = i) (deliveryLogs d)"; auto dest: select_first_Some)

text \<open>What holds of the database while an attempt on the log runs: the log exists, no usage was refunded.\<close>

definition attempting :: "uuid \<Rightarrow> usage_row list \<Rightarrow> db \<Rightarrow> bool" where
  "attempting i U d \<longleftrightarrow> status_of i d \<noteq> None \<and> userUsageMonths d = U"

lemma attempting_frames [simp]:
  "attempting i U (d\<lparr>chats := x1\<rparr>) = attempting i U d" "attempting i U (d\<lparr>aliases := x2\<rparr>) = attempting i U d"
  "attempting i U (d\<lparr>aliasMoveEvents := x3\<rparr>) = attempting i U d" "attempting i U (d\<lparr>attachmentLinks := x4\<rparr>) = attempting i U d"
  "attempting i U (d\<lparr>aliasActivation := x6\<rparr>) = attempting i U d" "attempting i U (d\<lparr>deliveryAttempts := x7\<rparr>) = attempting i U d"
  by (simp_all add: attempting_def)

lemma attempting_set: "attempting i U (set_log i (\<lambda>l. l\<lparr>dl_finalStatus := s\<rparr>) d) = attempting i U d"
proof -
  have "userUsageMonths (set_log i (\<lambda>l. l\<lparr>dl_finalStatus := s\<rparr>) d) = userUsageMonths d" by (simp add: set_log_def)
  then show ?thesis by (simp add: attempting_def status_of_set)
qed

lemma keeps_attempting_status [keeps_rules]: "keeps (attempting i U) (update_delivery_log_status i s)"
  unfolding update_delivery_log_status_def by (intro keeps_db_write) (simp add: attempting_set)

lemma keeps_attempt:
  assumes "\<And>d x. I (d\<lparr>deliveryAttempts := x\<rparr>) = I d"
  shows "keeps I (insert_delivery_attempt a)"
  unfolding insert_delivery_attempt_def by (intro keeps_db_stmt) (auto simp: add_attempt_def assms split: if_splits)

lemma open_persist [open_rules]: "stays_open (bind (insert_delivery_attempt a) (\<lambda>_. update_delivery_log_status i s))"
  unfolding insert_delivery_attempt_def update_delivery_log_status_def by (intro open_rules)

text \<open>When the outcome is stored, it is stored completely, also when an earlier try lost its
  acknowledgement.\<close>

lemma persist_outcome_Inr:
  assumes "persist_outcome i a s e w = (Inr u, w')" and "w_tx w = NoTx" and "attempting i U (w_db w)"
  shows "status_of i (w_db w') = Some s \<and> attempting i U (w_db w') \<and> attempt_recorded a (w_db w') \<and> w_tx w' = NoTx"
proof -
  let ?b = "bind (insert_delivery_attempt a) (\<lambda>_. update_delivery_log_status i s)"
  let ?P = "\<lambda>v. w_tx v = NoTx \<and> attempting i U (w_db v)"
  have k: "keeps (attempting i U) (transaction ?b)" by (intro keeps_rules keeps_attempt) simp
  have "\<exists>v. ?P v \<and> transaction ?b e v = (Inr u, w')"
  proof (rule retry_async_Inr [where P = ?P, OF assms(1) [unfolded persist_outcome_def]])
    fix v y v' assume "?P v" "transaction ?b e v = (Inl y, v')"
    then show "?P v'" using keepsD [OF k, of v e] settledD [OF settled_transaction, of v ?b e] by simp
  qed (use assms in simp)
  then obtain v where v: "attempting i U (w_db v)" "transaction ?b e v = (Inr u, w')" by blast
  obtain w2 where w2: "?b e (begin_tx e v) = (Inr u, w2)" "w_db w' = w_db w2" "w_tx w' = NoTx"
    by (rule transaction_open_InrD [OF v(2) open_persist]) blast
  then obtain t where d: "w_db w' = set_log i (\<lambda>l. l\<lparr>dl_finalStatus := s\<rparr>) (add_attempt (a\<lparr>da_createdAt := t\<rparr>) (w_db v))"
    by (auto simp: bind_Inr insert_delivery_attempt_def update_delivery_log_status_def db_stmt_Inr db_write_Inr)
  have a: "attempting i U (add_attempt (a\<lparr>da_createdAt := t\<rparr>) (w_db v))" using v(1) by (simp add: add_attempt_def)
  have "deliveryAttempts (w_db w') = deliveryAttempts (add_attempt (a\<lparr>da_createdAt := t\<rparr>) (w_db v))" by (simp add: d set_log_def)
  then have "attempt_recorded a (w_db w')" by (auto simp: attempt_recorded_def add_attempt_def list_ex_iff)
  moreover have "status_of i (w_db w') = Some s" using a by (auto simp: d status_of_set attempting_def)
  moreover have "attempting i U (w_db w')" using a by (simp add: d attempting_set)
  ultimately show ?thesis using w2(3) by simp
qed

text \<open>\<open>none_keeps I m\<close>: unless \<open>m\<close> returns a result, it keeps \<open>I\<close>.\<close>

definition none_keeps :: "(db \<Rightarrow> bool) \<Rightarrow> 'a option io \<Rightarrow> bool" where
  "none_keeps I m \<longleftrightarrow> (\<forall>e w. I (w_db w) \<longrightarrow> (\<forall>r. fst (m e w) \<noteq> Inr (Some r)) \<longrightarrow> I (w_db (snd (m e w))))"

named_theorems none_rules \<open>computations that keep an invariant unless they return a result\<close>

lemma none_ret [none_rules]: "none_keeps I (ret v)"
  and none_keeps_keeps: "keeps I m \<Longrightarrow> none_keeps I m"
  by (simp_all add: none_keeps_def ret_def keeps_def)

lemma none_bind [none_rules]: "keeps I m \<Longrightarrow> (\<And>a. none_keeps I (f a)) \<Longrightarrow> none_keeps I (bind m f)"
  unfolding none_keeps_def keeps_def bind_def by (auto split: prod.splits sum.splits) (metis fst_conv snd_conv)+

lemma none_if [none_rules]: "(b \<Longrightarrow> none_keeps I m) \<Longrightarrow> (\<not> b \<Longrightarrow> none_keeps I n) \<Longrightarrow> none_keeps I (if b then m else n)"
  by simp

lemma none_case_option [none_rules]:
  "(v = None \<Longrightarrow> none_keeps I m) \<Longrightarrow> (\<And>x. v = Some x \<Longrightarrow> none_keeps I (f x)) \<Longrightarrow>
   none_keeps I (case v of None \<Rightarrow> m | Some x \<Rightarrow> f x)"
  by (cases v) auto

lemma none_catch: "none_keeps I m \<Longrightarrow> none_keeps I (catch m (\<lambda>_. ret None))"
  unfolding none_keeps_def
proof (intro allI impI)
  fix e :: env and w :: world
  assume m: "\<forall>e w. I (w_db w) \<longrightarrow> (\<forall>r. fst (m e w) \<noteq> Inr (Some r)) \<longrightarrow> I (w_db (snd (m e w)))"
    and "I (w_db w)" and "\<forall>r. fst (catch m (\<lambda>_. ret None) e w) \<noteq> Inr (Some r)"
  then show "I (w_db (snd (catch m (\<lambda>_. ret None) e w)))"
    using m [rule_format, of w e] by (cases "m e w"; cases "fst (m e w)") (auto simp: catch_def ret_def)
qed

lemma abort_returns: "fst (abort_attempt_for_migration job route c e w) = Inr (rejected_for ChatMigrated)"
proof -
  have "\<exists>w1. repair_quietly (tgt_chat route) c e w = (Inr (), w1)"
    unfolding repair_quietly_def using swallow_returns prod.exhaust_sel by (metis (no_types, lifting))
  then obtain w1 where a: "repair_quietly (tgt_chat route) c e w = (Inr (), w1)" by blast
  have "\<exists>w2. swallow (update_delivery_log_status (dl_id (qe_deliveryLog job)) Failed) e w1 = (Inr (), w2)"
    using swallow_returns prod.exhaust_sel by (metis (no_types, lifting))
  then show ?thesis using a by (auto simp: abort_attempt_for_migration_def bind_def ret_def)
qed

lemma none_abort [none_rules]: "none_keeps I (bind (abort_attempt_for_migration job route c) (\<lambda>r. ret (Some r)))"
  unfolding none_keeps_def
proof (intro allI impI)
  fix e w assume "\<forall>r. fst (bind (abort_attempt_for_migration job route c) (\<lambda>r. ret (Some r)) e w) \<noteq> Inr (Some r)"
  then show "I (w_db (snd (bind (abort_attempt_for_migration job route c) (\<lambda>r. ret (Some r)) e w)))"
    using abort_returns [of job route c e w]
    by (cases "abort_attempt_for_migration job route c e w") (auto simp: bind_def ret_def)
qed

lemma photos_keep:
  assumes "\<And>d x. I (d\<lparr>attachmentLinks := x\<rparr>) = I d"
  shows "none_keeps I (deliver_photos job p route replyTo)"
proof -
  have "none_keeps I (send_photo_fallback job p route ps)" for ps
    unfolding send_photo_fallback_def Let_def by (intro none_rules keeps_rules keeps_download_link assms)
  then show ?thesis
    unfolding deliver_photos_def by (intro none_rules none_catch keeps_rules)
qed

lemma photos_result:
  assumes "deliver_photos job p route replyTo e w = (r, w')"
  shows "r = Inr None \<or> r = Inr (Some (rejected_for ChatMigrated))"
proof -
  have ab: "fst (bind (abort_attempt_for_migration job route c) (\<lambda>r. ret (Some r)) e v) = Inr (Some (rejected_for ChatMigrated))" for c v
    using abort_returns [of job route c e v] by (cases "abort_attempt_for_migration job route c e v") (auto simp: bind_def ret_def)
  have fb: "x = None \<or> x = Some (rejected_for ChatMigrated)" if "send_photo_fallback job p route ps e v = (Inr x, v')" for ps v v' x
    using that ab unfolding send_photo_fallback_def Let_def bind_Inr [of "for_map _ _"] bind_Inr [of "send_telegram_message _"]
    by (auto simp: ret_Inr split: if_splits option.splits) (metis fst_conv sum.inject(2))+
  have body: "x = None \<or> x = Some (rejected_for ChatMigrated)"
    if "bind (send_telegram_photos route replyTo ps) (\<lambda>photoResult.
           case (case ps_failure photoResult of None \<Rightarrow> None | Some f \<Rightarrow> sf_migrateToChatId f) of
             Some newChat \<Rightarrow> bind (abort_attempt_for_migration job route newChat) (\<lambda>r. ret (Some r))
           | None \<Rightarrow> if 0 < length (ps_failedPhotos photoResult)
                     then send_photo_fallback job p route (ps_failedPhotos photoResult) else ret None) e v = (Inr x, v')" for ps v v' x
    using that ab fb unfolding bind_Inr [of "send_telegram_photos _ _ _"]
    by (auto simp: ret_Inr split: if_splits option.splits) (metis fst_conv sum.inject(2))+
  show ?thesis
    using assms body by (auto simp: deliver_photos_def catch_def ret_def split: if_splits prod.splits sum.splits)
qed

lemma settled_send [settled_rules]: "settled (send_telegram_message opts)"
proof -
  have l: "settled (send_loop r n k f)" for r n k f
    by (induction k arbitrary: n f) (auto simp: call_telegram_def Let_def intro!: settled_rules)
  have r: "settled rich_unavailable" "settled (set_rich_unavailable b)" for b
    by (simp_all add: settled_def rich_unavailable_def set_rich_unavailable_def)
  show ?thesis
    unfolding send_telegram_message_def send_classic_telegram_message_def send_rich_telegram_message_def send_with_retries_def
    by (intro settled_rules l r)
qed

text \<open>The answer of Telegram that a result reports.\<close>

definition text_answer :: "env \<Rightarrow> event list \<Rightarrow> send_result \<Rightarrow> bool" where
  "text_answer e es out \<longleftrightarrow>
     (\<exists>rq t. Requested rq \<in> set es \<and>
        (case telegram e t rq of Inr msg \<Rightarrow> out = sent msg | Inl err \<Rightarrow> out = not_sent (Some (describe_send_error err))))"

lemma text_answer_more: "text_answer e es out \<Longrightarrow> text_answer e (xs @ es @ ys) out"
  unfolding text_answer_def by auto

lemma send_answer:
  assumes "send_telegram_message opts e w = (res, w')"
  shows "\<exists>es out. w_trace w' = w_trace w @ es \<and> res = Inr out \<and> text_answer e es out \<and> w_db w' = w_db w"
proof -
  obtain i j out t r where s: "w_trace w' = w_trace w @ replicate i (Requested (rich_request opts)) @ replicate j (Requested (classic_request opts))"
     "1 \<le> i + j" "res = Inr out" "r = (if j = 0 then rich_request opts else classic_request opts)"
     "case telegram e t r of Inr msg \<Rightarrow> out = sent msg | Inl err \<Rightarrow> out = not_sent (Some (describe_send_error err))"
    using send_message_run [OF assms] by blast
  have "Requested r \<in> set (replicate i (Requested (rich_request opts)) @ replicate j (Requested (classic_request opts)))"
    using s(2,4) by (cases j) auto
  moreover have "w_db w' = w_db w" using keepsD [OF keeps_send_message, of "\<lambda>d. d = w_db w" w opts e] assms by simp
  ultimately show ?thesis using s(1,3,5) unfolding text_answer_def by blast
qed

definition attempted :: "uuid \<Rightarrow> usage_row list \<Rightarrow> attempt_row \<Rightarrow> db \<Rightarrow> bool" where
  "attempted i U a d \<longleftrightarrow> attempting i U d \<and> attempt_recorded a d"

lemma attempted_frames [simp]:
  "attempted i U a (d\<lparr>chats := x1\<rparr>) = attempted i U a d" "attempted i U a (d\<lparr>aliases := x2\<rparr>) = attempted i U a d"
  "attempted i U a (d\<lparr>aliasMoveEvents := x3\<rparr>) = attempted i U a d" "attempted i U a (d\<lparr>attachmentLinks := x4\<rparr>) = attempted i U a d"
  "attempted i U a (d\<lparr>aliasActivation := x6\<rparr>) = attempted i U a d"
  by (simp_all add: attempted_def attempt_recorded_def)

lemma keeps_attempted_status: "keeps (attempted i U a) (update_delivery_log_status i s)"
  unfolding update_delivery_log_status_def
proof (intro keeps_db_write)
  fix d assume "attempted i U a d"
  moreover have "deliveryAttempts (set_log i (\<lambda>l. l\<lparr>dl_finalStatus := s\<rparr>) d) = deliveryAttempts d" by (simp add: set_log_def)
  ultimately show "attempted i U a (set_log i (\<lambda>l. l\<lparr>dl_finalStatus := s\<rparr>) d)"
    by (simp add: attempted_def attempting_set attempt_recorded_def)
qed

lemma keeps_photos: "keeps (attempted (dl_id (qe_deliveryLog job)) U a) (deliver_photos job p route replyTo)"
  unfolding deliver_photos_def send_photo_fallback_def abort_attempt_for_migration_def repair_quietly_def Let_def
  by (intro keeps_rules keeps_download_link keeps_repair keeps_attempted_status) simp_all

lemma after_failed_text_Inr:
  assumes "after_failed_text job route out e w = (Inr r, w')" and "attempted i U a (w_db w)" and "status_of i (w_db w) = Some s"
  shows "r = rejected_for SendFailed \<and> status_of i (w_db w') = Some s \<and> attempt_recorded a (w_db w') \<and>
    (failed_status out = Failed \<longrightarrow> userUsageMonths (w_db w') = U)"
proof -
  let ?I = "\<lambda>d. status_of i d = Some s \<and> attempt_recorded a d" and ?U = "\<lambda>d. userUsageMonths d = U"
  have rec: "attempt_recorded a (d\<lparr>userUsageMonths := x\<rparr>) = attempt_recorded a d" "attempt_recorded a (d\<lparr>chats := x2\<rparr>) = attempt_recorded a d"
    "attempt_recorded a (d\<lparr>aliases := x3\<rparr>) = attempt_recorded a d" "attempt_recorded a (d\<lparr>aliasMoveEvents := x4\<rparr>) = attempt_recorded a d" for d x x2 x3 x4
    by (simp_all add: attempt_recorded_def)
  have dec: "keeps ?I (decrement_user_usage_month u m x y z)" for u m x y z
    unfolding decrement_user_usage_month_def by (intro keeps_rules keeps_db_stmt) (auto simp: lower_usage_def rec)
  have "keeps ?I (after_failed_text job route out)"
    unfolding after_failed_text_def refund_accepted_email_def repair_quietly_def Let_def
    by (intro keeps_rules dec keeps_repair) (simp_all add: rec)
  then have "?I (w_db w')" using keepsD [of ?I _ w e] assms by (fastforce simp: attempted_def)
  moreover have "userUsageMonths (w_db w') = U" if f: "failed_status out = Failed"
  proof -
    have "keeps ?U (after_failed_text job route out)"
      unfolding after_failed_text_def repair_quietly_def by (intro keeps_rules keeps_repair) (use f in simp_all)
    then show ?thesis using keepsD [of ?U _ w e] assms by (fastforce simp: attempted_def attempting_def)
  qed
  moreover have "r = rejected_for SendFailed"
    using assms(1) unfolding after_failed_text_def bind_Inr ret_Inr by blast
  ultimately show ?thesis by blast
qed

definition text_attempt :: "queued_email \<Rightarrow> send_target \<Rightarrow> send_result \<Rightarrow> attempt_row" where
  "text_attempt job route out = attempt_for (dl_id (qe_deliveryLog job)) 1 route out"

text \<open>The four ways a delivery returns.\<close>

definition delivery_ended :: "env \<Rightarrow> queued_email \<Rightarrow> db \<Rightarrow> pipeline_result \<Rightarrow> event list \<Rightarrow> db \<Rightarrow> bool" where
  "delivery_ended e job d r es d' \<longleftrightarrow>
     (let i = dl_id (qe_deliveryLog job)
      in (r = rejected_for UserDeleted \<and> list_all no_request es \<and> userUsageMonths d' = userUsageMonths d) \<or>
         (\<exists>route out. text_answer e es out \<and> attempt_recorded (text_attempt job route out) d' \<and>
            ((sr_ok out \<and> r = accepted \<and> status_of i d' = Some Delivered \<and> userUsageMonths d' = userUsageMonths d) \<or>
             (sr_ok out \<and> r = rejected_for ChatMigrated \<and> userUsageMonths d' = userUsageMonths d) \<or>
             (\<not> sr_ok out \<and> r = rejected_for SendFailed \<and> status_of i d' = Some (failed_status out) \<and>
                (failed_status out = Failed \<longrightarrow> userUsageMonths d' = userUsageMonths d)))))"

lemma to_route_Inr:
  assumes run: "deliver_to_route job p route e w = (Inr r, w')" and "w_tx w = NoTx"
    and K: "attempting (dl_id (qe_deliveryLog job)) U (w_db w)" and U: "U = userUsageMonths d"
    and tr: "w_trace w' = w_trace w @ es"
  shows "delivery_ended e job d r es (w_db w')"
proof -
  let ?i = "dl_id (qe_deliveryLog job)"
  obtain res w1 where s: "send_telegram_message (text_options job p route) e w = (res, w1)" by fastforce
  obtain es1 out where out: "w_trace w1 = w_trace w @ es1" "res = Inr out" "text_answer e es1 out" "w_db w1 = w_db w"
    using send_answer [OF s] by blast
  let ?a = "attempt_for ?i 1 route out"
  have t1: "w_tx w1 = NoTx" using settledD [OF settled_send assms(2), of "text_options job p route" e] s by simp
  let ?rest = "\<lambda>_::unit. if \<not> sr_ok out then after_failed_text job route out
        else bind (swallow (mark_alias_first_delivered (al_id (qe_alias job)))) (\<lambda>_.
             bind (deliver_photos job p route (sr_telegramMessageId out)) (\<lambda>aborted. ret (or_else aborted accepted)))"
  obtain u w2 where per: "persist_outcome ?i ?a (if sr_ok out then Delivered else failed_status out) e w1 = (Inr u, w2)"
    and rest: "?rest u e w2 = (Inr r, w')"
    using run s out(2) unfolding deliver_to_route_def Let_def by (auto simp: bind_Inr)
  have p: "status_of ?i (w_db w2) = Some (if sr_ok out then Delivered else failed_status out)" "attempted ?i U ?a (w_db w2)"
    using persist_outcome_Inr [OF per t1, of U] K out(4) by (auto simp: attempted_def)
  have "\<exists>es2. w_trace w' = w_trace w1 @ es2"
  proof -
    have "emits (\<lambda>_. True) (bind (persist_outcome ?i ?a (if sr_ok out then Delivered else failed_status out)) ?rest)"
      unfolding persist_outcome_def after_failed_text_def deliver_photos_def send_photo_fallback_def abort_attempt_for_migration_def
        repair_quietly_def Let_def
      by (intro emits_rules emits_photo_loop emits_mono [OF emits_send_photos]) simp_all
    moreover have "bind (persist_outcome ?i ?a (if sr_ok out then Delivered else failed_status out)) ?rest e w1 = (Inr r, w')"
      using per rest by (simp add: bind_def)
    ultimately show ?thesis unfolding emits_def by (metis snd_conv)
  qed
  then have ans: "text_answer e es out" using out(1,3) tr text_answer_more [of e es1 out "[]"] by auto
  show ?thesis
  proof (cases "sr_ok out")
    case False
    then show ?thesis using rest after_failed_text_Inr [of job route out e w2 r w' ?i U ?a] p ans U
      unfolding delivery_ended_def Let_def text_attempt_def by auto
  next
    case True
    then obtain v w3 aborted w4 where m: "swallow (mark_alias_first_delivered (al_id (qe_alias job))) e w2 = (Inr v, w3)"
      and ph: "deliver_photos job p route (sr_telegramMessageId out) e w3 = (Inr aborted, w4)"
      and r: "r = or_else aborted accepted" "w' = w4"
      using rest by (auto simp: bind_Inr ret_Inr)
    let ?D = "\<lambda>d. attempted ?i U ?a d \<and> status_of ?i d = Some Delivered"
    have "keeps ?D (swallow (mark_alias_first_delivered (al_id (qe_alias job))))" by (intro keeps_rules keeps_mark_first) simp
    then have D: "?D (w_db w3)" using keepsD [of ?D _ w2 e] p True m by fastforce
    have A: "attempted ?i U ?a (w_db w4)" using keepsD [OF keeps_photos, of job U ?a w3 p route _ e] D ph by (metis snd_conv)
    consider "aborted = None" | "aborted = Some (rejected_for ChatMigrated)" using photos_result [OF ph] by auto
    then show ?thesis
    proof cases
      case 1
      have "none_keeps ?D (deliver_photos job p route (sr_telegramMessageId out))" by (intro photos_keep) simp
      then have "?D (w_db w4)" using D ph 1 unfolding none_keeps_def by (metis fst_conv snd_conv option.distinct(1) sum.inject(2))
      then show ?thesis using 1 r True ans U unfolding delivery_ended_def Let_def text_attempt_def
        by (auto simp: attempted_def attempting_def)
    next
      case 2
      then show ?thesis using A r True ans U unfolding delivery_ended_def Let_def text_attempt_def
        by (auto simp: attempted_def attempting_def)
    qed
  qed
qed

lemma keeps_attempting_prepare: "keeps (attempting (dl_id (qe_deliveryLog job)) U) (transaction (prepare_delivery job))"
proof -
  let ?i = "dl_id (qe_deliveryLog job)"
  have frames: "attempting ?i U (d\<lparr>deliveryViewLinks := x1\<rparr>) = attempting ?i U d" "attempting ?i U (d\<lparr>userStorageUsage := x2\<rparr>) = attempting ?i U d"
    "attempting ?i U (d\<lparr>attachments := x3\<rparr>) = attempting ?i U d" for d x1 x2 x3
    by (simp_all add: attempting_def status_of_def find_delivery_log_by_id_def)
  have "keeps (attempting ?i U) (mark_delivery_log_processing ?i)"
    unfolding mark_delivery_log_processing_def
  proof (intro keeps_rules keeps_db_write)
    fix t d assume "attempting ?i U d"
    then show "attempting ?i U (set_log ?i (\<lambda>l. l\<lparr>dl_finalStatus := Processing, dl_processingStartedAt := Some t\<rparr>) d)"
      by (simp add: attempting_def status_of_def find_delivery_log_by_id_def set_log_def select_first_update)
  qed
  then show ?thesis by (intro keeps_rules keeps_prepare) (simp_all add: frames)
qed


section \<open>A sample delivery\<close>

definition sample_job :: queued_email where
  "sample_job = \<lparr> qe_alias = sample_alias,
     qe_parsed = \<lparr> pe_messageId = None, pe_subject = Some ''Hi'', pe_envelopeFrom = None, pe_headerFrom = Some ''b@x.org'',
       pe_headerFromDisplay = Some ''b@x.org'', pe_headerFromEmail = Some ''b@x.org'', pe_headerFromDomain = Some ''x.org'',
       pe_textBody = Some ''Hello'', pe_htmlBody = None, pe_bodySha256 = None, pe_attachments = [], pe_rawSizeBytes = 5 \<rparr>,
     qe_deliveryLog = sample_log, qe_envelopeFrom = None, qe_publicBaseUrl = ''https://m'', qe_attachmentDir = ''/att'',
     qe_attachmentTtlHours = 24, qe_rawEmailTtlHours = 24, qe_telegramRichMessagesEnabled = True \<rparr>"

definition sample_world :: world where
  "sample_world = start_world (empty_db\<lparr>aliases := [sample_alias], deliveryLogs := [sample_log]\<rparr>)"


fun is_request :: "event \<Rightarrow> bool" where
  "is_request (Requested rq) = True"
| "is_request v = False"

lemma sample_run:
  "case deliver_queued_email True sample_job calm_env sample_world of (r, w') \<Rightarrow> r = Inr accepted \<and> list_ex is_request (w_trace w')"
  by code_simp

lemma sample_runE:
  obtains w' rq where "deliver_queued_email True sample_job calm_env sample_world = (Inr accepted, w')" "Requested rq \<in> set (w_trace w')"
  using sample_run by (auto simp: list_ex_iff elim!: is_request.elims)

lemma delivery_has_one_destination_witness:
  "\<exists>w' es rq. deliver_queued_email True sample_job calm_env sample_world = (Inr accepted, w') \<and> w_trace w' = w_trace sample_world @ es \<and>
     Requested rq \<in> set es \<and> request_target rq = \<lparr> tgt_chat = al_chatId sample_alias, tgt_thread = al_messageThreadId sample_alias \<rparr>"
proof -
  obtain w' rq where run: "deliver_queued_email True sample_job calm_env sample_world = (Inr accepted, w')" "Requested rq \<in> set (w_trace w')"
    by (rule sample_runE)
  obtain es where es: "w_trace w' = w_trace sample_world @ es" "\<forall>rq. Requested rq \<in> set es \<longrightarrow>
      (\<exists>al. find_alias_by_id (al_id (qe_alias sample_job)) (w_db sample_world) = Some al \<and>
         request_target rq = \<lparr> tgt_chat = al_chatId al, tgt_thread = al_messageThreadId al \<rparr>)"
    using delivery_has_one_destination [OF run(1)] by blast
  have "Requested rq \<in> set es" using es(1) run(2) by (simp add: sample_world_def)
  then show ?thesis using run(1) es by (auto simp: sample_world_def sample_job_def find_alias_by_id_def sample_alias_def)
qed


section \<open>A failed statement inside the preparation\<close>

text \<open>Two documents; the row of the second one is refused by the server.\<close>

definition two_documents :: "parsed_attachment list" where
  "two_documents = map (\<lambda>n. \<lparr> pa_filename = n, pa_contentType = ''application/pdf'', pa_sizeBytes = 3, pa_content = ''pdf'', pa_sha256 = ''h'' \<rparr>)
     [''a'', ''b'']"

definition documents_job :: queued_email where
  "documents_job = sample_job\<lparr> qe_parsed := (qe_parsed sample_job)\<lparr> pe_attachments := two_documents \<rparr> \<rparr>"

definition refusing_env :: env where
  "refusing_env = calm_env\<lparr> db_fault := (\<lambda>t. if t = 16 then Refused else Fine) \<rparr>"

lemma clean_parsed_attachments [simp]: "pe_attachments (clean_parsed q) = pe_attachments q"
  by (simp add: clean_parsed_def)

lemma transaction_aborted:
  assumes "db_fault e (w_tick w) = Fine" and "m e (begin_tx e w) = (Inr a, w2)" and "w_tx w2 = Aborted" and "db_fault e (w_tick w2) = Fine"
  shows "transaction m e w = (Inr a, w2\<lparr>w_tick := Suc (w_tick w2), w_tx := NoTx, w_db := w_db w\<rparr>)"
  using assms by (simp add: transaction_def begin_tx_def Let_def)

lemma documents_stored:
  assumes "w_tick w = 5" and "w_tx w = InTx" and "attachments (w_db w) = []" and "attachmentLinks (w_db w) = []"
  shows "\<exists>l w2. store_attachments documents_job two_documents \<lparr> sp_links = [], sp_images = [] \<rparr> refusing_env w =
      (Inr \<lparr> sp_links = [l], sp_images = [] \<rparr>, w2) \<and> li_filename l = ''a'' \<and> w_tx w2 = Aborted \<and> 16 < w_tick w2"
proof -
  have t: "dl_id sample_log = ''l1''" "al_createdBy sample_alias = 7" "\<not> al_privacyModeEnabled sample_alias"
    "\<not> is_inline_photo ''application/pdf'' (Some 3)"
    by (simp_all add: sample_log_def sample_alias_def) code_simp
  show ?thesis using assms
    by (simp add: two_documents_def documents_job_def sample_job_def refusing_env_def store_attachment_def attachment_path_def write_attachment_def write_file_def encrypt_buffer_for_storage_def
      create_attachment_def attachment_record_def offer_attachment_def download_link_def generate_download_token_def generate_download_token_for_expiry_def
      generate_scoped_token_def create_attachment_link_def add_attachment_link_def release_attachment_def delete_file_def try_io_def swallow_def
      decrement_user_storage_usage_def assert_non_negative_storage_delta_def step_simps db_stmt_def abort_def t Let_def)
qed


end
