(* ===== verification/Retry.thy ===== *)
theory Retry
  imports Deliver
begin

text \<open>
  The retry worker (\<open>src/email/retry.ts\<close>): one cycle first recovers received emails whose log was never
  written, then claims the logs that are due one after another and repeats their delivery.  Every
  repetition reads the alias, the file and the attachments again.  Failures that say nothing about
  the message or the chat do not count against its budget.
\<close>

section \<open>Constants and options\<close>

definition max_retries :: nat where "max_retries = 3"
definition stale_delivery_ms :: int where "stale_delivery_ms = 2 * 60 * 1000"
definition processing_stale_ms :: int where "processing_stale_ms = 10 * 60 * 1000"
definition pending_raw_min_age_ms :: int where "pending_raw_min_age_ms = 2 * 60 * 1000"

record retry_opts =
  ro_attachmentTtlHours :: int
  ro_rawEmailTtlHours :: int
  ro_publicBaseUrl :: string
  ro_attachmentDir :: string
  ro_rawEmailDir :: "string option"
  ro_telegramRichMessagesEnabled :: bool

definition should_delete_pending_raw_email :: "reject_reason option \<Rightarrow> bool" where
  "should_delete_pending_raw_email reason =
     (reason \<in> Some ` {DuplicateEmail, AliasNotFound, RejectedSender SenderNotAllowed, RejectedSender SenderAuthFailed,
        OverLimit SubscriptionInactive, OverLimit MonthlyEmailLimit, OverLimit MessageSizeLimit, OverLimit StorageLimit})"

section \<open>Closing a delivery\<close>

definition close_permanently_failed :: "log_row \<Rightarrow> unit io" where
  "close_permanently_failed log =
     bind (update_delivery_log_status (dl_id log) PermanentlyFailed) (\<lambda>_.
     bind (emit LostDelivery) (\<lambda>_.
     refund_accepted_email (dl_userId log) (dl_receivedAt log)))"

section \<open>The message of a repetition\<close>

definition retry_link :: "retry_opts \<Rightarrow> attachment_row \<Rightarrow> attachment_link io" where
  "retry_link opts att =
     download_link (ro_publicBaseUrl opts) (ro_attachmentTtlHours opts) (at_id att)
       (or_else (at_originalFilename att) ''attachment'') (or_else (at_sizeBytes att) 0)"

definition inline_attachment :: "attachment_row \<Rightarrow> bool" where
  "inline_attachment att = is_inline_photo (or_else (at_contentType att) []) (at_sizeBytes att)"

definition retry_photo :: "attachment_row \<Rightarrow> photo_item" where
  "retry_photo att =
     \<lparr> ph_id = at_id att, ph_storagePath = at_storagePath att, ph_filename = or_else (at_originalFilename att) ''attachment'',
       ph_encryption = at_encryption att \<rparr>"

definition build_privacy_retry_message :: "log_row \<Rightarrow> parsed_email \<Rightarrow> string \<Rightarrow> retry_opts \<Rightarrow> string io" where
  "build_privacy_retry_message log parsed aliasFullAddress opts =
     (if \<not> truthy (dl_rawEmailPath log) then throw (Thrown ''privacy mode requires a durable raw email path'')
      else bind (create_privacy_view_url (dl_id log) (ro_publicBaseUrl opts)
                   (dl_receivedAt log + ro_rawEmailTtlHours opts * 60 * 60 * 1000)) (\<lambda>viewUrl.
           ask (\<lambda>e. render_privacy_alert e parsed aliasFullAddress viewUrl (0 < length (pe_attachments parsed)))))"

text \<open>Parsing, links, rendering: the message for a route, with the stored attachments.\<close>

definition retry_message :: "log_row \<Rightarrow> alias_row \<Rightarrow> bytes \<Rightarrow> retry_opts \<Rightarrow> (send_target \<Rightarrow> send_options \<times> attachment_row list) io" where
  "retry_message log al rawEmail opts =
     bind (parse_email rawEmail (int (length rawEmail))) (\<lambda>parsed0.
     let parsed = clean_parsed parsed0
     in bind (db_read (list_attachments_by_delivery_log_id (dl_id log))) (\<lambda>stored.
        bind (if al_privacyModeEnabled al then ret []
              else for_map (filter (\<lambda>a. \<not> inline_attachment a) stored) (retry_link opts)) (\<lambda>links.
        if al_privacyModeEnabled al
        then bind (build_privacy_retry_message log parsed (al_fullAddress al) opts) (\<lambda>text.
             ret (\<lambda>route. (\<lparr> so_target = route, so_text = text, so_parseMode = Some ''HTML'', so_richHtml = None,
                             so_richMessagesEnabled = Some (ro_telegramRichMessagesEnabled opts) \<rparr>, stored)))
        else bind (ask (\<lambda>e. render_email_for_delivery (structured_email_html e) parsed
                     (normalize_render_mode (Some (al_renderMode al))) (al_fullAddress al) links)) (\<lambda>rendered.
             ret (\<lambda>route. (\<lparr> so_target = route, so_text = rd_text rendered, so_parseMode = rd_parseMode rendered,
                             so_richHtml = rd_richHtml rendered,
                             so_richMessagesEnabled = Some (ro_telegramRichMessagesEnabled opts) \<rparr>, stored))))))"

section \<open>Outcome of the text\<close>

text \<open>\<open>counted\<close> is the number of counted failures before this attempt.\<close>

definition retry_status :: "nat \<Rightarrow> send_result \<Rightarrow> delivery_status" where
  "retry_status counted result =
     (let disposition = (if sr_ok result then None else Some (retry_disposition_for_error (failure_arg result)));
          countedAfterSend = (if disposition = Some RetryCounted then counted + 1 else counted)
      in if sr_ok result then Delivered
         else if disposition = Some FailPermanently \<or> max_retries \<le> countedAfterSend then PermanentlyFailed
         else Failed)"

definition refund_if_lost :: "log_row \<Rightarrow> delivery_status \<Rightarrow> unit io" where
  "refund_if_lost log finalStatus =
     (if finalStatus = PermanentlyFailed
      then bind (emit LostDelivery) (\<lambda>_. refund_accepted_email (dl_userId log) (dl_receivedAt log)) else ret ())"

definition repair_if_migrated :: "send_target \<Rightarrow> send_result \<Rightarrow> unit io" where
  "repair_if_migrated route result =
     (case migrate_hint result of Some newChat \<Rightarrow> repair_quietly (tgt_chat route) newChat | None \<Rightarrow> ret ())"

section \<open>Photos of a repetition\<close>

definition abort_retry_for_migration :: "log_row \<Rightarrow> send_target \<Rightarrow> bigint \<Rightarrow> unit io" where
  "abort_retry_for_migration log route newChatId =
     bind (repair_quietly (tgt_chat route) newChatId) (\<lambda>_.
     swallow (update_delivery_log_status (dl_id log) Failed))"

definition retry_photo_fallback :: "log_row \<Rightarrow> retry_opts \<Rightarrow> attachment_row list \<Rightarrow> send_target \<Rightarrow> photo_item list \<Rightarrow> unit io" where
  "retry_photo_fallback log opts stored route failedPhotos =
     (let failedPaths = map ph_storagePath failedPhotos
      in bind (for_map (filter (\<lambda>a. is_image_content_type (or_else (at_contentType a) []) \<and> at_storagePath a \<in> set failedPaths) stored)
                (retry_link opts)) (\<lambda>fallbackLinks.
         bind (send_telegram_message (fallback_options route fallbackLinks)) (\<lambda>fallbackResult.
           if sr_ok fallbackResult then ret ()
           else case migrate_hint fallbackResult of
               None \<Rightarrow> ret ()
             | Some newChat \<Rightarrow> abort_retry_for_migration log route newChat)))"

definition retry_photos :: "log_row \<Rightarrow> alias_row \<Rightarrow> retry_opts \<Rightarrow> attachment_row list \<Rightarrow> send_target \<Rightarrow> int option \<Rightarrow> unit io" where
  "retry_photos log al opts stored route textMessageId =
     (let images = map retry_photo (filter inline_attachment stored)
      in if al_privacyModeEnabled al \<or> images = [] then ret ()
         else swallow (bind (send_telegram_photos route textMessageId images) (\<lambda>photoResult.
           case (case ps_failure photoResult of None \<Rightarrow> None | Some f \<Rightarrow> sf_migrateToChatId f) of
             Some newChat \<Rightarrow> abort_retry_for_migration log route newChat
           | None \<Rightarrow> if 0 < length (ps_failedPhotos photoResult)
                     then retry_photo_fallback log opts stored route (ps_failedPhotos photoResult) else ret ())))"

section \<open>One repetition\<close>

text \<open>The send and everything after it.\<close>

definition retry_send :: "log_row \<Rightarrow> alias_row \<Rightarrow> send_target \<Rightarrow> retry_opts \<Rightarrow> nat \<Rightarrow> nat \<Rightarrow> send_options \<Rightarrow> attachment_row list \<Rightarrow> unit io" where
  "retry_send log al route opts attempts counted message stored =
     bind (send_telegram_message message) (\<lambda>result.
     let finalStatus = retry_status counted result
     in bind (persist_outcome (dl_id log) (attempt_for (dl_id log) (int attempts + 1) route result) finalStatus) (\<lambda>_.
        bind (refund_if_lost log finalStatus) (\<lambda>_.
        bind (repair_if_migrated route result) (\<lambda>_.
          if sr_ok result
          then bind (swallow (mark_alias_first_delivered (dl_emailAddressId log))) (\<lambda>_.
               retry_photos log al opts stored route (sr_telegramMessageId result))
          else ret ()))))"

text \<open>\<open>attempts\<close> and \<open>counted\<close> have been read.\<close>

definition retry_within_budget :: "log_row \<Rightarrow> retry_opts \<Rightarrow> nat \<Rightarrow> nat \<Rightarrow> unit io" where
  "retry_within_budget log opts attempts counted =
     (if max_retries \<le> counted then close_permanently_failed log
      else bind (read_attempt_route (dl_emailAddressId log)) (\<lambda>attemptRoute.
        case attemptRoute of
          Inl _ \<Rightarrow> close_permanently_failed log
        | Inr (al, route) \<Rightarrow>
            bind (try_io (read_raw_email (the (dl_rawEmailPath log)) (Some (enc_mode (dl_rawEmailEncryption log)))
                    (enc_wrappedDek (dl_rawEmailEncryption log)) (enc_kekKeyId (dl_rawEmailEncryption log)))) (\<lambda>raw.
              case raw of
                Inl _ \<Rightarrow> close_permanently_failed log
              | Inr rawEmail \<Rightarrow>
                  bind (retry_message log al rawEmail opts) (\<lambda>compose.
                  retry_send log al route opts attempts counted (fst (compose route)) (snd (compose route))))))"

definition retry_delivery :: "log_row \<Rightarrow> retry_opts \<Rightarrow> unit io" where
  "retry_delivery log opts =
     (if \<not> truthy (dl_rawEmailPath log) then close_permanently_failed log
      else bind (db_read (count_attempts_by_log (dl_id log))) (\<lambda>attempts.
           bind (db_read (count_counted_failed_attempts_by_log (dl_id log) uncounted_retry_error_classes)) (\<lambda>counted.
           retry_within_budget log opts attempts counted)))"

section \<open>Emails without a log\<close>

definition pending_input :: "pending_raw \<Rightarrow> bytes \<Rightarrow> retry_opts \<Rightarrow> pipeline_input" where
  "pending_input p rawEmail opts =
     \<lparr> pi_rawEmail = rawEmail, pi_rawEmailPath = Some (pr_rawEmailPath p), pi_localPart = pr_localPart p,
       pi_recipientDomain = pr_recipientDomain p, pi_envelopeFrom = pr_envelopeFrom p, pi_publicBaseUrl = ro_publicBaseUrl opts,
       pi_rawEmailEncryption = Some \<lparr> enc_mode = (if pr_encryptionMode p = Some ''local-v1'' then ''local-v1'' else ''none''),
         enc_wrappedDek = pr_wrappedDek p, enc_kekKeyId = pr_kekKeyId p, enc_encryptedAt = None \<rparr>,
       pi_attachmentDir = ro_attachmentDir opts, pi_attachmentTtlHours = ro_attachmentTtlHours opts,
       pi_rawEmailTtlHours = ro_rawEmailTtlHours opts, pi_telegramRichMessagesEnabled = Some (ro_telegramRichMessagesEnabled opts) \<rparr>"

definition warn_if_near_limit :: "queued_email \<Rightarrow> string \<Rightarrow> int \<Rightarrow> unit io" where
  "warn_if_near_limit job month deliveredCount =
     (case dl_userId (qe_deliveryLog job) of
        None \<Rightarrow> ret ()
      | Some ownerId \<Rightarrow> notify_approaching_monthly_limit True ownerId month deliveredCount)"

text \<open>Queueing and delivering the email that was read.\<close>

definition queue_pending :: "pending_raw \<Rightarrow> bytes \<Rightarrow> retry_opts \<Rightarrow> unit io" where
  "queue_pending p rawEmail opts =
     bind (queue_inbound_email (pending_input p rawEmail opts)) (\<lambda>queued.
       case queued of
         NotQueued result \<Rightarrow>
           if should_delete_pending_raw_email (res_reason result)
           then bind (delete_pending_raw_email_meta (pr_rawEmailPath p)) (\<lambda>_. swallow (delete_file (pr_rawEmailPath p)))
           else ret ()
       | Queued job month deliveredCount \<Rightarrow>
           bind (delete_pending_raw_email_meta (pr_rawEmailPath p)) (\<lambda>_.
           bind (warn_if_near_limit job month deliveredCount) (\<lambda>_.
           bind (deliver_queued_email True job) (\<lambda>_. ret ()))))"

text \<open>One pending file; true: the run stops here.\<close>

definition recover_pending :: "pending_raw \<Rightarrow> retry_opts \<Rightarrow> bool io" where
  "recover_pending p opts =
     bind (db_read (find_delivery_log_by_raw_email_path (pr_rawEmailPath p))) (\<lambda>existingLog.
       if existingLog \<noteq> None then bind (delete_pending_raw_email_meta (pr_rawEmailPath p)) (\<lambda>_. ret False)
       else bind (try_io (read_raw_email (pr_rawEmailPath p) (pr_encryptionMode p) (pr_wrappedDek p) (pr_kekKeyId p))) (\<lambda>raw.
         case raw of
           Inl err \<Rightarrow> if err = NotFound then bind (delete_pending_raw_email_meta (pr_rawEmailPath p)) (\<lambda>_. ret False) else throw err
         | Inr rawEmail \<Rightarrow>
             bind (at_tick should_stop) (\<lambda>stop.
               if stop then ret True
               else bind (queue_pending p rawEmail opts) (\<lambda>_. ret False))))"

text \<open>A timestamp that cannot be read gives \<open>NaN\<close>, which is not less than anything.\<close>

definition too_young :: "instant \<Rightarrow> pending_raw \<Rightarrow> bool" where
  "too_young t p = (case pr_createdAt p of None \<Rightarrow> False | Some created \<Rightarrow> t - created < pending_raw_min_age_ms)"

fun recover_each :: "pending_raw list \<Rightarrow> retry_opts \<Rightarrow> unit io" where
  "recover_each [] opts = ret ()"
| "recover_each (p # ps) opts =
     bind (at_tick should_stop) (\<lambda>stop.
       if stop then ret ()
       else bind now (\<lambda>t.
         if too_young t p then recover_each ps opts
         else bind (catch (recover_pending p opts) (\<lambda>_. ret False)) (\<lambda>stopped.
           if stopped then ret () else recover_each ps opts)))"

definition recover_pending_raw_emails :: "retry_opts \<Rightarrow> unit io" where
  "recover_pending_raw_emails opts = bind list_pending_raw_emails (\<lambda>ps. recover_each ps opts)"

section \<open>The worker\<close>

definition retry_one :: "log_row \<Rightarrow> retry_opts \<Rightarrow> unit io" where
  "retry_one log opts =
     bind (at_tick (\<lambda>e t. pipeline_active e t (dl_id log))) (\<lambda>active.
       if active then ret ()
       else bind (claim_delivery_log_for_retry (dl_id log) default_claimable) (\<lambda>claimed.
         if \<not> claimed then ret ()
         else catch (retry_delivery log opts) (\<lambda>_. swallow (update_delivery_log_status (dl_id log) Failed))))"

fun retry_each :: "log_row list \<Rightarrow> retry_opts \<Rightarrow> unit io" where
  "retry_each [] opts = ret ()"
| "retry_each (log # logs) opts =
     bind (at_tick should_stop) (\<lambda>stop.
       if stop then ret () else bind (retry_one log opts) (\<lambda>_. retry_each logs opts))"

definition run_retry_worker :: "bool \<Rightarrow> retry_opts \<Rightarrow> unit io" where
  "run_retry_worker api opts =
     (if \<not> api then ret ()
      else bind (at_tick bot_healthy) (\<lambda>healthy.
        if \<not> healthy then ret ()
        else bind (if truthy (ro_rawEmailDir opts) then recover_pending_raw_emails opts else ret ()) (\<lambda>_.
             bind now (\<lambda>t.
             bind (db_read (find_logs_needing_retry (t - stale_delivery_ms) (t - processing_stale_ms))) (\<lambda>logs.
             retry_each logs opts)))))"

section \<open>What the parts touch\<close>

lemma same_db:
  assumes "\<And>I. keeps I m" and "m e w = (r, w')"
  shows "w_db w' = w_db w"
  using keepsD [where I = "\<lambda>d. d = w_db w", OF assms(1), of w e] assms(2) by simp

lemma same_trace:
  assumes "\<And>G. emits G m" and "m e w = (r, w')"
  shows "w_trace w' = w_trace w"
proof -
  have "emits (\<lambda>_. False) m" by (rule assms(1))
  from emitsE [OF this, of e w] assms(2) show ?thesis by auto
qed

lemma settled_run: "settled m \<Longrightarrow> w_tx w = NoTx \<Longrightarrow> m e w = (r, w') \<Longrightarrow> w_tx w' = NoTx"
  using settledD by (metis snd_conv)

lemma settled_raw [settled_rules]: "settled (read_raw_email p m wd kk)"
  unfolding read_raw_email_def by (intro settled_rules)

lemma settled_try [settled_rules]: "settled m \<Longrightarrow> settled (try_io m)"
  by (simp add: settled_def try_io_def)

lemma settled_route [settled_rules]: "settled (read_attempt_route i)"
  unfolding read_attempt_route_def by (intro settled_rules)

lemma settled_message: "settled (retry_message log al rawEmail opts)"
  unfolding retry_message_def retry_link_def download_link_def create_attachment_link_def generate_download_token_def
    generate_download_token_for_expiry_def generate_scoped_token_def build_privacy_retry_message_def create_privacy_view_url_def
    create_delivery_view_link_def generate_delivery_view_token_for_expiry_def parse_email_def Let_def
  by (intro settled_rules)

lemma keeps_message:
  assumes "\<And>d x. I (d\<lparr>attachmentLinks := x\<rparr>) = I d" "\<And>d x. I (d\<lparr>deliveryViewLinks := x\<rparr>) = I d"
  shows "keeps I (retry_message log al rawEmail opts)"
  unfolding retry_message_def retry_link_def build_privacy_retry_message_def parse_email_def Let_def
  by (intro keeps_rules keeps_download_link keeps_privacy_url assms)

lemma emits_retry_message [emits_rules]: "emits G (retry_message log al rawEmail opts)"
  unfolding retry_message_def retry_link_def build_privacy_retry_message_def parse_email_def Let_def by (intro emits_rules)

lemma emits_photos: "emits (to_target route) (retry_photos log al opts stored route v)"
  unfolding retry_photos_def retry_photo_fallback_def abort_retry_for_migration_def retry_link_def Let_def
  by (intro emits_rules) (simp_all add: fallback_options_def)

lemma message_target:
  "retry_message log al rawEmail opts e w = (Inr compose, w') \<Longrightarrow> so_target (fst (compose route)) = route"
  unfolding retry_message_def Let_def bind_Inr
  by (elim exE conjE) (auto simp: bind_Inr ret_Inr split: if_splits)

text \<open>What a repetition preserves once the attempt is on record: the row, the log and the charges.\<close>

lemma keeps_retry_photos:
  "keeps (\<lambda>d. attempted (dl_id log) U a d \<and> status_of (dl_id log) d \<in> {Some Delivered, Some Failed}) (retry_photos log al opts stored route v)"
proof -
  let ?I = "\<lambda>d. attempted (dl_id log) U a d \<and> status_of (dl_id log) d \<in> {Some Delivered, Some Failed}"
  have "keeps ?I (update_delivery_log_status (dl_id log) Failed)"
  proof -
    have k: "keeps (attempted (dl_id log) U a) (update_delivery_log_status (dl_id log) Failed)" by (rule keeps_attempted_status)
    show ?thesis unfolding update_delivery_log_status_def
    proof (intro keeps_db_write)
      fix d assume "?I d"
      then show "?I (set_log (dl_id log) (\<lambda>l. l\<lparr>dl_finalStatus := Failed\<rparr>) d)"
        by (auto simp: status_of_set attempted_def attempting_set attempt_recorded_def) (auto simp: set_log_def)
    qed
  qed
  then show ?thesis
    unfolding retry_photos_def retry_photo_fallback_def abort_retry_for_migration_def repair_quietly_def retry_link_def Let_def
    by (intro keeps_rules keeps_download_link keeps_repair) simp_all
qed

section \<open>The outcome of a repetition\<close>

text \<open>The only reasons to give up without asking Telegram.\<close>

definition raw_unreadable :: "env \<Rightarrow> log_row \<Rightarrow> bool" where
  "raw_unreadable e log \<longleftrightarrow>
     (\<exists>w x. fst (read_raw_email (the (dl_rawEmailPath log)) (Some (enc_mode (dl_rawEmailEncryption log)))
        (enc_wrappedDek (dl_rawEmailEncryption log)) (enc_kekKeyId (dl_rawEmailEncryption log)) e w) = Inl x)"

definition active_alias :: "uuid \<Rightarrow> db \<Rightarrow> alias_row option" where
  "active_alias i d = (case find_alias_by_id i d of Some al \<Rightarrow> if al_status al = Active then Some al else None | None \<Rightarrow> None)"

definition counted_failures :: "log_row \<Rightarrow> db \<Rightarrow> nat" where
  "counted_failures log d = count_counted_failed_attempts_by_log (dl_id log) uncounted_retry_error_classes d"

definition gives_up :: "env \<Rightarrow> log_row \<Rightarrow> db \<Rightarrow> bool" where
  "gives_up e log d \<longleftrightarrow>
     \<not> truthy (dl_rawEmailPath log) \<or> max_retries \<le> counted_failures log d \<or> active_alias (dl_emailAddressId log) d = None \<or> raw_unreadable e log"

definition route_of :: "alias_row \<Rightarrow> send_target" where
  "route_of al = \<lparr> tgt_chat = al_chatId al, tgt_thread = al_messageThreadId al \<rparr>"

definition attempt_added :: "attempt_row \<Rightarrow> db \<Rightarrow> db \<Rightarrow> bool" where
  "attempt_added a d d' \<longleftrightarrow> (\<exists>t. deliveryAttempts d' = deliveryAttempts (add_attempt (a\<lparr>da_createdAt := t\<rparr>) d))"

definition retry_ended :: "env \<Rightarrow> log_row \<Rightarrow> db \<Rightarrow> event list \<Rightarrow> db \<Rightarrow> bool" where
  "retry_ended e log d es d' \<longleftrightarrow>
     (gives_up e log d \<and> es = [LostDelivery] \<and> status_of (dl_id log) d' = Some PermanentlyFailed \<and>
        deliveryAttempts d' = deliveryAttempts d) \<or>
     (\<exists>al out. active_alias (dl_emailAddressId log) d = Some al \<and> counted_failures log d < max_retries \<and>
        list_all (to_target (route_of al)) es \<and> text_answer e es out \<and>
        attempt_added (attempt_for (dl_id log) (int (count_attempts_by_log (dl_id log) d) + 1) (route_of al) out) d d' \<and>
        (if sr_ok out
         then status_of (dl_id log) d' \<in> {Some Delivered, Some Failed} \<and> userUsageMonths d' = userUsageMonths d
         else status_of (dl_id log) d' = Some (retry_status (counted_failures log d) out) \<and>
              (retry_status (counted_failures log d) out = Failed \<longrightarrow> userUsageMonths d' = userUsageMonths d)))"

lemma keeps_refund:
  assumes "\<And>d x. I (d\<lparr>userUsageMonths := x\<rparr>) = I d"
  shows "keeps I (refund_accepted_email u t)"
proof -
  have "keeps I (decrement_user_usage_month v m x y z)" for v m x y z
    unfolding decrement_user_usage_month_def by (intro keeps_rules keeps_db_stmt) (auto simp: lower_usage_def assms)
  then show ?thesis unfolding refund_accepted_email_def Let_def by (intro keeps_rules)
qed

lemma close_Inr:
  assumes "close_permanently_failed log e w = (Inr u, w')" and "status_of (dl_id log) (w_db w) \<noteq> None"
  shows "w_trace w' = w_trace w @ [LostDelivery] \<and> status_of (dl_id log) (w_db w') = Some PermanentlyFailed \<and>
    deliveryAttempts (w_db w') = deliveryAttempts (w_db w)"
proof -
  obtain w1 w2 where s: "update_delivery_log_status (dl_id log) PermanentlyFailed e w = (Inr (), w1)"
    and l: "emit LostDelivery e w1 = (Inr (), w2)" and r: "refund_accepted_email (dl_userId log) (dl_receivedAt log) e w2 = (Inr u, w')"
    using assms(1) unfolding close_permanently_failed_def bind_Inr by auto
  let ?d = "set_log (dl_id log) (\<lambda>l. l\<lparr>dl_finalStatus := PermanentlyFailed\<rparr>) (w_db w)"
  let ?I = "\<lambda>d. status_of (dl_id log) d = Some PermanentlyFailed \<and> deliveryAttempts d = deliveryAttempts (w_db w)"
  have w1: "w_db w1 = ?d" "w_trace w1 = w_trace w" using s by (auto simp: update_delivery_log_status_def db_write_Inr)
  have w2: "w_db w2 = ?d" "w_trace w2 = w_trace w @ [LostDelivery]" using l w1 by (auto simp: emit_Inr)
  have "?I ?d" using assms(2) by (auto simp: status_of_set) (simp add: set_log_def)
  moreover have "keeps ?I (refund_accepted_email (dl_userId log) (dl_receivedAt log))" by (rule keeps_refund) simp
  ultimately have "?I (w_db w')" using keepsD [of ?I _ w2 e] w2(1) r by (metis snd_conv)
  moreover have "w_trace w' = w_trace w2"
    using emitsE [OF emits_repos(8) [of "\<lambda>_. False"], of "dl_userId log" "dl_receivedAt log" e w2] r by auto
  ultimately show ?thesis using w2(2) by simp
qed

lemma persist_adds:
  assumes "persist_outcome i a s e w = (Inr u, w')" and "w_tx w = NoTx"
  shows "attempt_added a (w_db w) (w_db w')"
proof -
  let ?b = "bind (insert_delivery_attempt a) (\<lambda>_. update_delivery_log_status i s)"
  let ?I = "\<lambda>d. deliveryAttempts d = deliveryAttempts (w_db w) \<or> attempt_added a (w_db w) d"
  have idem: "deliveryAttempts (add_attempt (a\<lparr>da_createdAt := t\<rparr>) d) = deliveryAttempts d" if "attempt_added a (w_db w) d" for t d
    using that by (auto simp: attempt_added_def add_attempt_def split: if_splits)
  have fresh: "attempt_added a (w_db w) (add_attempt (a\<lparr>da_createdAt := t\<rparr>) d)" if "?I d" for t d
    using that idem [of d t] by (auto simp: attempt_added_def) (auto simp: add_attempt_def)
  have step: "keeps ?I (insert_delivery_attempt a)"
    unfolding insert_delivery_attempt_def by (intro keeps_db_stmt) (use fresh in auto)
  have status: "keeps ?I (update_delivery_log_status i s)"
    by (intro keeps_status_write) (simp add: attempt_added_def)
  have k: "keeps ?I (transaction ?b)" by (intro keeps_rules step status)
  let ?P = "\<lambda>v. w_tx v = NoTx \<and> ?I (w_db v)"
  have "\<exists>v. ?P v \<and> transaction ?b e v = (Inr u, w')"
  proof (rule retry_async_Inr [where P = ?P, OF assms(1) [unfolded persist_outcome_def]])
    fix v y v' assume P: "?P v" and t: "transaction ?b e v = (Inl y, v')"
    have "?I (w_db v)" using P by blast
    from keepsD [where I = ?I, OF k this, of e] have "?I (w_db v')" unfolding t snd_conv .
    then show "?P v'" using settled_run [OF settled_transaction _ t] P by blast
  qed (use assms in simp)
  then obtain v where v: "?I (w_db v)" "transaction ?b e v = (Inr u, w')" by blast
  obtain w2 where w2: "?b e (begin_tx e v) = (Inr u, w2)" "w_db w' = w_db w2"
    by (rule transaction_open_InrD [OF v(2) open_persist]) blast
  then obtain t where "w_db w' = set_log i (\<lambda>l. l\<lparr>dl_finalStatus := s\<rparr>) (add_attempt (a\<lparr>da_createdAt := t\<rparr>) (w_db v))"
    by (auto simp: bind_Inr insert_delivery_attempt_def update_delivery_log_status_def db_stmt_Inr db_write_Inr)
  then show ?thesis using fresh [OF v(1), of t] by (simp add: attempt_added_def set_log_def)
qed

lemma added_frames [simp]:
  "attempt_added a d0 (d\<lparr>chats := x1\<rparr>) = attempt_added a d0 d" "attempt_added a d0 (d\<lparr>aliases := x2\<rparr>) = attempt_added a d0 d"
  "attempt_added a d0 (d\<lparr>aliasMoveEvents := x3\<rparr>) = attempt_added a d0 d" "attempt_added a d0 (d\<lparr>attachmentLinks := x4\<rparr>) = attempt_added a d0 d"
  "attempt_added a d0 (d\<lparr>userUsageMonths := x5\<rparr>) = attempt_added a d0 d" "attempt_added a d0 (d\<lparr>aliasActivation := x6\<rparr>) = attempt_added a d0 d"
  "attempt_added a d0 (d\<lparr>deliveryLogs := x7\<rparr>) = attempt_added a d0 d"
  by (simp_all add: attempt_added_def)

lemma keeps_added_tail:
  "keeps (attempt_added a d0) (bind (refund_if_lost log s) (\<lambda>_. bind (repair_if_migrated route out) (\<lambda>_.
     if sr_ok out then bind (swallow (mark_alias_first_delivered (dl_emailAddressId log))) (\<lambda>_. retry_photos log al opts stored route v) else ret ())))"
  unfolding refund_if_lost_def repair_if_migrated_def repair_quietly_def retry_photos_def retry_photo_fallback_def
    abort_retry_for_migration_def retry_link_def Let_def
  by (intro keeps_rules keeps_refund keeps_repair keeps_mark_first keeps_download_link keeps_status_write) simp_all

lemma retry_send_Inr:
  assumes run: "retry_send log al route opts n c message stored e w = (Inr u, w')" and nt: "w_tx w = NoTx"
    and K: "attempting (dl_id log) U (w_db w)" and tgt: "so_target message = route"
  shows "\<exists>es out. w_trace w' = w_trace w @ es \<and> list_all (to_target route) es \<and> text_answer e es out \<and>
    attempt_added (attempt_for (dl_id log) (int n + 1) route out) (w_db w) (w_db w') \<and>
    (if sr_ok out then status_of (dl_id log) (w_db w') \<in> {Some Delivered, Some Failed} \<and> userUsageMonths (w_db w') = U
     else status_of (dl_id log) (w_db w') = Some (retry_status c out) \<and> (retry_status c out = Failed \<longrightarrow> userUsageMonths (w_db w') = U))"
proof -
  let ?i = "dl_id log"
  obtain res w1 where s: "send_telegram_message message e w = (res, w1)" by fastforce
  obtain es1 out where out: "w_trace w1 = w_trace w @ es1" "res = Inr out" "text_answer e es1 out" "w_db w1 = w_db w"
    using send_answer [OF s] by blast
  let ?a = "attempt_for ?i (int n + 1) route out" and ?s = "retry_status c out"
  have t1: "w_tx w1 = NoTx" using settledD [OF settled_send nt, of message e] s by simp
  obtain v1 w2 v2 w3 v3 w4 where per: "persist_outcome ?i ?a ?s e w1 = (Inr v1, w2)" and rf: "refund_if_lost log ?s e w2 = (Inr v2, w3)"
    and rp: "repair_if_migrated route out e w3 = (Inr v3, w4)"
    and rest: "(if sr_ok out then bind (swallow (mark_alias_first_delivered (dl_emailAddressId log))) (\<lambda>_.
               retry_photos log al opts stored route (sr_telegramMessageId out)) else ret ()) e w4 = (Inr u, w')"
    using run s out(2) unfolding retry_send_def Let_def by (simp add: bind_Inr) blast
  have p: "status_of ?i (w_db w2) = Some ?s" "attempted ?i U ?a (w_db w2)"
    using persist_outcome_Inr [OF per t1, of U] K out(4) by (auto simp: attempted_def)
  have em: "emits (to_target route) (retry_send log al route opts n c message stored)"
    unfolding retry_send_def persist_outcome_def refund_if_lost_def repair_if_migrated_def Let_def
    by (intro emits_rules emits_photos) (simp_all add: tgt to_target_def)
  then obtain es where es: "w_trace w' = w_trace w @ es" "list_all (to_target route) es"
    using emitsE [OF em, of e w] run by (auto simp: list_all_iff)
  have "\<exists>es2. w_trace w' = w_trace w1 @ es2"
  proof -
    have "emits (to_target route) (bind (persist_outcome ?i ?a ?s) (\<lambda>_. bind (refund_if_lost log ?s) (\<lambda>_. bind (repair_if_migrated route out) (\<lambda>_.
        if sr_ok out then bind (swallow (mark_alias_first_delivered (dl_emailAddressId log))) (\<lambda>_.
               retry_photos log al opts stored route (sr_telegramMessageId out)) else ret ()))))"
      unfolding persist_outcome_def refund_if_lost_def repair_if_migrated_def
      by (intro emits_rules emits_photos) (simp add: to_target_def)
    from emitsE [OF this, where e = e and w = w1] per rf rp rest show ?thesis by (auto simp: bind_def)
  qed
  then have ans: "text_answer e es out" using out(1,3) es(1) text_answer_more [of e es1 out "[]"] by auto
  have added: "attempt_added ?a (w_db w) (w_db w')"
  proof -
    have "attempt_added ?a (w_db w) (w_db w2)" using persist_adds [OF per t1] out(4) by simp
    from keepsD [where I = "attempt_added ?a (w_db w)", OF keeps_added_tail this, of log ?s route out al opts stored "sr_telegramMessageId out" e]
    show ?thesis using rf rp rest by (auto simp: bind_def)
  qed
  let ?I = "\<lambda>d. status_of ?i d = Some ?s \<and> attempt_recorded ?a d"
  have rec: "attempt_recorded ?a (d\<lparr>userUsageMonths := x\<rparr>) = attempt_recorded ?a d" "attempt_recorded ?a (d\<lparr>chats := x2\<rparr>) = attempt_recorded ?a d"
    "attempt_recorded ?a (d\<lparr>aliases := x3\<rparr>) = attempt_recorded ?a d" "attempt_recorded ?a (d\<lparr>aliasMoveEvents := x4\<rparr>) = attempt_recorded ?a d" for d x x2 x3 x4
    by (simp_all add: attempt_recorded_def)
  have "keeps ?I (bind (refund_if_lost log ?s) (\<lambda>_. repair_if_migrated route out))"
    unfolding refund_if_lost_def repair_if_migrated_def repair_quietly_def
    by (intro keeps_rules keeps_refund keeps_repair) (simp_all add: rec)
  from keepsD [OF this, of w2 e] have I4: "?I (w_db w4)" using p rf rp by (simp add: bind_def attempted_def)
  have U4: "attempted ?i U ?a (w_db w4)" if "?s \<noteq> PermanentlyFailed"
  proof -
    have "keeps (attempted ?i U ?a) (bind (refund_if_lost log ?s) (\<lambda>_. repair_if_migrated route out))"
      unfolding refund_if_lost_def repair_if_migrated_def repair_quietly_def
      by (intro keeps_rules keeps_repair) (use that in simp_all)
    from keepsD [OF this, of w2 e] show ?thesis using p rf rp by (simp add: bind_def)
  qed
  show ?thesis
  proof (cases "sr_ok out")
    case False
    then have "w' = w4" using rest by (simp add: ret_Inr)
    then have "?I (w_db w')" "?s = Failed \<longrightarrow> userUsageMonths (w_db w') = U" using I4 U4 by (auto simp: attempted_def attempting_def)
    then show ?thesis using es ans added False by auto
  next
    case True
    then have d: "?s = Delivered" by (simp add: retry_status_def Let_def)
    let ?D = "\<lambda>d. attempted ?i U ?a d \<and> status_of ?i d \<in> {Some Delivered, Some Failed}"
    let ?tail = "bind (swallow (mark_alias_first_delivered (dl_emailAddressId log))) (\<lambda>_. retry_photos log al opts stored route (sr_telegramMessageId out))"
    have k: "keeps ?D ?tail" by (intro keeps_rules keeps_mark_first keeps_retry_photos) simp
    have tl: "?tail e w4 = (Inr u, w')" using rest True by simp
    have "?D (w_db w4)" using I4 U4 d by simp
    from keepsD [where I = ?D, OF k this, of e] have "?D (w_db w')" unfolding tl snd_conv .
    then have "attempt_recorded ?a (w_db w')" "status_of ?i (w_db w') \<in> {Some Delivered, Some Failed}" "userUsageMonths (w_db w') = U"
      by (auto simp: attempted_def attempting_def)
    then show ?thesis using es ans added True by auto
  qed
qed

lemma retry_run_ends:
  assumes "retry_delivery log opts e w = (Inr u, w')" and "w_tx w = NoTx" and "status_of (dl_id log) (w_db w) \<noteq> None"
  shows "\<exists>es. w_trace w' = w_trace w @ es \<and> retry_ended e log (w_db w) es (w_db w')"
proof -
  let ?i = "dl_id log" and ?U = "userUsageMonths (w_db w)" and ?c = "counted_failures log (w_db w)"
  have closed: ?thesis if "close_permanently_failed log e v = (Inr u, w')" "w_db v = w_db w" "w_trace v = w_trace w" "gives_up e log (w_db w)" for v
    using close_Inr [OF that(1)] that(2-4) assms(3) by (auto simp: retry_ended_def)
  show ?thesis
  proof (cases "truthy (dl_rawEmailPath log)")
    case False
    then show ?thesis using assms(1) by (intro closed [of w]) (simp_all add: retry_delivery_def gives_up_def)
  next
    case True
    define w2 where "w2 = w\<lparr>w_tick := Suc (Suc (w_tick w))\<rparr>"
    have w2: "w_db w2 = w_db w" "w_tx w2 = NoTx" "w_trace w2 = w_trace w" using assms(2) by (simp_all add: w2_def)
    have r2: "retry_within_budget log opts (count_attempts_by_log ?i (w_db w)) ?c e w2 = (Inr u, w')"
      using assms(1,2) True unfolding retry_delivery_def counted_failures_def w2_def by (auto simp: bind_Inr db_read_Inr)
    let ?rest = "\<lambda>attemptRoute. case attemptRoute of
                 Inl _ \<Rightarrow> close_permanently_failed log
               | Inr (al, route) \<Rightarrow>
                   bind (try_io (read_raw_email (the (dl_rawEmailPath log)) (Some (enc_mode (dl_rawEmailEncryption log)))
                           (enc_wrappedDek (dl_rawEmailEncryption log)) (enc_kekKeyId (dl_rawEmailEncryption log)))) (\<lambda>raw.
                     case raw of
                       Inl _ \<Rightarrow> close_permanently_failed log
                     | Inr rawEmail \<Rightarrow>
                         bind (retry_message log al rawEmail opts) (\<lambda>compose.
                         retry_send log al route opts (count_attempts_by_log ?i (w_db w)) ?c (fst (compose route)) (snd (compose route))))"
    show ?thesis
    proof (cases "max_retries \<le> ?c")
      case True
      then show ?thesis using r2 w2 by (intro closed [of w2]) (simp_all add: gives_up_def retry_within_budget_def)
    next
      case False
      then obtain ar w3 where rd: "read_attempt_route (dl_emailAddressId log) e w2 = (Inr ar, w3)" and r3: "?rest ar e w3 = (Inr u, w')"
        using r2 unfolding retry_within_budget_def by (auto simp: bind_Inr)
      have w3: "w_db w3 = w_db w" "w_tx w3 = NoTx" "w_trace w3 = w_trace w"
        using rd w2 by (auto simp: read_attempt_route_def bind_Inr db_read_Inr ret_Inr)
      show ?thesis
      proof (cases ar)
        case (Inl x)
        then have "active_alias (dl_emailAddressId log) (w_db w) = None"
          using rd w2 by (auto simp: read_attempt_route_def active_alias_def bind_Inr db_read_Inr ret_Inr split: option.splits if_splits)
        then show ?thesis using r3 w3 Inl by (intro closed [of w3]) (simp_all add: gives_up_def)
      next
        case (Inr q)
        obtain al route where q: "q = (al, route)" by fastforce
        have rt: "active_alias (dl_emailAddressId log) (w_db w) = Some al" "route = route_of al"
          using read_attempt_route_Inr [OF rd [unfolded Inr q]] w2 by (auto simp: active_alias_def route_of_def)
        let ?read = "read_raw_email (the (dl_rawEmailPath log)) (Some (enc_mode (dl_rawEmailEncryption log)))
                           (enc_wrappedDek (dl_rawEmailEncryption log)) (enc_kekKeyId (dl_rawEmailEncryption log))"
        obtain raw w4 where rr: "?read e w3 = (raw, w4)" by fastforce
        have w4: "w_db w4 = w_db w" "w_tx w4 = NoTx" "w_trace w4 = w_trace w"
          using same_db [OF keeps_disk(8) rr] settled_run [OF settled_raw w3(2) rr] same_trace [OF emits_disk(8) rr] w3 by simp_all
        show ?thesis
        proof (cases raw)
          case (Inl x)
          then have "raw_unreadable e log" using rr unfolding raw_unreadable_def by (metis fst_conv)
          then show ?thesis using r3 rr w4 Inl Inr q by (intro closed [of w4]) (simp_all add: gives_up_def bind_def try_io_def)
        next
          case (Inr rawEmail)
          obtain compose w5 where m: "retry_message log al rawEmail opts e w4 = (Inr compose, w5)"
            and sd: "retry_send log al route opts (count_attempts_by_log ?i (w_db w)) ?c (fst (compose route)) (snd (compose route)) e w5 = (Inr u, w')"
            using r3 rr \<open>ar = Inr q\<close> q Inr by (auto simp: bind_Inr try_io_Inr)
          have view: "attempting ?i U (d\<lparr>deliveryViewLinks := x\<rparr>) = attempting ?i U d" for U d x
            by (simp add: attempting_def status_of_def find_delivery_log_by_id_def)
          have k: "keeps (attempting ?i ?U) (retry_message log al rawEmail opts)" by (intro keeps_message) (simp_all add: view)
          have "attempting ?i ?U (w_db w4)" using w4(1) assms(3) by (simp add: attempting_def)
          from keepsD [OF k this, of e] have K: "attempting ?i ?U (w_db w5)" unfolding m snd_conv .
          have "keeps (\<lambda>d. deliveryAttempts d = deliveryAttempts (w_db w)) (retry_message log al rawEmail opts)" by (intro keeps_message) simp_all
          from keepsD [OF this, of w4 e] have "deliveryAttempts (w_db w5) = deliveryAttempts (w_db w)" using w4(1) unfolding m snd_conv by simp
          then have a5: "attempt_added x (w_db w5) d' = attempt_added x (w_db w) d'" for x d' by (simp add: attempt_added_def add_attempt_def)
          have n5: "w_tx w5 = NoTx" by (rule settled_run [OF settled_message w4(2) m])
          have t5: "w_trace w5 = w_trace w" using same_trace [OF emits_retry_message m] w4(3) by simp
          from retry_send_Inr [OF sd n5 K message_target [OF m]] obtain es out where
            "w_trace w' = w_trace w @ es" "list_all (to_target route) es" "text_answer e es out"
            "attempt_added (attempt_for ?i (int (count_attempts_by_log ?i (w_db w)) + 1) route out) (w_db w5) (w_db w')"
            "if sr_ok out then status_of ?i (w_db w') \<in> {Some Delivered, Some Failed} \<and> userUsageMonths (w_db w') = ?U
             else status_of ?i (w_db w') = Some (retry_status ?c out) \<and> (retry_status ?c out = Failed \<longrightarrow> userUsageMonths (w_db w') = ?U)"
            unfolding t5 by blast
          then show ?thesis using rt False unfolding retry_ended_def a5 by (intro exI [of _ es] conjI disjI2 exI [of _ al] exI [of _ out]) simp_all
        qed
      qed
    qed
  qed
qed


section \<open>The budget\<close>

text \<open>The attempts of a log are numbered from 1 without a number above their count.\<close>

definition attempts_numbered :: "uuid \<Rightarrow> db \<Rightarrow> bool" where
  "attempts_numbered i d \<longleftrightarrow>
     (\<forall>a\<in>set (deliveryAttempts d). da_deliveryLogId a = i \<longrightarrow> da_attemptNo a \<le> int (count_attempts_by_log i d))"

definition spends_budget :: "send_result \<Rightarrow> bool" where
  "spends_budget out \<longleftrightarrow> \<not> sr_ok out \<and> retry_disposition_for_error (failure_arg out) \<noteq> RetryUncounted"

lemma attempt_added_counts:
  assumes "attempt_added (attempt_for i (int (count_attempts_by_log i d) + 1) route out) d d'" and "attempts_numbered i d"
  shows "attempts_numbered i d' \<and>
    count_counted_failed_attempts_by_log i uncounted_retry_error_classes d' =
      count_counted_failed_attempts_by_log i uncounted_retry_error_classes d + (if spends_budget out then 1 else 0)"
proof -
  let ?a = "\<lambda>t. (attempt_for i (int (count_attempts_by_log i d) + 1) route out)\<lparr>da_createdAt := t\<rparr>"
  have fresh: "\<not> list_ex (\<lambda>r. da_deliveryLogId r = da_deliveryLogId (?a t) \<and> da_attemptNo r = da_attemptNo (?a t)) (deliveryAttempts d)" for t
    using assms(2) by (fastforce simp: attempts_numbered_def list_ex_iff attempt_for_def)
  obtain t where "deliveryAttempts d' = deliveryAttempts d @ [?a t]"
    using assms(1) fresh unfolding attempt_added_def add_attempt_def by (auto split: if_splits)
  moreover have "(\<not> sr_ok out \<and> classify_telegram_error (failure_arg out) \<notin> set uncounted_retry_error_classes) = spends_budget out"
    unfolding spends_budget_def uncounted_iff disposition_factors by simp
  moreover have "uncounted_retry_error_classes \<noteq> []" by (simp add: uncounted_retry_error_classes_def)
  ultimately show ?thesis using assms(2)
    by (force simp: attempts_numbered_def count_attempts_by_log_def count_counted_failed_attempts_by_log_def count_where_append
        attempt_for_def send_error_class_def Let_def)
qed

text \<open>The budget that the worker counts in memory is the one the next cycle reads from the attempts: a
  repetition uses at most one unit of it, a failure of Telegram or of the path to it uses none, and
  a log that is left as failed has budget left, so that it is repeated again.\<close>

theorem retry_budget_kept:
  assumes "retry_delivery log opts e w = (Inr u, w')" and "w_tx w = NoTx" and "status_of (dl_id log) (w_db w) \<noteq> None"
    and "attempts_numbered (dl_id log) (w_db w)"
  shows "attempts_numbered (dl_id log) (w_db w') \<and>
    counted_failures log (w_db w') \<le> counted_failures log (w_db w) + 1 \<and>
    (status_of (dl_id log) (w_db w') = Some Failed \<longrightarrow> counted_failures log (w_db w') < max_retries)"
proof -
  obtain es where "retry_ended e log (w_db w) es (w_db w')" using retry_run_ends [OF assms(1-3)] by blast
  then consider (up) "status_of (dl_id log) (w_db w') = Some PermanentlyFailed" "deliveryAttempts (w_db w') = deliveryAttempts (w_db w)"
    | (sent) al out where "counted_failures log (w_db w) < max_retries"
      "attempt_added (attempt_for (dl_id log) (int (count_attempts_by_log (dl_id log) (w_db w)) + 1) (route_of al) out) (w_db w) (w_db w')"
      "\<not> sr_ok out \<longrightarrow> status_of (dl_id log) (w_db w') = Some (retry_status (counted_failures log (w_db w)) out)"
    unfolding retry_ended_def by (auto split: if_splits)
  then show ?thesis
  proof cases
    case up
    then show ?thesis using assms(4)
      by (simp add: attempts_numbered_def counted_failures_def count_attempts_by_log_def count_counted_failed_attempts_by_log_def)
  next
    case sent
    note c = attempt_added_counts [OF sent(2) assms(4)]
    have "counted_failures log (w_db w') < max_retries" if "status_of (dl_id log) (w_db w') = Some Failed"
    proof (cases "spends_budget out")
      case True
      then have "retry_status (counted_failures log (w_db w)) out = Failed" using sent(3) that by (auto simp: spends_budget_def)
      then have "retry_disposition_for_error (failure_arg out) = RetryCounted" "counted_failures log (w_db w) + 1 < max_retries"
        using True by (cases "retry_disposition_for_error (failure_arg out)"; auto simp: retry_status_def spends_budget_def Let_def split: if_splits)+
      then show ?thesis using c True by (simp add: counted_failures_def)
    next
      case False
      then show ?thesis using c sent(1) by (simp add: counted_failures_def)
    qed
    then show ?thesis using c by (simp add: counted_failures_def)
  qed
qed

section \<open>A sample repetition\<close>

definition sample_opts :: retry_opts where
  "sample_opts = \<lparr> ro_attachmentTtlHours = 24, ro_rawEmailTtlHours = 24, ro_publicBaseUrl = ''https://m'', ro_attachmentDir = ''/att'',
     ro_rawEmailDir = None, ro_telegramRichMessagesEnabled = True \<rparr>"

text \<open>Telegram is down: the repetition fails and nothing is counted.\<close>

definition outage_env :: env where
  "outage_env = calm_env\<lparr> telegram := (\<lambda>_ _. Inl (PlainError ''timeout'')) \<rparr>"

lemma sample_retry:
  "case retry_delivery sample_log sample_opts outage_env sample_world of (r, w') \<Rightarrow>
     r = Inr () \<and> status_of ''l1'' (w_db w') = Some Failed \<and> count_attempts_by_log ''l1'' (w_db w') = 1"
  by code_simp

lemma sample_retryE:
  obtains w' where "retry_delivery sample_log sample_opts outage_env sample_world = (Inr (), w')" "status_of ''l1'' (w_db w') = Some Failed"
    "count_attempts_by_log ''l1'' (w_db w') = 1"
  using sample_retry by auto

lemma sample_status: "status_of (dl_id sample_log) (w_db sample_world) \<noteq> None" "w_tx sample_world = NoTx"
  by (simp_all add: sample_world_def sample_log_def status_of_def find_delivery_log_by_id_def)


theorem retry_budget_kept_witness:
  "\<exists>w'. retry_delivery sample_log sample_opts outage_env sample_world = (Inr (), w') \<and> status_of ''l1'' (w_db w') = Some Failed \<and>
     count_attempts_by_log ''l1'' (w_db w') = 1 \<and> counted_failures sample_log (w_db w') < max_retries"
proof -
  obtain w' where r: "retry_delivery sample_log sample_opts outage_env sample_world = (Inr (), w')" "status_of ''l1'' (w_db w') = Some Failed"
    "count_attempts_by_log ''l1'' (w_db w') = 1" by (rule sample_retryE)
  have "attempts_numbered (dl_id sample_log) (w_db sample_world)" by (simp add: attempts_numbered_def sample_world_def)
  then show ?thesis using r retry_budget_kept [OF r(1) sample_status(2,1)] by (auto simp: sample_log_def)
qed

end
