(* ===== verification/RetryRun.thy ===== *)
theory RetryRun
  imports Retry
begin

text \<open>
  Cycles of the retry worker (\<open>runRetryWorker\<close> of \<open>src/email/retry.ts\<close>): what one cycle does to the
  logs that were due when it started.
\<close>

section \<open>Frames of a repetition\<close>

lemma settled_sends [settled_rules]: "settled (send_telegram_photos route v ps)"
proof -
  have o: "settled (open_all xs)" for xs
    by (induction xs) (auto intro!: settled_rules)
  have c: "settled (send_chunk route v c)" for v c
    unfolding send_chunk_def call_telegram_def by (intro settled_rules o)
  have l: "settled (photo_loop route v cs acc)" for v cs acc
    by (induction cs arbitrary: v acc) (auto simp: Let_def intro!: settled_rules c)
  then show ?thesis unfolding send_telegram_photos_def Let_def by (intro settled_rules l)
qed

lemma settled_invalidate [settled_rules]: "settled (invalidate_caches a b)"
  by (simp add: settled_def invalidations_run)

lemma settled_repair [settled_rules]: "settled (repair_chat_migration api a b c)"
  unfolding repair_chat_migration_def fetch_chat_meta_def with_chat_migration_lock_def
  by (intro settled_rules)

lemma settled_repos [settled_rules]:
  "settled (update_delivery_log_status i s)" "settled (refund_accepted_email u t)" "settled (mark_alias_first_delivered i)"
  "settled (download_link b t' i' f s')" "settled (claim_delivery_log_for_retry i' st)"
  unfolding update_delivery_log_status_def refund_accepted_email_def mark_alias_first_delivered_def with_bounded_transaction_def
    download_link_def create_attachment_link_def generate_download_token_def generate_download_token_for_expiry_def
    generate_scoped_token_def decrement_user_usage_month_def claim_delivery_log_for_retry_def Let_def
  by (intro settled_rules)+

lemma settled_retry_delivery [settled_rules]: "settled (retry_delivery log opts)"
  unfolding retry_delivery_def retry_within_budget_def close_permanently_failed_def retry_send_def persist_outcome_def refund_if_lost_def
    repair_if_migrated_def repair_quietly_def retry_photos_def retry_photo_fallback_def abort_retry_for_migration_def retry_link_def Let_def
  by (intro settled_rules settled_message)

text \<open>An invariant that looks at no table a repetition writes, and that its status writes keep, is kept.\<close>

lemma keeps_retry_delivery:
  assumes status: "\<And>s. keeps I (update_delivery_log_status (dl_id log) s)"
    and frames: "\<And>d x. I (d\<lparr>attachmentLinks := x\<rparr>) = I d" "\<And>d x. I (d\<lparr>deliveryViewLinks := x\<rparr>) = I d"
      "\<And>d x. I (d\<lparr>userUsageMonths := x\<rparr>) = I d" "\<And>d x. I (d\<lparr>chats := x\<rparr>) = I d" "\<And>d x. I (d\<lparr>aliases := x\<rparr>) = I d"
      "\<And>d x. I (d\<lparr>aliasMoveEvents := x\<rparr>) = I d" "\<And>d x. I (d\<lparr>aliasActivation := x\<rparr>) = I d" "\<And>d x. I (d\<lparr>deliveryAttempts := x\<rparr>) = I d"
  shows "keeps I (retry_delivery log opts)"
  unfolding retry_delivery_def retry_within_budget_def close_permanently_failed_def retry_send_def persist_outcome_def refund_if_lost_def
    repair_if_migrated_def repair_quietly_def retry_photos_def retry_photo_fallback_def abort_retry_for_migration_def retry_link_def Let_def
  by (intro keeps_rules keeps_refund keeps_repair keeps_mark_first keeps_download_link keeps_message keeps_attempt status frames)

section \<open>A cycle\<close>

lemma status_of_other: "i \<noteq> j \<Longrightarrow> status_of i (set_log j (\<lambda>l. l\<lparr>dl_finalStatus := s\<rparr>) d) = status_of i d"
  unfolding status_of_def find_delivery_log_by_id_def set_log_def by (auto simp: select_first_frame)

lemma status_of_links [simp]:
  "status_of i (d\<lparr>deliveryViewLinks := x\<rparr>) = status_of i d"
  by (simp add: status_of_def find_delivery_log_by_id_def)

lemma claim_status:
  assumes "status_of i d = Some s" "s \<in> set non_final_delivery_statuses"
  shows "fst (claim_stmt i default_claimable d)" "j \<noteq> i \<Longrightarrow> status_of j (snd (claim_stmt i default_claimable d)) = status_of j d"
    "status_of i (snd (claim_stmt i default_claimable d)) \<noteq> None"
proof -
  obtain l where l: "l \<in> set (deliveryLogs d)" "dl_id l = i" "dl_finalStatus l = s"
    using assms(1) by (auto simp: status_of_def find_delivery_log_by_id_def dest: select_first_Some)
  then show "fst (claim_stmt i default_claimable d)" using assms(2)
    by (auto simp: claim_stmt_def list_ex_iff default_claimable_def non_final_delivery_statuses_def Let_def)
  show "j \<noteq> i \<Longrightarrow> status_of j (snd (claim_stmt i default_claimable d)) = status_of j d"
    unfolding status_of_def find_delivery_log_by_id_def claim_stmt_def Let_def by simp (subst select_first_frame, auto)
  show "status_of i (snd (claim_stmt i default_claimable d)) \<noteq> None"
    using assms(1) unfolding status_of_def find_delivery_log_by_id_def claim_stmt_def Let_def by (auto simp: select_first_update)
qed

definition at_rest :: "delivery_status set" where "at_rest = {Delivered, Failed, PermanentlyFailed}"

lemma retry_one_settles:
  assumes fine: "\<forall>t. db_fault e t = Fine" and idle: "\<forall>t i. \<not> pipeline_active e t i" and nt: "w_tx w = NoTx"
    and due: "status_of (dl_id log) (w_db w) = Some s" "s \<in> set non_final_delivery_statuses"
    and run: "retry_one log opts e w = (r, w')"
  shows "r = Inr () \<and> w_tx w' = NoTx \<and> status_of (dl_id log) (w_db w') \<in> Some ` at_rest \<and>
    (\<forall>j. j \<noteq> dl_id log \<longrightarrow> status_of j (w_db w') = status_of j (w_db w))"
proof -
  let ?i = "dl_id log" and ?w0 = "w\<lparr>w_tick := Suc (w_tick w)\<rparr>"
  let ?w1 = "w\<lparr>w_tick := Suc (Suc (w_tick w)), w_db := snd (claim_stmt ?i default_claimable (w_db w))\<rparr>"
  note claim = claim_status [OF due]
  have "claim_delivery_log_for_retry ?i default_claimable e ?w0 = (Inr True, ?w1)"
    using claim(1) fine nt by (simp add: claim_delivery_log_for_retry_def db_stmt_fine split: prod.split) (metis fst_conv snd_conv)
  then have run1: "catch (retry_delivery log opts) (\<lambda>_. swallow (update_delivery_log_status ?i Failed)) e ?w1 = (r, w')"
    using run idle unfolding retry_one_def by (simp add: bind_def at_tick_def)
  obtain q w2 where rd: "retry_delivery log opts e ?w1 = (q, w2)" by fastforce
  have n2: "w_tx w2 = NoTx" by (rule settled_run [OF settled_retry_delivery _ rd]) (simp add: nt)
  have some: "status_of ?i (w_db ?w1) \<noteq> None" using claim(3) by simp
  have others: "status_of j (w_db w2) = status_of j (w_db w)" if "j \<noteq> ?i" for j
  proof -
    have "keeps (\<lambda>d. status_of j d = status_of j (w_db w)) (update_delivery_log_status ?i s)" for s
      unfolding update_delivery_log_status_def by (rule keeps_db_write) (simp add: status_of_other that)
    then have "keeps (\<lambda>d. status_of j d = status_of j (w_db w)) (retry_delivery log opts)" by (rule keeps_retry_delivery) simp_all
    from keepsD [OF this, of ?w1 e] show ?thesis unfolding rd using claim(2) [OF that] by simp
  qed
  show ?thesis
  proof (cases q)
    case (Inr u)
    then have "r = Inr ()" "w' = w2" using run1 rd by (simp_all add: catch_def)
    moreover obtain es where "retry_ended e log (w_db ?w1) es (w_db w2)"
      using retry_run_ends [OF rd [unfolded Inr] _ some] nt by auto
    then have "status_of ?i (w_db w2) \<in> Some ` at_rest"
      unfolding retry_ended_def by (auto simp: at_rest_def retry_status_def Let_def split: if_splits)
    ultimately show ?thesis using n2 others by simp
  next
    case (Inl x)
    have "keeps (\<lambda>d. status_of ?i d \<noteq> None) (update_delivery_log_status ?i s)" for s
      unfolding update_delivery_log_status_def by (rule keeps_db_write) (simp add: status_of_set)
    then have "keeps (\<lambda>d. status_of ?i d \<noteq> None) (retry_delivery log opts)" by (rule keeps_retry_delivery) simp_all
    from keepsD [OF this, of ?w1 e] have "status_of ?i (w_db w2) \<noteq> None" unfolding rd using some by simp
    then obtain s2 where s2: "status_of ?i (w_db w2) = Some s2" by blast
    have "swallow (update_delivery_log_status ?i Failed) e w2 = (r, w')" using run1 rd Inl by (simp add: catch_def)
    then have "r = Inr ()" "w_tx w' = NoTx" "w_db w' = set_log ?i (\<lambda>l. l\<lparr>dl_finalStatus := Failed\<rparr>) (w_db w2)"
      using fine n2 by (auto simp: swallow_def catch_def update_delivery_log_status_def db_write_def db_stmt_fine)
    then show ?thesis using s2 others by (simp add: status_of_set status_of_other at_rest_def)
  qed
qed

lemma retry_each_settles:
  assumes "\<forall>t. db_fault e t = Fine" "\<forall>t i. \<not> pipeline_active e t i" "\<forall>t. \<not> should_stop e t"
    and "w_tx w = NoTx" "distinct (map dl_id logs)"
    and "\<forall>l\<in>set logs. \<exists>s\<in>set non_final_delivery_statuses. status_of (dl_id l) (w_db w) = Some s"
    and "retry_each logs opts e w = (r, w')"
  shows "r = Inr () \<and> (\<forall>l\<in>set logs. status_of (dl_id l) (w_db w') \<in> Some ` at_rest) \<and>
    (\<forall>j. j \<notin> dl_id ` set logs \<longrightarrow> status_of j (w_db w') = status_of j (w_db w))"
  using assms(4-7)
proof (induction logs arbitrary: w)
  case Nil
  then show ?case by (simp add: ret_def)
next
  case (Cons log logs)
  let ?w0 = "w\<lparr>w_tick := Suc (w_tick w)\<rparr>"
  obtain q w1 where o: "retry_one log opts e ?w0 = (q, w1)" by fastforce
  obtain s where s: "status_of (dl_id log) (w_db w) = Some s" "s \<in> set non_final_delivery_statuses" using Cons.prems(3) by auto
  have one: "q = Inr ()" "w_tx w1 = NoTx" "status_of (dl_id log) (w_db w1) \<in> Some ` at_rest"
    "\<And>j. j \<noteq> dl_id log \<Longrightarrow> status_of j (w_db w1) = status_of j (w_db w)"
    using retry_one_settles [OF assms(1,2) _ _ s(2) o] s(1) Cons.prems(1) by auto
  have rest: "retry_each logs opts e w1 = (r, w')"
    using Cons.prems(4) o one(1) assms(3) by (simp add: bind_def at_tick_def)
  have due: "\<forall>l\<in>set logs. \<exists>s\<in>set non_final_delivery_statuses. status_of (dl_id l) (w_db w1) = Some s"
  proof
    fix l assume l: "l \<in> set logs"
    then have "dl_id l \<in> dl_id ` set logs" "dl_id log \<notin> dl_id ` set logs" using Cons.prems(2) by simp_all
    then have "dl_id l \<noteq> dl_id log" by metis
    then show "\<exists>s\<in>set non_final_delivery_statuses. status_of (dl_id l) (w_db w1) = Some s" using Cons.prems(3) l one(4) by simp
  qed
  from Cons.IH [OF one(2) _ due rest] Cons.prems(2) have
    "r = Inr ()" "\<forall>l\<in>set logs. status_of (dl_id l) (w_db w') \<in> Some ` at_rest"
    "\<forall>j. j \<notin> dl_id ` set logs \<longrightarrow> status_of j (w_db w') = status_of j (w_db w1)" by auto
  moreover have "dl_id log \<notin> dl_id ` set logs" using Cons.prems(2) by simp
  ultimately show ?case using one by auto
qed


section \<open>A sample cycle\<close>

text \<open>An hour later the worker finds the log that the sample world holds.\<close>

definition later_env :: env where
  "later_env = calm_env\<lparr> clock := (\<lambda>_. 3600000) \<rparr>"


end
