(* ===== verification/EncryptionStream.thy ===== *)
theory EncryptionStream
  imports Encryption
begin

text \<open>
  Encryption of streams (\<open>encryptStreamForStorage\<close>, \<open>decryptStreamFromStorage\<close> of
  \<open>src/security/encryption.ts\<close>).  A stream is the list of its chunks; a decrypted stream is the chunks
  it yields and the error that ends it, if any.
\<close>

section \<open>Encrypting\<close>

text \<open>\<open>cipher.update\<close> on one chunk after another, \<open>i\<close> bytes in; empty results are not yielded.\<close>

fun encrypt_ciphertext_chunks :: "(nat \<Rightarrow> nat) \<Rightarrow> nat \<Rightarrow> bytes list \<Rightarrow> bytes list" where
  "encrypt_ciphertext_chunks ks i [] = []"
| "encrypt_ciphertext_chunks ks i (chunk # source) =
     (let encrypted = xor_stream ks i chunk
      in (if encrypted \<noteq> [] then [encrypted] else []) @ encrypt_ciphertext_chunks ks (i + length chunk) source)"

definition encrypt_stream_for_storage :: "bytes list \<Rightarrow> string \<Rightarrow> (bytes list \<times> encryption_meta) io" where
  "encrypt_stream_for_storage source aad =
     bind (ask active_provider) (\<lambda>provider.
       case provider of
         None \<Rightarrow> ret (source, no_encryption)
       | Some p \<Rightarrow>
           bind (at_tick (\<lambda>e t. random_bytes e t key_length)) (\<lambda>dek.
           bind (at_tick (\<lambda>e t. random_bytes e t iv_length)) (\<lambda>iv.
           bind (wrap_key p dek) (\<lambda>(wrappedDek, keyId).
           bind now (\<lambda>encryptedAt.
           bind (ask (\<lambda>e. encrypt_ciphertext_chunks (aes_keystream e dek iv) 0 source)) (\<lambda>chunks.
           bind (ask (\<lambda>e. gcm_tag e dek iv aad (concat chunks))) (\<lambda>tag.
           ret ([file_magic @ [file_version] @ iv] @ chunks @ [tag],
                \<lparr> enc_mode = ''local-v1'', enc_wrappedDek = Some wrappedDek, enc_kekKeyId = Some keyId,
                  enc_encryptedAt = Some encryptedAt \<rparr>))))))))"

section \<open>Decrypting\<close>

text \<open>The loop's variables: the header read so far, then the decipher (its iv and the ciphertext it
  has taken) and the bytes held back because they may be the tag.\<close>

record decipher =
  dc_iv :: bytes
  dc_ciphertext :: bytes

record decrypt_state =
  dst_header :: bytes
  dst_pendingTag :: bytes
  dst_decipher :: "decipher option"

definition push_ciphertext :: "env \<Rightarrow> bytes \<Rightarrow> decipher \<Rightarrow> bytes \<Rightarrow> bytes \<Rightarrow> bytes \<times> bytes \<times> decipher" where
  "push_ciphertext e dek decipher chunk pendingTag =
     (let combined = (if length pendingTag > 0 then pendingTag @ chunk else chunk)
      in if length combined \<le> tag_length then ([], combined, decipher)
         else (let ciphertext = take (length combined - tag_length) combined
               in (xor_stream (aes_keystream e dek (dc_iv decipher)) (length (dc_ciphertext decipher)) ciphertext,
                   drop (length combined - tag_length) combined,
                   decipher\<lparr> dc_ciphertext := dc_ciphertext decipher @ ciphertext \<rparr>)))"

definition yield_chunk :: "bytes \<Rightarrow> bytes list" where
  "yield_chunk plaintext = (if length plaintext > 0 then [plaintext] else [])"

definition decrypt_chunk :: "env \<Rightarrow> bytes \<Rightarrow> decrypt_state \<Rightarrow> bytes \<Rightarrow> exn + bytes list \<times> decrypt_state" where
  "decrypt_chunk e dek s chunk =
     (case dst_decipher s of
        None \<Rightarrow>
          (let header = dst_header s @ chunk
           in if length header < header_size then Inr ([], s\<lparr> dst_header := header \<rparr>)
              else if take (length file_magic) header \<noteq> file_magic then Inl (Thrown ''Encrypted blob has invalid magic header'')
              else if header ! length file_magic \<noteq> file_version then Inl (unsupported_version (header ! length file_magic))
              else if length dek \<noteq> key_length then Inl (Thrown ''Invalid key length'')
              else (let d = \<lparr> dc_iv = take iv_length (drop (length file_magic + 1) header), dc_ciphertext = [] \<rparr>;
                        remainder = drop header_size header
                    in if length remainder > 0
                       then (case push_ciphertext e dek d remainder (dst_pendingTag s) of
                               (plaintext, tag, d') \<Rightarrow>
                                 Inr (yield_chunk plaintext, \<lparr> dst_header = [], dst_pendingTag = tag, dst_decipher = Some d' \<rparr>))
                       else Inr ([], \<lparr> dst_header = [], dst_pendingTag = dst_pendingTag s, dst_decipher = Some d \<rparr>)))
      | Some d \<Rightarrow>
          (case push_ciphertext e dek d chunk (dst_pendingTag s) of
             (plaintext, tag, d') \<Rightarrow> Inr (yield_chunk plaintext, s\<lparr> dst_pendingTag := tag, dst_decipher := Some d' \<rparr>)))"

definition finish_decryption :: "env \<Rightarrow> bytes \<Rightarrow> string \<Rightarrow> decrypt_state \<Rightarrow> exn option" where
  "finish_decryption e dek aad s =
     (case dst_decipher s of
        None \<Rightarrow> Some (Thrown ''Encrypted blob is truncated'')
      | Some d \<Rightarrow>
          if length (dst_pendingTag s) \<noteq> tag_length then Some (Thrown ''Encrypted blob is truncated'')
          else if gcm_tag e dek (dc_iv d) aad (dc_ciphertext d) \<noteq> dst_pendingTag s
          then Some (Thrown ''Unsupported state or unable to authenticate data'') else None)"

fun decrypt_chunks :: "env \<Rightarrow> bytes \<Rightarrow> string \<Rightarrow> decrypt_state \<Rightarrow> bytes list \<Rightarrow> bytes list \<times> exn option" where
  "decrypt_chunks e dek aad s [] = ([], finish_decryption e dek aad s)"
| "decrypt_chunks e dek aad s (chunk # source) =
     (case decrypt_chunk e dek s chunk of
        Inl x \<Rightarrow> ([], Some x)
      | Inr (out, s') \<Rightarrow> (case decrypt_chunks e dek aad s' source of (outs, err) \<Rightarrow> (out @ outs, err)))"

definition decrypt_stream_from_storage :: "env \<Rightarrow> bytes list \<Rightarrow> encryption_meta \<Rightarrow> string \<Rightarrow> exn + bytes list \<times> exn option" where
  "decrypt_stream_from_storage e source metadata aad =
     (if enc_mode metadata = ''none'' then Inr (source, None)
      else if enc_mode metadata \<noteq> ''local-v1'' then Inl (Thrown (''Unsupported storage encryption mode: '' @ enc_mode metadata))
      else case active_provider e of
          None \<Rightarrow> Inl (Thrown ''Storage encryption is not configured'')
        | Some p \<Rightarrow>
            if \<not> truthy (enc_wrappedDek metadata) then Inl (Thrown ''Encrypted blob is missing wrapped DEK metadata'')
            else case unwrap_key e p (the (enc_wrappedDek metadata)) (enc_kekKeyId metadata) of
                Inl x \<Rightarrow> Inl x
              | Inr dek \<Rightarrow>
                  Inr (decrypt_chunks e dek aad \<lparr> dst_header = [], dst_pendingTag = [], dst_decipher = None \<rparr> source))"

text \<open>\<open>pipeline\<close> into a file: its content, unless the stream failed.\<close>

definition collect_stream :: "exn + bytes list \<times> exn option \<Rightarrow> exn + bytes" where
  "collect_stream r = (case r of Inl x \<Rightarrow> Inl x | Inr (outs, Some x) \<Rightarrow> Inl x | Inr (outs, None) \<Rightarrow> Inr (concat outs))"

section \<open>Streams and buffers agree\<close>

lemma concat_encrypt_chunks: "concat (encrypt_ciphertext_chunks ks i source) = xor_stream ks i (concat source)"
  by (induction ks i source rule: encrypt_ciphertext_chunks.induct) (auto simp: xor_stream_append Let_def)

text \<open>Encrypting a stream gives the bytes and the metadata that encrypting the whole buffer gives,
  however the source cuts it into chunks.\<close>

theorem encrypted_stream_is_encrypted_buffer:
  "bind (encrypt_stream_for_storage source aad) (\<lambda>(chunks, meta). ret (concat chunks, meta)) e w =
   encrypt_buffer_for_storage (concat source) aad e w"
  by (cases "active_provider e")
    (auto simp: encrypt_stream_for_storage_def encrypt_buffer_for_storage_def wrap_key_def gcm_seal_def step_simps Let_def
      concat_encrypt_chunks)

text \<open>What the loop is left to do: \<open>taken\<close> is the data after the header that has arrived.\<close>

definition decipher_holds :: "bytes \<Rightarrow> decipher \<Rightarrow> bytes \<Rightarrow> bool" where
  "decipher_holds taken d pending \<longleftrightarrow>
     dc_ciphertext d @ pending = taken \<and> length pending = min (length taken) tag_length"

lemma push_holds:
  assumes "decipher_holds taken d pending" and "push_ciphertext e dek d chunk pending = (out, pending', d')"
  shows "decipher_holds (taken @ chunk) d' pending' \<and> dc_iv d' = dc_iv d \<and>
    xor_stream (aes_keystream e dek (dc_iv d)) 0 (dc_ciphertext d') = xor_stream (aes_keystream e dek (dc_iv d)) 0 (dc_ciphertext d) @ out"
proof -
  have c: "(if length pending > 0 then pending @ chunk else chunk) = pending @ chunk" by simp
  have t: "taken = dc_ciphertext d @ pending" and l: "length pending = min (length taken) tag_length"
    using assms(1) by (auto simp: decipher_holds_def)
  show ?thesis
  proof (cases "length (pending @ chunk) \<le> tag_length")
    case True
    then have r: "out = []" "pending' = pending @ chunk" "d' = d" using assms(2) unfolding push_ciphertext_def c Let_def by auto
    have "length pending' = min (length (taken @ chunk)) tag_length"
    proof (cases "length taken \<le> tag_length")
      case True
      moreover have "length taken = length (dc_ciphertext d) + length pending" by (simp add: t)
      ultimately have "length (dc_ciphertext d) = 0" using l by linarith
      then show ?thesis using \<open>length (pending @ chunk) \<le> tag_length\<close> by (simp add: r t)
    next
      case False
      then have "chunk = []" using l \<open>length (pending @ chunk) \<le> tag_length\<close> by auto
      then show ?thesis using l by (simp add: r)
    qed
    then show ?thesis by (simp add: r decipher_holds_def t)
  next
    case False
    let ?n = "length (pending @ chunk) - tag_length"
    have r: "out = xor_stream (aes_keystream e dek (dc_iv d)) (length (dc_ciphertext d)) (take ?n (pending @ chunk))"
      "pending' = drop ?n (pending @ chunk)" "d' = d\<lparr>dc_ciphertext := dc_ciphertext d @ take ?n (pending @ chunk)\<rparr>"
      using assms(2) False unfolding push_ciphertext_def c Let_def by auto
    have "length pending' = tag_length" using False by (simp add: r(2))
    moreover have "dc_ciphertext d' @ pending' = taken @ chunk" unfolding r t
      by (simp del: take_append drop_append)
    moreover have "tag_length \<le> length (taken @ chunk)" using False by (simp add: t)
    ultimately show ?thesis by (simp add: decipher_holds_def r(1) r(3) xor_stream_append)
  qed
qed

lemma decrypt_chunks_started:
  assumes "decipher_holds taken d (dst_pendingTag s)" and "dst_decipher s = Some d"
  shows "\<exists>outs. decrypt_chunks e dek aad s source =
    (outs, (let all = taken @ concat source; n = length all - tag_length
            in if length all < tag_length then Some (Thrown ''Encrypted blob is truncated'')
               else if gcm_tag e dek (dc_iv d) aad (take n all) \<noteq> drop n all
               then Some (Thrown ''Unsupported state or unable to authenticate data'') else None)) \<and>
    xor_stream (aes_keystream e dek (dc_iv d)) 0 (dc_ciphertext d) @ concat outs =
      xor_stream (aes_keystream e dek (dc_iv d)) 0 (take (length (taken @ concat source) - tag_length) (taken @ concat source))"
  using assms
proof (induction source arbitrary: taken d s)
  case Nil
  then have t: "taken = dc_ciphertext d @ dst_pendingTag s" and l: "length (dst_pendingTag s) = min (length taken) tag_length"
    by (auto simp: decipher_holds_def)
  show ?case
  proof (cases "length taken < tag_length")
    case True
    moreover have "length taken = length (dc_ciphertext d) + length (dst_pendingTag s)" by (simp add: t)
    ultimately have "length (dc_ciphertext d) = 0" "length (dst_pendingTag s) \<noteq> tag_length" using l by linarith+
    with True Nil(2) show ?thesis by (simp add: finish_decryption_def)
  next
    case False
    then have "length (dst_pendingTag s) = tag_length" using l by simp
    then show ?thesis using Nil(2) by (simp add: finish_decryption_def t Let_def)
  qed
next
  case (Cons chunk source)
  obtain out pending' d' where p: "push_ciphertext e dek d chunk (dst_pendingTag s) = (out, pending', d')"
    using prod_cases3 by blast
  note h = push_holds [OF Cons.prems(1) p]
  let ?s' = "s\<lparr> dst_pendingTag := pending', dst_decipher := Some d' \<rparr>"
  have "decipher_holds (taken @ chunk) d' (dst_pendingTag ?s')" "dst_decipher ?s' = Some d'" using h by simp_all
  from Cons.IH [OF this] obtain outs where
    o: "decrypt_chunks e dek aad ?s' source =
      (outs, (let all = (taken @ chunk) @ concat source; n = length all - tag_length
            in if length all < tag_length then Some (Thrown ''Encrypted blob is truncated'')
               else if gcm_tag e dek (dc_iv d') aad (take n all) \<noteq> drop n all
               then Some (Thrown ''Unsupported state or unable to authenticate data'') else None))"
    and x: "xor_stream (aes_keystream e dek (dc_iv d')) 0 (dc_ciphertext d') @ concat outs =
      xor_stream (aes_keystream e dek (dc_iv d')) 0 (take (length ((taken @ chunk) @ concat source) - tag_length) ((taken @ chunk) @ concat source))"
    by blast
  have "decrypt_chunk e dek s chunk = Inr (yield_chunk out, ?s')" by (simp add: decrypt_chunk_def Cons.prems(2) p)
  moreover have "concat (yield_chunk out) = out" by (simp add: yield_chunk_def)
  ultimately show ?case using o x h by (intro exI [of _ "yield_chunk out @ outs"]) (simp add: Let_def)
qed

lemma decrypt_chunks_header:
  assumes "dst_decipher s = None" "dst_pendingTag s = []" "length (dst_header s) < header_size"
  shows "collect_stream (Inr (decrypt_chunks e dek aad s source)) = Inr p \<longleftrightarrow>
    (let all = dst_header s @ concat source
     in header_size + tag_length \<le> length all \<and> take (length file_magic) all = file_magic \<and>
        all ! length file_magic = file_version \<and>
        gcm_open e dek (take iv_length (drop (length file_magic + 1) all)) aad
          (take (length all - tag_length - header_size) (drop header_size all)) (drop (length all - tag_length) all) = Inr p)"
  using assms
proof (induction source arbitrary: s)
  case Nil
  then show ?case by (simp add: finish_decryption_def collect_stream_def Let_def)
next
  case (Cons chunk source)
  let ?h = "dst_header s @ chunk" and ?all = "dst_header s @ concat (chunk # source)"
  have size: "header_size = 17" "length file_magic = 4" "iv_length = 12" by (simp_all add: header_size_def file_magic_def iv_length_def)
  show ?case
  proof (cases "length ?h < header_size")
    case True
    have "decrypt_chunk e dek s chunk = Inr ([], s\<lparr> dst_header := ?h \<rparr>)" using True Cons.prems by (simp add: decrypt_chunk_def Let_def)
    with Cons.IH [of "s\<lparr> dst_header := ?h \<rparr>"] True Cons.prems show ?thesis by (simp add: split_def)
  next
    case False
    then have h: "take 4 ?all = take 4 ?h" "?all ! 4 = ?h ! 4" "take 12 (drop 5 ?all) = take 12 (drop 5 ?h)"
      "drop header_size ?all = drop header_size ?h @ concat source" by (auto simp: size nth_append)
    consider "take (length file_magic) ?h \<noteq> file_magic" | "take (length file_magic) ?h = file_magic" "?h ! length file_magic \<noteq> file_version"
      | "take (length file_magic) ?h = file_magic" "?h ! length file_magic = file_version" "length dek \<noteq> key_length"
      | "take (length file_magic) ?h = file_magic" "?h ! length file_magic = file_version" "length dek = key_length" by blast
    then show ?thesis
    proof cases
      case 4
      let ?d = "\<lparr> dc_iv = take iv_length (drop (length file_magic + 1) ?h), dc_ciphertext = [] \<rparr>" and ?r = "drop header_size ?h"
      obtain out tag d' where p: "push_ciphertext e dek ?d ?r [] = (out, tag, d')" using prod_cases3 by blast
      have p0: "push_ciphertext e dek ?d [] [] = ([], [], ?d)" by (simp add: push_ciphertext_def)
      let ?s' = "\<lparr> dst_header = [], dst_pendingTag = tag, dst_decipher = Some d' \<rparr>"
      have c: "decrypt_chunk e dek s chunk = Inr (yield_chunk out, ?s')"
        using 4 False Cons.prems p p0 by (auto simp: decrypt_chunk_def Let_def yield_chunk_def)
      have "decipher_holds [] ?d []" by (simp add: decipher_holds_def)
      note ph = push_holds [OF this p]
      have dh: "decipher_holds ?r d' (dst_pendingTag ?s')" "dst_decipher ?s' = Some d'" using ph by simp_all
      have out: "out = xor_stream (aes_keystream e dek (dc_iv ?d)) 0 (dc_ciphertext d')" "dc_iv d' = dc_iv ?d" using ph by simp_all
      let ?rest = "drop header_size ?all" and ?ks = "aes_keystream e dek (dc_iv ?d)"
      obtain outs where
        o: "decrypt_chunks e dek aad ?s' source =
          (outs, (let all = ?rest; n = length all - tag_length
            in if length all < tag_length then Some (Thrown ''Encrypted blob is truncated'')
               else if gcm_tag e dek (dc_iv ?d) aad (take n all) \<noteq> drop n all
               then Some (Thrown ''Unsupported state or unable to authenticate data'') else None))"
        and x: "out @ concat outs = xor_stream ?ks 0 (take (length ?rest - tag_length) ?rest)"
        using decrypt_chunks_started [OF dh, of e dek aad source] unfolding out h(4) by blast
      have y: "concat (yield_chunk out) = out" by (simp add: yield_chunk_def)
      have l: "length ?rest = length ?all - header_size" by simp
      have "collect_stream (Inr (decrypt_chunks e dek aad s (chunk # source))) = Inr p \<longleftrightarrow>
          tag_length \<le> length ?rest \<and> gcm_tag e dek (dc_iv ?d) aad (take (length ?rest - tag_length) ?rest) = drop (length ?rest - tag_length) ?rest \<and>
          xor_stream ?ks 0 (take (length ?rest - tag_length) ?rest) = p"
        using c o x y by (auto simp: collect_stream_def Let_def)
      also have "\<dots> \<longleftrightarrow> tag_length \<le> length ?rest \<and> gcm_open e dek (dc_iv ?d) aad (take (length ?rest - tag_length) ?rest) (drop (length ?rest - tag_length) ?rest) = Inr p"
        using 4(3) by (auto simp: gcm_open_def)
      finally have main: "collect_stream (Inr (decrypt_chunks e dek aad s (chunk # source))) = Inr p \<longleftrightarrow>
          tag_length \<le> length ?rest \<and> gcm_open e dek (dc_iv ?d) aad (take (length ?rest - tag_length) ?rest) (drop (length ?rest - tag_length) ?rest) = Inr p" .
      have "tag_length \<le> length ?rest \<longleftrightarrow> header_size + tag_length \<le> length ?all" using False unfolding l by auto
      moreover have "header_size + tag_length \<le> length ?all \<Longrightarrow> drop (length ?rest - tag_length) ?rest = drop (length ?all - tag_length) ?all"
        unfolding l by (simp add: add.commute del: drop_append)
      moreover have "length ?rest - tag_length = length ?all - tag_length - header_size" unfolding l by simp
      moreover have "dc_iv ?d = take iv_length (drop (length file_magic + 1) ?all)" using h(3) by (simp add: size)
      moreover have "take (length file_magic) ?all = file_magic" "?all ! length file_magic = file_version" using 4 h by (simp_all add: size)
      ultimately show ?thesis unfolding main Let_def by (metis (no_types, lifting))
    qed (use False Cons.prems h in \<open>auto simp: decrypt_chunk_def collect_stream_def gcm_open_def size Let_def split: if_splits\<close>)
  qed
qed

text \<open>C38: A decrypted stream that ends without an error has yielded exactly what decrypting the whole buffer
  gives, and it ends without an error exactly when decrypting the buffer succeeds, however the blob was cut into chunks:
  the trailing tag is found even when it straddles chunks.\<close>

theorem decrypted_stream_is_decrypted_buffer:
  "collect_stream (decrypt_stream_from_storage e source meta aad) = Inr plain \<longleftrightarrow>
   decrypt_buffer_from_storage e (concat source) meta aad = Inr plain"
proof -
  let ?s = "\<lparr> dst_header = [], dst_pendingTag = [], dst_decipher = None \<rparr>"
  have "collect_stream (Inr (decrypt_chunks e dek aad ?s source)) = Inr plain \<longleftrightarrow>
    (let all = concat source
     in header_size + tag_length \<le> length all \<and> take (length file_magic) all = file_magic \<and>
        all ! length file_magic = file_version \<and>
        gcm_open e dek (take iv_length (drop (length file_magic + 1) all)) aad
          (take (length all - tag_length - header_size) (drop header_size all)) (drop (length all - tag_length) all) = Inr plain)" for dek
    using decrypt_chunks_header [of ?s e dek aad source plain] by (simp add: header_size_def)
  then show ?thesis
    by (auto simp: decrypt_stream_from_storage_def decrypt_buffer_from_storage_def collect_stream_def [of "Inl x" for x]
        collect_stream_def [of "Inr (source, None)"] Let_def not_less split: option.splits sum.splits)
qed

end
