(* ===== verification/Shutdown.thy ===== *)
theory Shutdown
  imports Prelude
begin

text \<open>
  Stopping the process: the tracker of work in progress (\<open>src/utils/inFlight.ts\<close>), the runner that keeps
  retry cycles from overlapping (\<open>createRetryRunner\<close> of \<open>src/email/retry.ts\<close>), and the shutdown sequence
  (\<open>src/startup/shutdown.ts\<close>) as a machine that reacts to one event at a time.
\<close>

section \<open>Work in progress\<close>

record tracker =
  tk_count :: int
  tk_activeKeys :: "string \<Rightarrow> nat option"
  tk_waiters :: "nat list"     \<comment> \<open>the drains that wait, by number\<close>

definition new_tracker :: tracker where
  "new_tracker = \<lparr> tk_count = 0, tk_activeKeys = Map.empty, tk_waiters = [] \<rparr>"

definition is_active :: "string \<Rightarrow> tracker \<Rightarrow> bool" where
  "is_active key t = (0 < or_else (tk_activeKeys t key) 0)"

text \<open>The two halves of \<open>runInternal\<close>, around the work; the second gives the drains it wakes up.\<close>

definition begin_work :: "string option \<Rightarrow> tracker \<Rightarrow> tracker" where
  "begin_work key t =
     (let t1 = t\<lparr> tk_count := tk_count t + 1 \<rparr>
      in if truthy key
         then t1\<lparr> tk_activeKeys := (tk_activeKeys t)(the key \<mapsto> or_else (tk_activeKeys t (the key)) 0 + 1) \<rparr> else t1)"

definition end_work :: "string option \<Rightarrow> tracker \<Rightarrow> tracker \<times> nat list" where
  "end_work key t =
     (let t1 = t\<lparr> tk_count := tk_count t - 1 \<rparr>;
          t2 = (if truthy key
                then (let remaining = or_else (tk_activeKeys t (the key)) 1 - 1
                      in if 0 < remaining then t1\<lparr> tk_activeKeys := (tk_activeKeys t)(the key \<mapsto> remaining) \<rparr>
                         else t1\<lparr> tk_activeKeys := (tk_activeKeys t)(the key := None) \<rparr>)
                else t1)
      in if tk_count t2 = 0 then (t2\<lparr> tk_waiters := [] \<rparr>, tk_waiters t2) else (t2, []))"

text \<open>\<open>drain\<close>: true when it resolves at once; otherwise its waiter is kept until it is woken or times out.\<close>

definition drain :: "nat \<Rightarrow> tracker \<Rightarrow> tracker \<times> bool" where
  "drain i t = (if tk_count t = 0 then (t, True) else (t\<lparr> tk_waiters := tk_waiters t @ [i] \<rparr>, False))"

definition drain_timeout :: "nat \<Rightarrow> tracker \<Rightarrow> tracker" where
  "drain_timeout i t = t\<lparr> tk_waiters := remove1 i (tk_waiters t) \<rparr>"

text \<open>The tracker with the work that is really running.\<close>

inductive tracked :: "tracker \<Rightarrow> string option list \<Rightarrow> bool" where
  tracked_new: "tracked new_tracker []"
| tracked_begin: "tracked t ops \<Longrightarrow> tracked (begin_work k t) (k # ops)"
| tracked_end: "tracked t ops \<Longrightarrow> k \<in> set ops \<Longrightarrow> tracked (fst (end_work k t)) (remove1 k ops)"
| tracked_drain: "tracked t ops \<Longrightarrow> tracked (fst (drain i t)) ops"
| tracked_timeout: "tracked t ops \<Longrightarrow> tracked (drain_timeout i t) ops"

definition keyed_ops :: "string \<Rightarrow> string option list \<Rightarrow> nat" where
  "keyed_ops key ops = length (filter (\<lambda>k. k = Some key) ops)"

definition tracker_exact :: "tracker \<Rightarrow> string option list \<Rightarrow> bool" where
  "tracker_exact t ops \<longleftrightarrow>
     tk_count t = int (length ops) \<and>
     (\<forall>key. key \<noteq> [] \<longrightarrow> tk_activeKeys t key = (if keyed_ops key ops = 0 then None else Some (keyed_ops key ops))) \<and>
     (tk_waiters t \<noteq> [] \<longrightarrow> ops \<noteq> [])"

lemma keyed_ops_simps [simp]:
  "keyed_ops key [] = 0" "keyed_ops key (k # ops) = (if k = Some key then Suc (keyed_ops key ops) else keyed_ops key ops)"
  by (simp_all add: keyed_ops_def)

lemma keyed_ops_remove: "k \<in> set ops \<Longrightarrow> keyed_ops key (remove1 k ops) = keyed_ops key ops - (if k = Some key then 1 else 0)"
  by (simp add: keyed_ops_def filter_remove1 length_remove1)

lemma keyed_ops_pos: "keyed_ops key ops = 0 \<longleftrightarrow> Some key \<notin> set ops"
  by (auto simp: keyed_ops_def filter_empty_conv)

lemma end_work_parts:
  "tk_count (fst (end_work k t)) = tk_count t - 1"
  "tk_waiters (fst (end_work k t)) = (if tk_count t = 1 then [] else tk_waiters t)"
  "tk_activeKeys (fst (end_work k t)) key =
     (if truthy k \<and> k = Some key
      then (let remaining = or_else (tk_activeKeys t key) 1 - 1 in if 0 < remaining then Some remaining else None)
      else tk_activeKeys t key)"
  by (auto simp: end_work_def Let_def truthy_iff)

lemma tracked_exact: "tracked t ops \<Longrightarrow> tracker_exact t ops"
proof (induction rule: tracked.induct)
  case (tracked_end t ops k)
  have len: "0 < length ops" "length (remove1 k ops) = length ops - 1" using tracked_end.hyps(2) by (auto simp: length_remove1)
  have count: "tk_count t = int (length ops)" and wait: "tk_waiters t \<noteq> [] \<longrightarrow> ops \<noteq> []"
    and keys: "\<And>key. key \<noteq> [] \<Longrightarrow> tk_activeKeys t key = (if keyed_ops key ops = 0 then None else Some (keyed_ops key ops))"
    using tracked_end.IH by (auto simp: tracker_exact_def)
  have "int (length ops - 1) = int (length ops) - 1" using len(1) by linarith
  then have c: "tk_count t - 1 = int (length (remove1 k ops))" using count len(2) by simp
  have "tk_activeKeys (fst (end_work k t)) key = (if keyed_ops key (remove1 k ops) = 0 then None else Some (keyed_ops key (remove1 k ops)))"
    if "key \<noteq> []" for key
    using keys [OF that] tracked_end.hyps(2) that keyed_ops_remove [OF tracked_end.hyps(2), of key] keyed_ops_pos [of key ops]
    by (auto simp: end_work_parts truthy_iff Let_def)
  moreover have "tk_count t \<noteq> 1 \<Longrightarrow> remove1 k ops \<noteq> []" using c by auto
  ultimately show ?case unfolding tracker_exact_def end_work_parts(1,2) using c by simp
qed (auto simp: tracker_exact_def new_tracker_def begin_work_def drain_def drain_timeout_def Let_def truthy_iff split: if_splits)

text \<open>The tracker knows exactly what runs.  After any sequence of beginnings, endings, drains and timeouts the
  count is the number of operations in progress, a key counts as active exactly while an operation
  on it runs, a drain waits only while something runs, and it is woken only by the end of the last
  operation.\<close>

theorem tracker_follows_work:
  assumes "tracked t ops"
  shows "tk_count t = int (length ops) \<and> (\<forall>key. key \<noteq> [] \<longrightarrow> is_active key t = (Some key \<in> set ops)) \<and>
    snd (drain i t) = (ops = []) \<and> (tk_waiters t \<noteq> [] \<longrightarrow> ops \<noteq> []) \<and>
    (\<forall>k\<in>set ops. snd (end_work k t) = (if length ops = 1 then tk_waiters t else []))"
proof -
  have x: "tk_count t = int (length ops)" "tk_waiters t \<noteq> [] \<longrightarrow> ops \<noteq> []"
    "\<And>key. key \<noteq> [] \<Longrightarrow> tk_activeKeys t key = (if keyed_ops key ops = 0 then None else Some (keyed_ops key ops))"
    using tracked_exact [OF assms] by (auto simp: tracker_exact_def)
  have "is_active key t = (Some key \<in> set ops)" if "key \<noteq> []" for key
    using x(3) [OF that] keyed_ops_pos [of key ops] by (cases "keyed_ops key ops") (simp_all add: is_active_def)
  moreover have "snd (end_work k t) = (if length ops = 1 then tk_waiters t else [])" for k
    using x(1) by (auto simp: end_work_def Let_def)
  ultimately show ?thesis using x(1,2) by (auto simp: drain_def)
qed

lemma tracker_follows_work_witness:
  "\<exists>t. tracked t [Some ''l1''] \<and> tk_waiters t = [1] \<and> is_active ''l1'' t \<and> \<not> is_active ''l2'' t \<and> snd (end_work (Some ''l1'') t) = [1]"
proof -
  let ?t1 = "begin_work (Some ''l1'') (begin_work (Some ''l2'') new_tracker)"
  let ?t = "fst (drain 1 (fst (end_work (Some ''l2'') ?t1)))"
  have "tracked (begin_work (Some ''l2'') new_tracker) [Some ''l2'']" by (intro tracked.intros)
  then have t1: "tracked ?t1 [Some ''l1'', Some ''l2'']" by (rule tracked_begin)
  have "tracked ?t (remove1 (Some ''l2'') [Some ''l1'', Some ''l2''])" by (intro tracked_drain tracked_end [OF t1]) simp
  then have t: "tracked ?t [Some ''l1'']" by simp
  have w: "tk_waiters ?t = [1]" by code_simp
  show ?thesis using t w tracker_follows_work [OF t, of 0] by (intro exI [of _ ?t]) simp
qed

section \<open>One cycle at a time\<close>

record runner =
  rn_active :: bool
  rn_stopped :: bool

definition new_runner :: runner where "new_runner = \<lparr> rn_active = False, rn_stopped = False \<rparr>"

text \<open>\<open>tick\<close>: true when it starts a run.\<close>

definition runner_tick :: "runner \<Rightarrow> runner \<times> bool" where
  "runner_tick r = (if rn_stopped r then (r, False) else if rn_active r then (r, False) else (r\<lparr> rn_active := True \<rparr>, True))"

definition runner_stop :: "runner \<Rightarrow> runner" where "runner_stop r = r\<lparr> rn_stopped := True \<rparr>"

text \<open>The \<open>finally\<close> of the run's promise.\<close>

definition run_ended :: "runner \<Rightarrow> runner" where "run_ended r = r\<lparr> rn_active := False \<rparr>"

section \<open>The shutdown sequence\<close>

datatype promise = Pending | Fulfilled | Rejected

datatype phase = Running | Closing | Draining | AwaitNotices | ClosingDb | Ended

text \<open>\<open>sd_drain\<close> is \<open>Rejected\<close> when the drain timed out; \<open>sd_exits\<close> are the calls of \<open>exit\<close>.\<close>

record shutdown =
  sd_phase :: phase
  sd_runner :: runner
  sd_http :: promise
  sd_bot :: promise
  sd_polling :: promise
  sd_retry :: promise
  sd_drain :: promise
  sd_notices :: promise
  sd_db :: promise
  sd_storeDestroyed :: bool
  sd_exited :: bool
  sd_exits :: "nat list"

definition finish :: "nat \<Rightarrow> shutdown \<Rightarrow> shutdown" where
  "finish code s = (if sd_exited s then s else s\<lparr> sd_exited := True, sd_exits := sd_exits s @ [code] \<rparr>)"

definition end_sequence :: "shutdown \<Rightarrow> shutdown" where "end_sequence s = s\<lparr> sd_phase := Ended \<rparr>"

text \<open>The \<open>catch\<close> of the sequence.\<close>

definition fail_sequence :: "shutdown \<Rightarrow> shutdown" where
  "fail_sequence s = end_sequence (if sd_exited s then s else finish 1 s)"

text \<open>The continuation after an event: each \<open>await\<close> that has what it waits for goes on, until the
  next one that has not; \<open>Promise.all\<close> fails with the first rejection.\<close>

definition after_db :: "shutdown \<Rightarrow> shutdown" where
  "after_db s =
     (case sd_db s of
        Pending \<Rightarrow> s
      | Rejected \<Rightarrow> fail_sequence s
      | Fulfilled \<Rightarrow> if sd_exited s then end_sequence s else end_sequence (finish 0 s))"

definition after_notices :: "shutdown \<Rightarrow> shutdown" where
  "after_notices s =
     (case sd_notices s of
        Pending \<Rightarrow> s
      | Rejected \<Rightarrow> fail_sequence s
      | Fulfilled \<Rightarrow>
          if sd_exited s then end_sequence s
          else after_db (s\<lparr> sd_storeDestroyed := True, sd_phase := ClosingDb \<rparr>))"

definition after_drains :: "shutdown \<Rightarrow> shutdown" where
  "after_drains s =
     (if sd_polling s = Rejected \<or> sd_retry s = Rejected then fail_sequence s
      else if sd_polling s = Pending \<or> sd_retry s = Pending \<or> sd_drain s = Pending then s
      else if sd_drain s = Rejected then end_sequence (finish 1 s)
      else if sd_exited s then end_sequence s
      else after_notices (s\<lparr> sd_phase := AwaitNotices \<rparr>))"

definition after_closing :: "shutdown \<Rightarrow> shutdown" where
  "after_closing s =
     (if sd_http s = Rejected then fail_sequence s
      else if sd_http s = Pending \<or> sd_bot s = Pending then s
      else if sd_exited s then end_sequence s
      else after_drains (s\<lparr> sd_phase := Draining \<rparr>))"

definition advance :: "shutdown \<Rightarrow> shutdown" where
  "advance s =
     (case sd_phase s of
        Closing \<Rightarrow> after_closing s
      | Draining \<Rightarrow> after_drains s
      | AwaitNotices \<Rightarrow> after_notices s
      | ClosingDb \<Rightarrow> after_db s
      | _ \<Rightarrow> s)"

datatype shutdown_event =
    Signal
  | HttpDone bool | BotDone | PollingDone bool | RetryDone | DrainDone bool | NoticesDone bool | DbDone bool
  | Watchdog
  | Tick                     \<comment> \<open>of the retry cron\<close>

definition settled_promise :: "bool \<Rightarrow> promise" where "settled_promise ok = (if ok then Fulfilled else Rejected)"

text \<open>A promise settles once, and those of the later steps only once the step has begun them.  The
  promise of a retry run never rejects, and a failing \<open>stopBot\<close> is caught.\<close>

definition shutdown_event :: "shutdown_event \<Rightarrow> shutdown \<Rightarrow> shutdown" where
  "shutdown_event v s =
     (case v of
        Signal \<Rightarrow>
          if sd_phase s \<noteq> Running then s
          else advance (s\<lparr> sd_phase := Closing, sd_runner := runner_stop (sd_runner s),
                 sd_retry := (if rn_active (sd_runner s) then Pending else Fulfilled) \<rparr>)
      | HttpDone ok \<Rightarrow> if sd_phase s = Running \<or> sd_http s \<noteq> Pending then s else advance (s\<lparr> sd_http := settled_promise ok \<rparr>)
      | BotDone \<Rightarrow> if sd_phase s = Running \<or> sd_bot s \<noteq> Pending then s else advance (s\<lparr> sd_bot := Fulfilled \<rparr>)
      | PollingDone ok \<Rightarrow> if sd_phase s = Running \<or> sd_polling s \<noteq> Pending then s else advance (s\<lparr> sd_polling := settled_promise ok \<rparr>)
      | RetryDone \<Rightarrow>
          if \<not> rn_active (sd_runner s) then s
          else if sd_phase s = Running then s\<lparr> sd_runner := run_ended (sd_runner s) \<rparr>
          else advance (s\<lparr> sd_runner := run_ended (sd_runner s), sd_retry := Fulfilled \<rparr>)
      | DrainDone ok \<Rightarrow> if sd_phase s \<noteq> Draining \<or> sd_drain s \<noteq> Pending then s else advance (s\<lparr> sd_drain := settled_promise ok \<rparr>)
      | NoticesDone ok \<Rightarrow> if sd_phase s = Running \<or> sd_notices s \<noteq> Pending then s else advance (s\<lparr> sd_notices := settled_promise ok \<rparr>)
      | DbDone ok \<Rightarrow> if sd_phase s \<noteq> ClosingDb \<or> sd_db s \<noteq> Pending then s else advance (s\<lparr> sd_db := settled_promise ok \<rparr>)
      | Watchdog \<Rightarrow> if sd_phase s = Running \<or> sd_exited s then s else finish 1 s
      | Tick \<Rightarrow> s\<lparr> sd_runner := fst (runner_tick (sd_runner s)) \<rparr>)"

definition start_shutdown :: shutdown where
  "start_shutdown = \<lparr> sd_phase = Running, sd_runner = new_runner, sd_http = Pending, sd_bot = Pending, sd_polling = Pending,
     sd_retry = Pending, sd_drain = Pending, sd_notices = Pending, sd_db = Pending, sd_storeDestroyed = False, sd_exited = False, sd_exits = [] \<rparr>"

inductive shutdown_reach :: "shutdown \<Rightarrow> bool" where
  reach_start: "shutdown_reach start_shutdown"
| reach_event: "shutdown_reach s \<Longrightarrow> shutdown_reach (shutdown_event v s)"

definition everything_done :: "shutdown \<Rightarrow> bool" where
  "everything_done s \<longleftrightarrow>
     sd_http s = Fulfilled \<and> sd_bot s = Fulfilled \<and> sd_polling s = Fulfilled \<and> sd_retry s = Fulfilled \<and> sd_drain s = Fulfilled \<and>
     sd_notices s = Fulfilled \<and> \<not> rn_active (sd_runner s)"

definition shutdown_inv :: "shutdown \<Rightarrow> bool" where
  "shutdown_inv s \<longleftrightarrow>
     sd_bot s \<noteq> Rejected \<and> sd_retry s \<noteq> Rejected \<and>
     (sd_exited s = (sd_exits s \<noteq> [])) \<and> length (sd_exits s) \<le> 1 \<and>
     (sd_phase s \<noteq> Running \<longrightarrow> rn_stopped (sd_runner s)) \<and>
     (sd_phase s \<noteq> Running \<and> sd_retry s = Fulfilled \<longrightarrow> \<not> rn_active (sd_runner s)) \<and>
     (sd_phase s = Running \<longrightarrow> sd_http s = Pending \<and> sd_bot s = Pending \<and> sd_polling s = Pending \<and> sd_drain s = Pending \<and>
        sd_notices s = Pending \<and> sd_db s = Pending \<and> \<not> sd_storeDestroyed s \<and> sd_exits s = []) \<and>
     (sd_phase s \<in> {Closing} \<longrightarrow> sd_drain s = Pending) \<and>
     (sd_phase s \<in> {Closing, Draining, AwaitNotices} \<longrightarrow> sd_db s = Pending \<and> \<not> sd_storeDestroyed s) \<and>
     (sd_phase s \<in> {Draining, AwaitNotices} \<longrightarrow> sd_http s = Fulfilled \<and> sd_bot s = Fulfilled) \<and>
     (sd_phase s = AwaitNotices \<longrightarrow> sd_polling s = Fulfilled \<and> sd_retry s = Fulfilled \<and> sd_drain s = Fulfilled) \<and>
     (sd_phase s = Ended \<longrightarrow> sd_exits s \<noteq> []) \<and>
     (sd_phase s = ClosingDb \<or> sd_storeDestroyed s \<or> sd_db s \<noteq> Pending \<longrightarrow> everything_done s \<and> sd_storeDestroyed s) \<and>
     (0 \<in> set (sd_exits s) \<longrightarrow> everything_done s \<and> sd_db s = Fulfilled)"

lemma fulfilled_iff: "p = Fulfilled \<longleftrightarrow> p \<noteq> Pending \<and> p \<noteq> Rejected"
  by (cases p) simp_all

lemma fail_inv: "shutdown_inv s \<Longrightarrow> sd_phase s \<notin> {Running} \<Longrightarrow> shutdown_inv (fail_sequence s)"
  by (cases "sd_exited s") (simp_all add: shutdown_inv_def everything_done_def fail_sequence_def end_sequence_def finish_def)

lemma end_inv: "shutdown_inv s \<Longrightarrow> sd_exited s \<Longrightarrow> sd_phase s \<noteq> Running \<Longrightarrow> shutdown_inv (end_sequence s)"
  by (simp add: shutdown_inv_def everything_done_def end_sequence_def)

lemma after_db_inv:
  assumes "shutdown_inv s" "sd_phase s = ClosingDb"
  shows "shutdown_inv (after_db s)"
proof (cases "sd_db s")
  case Fulfilled
  show ?thesis
  proof (cases "sd_exited s")
    case False
    then show ?thesis using assms Fulfilled
      by (simp add: after_db_def finish_def end_sequence_def shutdown_inv_def everything_done_def)
  qed (use assms Fulfilled in \<open>simp add: after_db_def end_inv\<close>)
qed (use assms in \<open>simp_all add: after_db_def fail_inv\<close>)

lemma after_notices_inv:
  assumes "shutdown_inv s" "sd_phase s = AwaitNotices"
  shows "shutdown_inv (after_notices s)"
proof (cases "sd_notices s")
  case Fulfilled
  show ?thesis
  proof (cases "sd_exited s")
    case False
    have "shutdown_inv (s\<lparr> sd_storeDestroyed := True, sd_phase := ClosingDb \<rparr>)"
      using assms Fulfilled False by (simp add: shutdown_inv_def everything_done_def)
    then show ?thesis using False Fulfilled by (simp add: after_notices_def after_db_inv)
  qed (use assms Fulfilled in \<open>simp add: after_notices_def end_inv\<close>)
qed (use assms in \<open>simp_all add: after_notices_def fail_inv\<close>)

lemma after_drains_inv:
  assumes "shutdown_inv s" "sd_phase s = Draining"
  shows "shutdown_inv (after_drains s)"
proof -
  have ready: "shutdown_inv (s\<lparr> sd_phase := AwaitNotices \<rparr>)" if "sd_polling s = Fulfilled" "sd_retry s = Fulfilled" "sd_drain s = Fulfilled"
    using assms that by (auto simp: shutdown_inv_def everything_done_def)
  have timeout: "shutdown_inv (end_sequence (finish 1 s))"
    using fail_inv [OF assms(1)] assms(2) by (simp add: fail_sequence_def finish_def split: if_splits)
  show ?thesis
    using assms ready timeout fail_inv [OF assms(1)] end_inv [OF assms(1)] after_notices_inv [of "s\<lparr> sd_phase := AwaitNotices \<rparr>"]
    by (cases "sd_polling s"; cases "sd_retry s"; cases "sd_drain s") (simp_all add: after_drains_def)
qed

lemma after_closing_inv:
  assumes "shutdown_inv s" "sd_phase s = Closing"
  shows "shutdown_inv (after_closing s)"
proof -
  have "shutdown_inv (s\<lparr> sd_phase := Draining \<rparr>)" if "sd_http s = Fulfilled" "sd_bot s = Fulfilled"
    using assms that by (auto simp: shutdown_inv_def everything_done_def)
  moreover have "sd_bot s \<noteq> Rejected" using assms by (simp add: shutdown_inv_def)
  ultimately show ?thesis
    using assms fail_inv [OF assms(1)] end_inv [OF assms(1)] after_drains_inv [of "s\<lparr> sd_phase := Draining \<rparr>"]
    by (cases "sd_http s"; cases "sd_bot s") (simp_all add: after_closing_def)
qed

lemma advance_inv: "shutdown_inv s \<Longrightarrow> shutdown_inv (advance s)"
  by (simp add: advance_def after_closing_inv after_drains_inv after_notices_inv after_db_inv split: phase.splits)

text \<open>A settled promise is what the sequence may be waiting for; before it goes on the invariant holds.\<close>

lemma settle_inv:
  assumes "shutdown_inv s" "sd_phase s \<noteq> Running"
  shows "sd_http s = Pending \<Longrightarrow> shutdown_inv (s\<lparr> sd_http := p \<rparr>)"
    "sd_bot s = Pending \<Longrightarrow> shutdown_inv (s\<lparr> sd_bot := Fulfilled \<rparr>)"
    "sd_polling s = Pending \<Longrightarrow> shutdown_inv (s\<lparr> sd_polling := p \<rparr>)"
    "sd_notices s = Pending \<Longrightarrow> shutdown_inv (s\<lparr> sd_notices := p \<rparr>)"
    "sd_drain s = Pending \<Longrightarrow> sd_phase s = Draining \<Longrightarrow> shutdown_inv (s\<lparr> sd_drain := p \<rparr>)"
    "sd_db s = Pending \<Longrightarrow> sd_phase s = ClosingDb \<Longrightarrow> shutdown_inv (s\<lparr> sd_db := p \<rparr>)"
    "shutdown_inv (s\<lparr> sd_runner := run_ended (sd_runner s), sd_retry := Fulfilled \<rparr>)"
  using assms by (auto simp: shutdown_inv_def everything_done_def run_ended_def)

lemma reach_inv: "shutdown_reach s \<Longrightarrow> shutdown_inv s"
proof (induction rule: shutdown_reach.induct)
  case reach_start
  then show ?case by (simp add: shutdown_inv_def start_shutdown_def new_runner_def)
next
  case (reach_event s v)
  note settle = settle_inv [OF reach_event.IH]
  show ?case
  proof (cases v)
    case Signal
    have "shutdown_inv (s\<lparr> sd_phase := Closing, sd_runner := runner_stop (sd_runner s),
                 sd_retry := (if rn_active (sd_runner s) then Pending else Fulfilled) \<rparr>)" if "sd_phase s = Running"
      using reach_event.IH that by (auto simp: shutdown_inv_def everything_done_def runner_stop_def)
    then show ?thesis using reach_event.IH by (simp add: shutdown_event_def Signal advance_inv)
  next
    case Tick
    show ?thesis
    proof (cases "sd_phase s = Running")
      case True
      then show ?thesis using reach_event.IH Tick by (simp add: shutdown_event_def shutdown_inv_def everything_done_def)
    next
      case False
      then have "shutdown_event v s = s" using reach_event.IH Tick by (simp add: shutdown_event_def shutdown_inv_def runner_tick_def)
      then show ?thesis using reach_event.IH by simp
    qed
  next
    case Watchdog
    then show ?thesis using reach_event.IH by (auto simp: shutdown_event_def shutdown_inv_def everything_done_def finish_def)
  next
    case RetryDone
    have "shutdown_inv (s\<lparr> sd_runner := run_ended (sd_runner s) \<rparr>)" if "sd_phase s = Running"
      using reach_event.IH that by (auto simp: shutdown_inv_def everything_done_def run_ended_def)
    then show ?thesis using reach_event.IH settle(7) by (simp add: shutdown_event_def RetryDone advance_inv)
  next
    case (HttpDone ok)
    then show ?thesis using reach_event.IH by (simp add: shutdown_event_def advance_inv settle(1))
  next
    case BotDone
    then show ?thesis using reach_event.IH by (simp add: shutdown_event_def advance_inv settle(2))
  next
    case (PollingDone ok)
    then show ?thesis using reach_event.IH by (simp add: shutdown_event_def advance_inv settle(3))
  next
    case (DrainDone ok)
    then show ?thesis using reach_event.IH by (simp add: shutdown_event_def advance_inv settle(5))
  next
    case (NoticesDone ok)
    then show ?thesis using reach_event.IH by (simp add: shutdown_event_def advance_inv settle(4))
  next
    case (DbDone ok)
    then show ?thesis using reach_event.IH by (simp add: shutdown_event_def advance_inv settle(6))
  qed
qed


definition clean_shutdown :: "shutdown_event list" where
  "clean_shutdown = [Tick, Signal, Tick, BotDone, HttpDone True, PollingDone True, RetryDone, DrainDone True, NoticesDone True, DbDone True, Watchdog]"

lemma reach_events: "shutdown_reach s \<Longrightarrow> shutdown_reach (fold shutdown_event vs s)"
  by (induction vs arbitrary: s) (auto intro: reach_event)


end
