(* ===== verification/Guarded.thy ===== *)
theory Guarded
  imports DeliveryRoute
begin

text \<open>
  Computations that keep an invariant of the database while everything they send or write is
  allowed: \<open>keeps\<close> and \<open>emits\<close> of the effect layer together, for computations whose events are
  justified by what they have read before.  The environment is fixed, because the justification may
  be an answer of it.
\<close>

definition guarded :: "env \<Rightarrow> (db \<Rightarrow> bool) \<Rightarrow> (event \<Rightarrow> bool) \<Rightarrow> 'a io \<Rightarrow> bool" where
  "guarded e I G m \<longleftrightarrow> (\<forall>w. I (w_db w) \<longrightarrow> I (w_db (snd (m e w))) \<and>
     (\<exists>es. w_trace (snd (m e w)) = w_trace w @ es \<and> (\<forall>v\<in>set es. G v)))"

named_theorems guarded_rules \<open>guarded computations\<close>

lemma guardedI:
  assumes "\<And>w. I (w_db w) \<Longrightarrow> I (w_db (snd (m e w))) \<and> (\<exists>es. w_trace (snd (m e w)) = w_trace w @ es \<and> (\<forall>v\<in>set es. G v))"
  shows "guarded e I G m"
  using assms by (simp add: guarded_def)

lemma guardedE:
  assumes "guarded e I G m" "I (w_db w)" "m e w = (r, w')"
  obtains es where "I (w_db w')" "w_trace w' = w_trace w @ es" "\<forall>v\<in>set es. G v"
  using assms unfolding guarded_def by (metis snd_conv)

lemma guarded_parts: "keeps I m \<Longrightarrow> emits G m \<Longrightarrow> guarded e I G m"
  by (simp add: keeps_def emits_def guarded_def)

lemma guarded_mono: "guarded e I G m \<Longrightarrow> (\<And>v. G v \<Longrightarrow> H v) \<Longrightarrow> guarded e I H m"
  unfolding guarded_def by meson

lemma guarded_ret [guarded_rules]: "guarded e I G (ret a)"
  and guarded_throw [guarded_rules]: "guarded e I G (throw x)"
  and guarded_ask [guarded_rules]: "guarded e I G (ask f)"
  and guarded_of_result [guarded_rules]: "guarded e I G (of_result r)"
  and guarded_at_tick [guarded_rules]: "guarded e I G (at_tick g)"
  and guarded_now [guarded_rules]: "guarded e I G now"
  and guarded_uuid [guarded_rules]: "guarded e I G random_uuid"
  and guarded_lock [guarded_rules]: "guarded e I G advisory_lock"
  and guarded_read [guarded_rules]: "guarded e I G (db_read h)"
  by (intro guarded_parts keeps_rules emits_rules)+

lemma guarded_emit [guarded_rules]: "G v \<Longrightarrow> guarded e I G (emit v)"
  by (intro guarded_parts keeps_rules emits_rules)

lemma guarded_telegram [guarded_rules]: "G (Requested r) \<Longrightarrow> guarded e I G (call_telegram r)"
  by (intro guarded_parts keeps_rules emits_rules)

lemma guarded_stmt:
  assumes "\<And>t d a d'. I d \<Longrightarrow> f t d = Inr (a, d') \<Longrightarrow> I d'"
  shows "guarded e I G (db_stmt f)"
  by (intro guarded_parts keeps_db_stmt emits_rules) (rule assms)

lemma guarded_total_stmt:
  assumes "\<And>d. I d \<Longrightarrow> I (snd (f d))"
  shows "guarded e I G (db_stmt (\<lambda>_ d. Inr (f d)))"
  by (rule guarded_stmt) (metis assms Inr_inject snd_conv)

lemma guarded_write: "(\<And>d. I d \<Longrightarrow> I (f d)) \<Longrightarrow> guarded e I G (db_write f)"
  by (intro guarded_parts keeps_db_write emits_rules)

text \<open>The continuation may rely on the value the first part returned and on the invariant.\<close>

lemma guarded_bind_run:
  assumes "guarded e I G m" and "\<And>w a w'. I (w_db w) \<Longrightarrow> m e w = (Inr a, w') \<Longrightarrow> guarded e I G (f a)"
  shows "guarded e I G (bind m f)"
proof (rule guardedI)
  fix w :: world assume I: "I (w_db w)"
  obtain r w' where m: "m e w = (r, w')" by fastforce
  obtain es where es: "I (w_db w')" "w_trace w' = w_trace w @ es" "\<forall>v\<in>set es. G v" using guardedE [OF assms(1) I m] .
  show "I (w_db (snd (bind m f e w))) \<and> (\<exists>es. w_trace (snd (bind m f e w)) = w_trace w @ es \<and> (\<forall>v\<in>set es. G v))"
  proof (cases r)
    case (Inl x)
    with m es show ?thesis by (auto simp: bind_def)
  next
    case (Inr a)
    obtain r2 w2 where f: "f a e w' = (r2, w2)" by fastforce
    obtain es' where "I (w_db w2)" "w_trace w2 = w_trace w' @ es'" "\<forall>v\<in>set es'. G v"
      using guardedE [OF assms(2) [OF I m [unfolded Inr]] es(1) f] .
    with m es Inr f show ?thesis by (auto simp: bind_def intro!: exI [of _ "es @ es'"])
  qed
qed

text \<open>What the first part returned may strengthen the invariant for the second.\<close>

lemma guarded_bind_strong:
  assumes "guarded e I G m"
    and "\<And>w a w'. I (w_db w) \<Longrightarrow> m e w = (Inr a, w') \<Longrightarrow> I (w_db w') \<Longrightarrow>
      \<exists>J. J (w_db w') \<and> (\<forall>d. J d \<longrightarrow> I d) \<and> guarded e J G (f a)"
  shows "guarded e I G (bind m f)"
proof (rule guardedI)
  fix w :: world assume I: "I (w_db w)"
  obtain r w' where m: "m e w = (r, w')" by fastforce
  obtain es where es: "I (w_db w')" "w_trace w' = w_trace w @ es" "\<forall>v\<in>set es. G v" using guardedE [OF assms(1) I m] .
  show "I (w_db (snd (bind m f e w))) \<and> (\<exists>es. w_trace (snd (bind m f e w)) = w_trace w @ es \<and> (\<forall>v\<in>set es. G v))"
  proof (cases r)
    case (Inl x)
    with m es show ?thesis by (auto simp: bind_def)
  next
    case (Inr a)
    obtain r2 w2 where f: "f a e w' = (r2, w2)" by fastforce
    obtain J where J: "J (w_db w')" "\<forall>d. J d \<longrightarrow> I d" "guarded e J G (f a)" using assms(2) [OF I m [unfolded Inr] es(1)] by blast
    obtain es' where "J (w_db w2)" "w_trace w2 = w_trace w' @ es'" "\<forall>v\<in>set es'. G v" using guardedE [OF J(3,1) f] .
    with m es Inr f J show ?thesis by (auto simp: bind_def intro!: exI [of _ "es @ es'"])
  qed
qed

lemma guarded_bind [guarded_rules]: "guarded e I G m \<Longrightarrow> (\<And>a. guarded e I G (f a)) \<Longrightarrow> guarded e I G (bind m f)"
  by (rule guarded_bind_run)

lemma guarded_bind_read: "(\<And>d. I d \<Longrightarrow> guarded e I G (f (h d))) \<Longrightarrow> guarded e I G (bind (db_read h) f)"
  by (rule guarded_bind_run) (auto simp: db_read_Inr intro: guarded_rules)

lemma guarded_catch [guarded_rules]:
  assumes "guarded e I G m" and "\<And>x. guarded e I G (h x)"
  shows "guarded e I G (catch m h)"
proof (rule guardedI)
  fix w :: world assume I: "I (w_db w)"
  obtain r w' where m: "m e w = (r, w')" by fastforce
  obtain es where es: "I (w_db w')" "w_trace w' = w_trace w @ es" "\<forall>v\<in>set es. G v" using guardedE [OF assms(1) I m] .
  show "I (w_db (snd (catch m h e w))) \<and> (\<exists>es. w_trace (snd (catch m h e w)) = w_trace w @ es \<and> (\<forall>v\<in>set es. G v))"
  proof (cases r)
    case (Inr a)
    with m es show ?thesis by (auto simp: catch_def)
  next
    case (Inl x)
    obtain r2 w2 where f: "h x e w' = (r2, w2)" by fastforce
    obtain es' where "I (w_db w2)" "w_trace w2 = w_trace w' @ es'" "\<forall>v\<in>set es'. G v"
      using guardedE [OF assms(2) es(1) f] .
    with m es Inl f show ?thesis by (auto simp: catch_def intro!: exI [of _ "es @ es'"])
  qed
qed

lemma guarded_swallow [guarded_rules]: "guarded e I G m \<Longrightarrow> guarded e I G (swallow m)"
  unfolding swallow_def by (intro guarded_rules)

lemma guarded_try [guarded_rules]: "guarded e I G m \<Longrightarrow> guarded e I G (try_io m)"
  unfolding try_io_def by (simp add: guarded_def)

lemma guarded_transaction [guarded_rules]:
  assumes "guarded e I G m"
  shows "guarded e I G (transaction m)"
proof (rule guardedI)
  fix w :: world assume I: "I (w_db w)"
  obtain r w2 where m: "m e (begin_tx e w) = (r, w2)" by fastforce
  obtain es where es: "I (w_db w2)" "w_trace w2 = w_trace w @ es" "\<forall>v\<in>set es. G v"
    using guardedE [OF assms _ m] I by auto
  obtain q w' where t: "transaction m e w = (q, w')" by fastforce
  have "I (w_db w')" using transaction_atomic [OF t] m I es(1) by auto
  moreover have "w_trace w' = w_trace w \<or> w_trace w' = w_trace w2"
    using transaction_trace [of m e w] t m by (auto simp: begin_tx_def split: if_splits)
  ultimately show "I (w_db (snd (transaction m e w))) \<and> (\<exists>es. w_trace (snd (transaction m e w)) = w_trace w @ es \<and> (\<forall>v\<in>set es. G v))"
    using t es by auto
qed

lemma guarded_for_each:
  "(\<And>x. x \<in> set xs \<Longrightarrow> guarded e I G (f x)) \<Longrightarrow> guarded e I G (for_each xs f)"
  by (induction xs) (auto intro!: guarded_rules)

lemma guarded_for_map:
  "(\<And>x. x \<in> set xs \<Longrightarrow> guarded e I G (f x)) \<Longrightarrow> guarded e I G (for_map xs f)"
  by (induction xs) (auto intro!: guarded_rules)

lemma guarded_if [guarded_rules]: "(b \<Longrightarrow> guarded e I G m) \<Longrightarrow> (\<not> b \<Longrightarrow> guarded e I G n) \<Longrightarrow> guarded e I G (if b then m else n)"
  by simp

lemma guarded_case_option [guarded_rules]:
  "(v = None \<Longrightarrow> guarded e I G m) \<Longrightarrow> (\<And>x. v = Some x \<Longrightarrow> guarded e I G (f x)) \<Longrightarrow>
   guarded e I G (case v of None \<Rightarrow> m | Some x \<Rightarrow> f x)"
  by (cases v) auto

lemma guarded_case_sum [guarded_rules]:
  "(\<And>x. v = Inl x \<Longrightarrow> guarded e I G (f x)) \<Longrightarrow> (\<And>x. v = Inr x \<Longrightarrow> guarded e I G (g x)) \<Longrightarrow>
   guarded e I G (case v of Inl x \<Rightarrow> f x | Inr x \<Rightarrow> g x)"
  by (cases v) auto

lemma guarded_case_prod [guarded_rules]:
  "(\<And>x y. v = (x, y) \<Longrightarrow> guarded e I G (f x y)) \<Longrightarrow> guarded e I G (case v of (x, y) \<Rightarrow> f x y)"
  by (cases v) auto

section \<open>Computations that cannot throw\<close>

definition never_throws :: "'a io \<Rightarrow> bool" where
  "never_throws m \<longleftrightarrow> (\<forall>e w. \<exists>a. fst (m e w) = Inr a)"

named_theorems never_throws_rules \<open>computations that return whatever fails\<close>

lemma never_throws_ret [never_throws_rules]: "never_throws (ret a)"
  and never_throws_ask [never_throws_rules]: "never_throws (ask f)"
  and never_throws_emit [never_throws_rules]: "never_throws (emit v)"
  and never_throws_now [never_throws_rules]: "never_throws now"
  and never_throws_tick [never_throws_rules]: "never_throws (at_tick g)"
  by (simp_all add: never_throws_def ret_def ask_def emit_def now_def at_tick_def)

lemma never_throws_swallow [never_throws_rules]: "never_throws (swallow m)"
  by (simp add: never_throws_def swallow_returns)

lemma never_throws_try [never_throws_rules]: "never_throws (try_io m)"
  by (simp add: never_throws_def try_io_def)

lemma never_throws_bind [never_throws_rules]:
  "never_throws m \<Longrightarrow> (\<And>a. never_throws (f a)) \<Longrightarrow> never_throws (bind m f)"
  unfolding never_throws_def bind_def by (auto split: prod.splits sum.splits) (metis fst_conv Inl_Inr_False)+

lemma never_throws_catch [never_throws_rules]:
  "(\<And>x. never_throws (h x)) \<Longrightarrow> never_throws (catch m h)"
  unfolding never_throws_def catch_def by (auto split: prod.splits sum.splits)

lemma never_throws_if [never_throws_rules]:
  "(b \<Longrightarrow> never_throws m) \<Longrightarrow> (\<not> b \<Longrightarrow> never_throws n) \<Longrightarrow> never_throws (if b then m else n)"
  by simp

lemma never_throws_for_each [never_throws_rules]: "(\<And>x. never_throws (f x)) \<Longrightarrow> never_throws (for_each xs f)"
  by (induction xs) (auto intro!: never_throws_rules)

lemma never_throws_case_sum [never_throws_rules]:
  "(\<And>x. v = Inl x \<Longrightarrow> never_throws (f x)) \<Longrightarrow> (\<And>x. v = Inr x \<Longrightarrow> never_throws (g x)) \<Longrightarrow>
   never_throws (case v of Inl x \<Rightarrow> f x | Inr x \<Rightarrow> g x)"
  by (cases v) auto

lemma never_throws_case_option [never_throws_rules]:
  "(v = None \<Longrightarrow> never_throws m) \<Longrightarrow> (\<And>x. v = Some x \<Longrightarrow> never_throws (f x)) \<Longrightarrow>
   never_throws (case v of None \<Rightarrow> m | Some x \<Rightarrow> f x)"
  by (cases v) auto

section \<open>Computations that stay inside their transaction\<close>

definition inside :: "'a io \<Rightarrow> bool" where
  "inside m \<longleftrightarrow> (\<forall>e w. w_tx w \<noteq> NoTx \<longrightarrow> w_tx (snd (m e w)) \<noteq> NoTx)"

named_theorems inside_rules \<open>computations without a transaction of their own\<close>

lemma insideD: "inside m \<Longrightarrow> m e w = (r, w') \<Longrightarrow> w_tx w \<noteq> NoTx \<Longrightarrow> w_tx w' \<noteq> NoTx"
  unfolding inside_def by (metis snd_conv)

lemma inside_ret [inside_rules]: "inside (ret a)"
  and inside_throw [inside_rules]: "inside (throw x)"
  and inside_ask [inside_rules]: "inside (ask f)"
  and inside_of_result [inside_rules]: "inside (of_result r)"
  and inside_tick [inside_rules]: "inside (at_tick g)"
  and inside_now [inside_rules]: "inside now"
  and inside_uuid [inside_rules]: "inside random_uuid"
  and inside_emit [inside_rules]: "inside (emit v)"
  by (simp_all add: inside_def ret_def throw_def ask_def of_result_def at_tick_def now_def random_uuid_def emit_def)

lemma inside_stmt [inside_rules]: "inside (db_stmt f)"
  by (auto simp: inside_def db_stmt_def abort_def break_tx_def Let_def split: fault.splits sum.splits prod.splits)

lemma inside_read [inside_rules]: "inside (db_read f)"
  and inside_write [inside_rules]: "inside (db_write g)"
  and inside_lock [inside_rules]: "inside advisory_lock"
  by (simp_all add: db_read_def db_write_def advisory_lock_def inside_stmt)

lemma inside_bind [inside_rules]: "inside m \<Longrightarrow> (\<And>a. inside (f a)) \<Longrightarrow> inside (bind m f)"
  unfolding inside_def bind_def by (auto split: prod.splits sum.splits) (metis snd_conv)+

lemma inside_catch [inside_rules]: "inside m \<Longrightarrow> (\<And>x. inside (h x)) \<Longrightarrow> inside (catch m h)"
  unfolding inside_def catch_def by (auto split: prod.splits sum.splits) (metis snd_conv)+

lemma inside_if [inside_rules]: "(b \<Longrightarrow> inside m) \<Longrightarrow> (\<not> b \<Longrightarrow> inside n) \<Longrightarrow> inside (if b then m else n)"
  by simp

lemma inside_case_option [inside_rules]:
  "(v = None \<Longrightarrow> inside m) \<Longrightarrow> (\<And>x. v = Some x \<Longrightarrow> inside (f x)) \<Longrightarrow> inside (case v of None \<Rightarrow> m | Some x \<Rightarrow> f x)"
  by (cases v) auto

lemma inside_case_prod [inside_rules]:
  "(\<And>x y. v = (x, y) \<Longrightarrow> inside (f x y)) \<Longrightarrow> inside (case v of (x, y) \<Rightarrow> f x y)"
  by (cases v) auto

text \<open>A transaction around such a computation ends in the computation's database, or changes nothing.\<close>

lemma transaction_inside:
  assumes "transaction m e w = (r, w')" "inside m"
  obtains "w_db w' = w_db w" "\<forall>a. r = Inr a \<longrightarrow> (\<exists>w2. m e (begin_tx e w) = (Inr a, w2) \<and> w_tx w2 = Aborted)"
  | a w2 where "m e (begin_tx e w) = (Inr a, w2)" "w_tx w2 = InTx" "w_db w' = w_db w2" "r = Inr a \<or> (\<exists>x. r = Inl x)"
proof -
  obtain q w2 where m: "m e (begin_tx e w) = (q, w2)" by fastforce
  have n: "w_tx w2 \<noteq> NoTx" by (rule insideD [OF assms(2) m]) simp
  note t = assms(1) [unfolded transaction_def Let_def begin_tx_def [symmetric]]
  show thesis
  proof (cases "db_fault e (w_tick w) = Fine")
    case False
    with t that(1) show thesis by auto
  next
    case True
    show thesis
    proof (cases q)
      case (Inl x)
      with t m True that(1) show thesis by auto
    next
      case (Inr a)
      show thesis
      proof (cases "w_tx w2")
        case InTx
        show thesis
        proof (cases "w_db w' = w_db w2")
          case True
          have "r = Inr a \<or> (\<exists>x. r = Inl x)" using t m Inr \<open>db_fault e (w_tick w) = Fine\<close> InTx by (auto split: fault.splits)
          with True InTx m Inr that(2) show thesis by simp
        next
          case False
          with t m Inr InTx \<open>db_fault e (w_tick w) = Fine\<close> that(1) show thesis by (auto split: fault.splits)
        qed
      next
        case Aborted
        with t m Inr True that(1) show thesis by (auto split: if_splits)
      next
        case Broken
        with t m Inr True that(1) show thesis by auto
      qed (use n in simp)
    qed
  qed
qed

end
