(* ===== verification/Cleanup.thy ===== *)
theory Cleanup
  imports Storage Limits AliasActivation Guarded
begin

text \<open>
  The periodic cleanup (\<open>src/storage/cleanup.ts\<close>): expired attachments and raw emails with their
  storage accounting, old delivery logs, expired links, alias tombstones, quota notices and notice
  tokens, and the empty directories that are left.  \<open>created_at\<close> of a log is its \<open>received_at\<close>: both
  columns take their default, \<open>now()\<close> of the inserting transaction, and are never written again.
\<close>

section \<open>Retention\<close>

record cleanup_config =
  cc_attachmentDir :: string
  cc_rawEmailDir :: string
  cc_attachmentTtlHours :: int
  cc_rawEmailTtlHours :: int
  cc_deliveryLogRetentionDays :: int

definition tombstone_min_age_days :: int where "tombstone_min_age_days = 7"
definition quota_notification_retention_days :: int where "quota_notification_retention_days = 92"

definition minimum_plan_retention_ms :: "plan_table \<Rightarrow> int" where
  "minimum_plan_retention_ms plans =
     (let retentionDays = map (\<lambda>plan. lim_retentionDays (pl_limits plan)) (list_plan_definitions plans)
      in fold min (tl retentionDays) (hd retentionDays) * 24 * 3600 * 1000)"

definition broad_retention_candidate_cutoff :: "plan_table \<Rightarrow> instant \<Rightarrow> int \<Rightarrow> instant" where
  "broad_retention_candidate_cutoff plans nowMs globalTtlHours =
     max (nowMs - globalTtlHours * 3600 * 1000) (nowMs - minimum_plan_retention_ms plans)"

text \<open>\<open>rowUser\<close>: the owner through the left join, if it still exists.\<close>

definition row_user :: "bigint option \<Rightarrow> db \<Rightarrow> user_row option" where
  "row_user userId d = (case userId of None \<Rightarrow> None | Some i \<Rightarrow> user_by_id i d)"

definition is_expired_by_retention :: "instant \<Rightarrow> instant \<Rightarrow> int \<Rightarrow> user_row option \<Rightarrow> bool io" where
  "is_expired_by_retention timestamp nowMs globalTtlHours user =
     (case user of
        Some u \<Rightarrow> bind (get_effective_plan u) (\<lambda>plan.
            ret (timestamp < nowMs - lim_retentionDays (pl_limits plan) * 24 * 3600 * 1000))
      | None \<Rightarrow> ret (timestamp < nowMs - globalTtlHours * 3600 * 1000))"

definition is_expired_by_delivery_log_retention :: "instant \<Rightarrow> instant \<Rightarrow> int \<Rightarrow> user_row option \<Rightarrow> bool io" where
  "is_expired_by_delivery_log_retention timestamp nowMs globalRetentionDays user =
     bind (case user of
             Some u \<Rightarrow> bind (get_effective_plan u) (\<lambda>plan. ret (lim_retentionDays (pl_limits plan)))
           | None \<Rightarrow> ret globalRetentionDays) (\<lambda>retentionDays.
       ret (timestamp < nowMs - retentionDays * 24 * 3600 * 1000))"

section \<open>Directories\<close>

definition path_join :: "string \<Rightarrow> string \<Rightarrow> string" where
  "path_join dir name = dir @ ''/'' @ name"

definition clean_orphaned_dir :: "instant \<Rightarrow> string \<Rightarrow> string \<times> bool \<Rightarrow> unit io" where
  "clean_orphaned_dir cutoffMs baseDir entry =
     (if \<not> snd entry then ret ()
      else (let dirPath = path_join baseDir (fst entry)
            in swallow (
              bind (bind (at_tick (\<lambda>e t. disk_mtime e t dirPath)) of_result) (\<lambda>mtime.
              if mtime < cutoffMs
              then bind (bind (at_tick (\<lambda>e t. disk_list e t dirPath)) of_result) (\<lambda>children.
                   if children = [] then delete_dir dirPath else ret ())
              else ret ()))))"

definition clean_orphaned_dirs :: "string \<Rightarrow> int \<Rightarrow> instant \<Rightarrow> unit io" where
  "clean_orphaned_dirs baseDir ttlHours nowMs = swallow (
     bind (bind (at_tick (\<lambda>e t. disk_list e t baseDir)) of_result) (\<lambda>entries.
     for_each entries (clean_orphaned_dir (nowMs - ttlHours * 3600 * 1000) baseDir)))"

section \<open>Attachments\<close>

type_synonym attachment_candidate = "attachment_row \<times> bigint option \<times> user_row option"

definition attachment_candidates :: "instant \<Rightarrow> db \<Rightarrow> attachment_candidate list" where
  "attachment_candidates candidateCutoff d =
     [ (a, dl_userId l, row_user (dl_userId l) d) .
         a \<leftarrow> attachments d, at_createdAt a < candidateCutoff, l \<leftarrow> deliveryLogs d, dl_id l = at_deliveryLogId a ]"

text \<open>The links of an attachment go with it.\<close>

definition delete_attachment_stmt :: "uuid \<Rightarrow> db \<Rightarrow> nat \<times> db" where
  "delete_attachment_stmt i d =
     (count_where (\<lambda>a. at_id a = i) (attachments d),
      d\<lparr> attachments := delete_where (\<lambda>a. at_id a = i) (attachments d),
         attachmentLinks := (if count_where (\<lambda>a. at_id a = i) (attachments d) = 0 then attachmentLinks d
            else delete_where (\<lambda>l. ln_attachmentId l = i) (attachmentLinks d)) \<rparr>)"

definition drop_attachment :: "attachment_row \<Rightarrow> bigint option \<Rightarrow> nat io" where
  "drop_attachment a userId =
     bind (db_stmt (\<lambda>_ d. Inr (delete_attachment_stmt (at_id a) d))) (\<lambda>rowCount.
     bind (if 0 < rowCount \<and> or_else userId 0 \<noteq> 0 \<and> 0 < or_else (at_sizeBytes a) 0
           then bind (decrement_user_storage_usage (the userId) 0 (the (at_sizeBytes a))) (\<lambda>_. ret ())
           else ret ()) (\<lambda>_.
     ret rowCount))"

definition clean_attachment :: "instant \<Rightarrow> int \<Rightarrow> attachment_candidate \<Rightarrow> unit io" where
  "clean_attachment nowMs ttlHours row =
     (case row of (a, userId, user) \<Rightarrow>
        bind (is_expired_by_retention (at_createdAt a) nowMs ttlHours user) (\<lambda>expired.
          if \<not> expired then ret ()
          else bind (try_io (delete_file (at_storagePath a))) (\<lambda>deleted.
            case deleted of
              Inl _ \<Rightarrow> ret ()
            | Inr _ \<Rightarrow> bind (transaction (drop_attachment a userId)) (\<lambda>_. ret ()))))"

definition clean_attachments :: "cleanup_config \<Rightarrow> instant \<Rightarrow> unit io" where
  "clean_attachments cfg nowMs =
     bind (swallow (
       bind (ask (\<lambda>e. broad_retention_candidate_cutoff (plan_table e) nowMs (cc_attachmentTtlHours cfg))) (\<lambda>cutoff.
       bind (db_read (attachment_candidates cutoff)) (\<lambda>candidates.
       for_each candidates (clean_attachment nowMs (cc_attachmentTtlHours cfg)))))) (\<lambda>_.
     clean_orphaned_dirs (cc_attachmentDir cfg) (cc_attachmentTtlHours cfg) nowMs)"

section \<open>Raw emails\<close>

type_synonym log_candidate = "log_row \<times> user_row option"

definition raw_candidates :: "instant \<Rightarrow> db \<Rightarrow> log_candidate list" where
  "raw_candidates cutoff d =
     [ (l, row_user (dl_userId l) d) . l \<leftarrow> deliveryLogs d, dl_rawEmailPath l \<noteq> None, dl_receivedAt l < cutoff ]"

definition cleared_raw :: "log_row \<Rightarrow> log_row" where
  "cleared_raw l = l\<lparr> dl_rawEmailPath := None,
     dl_rawEmailEncryption := \<lparr> enc_mode = ''none'', enc_wrappedDek = None, enc_kekKeyId = None, enc_encryptedAt = None \<rparr> \<rparr>"

text \<open>\<open>UPDATE ... WHERE\<close> with the number of rows it changed.\<close>

definition update_logs_stmt :: "(log_row \<Rightarrow> bool) \<Rightarrow> (log_row \<Rightarrow> log_row) \<Rightarrow> db \<Rightarrow> nat \<times> db" where
  "update_logs_stmt p f d = (count_where p (deliveryLogs d), d\<lparr> deliveryLogs := update_where p f (deliveryLogs d) \<rparr>)"

definition close_log_stmt :: "uuid \<Rightarrow> db \<Rightarrow> nat \<times> db" where
  "close_log_stmt i = update_logs_stmt (\<lambda>l. dl_id l = i \<and> dl_finalStatus l \<in> set non_final_delivery_statuses)
     (\<lambda>l. (cleared_raw l)\<lparr> dl_finalStatus := PermanentlyFailed \<rparr>)"

definition clear_log_stmt :: "uuid \<Rightarrow> db \<Rightarrow> nat \<times> db" where
  "clear_log_stmt i = update_logs_stmt (\<lambda>l. dl_id l = i) cleared_raw"

text \<open>Returns the number of rows and whether the log was closed.\<close>

definition drop_raw_email :: "log_row \<Rightarrow> (nat \<times> bool) io" where
  "drop_raw_email row =
     bind (db_stmt (\<lambda>_ d. Inr (close_log_stmt (dl_id row) d))) (\<lambda>closed.
     bind (if 0 < closed then ret 1 else db_stmt (\<lambda>_ d. Inr (clear_log_stmt (dl_id row) d))) (\<lambda>rowCount.
     bind (if 0 < rowCount \<and> or_else (dl_userId row) 0 \<noteq> 0 \<and> 0 < dl_rawSizeBytes row
           then bind (decrement_user_storage_usage (the (dl_userId row)) (dl_rawSizeBytes row) 0) (\<lambda>_. ret ())
           else ret ()) (\<lambda>_.
     ret (rowCount, 0 < closed))))"

definition clean_raw_email :: "instant \<Rightarrow> int \<Rightarrow> log_candidate \<Rightarrow> unit io" where
  "clean_raw_email nowMs ttlHours row =
     (case row of (l, user) \<Rightarrow>
        if \<not> truthy (dl_rawEmailPath l) then ret ()
        else bind (is_expired_by_retention (dl_receivedAt l) nowMs ttlHours user) (\<lambda>expired.
          if \<not> expired then ret ()
          else bind (try_io (delete_file (the (dl_rawEmailPath l)))) (\<lambda>deleted.
            case deleted of
              Inl _ \<Rightarrow> ret ()
            | Inr _ \<Rightarrow> bind (transaction (drop_raw_email l)) (\<lambda>outcome.
                if snd outcome then emit LostDelivery else ret ()))))"

definition clean_raw_emails :: "cleanup_config \<Rightarrow> instant \<Rightarrow> unit io" where
  "clean_raw_emails cfg nowMs =
     bind (swallow (
       bind (ask (\<lambda>e. broad_retention_candidate_cutoff (plan_table e) nowMs (cc_rawEmailTtlHours cfg))) (\<lambda>cutoff.
       bind (db_read (raw_candidates cutoff)) (\<lambda>candidates.
       for_each candidates (clean_raw_email nowMs (cc_rawEmailTtlHours cfg)))))) (\<lambda>_.
     clean_orphaned_dirs (cc_rawEmailDir cfg) (cc_rawEmailTtlHours cfg) nowMs)"

section \<open>Delivery logs\<close>

definition log_candidates :: "instant \<Rightarrow> db \<Rightarrow> log_candidate list" where
  "log_candidates candidateCutoff d =
     [ (l, row_user (dl_userId l) d) . l \<leftarrow> deliveryLogs d, dl_receivedAt l < candidateCutoff ]"

definition delivery_log_has_no_attachments :: "db \<Rightarrow> log_row \<Rightarrow> bool" where
  "delivery_log_has_no_attachments d l \<longleftrightarrow> \<not> list_ex (\<lambda>a. at_deliveryLogId a = dl_id l) (attachments d)"

text \<open>The attempts and the view link of a log go with it.\<close>

definition purge_log_stmt :: "uuid \<Rightarrow> db \<Rightarrow> nat \<times> db" where
  "purge_log_stmt i d =
     (let gone = (\<lambda>l. dl_id l = i \<and> dl_rawEmailPath l = None \<and> delivery_log_has_no_attachments d l)
      in (count_where gone (deliveryLogs d),
          if count_where gone (deliveryLogs d) = 0 then d
          else d\<lparr> deliveryLogs := delete_where gone (deliveryLogs d),
                  deliveryAttempts := delete_where (\<lambda>a. da_deliveryLogId a = i) (deliveryAttempts d),
                  deliveryViewLinks := delete_where (\<lambda>v. vl_deliveryLogId v = i) (deliveryViewLinks d) \<rparr>))"

definition clean_delivery_log :: "instant \<Rightarrow> int \<Rightarrow> log_candidate \<Rightarrow> unit io" where
  "clean_delivery_log nowMs retentionDays row =
     (case row of (l, user) \<Rightarrow>
        if truthy (dl_rawEmailPath l) then ret ()
        else bind (is_expired_by_delivery_log_retention (dl_receivedAt l) nowMs retentionDays user) (\<lambda>expired.
          if \<not> expired then ret ()
          else bind (db_stmt (\<lambda>_ d. Inr (purge_log_stmt (dl_id l) d))) (\<lambda>_. ret ())))"

definition clean_delivery_logs :: "int \<Rightarrow> instant \<Rightarrow> unit io" where
  "clean_delivery_logs retentionDays nowMs = swallow (
     bind (ask (\<lambda>e. broad_retention_candidate_cutoff (plan_table e) nowMs (retentionDays * 24))) (\<lambda>cutoff.
     bind (db_read (log_candidates cutoff)) (\<lambda>candidates.
     for_each candidates (clean_delivery_log nowMs retentionDays))))"

section \<open>The other passes and the run\<close>

definition reconcile_activation_markers :: "bool io" where
  "reconcile_activation_markers =
     catch (bind (db_stmt (\<lambda>_ d. Inr (reconcile_first_delivered_markers d))) (\<lambda>_. ret True)) (\<lambda>_. ret False)"

definition clean_expired_activation_tokens :: "unit io" where
  "clean_expired_activation_tokens =
     swallow (bind (db_stmt (\<lambda>t d. Inr (clear_expired_activation_tokens t d))) (\<lambda>_. ret ()))"

definition clean_quota_notifications :: "instant \<Rightarrow> unit io" where
  "clean_quota_notifications nowMs =
     swallow (bind (db_stmt (\<lambda>_ d. Inr (delete_old_quota_notifications
       (nowMs - quota_notification_retention_days * 24 * 60 * 60 * 1000) d))) (\<lambda>_. ret ()))"

definition clean_alias_tombstones :: "instant \<Rightarrow> unit io" where
  "clean_alias_tombstones nowMs =
     swallow (bind (db_stmt (\<lambda>_ d. Inr (delete_expired_alias_tombstones
       (nowMs - tombstone_min_age_days * 24 * 60 * 60 * 1000) d))) (\<lambda>_. ret ()))"

definition clean_expired_links :: "instant \<Rightarrow> unit io" where
  "clean_expired_links nowMs =
     swallow (bind (db_stmt (\<lambda>_ d. Inr (delete_expired_delivery_view_links nowMs d))) (\<lambda>_.
              bind (db_stmt (\<lambda>_ d. Inr (delete_expired_attachment_links nowMs d))) (\<lambda>_. ret ())))"

definition run_cleanup :: "cleanup_config \<Rightarrow> unit io" where
  "run_cleanup cfg =
     bind now (\<lambda>nowMs.
     bind reconcile_activation_markers (\<lambda>markersReconciled.
     bind (clean_attachments cfg nowMs) (\<lambda>_.
     bind (clean_raw_emails cfg nowMs) (\<lambda>_.
     bind (if markersReconciled then clean_delivery_logs (cc_deliveryLogRetentionDays cfg) nowMs else ret ()) (\<lambda>_.
     bind (clean_expired_links nowMs) (\<lambda>_.
     bind (clean_alias_tombstones nowMs) (\<lambda>_.
     bind (clean_quota_notifications nowMs) (\<lambda>_.
     clean_expired_activation_tokens))))))))"

section \<open>What a run may do\<close>

text \<open>The retention of the owner's plan, or the configured one when the owner is gone, had passed at
  some moment of the run (the plan in force is read from the clock row by row).\<close>

definition outlived :: "env \<Rightarrow> instant \<Rightarrow> int \<Rightarrow> user_row option \<Rightarrow> instant \<Rightarrow> bool" where
  "outlived e nowMs globalMs user timestamp \<longleftrightarrow>
     (\<exists>t. timestamp < nowMs - (case user of None \<Rightarrow> globalMs
        | Some u \<Rightarrow> lim_retentionDays (pl_limits (effective_plan_at (plan_table e) (clock e t) u)) * 24 * 3600 * 1000))"

definition attachment_outlived :: "env \<Rightarrow> instant \<Rightarrow> cleanup_config \<Rightarrow> db \<Rightarrow> attachment_row \<Rightarrow> bool" where
  "attachment_outlived e nowMs cfg d a \<longleftrightarrow>
     (\<exists>l\<in>set (deliveryLogs d). dl_id l = at_deliveryLogId a \<and>
        outlived e nowMs (cc_attachmentTtlHours cfg * 3600 * 1000) (row_user (dl_userId l) d) (at_createdAt a))"

definition raw_outlived :: "env \<Rightarrow> instant \<Rightarrow> cleanup_config \<Rightarrow> db \<Rightarrow> log_row \<Rightarrow> bool" where
  "raw_outlived e nowMs cfg d l \<longleftrightarrow>
     outlived e nowMs (cc_rawEmailTtlHours cfg * 3600 * 1000) (row_user (dl_userId l) d) (dl_receivedAt l)"

definition log_outlived :: "env \<Rightarrow> instant \<Rightarrow> cleanup_config \<Rightarrow> db \<Rightarrow> log_row \<Rightarrow> bool" where
  "log_outlived e nowMs cfg d l \<longleftrightarrow>
     outlived e nowMs (cc_deliveryLogRetentionDays cfg * 24 * 3600 * 1000) (row_user (dl_userId l) d) (dl_receivedAt l)"

text \<open>What may become of a log: nothing, or its raw email is taken away because it is old, which
  closes a log that was still waiting for its delivery.\<close>

definition log_step :: "env \<Rightarrow> instant \<Rightarrow> cleanup_config \<Rightarrow> db \<Rightarrow> log_row \<Rightarrow> log_row \<Rightarrow> bool" where
  "log_step e nowMs cfg d l0 l \<longleftrightarrow> l = l0 \<or>
     (raw_outlived e nowMs cfg d l0 \<and> dl_rawEmailPath l0 \<noteq> None \<and>
      (l = cleared_raw l0 \<and> dl_finalStatus l0 \<notin> set non_final_delivery_statuses \<or>
       l = (cleared_raw l0)\<lparr> dl_finalStatus := PermanentlyFailed \<rparr> \<and> dl_finalStatus l0 \<in> set non_final_delivery_statuses))"

definition cleanup_frame :: "env \<Rightarrow> instant \<Rightarrow> cleanup_config \<Rightarrow> db \<Rightarrow> db \<Rightarrow> bool" where
  "cleanup_frame e nowMs cfg d0 d \<longleftrightarrow>
     users d = users d0 \<and>
     set (attachments d) \<subseteq> set (attachments d0) \<and>
     (\<forall>a\<in>set (attachments d0) - set (attachments d). attachment_outlived e nowMs cfg d0 a) \<and>
     (\<forall>l\<in>set (deliveryLogs d). \<exists>l0\<in>set (deliveryLogs d0). log_step e nowMs cfg d0 l0 l) \<and>
     (\<forall>l0\<in>set (deliveryLogs d0). (\<exists>l\<in>set (deliveryLogs d). log_step e nowMs cfg d0 l0 l) \<or>
        log_outlived e nowMs cfg d0 l0 \<and> (dl_rawEmailPath l0 = None \<or> raw_outlived e nowMs cfg d0 l0) \<and>
        (\<forall>a\<in>set (attachments d). at_deliveryLogId a \<noteq> dl_id l0)) \<and>
     set (aliases d) \<subseteq> set (aliases d0) \<and>
     (\<forall>a\<in>set (aliases d0) - set (aliases d). al_status a = Deleted \<and>
        al_updatedAt a < nowMs - tombstone_min_age_days * 24 * 60 * 60 * 1000 \<and>
        (\<forall>l\<in>set (deliveryLogs d). dl_emailAddressId l \<noteq> al_id a))"

definition cleanup_event :: "env \<Rightarrow> instant \<Rightarrow> cleanup_config \<Rightarrow> db \<Rightarrow> event \<Rightarrow> bool" where
  "cleanup_event e nowMs cfg d v \<longleftrightarrow>
     (case v of
        FileDeleted p \<Rightarrow>
          (\<exists>a\<in>set (attachments d). at_storagePath a = p \<and> attachment_outlived e nowMs cfg d a) \<or>
          (\<exists>l\<in>set (deliveryLogs d). dl_rawEmailPath l = Some p \<and> raw_outlived e nowMs cfg d l)
      | DirDeleted p \<Rightarrow> \<exists>t. disk_list e t p = Inr []
      | LostDelivery \<Rightarrow> \<exists>l\<in>set (deliveryLogs d). raw_outlived e nowMs cfg d l \<and> dl_finalStatus l \<in> set non_final_delivery_statuses
      | _ \<Rightarrow> False)"

section \<open>Every pass stays inside\<close>

lemma is_expired_run:
  "is_expired_by_retention ts nowMs ttl user e w = (Inr True, w') \<Longrightarrow> outlived e nowMs (ttl * 3600 * 1000) user ts"
  by (auto simp: is_expired_by_retention_def get_effective_plan_def outlived_def run_simps split: option.splits)

lemma is_log_expired_run:
  "is_expired_by_delivery_log_retention ts nowMs days user e w = (Inr True, w') \<Longrightarrow> outlived e nowMs (days * 24 * 3600 * 1000) user ts"
  by (auto simp: is_expired_by_delivery_log_retention_def get_effective_plan_def outlived_def run_simps split: option.splits)

lemma guarded_expired [guarded_rules]:
  "guarded e I G (is_expired_by_retention ts nowMs ttl user)" "guarded e I G (is_expired_by_delivery_log_retention ts nowMs ttl user)"
  unfolding is_expired_by_retention_def is_expired_by_delivery_log_retention_def get_effective_plan_def by (intro guarded_rules)+

lemma guarded_delete_file: "G (FileDeleted p) \<Longrightarrow> guarded e I G (delete_file p)"
  by (intro guarded_parts keeps_rules emits_rules)

lemma guarded_decrement_storage:
  assumes "\<And>d x. I (d\<lparr>userStorageUsage := x\<rparr>) = I d"
  shows "guarded e I G (decrement_user_storage_usage u x y)"
  unfolding decrement_user_storage_usage_def assert_non_negative_storage_delta_def lower_storage_def Let_def
  by (intro guarded_rules guarded_stmt) (auto simp: assms)

lemma cleanup_frame_frames [simp]:
  "cleanup_frame e nowMs cfg d0 (d\<lparr>userStorageUsage := x\<rparr>) = cleanup_frame e nowMs cfg d0 d"
  "cleanup_frame e nowMs cfg d0 (d\<lparr>deliveryViewLinks := y\<rparr>) = cleanup_frame e nowMs cfg d0 d"
  "cleanup_frame e nowMs cfg d0 (d\<lparr>deliveryAttempts := x1\<rparr>) = cleanup_frame e nowMs cfg d0 d"
  "cleanup_frame e nowMs cfg d0 (d\<lparr>attachmentLinks := z\<rparr>) = cleanup_frame e nowMs cfg d0 d"
  "cleanup_frame e nowMs cfg d0 (d\<lparr>userQuotaNotifications := q\<rparr>) = cleanup_frame e nowMs cfg d0 d"
  "cleanup_frame e nowMs cfg d0 (d\<lparr>aliasActivation := v\<rparr>) = cleanup_frame e nowMs cfg d0 d"
  by (simp_all add: cleanup_frame_def)

lemma cleanup_frame_refl: "cleanup_frame e nowMs cfg d d"
  by (auto simp: cleanup_frame_def log_step_def)

lemma cleanup_event_dir: "disk_list e t p = Inr [] \<Longrightarrow> cleanup_event e nowMs cfg d (DirDeleted p)"
  by (auto simp: cleanup_event_def)

lemma guarded_dirs:
  assumes "\<And>t p. disk_list e t p = Inr [] \<Longrightarrow> G (DirDeleted p)"
  shows "guarded e I G (clean_orphaned_dirs dir ttl nowMs)"
proof -
  have two: "guarded e I G (bind (bind (at_tick (\<lambda>e t. disk_list e t p)) of_result)
      (\<lambda>children. if children = [] then delete_dir p else ret ()))" for p
    by (rule guarded_bind_run) (auto simp: run_simps of_result_def intro!: guarded_rules guarded_parts [of _ "delete_dir p"] keeps_rules emits_rules assms)
  show ?thesis
    unfolding clean_orphaned_dirs_def clean_orphaned_dir_def Let_def
    by (intro guarded_swallow guarded_bind [of _ _ _ "bind (at_tick (\<lambda>e t. disk_list e t dir)) of_result"] guarded_for_each guarded_if
        guarded_bind [of _ _ _ "bind (at_tick (\<lambda>e t. disk_mtime e t p)) of_result" for p] two guarded_ret guarded_of_result guarded_at_tick)
      (intro guarded_rules)+
qed

lemma same_key: "distinct (map k xs) \<Longrightarrow> x \<in> set xs \<Longrightarrow> y \<in> set xs \<Longrightarrow> k x = k y \<Longrightarrow> x = y"
  by (auto simp: distinct_map inj_on_def)

lemma log_step_key: "log_step e nowMs cfg d0 l0 l \<Longrightarrow> dl_id l = dl_id l0 \<and> dl_userId l = dl_userId l0 \<and> dl_receivedAt l = dl_receivedAt l0 \<and> dl_emailAddressId l = dl_emailAddressId l0"
  by (auto simp: log_step_def cleared_raw_def)

lemma log_step_open: "log_step e nowMs cfg d0 l0 l \<Longrightarrow> dl_rawEmailPath l \<noteq> None \<Longrightarrow> l = l0"
  by (auto simp: log_step_def cleared_raw_def)

lemma frame_users: "cleanup_frame e nowMs cfg d0 d \<Longrightarrow> row_user u d = row_user u d0"
  by (simp add: cleanup_frame_def row_user_def user_by_id_def split: option.splits)

lemma attachment_candidate_row:
  assumes "cleanup_frame e nowMs cfg d0 d" and "(a, u, user) \<in> set (attachment_candidates cutoff d)"
  shows "a \<in> set (attachments d0) \<and> (\<exists>l\<in>set (deliveryLogs d0). dl_id l = at_deliveryLogId a \<and> u = dl_userId l \<and> user = row_user u d0)"
proof -
  obtain l where l: "l \<in> set (deliveryLogs d)" "dl_id l = at_deliveryLogId a" "u = dl_userId l" "user = row_user u d" "a \<in> set (attachments d)"
    using assms(2) by (auto simp: attachment_candidates_def split: if_splits)
  then obtain l0 where "l0 \<in> set (deliveryLogs d0)" "log_step e nowMs cfg d0 l0 l" using assms(1) unfolding cleanup_frame_def by blast
  with l show ?thesis using frame_users [OF assms(1)] log_step_key assms(1) unfolding cleanup_frame_def by (metis subsetD)
qed

lemma delete_attachment_frame:
  assumes "cleanup_frame e nowMs cfg d0 d" "distinct (map at_id (attachments d0))" "a \<in> set (attachments d0)" "attachment_outlived e nowMs cfg d0 a"
  shows "cleanup_frame e nowMs cfg d0 (snd (delete_attachment_stmt (at_id a) d))"
proof -
  have "b = a" if "b \<in> set (attachments d0)" "at_id b = at_id a" for b using same_key [OF assms(2) that(1) assms(3) that(2)] .
  then show ?thesis using assms(1,4) by (auto simp: cleanup_frame_def delete_attachment_stmt_def)
qed

lemma guarded_clean_attachment:
  assumes "distinct (map at_id (attachments d0))" "cleanup_frame e nowMs cfg d0 d" "row \<in> set (attachment_candidates cutoff d)"
  shows "guarded e (cleanup_frame e nowMs cfg d0) (cleanup_event e nowMs cfg d0) (clean_attachment nowMs (cc_attachmentTtlHours cfg) row)"
proof -
  let ?I = "cleanup_frame e nowMs cfg d0" and ?G = "cleanup_event e nowMs cfg d0"
  obtain a u user where row: "row = (a, u, user)" by (cases row) auto
  note c = attachment_candidate_row [OF assms(2) assms(3) [unfolded row]]
  have drop: "guarded e ?I ?G (drop_attachment a u)" if "attachment_outlived e nowMs cfg d0 a"
    unfolding drop_attachment_def
    by (intro guarded_rules guarded_total_stmt guarded_decrement_storage delete_attachment_frame assms(1) that cleanup_frame_frames c [THEN conjunct1])
  have "guarded e ?I ?G (if \<not> expired then ret () else bind (try_io (delete_file (at_storagePath a))) (\<lambda>deleted.
      case deleted of Inl _ \<Rightarrow> ret () | Inr _ \<Rightarrow> bind (transaction (drop_attachment a u)) (\<lambda>_. ret ())))"
    if "is_expired_by_retention (at_createdAt a) nowMs (cc_attachmentTtlHours cfg) user e w = (Inr expired, w')" for w expired w'
  proof (cases expired)
    case True
    have "outlived e nowMs (cc_attachmentTtlHours cfg * 3600 * 1000) user (at_createdAt a)"
      by (rule is_expired_run) (use that True in simp)
    then have old: "attachment_outlived e nowMs cfg d0 a" using c by (auto simp: attachment_outlived_def)
    then have "?G (FileDeleted (at_storagePath a))" using c by (auto simp: cleanup_event_def)
    with True drop [OF old] show ?thesis by (auto intro!: guarded_rules guarded_delete_file)
  qed (simp add: guarded_rules)
  then show ?thesis unfolding row clean_attachment_def prod.case by (rule guarded_bind_run [OF guarded_expired(1)])
qed

lemma guarded_clean_attachments:
  assumes "distinct (map at_id (attachments d0))"
  shows "guarded e (cleanup_frame e nowMs cfg d0) (cleanup_event e nowMs cfg d0) (clean_attachments cfg nowMs)"
  unfolding clean_attachments_def
  by (intro guarded_bind guarded_swallow guarded_ask guarded_bind_read guarded_for_each guarded_clean_attachment assms guarded_dirs cleanup_event_dir)

lemma raw_candidate_row:
  assumes "cleanup_frame e nowMs cfg d0 d" and "(l, user) \<in> set (raw_candidates cutoff d)"
  shows "l \<in> set (deliveryLogs d0) \<and> dl_rawEmailPath l \<noteq> None \<and> user = row_user (dl_userId l) d0"
proof -
  have l: "l \<in> set (deliveryLogs d)" "dl_rawEmailPath l \<noteq> None" "user = row_user (dl_userId l) d"
    using assms(2) by (auto simp: raw_candidates_def split: if_splits)
  then obtain l0 where "l0 \<in> set (deliveryLogs d0)" "log_step e nowMs cfg d0 l0 l" using assms(1) unfolding cleanup_frame_def by blast
  with l show ?thesis using frame_users [OF assms(1)] log_step_open by metis
qed

text \<open>A statement that changes the rows of one log in the allowed way.\<close>

lemma log_update_frame:
  assumes "cleanup_frame e nowMs cfg d0 d"
    and "\<And>l0 l. l0 \<in> set (deliveryLogs d0) \<Longrightarrow> log_step e nowMs cfg d0 l0 l \<Longrightarrow> p l \<Longrightarrow> log_step e nowMs cfg d0 l0 (f l)"
  shows "cleanup_frame e nowMs cfg d0 (snd (update_logs_stmt p f d))"
proof -
  let ?s = "log_step e nowMs cfg d0" and ?g = "\<lambda>l. if p l then f l else l"
  let ?d = "snd (update_logs_stmt p f d)"
  have parts: "users ?d = users d" "attachments ?d = attachments d" "aliases ?d = aliases d" "set (deliveryLogs ?d) = ?g ` set (deliveryLogs d)"
    by (simp_all add: update_logs_stmt_def set_update_where)
  have step: "?s l0 (?g l)" if "l0 \<in> set (deliveryLogs d0)" "?s l0 l" for l0 l using that assms(2) by simp
  have one: "\<exists>l0\<in>set (deliveryLogs d0). ?s l0 l \<and> ?s l0 (?g l)" if "l \<in> set (deliveryLogs d)" for l
    using that assms(1) step unfolding cleanup_frame_def by blast
  have email: "dl_emailAddressId (?g l) = dl_emailAddressId l" if "l \<in> set (deliveryLogs d)" for l
    using one [OF that] log_step_key by metis
  have bwd: "\<exists>l\<in>?g ` set (deliveryLogs d). ?s l0 l" if "l0 \<in> set (deliveryLogs d0)" "\<exists>l\<in>set (deliveryLogs d). ?s l0 l" for l0
    using that step by blast
  have forth: "\<exists>l0\<in>set (deliveryLogs d0). ?s l0 l" if "l \<in> ?g ` set (deliveryLogs d)" for l
    using that one by blast
  have refs: "(\<forall>l\<in>?g ` set (deliveryLogs d). dl_emailAddressId l \<noteq> i) \<longleftrightarrow> (\<forall>l\<in>set (deliveryLogs d). dl_emailAddressId l \<noteq> i)" for i
    unfolding ball_simps(9) by (intro ball_cong refl) (simp only: email)
  note F = assms(1) [unfolded cleanup_frame_def]
  have "\<forall>l0\<in>set (deliveryLogs d0). (\<exists>l\<in>?g ` set (deliveryLogs d). ?s l0 l) \<or> log_outlived e nowMs cfg d0 l0 \<and>
      (dl_rawEmailPath l0 = None \<or> raw_outlived e nowMs cfg d0 l0) \<and> (\<forall>a\<in>set (attachments d). at_deliveryLogId a \<noteq> dl_id l0)"
    using F bwd by blast
  then show ?thesis unfolding cleanup_frame_def parts refs using F forth by (intro conjI ballI) simp_all
qed

definition no_open_log :: "uuid \<Rightarrow> db \<Rightarrow> bool" where
  "no_open_log i d \<longleftrightarrow> (\<forall>l\<in>set (deliveryLogs d). dl_id l = i \<longrightarrow> dl_finalStatus l \<notin> set non_final_delivery_statuses)"

lemma no_open_frame: "no_open_log i (d\<lparr>userStorageUsage := x\<rparr>) = no_open_log i d"
  by (simp add: no_open_log_def)

lemma cleared_raw_simps [simp]:
  "cleared_raw (cleared_raw l) = cleared_raw l" "cleared_raw (l\<lparr>dl_finalStatus := s\<rparr>) = (cleared_raw l)\<lparr>dl_finalStatus := s\<rparr>"
  "dl_finalStatus (cleared_raw l) = dl_finalStatus l" "dl_id (cleared_raw l) = dl_id l" "dl_rawEmailPath (cleared_raw l) = None"
  by (simp_all add: cleared_raw_def)

lemma log_step_cases:
  assumes "log_step e nowMs cfg d0 r l"
  obtains "l = r" | "l = cleared_raw r" "dl_finalStatus r \<notin> set non_final_delivery_statuses"
    | "l = (cleared_raw r)\<lparr>dl_finalStatus := PermanentlyFailed\<rparr>" "dl_finalStatus r \<in> set non_final_delivery_statuses"
  using assms unfolding log_step_def by blast

lemma log_step_still_open:
  assumes "log_step e nowMs cfg d0 r l" "dl_finalStatus l \<in> set non_final_delivery_statuses"
  shows "l = r"
  using assms(1) by (cases rule: log_step_cases) (use assms(2) in \<open>simp_all add: non_final_delivery_statuses_def\<close>)

lemma log_step_clear:
  assumes "log_step e nowMs cfg d0 r l" "dl_finalStatus l \<notin> set non_final_delivery_statuses" "raw_outlived e nowMs cfg d0 r" "dl_rawEmailPath r \<noteq> None"
  shows "log_step e nowMs cfg d0 r (cleared_raw l)"
proof (cases rule: log_step_cases [OF assms(1)])
  case 1
  with assms(2-4) show ?thesis unfolding log_step_def by blast
next
  case 2
  then have "cleared_raw l = l" by (simp only: cleared_raw_simps)
  with assms(1) show ?thesis by (simp only:)
next
  case 3
  then have "cleared_raw l = l" by (simp only: cleared_raw_simps)
  with assms(1) show ?thesis by (simp only:)
qed

lemma drop_raw_steps:
  assumes F: "cleanup_frame e nowMs cfg d0 d" and "distinct (map dl_id (deliveryLogs d0))" "r \<in> set (deliveryLogs d0)"
    "dl_rawEmailPath r \<noteq> None" "raw_outlived e nowMs cfg d0 r"
  shows "cleanup_frame e nowMs cfg d0 (snd (close_log_stmt (dl_id r) d))"
    "no_open_log (dl_id r) d \<Longrightarrow> cleanup_frame e nowMs cfg d0 (snd (clear_log_stmt (dl_id r) d)) \<and> no_open_log (dl_id r) (snd (clear_log_stmt (dl_id r) d))"
    "fst (close_log_stmt (dl_id r) d) = 0 \<Longrightarrow> no_open_log (dl_id r) (snd (close_log_stmt (dl_id r) d))"
proof -
  have r: "l0 = r" if "l0 \<in> set (deliveryLogs d0)" "log_step e nowMs cfg d0 l0 l" "dl_id l = dl_id r" for l0 l
    using same_key [OF assms(2) that(1) assms(3)] log_step_key [OF that(2)] that(3) by simp
  show "cleanup_frame e nowMs cfg d0 (snd (close_log_stmt (dl_id r) d))"
    unfolding close_log_stmt_def
  proof (rule log_update_frame [OF F])
    fix l0 l assume l: "l0 \<in> set (deliveryLogs d0)" "log_step e nowMs cfg d0 l0 l" "dl_id l = dl_id r \<and> dl_finalStatus l \<in> set non_final_delivery_statuses"
    then have "l0 = r" "l = l0" using r log_step_still_open by blast+
    with l(3) assms(4,5) show "log_step e nowMs cfg d0 l0 ((cleared_raw l)\<lparr>dl_finalStatus := PermanentlyFailed\<rparr>)"
      by (simp add: log_step_def)
  qed
  show "fst (close_log_stmt (dl_id r) d) = 0 \<Longrightarrow> no_open_log (dl_id r) (snd (close_log_stmt (dl_id r) d))"
    by (auto simp: close_log_stmt_def update_logs_stmt_def no_open_log_def count_where_zero set_update_where)
  assume n: "no_open_log (dl_id r) d"
  have "log_step e nowMs cfg d0 l0 (cleared_raw l)"
    if "l0 \<in> set (deliveryLogs d0)" "log_step e nowMs cfg d0 l0 l" "dl_id l = dl_id r \<and> l \<in> set (deliveryLogs d)" for l0 l
  proof -
    have "l0 = r" using r that by blast
    moreover have "dl_finalStatus l \<notin> set non_final_delivery_statuses" using n that(3) by (simp add: no_open_log_def)
    ultimately show ?thesis using that(2) assms(4,5) log_step_clear by blast
  qed
  then have "cleanup_frame e nowMs cfg d0 (snd (update_logs_stmt (\<lambda>l. dl_id l = dl_id r \<and> l \<in> set (deliveryLogs d)) cleared_raw d))"
    by (intro log_update_frame [OF F])
  moreover have "update_where (\<lambda>l. dl_id l = dl_id r \<and> l \<in> set (deliveryLogs d)) cleared_raw (deliveryLogs d) =
      update_where (\<lambda>l. dl_id l = dl_id r) cleared_raw (deliveryLogs d)"
    by (auto simp: update_where_def)
  ultimately show "cleanup_frame e nowMs cfg d0 (snd (clear_log_stmt (dl_id r) d)) \<and> no_open_log (dl_id r) (snd (clear_log_stmt (dl_id r) d))"
    using n by (auto simp: clear_log_stmt_def update_logs_stmt_def no_open_log_def set_update_where)
qed

lemma lost_log:
  assumes "cleanup_frame e nowMs cfg d0 (w_db w)" "transaction (drop_raw_email r) e w = (Inr v, w')" "snd v"
    and "distinct (map dl_id (deliveryLogs d0))" "r \<in> set (deliveryLogs d0)"
  shows "dl_finalStatus r \<in> set non_final_delivery_statuses"
proof -
  obtain w2 where "drop_raw_email r e (begin_tx e w) = (Inr v, w2)" using assms(2) by (rule transaction_InrD)
  then have "0 < fst (close_log_stmt (dl_id r) (w_db w))" using assms(3)
    unfolding drop_raw_email_def by (auto simp: bind_Inr ret_Inr db_stmt_total_Inr)
  then have "\<exists>l\<in>set (deliveryLogs (w_db w)). dl_id l = dl_id r \<and> dl_finalStatus l \<in> set non_final_delivery_statuses"
    unfolding close_log_stmt_def update_logs_stmt_def fst_conv neq0_conv [symmetric] count_where_zero by blast
  then obtain l l0 where l: "dl_id l = dl_id r" "dl_finalStatus l \<in> set non_final_delivery_statuses" "l0 \<in> set (deliveryLogs d0)"
    "log_step e nowMs cfg d0 l0 l" using assms(1) unfolding cleanup_frame_def by blast
  then have "l0 = r" using same_key [OF assms(4) l(3) assms(5)] log_step_key by metis
  with l log_step_still_open show ?thesis by metis
qed

lemma guarded_clean_raw_email:
  assumes "distinct (map dl_id (deliveryLogs d0))" "cleanup_frame e nowMs cfg d0 d" "row \<in> set (raw_candidates cutoff d)"
  shows "guarded e (cleanup_frame e nowMs cfg d0) (cleanup_event e nowMs cfg d0) (clean_raw_email nowMs (cc_rawEmailTtlHours cfg) row)"
proof -
  let ?I = "cleanup_frame e nowMs cfg d0" and ?G = "cleanup_event e nowMs cfg d0"
  obtain r user where row: "row = (r, user)" by (cases row) auto
  note c = raw_candidate_row [OF assms(2) assms(3) [unfolded row]]
  let ?J = "\<lambda>d. ?I d \<and> no_open_log (dl_id r) d"
  have dec: "guarded e J ?G (bind (if 0 < n \<and> or_else (dl_userId r) 0 \<noteq> 0 \<and> 0 < dl_rawSizeBytes r
      then bind (decrement_user_storage_usage (the (dl_userId r)) (dl_rawSizeBytes r) 0) (\<lambda>_. ret ()) else ret ()) (\<lambda>_. ret v))"
    if "\<And>d x. J (d\<lparr>userStorageUsage := x\<rparr>) = J d" for J and n :: nat and v :: "nat \<times> bool"
    by (intro guarded_rules guarded_decrement_storage that)
  have drop: "guarded e ?I ?G (drop_raw_email r)" if old: "raw_outlived e nowMs cfg d0 r"
    unfolding drop_raw_email_def
  proof (rule guarded_bind_strong)
    note steps = drop_raw_steps [OF _ assms(1) _ _ old]
    show "guarded e ?I ?G (db_stmt (\<lambda>_ d. Inr (close_log_stmt (dl_id r) d)))"
      by (rule guarded_total_stmt) (use steps(1) c in blast)
    fix w closed w' assume I: "?I (w_db w)" "?I (w_db w')" and run: "db_stmt (\<lambda>_ d. Inr (close_log_stmt (dl_id r) d)) e w = (Inr closed, w')"
    let ?f = "\<lambda>closed. bind (if 0 < closed then ret 1 else db_stmt (\<lambda>_ d. Inr (clear_log_stmt (dl_id r) d))) (\<lambda>rowCount.
      bind (if 0 < rowCount \<and> or_else (dl_userId r) 0 \<noteq> 0 \<and> 0 < dl_rawSizeBytes r
        then bind (decrement_user_storage_usage (the (dl_userId r)) (dl_rawSizeBytes r) 0) (\<lambda>_. ret ()) else ret ()) (\<lambda>_. ret (rowCount, 0 < closed)))"
    show "\<exists>J. J (w_db w') \<and> (\<forall>d. J d \<longrightarrow> ?I d) \<and> guarded e J ?G (?f closed)"
    proof (cases "0 < closed")
      case True
      then have "guarded e ?I ?G (?f closed)" unfolding if_P [OF True] by (intro guarded_bind guarded_ret dec cleanup_frame_frames)
      with I show ?thesis by blast
    next
      case False
      have nol: "no_open_log (dl_id r) (w_db w')"
        using run steps(3) [OF I(1)] c False by (auto simp: db_stmt_total_Inr)
      have "guarded e ?J ?G (db_stmt (\<lambda>_ d. Inr (clear_log_stmt (dl_id r) d)))"
        by (rule guarded_total_stmt) (use steps(2) c in blast)
      then have g: "guarded e ?J ?G (?f closed)" unfolding if_not_P [OF False]
        by (rule guarded_bind) (rule dec, simp only: no_open_frame cleanup_frame_frames)
      show ?thesis by (rule exI [of _ ?J], intro conjI I(2) nol g allI impI) (erule conjunct1)
    qed
  qed
  have "guarded e ?I ?G (if \<not> expired then ret () else bind (try_io (delete_file (the (dl_rawEmailPath r)))) (\<lambda>deleted.
      case deleted of Inl _ \<Rightarrow> ret () | Inr _ \<Rightarrow> bind (transaction (drop_raw_email r)) (\<lambda>outcome. if snd outcome then emit LostDelivery else ret ())))"
    if run: "is_expired_by_retention (dl_receivedAt r) nowMs (cc_rawEmailTtlHours cfg) user e w = (Inr expired, w')" for w expired w'
  proof (cases expired)
    case True
    have "outlived e nowMs (cc_rawEmailTtlHours cfg * 3600 * 1000) user (dl_receivedAt r)"
      by (rule is_expired_run) (use run True in simp)
    then have old: "raw_outlived e nowMs cfg d0 r" using c by (simp add: raw_outlived_def)
    then have del: "?G (FileDeleted (the (dl_rawEmailPath r)))" using c by (auto simp: cleanup_event_def)
    have lost: "?G LostDelivery" if "?I (w_db w)" "transaction (drop_raw_email r) e w = (Inr v, w')" "snd v" for w v w'
      using lost_log [OF that assms(1)] old c by (auto simp: cleanup_event_def)
    have "guarded e ?I ?G (bind (transaction (drop_raw_email r)) (\<lambda>outcome. if snd outcome then emit LostDelivery else ret ()))"
      by (rule guarded_bind_run [OF guarded_transaction [OF drop [OF old]]]) (intro guarded_if guarded_emit guarded_ret lost)
    with True del show ?thesis by (auto intro!: guarded_rules guarded_delete_file)
  qed (simp add: guarded_rules)
  note body = this
  show ?thesis unfolding row clean_raw_email_def prod.case
    by (rule guarded_if, rule guarded_ret, rule guarded_bind_run [OF guarded_expired(1)], rule body)
qed

lemma guarded_clean_raw_emails:
  assumes "distinct (map dl_id (deliveryLogs d0))"
  shows "guarded e (cleanup_frame e nowMs cfg d0) (cleanup_event e nowMs cfg d0) (clean_raw_emails cfg nowMs)"
  unfolding clean_raw_emails_def
  by (intro guarded_bind guarded_swallow guarded_ask guarded_bind_read guarded_for_each guarded_clean_raw_email assms guarded_dirs cleanup_event_dir)

lemma log_candidate_row:
  assumes "cleanup_frame e nowMs cfg d0 d" and "(l, user) \<in> set (log_candidates cutoff d)"
  shows "\<exists>l0\<in>set (deliveryLogs d0). dl_id l = dl_id l0 \<and> dl_receivedAt l = dl_receivedAt l0 \<and> user = row_user (dl_userId l0) d0"
proof -
  have l: "l \<in> set (deliveryLogs d)" "user = row_user (dl_userId l) d" using assms(2) by (auto simp: log_candidates_def split: if_splits)
  then obtain l0 where "l0 \<in> set (deliveryLogs d0)" "log_step e nowMs cfg d0 l0 l" using assms(1) unfolding cleanup_frame_def by blast
  with l show ?thesis using frame_users [OF assms(1)] log_step_key by metis
qed

text \<open>A purge may take a log of the start away: it has no raw email (any more) and no attachments.\<close>

lemma purge_log_frame:
  assumes F: "cleanup_frame e nowMs cfg d0 d" and "distinct (map dl_id (deliveryLogs d0))" "l0 \<in> set (deliveryLogs d0)" "log_outlived e nowMs cfg d0 l0"
  shows "cleanup_frame e nowMs cfg d0 (snd (purge_log_stmt (dl_id l0) d))"
proof -
  let ?gone = "\<lambda>l. dl_id l = dl_id l0 \<and> dl_rawEmailPath l = None \<and> delivery_log_has_no_attachments d l" and ?s = "log_step e nowMs cfg d0"
  let ?d = "d\<lparr> deliveryLogs := delete_where ?gone (deliveryLogs d) \<rparr>"
  note parts = F [unfolded cleanup_frame_def]
  have kept: "(\<exists>l\<in>{l \<in> set (deliveryLogs d). \<not> ?gone l}. ?s k l) \<or> log_outlived e nowMs cfg d0 k \<and>
      (dl_rawEmailPath k = None \<or> raw_outlived e nowMs cfg d0 k) \<and> (\<forall>a\<in>set (attachments d). at_deliveryLogId a \<noteq> dl_id k)"
    if k: "k \<in> set (deliveryLogs d0)" for k
  proof (cases "\<exists>l\<in>set (deliveryLogs d). ?s k l \<and> ?gone l")
    case True
    then obtain l where l: "?s k l" "?gone l" by blast
    then have "dl_id k = dl_id l0" using log_step_key by metis
    with assms(2,3) k have "k = l0" by (auto dest: same_key)
    moreover have "dl_rawEmailPath k = None \<or> raw_outlived e nowMs cfg d0 k" using l by (auto simp: log_step_def)
    moreover have "\<forall>a\<in>set (attachments d). at_deliveryLogId a \<noteq> dl_id k"
      using l(2) \<open>k = l0\<close> by (auto simp: delivery_log_has_no_attachments_def list_ex_iff)
    ultimately show ?thesis using assms(4) by blast
  next
    case False
    then show ?thesis using parts k by blast
  qed
  have logs: "set (deliveryLogs ?d) = {l \<in> set (deliveryLogs d). \<not> ?gone l}" and
    tabs: "users ?d = users d" "attachments ?d = attachments d" "aliases ?d = aliases d" by simp_all
  have F2: "cleanup_frame e nowMs cfg d0 ?d"
    unfolding cleanup_frame_def logs tabs by (intro conjI ballI kept) (use parts in \<open>auto simp only: mem_Collect_eq\<close>)
  show ?thesis
  proof (cases "count_where ?gone (deliveryLogs d) = 0")
    case True
    then show ?thesis using F by (simp add: purge_log_stmt_def Let_def)
  next
    case False
    then have "snd (purge_log_stmt (dl_id l0) d) = ?d\<lparr> deliveryAttempts := delete_where (\<lambda>a. da_deliveryLogId a = dl_id l0) (deliveryAttempts d),
        deliveryViewLinks := delete_where (\<lambda>v. vl_deliveryLogId v = dl_id l0) (deliveryViewLinks d) \<rparr>"
      by (simp add: purge_log_stmt_def Let_def)
    then show ?thesis using F2 by simp
  qed
qed

lemma guarded_clean_delivery_logs:
  assumes "distinct (map dl_id (deliveryLogs d0))"
  shows "guarded e (cleanup_frame e nowMs cfg d0) (cleanup_event e nowMs cfg d0) (clean_delivery_logs (cc_deliveryLogRetentionDays cfg) nowMs)"
proof -
  let ?I = "cleanup_frame e nowMs cfg d0" and ?G = "cleanup_event e nowMs cfg d0"
  have one: "guarded e ?I ?G (clean_delivery_log nowMs (cc_deliveryLogRetentionDays cfg) row)"
    if I: "?I d" "row \<in> set (log_candidates cutoff d)" for d row cutoff
  proof -
    obtain l user where row: "row = (l, user)" by (cases row) auto
    obtain l0 where l0: "l0 \<in> set (deliveryLogs d0)" "dl_id l = dl_id l0" "dl_receivedAt l = dl_receivedAt l0" "user = row_user (dl_userId l0) d0"
      using log_candidate_row [OF I(1) I(2) [unfolded row]] by blast
    have body: "guarded e ?I ?G (if \<not> expired then ret () else bind (db_stmt (\<lambda>_ d. Inr (purge_log_stmt (dl_id l) d))) (\<lambda>_. ret ()))"
      if run: "is_expired_by_delivery_log_retention (dl_receivedAt l) nowMs (cc_deliveryLogRetentionDays cfg) user e w = (Inr expired, w')" for w expired w'
    proof (cases expired)
      case True
      have "outlived e nowMs (cc_deliveryLogRetentionDays cfg * 24 * 3600 * 1000) user (dl_receivedAt l)"
        by (rule is_log_expired_run) (use run True in simp)
      then have "log_outlived e nowMs cfg d0 l0" using l0 by (simp add: log_outlived_def)
      then have "guarded e ?I ?G (db_stmt (\<lambda>_ d. Inr (purge_log_stmt (dl_id l) d)))" unfolding l0(2)
        by (intro guarded_total_stmt purge_log_frame assms l0(1))
      with True show ?thesis by (simp add: guarded_bind guarded_ret)
    qed (simp add: guarded_rules)
    show ?thesis unfolding row clean_delivery_log_def prod.case
      by (rule guarded_if, rule guarded_ret, rule guarded_bind_run [OF guarded_expired(2)], rule body)
  qed
  show ?thesis unfolding clean_delivery_logs_def
    by (intro guarded_swallow guarded_bind guarded_ask guarded_bind_read guarded_for_each one)
qed

lemma tombstones_frame:
  assumes "cleanup_frame e nowMs cfg d0 d"
  shows "cleanup_frame e nowMs cfg d0 (snd (delete_expired_alias_tombstones (nowMs - tombstone_min_age_days * 24 * 60 * 60 * 1000) d))"
proof -
  let ?gone = "\<lambda>a. al_status a = Deleted \<and> js_includes (al_localPart a) alias_tombstone_marker \<and>
    al_updatedAt a < nowMs - tombstone_min_age_days * 24 * 60 * 60 * 1000 \<and> \<not> list_ex (\<lambda>l. dl_emailAddressId l = al_id a) (deliveryLogs d)"
  have "snd (delete_expired_alias_tombstones (nowMs - tombstone_min_age_days * 24 * 60 * 60 * 1000) d) = drop_aliases ?gone d"
    by (simp only: delete_expired_alias_tombstones_def Let_def snd_conv)
  moreover have same: "deliveryLogs (drop_aliases ?gone d) = deliveryLogs d" "attachments (drop_aliases ?gone d) = attachments d"
    by (rule drop_aliases_without_logs, force simp: list_ex_iff)+
  ultimately show ?thesis
    using assms unfolding cleanup_frame_def
    by (simp only: same drop_aliases_simps, intro conjI ballI) (auto simp: list_ex_iff)
qed

lemma mark_all_frame:
  "cleanup_frame e nowMs cfg d0 d \<Longrightarrow> cleanup_frame e nowMs cfg d0 (mark_all ms d)"
  unfolding mark_all_def
  by (induction ms arbitrary: d) (auto simp: mark_first_delivered_stmt_def update_activations_def put_activation_def Let_def)

lemma guarded_other_passes:
  "guarded e (cleanup_frame e nowMs cfg d0) G reconcile_activation_markers"
  "guarded e (cleanup_frame e nowMs cfg d0) G (clean_expired_links nowMs)"
  "guarded e (cleanup_frame e nowMs cfg d0) G (clean_alias_tombstones nowMs)"
  "guarded e (cleanup_frame e nowMs cfg d0) G (clean_quota_notifications nowMs)"
  "guarded e (cleanup_frame e nowMs cfg d0) G clean_expired_activation_tokens"
proof -
  show "guarded e (cleanup_frame e nowMs cfg d0) G reconcile_activation_markers"
    unfolding reconcile_activation_markers_def reconcile_first_delivered_markers_def
    by (intro guarded_catch guarded_bind guarded_ret guarded_total_stmt) (simp add: mark_all_frame)
  show "guarded e (cleanup_frame e nowMs cfg d0) G (clean_expired_links nowMs)"
    unfolding clean_expired_links_def delete_expired_delivery_view_links_def delete_expired_attachment_links_def
    by (intro guarded_swallow guarded_bind guarded_ret guarded_total_stmt) simp_all
  show "guarded e (cleanup_frame e nowMs cfg d0) G (clean_alias_tombstones nowMs)"
    unfolding clean_alias_tombstones_def by (intro guarded_swallow guarded_bind guarded_ret guarded_total_stmt tombstones_frame)
  show "guarded e (cleanup_frame e nowMs cfg d0) G (clean_quota_notifications nowMs)"
    unfolding clean_quota_notifications_def delete_old_quota_notifications_def
    by (intro guarded_swallow guarded_bind guarded_ret guarded_total_stmt) simp
  show "guarded e (cleanup_frame e nowMs cfg d0) G clean_expired_activation_tokens"
    unfolding clean_expired_activation_tokens_def clear_expired_activation_tokens_def update_activations_def Let_def
    by (intro guarded_swallow guarded_bind guarded_ret guarded_stmt) auto
qed

lemma never_throws_cleanup: "never_throws (run_cleanup cfg)"
  unfolding run_cleanup_def reconcile_activation_markers_def clean_attachments_def clean_raw_emails_def clean_delivery_logs_def
    clean_orphaned_dirs_def clean_expired_links_def clean_alias_tombstones_def clean_quota_notifications_def clean_expired_activation_tokens_def
  by (intro never_throws_rules)


section \<open>A sample run\<close>

text \<open>A week after it was received, a log that was never delivered loses its raw email.\<close>

definition stuck_log :: log_row where
  "stuck_log = \<lparr> dl_id = ''log'', dl_emailAddressId = ''al'', dl_userId = Some 7, dl_messageIdHeader = None, dl_bodySha256 = None,
     dl_bodyDedupApplied = False, dl_metadata = \<lparr> md_envelopeFrom = None, md_headerFrom = None, md_subject = None, md_ciphertext = None,
       md_encryption = no_encryption \<rparr>, dl_receivedAt = 0, dl_processingStartedAt = None, dl_rawSizeBytes = 0,
     dl_rawEmailPath = Some ''a.eml'', dl_rawEmailEncryption = no_encryption, dl_hasAttachments = False, dl_finalStatus = Failed \<rparr>"

definition sample_cleanup :: cleanup_config where
  "sample_cleanup = \<lparr> cc_attachmentDir = ''att'', cc_rawEmailDir = ''raw'', cc_attachmentTtlHours = 24, cc_rawEmailTtlHours = 24,
     cc_deliveryLogRetentionDays = 30 \<rparr>"

definition week_later :: env where "week_later = calm_env\<lparr> clock := (\<lambda>_. 8 * 24 * 3600 * 1000) \<rparr>"

lemma stuck_log_run:
  "w_trace (snd (run_cleanup sample_cleanup week_later (start_world (empty_db\<lparr>deliveryLogs := [stuck_log]\<rparr>)))) = [FileDeleted ''a.eml'', LostDelivery]"
  by code_simp


end
