(* ===== verification/AllowButton.thy ===== *)
theory AllowButton
  imports Limits AliasActivation Guarded
begin

text \<open>
  Adding allow rules (\<open>insertAllowRule\<close> and \<open>addAllowRuleForAlias\<close> of \<open>src/telegram/commands/allow.ts\<close>,
  \<open>src/telegram/allowValue.ts\<close>) and the transaction behind the one-tap button of a bounce notice
  (\<open>applyActivationAllow\<close> of \<open>src/activation/allowButton.ts\<close>).  Telegram's replies are left out.
\<close>

section \<open>Allow values\<close>

datatype parsed_allow_value = ExactEmail string | DomainValue string

fun allow_normalized :: "parsed_allow_value \<Rightarrow> string" where
  "allow_normalized (ExactEmail s) = s"
| "allow_normalized (DomainValue s) = s"

fun parsed_match_type :: "parsed_allow_value \<Rightarrow> string" where
  "parsed_match_type (ExactEmail s) = ''exact_email''"
| "parsed_match_type (DomainValue s) = ''domain''"

text \<open>\<open>EMAIL_RE\<close>: one at sign, no blank, and a dot inside the domain.\<close>

definition email_re :: "string \<Rightarrow> bool" where
  "email_re s \<longleftrightarrow> \<not> list_ex js_space s \<and>
     (case js_split (CHR ''@'') s of
        [l, d] \<Rightarrow> l \<noteq> [] \<and> list_ex (\<lambda>i. d ! i = CHR ''.'') [1..<length d - 1]
      | _ \<Rightarrow> False)"

definition domain_char :: "char \<Rightarrow> bool" where
  "domain_char c \<longleftrightarrow> (let n = char_code c in (97 \<le> n \<and> n \<le> 122) \<or> (48 \<le> n \<and> n \<le> 57))"

definition domain_label :: "string \<Rightarrow> bool" where
  "domain_label s \<longleftrightarrow> s \<noteq> [] \<and> domain_char (hd s) \<and> domain_char (last s) \<and> list_all (\<lambda>c. domain_char c \<or> c = CHR ''-'') s"

text \<open>\<open>DOMAIN_RE\<close>: at least two labels.\<close>

definition domain_re :: "string \<Rightarrow> bool" where
  "domain_re s \<longleftrightarrow> (let labels = js_split (CHR ''.'') s in 2 \<le> length labels \<and> list_all domain_label labels)"

definition parse_allow_value :: "string \<Rightarrow> parsed_allow_value option" where
  "parse_allow_value v =
     (let normalized = js_lower (js_trim v)
      in if normalized = [] then None
         else if js_includes normalized ''@'' then (if email_re normalized then Some (ExactEmail normalized) else None)
         else if domain_re normalized then Some (DomainValue normalized) else None)"

section \<open>Inserting a rule\<close>

datatype rule_insert = RuleAdded | RuleDuplicate | RuleLimit limit_result | RuleStale

text \<open>\<open>expected\<close>: the chat and the routing version the caller authorized against.\<close>

definition alias_stale :: "bigint \<Rightarrow> bigint \<times> int \<Rightarrow> alias_row option \<Rightarrow> bool" where
  "alias_stale ownerId expected current \<longleftrightarrow>
     (case current of
        None \<Rightarrow> True
      | Some a \<Rightarrow> al_status a \<noteq> Active \<or> al_createdBy a \<noteq> ownerId \<or> al_chatId a \<noteq> fst expected \<or> al_routingVersion a \<noteq> snd expected)"

definition insert_within_limit :: "uuid \<Rightarrow> bigint \<Rightarrow> parsed_allow_value \<Rightarrow> rule_insert io" where
  "insert_within_limit aliasId ownerId rule =
     bind (check_allow_rule_create_limit (Some ownerId)) (\<lambda>limit.
       if limit \<noteq> LimitOk then ret (RuleLimit limit)
       else bind (add_allow_rule aliasId (parsed_match_type rule) (allow_normalized rule)) (\<lambda>_. ret RuleAdded))"

definition insert_unless_duplicate :: "uuid \<Rightarrow> bigint \<Rightarrow> parsed_allow_value \<Rightarrow> rule_insert io" where
  "insert_unless_duplicate aliasId ownerId rule =
     bind (db_read (find_allow_rule_by_match aliasId (parsed_match_type rule) (allow_normalized rule))) (\<lambda>existing.
       if existing \<noteq> None then ret RuleDuplicate else insert_within_limit aliasId ownerId rule)"

definition insert_allow_rule :: "uuid \<Rightarrow> bigint \<Rightarrow> parsed_allow_value \<Rightarrow> (bigint \<times> int) option \<Rightarrow> rule_insert io" where
  "insert_allow_rule aliasId ownerId rule expected =
     bind (case expected of
             None \<Rightarrow> ret False
           | Some x \<Rightarrow> bind (db_read (find_alias_by_id aliasId)) (\<lambda>current. ret (alias_stale ownerId x current))) (\<lambda>stale.
       if stale then ret RuleStale else insert_unless_duplicate aliasId ownerId rule)"

text \<open>\<open>addAllowRuleForAlias\<close> without its replies: None for a malformed value.\<close>

definition add_allow_rule_for_alias :: "alias_row \<Rightarrow> string \<Rightarrow> rule_insert option io" where
  "add_allow_rule_for_alias al v =
     (case parse_allow_value v of
        None \<Rightarrow> ret None
      | Some rule \<Rightarrow>
          bind (with_user_quota_lock (Some (al_createdBy al)) (insert_allow_rule (al_id al) (al_createdBy al) rule None)) (\<lambda>outcome.
          ret (Some outcome)))"

section \<open>The one-tap button\<close>

datatype allow_outcome =
  AllowAdded alias_row string | AllowDuplicate alias_row string | AllowLimited alias_row string "int option"
  | AllowFailed alias_row string | AllowExpired

definition allow_outcome_of :: "alias_row \<Rightarrow> string \<Rightarrow> rule_insert \<Rightarrow> allow_outcome" where
  "allow_outcome_of al dmn inserted =
     (case inserted of
        RuleAdded \<Rightarrow> AllowAdded al dmn
      | RuleDuplicate \<Rightarrow> AllowDuplicate al dmn
      | RuleLimit limit \<Rightarrow> AllowLimited al dmn (case limit of LimitHit AllowRuleLimit n used \<Rightarrow> n | _ \<Rightarrow> None)
      | RuleStale \<Rightarrow> AllowExpired)"

text \<open>What the claim must still say for the button to act: the rule it stands for.\<close>

definition claimed_domain :: "consumed_token \<Rightarrow> string option" where
  "claimed_domain claim =
     (if truthy (ct_domain claim)
      then (case parse_allow_value (the (ct_domain claim)) of Some (DomainValue dmn) \<Rightarrow> Some dmn | _ \<Rightarrow> None)
      else None)"

definition claimed_rule :: "bigint \<Rightarrow> alias_row option \<Rightarrow> consumed_token \<Rightarrow> (alias_row \<times> string \<times> bigint \<times> int) option" where
  "claimed_rule ownerId current claim =
     (case current of
        None \<Rightarrow> None
      | Some a \<Rightarrow>
          (case claimed_domain claim of
             None \<Rightarrow> None
           | Some dmn \<Rightarrow>
               if al_createdBy a \<noteq> ownerId \<or> al_status a \<noteq> Active \<or> ct_chatId claim \<noteq> Some (al_chatId a) \<or>
                  ct_routingVersion claim \<noteq> Some (al_routingVersion a) then None
               else Some (a, dmn, al_chatId a, al_routingVersion a)))"

definition apply_activation_allow :: "uuid \<Rightarrow> string \<Rightarrow> allow_outcome io" where
  "apply_activation_allow aliasId token = with_bounded_transaction (
     bind (db_read (find_alias_by_id aliasId)) (\<lambda>before.
       case before of
         None \<Rightarrow> ret AllowExpired
       | Some b \<Rightarrow>
           bind advisory_lock (\<lambda>_.
           bind (db_read (find_alias_by_id aliasId)) (\<lambda>current.
           bind (db_stmt (\<lambda>t d. Inr (consume_activation_token aliasId token t d))) (\<lambda>claim.
             case claim of
               None \<Rightarrow> ret AllowExpired
             | Some c \<Rightarrow>
                 (case claimed_rule (al_createdBy b) current c of
                    None \<Rightarrow> ret AllowExpired
                  | Some (a, dmn, expected) \<Rightarrow>
                      catch (bind (savepoint (insert_allow_rule (al_id a) (al_createdBy b) (DomainValue dmn) (Some expected))) (\<lambda>inserted.
                             ret (allow_outcome_of a dmn inserted)))
                        (\<lambda>_. ret (AllowFailed a dmn))))))))"

section \<open>What the button may do\<close>

lemma savepoint_Inr:
  "savepoint m e w = (Inr a, w') \<longleftrightarrow>
     (\<exists>w1 w2. db_read (\<lambda>_. ()) e w = (Inr (), w1) \<and> m e w1 = (Inr a, w2) \<and> db_read (\<lambda>_. ()) e w2 = (Inr (), w'))"
  by (auto simp: savepoint_def bind_Inr catch_Inr caches_Inr ret_Inr)

lemma savepoint_Inl:
  assumes "savepoint m e w = (Inl x, w')" "w_tx w = InTx"
  shows "w_tx w' \<noteq> InTx \<or> w_db w' = w_db w"
proof (cases "\<exists>w1. db_read (\<lambda>_. ()) e w = (Inr (), w1)")
  case True
  then obtain w1 where w1: "db_read (\<lambda>_. ()) e w = (Inr (), w1)" by blast
  then have "w_db w1 = w_db w" by (simp add: db_read_Inr)
  with assms w1 show ?thesis
    by (auto simp: savepoint_def bind_def catch_def peek_def rollback_to_savepoint_def Let_def split: prod.splits sum.splits if_splits)
next
  case False
  obtain q w1 where r: "db_read (\<lambda>_. ()) e w = (q, w1)" by fastforce
  with False obtain y where q: "q = Inl y" by (cases q) auto
  then have "w' = w1" using assms(1) r by (simp add: savepoint_def bind_def)
  moreover have "w_db w1 = w_db w" using r q by (auto simp: db_read_def db_stmt_def Let_def split: fault.splits if_splits)
  ultimately show ?thesis by simp
qed

definition rule_inserted :: "env \<Rightarrow> uuid \<Rightarrow> parsed_allow_value \<Rightarrow> rule_insert \<Rightarrow> world \<Rightarrow> world \<Rightarrow> bool" where
  "rule_inserted e i rule r w w' \<longleftrightarrow> w_tx w' = w_tx w \<and> (if r = RuleAdded
     then \<exists>k. w_db w' = (w_db w)\<lparr>allowRules := allowRules (w_db w) @
       [\<lparr> ar_id = fresh_uuid e k, ar_emailAddressId = i, ar_matchType = parsed_match_type rule, ar_matchValue = allow_normalized rule \<rparr>]\<rparr>
     else w_db w' = w_db w)"

lemma rule_inserted_from:
  assumes "w_db w1 = w_db w" "w_tx w1 = w_tx w" "rule_inserted e i rule r w1 w'"
  shows "rule_inserted e i rule r w w'"
  using assms(3) unfolding rule_inserted_def assms(1,2) .

lemma insert_within_limit_Inr:
  assumes "insert_within_limit i own rule e w = (Inr r, w')"
  shows "rule_inserted e i rule r w w'"
proof -
  have q: "quiet (check_allow_rule_create_limit (Some own))"
    unfolding check_allow_rule_create_limit_def find_user_by_id_def get_effective_plan_def Let_def by (intro quiet_rules)
  obtain limit w1 where l: "check_allow_rule_create_limit (Some own) e w = (Inr limit, w1)" and
    rest: "(if limit \<noteq> LimitOk then ret (RuleLimit limit) else bind (add_allow_rule i (parsed_match_type rule) (allow_normalized rule)) (\<lambda>_. ret RuleAdded)) e w1 = (Inr r, w')"
    using assms unfolding insert_within_limit_def bind_Inr [where m = "check_allow_rule_create_limit _"] by (elim exE conjE)
  have "rule_inserted e i rule r w1 w'" using rest
    by (auto simp: rule_inserted_def ret_Inr bind_Inr add_allow_rule_def Let_def random_uuid_Inr db_stmt_Inr split: if_splits)
  then show ?thesis by (rule rule_inserted_from [OF quietD(1,2) [OF q l]])
qed

lemma insert_unless_duplicate_Inr:
  assumes "insert_unless_duplicate i own rule e w = (Inr r, w')"
  shows "rule_inserted e i rule r w w'"
proof -
  obtain x w1 where "db_read (find_allow_rule_by_match i (parsed_match_type rule) (allow_normalized rule)) e w = (Inr x, w1)" and
    rest: "(if x \<noteq> None then ret RuleDuplicate else insert_within_limit i own rule) e w1 = (Inr r, w')"
    using assms unfolding insert_unless_duplicate_def bind_Inr by (elim exE conjE)
  then have w1: "w_db w1 = w_db w" "w_tx w1 = w_tx w" by (simp_all add: db_read_Inr)
  have "rule_inserted e i rule r w1 w'"
    using rest insert_within_limit_Inr by (cases "x = None") (auto simp: rule_inserted_def ret_Inr)
  with w1 show ?thesis by (rule rule_inserted_from)
qed

lemma insert_allow_rule_Inr:
  assumes "insert_allow_rule i own rule x e w = (Inr r, w')"
  shows "rule_inserted e i rule r w w'"
proof -
  let ?stale = "case x of None \<Rightarrow> ret False | Some y \<Rightarrow> bind (db_read (find_alias_by_id i)) (\<lambda>current. ret (alias_stale own y current))"
  have q: "quiet ?stale" by (intro quiet_rules)
  obtain s w1 where s: "?stale e w = (Inr s, w1)" and rest: "(if s then ret RuleStale else insert_unless_duplicate i own rule) e w1 = (Inr r, w')"
    using assms unfolding insert_allow_rule_def bind_Inr [where m = ?stale] by (elim exE conjE)
  have "rule_inserted e i rule r w1 w'"
    using rest insert_unless_duplicate_Inr by (cases s) (auto simp: rule_inserted_def ret_Inr)
  then show ?thesis by (rule rule_inserted_from [OF quietD(1,2) [OF q s]])
qed

text \<open>What the transaction may do to the database \<open>d\<close> at time \<open>t\<close>: it spends the token, and adds at
  most the rule its claim stands for.\<close>

definition button_rule :: "db \<Rightarrow> instant \<Rightarrow> uuid \<Rightarrow> string \<Rightarrow> allow_rule_row \<Rightarrow> bool" where
  "button_rule d t i tok rule \<longleftrightarrow>
     ar_emailAddressId rule = i \<and> ar_matchType rule = ''domain'' \<and>
     (\<exists>a\<in>set (aliases d). \<exists>r\<in>set (aliasActivation d). live_token i tok t r \<and> al_id a = i \<and> al_status a = Active \<and>
        av_chatId r = Some (al_chatId a) \<and> av_routingVersion r = Some (al_routingVersion a) \<and>
        (\<exists>v. av_domain r = Some v \<and> parse_allow_value v = Some (DomainValue (ar_matchValue rule))))"

definition button_pressed :: "db \<Rightarrow> instant \<Rightarrow> uuid \<Rightarrow> string \<Rightarrow> allow_outcome \<Rightarrow> db \<Rightarrow> bool" where
  "button_pressed d t i tok out d' \<longleftrightarrow>
     (out = AllowExpired \<and> d' = d) \<or>
     ((\<forall>r\<in>set (aliasActivation d'). \<not> live_token i tok t r) \<and>
      (case out of
         AllowAdded a dmn \<Rightarrow> \<exists>rule. allowRules d' = allowRules d @ [rule] \<and> ar_matchValue rule = dmn \<and> button_rule d t i tok rule
       | _ \<Rightarrow> allowRules d' = allowRules d))"

lemma consumed_not_live:
  "r \<in> set (aliasActivation (snd (consume_activation_token i tok t d))) \<Longrightarrow> \<not> live_token i tok t r"
  by (auto simp: consume_activation_token_def update_activations_def set_update_where) (simp add: live_token_def)

lemma claimed_domain_Some:
  assumes "claimed_domain c = Some dmn"
  obtains v where "ct_domain c = Some v" "parse_allow_value v = Some (DomainValue dmn)"
proof -
  obtain v where v: "ct_domain c = Some v" "v \<noteq> []"
    using assms unfolding claimed_domain_def truthy_iff by (metis option.distinct(1))
  then have "(case parse_allow_value v of Some (DomainValue dmn) \<Rightarrow> Some dmn | _ \<Rightarrow> None) = Some dmn"
    using assms by (simp add: claimed_domain_def)
  then show thesis using that [OF v(1)] by (cases "parse_allow_value v") (simp_all split: parsed_allow_value.splits)
qed

lemma claimed_rule_Some:
  assumes "claimed_rule own current c = Some (a, dmn, x)"
  shows "current = Some a \<and> al_status a = Active \<and> ct_chatId c = Some (al_chatId a) \<and> ct_routingVersion c = Some (al_routingVersion a) \<and>
    (\<exists>v. ct_domain c = Some v \<and> parse_allow_value v = Some (DomainValue dmn))"
proof -
  obtain b where b: "current = Some b" using assms by (cases current) (simp_all add: claimed_rule_def)
  obtain m where m: "claimed_domain c = Some m" using assms b by (cases "claimed_domain c") (simp_all add: claimed_rule_def)
  obtain v where v: "ct_domain c = Some v" "parse_allow_value v = Some (DomainValue m)" using m by (rule claimed_domain_Some)
  have "b = a" "m = dmn" "al_status b = Active" "ct_chatId c = Some (al_chatId b)" "ct_routingVersion c = Some (al_routingVersion b)"
    using assms by (simp_all add: claimed_rule_def b m split: if_splits)
  with b v show ?thesis by blast
qed

text \<open>The end of the transaction, after the token is spent.\<close>

definition add_claimed_rule :: "bigint \<Rightarrow> (alias_row \<times> string \<times> bigint \<times> int) option \<Rightarrow> allow_outcome io" where
  "add_claimed_rule own rule =
     (case rule of None \<Rightarrow> ret AllowExpired
      | Some (a, dmn, expected) \<Rightarrow>
          catch (bind (savepoint (insert_allow_rule (al_id a) own (DomainValue dmn) (Some expected))) (\<lambda>inserted.
                 ret (allow_outcome_of a dmn inserted)))
            (\<lambda>_. ret (AllowFailed a dmn)))"

lemma add_claimed_rule_Inr:
  assumes "add_claimed_rule own (claimed_rule own current c) e w = (Inr out, w')" "w_tx w = InTx" "w_tx w' = InTx"
  shows "(case out of
      AllowAdded a dmn \<Rightarrow> \<exists>x k. claimed_rule own current c = Some (a, dmn, x) \<and> w_db w' = (w_db w)\<lparr>allowRules := allowRules (w_db w) @
        [\<lparr> ar_id = fresh_uuid e k, ar_emailAddressId = al_id a, ar_matchType = ''domain'', ar_matchValue = dmn \<rparr>]\<rparr>
    | _ \<Rightarrow> w_db w' = w_db w)"
proof (cases "claimed_rule own current c")
  case None
  with assms(1) show ?thesis by (auto simp: add_claimed_rule_def ret_Inr)
next
  case (Some p)
  obtain a dmn x where p: "p = (a, dmn, x)" by (cases p) auto
  let ?ins = "insert_allow_rule (al_id a) own (DomainValue dmn) (Some x)"
  have run: "catch (bind (savepoint ?ins) (\<lambda>inserted. ret (allow_outcome_of a dmn inserted))) (\<lambda>_. ret (AllowFailed a dmn)) e w = (Inr out, w')"
    using assms(1) by (simp add: add_claimed_rule_def Some p)
  obtain q w2 where sv: "savepoint ?ins e w = (q, w2)" by fastforce
  show ?thesis
  proof (cases q)
    case (Inl y)
    then have "out = AllowFailed a dmn" "w' = w2" using run sv by (simp_all add: catch_def bind_def ret_def)
    moreover have "w_db w2 = w_db w" using savepoint_Inl [OF sv [unfolded Inl] assms(2)] assms(3) \<open>w' = w2\<close> by simp
    ultimately show ?thesis by simp
  next
    case (Inr r)
    then have o: "out = allow_outcome_of a dmn r" "w' = w2" using run sv by (simp_all add: catch_def bind_def ret_def)
    obtain w3 w4 where w: "db_read (\<lambda>_. ()) e w = (Inr (), w3)" "?ins e w3 = (Inr r, w4)" "db_read (\<lambda>_. ()) e w4 = (Inr (), w2)"
      using sv Inr by (auto simp: savepoint_Inr)
    have "w_db w3 = w_db w" "w_db w2 = w_db w4" using w(1,3) by (simp_all add: db_read_Inr)
    moreover have "rule_inserted e (al_id a) (DomainValue dmn) r w3 w4" using w(2) by (rule insert_allow_rule_Inr)
    ultimately show ?thesis unfolding o Some p rule_inserted_def allow_outcome_of_def by (cases r) auto
  qed
qed

definition spend_and_add :: "uuid \<Rightarrow> string \<Rightarrow> bigint \<Rightarrow> alias_row option \<Rightarrow> allow_outcome io" where
  "spend_and_add i tok own current =
     bind (db_stmt (\<lambda>t d. Inr (consume_activation_token i tok t d))) (\<lambda>claim.
       case claim of None \<Rightarrow> ret AllowExpired | Some c \<Rightarrow> add_claimed_rule own (claimed_rule own current c))"

lemma apply_activation_allow_alt:
  "apply_activation_allow i tok = with_bounded_transaction (
     bind (db_read (find_alias_by_id i)) (\<lambda>before. case before of None \<Rightarrow> ret AllowExpired
       | Some b \<Rightarrow> bind advisory_lock (\<lambda>_. bind (db_read (find_alias_by_id i)) (spend_and_add i tok (al_createdBy b)))))"
  unfolding apply_activation_allow_def spend_and_add_def add_claimed_rule_def ..

lemma spend_and_add_Inr:
  assumes run: "spend_and_add i tok own current e w = (Inr out, w')" and tx: "w_tx w = InTx" "w_tx w' = InTx" "w_txNow w = t"
    and cur: "current = find_alias_by_id i (w_db w)"
  shows "button_pressed (w_db w) t i tok out (w_db w')"
proof -
  let ?d = "snd (consume_activation_token i tok t (w_db w))" and ?c = "fst (consume_activation_token i tok t (w_db w))"
  have tm: "stmt_time e w = t" using tx by (simp add: stmt_time_def)
  obtain claim w2 where c: "db_stmt (\<lambda>t d. Inr (consume_activation_token i tok t d)) e w = (Inr claim, w2)"
    and rest: "(case claim of None \<Rightarrow> ret AllowExpired | Some c \<Rightarrow> add_claimed_rule own (claimed_rule own current c)) e w2 = (Inr out, w')"
    using run unfolding spend_and_add_def bind_Inr by (elim exE conjE)
  have claim: "claim = ?c" and db2: "w_db w2 = ?d" and t2: "w_tx w2 = InTx" using c tx tm by (auto simp: db_stmt_Inr)
  show ?thesis
  proof (cases claim)
    case None
    then have none: "\<not> live_token i tok t r" if "r \<in> set (aliasActivation (w_db w))" for r
      using claim that by (auto simp: consume_activation_token_def select_first_None)
    then have "?d = w_db w"
      by (simp add: consume_activation_token_def update_activations_def update_where_none)
    moreover have "w_db w' = w_db w2" "out = AllowExpired" using rest None by (auto simp: ret_Inr)
    ultimately show ?thesis by (simp add: button_pressed_def db2)
  next
    case (Some c)
    have add: "add_claimed_rule own (claimed_rule own current c) e w2 = (Inr out, w')" using rest by (simp add: Some)
    note ends = add_claimed_rule_Inr [OF add t2 tx(2)]
    have acts: "aliasActivation (w_db w') = aliasActivation ?d" using ends db2 by (auto split: allow_outcome.splits)
    then have spent: "\<forall>r\<in>set (aliasActivation (w_db w')). \<not> live_token i tok t r" using consumed_not_live by metis
    have rules: "allowRules ?d = allowRules (w_db w)" by (simp add: consume_activation_token_def update_activations_def)
    show ?thesis
    proof (cases out)
      case (AllowAdded a dmn)
      obtain x k where x: "claimed_rule own current c = Some (a, dmn, x)" and
        new: "w_db w' = (w_db w2)\<lparr>allowRules := allowRules (w_db w2) @
          [\<lparr> ar_id = fresh_uuid e k, ar_emailAddressId = al_id a, ar_matchType = ''domain'', ar_matchValue = dmn \<rparr>]\<rparr>"
        using ends unfolding AllowAdded allow_outcome.case by blast
      note cr = claimed_rule_Some [OF x]
      have a: "a \<in> set (aliases (w_db w))" "al_id a = i" using cr cur by (auto simp: find_alias_by_id_def dest!: sym [of _ "select_first _ _"] select_first_Some)
      obtain row where row: "select_first (live_token i tok t) (aliasActivation (w_db w)) = Some row"
        "c = \<lparr> ct_domain = av_domain row, ct_chatId = av_chatId row, ct_routingVersion = av_routingVersion row \<rparr>"
        using claim Some unfolding consume_activation_token_def fst_conv by (cases "select_first (live_token i tok t) (aliasActivation (w_db w))") simp_all
      have "button_rule (w_db w) t i tok \<lparr> ar_id = fresh_uuid e k, ar_emailAddressId = al_id a, ar_matchType = ''domain'', ar_matchValue = dmn \<rparr>"
        using a cr row(2) select_first_Some [OF row(1)] unfolding button_rule_def by auto
      then have "\<exists>rule. allowRules (w_db w') = allowRules (w_db w) @ [rule] \<and> ar_matchValue rule = dmn \<and> button_rule (w_db w) t i tok rule"
        unfolding new db2 rules by (intro exI conjI) simp_all
      then show ?thesis unfolding button_pressed_def AllowAdded allow_outcome.case using spent by blast
    qed (use ends spent db2 rules in \<open>simp_all add: button_pressed_def\<close>)
  qed
qed

definition button_body :: "uuid \<Rightarrow> string \<Rightarrow> allow_outcome io" where
  "button_body i tok = bind (db_read (\<lambda>_. ())) (\<lambda>_. bind (db_read (find_alias_by_id i)) (\<lambda>before. case before of None \<Rightarrow> ret AllowExpired
       | Some b \<Rightarrow> bind advisory_lock (\<lambda>_. bind (db_read (find_alias_by_id i)) (spend_and_add i tok (al_createdBy b)))))"

lemma apply_activation_allow_body: "apply_activation_allow i tok = transaction (button_body i tok)"
  unfolding apply_activation_allow_alt with_bounded_transaction_def button_body_def ..

lemma button_body_run:
  assumes "button_body i tok e (begin_tx e w) = (Inr out, w2)"
  obtains "out = AllowExpired" "w_db w2 = w_db w" "w_tx w2 = InTx"
  | own w4 where "spend_and_add i tok own (find_alias_by_id i (w_db w4)) e w4 = (Inr out, w2)" "w_db w4 = w_db w" "w_tx w4 = InTx"
      "w_txNow w4 = clock e (w_tick w)"
proof -
  obtain u w3 before w5 where s1: "db_read (\<lambda>_. ()) e (begin_tx e w) = (Inr u, w3)" and s2: "db_read (find_alias_by_id i) e w3 = (Inr before, w5)" and
    rest: "(case before of None \<Rightarrow> ret AllowExpired
     | Some b \<Rightarrow> bind advisory_lock (\<lambda>_. bind (db_read (find_alias_by_id i)) (spend_and_add i tok (al_createdBy b)))) e w5 = (Inr out, w2)"
    using assms unfolding button_body_def bind_Inr [where m = "db_read _"] by (elim exE conjE)
  have w5: "w_db w5 = w_db w" "w_tx w5 = InTx" "w_txNow w5 = clock e (w_tick w)" using s1 s2 by (simp_all add: db_read_Inr)
  show thesis
  proof (cases before)
    case None
    with rest w5 that(1) show thesis by (simp add: ret_Inr)
  next
    case (Some al)
    obtain u w6 cur w4 where l: "advisory_lock e w5 = (Inr u, w6)" and c: "db_read (find_alias_by_id i) e w6 = (Inr cur, w4)"
      and sp: "spend_and_add i tok (al_createdBy al) cur e w4 = (Inr out, w2)"
      using rest unfolding Some option.case bind_Inr by (elim exE conjE)
    have "cur = find_alias_by_id i (w_db w4)" "w_db w4 = w_db w" "w_tx w4 = InTx" "w_txNow w4 = clock e (w_tick w)"
      using l c w5 by (simp_all add: db_read_Inr advisory_lock_Inr)
    with sp that(2) show thesis by blast
  qed
qed

lemma inside_savepoint: "inside m \<Longrightarrow> inside (savepoint m)"
proof -
  have r: "inside (rollback_to_savepoint d x)" for d x by (simp add: inside_def rollback_to_savepoint_def Let_def)
  have p: "inside (peek f)" for f by (simp add: inside_def peek_def)
  assume "inside m"
  then show ?thesis unfolding savepoint_def by (intro inside_rules r p)
qed

lemma inside_insert: "inside (insert_allow_rule i own rule x)"
  unfolding insert_allow_rule_def insert_unless_duplicate_def insert_within_limit_def check_allow_rule_create_limit_def find_user_by_id_def
    get_effective_plan_def add_allow_rule_def Let_def
  by (intro inside_rules)

lemma inside_button: "inside (button_body i tok)"
  unfolding button_body_def spend_and_add_def add_claimed_rule_def by (intro inside_rules inside_savepoint inside_insert)

text \<open>An answer ``added'' never comes out of an aborted transaction.\<close>

lemma added_in_tx:
  assumes "button_body i tok e (begin_tx e w) = (Inr (AllowAdded a dmn), w2)"
  shows "w_tx w2 = InTx"
  using assms
proof (cases rule: button_body_run)
  case (2 own w4)
  obtain claim w5 where c: "db_stmt (\<lambda>t d. Inr (consume_activation_token i tok t d)) e w4 = (Inr claim, w5)" and
    rest: "(case claim of None \<Rightarrow> ret AllowExpired
      | Some c \<Rightarrow> add_claimed_rule own (claimed_rule own (find_alias_by_id i (w_db w4)) c)) e w5 = (Inr (AllowAdded a dmn), w2)"
    using 2(1) unfolding spend_and_add_def bind_Inr by (elim exE conjE)
  have t5: "w_tx w5 = InTx" using c 2(3) by (auto simp: db_stmt_Inr)
  obtain c where c: "claim = Some c" using rest by (cases claim) (simp_all add: ret_Inr)
  obtain b m x where p: "claimed_rule own (find_alias_by_id i (w_db w4)) c = Some (b, m, x)"
    using rest c by (cases "claimed_rule own (find_alias_by_id i (w_db w4)) c") (auto simp: add_claimed_rule_def ret_Inr)
  let ?ins = "insert_allow_rule (al_id b) own (DomainValue m) (Some x)"
  have run: "catch (bind (savepoint ?ins) (\<lambda>inserted. ret (allow_outcome_of b m inserted))) (\<lambda>_. ret (AllowFailed b m)) e w5 = (Inr (AllowAdded a dmn), w2)"
    using rest c p by (simp add: add_claimed_rule_def)
  obtain q w6 where sv: "savepoint ?ins e w5 = (q, w6)" by fastforce
  then obtain r where q: "q = Inr r" and "w2 = w6" using run by (cases q) (simp_all add: catch_def bind_def ret_def)
  then obtain w3 w4 where w: "db_read (\<lambda>_. ()) e w5 = (Inr (), w3)" "?ins e w3 = (Inr r, w4)" "db_read (\<lambda>_. ()) e w4 = (Inr (), w2)"
    using sv by (auto simp: savepoint_Inr)
  have "w_tx w4 = w_tx w3" using insert_allow_rule_Inr [OF w(2)] by (simp add: rule_inserted_def)
  with w(1,3) t5 show ?thesis by (simp add: db_read_Inr)
qed simp_all

lemma button_commits:
  assumes "button_body i tok e (begin_tx e w) = (Inr out, w2)" "w_tx w2 = InTx"
  shows "button_pressed (w_db w) (clock e (w_tick w)) i tok out (w_db w2)"
  using assms(1)
proof (cases rule: button_body_run)
  case 1
  then show ?thesis by (simp add: button_pressed_def)
next
  case (2 own w4)
  show ?thesis using spend_and_add_Inr [OF 2(1,3) assms(2) 2(4) refl] 2(2) by simp
qed

text \<open>C27: The one-tap button adds what its notice claimed, and nothing else.  Whatever fails, pressing it
  leaves the database as it was or shows one complete outcome: the token is spent, and a rule was
  added only as the domain that this very claim had stored (the authenticated sender of the bounced
  mail), for an active alias that is still on the chat and routing version of the claim.  Every
  answer other than ``added'' leaves the rules alone.\<close>

theorem button_adds_claimed_domain:
  assumes "apply_activation_allow i tok e w = (r, w')"
  shows "(w_db w' = w_db w \<or> (\<exists>out. button_pressed (w_db w) (clock e (w_tick w)) i tok out (w_db w'))) \<and>
    (\<forall>a dmn. r = Inr (AllowAdded a dmn) \<longrightarrow> button_pressed (w_db w) (clock e (w_tick w)) i tok (AllowAdded a dmn) (w_db w'))"
proof -
  have run: "transaction (button_body i tok) e w = (r, w')" using assms(1) unfolding apply_activation_allow_body .
  show ?thesis using run inside_button
  proof (cases rule: transaction_inside)
    case 1
    then show ?thesis using added_in_tx by fastforce
  next
    case (2 a w2)
    with button_commits [OF 2(1,2)] show ?thesis by auto
  qed
qed

section \<open>A sample tap\<close>

definition button_alias :: alias_row where
  "button_alias = \<lparr> al_id = ''al'', al_localPart = ''shop'', al_fullAddress = ''shop@in.example'', al_domainId = None, al_chatId = 7,
     al_messageThreadId = None, al_createdBy = 7, al_label = None, al_renderMode = ''plaintext'', al_privacyModeEnabled = False,
     al_bodyDedupEnabled = False, al_status = Active, al_routingVersion = 0, al_createdAt = 0, al_updatedAt = 0 \<rparr>"

definition claimed_db :: db where
  "claimed_db = empty_db\<lparr> aliases := [button_alias],
     aliasActivation := [(blank_activation ''al'')\<lparr> av_claimsUsed := 1, av_token := Some ''tok'', av_expiresAt := Some 1,
       av_domain := Some ''shop.example'', av_chatId := Some 7, av_routingVersion := Some 0 \<rparr>] \<rparr>"

lemma sample_tap:
  "fst (apply_activation_allow ''al'' ''tok'' calm_env (start_world claimed_db)) = Inr (AllowAdded button_alias ''shop.example'')"
  by code_simp

lemma button_adds_claimed_domain_witness:
  "\<exists>w'. apply_activation_allow ''al'' ''tok'' calm_env (start_world claimed_db) = (Inr (AllowAdded button_alias ''shop.example''), w') \<and>
     button_pressed claimed_db 0 ''al'' ''tok'' (AllowAdded button_alias ''shop.example'') (w_db w')"
proof -
  obtain w' where run: "apply_activation_allow ''al'' ''tok'' calm_env (start_world claimed_db) = (Inr (AllowAdded button_alias ''shop.example''), w')"
    using sample_tap by (metis prod.collapse)
  from button_adds_claimed_domain [OF this] run show ?thesis by simp
qed

end
