(* ===== verification/Notice.thy ===== *)
theory Notice
  imports AllowButton SenderRules Renderer Encryption
begin

text \<open>
  The first-bounce notice (\<open>src/activation/notice.ts\<close>): what one job of the notice queue does.  The
  stop check of the job context (\<open>src/activation/noticeQueue.ts\<close>: shutdown or deadline) runs before
  every phase and again inside every transaction.  Texts come from the message catalogue; of a
  keyboard only the callback data is modelled.
\<close>

section \<open>The job and its bounds\<close>

datatype notice_stage = RawStage | PreflightStage

record notice_job =
  nj_stage :: notice_stage
  nj_aliasId :: uuid
  nj_headerFromDomain :: "string option"
  nj_envelopeFrom :: "string option"
  nj_mime :: "bytes option"
  nj_admittedAt :: instant

text \<open>\<open>NOTICE_BOUNDS\<close> of \<open>bounds.ts\<close>; the statement and send timeouts are outcomes of the environment.\<close>

record notice_bounds =
  nb_maxAdmittedJobs :: nat
  nb_maxConcurrentAuthentications :: nat
  nb_maxHeldMimeBytes :: nat
  nb_maxJobAgeAtStartMs :: int
  nb_jobDeadlineMs :: int

definition notice_bounds :: notice_bounds where
  "notice_bounds = \<lparr> nb_maxAdmittedJobs = 8, nb_maxConcurrentAuthentications = 2, nb_maxHeldMimeBytes = 4 * 1024 * 1024,
     nb_maxJobAgeAtStartMs = 60000, nb_jobDeadlineMs = 20000 \<rparr>"

datatype notice_result = NoticeDropped | NoticeGated | NotClaimed | NoticeFailed | NoticeStale | NoticeSent

section \<open>Pure policy\<close>

definition passes_activation_gate :: "activation_gate \<Rightarrow> bool" where
  "passes_activation_gate g \<longleftrightarrow> ag_status g = Active \<and> \<not> ag_working g \<and> (ag_recentlyCreated g \<or> ag_ownerNeverAccepted g)"

definition usable_from_domain :: "string option \<Rightarrow> string option" where
  "usable_from_domain v =
     (if \<not> truthy v then None
      else case parse_allow_value (the v) of
          Some (DomainValue d) \<Rightarrow> if length d \<le> 253 then Some d else None
        | _ \<Rightarrow> None)"

definition one_tap_domain_for :: "sender_auth \<Rightarrow> string \<Rightarrow> string option" where
  "one_tap_domain_for auth headerFromDomain =
     (case usable_from_domain (Some headerFromDomain) of
        None \<Rightarrow> None
      | Some domain \<Rightarrow>
          if sa_status auth \<noteq> AuthPass then None
          else if usable_from_domain (sa_headerFromDomain auth) \<noteq> Some domain then None
          else if list_ex (\<lambda>d. js_lower (js_trim d) = domain) (sa_authenticatedDomains auth) then Some domain else None)"

definition is_still_eligible :: "activation_revalidation option \<Rightarrow> string \<Rightarrow> activation_gate \<Rightarrow> bool" where
  "is_still_eligible row token gate \<longleftrightarrow>
     (case row of
        None \<Rightarrow> False
      | Some r \<Rightarrow> vr_status r = Active \<and> vr_ownerId r = ag_ownerId gate \<and> vr_chatId r = ag_chatId gate \<and>
          vr_routingVersion r = ag_routingVersion gate \<and> vr_token r = Some token \<and> \<not> vr_working r)"

definition cb_activation_allow :: "uuid \<Rightarrow> string \<Rightarrow> string" where
  "cb_activation_allow aliasId token = ''rn:'' @ aliasId @ '':'' @ token"

definition cb_activation_rules :: "uuid \<Rightarrow> string" where
  "cb_activation_rules aliasId = ''rl:'' @ aliasId"

definition notice_text :: "env \<Rightarrow> string option \<Rightarrow> notice_stage \<Rightarrow> string \<Rightarrow> string option \<Rightarrow> string" where
  "notice_text e locale stage address fromDomain =
     (if stage = PreflightStage then catalogue e locale ''bouncedNoRules'' [escape_html address]
      else if truthy fromDomain then catalogue e locale ''bouncedFromDomain'' [escape_html address, escape_html (the fromDomain)]
      else catalogue e locale ''bouncedNoSender'' [escape_html address])"

definition notice_keyboard :: "uuid \<Rightarrow> string option \<Rightarrow> string \<Rightarrow> string list" where
  "notice_keyboard aliasId oneTapDomain token =
     (if truthy oneTapDomain then [cb_activation_allow aliasId token, cb_activation_rules aliasId] else [cb_activation_rules aliasId])"

text \<open>16 random bytes as base64url.\<close>

definition base64url :: "bytes \<Rightarrow> string" where
  "base64url b = map (\<lambda>c. if c = CHR ''+'' then CHR ''-'' else if c = CHR ''/'' then CHR ''_'' else c) (filter (\<lambda>c. c \<noteq> CHR ''='') (to_base64 b))"

definition generate_activation_token :: "string io" where
  "generate_activation_token = bind (at_tick (\<lambda>e t. random_bytes e t 16)) (\<lambda>b. ret (base64url b))"

section \<open>Phases\<close>

definition notice_stop :: "exn \<Rightarrow> bool" where
  "notice_stop x \<longleftrightarrow> x = Raised ''NoticePhaseStopped''"

definition begin_phase :: "instant \<Rightarrow> unit io" where
  "begin_phase deadlineAt =
     bind (at_tick shutting_down) (\<lambda>stopped.
       if stopped then throw (Raised ''NoticePhaseStopped'')
       else bind now (\<lambda>t. if deadlineAt \<le> t then throw (Raised ''NoticePhaseStopped'') else ret ()))"

definition can_start_phase :: "instant \<Rightarrow> bool io" where
  "can_start_phase deadlineAt = bind (at_tick shutting_down) (\<lambda>stopped. bind now (\<lambda>t. ret (\<not> stopped \<and> t < deadlineAt)))"

definition phase_tx :: "instant \<Rightarrow> 'a io \<Rightarrow> 'a io" where
  "phase_tx deadlineAt work = with_bounded_transaction (bind (begin_phase deadlineAt) (\<lambda>_. work))"

text \<open>A catch that lets a stop through.\<close>

definition catch_failure :: "'a io \<Rightarrow> 'a io \<Rightarrow> 'a io" where
  "catch_failure m h = catch m (\<lambda>x. if notice_stop x then throw x else h)"

text \<open>\<open>ctx.authenticate\<close>: None when no slot came free, the work failed or did not end in time.\<close>

definition authenticate_in_budget :: "instant \<Rightarrow> bytes \<Rightarrow> string option \<Rightarrow> sender_auth option io" where
  "authenticate_in_budget deadlineAt mime envelopeFrom =
     bind (begin_phase deadlineAt) (\<lambda>_.
     bind (at_tick auth_slot) (\<lambda>slot.
       if \<not> slot then ret None
       else bind (try_io (authenticate_sender mime envelopeFrom)) (\<lambda>auth.
            bind (at_tick auth_in_time) (\<lambda>settled.
            ret (if \<not> settled then None else case auth of Inl _ \<Rightarrow> None | Inr a \<Rightarrow> Some a)))))"

text \<open>Phase 4, lines 283 to 339: the send and its acknowledgement.\<close>

definition send_notice :: "bool \<Rightarrow> instant \<Rightarrow> notice_job \<Rightarrow> string option \<Rightarrow> string \<Rightarrow> activation_gate \<Rightarrow> activation_revalidation \<Rightarrow> notice_result io" where
  "send_notice api deadlineAt job fromDomain token gate current =
     (if \<not> api then ret NoticeFailed
      else bind (begin_phase deadlineAt) (\<lambda>_.
           let oneTapDomain = (if truthy fromDomain \<and> vr_domain current = fromDomain then fromDomain else None)
           in bind (ask (\<lambda>e. notice_text e (vr_ownerLocale current) (nj_stage job) (vr_fullAddress current) fromDomain)) (\<lambda>text.
              bind (call_telegram (SendNotice \<lparr> tgt_chat = ag_ownerId gate, tgt_thread = None \<rparr> text
                     (notice_keyboard (nj_aliasId job) oneTapDomain token))) (\<lambda>answer.
                case answer of
                  Inl _ \<Rightarrow> ret NoticeFailed
                | Inr _ \<Rightarrow>
                    bind (can_start_phase deadlineAt) (\<lambda>more.
                    bind (if more then swallow (phase_tx deadlineAt (db_stmt (\<lambda>t d. Inr ((), record_activation_notice_sent (nj_aliasId job) t d))))
                          else ret ()) (\<lambda>_.
                    ret NoticeSent))))))"

text \<open>Phase 3, lines 264 to 281.\<close>

definition revalidate_and_send :: "bool \<Rightarrow> instant \<Rightarrow> notice_job \<Rightarrow> string option \<Rightarrow> string \<Rightarrow> activation_gate \<Rightarrow> notice_result io" where
  "revalidate_and_send api deadlineAt job fromDomain token gate =
     bind (begin_phase deadlineAt) (\<lambda>_.
     bind (catch_failure (bind (phase_tx deadlineAt (db_stmt (\<lambda>t d. Inr (read_activation_revalidation (nj_aliasId job) t d, d)))) (\<lambda>r. ret (Some r)))
             (ret None)) (\<lambda>row.
       case row of
         None \<Rightarrow> ret NoticeFailed
       | Some current \<Rightarrow>
           if \<not> is_still_eligible current token gate then ret NoticeStale
           else send_notice api deadlineAt job fromDomain token gate (the current)))"

text \<open>Phase 2, lines 238 to 262.\<close>

definition authenticate_and_store :: "instant \<Rightarrow> notice_job \<Rightarrow> string option \<Rightarrow> string \<Rightarrow> unit io" where
  "authenticate_and_store deadlineAt job fromDomain token =
     (case (if truthy fromDomain then nj_mime job else None) of
        None \<Rightarrow> ret ()
      | Some mime \<Rightarrow>
          bind (authenticate_in_budget deadlineAt mime (nj_envelopeFrom job)) (\<lambda>auth.
            let domain = (case auth of None \<Rightarrow> None | Some a \<Rightarrow> one_tap_domain_for a (the fromDomain))
            in if \<not> truthy domain then ret ()
               else bind (begin_phase deadlineAt) (\<lambda>_.
                    catch_failure (bind (phase_tx deadlineAt (db_stmt (\<lambda>t d. Inr (set_activation_domain (nj_aliasId job) token (the domain) t d)))) (\<lambda>_. ret ()))
                      (ret ()))))"

datatype claim_result = ClaimGated | ClaimLost | NoticeClaimed string activation_gate

text \<open>Phase 1, lines 207 to 226.\<close>

definition claim_phase :: "instant \<Rightarrow> uuid \<Rightarrow> claim_result io" where
  "claim_phase deadlineAt aliasId =
     bind (db_stmt (\<lambda>t d. Inr (read_activation_gate aliasId t d, d))) (\<lambda>gate.
       case gate of
         None \<Rightarrow> ret ClaimGated
       | Some g \<Rightarrow>
           if \<not> passes_activation_gate g then ret ClaimGated
           else bind (begin_phase deadlineAt) (\<lambda>_.
                bind generate_activation_token (\<lambda>token.
                bind (db_stmt (\<lambda>t d. Inr (claim_activation_notice
                        \<lparr> ac_aliasId = ag_aliasId g, ac_token = token, ac_chatId = ag_chatId g, ac_routingVersion = ag_routingVersion g \<rparr> t d))) (\<lambda>won.
                ret (if won then NoticeClaimed token g else ClaimLost)))))"

definition run_notice :: "bool \<Rightarrow> instant \<Rightarrow> notice_job \<Rightarrow> notice_result io" where
  "run_notice api deadlineAt job =
     bind (begin_phase deadlineAt) (\<lambda>_.
     bind (catch_failure (bind (phase_tx deadlineAt (claim_phase deadlineAt (nj_aliasId job))) (\<lambda>r. ret (Some r))) (ret None)) (\<lambda>claim.
       case claim of
         None \<Rightarrow> ret NoticeFailed
       | Some ClaimGated \<Rightarrow> ret NoticeGated
       | Some ClaimLost \<Rightarrow> ret NotClaimed
       | Some (NoticeClaimed token gate) \<Rightarrow>
           (let fromDomain = (if nj_stage job = RawStage then usable_from_domain (nj_headerFromDomain job) else None)
            in bind (authenticate_and_store deadlineAt job fromDomain token) (\<lambda>_.
               revalidate_and_send api deadlineAt job fromDomain token gate))))"

text \<open>\<open>ActivationNoticeQueue.run\<close>: the queue's frame around a job.\<close>

definition run_notice_job :: "bool \<Rightarrow> notice_job \<Rightarrow> notice_result io" where
  "run_notice_job api job =
     bind now (\<lambda>t0.
     bind (at_tick shutting_down) (\<lambda>closed.
     bind now (\<lambda>t.
       if closed \<or> nb_maxJobAgeAtStartMs notice_bounds < t - nj_admittedAt job then ret NoticeDropped
       else catch (run_notice api (t0 + nb_jobDeadlineMs notice_bounds) job)
              (\<lambda>x. ret (if notice_stop x then NoticeDropped else NoticeFailed)))))"

section \<open>What a job sends\<close>

abbreviation silent :: "'a io \<Rightarrow> bool" where "silent \<equiv> emits (\<lambda>v. False)"

lemma silentD: "silent m \<Longrightarrow> m e w = (r, w') \<Longrightarrow> w_trace w' = w_trace w"
  unfolding emits_def by (metis append_Nil2 last_in_set snd_conv)

lemma silent_phases [emits_rules]:
  "emits G (begin_phase t)" "emits G (can_start_phase t)" "emits G generate_activation_token"
  unfolding begin_phase_def can_start_phase_def generate_activation_token_def by (intro emits_rules)+

lemma emits_phase_tx [emits_rules]: "emits G m \<Longrightarrow> emits G (phase_tx t m)"
  unfolding phase_tx_def with_bounded_transaction_def by (intro emits_rules)

lemma emits_catch_failure [emits_rules]: "emits G m \<Longrightarrow> emits G h \<Longrightarrow> emits G (catch_failure m h)"
  unfolding catch_failure_def by (intro emits_rules)

lemma emits_authenticate_sender [emits_rules]: "emits G (authenticate_sender m f)"
  unfolding authenticate_sender_def Let_def by (intro emits_rules)

lemma emits_authenticate_budget [emits_rules]: "emits G (authenticate_in_budget t m f)"
  unfolding authenticate_in_budget_def by (intro emits_rules)

lemma emits_authenticate_store [emits_rules]: "emits G (authenticate_and_store t job d tok)"
  unfolding authenticate_and_store_def Let_def by (intro emits_rules)

lemma emits_claim_phase [emits_rules]: "emits G (claim_phase t i)"
  unfolding claim_phase_def by (intro emits_rules)

lemma keeps_phases [keeps_rules]:
  "keeps I (begin_phase t)" "keeps I (can_start_phase t)" "keeps I generate_activation_token"
  unfolding begin_phase_def can_start_phase_def generate_activation_token_def by (intro keeps_rules)+

lemma keeps_phase_tx [keeps_rules]: "keeps I m \<Longrightarrow> keeps I (phase_tx t m)"
  unfolding phase_tx_def with_bounded_transaction_def by (intro keeps_rules)

lemma keeps_catch_failure [keeps_rules]: "keeps I m \<Longrightarrow> keeps I h \<Longrightarrow> keeps I (catch_failure m h)"
  unfolding catch_failure_def by (intro keeps_rules)

lemma open_begin_phase [open_rules]: "stays_open (begin_phase t)" "stays_open generate_activation_token"
  unfolding begin_phase_def generate_activation_token_def by (intro open_rules)+

lemma open_claim_phase: "stays_open (claim_phase t i)"
  unfolding claim_phase_def by (intro open_rules)

lemma quiet_begin_phase [quiet_rules]: "quiet (begin_phase t)" "quiet generate_activation_token"
  unfolding begin_phase_def generate_activation_token_def by (intro quiet_rules)+

text \<open>A transaction of one phase that returns has run its work on the database it found.\<close>

lemma phase_tx_Inr:
  assumes "phase_tx dl work e w = (Inr a, w')" "stays_open work"
  obtains w1 w2 where "work e w1 = (Inr a, w2)" "w_db w1 = w_db w" "w_tx w1 = InTx" "w_txNow w1 = clock e (w_tick w)" "w_db w' = w_db w2"
proof -
  have o: "stays_open (bind (db_read (\<lambda>_. ())) (\<lambda>_. bind (begin_phase dl) (\<lambda>_. work)))"
    using assms(2) by (intro open_rules)
  obtain w2 where w2: "bind (db_read (\<lambda>_. ())) (\<lambda>_. bind (begin_phase dl) (\<lambda>_. work)) e (begin_tx e w) = (Inr a, w2)" "w_db w' = w_db w2"
    using assms(1) transaction_open_InrD [OF _ o] unfolding phase_tx_def with_bounded_transaction_def by blast
  obtain u w3 u2 w4 where w: "db_read (\<lambda>_. ()) e (begin_tx e w) = (Inr u, w3)" "begin_phase dl e w3 = (Inr u2, w4)" "work e w4 = (Inr a, w2)"
    using w2(1) unfolding bind_Inr by (elim exE conjE)
  have "w_db w4 = w_db w" "w_tx w4 = InTx" "w_txNow w4 = clock e (w_tick w)"
    using w(1) quietD [OF quiet_begin_phase(1) w(2)] by (simp_all add: db_read_Inr)
  with w(3) w2(2) that show thesis by blast
qed

lemma one_request:
  assumes "bind (call_telegram q) K e w = (r, w')" "\<And>a. silent (K a)"
  shows "w_trace w' = w_trace w @ [Requested q]"
proof -
  obtain a w1 where c: "call_telegram q e w = (Inr a, w1)" "w_trace w1 = w_trace w @ [Requested q]"
    by (simp add: call_telegram_def bind_def emit_def at_tick_def)
  with assms(1) have "K a e w1 = (r, w')" by (simp add: bind_def)
  with silentD [OF assms(2)] c(2) show ?thesis by simp
qed

definition notice_request :: "activation_gate \<Rightarrow> string \<Rightarrow> string list \<Rightarrow> event" where
  "notice_request g text buttons = Requested (SendNotice \<lparr> tgt_chat = ag_ownerId g, tgt_thread = None \<rparr> text buttons)"

lemma send_notice_trace:
  assumes "send_notice api dl job fd tok g cur e w = (r, w')"
  shows "w_trace w' = w_trace w \<or> (\<exists>text. w_trace w' = w_trace w @ [notice_request g text
    (notice_keyboard (nj_aliasId job) (if truthy fd \<and> vr_domain cur = fd then fd else None) tok)])"
proof (cases api)
  case True
  let ?d = "if truthy fd \<and> vr_domain cur = fd then fd else None"
  let ?text = "notice_text e (vr_ownerLocale cur) (nj_stage job) (vr_fullAddress cur) fd"
  define K where "K = (\<lambda>answer. case answer of Inl (x :: send_error) \<Rightarrow> ret NoticeFailed | Inr (n :: int) \<Rightarrow>
      bind (can_start_phase dl) (\<lambda>more. bind (if more then swallow (phase_tx dl (db_stmt (\<lambda>t d. Inr ((), record_activation_notice_sent (nj_aliasId job) t d)))) else ret ())
        (\<lambda>_. ret NoticeSent)))"
  have silent: "silent (K a)" for a unfolding K_def by (intro emits_rules)
  obtain q w1 where b: "begin_phase dl e w = (q, w1)" by fastforce
  have t1: "w_trace w1 = w_trace w" by (rule silentD [OF silent_phases(1) b])
  show ?thesis
  proof (cases q)
    case (Inl x)
    with assms b True t1 show ?thesis by (simp add: send_notice_def bind_def)
  next
    case (Inr u)
    then have "bind (call_telegram (SendNotice \<lparr> tgt_chat = ag_ownerId g, tgt_thread = None \<rparr> ?text (notice_keyboard (nj_aliasId job) ?d tok))) K e w1 = (r, w')"
      using assms b True unfolding send_notice_def K_def Let_def by (simp add: bind_def ask_def)
    from one_request [OF this silent] t1 show ?thesis unfolding notice_request_def by auto
  qed
qed (use assms in \<open>simp add: send_notice_def ret_def\<close>)

lemma revalidate_trace:
  assumes "revalidate_and_send api dl job fd tok g e w = (r, w')"
  shows "w_trace w' = w_trace w \<or> (\<exists>text t cur. read_activation_revalidation (nj_aliasId job) t (w_db w) = Some cur \<and>
    w_trace w' = w_trace w @ [notice_request g text (notice_keyboard (nj_aliasId job) (if truthy fd \<and> vr_domain cur = fd then fd else None) tok)])"
proof -
  let ?read = "db_stmt (\<lambda>t d. Inr (read_activation_revalidation (nj_aliasId job) t d, d))"
  let ?attempt = "catch_failure (bind (phase_tx dl ?read) (\<lambda>r. ret (Some r))) (ret None)"
  have silent: "silent ?attempt" by (intro emits_rules)
  have keeps: "keeps I ?read" for I by (rule keeps_db_stmt) auto
  obtain q w1 where b: "begin_phase dl e w = (q, w1)" by fastforce
  have t1: "w_trace w1 = w_trace w" by (rule silentD [OF silent_phases(1) b])
  have d1: "w_db w1 = w_db w" using keepsD [OF keeps_phases(1) [where I = "\<lambda>d. d = w_db w"], of w dl e] b by simp
  show ?thesis
  proof (cases q)
    case (Inl x)
    with assms b t1 show ?thesis by (simp add: revalidate_and_send_def bind_def)
  next
    case (Inr u)
    obtain q2 w2 where tr: "?attempt e w1 = (q2, w2)" by fastforce
    have t2: "w_trace w2 = w_trace w" using silentD [OF silent tr] t1 by simp
    define K where "K = (\<lambda>row. case row of None \<Rightarrow> ret NoticeFailed
        | Some current \<Rightarrow> if \<not> is_still_eligible current tok g then ret NoticeStale else send_notice api dl job fd tok g (the current))"
    have k: "bind ?attempt K e w1 = (r, w')" using assms b Inr unfolding revalidate_and_send_def K_def by (simp add: bind_def)
    show ?thesis
    proof (cases q2)
      case (Inl x)
      with k tr t2 show ?thesis by (simp add: bind_def)
    next
      case (Inr row)
      then have k2: "K row e w2 = (r, w')" using k tr by (simp add: bind_def)
      show ?thesis
      proof (cases "\<exists>cur. row = Some (Some cur) \<and> is_still_eligible (Some cur) tok g")
        case False
        then have "w_trace w' = w_trace w2"
          using k2 unfolding K_def by (cases row) (auto simp: ret_def is_still_eligible_def split: option.splits if_splits)
        with t2 show ?thesis by simp
      next
        case True
        then obtain cur where cur: "row = Some (Some cur)" and sn: "send_notice api dl job fd tok g cur e w2 = (r, w')"
          using k2 unfolding K_def by auto
        have "bind (phase_tx dl ?read) (\<lambda>r. ret (Some r)) e w1 = (Inr (Some (Some cur)), w2)"
          using tr Inr cur unfolding catch_failure_def by (auto simp: catch_Inr ret_Inr split: if_splits)
        then obtain w3 where p: "phase_tx dl ?read e w1 = (Inr (Some cur), w3)" by (auto simp: bind_Inr ret_Inr)
        obtain w4 w5 where "?read e w4 = (Inr (Some cur), w5)" "w_db w4 = w_db w1" using p by (rule phase_tx_Inr) (intro open_rules)
        then have "read_activation_revalidation (nj_aliasId job) (stmt_time e w4) (w_db w) = Some cur" using d1 by (auto simp: db_stmt_Inr)
        then show ?thesis using send_notice_trace [OF sn] unfolding t2 by blast
      qed
    qed
  qed
qed

text \<open>The evidence behind a one-tap button.\<close>

definition domain_authenticated :: "env \<Rightarrow> notice_job \<Rightarrow> string \<Rightarrow> bool" where
  "domain_authenticated e job dmn \<longleftrightarrow> nj_stage job = RawStage \<and> usable_from_domain (nj_headerFromDomain job) = Some dmn \<and>
     (\<exists>mime w1 w2 auth. nj_mime job = Some mime \<and> authenticate_sender mime (nj_envelopeFrom job) e w1 = (Inr auth, w2) \<and>
        sa_status auth = AuthPass \<and> dmn \<in> (\<lambda>d. js_lower (js_trim d)) ` set (sa_authenticatedDomains auth))"

definition no_domain :: "uuid \<Rightarrow> db \<Rightarrow> bool" where
  "no_domain i d \<longleftrightarrow> (\<forall>r\<in>set (aliasActivation d). is_activation i r \<longrightarrow> av_domain r = None)"

lemma guarded_db_free [guarded_rules]:
  "guarded e I G (begin_phase t)" "guarded e I G (authenticate_in_budget t m f)"
proof -
  have "keeps J (authenticate_sender m f)" for J unfolding authenticate_sender_def Let_def by (intro keeps_rules)
  then show "guarded e I G (authenticate_in_budget t m f)"
    unfolding authenticate_in_budget_def by (intro guarded_parts keeps_rules emits_rules)
  show "guarded e I G (begin_phase t)" by (intro guarded_parts keeps_rules emits_rules)
qed

lemma guarded_phase_tx [guarded_rules]: "guarded e I G m \<Longrightarrow> guarded e I G (phase_tx t m)"
  unfolding phase_tx_def with_bounded_transaction_def by (intro guarded_rules)

lemma guarded_catch_failure [guarded_rules]: "guarded e I G m \<Longrightarrow> guarded e I G h \<Longrightarrow> guarded e I G (catch_failure m h)"
  unfolding catch_failure_def by (intro guarded_rules)

lemma one_tap_evidence:
  assumes "authenticate_in_budget t mime f e w = (Inr (Some a), w')" "one_tap_domain_for a dmn = Some x"
    and "nj_stage job = RawStage" "usable_from_domain (nj_headerFromDomain job) = Some dmn" "nj_mime job = Some mime" "nj_envelopeFrom job = f"
    and "usable_from_domain (Some dmn) = Some dmn"
  shows "domain_authenticated e job dmn"
proof -
  obtain u w1 slot w2 where "begin_phase t e w = (Inr u, w1)" "at_tick auth_slot e w1 = (Inr slot, w2)" and
    r: "(if \<not> slot then ret None else bind (try_io (authenticate_sender mime f)) (\<lambda>auth. bind (at_tick auth_in_time) (\<lambda>settled.
      ret (if \<not> settled then None else case auth of Inl _ \<Rightarrow> None | Inr a \<Rightarrow> Some a)))) e w2 = (Inr (Some a), w')"
    using assms(1) unfolding authenticate_in_budget_def bind_Inr by (elim exE conjE)
  then have slot by (cases slot) (simp_all add: ret_Inr)
  then obtain q w3 where au: "authenticate_sender mime f e w2 = (q, w3)" and "(case q of Inl _ \<Rightarrow> None | Inr a \<Rightarrow> Some a) = Some a"
    using r by (auto simp: bind_Inr try_io_Inr at_tick_Inr ret_Inr split: if_splits)
  then have "authenticate_sender mime f e w2 = (Inr a, w3)" by (cases q) simp_all
  moreover have "sa_status a = AuthPass" "dmn \<in> (\<lambda>d. js_lower (js_trim d)) ` set (sa_authenticatedDomains a)"
    using assms(2,7) by (auto simp: one_tap_domain_for_def list_ex_iff split: if_splits)
  ultimately show ?thesis using assms(3-6) unfolding domain_authenticated_def by blast
qed

lemma usable_idem:
  assumes "usable_from_domain v = Some d"
  shows "usable_from_domain (Some d) = Some d \<and> d \<noteq> []"
proof -
  have p: "parse_allow_value (the v) = Some (DomainValue d)" and l: "length d \<le> 253"
    using assms by (auto simp: usable_from_domain_def split: if_splits option.splits parsed_allow_value.splits)
  then have d: "d = js_lower (js_trim (the v))" "d \<noteq> []" "\<not> js_includes d ''@''" "domain_re d"
    by (auto simp: parse_allow_value_def Let_def split: if_splits)
  have "js_lower (js_trim d) = d" unfolding d(1) by (simp add: js_trim_lower)
  then have "parse_allow_value d = Some (DomainValue d)" using d(2-4) by (simp add: parse_allow_value_def Let_def)
  then show ?thesis using d(2) l by (simp add: usable_from_domain_def)
qed

definition from_domain_of :: "notice_job \<Rightarrow> string option" where
  "from_domain_of job = (if nj_stage job = RawStage then usable_from_domain (nj_headerFromDomain job) else None)"

definition domain_justified :: "env \<Rightarrow> notice_job \<Rightarrow> db \<Rightarrow> bool" where
  "domain_justified e job d \<longleftrightarrow> no_domain (nj_aliasId job) d \<or> (\<exists>dmn. from_domain_of job = Some dmn \<and> domain_authenticated e job dmn)"

lemma guarded_authenticate_store:
  "guarded e (domain_justified e job) (\<lambda>v. False) (authenticate_and_store dl job (from_domain_of job) tok)"
proof (cases "if truthy (from_domain_of job) then nj_mime job else None")
  case None
  then show ?thesis by (simp add: authenticate_and_store_def guarded_rules)
next
  case (Some mime)
  then obtain dmn where fd: "from_domain_of job = Some dmn" "nj_mime job = Some mime"
    by (auto simp: truthy_iff split: if_splits)
  then have raw: "nj_stage job = RawStage" "usable_from_domain (nj_headerFromDomain job) = Some dmn"
    by (auto simp: from_domain_of_def split: if_splits)
  have body: "guarded e (domain_justified e job) (\<lambda>v. False)
      (let domain = (case auth of None \<Rightarrow> None | Some a \<Rightarrow> one_tap_domain_for a (the (from_domain_of job)))
       in if \<not> truthy domain then ret ()
          else bind (begin_phase dl) (\<lambda>_. catch_failure (bind (phase_tx dl (db_stmt (\<lambda>t d. Inr (set_activation_domain (nj_aliasId job) tok (the domain) t d)))) (\<lambda>_. ret ())) (ret ())))"
    if run: "authenticate_in_budget dl mime (nj_envelopeFrom job) e w = (Inr auth, w')" for w auth w'
  proof (cases "truthy (case auth of None \<Rightarrow> None | Some a \<Rightarrow> one_tap_domain_for a dmn)")
    case True
    then obtain a x where a: "auth = Some a" "one_tap_domain_for a dmn = Some x" by (auto simp: truthy_iff split: option.splits)
    have "domain_authenticated e job dmn"
      by (rule one_tap_evidence [OF run [unfolded a(1)] a(2) raw fd(2) refl]) (use usable_idem [OF raw(2)] in simp)
    then have I: "domain_justified e job d" for d using fd(1) by (auto simp: domain_justified_def)
    show ?thesis unfolding Let_def by (intro guarded_rules guarded_stmt I)
  next
    case False
    then have "\<not> truthy (case auth of None \<Rightarrow> None | Some a \<Rightarrow> one_tap_domain_for a (the (from_domain_of job)))"
      unfolding fd(1) option.sel .
    then show ?thesis by (simp only: Let_def not_False_eq_True if_True guarded_ret)
  qed
  show ?thesis unfolding authenticate_and_store_def Some option.case by (rule guarded_bind_run [OF guarded_db_free(2) body])
qed

text \<open>The claim: what the gate said, that the claim was open, and that it starts without a domain.\<close>

definition claim_won :: "env \<Rightarrow> uuid \<Rightarrow> db \<Rightarrow> activation_gate \<Rightarrow> bool" where
  "claim_won e i d g \<longleftrightarrow> (\<exists>t. read_activation_gate i t d = Some g \<and> passes_activation_gate g \<and>
     (\<forall>r. find_activation i d = Some r \<longrightarrow> claim_open t r))"

lemma read_gate_alias: "read_activation_gate i t d = Some g \<Longrightarrow> ag_aliasId g = i"
  by (auto simp: read_activation_gate_def find_alias_by_id_def dest!: select_first_Some)

lemma claim_phase_Inr:
  assumes "claim_phase dl i e w = (Inr (NoticeClaimed tok g), w')" "w_tx w = InTx"
  shows "claim_won e i (w_db w) g \<and> no_domain i (w_db w')"
proof -
  let ?t = "w_txNow w"
  let ?c = "\<lambda>tok g. \<lparr> ac_aliasId = ag_aliasId g, ac_token = tok, ac_chatId = ag_chatId g, ac_routingVersion = ag_routingVersion g \<rparr>"
  obtain gate w1 where g1: "db_stmt (\<lambda>t d. Inr (read_activation_gate i t d, d)) e w = (Inr gate, w1)" and
    rest: "(case gate of None \<Rightarrow> ret ClaimGated | Some g \<Rightarrow> if \<not> passes_activation_gate g then ret ClaimGated
      else bind (begin_phase dl) (\<lambda>_. bind generate_activation_token (\<lambda>token.
        bind (db_stmt (\<lambda>t d. Inr (claim_activation_notice (?c token g) t d))) (\<lambda>won. ret (if won then NoticeClaimed token g else ClaimLost)))))
      e w1 = (Inr (NoticeClaimed tok g), w')"
    using assms(1) unfolding claim_phase_def bind_Inr [where m = "db_stmt _"] by (elim exE conjE)
  have w1: "gate = read_activation_gate i ?t (w_db w)" "w_db w1 = w_db w" "w_tx w1 = InTx" "w_txNow w1 = ?t"
    using g1 assms(2) by (auto simp: db_stmt_Inr stmt_time_def)
  obtain h where gate: "gate = Some h" "passes_activation_gate h" using rest by (cases gate) (auto simp: ret_Inr split: if_splits)
  have rest2: "bind (begin_phase dl) (\<lambda>_. bind generate_activation_token (\<lambda>token.
        bind (db_stmt (\<lambda>t d. Inr (claim_activation_notice (?c token h) t d))) (\<lambda>won. ret (if won then NoticeClaimed token h else ClaimLost))))
      e w1 = (Inr (NoticeClaimed tok g), w')" using rest gate by simp
  obtain u w2 tok2 w3 won w4 where p: "begin_phase dl e w1 = (Inr u, w2)" "generate_activation_token e w2 = (Inr tok2, w3)"
    and c: "db_stmt (\<lambda>t d. Inr (claim_activation_notice (?c tok2 h) t d)) e w3 = (Inr won, w4)"
    and r: "ret (if won then NoticeClaimed tok2 h else ClaimLost) e w4 = (Inr (NoticeClaimed tok g), w')"
    using rest2 unfolding bind_Inr by (elim exE conjE)
  have e: "won" "tok2 = tok" "h = g" "w' = w4" using r by (auto simp: ret_Inr split: if_splits)
  have w3: "w_db w3 = w_db w" "w_tx w3 = InTx" "w_txNow w3 = ?t"
    using w1 quietD [OF quiet_begin_phase(1) p(1)] quietD [OF quiet_begin_phase(2) p(2)] by simp_all
  have cl: "fst (claim_activation_notice (?c tok g) ?t (w_db w))" "w_db w4 = snd (claim_activation_notice (?c tok g) ?t (w_db w))"
    using c e w3 by (auto simp: db_stmt_Inr stmt_time_def)
  have i: "ag_aliasId g = i" using w1(1) gate(1) e(3) by (rule_tac read_gate_alias) simp
  have open_claim: "\<forall>r. find_activation i (w_db w) = Some r \<longrightarrow> claim_open ?t r"
    using cl(1) i by (auto simp: claim_activation_notice_def split: if_splits)
  have "no_domain i (w_db w4)"
  proof (cases "find_activation i (w_db w)")
    case None
    then have "\<not> is_activation i r" if "r \<in> set (aliasActivation (w_db w))" for r
      using that by (auto simp: find_activation_def select_first_None)
    with None i cl(2) show ?thesis
      by (auto simp: claim_activation_notice_def no_domain_def put_activation_def claimed_row_def)
  next
    case (Some r)
    with open_claim i cl(2) show ?thesis
      by (auto simp: claim_activation_notice_def no_domain_def update_activations_def set_update_where claimed_row_def is_activation_def)
  qed
  then show ?thesis using w1(1) gate e open_claim unfolding claim_won_def by blast
qed

text \<open>Once the claim is won, the job sends nothing or one notice with justified buttons.\<close>

definition notice_outcome :: "env \<Rightarrow> notice_job \<Rightarrow> event list \<Rightarrow> bool" where
  "notice_outcome e job es \<longleftrightarrow> es = [] \<or>
     (\<exists>d g tok text buttons. claim_won e (nj_aliasId job) d g \<and> es = [notice_request g text buttons] \<and>
        (buttons = [cb_activation_rules (nj_aliasId job)] \<or>
         buttons = [cb_activation_allow (nj_aliasId job) tok, cb_activation_rules (nj_aliasId job)] \<and>
         (\<exists>dmn. domain_authenticated e job dmn)))"

lemma after_claim:
  assumes "claim_won e (nj_aliasId job) d0 g" "no_domain (nj_aliasId job) (w_db w)"
    and run: "bind (authenticate_and_store dl job (from_domain_of job) tok) (\<lambda>_. revalidate_and_send api dl job (from_domain_of job) tok g) e w = (r, w')"
  shows "\<exists>es. w_trace w' = w_trace w @ es \<and> notice_outcome e job es"
proof -
  let ?i = "nj_aliasId job"
  let ?fd = "from_domain_of job"
  obtain q w1 where a: "authenticate_and_store dl job ?fd tok e w = (q, w1)" by fastforce
  have J: "domain_justified e job (w_db w)" using assms(2) by (simp add: domain_justified_def)
  have J1: "domain_justified e job (w_db w1)" by (rule guardedE [OF guarded_authenticate_store J a])
  have silent: "silent (authenticate_and_store dl job ?fd tok)" by (intro emits_rules)
  have t1: "w_trace w1 = w_trace w" by (rule silentD [OF silent a])
  show ?thesis
  proof (cases q)
    case (Inl x)
    with run a t1 show ?thesis by (auto simp: bind_def notice_outcome_def)
  next
    case (Inr u)
    then have "revalidate_and_send api dl job ?fd tok g e w1 = (r, w')" using run a by (simp add: bind_def)
    from revalidate_trace [OF this] show ?thesis
    proof (elim disjE exE conjE)
      fix msg t and cur :: activation_revalidation
      let ?d = "if truthy ?fd \<and> vr_domain cur = ?fd then ?fd else None"
      assume cur: "read_activation_revalidation ?i t (w_db w1) = Some cur"
        and tr: "w_trace w' = w_trace w1 @ [notice_request g msg (notice_keyboard ?i ?d tok)]"
      have "\<exists>dmn. domain_authenticated e job dmn" if d: "truthy ?d"
      proof -
        have "\<not> no_domain ?i (w_db w1)"
          using cur d by (auto simp: read_activation_revalidation_def no_domain_def find_activation_def truthy_iff
              split: option.splits if_splits dest!: select_first_Some)
        with J1 show ?thesis by (auto simp: domain_justified_def)
      qed
      with assms(1) tr t1 show ?thesis unfolding notice_outcome_def notice_keyboard_def by fastforce
    qed (use t1 in \<open>auto simp: notice_outcome_def\<close>)
  qed
qed

lemma notice_run_trace:
  assumes "run_notice api dl job e w = (r, w')"
  shows "\<exists>es. w_trace w' = w_trace w @ es \<and> notice_outcome e job es"
proof -
  let ?i = "nj_aliasId job"
  let ?claim = "catch_failure (bind (phase_tx dl (claim_phase dl ?i)) (\<lambda>r. ret (Some r))) (ret None)"
  have quiet_outcome: "notice_outcome e job []" by (simp add: notice_outcome_def)
  obtain q w1 where b: "begin_phase dl e w = (q, w1)" by fastforce
  have t1: "w_trace w1 = w_trace w" by (rule silentD [OF silent_phases(1) b])
  show ?thesis
  proof (cases q)
    case (Inl x)
    with assms b t1 quiet_outcome show ?thesis by (auto simp: run_notice_def bind_def)
  next
    case (Inr u)
    obtain q2 w2 where c: "?claim e w1 = (q2, w2)" by fastforce
    have silent: "silent ?claim" by (intro emits_rules)
    have t2: "w_trace w2 = w_trace w" using silentD [OF silent c] t1 by simp
    define K where "K = (\<lambda>claim. case claim of None \<Rightarrow> ret NoticeFailed | Some ClaimGated \<Rightarrow> ret NoticeGated | Some ClaimLost \<Rightarrow> ret NotClaimed
       | Some (NoticeClaimed token gate) \<Rightarrow> bind (authenticate_and_store dl job (from_domain_of job) token) (\<lambda>_. revalidate_and_send api dl job (from_domain_of job) token gate))"
    have k: "bind ?claim K e w1 = (r, w')"
      using assms(1) b Inr unfolding run_notice_def K_def Let_def from_domain_of_def by (simp add: bind_def)
    show ?thesis
    proof (cases "\<exists>tok g. q2 = Inr (Some (NoticeClaimed tok g))")
      case False
      then have "w_trace w' = w_trace w2"
        using k c unfolding K_def by (auto simp: bind_def ret_def split: sum.splits option.splits claim_result.splits)
      with t2 quiet_outcome show ?thesis by (intro exI [of _ "[]"]) simp
    next
      case True
      then obtain tok g where cl: "q2 = Inr (Some (NoticeClaimed tok g))" by blast
      have "bind (phase_tx dl (claim_phase dl ?i)) (\<lambda>r. ret (Some r)) e w1 = (Inr (Some (NoticeClaimed tok g)), w2)"
        using c cl unfolding catch_failure_def by (auto simp: catch_Inr ret_Inr split: if_splits)
      then have p: "phase_tx dl (claim_phase dl ?i) e w1 = (Inr (NoticeClaimed tok g), w2)" by (auto simp: bind_Inr ret_Inr)
      obtain w3 w4 where cp: "claim_phase dl ?i e w3 = (Inr (NoticeClaimed tok g), w4)" "w_tx w3 = InTx" "w_db w2 = w_db w4"
        using p open_claim_phase by (rule phase_tx_Inr)
      have "claim_won e ?i (w_db w3) g" "no_domain ?i (w_db w2)" using claim_phase_Inr [OF cp(1,2)] cp(3) by auto
      moreover have "bind (authenticate_and_store dl job (from_domain_of job) tok) (\<lambda>_. revalidate_and_send api dl job (from_domain_of job) tok g) e w2 = (r, w')"
        using k c cl unfolding K_def by (simp add: bind_def)
      ultimately show ?thesis using after_claim t2 by metis
    qed
  qed
qed


end
