(* ===== verification/NoticeQueue.thy ===== *)
theory NoticeQueue
  imports Notice
begin

text \<open>
  The background queue of the first-bounce notices (\<open>src/activation/noticeQueue.ts\<close>): its counters,
  the authentication slots with their waiters, and the events of the event loop as a step relation.
  A step is what one synchronous stretch of the code does; which step comes next is not determined.
  What a running job does itself is \<open>run_notice\<close>; it authenticates at most once.
\<close>

section \<open>State and operations\<close>

datatype auth_phase = NoAuth | WaitingSlot | HoldingSlot bool | AuthOver
datatype job_phase = Scheduled | JobRunning | JobEnding

text \<open>\<open>HoldingSlot True\<close>: the job stopped waiting, the authentication still runs.\<close>

record queued_job =
  qj_id :: nat
  qj_job :: notice_job
  qj_phase :: job_phase
  qj_auth :: auth_phase

record notice_queue =
  nq_closed :: bool
  nq_nextId :: nat
  nq_unsettled :: "queued_job list"
  nq_admittedJobs :: int
  nq_heldMime :: int
  nq_active :: int
  nq_waiters :: "nat list"

record notice_offer =
  no_stage :: notice_stage
  no_aliasId :: uuid
  no_headerFromDomain :: "string option"
  no_envelopeFrom :: "string option"
  no_rawMime :: "bytes option"

definition new_notice_queue :: notice_queue where
  "new_notice_queue = \<lparr> nq_closed = False, nq_nextId = 0, nq_unsettled = [], nq_admittedJobs = 0, nq_heldMime = 0,
     nq_active = 0, nq_waiters = [] \<rparr>"

definition mime_bytes :: "notice_job \<Rightarrow> int" where
  "mime_bytes job = (case nj_mime job of None \<Rightarrow> 0 | Some m \<Rightarrow> int (length m))"

definition admit :: "instant \<Rightarrow> notice_offer \<Rightarrow> notice_queue \<Rightarrow> bool \<times> notice_queue" where
  "admit nowMs request q =
     (if nq_closed q \<or> int (nb_maxAdmittedJobs notice_bounds) \<le> nq_admittedJobs q then (False, q)
      else let offered = (if truthy (no_headerFromDomain request) then no_rawMime request else None);
               mime = (case offered of None \<Rightarrow> None
                 | Some m \<Rightarrow> if 0 < length m \<and> nq_heldMime q + int (length m) \<le> int (nb_maxHeldMimeBytes notice_bounds) then Some m else None);
               job = \<lparr> nj_stage = no_stage request, nj_aliasId = no_aliasId request, nj_headerFromDomain = no_headerFromDomain request,
                 nj_envelopeFrom = no_envelopeFrom request, nj_mime = mime, nj_admittedAt = nowMs \<rparr>
           in (True, q\<lparr> nq_nextId := nq_nextId q + 1,
                 nq_unsettled := nq_unsettled q @ [\<lparr> qj_id = nq_nextId q, qj_job = job, qj_phase = Scheduled, qj_auth = NoAuth \<rparr>],
                 nq_admittedJobs := nq_admittedJobs q + 1, nq_heldMime := nq_heldMime q + mime_bytes job \<rparr>))"

definition update_job :: "nat \<Rightarrow> (queued_job \<Rightarrow> queued_job) \<Rightarrow> notice_queue \<Rightarrow> notice_queue" where
  "update_job i f q = q\<lparr> nq_unsettled := update_where (\<lambda>j. qj_id j = i) f (nq_unsettled q) \<rparr>"

text \<open>The first step of \<open>run\<close> after \<open>setImmediate\<close>, lines 305 to 315.\<close>

definition start_job :: "instant \<Rightarrow> queued_job \<Rightarrow> notice_queue \<Rightarrow> notice_queue" where
  "start_job nowMs j q = update_job (qj_id j) (\<lambda>j. j\<lparr> qj_phase :=
     (if nq_closed q \<or> nb_maxJobAgeAtStartMs notice_bounds < nowMs - nj_admittedAt (qj_job j) then JobEnding else JobRunning) \<rparr>) q"

definition slots_acquire :: "nat \<Rightarrow> notice_queue \<Rightarrow> notice_queue" where
  "slots_acquire i q =
     (if nq_active q < int (nb_maxConcurrentAuthentications notice_bounds)
      then update_job i (\<lambda>j. j\<lparr> qj_auth := HoldingSlot False \<rparr>) (q\<lparr> nq_active := nq_active q + 1 \<rparr>)
      else update_job i (\<lambda>j. j\<lparr> qj_auth := WaitingSlot \<rparr>) (q\<lparr> nq_waiters := nq_waiters q @ [i] \<rparr>))"

text \<open>\<open>onAbort\<close> of a waiter: it leaves the line.\<close>

definition slots_abandon :: "nat \<Rightarrow> notice_queue \<Rightarrow> notice_queue" where
  "slots_abandon i q = update_job i (\<lambda>j. j\<lparr> qj_auth := AuthOver \<rparr>) (q\<lparr> nq_waiters := remove1 i (nq_waiters q) \<rparr>)"

definition slots_release :: "nat \<Rightarrow> notice_queue \<Rightarrow> notice_queue" where
  "slots_release i q =
     (let q1 = update_job i (\<lambda>j. j\<lparr> qj_auth := AuthOver \<rparr>) (q\<lparr> nq_active := nq_active q - 1 \<rparr>)
      in case nq_waiters q1 of
           [] \<Rightarrow> q1
         | k # ks \<Rightarrow> update_job k (\<lambda>j. j\<lparr> qj_auth := HoldingSlot False \<rparr>) (q1\<lparr> nq_waiters := ks, nq_active := nq_active q1 + 1 \<rparr>))"

text \<open>The \<open>finally\<close> of \<open>admit\<close>.\<close>

definition settle_job :: "queued_job \<Rightarrow> notice_queue \<Rightarrow> notice_queue" where
  "settle_job j q = q\<lparr> nq_admittedJobs := nq_admittedJobs q - 1, nq_heldMime := nq_heldMime q - mime_bytes (qj_job j),
     nq_unsettled := delete_where (\<lambda>k. qj_id k = qj_id j) (nq_unsettled q) \<rparr>"

definition shutdown_notices :: "notice_queue \<Rightarrow> notice_queue" where
  "shutdown_notices q = q\<lparr> nq_closed := True \<rparr>"

section \<open>Steps\<close>

text \<open>Everything that happens to an admitted job until it has settled.\<close>

inductive notice_work :: "notice_queue \<Rightarrow> notice_queue \<Rightarrow> bool" where
  work_start: "j \<in> set (nq_unsettled q) \<Longrightarrow> qj_phase j = Scheduled \<Longrightarrow> notice_work q (start_job nowMs j q)"
| work_authenticate: "j \<in> set (nq_unsettled q) \<Longrightarrow> qj_phase j = JobRunning \<Longrightarrow> qj_auth j = NoAuth \<Longrightarrow> \<not> nq_closed q \<Longrightarrow>
    notice_work q (slots_acquire (qj_id j) q)"
| work_abandon: "j \<in> set (nq_unsettled q) \<Longrightarrow> qj_auth j = WaitingSlot \<Longrightarrow> notice_work q (slots_abandon (qj_id j) q)"
| work_detach: "j \<in> set (nq_unsettled q) \<Longrightarrow> qj_auth j = HoldingSlot False \<Longrightarrow>
    notice_work q (update_job (qj_id j) (\<lambda>j. j\<lparr> qj_auth := HoldingSlot True \<rparr>) q)"
| work_release: "j \<in> set (nq_unsettled q) \<Longrightarrow> qj_auth j = HoldingSlot b \<Longrightarrow> notice_work q (slots_release (qj_id j) q)"
| work_end: "j \<in> set (nq_unsettled q) \<Longrightarrow> qj_phase j = JobRunning \<Longrightarrow> qj_auth j \<in> {NoAuth, AuthOver, HoldingSlot True} \<Longrightarrow>
    notice_work q (update_job (qj_id j) (\<lambda>j. j\<lparr> qj_phase := JobEnding \<rparr>) q)"
| work_settle: "j \<in> set (nq_unsettled q) \<Longrightarrow> qj_phase j = JobEnding \<Longrightarrow> qj_auth j \<in> {NoAuth, AuthOver} \<Longrightarrow>
    notice_work q (settle_job j q)"

inductive notice_reachable :: "notice_queue \<Rightarrow> bool" where
  reach_new: "notice_reachable new_notice_queue"
| reach_admit: "notice_reachable q \<Longrightarrow> notice_reachable (snd (admit nowMs request q))"
| reach_shutdown: "notice_reachable q \<Longrightarrow> notice_reachable (shutdown_notices q)"
| reach_work: "notice_reachable q \<Longrightarrow> notice_work q q' \<Longrightarrow> notice_reachable q'"

section \<open>The invariant\<close>

definition holds_slot :: "queued_job \<Rightarrow> bool" where
  "holds_slot j \<longleftrightarrow> qj_auth j \<in> {HoldingSlot False, HoldingSlot True}"

definition ids_with :: "(queued_job \<Rightarrow> bool) \<Rightarrow> notice_queue \<Rightarrow> nat set" where
  "ids_with p q = {qj_id j | j. j \<in> set (nq_unsettled q) \<and> p j}"

definition queue_ok :: "notice_queue \<Rightarrow> bool" where
  "queue_ok q \<longleftrightarrow>
     distinct (map qj_id (nq_unsettled q)) \<and> (\<forall>j\<in>set (nq_unsettled q). qj_id j < nq_nextId q) \<and>
     nq_admittedJobs q = int (length (nq_unsettled q)) \<and> nq_admittedJobs q \<le> 8 \<and>
     nq_heldMime q = sum_list (map (\<lambda>j. mime_bytes (qj_job j)) (nq_unsettled q)) \<and> nq_heldMime q \<le> 4 * 1024 * 1024 \<and>
     nq_active q = int (length (filter holds_slot (nq_unsettled q))) \<and> nq_active q \<le> 2 \<and>
     distinct (nq_waiters q) \<and> set (nq_waiters q) = ids_with (\<lambda>j. qj_auth j = WaitingSlot) q \<and>
     (nq_waiters q \<noteq> [] \<longrightarrow> nq_active q = 2) \<and>
     (\<forall>j\<in>set (nq_unsettled q). qj_phase j = Scheduled \<longrightarrow> qj_auth j = NoAuth)"

text \<open>One job among distinct ones changes or leaves: the effect on a total.\<close>

lemma total_update:
  fixes g :: "queued_job \<Rightarrow> int"
  assumes "distinct (map qj_id js)" "j \<in> set js"
  shows "sum_list (map g (update_where (\<lambda>k. qj_id k = qj_id j) f js)) = sum_list (map g js) - g j + g (f j)"
  using assms
proof (induction js)
  case (Cons k js)
  have "qj_id j = qj_id k \<Longrightarrow> update_where (\<lambda>x. qj_id x = qj_id j) f js = js"
    using Cons.prems(1) by (intro update_where_none) (metis distinct.simps(2) image_eqI list.map(2) list.set_map)
  with Cons show ?case by auto
qed simp

lemma total_delete:
  fixes g :: "queued_job \<Rightarrow> int"
  assumes "distinct (map qj_id js)" "j \<in> set js"
  shows "sum_list (map g (delete_where (\<lambda>k. qj_id k = qj_id j) js)) = sum_list (map g js) - g j"
  using assms
proof (induction js)
  case (Cons k js)
  have "delete_where (\<lambda>x. qj_id x = qj_id k) js = js" using Cons.prems(1) by (auto simp: delete_where_def filter_id_conv) (metis image_eqI)
  with Cons show ?case by auto
qed simp

lemma count_total: "int (length (filter p js)) = sum_list (map (\<lambda>j. of_bool (p j)) js)"
  by (induction js) auto

lemma job_by_id: "distinct (map qj_id js) \<Longrightarrow> j \<in> set js \<Longrightarrow> k \<in> set js \<Longrightarrow> qj_id j = qj_id k \<Longrightarrow> j = k"
  by (auto simp: distinct_map dest: inj_onD)

definition keeps_identity :: "(queued_job \<Rightarrow> queued_job) \<Rightarrow> bool" where
  "keeps_identity f \<longleftrightarrow> (\<forall>j. qj_id (f j) = qj_id j \<and> qj_job (f j) = qj_job j)"

lemma update_job_parts [simp]:
  "nq_nextId (update_job i f q) = nq_nextId q" "nq_closed (update_job i f q) = nq_closed q"
  "nq_admittedJobs (update_job i f q) = nq_admittedJobs q" "nq_heldMime (update_job i f q) = nq_heldMime q"
  "nq_active (update_job i f q) = nq_active q" "nq_waiters (update_job i f q) = nq_waiters q"
  "nq_unsettled (update_job i f q) = update_where (\<lambda>j. qj_id j = i) f (nq_unsettled q)"
  by (simp_all add: update_job_def)

text \<open>The part of the invariant that speaks of ids and counters.\<close>

definition queue_counts :: "notice_queue \<Rightarrow> bool" where
  "queue_counts q \<longleftrightarrow> distinct (map qj_id (nq_unsettled q)) \<and> (\<forall>j\<in>set (nq_unsettled q). qj_id j < nq_nextId q) \<and>
     nq_admittedJobs q = int (length (nq_unsettled q)) \<and> nq_admittedJobs q \<le> 8 \<and>
     nq_heldMime q = sum_list (map (\<lambda>j. mime_bytes (qj_job j)) (nq_unsettled q)) \<and> nq_heldMime q \<le> 4 * 1024 * 1024"

definition queue_slots :: "notice_queue \<Rightarrow> bool" where
  "queue_slots q \<longleftrightarrow> nq_active q = sum_list (map (\<lambda>j. of_bool (holds_slot j)) (nq_unsettled q)) \<and> nq_active q \<le> 2 \<and>
     distinct (nq_waiters q) \<and> set (nq_waiters q) = ids_with (\<lambda>j. qj_auth j = WaitingSlot) q \<and>
     (nq_waiters q \<noteq> [] \<longrightarrow> nq_active q = 2) \<and>
     (\<forall>j\<in>set (nq_unsettled q). qj_phase j = Scheduled \<longrightarrow> qj_auth j = NoAuth)"

lemma queue_ok_split: "queue_ok q \<longleftrightarrow> queue_counts q \<and> queue_slots q"
  by (auto simp: queue_ok_def queue_counts_def queue_slots_def count_total)

lemma counts_update: "keeps_identity f \<Longrightarrow> queue_counts q \<Longrightarrow> queue_counts (update_job i f q)"
proof -
  assume f: "keeps_identity f" and q: "queue_counts q"
  then have "map qj_id (update_where (\<lambda>j. qj_id j = i) f (nq_unsettled q)) = map qj_id (nq_unsettled q)"
    "map (\<lambda>j. mime_bytes (qj_job j)) (update_where (\<lambda>j. qj_id j = i) f (nq_unsettled q)) = map (\<lambda>j. mime_bytes (qj_job j)) (nq_unsettled q)"
    by (auto intro!: map_update_where simp: keeps_identity_def)
  with q f show ?thesis by (auto simp: queue_counts_def set_update_where keeps_identity_def)
qed

lemma counts_settle: "queue_counts q \<Longrightarrow> j \<in> set (nq_unsettled q) \<Longrightarrow> queue_counts (settle_job j q)"
proof -
  assume q: "queue_counts q" and j: "j \<in> set (nq_unsettled q)"
  then have d: "distinct (map qj_id (nq_unsettled q))" by (simp add: queue_counts_def)
  have "int (length (delete_where (\<lambda>k. qj_id k = qj_id j) (nq_unsettled q))) = int (length (nq_unsettled q)) - 1"
    using total_delete [OF d j, of "\<lambda>_. 1"] by (simp add: sum_list_triv)
  moreover have "distinct (map qj_id (delete_where (\<lambda>k. qj_id k = qj_id j) (nq_unsettled q)))"
    using d by (simp add: delete_where_def distinct_map inj_on_def)
  moreover have "0 \<le> mime_bytes k" for k by (simp add: mime_bytes_def split: option.splits)
  ultimately show ?thesis
    using q total_delete [OF d j, of "\<lambda>j. mime_bytes (qj_job j)"] by (auto simp: queue_counts_def settle_job_def order_trans [rotated])
qed

definition enqueue :: "notice_job \<Rightarrow> notice_queue \<Rightarrow> notice_queue" where
  "enqueue job q = q\<lparr> nq_nextId := nq_nextId q + 1,
     nq_unsettled := nq_unsettled q @ [\<lparr> qj_id = nq_nextId q, qj_job = job, qj_phase = Scheduled, qj_auth = NoAuth \<rparr>],
     nq_admittedJobs := nq_admittedJobs q + 1, nq_heldMime := nq_heldMime q + mime_bytes job \<rparr>"

lemma admit_cases:
  obtains "admit nowMs request q = (False, q)"
  | job where "admit nowMs request q = (True, enqueue job q)" "\<not> nq_closed q" "nq_admittedJobs q < 8"
      "mime_bytes job = 0 \<or> nq_heldMime q + mime_bytes job \<le> 4 * 1024 * 1024"
proof (cases "nq_closed q \<or> int (nb_maxAdmittedJobs notice_bounds) \<le> nq_admittedJobs q")
  case True
  then have "admit nowMs request q = (False, q)" by (auto simp: admit_def)
  then show thesis by (rule that(1))
next
  case False
  define mime where "mime = (case if truthy (no_headerFromDomain request) then no_rawMime request else None of None \<Rightarrow> None
    | Some m \<Rightarrow> if 0 < length m \<and> nq_heldMime q + int (length m) \<le> int (nb_maxHeldMimeBytes notice_bounds) then Some m else None)"
  define job where "job = \<lparr> nj_stage = no_stage request, nj_aliasId = no_aliasId request, nj_headerFromDomain = no_headerFromDomain request,
    nj_envelopeFrom = no_envelopeFrom request, nj_mime = mime, nj_admittedAt = nowMs \<rparr>"
  have "mime_bytes job = 0 \<or> nq_heldMime q + mime_bytes job \<le> 4 * 1024 * 1024"
    by (auto simp: mime_bytes_def job_def mime_def notice_bounds_def split: option.splits)
  moreover have "admit nowMs request q = (True, enqueue job q)"
    using False unfolding admit_def Let_def if_not_P [OF False] enqueue_def job_def mime_def by simp
  ultimately show thesis using False that(2) by (simp add: notice_bounds_def)
qed

lemma admit_ok:
  assumes "queue_ok q"
  shows "queue_ok (snd (admit nowMs request q))"
proof (cases rule: admit_cases [of nowMs request q])
  case (2 job)
  have "ids_with p (enqueue job q) = ids_with p q" if "\<And>k. qj_auth k = NoAuth \<Longrightarrow> \<not> p k" for p
    using that by (auto simp: ids_with_def enqueue_def)
  then show ?thesis using assms 2 by (auto simp: queue_ok_split queue_counts_def queue_slots_def enqueue_def holds_slot_def)
qed (use assms in simp)

lemma ids_update:
  assumes "keeps_identity f" "distinct (map qj_id (nq_unsettled q))" "j \<in> set (nq_unsettled q)"
  shows "ids_with p (update_job (qj_id j) f q) = (if p (f j) then insert (qj_id j) (ids_with p q) else ids_with p q - {qj_id j})"
proof -
  have one: "k = j" if "k \<in> set (nq_unsettled q)" "qj_id k = qj_id j" for k using job_by_id [OF assms(2) that(1) assms(3) that(2)] .
  have "x \<in> ids_with p (update_job (qj_id j) f q) \<longleftrightarrow> x \<in> (if p (f j) then insert (qj_id j) (ids_with p q) else ids_with p q - {qj_id j})" for x
  proof -
    define h where "h = (\<lambda>k. if qj_id k = qj_id j then f k else k)"
    have h: "qj_id (h k) = qj_id k" for k using assms(1) by (simp add: h_def keeps_identity_def)
    have "nq_unsettled (update_job (qj_id j) f q) = map h (nq_unsettled q)" by (simp add: update_where_def h_def)
    then have "x \<in> ids_with p (update_job (qj_id j) f q) \<longleftrightarrow> (\<exists>k\<in>set (nq_unsettled q). p (h k) \<and> x = qj_id k)"
      by (auto simp: ids_with_def h) (metis h imageI)
    also have "\<dots> \<longleftrightarrow> (\<exists>k\<in>set (nq_unsettled q). p (if k = j then f k else k) \<and> x = qj_id k)" using one by (metis h_def)
    also have "\<dots> \<longleftrightarrow> x \<in> (if p (f j) then insert (qj_id j) (ids_with p q) else ids_with p q - {qj_id j})"
      using one assms(3) by (auto simp: ids_with_def) metis+
    finally show ?thesis .
  qed
  then show ?thesis by blast
qed

lemma ids_frame [simp]:
  "ids_with p (q\<lparr> nq_active := n \<rparr>) = ids_with p q" "ids_with p (q\<lparr> nq_waiters := ws \<rparr>) = ids_with p q"
  by (simp_all add: ids_with_def)

lemma phases_update:
  assumes "queue_slots q" "\<And>j. qj_phase j = Scheduled \<longrightarrow> qj_auth j = NoAuth \<Longrightarrow> qj_id j = i \<Longrightarrow> j \<in> set (nq_unsettled q) \<Longrightarrow> qj_phase (f j) = Scheduled \<Longrightarrow> qj_auth (f j) = NoAuth"
  shows "\<forall>k\<in>set (update_where (\<lambda>k. qj_id k = i) f (nq_unsettled q)). qj_phase k = Scheduled \<longrightarrow> qj_auth k = NoAuth"
  using assms by (auto simp: queue_slots_def set_update_where)

lemma slots_keep:
  assumes q: "queue_counts q" "queue_slots q" and f: "keeps_identity f" and j: "j \<in> set (nq_unsettled q)"
    and same: "holds_slot (f j) = holds_slot j" "(qj_auth (f j) = WaitingSlot) = (qj_auth j = WaitingSlot)" "qj_phase (f j) \<noteq> Scheduled"
  shows "queue_slots (update_job (qj_id j) f q)"
proof -
  have d: "distinct (map qj_id (nq_unsettled q))" using q(1) by (simp add: queue_counts_def)
  have w: "ids_with (\<lambda>j. qj_auth j = WaitingSlot) (update_job (qj_id j) f q) = ids_with (\<lambda>j. qj_auth j = WaitingSlot) q"
    unfolding ids_update [OF f d j] using same(2) j job_by_id [OF d _ j] by (auto simp: ids_with_def)
  have "\<forall>k\<in>set (update_where (\<lambda>k. qj_id k = qj_id j) f (nq_unsettled q)). qj_phase k = Scheduled \<longrightarrow> qj_auth k = NoAuth"
    using same(3) by (intro phases_update [OF q(2)]) (auto dest!: job_by_id [OF d _ j])
  then show ?thesis
    using q(2) w total_update [OF d j, of "\<lambda>j. of_bool (holds_slot j)" f] same(1) by (auto simp: queue_slots_def)
qed

lemma acquire_ok:
  assumes "queue_counts q" "queue_slots q" "j \<in> set (nq_unsettled q)" "qj_phase j = JobRunning" "qj_auth j = NoAuth"
  shows "queue_slots (slots_acquire (qj_id j) q)"
proof -
  have d: "distinct (map qj_id (nq_unsettled q))" using assms(1) by (simp add: queue_counts_def)
  have k: "keeps_identity (\<lambda>j. j\<lparr> qj_auth := a \<rparr>)" for a by (simp add: keeps_identity_def)
  have no: "qj_id j \<notin> ids_with (\<lambda>j. qj_auth j = WaitingSlot) q"
    using job_by_id [OF d _ assms(3)] assms(5) by (auto simp: ids_with_def)
  have ph: "\<forall>k\<in>set (update_where (\<lambda>k. qj_id k = qj_id j) (\<lambda>j. j\<lparr> qj_auth := a \<rparr>) (nq_unsettled q)). qj_phase k = Scheduled \<longrightarrow> qj_auth k = NoAuth" for a
    using assms(4) by (intro phases_update [OF assms(2)]) (auto dest!: job_by_id [OF d _ assms(3)])
  have ids: "ids_with p (update_job (qj_id j) (\<lambda>j. j\<lparr> qj_auth := a \<rparr>) (q\<lparr> nq_active := n \<rparr>)) =
      (if p (j\<lparr> qj_auth := a \<rparr>) then insert (qj_id j) (ids_with p q) else ids_with p q - {qj_id j})"
    "ids_with p (update_job (qj_id j) (\<lambda>j. j\<lparr> qj_auth := a \<rparr>) (q\<lparr> nq_waiters := ws \<rparr>)) =
      (if p (j\<lparr> qj_auth := a \<rparr>) then insert (qj_id j) (ids_with p q) else ids_with p q - {qj_id j})" for p a n ws
    using ids_update [OF k, of "q\<lparr> nq_active := n \<rparr>" j] ids_update [OF k, of "q\<lparr> nq_waiters := ws \<rparr>" j] d assms(3) by simp_all
  have t: "sum_list (map (\<lambda>j. of_bool (holds_slot j)) (update_where (\<lambda>k. qj_id k = qj_id j) (\<lambda>j. j\<lparr> qj_auth := a \<rparr>) (nq_unsettled q))) =
      nq_active q + (of_bool (a \<in> {HoldingSlot False, HoldingSlot True}) :: int)" for a
    using total_update [OF d assms(3), of "\<lambda>j. of_bool (holds_slot j)"] assms(2,5) by (simp add: queue_slots_def holds_slot_def)
  show ?thesis
    using assms(2) no ph ids t by (auto simp: slots_acquire_def notice_bounds_def queue_slots_def)
qed

lemma abandon_ok:
  assumes "queue_counts q" "queue_slots q" "j \<in> set (nq_unsettled q)" "qj_auth j = WaitingSlot"
  shows "queue_slots (slots_abandon (qj_id j) q)"
proof -
  have d: "distinct (map qj_id (nq_unsettled q))" using assms(1) by (simp add: queue_counts_def)
  have k: "keeps_identity (\<lambda>j. j\<lparr> qj_auth := a \<rparr>)" for a by (simp add: keeps_identity_def)
  have "qj_phase j \<noteq> Scheduled" using assms(2-4) by (auto simp: queue_slots_def)
  then have ph: "\<forall>k\<in>set (update_where (\<lambda>k. qj_id k = qj_id j) (\<lambda>j. j\<lparr> qj_auth := AuthOver \<rparr>) (nq_unsettled q)). qj_phase k = Scheduled \<longrightarrow> qj_auth k = NoAuth"
    by (intro phases_update [OF assms(2)]) (auto dest!: job_by_id [OF d _ assms(3)])
  have ids: "ids_with p (update_job (qj_id j) (\<lambda>j. j\<lparr> qj_auth := a \<rparr>) (q\<lparr> nq_waiters := ws \<rparr>)) =
      (if p (j\<lparr> qj_auth := a \<rparr>) then insert (qj_id j) (ids_with p q) else ids_with p q - {qj_id j})" for p a ws
    using ids_update [OF k, of "q\<lparr> nq_waiters := ws \<rparr>" j] d assms(3) by simp
  have t: "sum_list (map (\<lambda>j. of_bool (holds_slot j)) (update_where (\<lambda>k. qj_id k = qj_id j) (\<lambda>j. j\<lparr> qj_auth := AuthOver \<rparr>) (nq_unsettled q))) = nq_active q"
    using total_update [OF d assms(3), of "\<lambda>j. of_bool (holds_slot j)"] assms(2,4) by (simp add: queue_slots_def holds_slot_def)
  show ?thesis
    using assms(2) ph ids t by (auto simp: slots_abandon_def queue_slots_def)
qed

text \<open>A slot comes free and goes to the first waiter, if there is one.\<close>

lemma release_ok:
  assumes "queue_counts q" "queue_slots q" "j \<in> set (nq_unsettled q)" "qj_auth j = HoldingSlot b"
  shows "queue_slots (slots_release (qj_id j) q)"
proof -
  let ?f = "\<lambda>a j. j\<lparr> qj_auth := a \<rparr>"
  let ?waiting = "\<lambda>j. qj_auth j = WaitingSlot"
  let ?held = "\<lambda>j. of_bool (holds_slot j) :: int"
  define q1 where "q1 = update_job (qj_id j) (?f AuthOver) (q\<lparr> nq_active := nq_active q - 1 \<rparr>)"
  have d: "distinct (map qj_id (nq_unsettled q))" using assms(1) by (simp add: queue_counts_def)
  have k: "keeps_identity (?f a)" for a by (simp add: keeps_identity_def)
  have q: "nq_active q = sum_list (map ?held (nq_unsettled q))" "nq_active q \<le> 2" "distinct (nq_waiters q)"
    "set (nq_waiters q) = ids_with ?waiting q" "nq_waiters q \<noteq> [] \<longrightarrow> nq_active q = 2"
    using assms(2) by (auto simp: queue_slots_def)
  have "qj_phase j \<noteq> Scheduled" using assms(2-4) by (auto simp: queue_slots_def)
  then have ph: "\<forall>k\<in>set (nq_unsettled q1). qj_phase k = Scheduled \<longrightarrow> qj_auth k = NoAuth" unfolding q1_def update_job_parts
    by (simp, intro phases_update [OF assms(2)]) (auto dest!: job_by_id [OF d _ assms(3)])
  have no: "qj_id j \<notin> ids_with ?waiting q" using job_by_id [OF d _ assms(3)] assms(4) by (auto simp: ids_with_def)
  have ids: "ids_with ?waiting q1 = ids_with ?waiting q"
    using ids_update [OF k, of "q\<lparr> nq_active := nq_active q - 1 \<rparr>" j] d assms(3) no by (simp add: q1_def)
  have tot: "sum_list (map ?held (nq_unsettled q1)) = nq_active q - 1"
    using total_update [OF d assms(3), of ?held] assms(4) q(1) by (cases b) (simp_all add: q1_def holds_slot_def)
  have q1: "nq_active q1 = nq_active q - 1" "nq_waiters q1 = nq_waiters q" by (simp_all add: q1_def)
  have d1: "distinct (map qj_id (nq_unsettled q1))"
    using d by (simp add: q1_def map_update_where)
  show ?thesis
  proof (cases "nq_waiters q")
    case Nil
    then have "slots_release (qj_id j) q = q1" by (simp add: slots_release_def Let_def q1_def)
    then show ?thesis using q ph ids tot q1 Nil by (simp add: queue_slots_def)
  next
    case (Cons w ws)
    then have "w \<in> ids_with ?waiting q1" using q(4) ids by (metis list.set_intros(1))
    then obtain l where l: "l \<in> set (nq_unsettled q1)" "qj_id l = w" "qj_auth l = WaitingSlot" by (auto simp: ids_with_def)
    have "qj_phase l \<noteq> Scheduled" using l ph by auto
    then have ph2: "\<forall>k\<in>set (update_where (\<lambda>k. qj_id k = w) (?f (HoldingSlot False)) (nq_unsettled q1)). qj_phase k = Scheduled \<longrightarrow> qj_auth k = NoAuth"
      using ph by (auto simp: set_update_where l(2) [symmetric] dest: job_by_id [OF d1 _ l(1)])
    have t2: "sum_list (map ?held (update_where (\<lambda>k. qj_id k = w) (?f (HoldingSlot False)) (nq_unsettled q1))) = nq_active q"
      using total_update [OF d1 l(1), of ?held] tot l(2,3) by (simp add: holds_slot_def)
    have i2: "ids_with ?waiting (update_job w (?f (HoldingSlot False)) (q1\<lparr> nq_waiters := ws, nq_active := n \<rparr>)) = set ws" for n
      using ids_update [OF k, of "q1\<lparr> nq_waiters := ws, nq_active := n \<rparr>" l ?waiting] d1 l ids q(3,4) Cons by (auto simp: ids_with_def)
    have "slots_release (qj_id j) q = update_job w (?f (HoldingSlot False)) (q1\<lparr> nq_waiters := ws, nq_active := nq_active q1 + 1 \<rparr>)"
      using Cons by (simp add: slots_release_def Let_def flip: q1_def add: q1)
    then show ?thesis using i2 t2 ph2 q q1 Cons by (simp add: queue_slots_def)
  qed
qed

lemma settle_ok:
  assumes "queue_counts q" "queue_slots q" "j \<in> set (nq_unsettled q)" "qj_auth j \<in> {NoAuth, AuthOver}"
  shows "queue_slots (settle_job j q)"
proof -
  have d: "distinct (map qj_id (nq_unsettled q))" using assms(1) by (simp add: queue_counts_def)
  have "ids_with (\<lambda>j. qj_auth j = WaitingSlot) (settle_job j q) = ids_with (\<lambda>j. qj_auth j = WaitingSlot) q"
    using assms(4) by (auto simp: ids_with_def settle_job_def dest: job_by_id [OF d _ assms(3)])
      (metis auth_phase.distinct job_by_id [OF d _ assms(3)])+
  then show ?thesis
    using assms(2,4) total_delete [OF d assms(3), of "\<lambda>j. of_bool (holds_slot j)"]
    by (auto simp: queue_slots_def settle_job_def holds_slot_def)
qed

lemma counts_frame [simp]:
  "queue_counts (q\<lparr> nq_active := n \<rparr>) = queue_counts q" "queue_counts (q\<lparr> nq_waiters := ws \<rparr>) = queue_counts q"
  by (simp_all add: queue_counts_def)

lemma field_ok:
  assumes "queue_ok q" "keeps_identity f" "j \<in> set (nq_unsettled q)"
    and "holds_slot (f j) = holds_slot j" "(qj_auth (f j) = WaitingSlot) = (qj_auth j = WaitingSlot)" "qj_phase (f j) \<noteq> Scheduled"
  shows "queue_ok (update_job (qj_id j) f q)"
  using assms by (simp add: queue_ok_split counts_update slots_keep)

lemma identity_fields: "keeps_identity (\<lambda>j. j\<lparr> qj_auth := a \<rparr>)" "keeps_identity (\<lambda>j. j\<lparr> qj_phase := p \<rparr>)" "keeps_identity (\<lambda>j. j\<lparr> qj_phase := g j \<rparr>)"
  by (simp_all add: keeps_identity_def)

lemma counts_slots:
  assumes "queue_counts q"
  shows "queue_counts (slots_acquire i q)" "queue_counts (slots_abandon i q)" "queue_counts (slots_release i q)"
  unfolding slots_acquire_def slots_abandon_def slots_release_def Let_def
  using assms by (auto intro!: counts_update identity_fields split: list.split)

lemma work_ok:
  assumes "notice_work q q'" "queue_ok q"
  shows "queue_ok q'"
proof -
  have q: "queue_counts q" "queue_slots q" using assms(2) by (simp_all add: queue_ok_split)
  show ?thesis
    using assms(1)
  proof cases
    case (work_start j t)
    have "qj_auth j = NoAuth" using q(2) work_start by (simp add: queue_slots_def)
    then show ?thesis unfolding work_start(1) start_job_def
      by (intro field_ok [OF assms(2) _ work_start(2)]) (auto simp: keeps_identity_def holds_slot_def)
  next
    case (work_detach j)
    have "qj_phase j \<noteq> Scheduled" using q(2) work_detach by (auto simp: queue_slots_def)
    then show ?thesis using work_detach(3) unfolding work_detach(1)
      by (intro field_ok [OF assms(2) _ work_detach(2)]) (auto simp: keeps_identity_def holds_slot_def)
  next
    case (work_end j)
    then show ?thesis unfolding work_end(1)
      by (intro field_ok [OF assms(2) _ work_end(2)]) (auto simp: keeps_identity_def holds_slot_def)
  qed (use q in \<open>auto simp: queue_ok_split intro: counts_slots counts_settle acquire_ok abandon_ok release_ok settle_ok\<close>)
qed

lemma reachable_ok: "notice_reachable q \<Longrightarrow> queue_ok q"
proof (induction rule: notice_reachable.induct)
  case reach_new
  then show ?case by (simp add: new_notice_queue_def queue_ok_def ids_with_def)
next
  case (reach_admit q nowMs request)
  then show ?case by (elim admit_ok)
next
  case (reach_shutdown q)
  then show ?case by (auto simp: shutdown_notices_def queue_ok_def ids_with_def)
next
  case (reach_work q q')
  then show ?case by (elim work_ok)
qed

section \<open>Bounds\<close>

text \<open>C29: in every reachable state of the queue at most eight jobs are admitted, at most 4 MiB of MIME is
  held, at most two authentications run, the counters say exactly what the unsettled jobs hold, and nobody waits for a slot while one is free.\<close>

theorem notice_queue_bounds:
  assumes "notice_reachable q"
  shows "nq_admittedJobs q = int (length (nq_unsettled q)) \<and> length (nq_unsettled q) \<le> 8 \<and>
    nq_heldMime q = sum_list (map (\<lambda>j. mime_bytes (qj_job j)) (nq_unsettled q)) \<and> nq_heldMime q \<le> 4 * 1024 * 1024 \<and>
    nq_active q = int (length (filter holds_slot (nq_unsettled q))) \<and> nq_active q \<le> 2 \<and>
    (nq_active q < 2 \<longrightarrow> (\<forall>j\<in>set (nq_unsettled q). qj_auth j \<noteq> WaitingSlot))"
proof (intro conjI impI ballI)
  have ok: "queue_ok q" using reachable_ok [OF assms] .
  then show "nq_admittedJobs q = int (length (nq_unsettled q))"
    "nq_heldMime q = sum_list (map (\<lambda>j. mime_bytes (qj_job j)) (nq_unsettled q))" "nq_heldMime q \<le> 4 * 1024 * 1024"
    "nq_active q = int (length (filter holds_slot (nq_unsettled q)))" "nq_active q \<le> 2"
    unfolding queue_ok_def by blast+
  show "length (nq_unsettled q) \<le> 8" using ok unfolding queue_ok_def by linarith
  fix j assume "nq_active q < 2" "j \<in> set (nq_unsettled q)"
  moreover from this(1) have "set (nq_waiters q) = {}" using ok unfolding queue_ok_def by force
  then have "ids_with (\<lambda>j. qj_auth j = WaitingSlot) q = {}" using ok unfolding queue_ok_def by metis
  ultimately show "qj_auth j \<noteq> WaitingSlot" unfolding ids_with_def by blast
qed

section \<open>Every admitted job settles\<close>

fun phase_rank :: "job_phase \<Rightarrow> int" where
  "phase_rank Scheduled = 3" | "phase_rank JobRunning = 2" | "phase_rank JobEnding = 1"

fun auth_rank :: "auth_phase \<Rightarrow> int" where
  "auth_rank NoAuth = 4" | "auth_rank WaitingSlot = 3" | "auth_rank (HoldingSlot False) = 2" | "auth_rank (HoldingSlot True) = 1"
| "auth_rank AuthOver = 0"

definition job_rank :: "queued_job \<Rightarrow> int" where
  "job_rank j = phase_rank (qj_phase j) + auth_rank (qj_auth j)"

definition work_left :: "notice_queue \<Rightarrow> int" where
  "work_left q = sum_list (map job_rank (nq_unsettled q))"

lemma job_rank_bounds: "1 \<le> job_rank j" "job_rank j \<le> 7"
  unfolding job_rank_def by (cases "qj_phase j"; cases "qj_auth j" rule: auth_rank.cases; simp)+

lemma work_left_update:
  assumes "distinct (map qj_id (nq_unsettled q))" "j \<in> set (nq_unsettled q)" "job_rank (f j) < job_rank j"
  shows "work_left (update_job (qj_id j) f q) < work_left q"
  using total_update [OF assms(1,2), of job_rank f] assms(3) by (simp add: work_left_def)

lemma work_left_frame [simp]: "work_left (q\<lparr> nq_active := n \<rparr>) = work_left q" "work_left (q\<lparr> nq_waiters := ws \<rparr>) = work_left q"
  by (simp_all add: work_left_def)

lemma work_decreases:
  assumes "notice_work q q'" "queue_ok q"
  shows "work_left q' < work_left q"
proof -
  have d: "distinct (map qj_id (nq_unsettled q))" and auth: "\<And>j. j \<in> set (nq_unsettled q) \<Longrightarrow> qj_phase j = Scheduled \<Longrightarrow> qj_auth j = NoAuth"
    and wait: "set (nq_waiters q) = ids_with (\<lambda>j. qj_auth j = WaitingSlot) q"
    using assms(2) by (simp_all add: queue_ok_def)
  show ?thesis
    using assms(1)
  proof cases
    case (work_start j t)
    then show ?thesis unfolding work_start(1) start_job_def by (intro work_left_update d) (auto simp: job_rank_def)
  next
    case (work_authenticate j)
    show ?thesis unfolding work_authenticate(1) slots_acquire_def
      using work_left_update [of "q\<lparr> nq_active := nq_active q + 1 \<rparr>" j] work_left_update [of "q\<lparr> nq_waiters := nq_waiters q @ [qj_id j] \<rparr>" j] d work_authenticate
      by (simp add: job_rank_def)
  next
    case (work_abandon j)
    show ?thesis unfolding work_abandon(1) slots_abandon_def
      using work_left_update [of "q\<lparr> nq_waiters := remove1 (qj_id j) (nq_waiters q) \<rparr>" j] d work_abandon by (simp add: job_rank_def)
  next
    case (work_detach j)
    then show ?thesis unfolding work_detach(1) by (intro work_left_update d) (auto simp: job_rank_def)
  next
    case (work_release j b)
    define q1 where "q1 = update_job (qj_id j) (\<lambda>j. j\<lparr> qj_auth := AuthOver \<rparr>) (q\<lparr> nq_active := nq_active q - 1 \<rparr>)"
    have l1: "work_left q1 < work_left q"
      using work_left_update [of "q\<lparr> nq_active := nq_active q - 1 \<rparr>" j] d work_release by (cases b) (simp_all add: q1_def job_rank_def)
    have d1: "distinct (map qj_id (nq_unsettled q1))" using d by (simp add: q1_def map_update_where)
    show ?thesis
    proof (cases "nq_waiters q")
      case Nil
      then show ?thesis using l1 unfolding work_release(1) by (simp add: slots_release_def Let_def q1_def)
    next
      case (Cons k ks)
      then have "k \<in> ids_with (\<lambda>j. qj_auth j = WaitingSlot) q" using wait by (metis list.set_intros(1))
      then obtain l where l: "l \<in> set (nq_unsettled q)" "qj_id l = k" "qj_auth l = WaitingSlot" by (auto simp: ids_with_def)
      then have "qj_id l \<noteq> qj_id j" using job_by_id [OF d l(1) work_release(2)] work_release(3) by auto
      with l(1) have l1': "l \<in> set (nq_unsettled q1)" by (force simp: q1_def set_update_where)
      have "work_left (update_job k (\<lambda>j. j\<lparr> qj_auth := HoldingSlot False \<rparr>) (q1\<lparr> nq_waiters := ks, nq_active := nq_active q1 + 1 \<rparr>)) < work_left q1"
        using work_left_update [of "q1\<lparr> nq_waiters := ks, nq_active := nq_active q1 + 1 \<rparr>" l] d1 l1' l by (simp add: job_rank_def)
      then show ?thesis using l1 Cons unfolding work_release(1) by (simp add: slots_release_def Let_def flip: q1_def) (simp add: q1_def)
    qed
  next
    case (work_end j)
    then show ?thesis unfolding work_end(1) by (intro work_left_update d) (auto simp: job_rank_def)
  next
    case (work_settle j)
    then show ?thesis using total_delete [OF d work_settle(2), of job_rank] job_rank_bounds(1) [of j] by (simp add: work_left_def settle_job_def)
  qed
qed

lemma work_progress:
  assumes "j \<in> set (nq_unsettled q)"
  shows "\<exists>q'. notice_work q q'"
  using assms by (cases "qj_phase j"; cases "qj_auth j" rule: auth_rank.cases) (force intro: notice_work.intros)+

lemma work_run:
  assumes "(notice_work ^^ n) q q'" "notice_reachable q"
  shows "notice_reachable q' \<and> int n + work_left q' \<le> work_left q"
  using assms
proof (induction n arbitrary: q')
  case (Suc n)
  then obtain p where p: "(notice_work ^^ n) q p" "notice_work p q'" by auto
  with Suc have "notice_reachable p" "int n + work_left p \<le> work_left q" by auto
  with p(2) show ?case using work_decreases [OF p(2)] reachable_ok reach_work by fastforce
qed simp

lemma work_left_bounds: "0 \<le> work_left q" "work_left q \<le> 7 * int (length (nq_unsettled q))"
proof -
  have "0 \<le> sum_list (map job_rank js) \<and> sum_list (map job_rank js) \<le> 7 * int (length js)" for js
  proof (induction js)
    case (Cons j js)
    then show ?case using job_rank_bounds [of j] by simp
  qed simp
  then show "0 \<le> work_left q" "work_left q \<le> 7 * int (length (nq_unsettled q))" by (simp_all add: work_left_def)
qed

text \<open>C30: without new admissions the queue runs dry: from a reachable state at most 56 steps are possible, whichever
  events come in whichever order; a job that has not settled always has a next step; and when none is left, all counters are back at zero.\<close>

theorem notice_jobs_settle:
  assumes "notice_reachable q" "(notice_work ^^ n) q q'"
  shows "n \<le> 56 \<and> (nq_unsettled q' \<noteq> [] \<longrightarrow> (\<exists>q''. notice_work q' q'')) \<and>
    (nq_unsettled q' = [] \<longrightarrow> nq_admittedJobs q' = 0 \<and> nq_heldMime q' = 0 \<and> nq_active q' = 0 \<and> nq_waiters q' = [])"
proof (intro conjI impI)
  have r: "notice_reachable q'" "int n + work_left q' \<le> work_left q" using work_run [OF assms(2,1)] by auto
  have "length (nq_unsettled q) \<le> 8" using reachable_ok [OF assms(1)] unfolding queue_ok_def by linarith
  then show "n \<le> 56" using r(2) work_left_bounds(1) [of q'] work_left_bounds(2) [of q] by linarith
  show "\<exists>q''. notice_work q' q''" if "nq_unsettled q' \<noteq> []"
    using work_progress that by (metis last_in_set)
  assume e: "nq_unsettled q' = []"
  have ok: "queue_ok q'" using reachable_ok [OF r(1)] .
  then have "set (nq_waiters q') = {}" unfolding queue_ok_def ids_with_def e by auto
  then show "nq_waiters q' = []" by simp
  show "nq_admittedJobs q' = 0" "nq_heldMime q' = 0" "nq_active q' = 0" using ok unfolding queue_ok_def e by simp_all
qed

text \<open>A mail with a From domain is offered, its job starts, and takes an authentication slot.\<close>

definition sample_offer :: notice_offer where
  "sample_offer = \<lparr> no_stage = RawStage, no_aliasId = ''a1'', no_headerFromDomain = Some ''x.org'', no_envelopeFrom = None, no_rawMime = Some ''abc'' \<rparr>"

definition sample_admitted :: notice_queue where "sample_admitted = snd (admit 0 sample_offer new_notice_queue)"
definition sample_started :: notice_queue where "sample_started = start_job 10 (hd (nq_unsettled sample_admitted)) sample_admitted"
definition sample_authenticating :: notice_queue where "sample_authenticating = slots_acquire 0 sample_started"

lemmas sample_queue_defs = sample_offer_def sample_admitted_def sample_started_def sample_authenticating_def new_notice_queue_def admit_def
  start_job_def slots_acquire_def update_job_def notice_bounds_def mime_bytes_def truthy_iff

lemma sample_reachable: "notice_reachable sample_admitted"
  unfolding sample_admitted_def by (intro notice_reachable.intros)

lemma sample_queue_run: "(notice_work ^^ 2) sample_admitted sample_authenticating"
proof -
  have "notice_work sample_admitted sample_started"
    unfolding sample_started_def by (rule work_start) (simp_all add: sample_queue_defs)
  moreover have "notice_work sample_started sample_authenticating"
  proof -
    let ?j = "hd (nq_unsettled sample_started)"
    have "notice_work sample_started (slots_acquire (qj_id ?j) sample_started)"
      by (rule work_authenticate) (simp_all add: sample_queue_defs)
    then show ?thesis by (simp add: sample_authenticating_def) (simp add: sample_queue_defs)
  qed
  ultimately show ?thesis by (auto simp: numeral_2_eq_2)
qed

theorem notice_queue_bounds_witness:
  "nq_heldMime sample_admitted = 3 \<and> nq_admittedJobs sample_admitted = int (length (nq_unsettled sample_admitted))"
  using notice_queue_bounds [OF sample_reachable] by (simp add: sample_queue_defs)

theorem notice_jobs_settle_witness:
  "nq_active sample_authenticating = 1 \<and> (\<exists>q''. notice_work sample_authenticating q'')"
  using notice_jobs_settle [OF sample_reachable sample_queue_run] by (simp add: sample_queue_defs)


end
