(* ===== verification/WorkerAuth.thy ===== *)
theory WorkerAuth
  imports Tokens Json Guarded
begin

text \<open>
  Signed requests of the mail worker (\<open>src/utils/workerAuth.ts\<close>) and the ledger of the signatures
  that were used (\<open>src/db/repos/workerRequestNonces.ts\<close>).  HMAC and SHA-256 are fields of the
  environment; \<open>Number(timestamp)\<close> is its field \<open>parse_number\<close>.
\<close>

section \<open>Signatures\<close>

record routing_headers =
  rh_localPart :: string
  rh_recipientDomain :: "string option"
  rh_envelopeFrom :: "string option"

definition max_age_ms :: int where "max_age_ms = 5 * 60 * 1000"
definition max_future_skew_ms :: int where "max_future_skew_ms = 30 * 1000"

definition canonical_routing_prefix :: "string \<Rightarrow> routing_headers \<Rightarrow> string" where
  "canonical_routing_prefix timestamp routingHeaders =
     json_text (JArr [JStr timestamp, JStr (rh_localPart routingHeaders), JStr (or_else (rh_recipientDomain routingHeaders) []),
       JStr (or_else (rh_envelopeFrom routingHeaders) [])]) @ ''.''"

text \<open>What the two \<open>update\<close> calls feed into the HMAC.\<close>

definition signed_message :: "bytes \<Rightarrow> string \<Rightarrow> routing_headers option \<Rightarrow> string" where
  "signed_message body timestamp routingHeaders =
     (case routingHeaders of Some rh \<Rightarrow> canonical_routing_prefix timestamp rh | None \<Rightarrow> timestamp @ ''.'') @ body"

definition sign_worker_request :: "bytes \<Rightarrow> routing_headers option \<Rightarrow> (string \<times> string \<times> string) io" where
  "sign_worker_request body routingHeaders =
     bind (ask worker_secret) (\<lambda>secret.
       if \<not> truthy secret then throw (Thrown ''WORKER_SECRET not set'')
       else bind now (\<lambda>t.
            bind (ask (\<lambda>e. hmac_sha256 e (the secret) (signed_message body (int_string t) routingHeaders))) (\<lambda>signature.
            ret (signature, int_string t, if routingHeaders = None then ''v1'' else ''v2''))))"

definition verify_worker_at :: "env \<Rightarrow> instant \<Rightarrow> bytes \<Rightarrow> string \<Rightarrow> string \<Rightarrow> routing_headers option \<Rightarrow> bool" where
  "verify_worker_at e nowMs body signature timestamp routingHeaders =
     (if \<not> truthy (worker_secret e) then False
      else case parse_number e timestamp of
          None \<Rightarrow> False
        | Some ts \<Rightarrow>
            if max_age_ms < nowMs - ts then False
            else if nowMs - ts < - max_future_skew_ms then False
            else let expected = hmac_sha256 e (the (worker_secret e)) (signed_message body timestamp routingHeaders)
                 in length signature = length expected \<and> hex_bytes signature = hex_bytes expected)"

definition verify_worker_request :: "bytes \<Rightarrow> string \<Rightarrow> string \<Rightarrow> routing_headers option \<Rightarrow> bool io" where
  "verify_worker_request body signature timestamp routingHeaders =
     bind now (\<lambda>t. ask (\<lambda>e. verify_worker_at e t body signature timestamp routingHeaders))"

section \<open>Used signatures\<close>

definition nonce_retention_ms :: int where "nonce_retention_ms = 10 * 60 * 1000"

text \<open>The two statements of \<open>claimWorkerRequestNonce\<close>.\<close>

definition expire_nonces :: "instant \<Rightarrow> db \<Rightarrow> db" where
  "expire_nonces cutoff d = d\<lparr> workerRequestNonces := delete_where (\<lambda>n. wn_createdAt n < cutoff) (workerRequestNonces d) \<rparr>"

definition insert_nonce :: "string \<Rightarrow> instant \<Rightarrow> instant \<Rightarrow> db \<Rightarrow> bool \<times> db" where
  "insert_nonce signatureHash requestTimestamp t d =
     (if list_ex (\<lambda>n. wn_signatureHash n = signatureHash) (workerRequestNonces d) then (False, d)
      else (True, d\<lparr> workerRequestNonces := workerRequestNonces d @
        [\<lparr> wn_signatureHash = signatureHash, wn_requestTimestamp = requestTimestamp, wn_createdAt = t \<rparr>] \<rparr>))"

definition claim_worker_request_nonce :: "string \<Rightarrow> instant \<Rightarrow> bool io" where
  "claim_worker_request_nonce signature requestTimestamp =
     bind (ask (\<lambda>e. sha256 e signature)) (\<lambda>signatureHash.
     bind now (\<lambda>t.
     bind (db_write (expire_nonces (t - nonce_retention_ms))) (\<lambda>_.
     db_stmt (\<lambda>u d. Inr (insert_nonce signatureHash requestTimestamp u d)))))"

section \<open>A signature determines the request\<close>

lemma json_quote_split:
  assumes "json_quote s @ x = json_quote t @ y"
  shows "s = t \<and> x = y"
  using arg_cong [OF assms, of "\<lambda>z. json_chars (tl z)"] by (simp add: json_quote_def json_chars_quote)

lemma canonical_routing_inject:
  assumes "canonical_routing_prefix ts rh @ body = canonical_routing_prefix ts' rh' @ body'"
  shows "ts = ts' \<and> rh_localPart rh = rh_localPart rh' \<and> or_else (rh_recipientDomain rh) [] = or_else (rh_recipientDomain rh') [] \<and>
    or_else (rh_envelopeFrom rh) [] = or_else (rh_envelopeFrom rh') [] \<and> body = body'"
proof -
  let ?q = "\<lambda>s x. json_quote s @ x"
  have a: "?q ts (CHR '','' # ?q (rh_localPart rh) (CHR '','' # ?q (or_else (rh_recipientDomain rh) []) (CHR '','' #
        ?q (or_else (rh_envelopeFrom rh) []) (CHR '']'' # CHR ''.'' # body)))) =
      ?q ts' (CHR '','' # ?q (rh_localPart rh') (CHR '','' # ?q (or_else (rh_recipientDomain rh') []) (CHR '','' #
        ?q (or_else (rh_envelopeFrom rh') []) (CHR '']'' # CHR ''.'' # body'))))"
    using assms by (simp add: canonical_routing_prefix_def)
  from json_quote_split [OF a] have "ts = ts'" and b: "?q (rh_localPart rh) (CHR '','' # ?q (or_else (rh_recipientDomain rh) []) (CHR '','' #
        ?q (or_else (rh_envelopeFrom rh) []) (CHR '']'' # CHR ''.'' # body))) =
      ?q (rh_localPart rh') (CHR '','' # ?q (or_else (rh_recipientDomain rh') []) (CHR '','' #
        ?q (or_else (rh_envelopeFrom rh') []) (CHR '']'' # CHR ''.'' # body')))" by auto
  from json_quote_split [OF b] have "rh_localPart rh = rh_localPart rh'" and c: "?q (or_else (rh_recipientDomain rh) []) (CHR '','' #
        ?q (or_else (rh_envelopeFrom rh) []) (CHR '']'' # CHR ''.'' # body)) =
      ?q (or_else (rh_recipientDomain rh') []) (CHR '','' # ?q (or_else (rh_envelopeFrom rh') []) (CHR '']'' # CHR ''.'' # body'))" by auto
  from json_quote_split [OF c] have "or_else (rh_recipientDomain rh) [] = or_else (rh_recipientDomain rh') []"
    and d: "?q (or_else (rh_envelopeFrom rh) []) (CHR '']'' # CHR ''.'' # body) = ?q (or_else (rh_envelopeFrom rh') []) (CHR '']'' # CHR ''.'' # body')" by auto
  from json_quote_split [OF d] have "or_else (rh_envelopeFrom rh) [] = or_else (rh_envelopeFrom rh') []" "body = body'" by auto
  with \<open>ts = ts'\<close> \<open>rh_localPart rh = rh_localPart rh'\<close> \<open>or_else (rh_recipientDomain rh) [] = or_else (rh_recipientDomain rh') []\<close>
  show ?thesis by blast
qed

lemma verifiedD:
  assumes "verify_worker_at e t body sig ts rh"
  obtains s n where "worker_secret e = Some s" "parse_number e ts = Some n" "t - n \<le> max_age_ms" "- max_future_skew_ms \<le> t - n"
    "length sig = length (hmac_sha256 e s (signed_message body ts rh))" "hex_bytes sig = hex_bytes (hmac_sha256 e s (signed_message body ts rh))"
  using assms by (fastforce simp: verify_worker_at_def Let_def truthy_iff split: if_splits option.splits)

text \<open>C25: a signature that the raw route accepts for two requests whose timestamp, local part, recipient domain, envelope
  sender or body differ exhibits two messages with the same HMAC under the worker's secret.\<close>

theorem worker_signature_binds_request:
  assumes "verify_worker_at e t body sig ts (Some rh)" and "verify_worker_at e t' body' sig ts' (Some rh')"
  shows "ts = ts' \<and> rh_localPart rh = rh_localPart rh' \<and> or_else (rh_recipientDomain rh) [] = or_else (rh_recipientDomain rh') [] \<and>
      or_else (rh_envelopeFrom rh) [] = or_else (rh_envelopeFrom rh') [] \<and> body = body' \<or>
    (\<exists>s m m'. worker_secret e = Some s \<and> m \<noteq> m' \<and> hex_bytes (hmac_sha256 e s m) = hex_bytes (hmac_sha256 e s m'))"
proof -
  obtain s where s: "worker_secret e = Some s" and h: "hex_bytes sig = hex_bytes (hmac_sha256 e s (signed_message body ts (Some rh)))"
    using assms(1) by (rule verifiedD)
  obtain s' where "worker_secret e = Some s'" and "hex_bytes sig = hex_bytes (hmac_sha256 e s' (signed_message body' ts' (Some rh')))"
    using assms(2) by (rule verifiedD)
  with s have h': "hex_bytes sig = hex_bytes (hmac_sha256 e s (signed_message body' ts' (Some rh')))" by simp
  show ?thesis
  proof (cases "signed_message body ts (Some rh) = signed_message body' ts' (Some rh')")
    case True
    then show ?thesis using canonical_routing_inject [of ts rh body ts' rh' body'] by (simp add: signed_message_def)
  next
    case False
    then show ?thesis using s h h' by metis
  qed
qed

section \<open>No signature is accepted twice\<close>

text \<open>What a sequence of claims at the given times answers; a claim of the raw route whose statements go through.\<close>

definition claim_at :: "env \<Rightarrow> instant \<Rightarrow> string \<Rightarrow> instant \<Rightarrow> db \<Rightarrow> bool \<times> db" where
  "claim_at e t sig ts d = insert_nonce (sha256 e sig) ts t (expire_nonces (t - nonce_retention_ms) d)"

fun claims :: "env \<Rightarrow> (instant \<times> string \<times> instant) list \<Rightarrow> db \<Rightarrow> bool list" where
  "claims e [] d = []"
| "claims e ((t, sig, ts) # cs) d = (fst (claim_at e t sig ts d) # claims e cs (snd (claim_at e t sig ts d)))"

lemma claim_is_claim_at:
  assumes "claim_worker_request_nonce sig ts e w = (Inr won, w')" "w_tx w = NoTx"
    "clock e (w_tick w) = clock e (Suc (Suc (w_tick w)))"
  shows "(won, w_db w') = claim_at e (clock e (w_tick w)) sig ts (w_db w)"
  using assms by (auto simp: claim_worker_request_nonce_def claim_at_def bind_Inr ask_Inr now_Inr db_stmt_Inr db_write_def stmt_time_def)

lemma nonce_stays:
  assumes "(n :: nonce_row) \<in> set (workerRequestNonces d)" "t \<le> wn_createdAt n + nonce_retention_ms"
  shows "n \<in> set (workerRequestNonces (snd (claim_at e t sig ts d)))"
  using assms by (auto simp: claim_at_def insert_nonce_def expire_nonces_def)

lemma claimed_then_refused:
  assumes "\<exists>n\<in>set (workerRequestNonces d). wn_signatureHash n = sha256 e sig \<and> T \<le> wn_createdAt n"
    and "i < length cs" "cs ! i = (t, sig, ts)" "sorted (map fst cs)" "t \<le> T + nonce_retention_ms"
  shows "\<not> claims e cs d ! i"
  using assms
proof (induction cs arbitrary: d i)
  case (Cons c cs)
  obtain t0 s0 ts0 where c: "c = (t0, s0, ts0)" by (cases c)
  obtain n where n: "n \<in> set (workerRequestNonces d)" "wn_signatureHash n = sha256 e sig" "T \<le> wn_createdAt n" using Cons.prems(1) by blast
  have "t0 \<le> t" using Cons.prems(2-4) c by (cases i) (auto dest!: nth_mem)
  then have n': "n \<in> set (workerRequestNonces (snd (claim_at e t0 s0 ts0 d)))"
    using nonce_stays [OF n(1)] n(3) Cons.prems(5) by simp
  show ?case
  proof (cases i)
    case 0
    with Cons.prems(3) c have "c = (t, sig, ts)" by simp
    moreover have "n \<in> set (workerRequestNonces (expire_nonces (t - nonce_retention_ms) d))"
      using n(1,3) Cons.prems(5) by (auto simp: expire_nonces_def)
    ultimately have "\<not> fst (claim_at e t sig ts d)" using n(2) by (auto simp: claim_at_def insert_nonce_def list_ex_iff)
    with 0 \<open>c = (t, sig, ts)\<close> show ?thesis by (simp add: Let_def)
  next
    case (Suc j)
    have "\<not> claims e cs (snd (claim_at e t0 s0 ts0 d)) ! j"
      by (rule Cons.IH) (use n' n(2,3) Suc Cons.prems(2-5) in auto)
    with Suc c show ?thesis by (simp add: Let_def)
  qed
qed simp


section \<open>Upper and lower case of a signature\<close>

text \<open>\<open>Buffer.from(s, "hex")\<close> reads both cases, the ledger keeps the hash of the text.\<close>

definition upper_case :: "char \<Rightarrow> char" where
  "upper_case c = (if 97 \<le> char_code c \<and> char_code c \<le> 122 then char_of (char_code c - 32) else c)"

lemma hex_value_upper: "hex_value (upper_case c) = hex_value c"
proof (cases "97 \<le> char_code c \<and> char_code c \<le> 122")
  case True
  then have "char_code (upper_case c) = char_code c - 32" by (simp add: upper_case_def char_code_def) (auto intro: mod_less)
  with True show ?thesis by (auto simp: hex_value_def Let_def)
qed (auto simp: upper_case_def)

lemma hex_bytes_upper: "hex_bytes (map upper_case s) = hex_bytes s"
  by (induction s rule: hex_bytes.induct) (simp_all add: hex_value_upper split: option.splits)

text \<open>the replay check can be evaded: the same request with its signature in upper case still verifies, and
  where that changes the text (and so its hash) it is admitted right after the original.\<close>

theorem recased_signature_admitted_again:
  assumes "verify_worker_at e t body sig ts rh" and "sha256 e (map upper_case sig) \<noteq> sha256 e sig"
    and "\<forall>m\<in>set (workerRequestNonces d). wn_signatureHash m \<notin> {sha256 e sig, sha256 e (map upper_case sig)}"
  shows "verify_worker_at e t body (map upper_case sig) ts rh \<and> claims e [(t, sig, n), (t, map upper_case sig, n)] d = [True, True]"
proof
  show "verify_worker_at e t body (map upper_case sig) ts rh"
    using assms(1) by (auto simp: verify_worker_at_def Let_def hex_bytes_upper split: if_splits option.splits)
  show "claims e [(t, sig, n), (t, map upper_case sig, n)] d = [True, True]"
    using assms(2,3) by (auto simp: Let_def claim_at_def insert_nonce_def expire_nonces_def list_ex_iff)
qed

text \<open>A worker whose HMAC is a constant, for concrete requests.\<close>

definition worker_env :: env where "worker_env = calm_env\<lparr> hmac_sha256 := \<lambda>_ _. ''ab'' \<rparr>"

definition sample_headers :: routing_headers where
  "sample_headers = \<lparr> rh_localPart = ''alerts'', rh_recipientDomain = None, rh_envelopeFrom = Some ''a@b.c'' \<rparr>"

lemma sample_verified: "verify_worker_at worker_env 7 ''mail'' ''ab'' ''0'' (Some sample_headers)"
  by (simp add: verify_worker_at_def worker_env_def truthy_iff max_age_ms_def max_future_skew_ms_def)

theorem worker_signature_binds_request_witness:
  "verify_worker_at worker_env 7 ''mail'' ''ab'' ''0'' (Some sample_headers) \<and> ''mail'' = ''mail''"
  using worker_signature_binds_request [OF sample_verified sample_verified] sample_verified by simp


theorem recased_signature_admitted_again_witness:
  "claims worker_env [(7, ''ab'', 0), (7, ''AB'', 0)] empty_db = [True, True]"
proof -
  have up: "map upper_case ''ab'' = ''AB''" by code_simp
  show ?thesis
    using recased_signature_admitted_again [OF sample_verified, of empty_db 0] unfolding up by (simp add: worker_env_def)
qed

end
