(* ===== verification/IsoTime.thy ===== *)
theory IsoTime
  imports JsDate
begin

text \<open>\<open>Date.toISOString()\<close> and its date part, continuing the calendar of theory \<open>JsDate\<close>.\<close>

definition utc_date :: "instant \<Rightarrow> nat" where
  "utc_date t = (let d = t div ms_per_day; y = year_from_day d
     in nat (d - day_from_year y - month_offset (is_leap y) (utc_month t) + 1))"

definition iso_day :: "instant \<Rightarrow> string" where
  "iso_day t = iso_year (utc_year t) @ ''-'' @ dec 2 (utc_month t + 1) @ ''-'' @ dec 2 (utc_date t)"

text \<open>\<open>toISOString().slice(0, 10)\<close>\<close>

definition iso_date :: "instant \<Rightarrow> string" where
  "iso_date t = take 10 (iso_day t)"

definition iso_timestamp :: "instant \<Rightarrow> string" where
  "iso_timestamp t = (let ms = t mod ms_per_day
     in iso_day t @ ''T'' @ dec 2 (nat (ms div 3600000)) @ '':'' @ dec 2 (nat (ms div 60000 mod 60)) @ '':'' @ dec 2 (nat (ms div 1000 mod 60)) @
        ''.'' @ dec 3 (nat (ms mod 1000)) @ ''Z'')"

lemma iso_epoch: "iso_timestamp 0 = ''1970-01-01T00:00:00.000Z''" by code_simp

end
