(* ===== verification/InboundRoutes.thy ===== *)
theory InboundRoutes
  imports WorkerAuth Notice Deliver IsoTime
begin

text \<open>
  The two routes of the mail worker (\<open>src/http/routes/raw.ts\<close>, \<open>src/http/routes/preflight.ts\<close>) with
  the hosted block list (\<open>src/abuse/hostedInboundBlocklist.ts\<close>, \<open>src/db/repos/hostedInboundBlocks.ts\<close>).
  A response is an event; what a handler still does after it has answered is the value it returns.
  Notices the code does not wait for run where it starts them.  Metrics and log lines are left out.
\<close>

section \<open>Block list\<close>

definition normalize_inbound_block_value :: "string \<Rightarrow> string" where
  "normalize_inbound_block_value value = js_lower (js_trim value)"

definition sender_domain_from_email :: "string \<Rightarrow> string option" where
  "sender_domain_from_email email =
     (let normalized = normalize_inbound_block_value email;
          domain = rev (takeWhile (\<lambda>c. c \<noteq> CHR ''@'') (rev normalized));
          local = rev (tl (dropWhile (\<lambda>c. c \<noteq> CHR ''@'') (rev normalized)))
      in if CHR ''@'' \<notin> set normalized \<or> local = [] \<or> domain = [] then None else Some domain)"

definition add_candidate :: "block_type \<Rightarrow> string option \<Rightarrow> (block_type \<times> string) list \<Rightarrow> (block_type \<times> string) list" where
  "add_candidate type value candidates =
     (if \<not> truthy value then candidates
      else if normalize_inbound_block_value (the value) = [] then candidates
      else candidates @ [(type, normalize_inbound_block_value (the value))])"

definition build_inbound_block_candidates :: "string option \<Rightarrow> string option \<Rightarrow> string option \<Rightarrow> (block_type \<times> string) list" where
  "build_inbound_block_candidates localPart recipientDomain envelopeFrom =
     add_candidate LocalPartBlock localPart (add_candidate RecipientDomainBlock recipientDomain
       ((if truthy envelopeFrom then add_candidate SenderDomainBlock (sender_domain_from_email (the envelopeFrom)) else (\<lambda>cs. cs))
         (add_candidate SenderEmailBlock envelopeFrom [])))"

definition blocks :: "block_type \<times> string \<Rightarrow> inbound_block_row \<Rightarrow> bool" where
  "blocks candidate b \<longleftrightarrow> ib_blockType b = fst candidate \<and> ib_value b = snd candidate"

fun first_block :: "(block_type \<times> string) list \<Rightarrow> inbound_block_row option io" where
  "first_block [] = ret None"
| "first_block (c # cs) =
     bind (db_read (\<lambda>d. select_first (blocks c) (hostedInboundBlocks d))) (\<lambda>block.
       case block of Some b \<Rightarrow> ret (Some b) | None \<Rightarrow> first_block cs)"

definition find_hosted_inbound_block :: "string option \<Rightarrow> string option \<Rightarrow> string option \<Rightarrow> inbound_block_row option io" where
  "find_hosted_inbound_block localPart recipientDomain envelopeFrom =
     first_block (build_inbound_block_candidates localPart recipientDomain envelopeFrom)"

definition create_hosted_inbound_block :: "uuid \<Rightarrow> block_type \<Rightarrow> string \<Rightarrow> string option \<Rightarrow> db \<Rightarrow> db" where
  "create_hosted_inbound_block i type value reason d =
     (if list_ex (blocks (type, normalize_inbound_block_value value)) (hostedInboundBlocks d) then d
      else d\<lparr> hostedInboundBlocks := hostedInboundBlocks d @
        [\<lparr> ib_id = i, ib_blockType = type, ib_value = normalize_inbound_block_value value, ib_reason = reason \<rparr>] \<rparr>)"

definition should_check_hosted_inbound_blocklist :: "env \<Rightarrow> bool" where
  "should_check_hosted_inbound_blocklist e =
     (if app_mode_env e = Some ''hosted'' then True
      else if app_mode_env e = Some ''self-hosted'' then False
      else config_app_mode e = Some ''hosted'')"

definition find_hosted_inbound_rejection ::
  "bigint option \<Rightarrow> string option \<Rightarrow> string option \<Rightarrow> string option \<Rightarrow> inbound_block_row option io" where
  "find_hosted_inbound_rejection userId localPart recipientDomain envelopeFrom =
     bind (ask should_check_hosted_inbound_blocklist) (\<lambda>hosted.
       if \<not> hosted then ret None
       else if userId = None then ret None
       else find_hosted_inbound_block localPart recipientDomain envelopeFrom)"

section \<open>Responses\<close>

definition reply :: "nat \<Rightarrow> json \<Rightarrow> unit io" where
  "reply status body = emit (Replied status (json_text body))"

definition error_body :: "string \<Rightarrow> json" where
  "error_body m = JObj [(''error'', JStr m)]"

definition answer :: "nat \<Rightarrow> json \<Rightarrow> 'a \<Rightarrow> 'a io" where
  "answer status body next = bind (reply status body) (\<lambda>_. ret next)"

text \<open>What the handler goes on to do: nothing, offer the bounce to the notice queue, or deliver.\<close>

datatype after_reply = Finished | OfferNotice event | DeliverNext queued_email

section \<open>The raw route\<close>

record raw_request =
  rq_sig :: "string option"
  rq_ts :: "string option"
  rq_sigVersion :: "string option"
  rq_localPart :: "string option"
  rq_envelopeFrom :: "string option"
  rq_recipientDomain :: "string option"
  rq_body :: "bytes option"

record raw_config =
  rc_publicBaseUrl :: string
  rc_attachmentDir :: string
  rc_attachmentTtlHours :: int
  rc_rawEmailDir :: string
  rc_rawEmailTtlHours :: int
  rc_maxInflightDeliveries :: int
  rc_telegramRichMessagesEnabled :: bool

text \<open>The directory is absolute and normalised, so \<open>join\<close> concatenates.\<close>

definition raw_email_path :: "string \<Rightarrow> string io" where
  "raw_email_path rawEmailDir =
     bind now (\<lambda>t. bind random_uuid (\<lambda>u. ret (rawEmailDir @ ''/'' @ iso_date t @ ''/'' @ u @ ''.eml'')))"

definition should_delete_pending_meta :: "reject_reason option \<Rightarrow> bool" where
  "should_delete_pending_meta reason =
     (reason \<in> Some ` {DuplicateEmail, AliasNotFound, RejectedSender SenderNotAllowed, RejectedSender SenderAuthFailed,
        RejectedSender SenderAuthTemperror, OverLimit SubscriptionInactive, OverLimit MonthlyEmailLimit,
        OverLimit MessageSizeLimit, OverLimit StorageLimit})"

fun status_for_queue_rejection :: "reject_reason option \<Rightarrow> nat option" where
  "status_for_queue_rejection (Some (OverLimit MessageSizeLimit)) = Some 413"
| "status_for_queue_rejection (Some (RejectedSender SenderAuthTemperror)) = Some 503"
| "status_for_queue_rejection (Some (RejectedSender SenderNotAllowed)) = Some 403"
| "status_for_queue_rejection (Some (RejectedSender SenderAuthFailed)) = Some 403"
| "status_for_queue_rejection (Some (OverLimit SubscriptionInactive)) = Some 403"
| "status_for_queue_rejection (Some (OverLimit MonthlyEmailLimit)) = Some 403"
| "status_for_queue_rejection (Some (OverLimit StorageLimit)) = Some 403"
| "status_for_queue_rejection _ = None"

definition quota_notice_of :: "reject_reason option \<Rightarrow> quota_notice option" where
  "quota_notice_of reason = (case reason of Some (OverLimit code) \<Rightarrow> quota_notification_reason code | _ \<Rightarrow> None)"

text \<open>The count of a rejection and the notice, lines 183 to 202.\<close>

definition count_and_notify :: "bool \<Rightarrow> bigint \<Rightarrow> limit_code \<Rightarrow> string \<Rightarrow> unit io" where
  "count_and_notify api owner code month =
     (case quota_notification_reason code of
        None \<Rightarrow> ret ()
      | Some notice \<Rightarrow>
          bind (swallow (bind (increment_user_usage_month owner month 0 1 0) (\<lambda>_. ret ()))) (\<lambda>_.
          notify_quota_exhausted api owner notice month))"

definition raw_pipeline_input :: "raw_config \<Rightarrow> raw_request \<Rightarrow> bytes \<Rightarrow> string \<Rightarrow> string \<Rightarrow> encryption_meta \<Rightarrow> pipeline_input" where
  "raw_pipeline_input config req body localPart storedPath metadata =
     \<lparr> pi_rawEmail = body, pi_rawEmailPath = Some storedPath, pi_localPart = localPart, pi_recipientDomain = rq_recipientDomain req,
       pi_envelopeFrom = rq_envelopeFrom req, pi_publicBaseUrl = rc_publicBaseUrl config, pi_rawEmailEncryption = Some metadata,
       pi_attachmentDir = rc_attachmentDir config, pi_attachmentTtlHours = rc_attachmentTtlHours config,
       pi_rawEmailTtlHours = rc_rawEmailTtlHours config,
       pi_telegramRichMessagesEnabled = Some (rc_telegramRichMessagesEnabled config) \<rparr>"

text \<open>\<open>replaceFileAtomically\<close>: one write, which may fail.\<close>

definition write_pending_raw_email_meta :: "string \<Rightarrow> unit io" where
  "write_pending_raw_email_meta storedPath = write_file (pending_raw_email_meta_path storedPath)"

definition store_raw :: "string \<Rightarrow> bytes \<Rightarrow> encryption_meta io" where
  "store_raw storedPath body =
     bind (write_raw_email storedPath body) (\<lambda>metadata.
     bind (catch (write_pending_raw_email_meta storedPath) (\<lambda>err. bind (swallow (delete_file storedPath)) (\<lambda>_. throw err))) (\<lambda>_.
     ret metadata))"

definition terminal_rejection :: "queue_result \<Rightarrow> bool" where
  "terminal_rejection queued = (case queued of Queued _ _ _ \<Rightarrow> False | NotQueued result \<Rightarrow> should_delete_pending_meta (res_reason result))"

text \<open>Lines 255 to 272.\<close>

definition drop_files :: "string \<Rightarrow> queue_result \<Rightarrow> unit io" where
  "drop_files storedPath queued =
     bind (if terminal_rejection queued then swallow (delete_file storedPath) else ret ()) (\<lambda>_.
       if (case queued of Queued _ _ _ \<Rightarrow> True | NotQueued _ \<Rightarrow> terminal_rejection queued)
       then swallow (delete_pending_raw_email_meta storedPath) else ret ())"

text \<open>Lines 274 to 333, up to what follows the response.\<close>

definition raw_answer :: "bool \<Rightarrow> raw_request \<Rightarrow> bytes \<Rightarrow> alias_row \<Rightarrow> queue_result \<Rightarrow> after_reply io" where
  "raw_answer api req body al queued =
     (case queued of
        NotQueued result \<Rightarrow>
          (case status_for_queue_rejection (res_reason result) of
             None \<Rightarrow> answer 202 (JObj [(''status'', JStr ''accepted'')]) Finished
           | Some status \<Rightarrow>
               bind (case quota_notice_of (res_reason result) of
                       None \<Rightarrow> ret ()
                     | Some notice \<Rightarrow> bind now (\<lambda>t. notify_quota_exhausted api (or_else (res_userId result) (al_createdBy al)) notice
                                         (or_else (res_month result) (usage_month_for_date t)))) (\<lambda>_.
               answer status (error_body ''rejected'')
                 (if res_reason result = Some (RejectedSender SenderNotAllowed)
                  then OfferNotice (NoticeOffered ''raw''
                         (case res_senderRejection result of Some (i, _) \<Rightarrow> i | None \<Rightarrow> al_id al)
                         (usable_from_domain (case res_senderRejection result of Some (_, d) \<Rightarrow> d | None \<Rightarrow> None))
                         (normalize_envelope_sender (rq_envelopeFrom req)) (Some body))
                  else Finished)))
      | Queued job month deliveredCount \<Rightarrow>
          bind (notify_approaching_monthly_limit api (or_else (dl_userId (qe_deliveryLog job)) (al_createdBy al)) month deliveredCount) (\<lambda>_.
          answer 202 (JObj [(''status'', JStr ''accepted'')]) (DeliverNext job)))"

text \<open>Lines 208 to 333: store, queue, answer.\<close>

definition raw_accept :: "bool \<Rightarrow> raw_config \<Rightarrow> raw_request \<Rightarrow> bytes \<Rightarrow> string \<Rightarrow> alias_row \<Rightarrow> after_reply io" where
  "raw_accept api config req body localPart al =
     bind (raw_email_path (rc_rawEmailDir config)) (\<lambda>storedPath.
     bind (store_raw storedPath body) (\<lambda>metadata.
     bind (queue_inbound_email (raw_pipeline_input config req body localPart storedPath metadata)) (\<lambda>queued.
     bind (drop_files storedPath queued) (\<lambda>_.
     raw_answer api req body al queued))))"

text \<open>Lines 149 to 206: the checks before anything is stored.\<close>

definition raw_admission :: "bool \<Rightarrow> raw_config \<Rightarrow> raw_request \<Rightarrow> bytes \<Rightarrow> string \<Rightarrow> after_reply io" where
  "raw_admission api config req body localPart =
     bind (find_alias_for_inbound localPart (rq_recipientDomain req)) (\<lambda>found.
       case (if (case found of None \<Rightarrow> True | Some al \<Rightarrow> al_status al \<noteq> Active) then None else found) of
         None \<Rightarrow> answer 403 (error_body ''rejected'') Finished
       | Some al \<Rightarrow>
           bind (find_hosted_inbound_rejection (Some (al_createdBy al)) (Some localPart) (rq_recipientDomain req) (rq_envelopeFrom req)) (\<lambda>block.
             if block \<noteq> None then answer 403 (error_body ''rejected'') Finished
             else bind now (\<lambda>t.
                  let month = usage_month_for_date t
                  in bind (check_inbound_limit (Some (al_createdBy al)) (Some (int (length body))) (Some (int (length body))) month) (\<lambda>limit.
                       case (case limit of LimitOk \<Rightarrow> None
                               | LimitHit code _ _ \<Rightarrow> map_option (\<lambda>status. (code, status)) (status_for_queue_rejection (Some (OverLimit code)))) of
                         None \<Rightarrow> raw_accept api config req body localPart al
                       | Some (code, status) \<Rightarrow>
                           bind (count_and_notify api (al_createdBy al) code month) (\<lambda>_.
                           answer status (error_body ''rejected'') Finished)))))"

definition routing_headers_of :: "raw_request \<Rightarrow> routing_headers" where
  "routing_headers_of req = \<lparr> rh_localPart = or_else (rq_localPart req) [], rh_recipientDomain = rq_recipientDomain req,
     rh_envelopeFrom = rq_envelopeFrom req \<rparr>"

text \<open>Lines 97 to 147 in front of it: is this a fresh request of the worker?\<close>

definition raw_respond :: "bool \<Rightarrow> raw_config \<Rightarrow> raw_request \<Rightarrow> after_reply io" where
  "raw_respond api config req =
     (if \<not> truthy (rq_sig req) \<or> \<not> truthy (rq_ts req) then answer 401 (error_body ''missing signature'') Finished
      else if rq_sigVersion req \<noteq> Some ''v2'' then answer 401 (error_body ''invalid signature'') Finished
      else case rq_body req of
          None \<Rightarrow> answer 400 (error_body ''empty body'') Finished
        | Some body \<Rightarrow>
            bind (verify_worker_request body (the (rq_sig req)) (the (rq_ts req)) (Some (routing_headers_of req))) (\<lambda>verified.
              if \<not> verified then answer 401 (error_body ''invalid signature'') Finished
              else bind (ask (\<lambda>e. the (parse_number e (the (rq_ts req))))) (\<lambda>ts.
                   bind (claim_worker_request_nonce (the (rq_sig req)) ts) (\<lambda>nonceClaimed.
                     if \<not> nonceClaimed then answer 401 (error_body ''invalid signature'') Finished
                     else if \<not> truthy (rq_localPart req) then answer 400 (error_body ''missing x-local-part header'') Finished
                     else raw_admission api config req body (the (rq_localPart req))))))"

text \<open>Lines 335 to 358: the delivery starts unless too many are under way; its errors are logged.\<close>

definition raw_after :: "bool \<Rightarrow> raw_config \<Rightarrow> after_reply \<Rightarrow> unit io" where
  "raw_after api config next =
     (case next of
        Finished \<Rightarrow> ret ()
      | OfferNotice offer \<Rightarrow> emit offer
      | DeliverNext job \<Rightarrow>
          bind (at_tick in_flight) (\<lambda>n.
            if rc_maxInflightDeliveries config \<le> n then ret ()
            else swallow (bind (deliver_queued_email api job) (\<lambda>_. ret ()))))"

definition raw_route :: "bool \<Rightarrow> raw_config \<Rightarrow> raw_request \<Rightarrow> unit io" where
  "raw_route api config req = bind (raw_respond api config req) (raw_after api config)"

section \<open>The preflight route\<close>

text \<open>\<open>req.body\<close> is the JSON object the body holds, with its string members.\<close>

record preflight_request =
  pq_sig :: "string option"
  pq_ts :: "string option"
  pq_rawBody :: bytes
  pq_localPart :: "string option"
  pq_envelopeFrom :: "string option"
  pq_recipientDomain :: "string option"

definition accept_body :: "bool \<Rightarrow> json" where
  "accept_body b = JObj [(''accept'', JBool b)]"

text \<open>Lines 132 to 167: rules and the hourly cap.\<close>

definition preflight_rules :: "alias_row \<Rightarrow> inbound_plan \<Rightarrow> after_reply io" where
  "preflight_rules al inboundPlan =
     bind (db_read (check_preflight_allow_rules (al_id al))) (\<lambda>allowed.
       if \<not> allowed then answer 200 (accept_body False) (OfferNotice (NoticeOffered ''preflight'' (al_id al) None None None))
       else bind now (\<lambda>t.
            bind (db_read (count_recent_deliveries_by_alias (al_id al) (t - 60 * 60 * 1000))) (\<lambda>recentDeliveries.
              if lim_aliasEmailsPerHour (pl_limits (ip_plan inboundPlan)) \<le> int recentDeliveries
              then answer 429 (error_body ''rate limited'') Finished
              else answer 200 (accept_body True) Finished)))"

text \<open>Lines 62 to 130: alias, block list, quota.\<close>

definition preflight_admission :: "bool \<Rightarrow> preflight_request \<Rightarrow> string \<Rightarrow> after_reply io" where
  "preflight_admission api req localPart =
     bind (find_alias_for_inbound localPart (pq_recipientDomain req)) (\<lambda>found.
       case (if (case found of None \<Rightarrow> True | Some al \<Rightarrow> al_status al \<noteq> Active) then None else found) of
         None \<Rightarrow> answer 200 (accept_body False) Finished
       | Some al \<Rightarrow>
           bind (find_hosted_inbound_rejection (Some (al_createdBy al)) (Some localPart) (pq_recipientDomain req)
                   (normalize_envelope_sender (pq_envelopeFrom req))) (\<lambda>block.
             if block \<noteq> None then answer 200 (accept_body False) Finished
             else bind now (\<lambda>t.
                  let month = usage_month_for_date t
                  in bind (resolve_inbound_plan (Some (al_createdBy al))) (\<lambda>inboundPlan.
                     bind (check_inbound_limit_for_plan inboundPlan None None month) (\<lambda>limit.
                       case limit of
                         LimitHit code _ _ \<Rightarrow>
                           bind (count_and_notify api (al_createdBy al) code month) (\<lambda>_. answer 200 (accept_body False) Finished)
                       | LimitOk \<Rightarrow> preflight_rules al inboundPlan)))))"

definition preflight_respond :: "bool \<Rightarrow> preflight_request \<Rightarrow> after_reply io" where
  "preflight_respond api req =
     (if \<not> truthy (pq_sig req) \<or> \<not> truthy (pq_ts req) then answer 401 (error_body ''missing signature'') Finished
      else bind (verify_worker_request (pq_rawBody req) (the (pq_sig req)) (the (pq_ts req)) None) (\<lambda>verified.
             if \<not> verified then answer 401 (error_body ''invalid signature'') Finished
             else if \<not> truthy (pq_localPart req) then answer 400 (error_body ''missing localPart'') Finished
             else preflight_admission api req (the (pq_localPart req))))"

section \<open>What the raw route promises\<close>

definition is_reply :: "event \<Rightarrow> bool" where
  "is_reply v \<longleftrightarrow> (\<exists>s b. v = Replied s b)"

lemma is_reply_simps [simp]:
  "is_reply (Replied s b)" "\<not> is_reply (Requested q)" "\<not> is_reply (FileWritten p)" "\<not> is_reply (FileDeleted p)"
  by (simp_all add: is_reply_def)

lemma emits_case_queue [emits_rules]:
  "emits G f \<Longrightarrow> (\<And>c l u. emits G (g c l u)) \<Longrightarrow> emits G (case r of LimitOk \<Rightarrow> f | LimitHit c l u \<Rightarrow> g c l u)"
  "emits G f \<Longrightarrow> (\<And>x. emits G (h x)) \<Longrightarrow> emits G (case ev of Allowed \<Rightarrow> f | NotAllowed x \<Rightarrow> h x)"
  "emits G f \<Longrightarrow> emits G m \<Longrightarrow> (\<And>x. emits G (h' x)) \<Longrightarrow> (\<And>l n. emits G (k l n)) \<Longrightarrow>
     emits G (case dcn of DuplicateDecision \<Rightarrow> f | RateDecision \<Rightarrow> m | LimitDecision x \<Rightarrow> h' x | AcceptDecision l n \<Rightarrow> k l n)"
  by ((cases r; simp), (cases ev; simp), (cases dcn; simp))

lemma keeps_case_limit [keeps_rules]:
  "keeps I f \<Longrightarrow> (\<And>c l u. keeps I (g c l u)) \<Longrightarrow> keeps I (case r of LimitOk \<Rightarrow> f | LimitHit c l u \<Rightarrow> g c l u)"
  by (cases r) simp_all

lemma emits_queue [emits_rules]: "emits G (queue_inbound_email inp)"
proof -
  have "emits G (locked_queue_decision inp al parsed v month)" for al parsed v month
    unfolding locked_queue_decision_def accept_email_def resolve_inbound_plan_def check_inbound_limit_for_plan_def find_user_by_id_def
      get_effective_plan_def is_duplicate_def prepare_delivery_log_metadata_write_def create_delivery_log_def
      increment_user_usage_month_def increment_user_storage_usage_def assert_non_negative_storage_delta_def Let_def
    by (intro emits_rules)
  then show ?thesis
    unfolding queue_inbound_email_def find_alias_for_inbound_def parse_email_def sender_evaluation_def authenticate_sender_def
      queue_allowed_inbound_email_def Let_def by (intro emits_rules)
qed

lemma emits_notify [emits_rules]:
  assumes "\<And>q. G (Requested q)"
  shows "emits G (notify_quota_exhausted api u r m)" "emits G (notify_approaching_monthly_limit api u m n)"
  unfolding notify_quota_exhausted_def notify_approaching_monthly_limit_def claim_quota_notification_def find_user_by_id_def get_effective_plan_def Let_def
  by (intro emits_rules assms)+

lemma quiet_blocks [quiet_rules]: "quiet (find_hosted_inbound_rejection u lp dn v)"
proof -
  have "quiet (first_block cs)" for cs by (induction cs) (auto intro!: quiet_rules)
  then show ?thesis unfolding find_hosted_inbound_rejection_def find_hosted_inbound_block_def by (intro quiet_rules)
qed

abbreviation logs_kept :: "'a io \<Rightarrow> bool" where "logs_kept m \<equiv> \<forall>L. keeps (\<lambda>d. deliveryLogs d = L) m"

lemma logs_kept_stmt: "(\<And>t d a d'. f t d = Inr (a, d') \<Longrightarrow> deliveryLogs d' = deliveryLogs d) \<Longrightarrow> keeps (\<lambda>d. deliveryLogs d = L) (db_stmt f)"
  by (rule keeps_db_stmt) auto

lemma logs_of_notice: "deliveryLogs (snd (insert_quota_claim t k d)) = deliveryLogs d" "deliveryLogs (snd (insert_nonce h n t d)) = deliveryLogs d"
    "deliveryLogs (expire_nonces t d) = deliveryLogs d"
  by (cases k) (auto simp: insert_quota_claim_def insert_nonce_def expire_nonces_def Let_def)

lemma logs_kept_notify:
  "keeps (\<lambda>d. deliveryLogs d = L) (notify_quota_exhausted api u r m)"
  "keeps (\<lambda>d. deliveryLogs d = L) (notify_approaching_monthly_limit api u m n)"
  "keeps (\<lambda>d. deliveryLogs d = L) (increment_user_usage_month u m dc rc eb)"
  "keeps (\<lambda>d. deliveryLogs d = L) (claim_worker_request_nonce sig ts)"
  unfolding notify_quota_exhausted_def notify_approaching_monthly_limit_def claim_quota_notification_def find_user_by_id_def get_effective_plan_def Let_def
    increment_user_usage_month_def claim_worker_request_nonce_def db_write_def
  by (intro keeps_rules logs_kept_stmt; (drule Inr_inject)?; metis logs_of_notice snd_conv usage_of_storage(4))+

lemma queue_logs:
  assumes "queue_inbound_email inp e w = (Inr r, w')" "w_tx w = NoTx"
  shows "case r of
      Queued job m n \<Rightarrow> qe_deliveryLog job \<in> set (deliveryLogs (w_db w')) \<and> dl_rawEmailPath (qe_deliveryLog job) = pi_rawEmailPath inp
    | NotQueued a \<Rightarrow> deliveryLogs (w_db w') = deliveryLogs (w_db w)"
  using assms(1)
proof (cases rule: queue_inbound_Inr)
  case (refused a)
  then show ?thesis by auto
next
  case (allowed al parsed w1)
  have nt: "w_tx w1 = NoTx" using allowed(2) assms(2) by simp
  obtain month dcn where eff: "queue_effect e inp al parsed month dcn (w_db w) (w_db w')"
    and ans: "case r of NotQueued a \<Rightarrow> queue_answer al month dcn = Some a
      | Queued job m n \<Rightarrow> dcn = AcceptDecision (qe_deliveryLog job) n \<and> m = month \<and> qe_alias job = al \<and> qe_parsed job = parsed"
    using queue_allowed_Inr [OF allowed(7) nt] allowed(1) by auto
  show ?thesis
  proof (cases r)
    case (Queued job m n)
    with ans eff show ?thesis by (auto simp: queue_effect_def charge_email_balances new_delivery_log_def)
  next
    case (NotQueued a)
    with ans eff show ?thesis by (cases dcn) (auto simp: queue_effect_def split: option.splits if_splits)
  qed
qed

lemma meta_path_other [simp]: "pending_raw_email_meta_path p \<noteq> p" "p \<noteq> pending_raw_email_meta_path p"
  by (simp_all add: pending_raw_email_meta_path_def)

lemma write_file_Inr: "write_file p e w = (Inr u, w') \<Longrightarrow> w_trace w' = w_trace w @ [FileWritten p] \<and> w_db w' = w_db w \<and> w_tx w' = w_tx w"
  by (auto simp: write_file_def bind_Inr at_tick_Inr emit_Inr throw_def split: option.splits)

lemma store_raw_Inr:
  assumes "store_raw p body e w = (Inr m, w')"
  shows "w_trace w' = w_trace w @ [FileWritten p, FileWritten (pending_raw_email_meta_path p)] \<and> w_db w' = w_db w \<and> w_tx w' = w_tx w"
proof -
  obtain w1 u w2 where r: "write_raw_email p body e w = (Inr m, w1)"
    and c: "catch (write_pending_raw_email_meta p) (\<lambda>err. bind (swallow (delete_file p)) (\<lambda>_. throw err)) e w1 = (Inr u, w2)" "w2 = w'"
    using assms unfolding store_raw_def bind_Inr by (auto simp: ret_Inr)
  have q: "quiet (encrypt_buffer_for_storage body a)" for a
    unfolding encrypt_buffer_for_storage_def wrap_key_def by (intro quiet_rules)
  obtain b w3 where en: "encrypt_buffer_for_storage body (hd (raw_email_aads p)) e w = (Inr b, w3)" and wf: "write_file p e w3 = (Inr (), w1)"
    using r by (auto simp: write_raw_email_def bind_Inr ret_Inr split: prod.splits)
  have "write_file (pending_raw_email_meta_path p) e w1 = (Inr u, w2)"
    using c(1) by (auto simp: catch_Inr bind_Inr throw_def write_pending_raw_email_meta_def)
  from write_file_Inr [OF this] write_file_Inr [OF wf] quietD [OF q en] c(2) show ?thesis by simp
qed

lemma drop_files_runs:
  assumes "drop_files p queued e w = (r, w')"
  shows "w_db w' = w_db w \<and> w_tx w' = w_tx w \<and> (\<exists>es. w_trace w' = w_trace w @ es \<and> (\<forall>v\<in>set es. \<exists>f. v = FileDeleted f) \<and>
    (\<not> terminal_rejection queued \<longrightarrow> FileDeleted p \<notin> set es) \<and>
    (case queued of NotQueued a \<Rightarrow> \<not> terminal_rejection queued \<longrightarrow> es = [] | _ \<Rightarrow> True))"
proof -
  have del: "w_db (snd (delete_file f e v)) = w_db v \<and> w_tx (snd (delete_file f e v)) = w_tx v \<and>
      (\<exists>es. w_trace (snd (delete_file f e v)) = w_trace v @ es \<and> set es \<subseteq> {FileDeleted f})" for f v
    by (auto simp: delete_file_def bind_def at_tick_def emit_def ret_def throw_def split: option.splits)
  obtain es1 where es1: "w_trace (snd (delete_file p e w)) = w_trace w @ es1" "set es1 \<subseteq> {FileDeleted p}" using del by blast
  obtain es2 where es2: "w_trace (snd (delete_file (pending_raw_email_meta_path p) e (snd (delete_file p e w)))) =
      w_trace (snd (delete_file p e w)) @ es2" "set es2 \<subseteq> {FileDeleted (pending_raw_email_meta_path p)}" using del by blast
  obtain es3 where es3: "w_trace (snd (delete_file (pending_raw_email_meta_path p) e w)) = w_trace w @ es3"
      "set es3 \<subseteq> {FileDeleted (pending_raw_email_meta_path p)}" using del by blast
  have sw: "swallow (delete_file f) e v = (Inr (), snd (delete_file f e v))" for f v by (rule prod_eqI) (simp_all add: swallow_world swallow_returns)
  show ?thesis
  proof (cases "terminal_rejection queued")
    case True
    then have "w' = snd (delete_file (pending_raw_email_meta_path p) e (snd (delete_file p e w)))"
      using assms by (cases queued) (auto simp: drop_files_def bind_def sw delete_pending_raw_email_meta_def terminal_rejection_def)
    with True del es1 es2 show ?thesis by (intro conjI exI [of _ "es1 @ es2"]) (auto simp: terminal_rejection_def split: queue_result.splits)
  next
    case False
    show ?thesis
    proof (cases queued)
      case (Queued job m n)
      then have "w' = snd (delete_file (pending_raw_email_meta_path p) e w)"
        using assms False by (auto simp: drop_files_def bind_def sw delete_pending_raw_email_meta_def ret_def)
      with False Queued del es3 show ?thesis by (intro conjI exI [of _ es3]) auto
    next
      case (NotQueued a)
      then have "w' = w" using assms False by (auto simp: drop_files_def bind_def ret_def)
      with NotQueued show ?thesis by auto
    qed
  qed
qed

definition answered :: "world \<Rightarrow> world \<Rightarrow> nat \<Rightarrow> bool" where
  "answered w w' s \<longleftrightarrow> deliveryLogs (w_db w') = deliveryLogs (w_db w) \<and>
     (\<exists>es b. w_trace w' = w_trace w @ es @ [Replied s b] \<and> (\<forall>v\<in>set es. \<exists>q. v = Requested q))"

lemma answer_run: "answer s b next e w = (Inr next, w\<lparr>w_trace := w_trace w @ [Replied s (json_text b)]\<rparr>)"
  by (simp add: answer_def reply_def bind_def emit_def ret_def)

lemma answered_after:
  assumes "m e w = (Inr a, w1)" "keeps (\<lambda>d. deliveryLogs d = deliveryLogs (w_db w)) m" "emits (\<lambda>v. \<exists>q. v = Requested q) m"
    and "answer s b n e w1 = (r, w')"
  shows "answered w w' s \<and> r = Inr n"
proof -
  obtain es where "w_trace w1 = w_trace w @ es" "\<forall>v\<in>set es. \<exists>q. v = Requested q" using emitsE [OF assms(3), of e w] assms(1) by auto
  moreover have "deliveryLogs (w_db w1) = deliveryLogs (w_db w)" using keepsD [OF assms(2), of w e] assms(1) by simp
  ultimately show ?thesis using assms(4) by (auto simp: answer_run answered_def)
qed

lemma raw_answer_runs:
  assumes "raw_answer api req body al queued e w = (Inr next, w')"
  shows "case queued of
      Queued job m n \<Rightarrow> answered w w' 202 \<and> next = DeliverNext job
    | NotQueued a \<Rightarrow> (\<exists>s. answered w w' s \<and> (s = 202 \<longrightarrow> next = Finished \<and>
        (res_reason a \<in> {Some DuplicateEmail, Some AliasNotFound} \<or> \<not> terminal_rejection queued))) \<and> (\<forall>job. next \<noteq> DeliverNext job)"
proof (cases queued)
  case (Queued job m n)
  obtain u w1 where n: "notify_approaching_monthly_limit api (or_else (dl_userId (qe_deliveryLog job)) (al_createdBy al)) m n e w = (Inr u, w1)"
    and a: "answer 202 (JObj [(''status'', JStr ''accepted'')]) (DeliverNext job) e w1 = (Inr next, w')"
    using assms Queued unfolding raw_answer_def by (auto simp: bind_Inr)
  have em: "emits (\<lambda>v. \<exists>q. v = Requested q) (notify_approaching_monthly_limit api u m n)" for u m n by (intro emits_rules) blast
  have "answered w w' 202 \<and> Inr next = (Inr (DeliverNext job) :: exn + after_reply)"
    by (rule answered_after [OF n logs_kept_notify(2) em a])
  with Queued show ?thesis by simp
next
  case (NotQueued a)
  show ?thesis
  proof (cases "status_for_queue_rejection (res_reason a)")
    case None
    then have "\<not> should_delete_pending_meta (res_reason a) \<or> res_reason a \<in> {Some DuplicateEmail, Some AliasNotFound}"
      by (auto simp: should_delete_pending_meta_def)
    with None NotQueued assms show ?thesis
      by (auto simp: raw_answer_def answer_run answered_def terminal_rejection_def intro!: exI [of _ 202])
  next
    case (Some s)
    then have s: "s \<noteq> 202" by (cases "res_reason a" rule: status_for_queue_rejection.cases) auto
    let ?m = "case quota_notice_of (res_reason a) of None \<Rightarrow> ret ()
       | Some notice \<Rightarrow> bind now (\<lambda>t. notify_quota_exhausted api (or_else (res_userId a) (al_createdBy al)) notice
                           (or_else (res_month a) (usage_month_for_date t)))"
    let ?n = "if res_reason a = Some (RejectedSender SenderNotAllowed)
                  then OfferNotice (NoticeOffered ''raw''
                         (case res_senderRejection a of Some (i, _) \<Rightarrow> i | None \<Rightarrow> al_id al)
                         (usable_from_domain (case res_senderRejection a of Some (_, d) \<Rightarrow> d | None \<Rightarrow> None))
                         (normalize_envelope_sender (rq_envelopeFrom req)) (Some body))
                  else Finished"
    obtain u w1 where m: "?m e w = (Inr u, w1)" and an: "answer s (error_body ''rejected'') ?n e w1 = (Inr next, w')"
      using assms NotQueued Some unfolding raw_answer_def by (auto simp: bind_Inr)
    have em: "emits (\<lambda>v. \<exists>q. v = Requested q) ?m" by (intro emits_rules) blast
    have lk: "keeps (\<lambda>d. deliveryLogs d = deliveryLogs (w_db w)) ?m" by (intro keeps_rules logs_kept_notify)
    have "answered w w' s \<and> Inr next = (Inr ?n :: exn + after_reply)" by (rule answered_after [OF m lk em an])
    with NotQueued s show ?thesis by (auto split: if_splits)
  qed
qed

text \<open>Of a run that answers: one response; without a 202 no log and no delivery; with a 202 the mail and its
  metadata were written and either a log with the mail's path awaits delivery, or nothing was deleted, or
  the mail is a duplicate or its alias is gone.\<close>

definition raw_outcome :: "env \<Rightarrow> world \<Rightarrow> world \<Rightarrow> after_reply \<Rightarrow> bool" where
  "raw_outcome e w w' next \<longleftrightarrow> (\<exists>es s b. w_trace w' = w_trace w @ es \<and> filter is_reply es = [Replied s b] \<and>
     (s \<noteq> 202 \<longrightarrow> deliveryLogs (w_db w') = deliveryLogs (w_db w) \<and> (\<forall>job. next \<noteq> DeliverNext job)) \<and>
     (s = 202 \<longrightarrow> (\<exists>path. FileWritten path \<in> set es \<and> FileWritten (pending_raw_email_meta_path path) \<in> set es \<and>
        (case next of
           DeliverNext job \<Rightarrow> qe_deliveryLog job \<in> set (deliveryLogs (w_db w')) \<and> dl_rawEmailPath (qe_deliveryLog job) = Some path \<and>
             FileDeleted path \<notin> set es
         | _ \<Rightarrow> (\<exists>inp a w1 w2. queue_inbound_email inp e w1 = (Inr (NotQueued a), w2) \<and> pi_rawEmailPath inp = Some path \<and>
             (res_reason a \<in> {Some DuplicateEmail, Some AliasNotFound} \<or>
              FileDeleted path \<notin> set es \<and> FileDeleted (pending_raw_email_meta_path path) \<notin> set es))))))"

lemma raw_accept_outcome:
  assumes "raw_accept api config req body lp al e w = (Inr next, w')" "w_tx w = NoTx"
  shows "raw_outcome e w w' next"
proof -
  obtain p w1 m w2 queued w3 u w4 where p: "raw_email_path (rc_rawEmailDir config) e w = (Inr p, w1)"
    and st: "store_raw p body e w1 = (Inr m, w2)"
    and q: "queue_inbound_email (raw_pipeline_input config req body lp p m) e w2 = (Inr queued, w3)"
    and dr: "drop_files p queued e w3 = (Inr u, w4)" and an: "raw_answer api req body al queued e w4 = (Inr next, w')"
    using assms(1) unfolding raw_accept_def bind_Inr by (elim exE conjE)
  let ?inp = "raw_pipeline_input config req body lp p m"
  let ?written = "[FileWritten p, FileWritten (pending_raw_email_meta_path p)]"
  have path: "pi_rawEmailPath ?inp = Some p" by (simp add: raw_pipeline_input_def)
  have "quiet (raw_email_path d)" for d unfolding raw_email_path_def by (intro quiet_rules)
  from quietD [OF this p] store_raw_Inr [OF st] assms(2)
  have w2: "w_trace w2 = w_trace w @ ?written" "w_db w2 = w_db w" "w_tx w2 = NoTx" by simp_all
  have w3: "w_trace w3 = w_trace w2" by (rule silentD [OF emits_queue q])
  obtain es where es: "w_db w4 = w_db w3" "w_trace w4 = w_trace w3 @ es" "\<forall>v\<in>set es. \<exists>f. v = FileDeleted f"
    "\<not> terminal_rejection queued \<longrightarrow> FileDeleted p \<notin> set es"
    "case queued of NotQueued a \<Rightarrow> \<not> terminal_rejection queued \<longrightarrow> es = [] | _ \<Rightarrow> True"
    using drop_files_runs [OF dr] by blast
  have no: "filter is_reply es = []" "\<And>rs. (\<forall>v\<in>set rs. \<exists>q. v = Requested q) \<Longrightarrow> filter is_reply rs = [] \<and> (\<forall>f. FileDeleted f \<notin> set rs)"
    using es(3) by (fastforce simp: filter_empty_conv)+
  note logs = queue_logs [OF q w2(3)]
  show ?thesis
  proof (cases queued)
    case (Queued job mo n)
    then have "answered w4 w' 202" and nx: "next = DeliverNext job" using raw_answer_runs [OF an] by auto
    then obtain rs b where rs: "deliveryLogs (w_db w') = deliveryLogs (w_db w4)" "w_trace w' = w_trace w4 @ rs @ [Replied 202 b]"
      "\<forall>v\<in>set rs. \<exists>q. v = Requested q" unfolding answered_def by blast
    have nt: "\<not> terminal_rejection queued" using Queued by (simp add: terminal_rejection_def)
    show ?thesis unfolding raw_outcome_def
      by (rule exI [of _ "?written @ es @ rs @ [Replied 202 b]"], rule exI [of _ 202], rule exI [of _ b])
        (use Queued nx rs es w2 w3 logs path no nt in \<open>auto intro!: exI [of _ p]\<close>)
  next
    case (NotQueued a)
    then obtain s where "answered w4 w' s" and s: "s = 202 \<longrightarrow> next = Finished \<and>
        (res_reason a \<in> {Some DuplicateEmail, Some AliasNotFound} \<or> \<not> terminal_rejection queued)" and nx: "\<forall>job. next \<noteq> DeliverNext job"
      using raw_answer_runs [OF an] by auto
    then obtain rs b where rs: "deliveryLogs (w_db w') = deliveryLogs (w_db w4)" "w_trace w' = w_trace w4 @ rs @ [Replied s b]"
      "\<forall>v\<in>set rs. \<exists>q. v = Requested q" unfolding answered_def by blast
    have q': "queue_inbound_email ?inp e w2 = (Inr (NotQueued a), w3)" using q NotQueued by simp
    have kept: "es = []" if "\<not> terminal_rejection queued" using es(5) NotQueued that by simp
    have "s = 202 \<longrightarrow> (\<exists>inp a w1 w2. queue_inbound_email inp e w1 = (Inr (NotQueued a), w2) \<and> pi_rawEmailPath inp = Some p \<and>
        (res_reason a \<in> {Some DuplicateEmail, Some AliasNotFound} \<or>
         FileDeleted p \<notin> set (es @ rs) \<and> FileDeleted (pending_raw_email_meta_path p) \<notin> set (es @ rs)))"
      using s q' path kept no(2) [OF rs(3)] by (intro impI exI [of _ ?inp] exI [of _ a] exI [of _ w2] exI [of _ w3]) auto
    then show ?thesis unfolding raw_outcome_def
      by (intro exI [of _ "?written @ es @ rs @ [Replied s b]"] exI [of _ s] exI [of _ b])
        (use NotQueued nx rs es w2 w3 logs s no in \<open>auto intro!: exI [of _ p]\<close>)
  qed
qed

lemma raw_outcome_early:
  assumes "answered w w' s" "s \<noteq> 202" "\<forall>job. next \<noteq> DeliverNext job"
  shows "raw_outcome e w w' next"
proof -
  obtain es b where es: "w_trace w' = w_trace w @ es @ [Replied s b]" "\<forall>v\<in>set es. \<exists>q. v = Requested q"
    using assms(1) unfolding answered_def by blast
  have "filter is_reply es = []" using es(2) by (fastforce simp: filter_empty_conv)
  then show ?thesis using es assms unfolding raw_outcome_def answered_def
    by (intro exI [of _ "es @ [Replied s b]"] exI [of _ s] exI [of _ b]) auto
qed

text \<open>A prefix that sends nothing and keeps the logs does not change the outcome.\<close>

lemma raw_outcome_prefix:
  assumes "raw_outcome e w1 w' next" "w_trace w1 = w_trace w" "deliveryLogs (w_db w1) = deliveryLogs (w_db w)"
  shows "raw_outcome e w w' next"
  using assms unfolding raw_outcome_def by simp

lemma raw_outcome_at_once:
  assumes "answer s b n e v = (Inr next, w')" "s \<noteq> 202" "\<forall>job. n \<noteq> DeliverNext job"
    and "w_trace v = w_trace w" "deliveryLogs (w_db v) = deliveryLogs (w_db w)"
  shows "raw_outcome e w w' next"
proof -
  have w': "w' = v\<lparr>w_trace := w_trace v @ [] @ [Replied s (json_text b)]\<rparr>" "n = next" using assms(1) by (simp_all add: answer_run)
  have "answered v w' s" unfolding answered_def w' by (intro conjI exI [of _ "[]"] exI [of _ "json_text b"]) simp_all
  then show ?thesis using assms(2-5) w'(2) by (intro raw_outcome_prefix [OF raw_outcome_early [of v w' s]]) auto
qed

lemma raw_admission_outcome:
  assumes "raw_admission api config req body lp e w = (Inr next, w')" "w_tx w = NoTx"
  shows "raw_outcome e w w' next"
proof -
  have early: "raw_outcome e w w' next" if "answer s b n e v = (Inr next, w')" "s \<noteq> 202" "\<forall>job. n \<noteq> DeliverNext job"
      "w_trace v = w_trace w" "deliveryLogs (w_db v) = deliveryLogs (w_db w)" for s b n v
    using raw_outcome_at_once that by blast
  obtain found w1 where f: "find_alias_for_inbound lp (rq_recipientDomain req) e w = (Inr found, w1)"
    and k: "(case (if (case found of None \<Rightarrow> True | Some al \<Rightarrow> al_status al \<noteq> Active) then None else found) of
         None \<Rightarrow> answer 403 (error_body ''rejected'') Finished
       | Some al \<Rightarrow>
           bind (find_hosted_inbound_rejection (Some (al_createdBy al)) (Some lp) (rq_recipientDomain req) (rq_envelopeFrom req)) (\<lambda>block.
             if block \<noteq> None then answer 403 (error_body ''rejected'') Finished
             else bind now (\<lambda>t.
                  bind (check_inbound_limit (Some (al_createdBy al)) (Some (int (length body))) (Some (int (length body))) (usage_month_for_date t)) (\<lambda>limit.
                       case (case limit of LimitOk \<Rightarrow> None
                               | LimitHit code _ _ \<Rightarrow> map_option (\<lambda>status. (code, status)) (status_for_queue_rejection (Some (OverLimit code)))) of
                         None \<Rightarrow> raw_accept api config req body lp al
                       | Some (code, status) \<Rightarrow>
                           bind (count_and_notify api (al_createdBy al) code (usage_month_for_date t)) (\<lambda>_.
                           answer status (error_body ''rejected'') Finished))))) e w1 = (Inr next, w')"
    using assms(1) unfolding raw_admission_def Let_def bind_Inr [where m = "find_alias_for_inbound _ _"] by (elim exE conjE)
  have w1: "w_trace w1 = w_trace w" "w_db w1 = w_db w" "w_tx w1 = NoTx" using quietD [OF quiet_queue(2) f] assms(2) by simp_all
  show ?thesis
  proof (cases "if (case found of None \<Rightarrow> True | Some al \<Rightarrow> al_status al \<noteq> Active) then None else found")
    case None
    then show ?thesis using k w1 by (auto intro: early [where v = w1])
  next
    case (Some al)
    obtain block w2 where bl: "find_hosted_inbound_rejection (Some (al_createdBy al)) (Some lp) (rq_recipientDomain req) (rq_envelopeFrom req) e w1 = (Inr block, w2)"
      and k2: "(if block \<noteq> None then answer 403 (error_body ''rejected'') Finished
             else bind now (\<lambda>t.
                  bind (check_inbound_limit (Some (al_createdBy al)) (Some (int (length body))) (Some (int (length body))) (usage_month_for_date t)) (\<lambda>limit.
                       case (case limit of LimitOk \<Rightarrow> None
                               | LimitHit code _ _ \<Rightarrow> map_option (\<lambda>status. (code, status)) (status_for_queue_rejection (Some (OverLimit code)))) of
                         None \<Rightarrow> raw_accept api config req body lp al
                       | Some (code, status) \<Rightarrow>
                           bind (count_and_notify api (al_createdBy al) code (usage_month_for_date t)) (\<lambda>_.
                           answer status (error_body ''rejected'') Finished)))) e w2 = (Inr next, w')"
      using k unfolding Some option.case bind_Inr [where m = "find_hosted_inbound_rejection _ _ _ _"] by (elim exE conjE)
    have w2: "w_trace w2 = w_trace w" "w_db w2 = w_db w" "w_tx w2 = NoTx" using quietD [OF quiet_blocks bl] w1 by simp_all
    show ?thesis
    proof (cases block)
      case (Some b)
      then show ?thesis using k2 w2 by (auto intro: early [where v = w2])
    next
      case None
      obtain t w3 limit w4 where tm: "now e w2 = (Inr t, w3)"
        and li: "check_inbound_limit (Some (al_createdBy al)) (Some (int (length body))) (Some (int (length body))) (usage_month_for_date t) e w3 = (Inr limit, w4)"
        and k3: "(case (case limit of LimitOk \<Rightarrow> None
                               | LimitHit code _ _ \<Rightarrow> map_option (\<lambda>status. (code, status)) (status_for_queue_rejection (Some (OverLimit code)))) of
                         None \<Rightarrow> raw_accept api config req body lp al
                       | Some (code, status) \<Rightarrow>
                           bind (count_and_notify api (al_createdBy al) code (usage_month_for_date t)) (\<lambda>_.
                           answer status (error_body ''rejected'') Finished)) e w4 = (Inr next, w')"
        using k2 None by (simp add: bind_Inr [where m = now] bind_Inr [where m = "check_inbound_limit _ _ _ _"]) blast
      have "quiet (check_inbound_limit u a b c)" for u a b c unfolding check_inbound_limit_def by (intro quiet_rules)
      from quietD [OF this li] quietD [OF quiet_now tm] w2
      have w4: "w_trace w4 = w_trace w" "w_db w4 = w_db w" "w_tx w4 = NoTx" by simp_all
      show ?thesis
      proof (cases "case limit of LimitOk \<Rightarrow> None
          | LimitHit code _ _ \<Rightarrow> map_option (\<lambda>status. (code, status)) (status_for_queue_rejection (Some (OverLimit code)))")
        case None
        then have "raw_accept api config req body lp al e w4 = (Inr next, w')" using k3 by simp
        from raw_outcome_prefix [OF raw_accept_outcome [OF this w4(3)]] w4 show ?thesis by simp
      next
        case (Some cs)
        obtain code status where cs: "cs = (code, status)" by (cases cs)
        then have s: "status \<noteq> 202" using Some
          by (auto split: limit_result.splits elim!: status_for_queue_rejection.elims)
        obtain u w5 where cn: "count_and_notify api (al_createdBy al) code (usage_month_for_date t) e w4 = (Inr u, w5)"
          and an: "answer status (error_body ''rejected'') Finished e w5 = (Inr next, w')"
          using k3 unfolding Some cs option.case prod.case bind_Inr by (elim exE conjE)
        have em: "emits (\<lambda>v. \<exists>q. v = Requested q) (count_and_notify api (al_createdBy al) code m)" for m
          unfolding count_and_notify_def increment_user_usage_month_def by (intro emits_rules) blast
        have lk: "keeps (\<lambda>d. deliveryLogs d = deliveryLogs (w_db w4)) (count_and_notify api (al_createdBy al) code m)" for m
          unfolding count_and_notify_def by (intro keeps_rules logs_kept_notify)
        have "answered w4 w' status \<and> Inr next = (Inr Finished :: exn + after_reply)" by (rule answered_after [OF cn lk em an])
        then have "raw_outcome e w4 w' next" using s by (intro raw_outcome_early) auto
        then show ?thesis by (rule raw_outcome_prefix) (simp_all add: w4)
      qed
    qed
  qed
qed


text \<open>A request without the worker's version 2 signature over its timestamp, routing headers and body, fresh within
  five minutes, is answered 401 or 400 and changes nothing in the database.\<close>

theorem unsigned_request_changes_nothing:
  assumes "\<not> (\<exists>sig ts body. rq_sig req = Some sig \<and> rq_ts req = Some ts \<and> rq_sigVersion req = Some ''v2'' \<and> rq_body req = Some body \<and>
      verify_worker_at e (clock e (w_tick w)) body sig ts (Some (routing_headers_of req)))"
  shows "\<exists>w' s b. raw_respond api config req e w = (Inr Finished, w') \<and> s \<in> {400, 401} \<and> w_db w' = w_db w \<and> w_trace w' = w_trace w @ [Replied s b]"
proof (cases "truthy (rq_sig req) \<and> truthy (rq_ts req) \<and> rq_sigVersion req = Some ''v2'' \<and> rq_body req \<noteq> None")
  case False
  then show ?thesis by (auto simp: raw_respond_def answer_run split: option.split)
next
  case True
  then obtain body where body: "rq_body req = Some body" by blast
  with True assms have "\<not> verify_worker_at e (clock e (w_tick w)) body (the (rq_sig req)) (the (rq_ts req)) (Some (routing_headers_of req))"
    by (auto simp: truthy_iff)
  with True body show ?thesis
    by (simp add: raw_respond_def verify_worker_request_def bind_def now_def at_tick_def ask_def answer_run)
qed

text \<open>A signed request for an address nobody has, and one without a signature.\<close>

definition sample_config :: raw_config where
  "sample_config = \<lparr> rc_publicBaseUrl = ''https://m'', rc_attachmentDir = ''/att'', rc_attachmentTtlHours = 24, rc_rawEmailDir = ''/raw'',
     rc_rawEmailTtlHours = 24, rc_maxInflightDeliveries = 8, rc_telegramRichMessagesEnabled = True \<rparr>"

definition sample_request :: "string option \<Rightarrow> raw_request" where
  "sample_request sig = \<lparr> rq_sig = sig, rq_ts = Some ''0'', rq_sigVersion = Some ''v2'', rq_localPart = Some ''alerts'',
     rq_envelopeFrom = None, rq_recipientDomain = None, rq_body = Some ''mail'' \<rparr>"

lemma sample_rejected:
  "\<exists>w'. raw_respond True sample_config (sample_request (Some ''ab'')) worker_env (start_world empty_db) = (Inr Finished, w') \<and> filter is_reply (w_trace w') = [Replied 403 (json_text (error_body ''rejected''))]"
proof -
  have lookup: "find_alias_by_local_part ''alerts'' (d\<lparr>workerRequestNonces := x\<rparr>) = find_alias_by_local_part ''alerts'' d"
    "find_alias_by_local_part ''alerts'' empty_db = None" for d x
    by (simp_all add: find_alias_by_local_part_def)
  have "verify_worker_at worker_env 0 ''mail'' ''ab'' ''0'' (Some r)" for r
    by (simp add: verify_worker_at_def worker_env_def truthy_iff max_age_ms_def max_future_skew_ms_def)
  then show ?thesis
    by (simp add: raw_respond_def sample_request_def verify_worker_request_def step_simps start_world_def worker_env_def claim_worker_request_nonce_def
        insert_nonce_def expire_nonces_def raw_admission_def find_alias_for_inbound_def should_use_hosted_domain_routing_def lookup answer_run truthy_iff)
qed


theorem unsigned_request_changes_nothing_witness:
  "\<exists>w' s b. raw_respond True sample_config (sample_request None) worker_env (start_world empty_db) = (Inr Finished, w') \<and> s \<in> {400, 401} \<and>
     w_db w' = empty_db \<and> w_trace w' = [Replied s b]"
  using unsigned_request_changes_nothing [of "sample_request None" worker_env "start_world empty_db" True sample_config]
  by (simp add: sample_request_def start_world_def)

end
