(* ===== verification/Users.thy ===== *)
theory Users
  imports Guarded "HOL-Library.Product_Lexorder"
begin

text \<open>
  The users repository (\<open>src/db/repos/users.ts\<close>) and the locale names it stores
  (\<open>src/i18n/locale.ts\<close>).  The column \<open>locale\<close> exists, so the fallbacks for a database that was not
  migrated yet are not taken.  Stripe ids are unique: a write that would repeat one is refused.
\<close>

section \<open>Locales\<close>

definition supported_locales :: "string list" where
  "supported_locales = [''en'', ''uk'', ''fr'', ''it'']"

definition default_locale :: string where "default_locale = ''en''"

definition is_locale :: "string \<Rightarrow> bool" where
  "is_locale value \<longleftrightarrow> value \<in> set supported_locales"

text \<open>\<open>replace("_", "-")\<close>: the first one only.\<close>

fun replace_first :: "char \<Rightarrow> char \<Rightarrow> string \<Rightarrow> string" where
  "replace_first a b [] = []"
| "replace_first a b (c # cs) = (if c = a then b # cs else c # replace_first a b cs)"

definition normalize_locale :: "string option \<Rightarrow> string option" where
  "normalize_locale value =
     (if \<not> truthy value then None
      else let language = hd (js_split (CHR ''-'') (replace_first (CHR ''_'') (CHR ''-'') (js_lower (the value))))
           in if language = ''uk'' \<or> language = ''ua'' then Some ''uk''
              else if language = ''en'' then Some ''en'' else if language = ''fr'' then Some ''fr'' else if language = ''it'' then Some ''it'' else None)"

definition locale_from_telegram :: "string option \<Rightarrow> string option" where
  "locale_from_telegram value = normalize_locale value"

text \<open>\<open>resolveLocale\<close> of \<open>src/i18n/index.ts\<close>, for a sender with this id and language.\<close>

definition resolve_locale :: "bigint option \<Rightarrow> string option \<Rightarrow> string io" where
  "resolve_locale sender languageCode =
     (let fallback = or_else (locale_from_telegram languageCode) default_locale
      in case sender of
           None \<Rightarrow> ret fallback
         | Some i \<Rightarrow> catch (bind (find_user_by_id i) (\<lambda>user.
                       ret (or_else (normalize_locale (case user of None \<Rightarrow> None | Some u \<Rightarrow> u_locale u)) fallback))) (\<lambda>_. ret fallback))"

section \<open>Listings\<close>

definition count_users :: "db \<Rightarrow> nat \<times> nat" where
  "count_users d = (length (users d), count_where u_isAllowed (users d))"

definition count_users_by_plan :: "db \<Rightarrow> (plan_code \<times> nat) list" where
  "count_users_by_plan d = map (\<lambda>p. (p, count_where (\<lambda>u. u_planCode u = p) (users d))) (remdups (map u_planCode (users d)))"

text \<open>Ascending, nulls last.\<close>

definition nulls_last :: "instant option \<Rightarrow> bool \<times> int" where
  "nulls_last v = (v = None, or_else v 0)"

definition list_subscription_deadlines :: "instant \<Rightarrow> instant \<Rightarrow> nat \<Rightarrow> db \<Rightarrow> user_row list" where
  "list_subscription_deadlines nowMs horizon limit d =
     take limit (sort_key (\<lambda>u. nulls_last (u_paidThroughAt u))
       (filter (\<lambda>u. u_planCode u \<noteq> Free \<and> u_subscriptionStatus u \<in> {SubActive, Trialing, PastDue} \<and>
          (case u_paidThroughAt u of None \<Rightarrow> False | Some p \<Rightarrow> nowMs \<le> p \<and> p \<le> horizon)) (users d)))"

definition list_billing_attention_users :: "instant \<Rightarrow> nat \<Rightarrow> db \<Rightarrow> user_row list" where
  "list_billing_attention_users nowMs limit d =
     take limit (sort_key (\<lambda>u. (nulls_last (u_paidThroughAt u), nulls_last (u_currentPeriodEnd u), u_id u))
       (filter (\<lambda>u. u_planCode u \<noteq> Free \<and>
          ((case u_paidThroughAt u of None \<Rightarrow> False | Some p \<Rightarrow> p < nowMs) \<or>
           u_subscriptionStatus u \<in> {SubPaused, PastDue, Unpaid, Incomplete, IncompleteExpired} \<or>
           (case u_currentPeriodEnd u of None \<Rightarrow> False | Some p \<Rightarrow> p < nowMs))) (users d)))"

definition list_recent_signups :: "nat \<Rightarrow> db \<Rightarrow> user_row list" where
  "list_recent_signups limit d = take limit (sort_key (\<lambda>u. - u_createdAt u) (users d))"

section \<open>Accounts\<close>

definition new_user :: "instant \<Rightarrow> bigint \<Rightarrow> string option \<Rightarrow> string option \<Rightarrow> bool \<Rightarrow> user_row" where
  "new_user t i username locale allowed =
     \<lparr> u_id = i, u_username = username, u_locale = locale, u_isAllowed = allowed, u_planCode = Free, u_subscriptionStatus = SubFree,
       u_stripeCustomerId = None, u_stripeSubscriptionId = None, u_trialEndsAt = None, u_currentPeriodStart = None,
       u_currentPeriodEnd = None, u_paidThroughAt = None, u_createdAt = t, u_updatedAt = t \<rparr>"

definition update_user :: "bigint \<Rightarrow> (user_row \<Rightarrow> user_row) \<Rightarrow> db \<Rightarrow> db" where
  "update_user i f d = d\<lparr> users := update_where (\<lambda>u. u_id u = i) f (users d) \<rparr>"

text \<open>\<open>INSERT ... ON CONFLICT (id) DO UPDATE ... RETURNING\<close>\<close>

definition upsert_user_row :: "user_row \<Rightarrow> (user_row \<Rightarrow> user_row) \<Rightarrow> db \<Rightarrow> user_row option \<times> db" where
  "upsert_user_row row f d =
     (let d' = (case user_by_id (u_id row) d of None \<Rightarrow> d\<lparr> users := users d @ [row] \<rparr> | Some _ \<Rightarrow> update_user (u_id row) f d)
      in (user_by_id (u_id row) d', d'))"

definition upsert_user :: "bigint \<Rightarrow> string option \<Rightarrow> string option \<Rightarrow> user_row io" where
  "upsert_user i username rawLocale =
     bind now (\<lambda>nowMs.
     bind (db_stmt (\<lambda>t d. Inr (upsert_user_row (new_user t i username (normalize_locale rawLocale) False)
             (\<lambda>u. u\<lparr> u_username := username, u_locale := (if u_locale u = None then normalize_locale rawLocale else u_locale u), u_updatedAt := nowMs \<rparr>) d))) (\<lambda>row.
       case row of None \<Rightarrow> throw (Thrown ''upsertUser: no row returned'') | Some u \<Rightarrow> ret u))"

definition allow_user :: "bigint \<Rightarrow> unit io" where
  "allow_user i = bind now (\<lambda>t. db_write (update_user i (\<lambda>u. u\<lparr> u_isAllowed := True, u_updatedAt := t \<rparr>)))"

definition upsert_allowed_user :: "bigint \<Rightarrow> unit io" where
  "upsert_allowed_user i =
     bind now (\<lambda>nowMs. db_stmt (\<lambda>t d. Inr ((), snd (upsert_user_row (new_user t i None None True) (\<lambda>u. u\<lparr> u_isAllowed := True, u_updatedAt := nowMs \<rparr>) d))))"

definition update_user_locale :: "bigint \<Rightarrow> string \<Rightarrow> unit io" where
  "update_user_locale i locale = bind now (\<lambda>t. db_write (update_user i (\<lambda>u. u\<lparr> u_locale := Some locale, u_updatedAt := t \<rparr>)))"

text \<open>\<open>INSERT ... ON CONFLICT (id) DO NOTHING RETURNING\<close>\<close>

definition insert_user_unless_present :: "user_row \<Rightarrow> db \<Rightarrow> user_row option \<times> db" where
  "insert_user_unless_present row d =
     (if user_by_id (u_id row) d = None then (Some row, d\<lparr> users := users d @ [row] \<rparr>) else (None, d))"

definition find_or_create_user_by_id :: "bigint \<Rightarrow> user_row io" where
  "find_or_create_user_by_id i =
     bind (find_user_by_id i) (\<lambda>existing.
       case existing of
         Some u \<Rightarrow> ret u
       | None \<Rightarrow>
           bind (db_stmt (\<lambda>t d. Inr (insert_user_unless_present (new_user t i None None False) d))) (\<lambda>created.
             case created of
               Some u \<Rightarrow> ret u
             | None \<Rightarrow> bind (find_user_by_id i) (\<lambda>raced.
                 case raced of None \<Rightarrow> throw (Thrown ''findOrCreateUserById: no row returned'') | Some u \<Rightarrow> ret u)))"

text \<open>\<open>SELECT ... FOR UPDATE\<close>: the row stays locked until the transaction ends.\<close>

definition find_user_by_id_for_update :: "bigint \<Rightarrow> user_row option io" where
  "find_user_by_id_for_update i = db_read (user_by_id i)"

section \<open>Billing state\<close>

definition user_by_stripe_customer :: "string \<Rightarrow> db \<Rightarrow> user_row option" where
  "user_by_stripe_customer c d = select_first (\<lambda>u. u_stripeCustomerId u = Some c) (users d)"

definition user_by_stripe_subscription :: "string \<Rightarrow> db \<Rightarrow> user_row option" where
  "user_by_stripe_subscription s d = select_first (\<lambda>u. u_stripeSubscriptionId u = Some s) (users d)"

definition find_user_by_stripe_customer_id :: "string \<Rightarrow> user_row option io" where
  "find_user_by_stripe_customer_id c = db_read (user_by_stripe_customer c)"

definition find_user_by_stripe_subscription_id :: "string \<Rightarrow> user_row option io" where
  "find_user_by_stripe_subscription_id s = db_read (user_by_stripe_subscription s)"

text \<open>The fields of an update; None: not mentioned.\<close>

record billing_patch =
  bp_planCode :: "plan_code option"
  bp_subscriptionStatus :: "subscription_status option"
  bp_stripeCustomerId :: "string option option"
  bp_stripeSubscriptionId :: "string option option"
  bp_trialEndsAt :: "instant option option"
  bp_currentPeriodStart :: "instant option option"
  bp_currentPeriodEnd :: "instant option option"
  bp_paidThroughAt :: "instant option option"

definition empty_patch :: billing_patch where
  "empty_patch = \<lparr> bp_planCode = None, bp_subscriptionStatus = None, bp_stripeCustomerId = None, bp_stripeSubscriptionId = None,
     bp_trialEndsAt = None, bp_currentPeriodStart = None, bp_currentPeriodEnd = None, bp_paidThroughAt = None \<rparr>"

definition apply_patch :: "billing_patch \<Rightarrow> instant \<Rightarrow> user_row \<Rightarrow> user_row" where
  "apply_patch p t u = u\<lparr> u_planCode := or_else (bp_planCode p) (u_planCode u),
     u_subscriptionStatus := or_else (bp_subscriptionStatus p) (u_subscriptionStatus u),
     u_stripeCustomerId := or_else (bp_stripeCustomerId p) (u_stripeCustomerId u),
     u_stripeSubscriptionId := or_else (bp_stripeSubscriptionId p) (u_stripeSubscriptionId u),
     u_trialEndsAt := or_else (bp_trialEndsAt p) (u_trialEndsAt u),
     u_currentPeriodStart := or_else (bp_currentPeriodStart p) (u_currentPeriodStart u),
     u_currentPeriodEnd := or_else (bp_currentPeriodEnd p) (u_currentPeriodEnd u),
     u_paidThroughAt := or_else (bp_paidThroughAt p) (u_paidThroughAt u),
     u_updatedAt := t \<rparr>"

text \<open>Would the update give the user a Stripe id that another user has?\<close>

definition stripe_conflict :: "bigint \<Rightarrow> billing_patch \<Rightarrow> db \<Rightarrow> bool" where
  "stripe_conflict i p d \<longleftrightarrow> list_ex (\<lambda>u. u_id u = i) (users d) \<and>
     list_ex (\<lambda>u. u_id u \<noteq> i \<and>
       ((case bp_stripeCustomerId p of Some (Some c) \<Rightarrow> u_stripeCustomerId u = Some c | _ \<Rightarrow> False) \<or>
        (case bp_stripeSubscriptionId p of Some (Some s) \<Rightarrow> u_stripeSubscriptionId u = Some s | _ \<Rightarrow> False))) (users d)"

definition update_user_billing_state :: "bigint \<Rightarrow> billing_patch \<Rightarrow> user_row option io" where
  "update_user_billing_state i p =
     bind now (\<lambda>nowMs. db_stmt (\<lambda>t d.
       if stripe_conflict i p d then Inl (QueryError ''23505'')
       else let d' = update_user i (apply_patch p nowMs) d in Inr (user_by_id i d', d')))"

definition later_deadline :: "instant \<Rightarrow> instant option \<Rightarrow> instant option" where
  "later_deadline p v = (case v of None \<Rightarrow> Some p | Some q \<Rightarrow> if q < p then Some p else Some q)"

definition update_user_paid_through_at_if_later :: "bigint \<Rightarrow> instant \<Rightarrow> user_row option io" where
  "update_user_paid_through_at_if_later i paidThroughAt =
     bind now (\<lambda>nowMs. db_stmt (\<lambda>t d.
       let d' = update_user i (\<lambda>u. u\<lparr> u_paidThroughAt := later_deadline paidThroughAt (u_paidThroughAt u), u_updatedAt := nowMs \<rparr>) d
       in Inr (user_by_id i d', d')))"

section \<open>Deletion\<close>

definition get_user_deletion_summary :: "bigint \<Rightarrow> db \<Rightarrow> nat \<times> nat \<times> nat" where
  "get_user_deletion_summary i d =
     (count_where (\<lambda>a. al_createdBy a = i) (aliases d), count_where (\<lambda>l. dl_userId l = Some i) (deliveryLogs d),
      count_where (\<lambda>b. mb_telegramUserId b = i) (manualBillingEvents d))"

definition has_live_paid_subscription :: "user_row \<Rightarrow> bool" where
  "has_live_paid_subscription user \<longleftrightarrow> (u_stripeCustomerId user \<noteq> None \<or> u_stripeSubscriptionId user \<noteq> None) \<and>
     u_subscriptionStatus user \<notin> {Canceled, IncompleteExpired}"

section \<open>Reading back\<close>

lemma user_by_id_update:
  "(\<And>u. u_id (f u) = u_id u) \<Longrightarrow> user_by_id j (update_user i f d) = map_option (\<lambda>u. if u_id u = i then f u else u) (user_by_id j d)"
proof -
  assume f: "\<And>u. u_id (f u) = u_id u"
  have "select_first (\<lambda>u. u_id u = j) (update_where (\<lambda>u. u_id u = i) f us) = map_option (\<lambda>u. if u_id u = i then f u else u) (select_first (\<lambda>u. u_id u = j) us)" for us
    by (induction us) (auto simp: f)
  then show ?thesis by (simp add: user_by_id_def update_user_def)
qed

lemma apply_patch_id [simp]: "u_id (apply_patch p t u) = u_id u"
  by (simp add: apply_patch_def)

end
