(* ===== verification/Webhooks.thy ===== *)
theory Webhooks
  imports Users
begin

text \<open>
  Stripe webhooks (\<open>src/billing/webhooks.ts\<close>), the price table (\<open>src/billing/stripe.ts\<close>), the ledger of
  processed events (\<open>src/db/repos/billingWebhookEvents.ts\<close>) and the reads of the manual billing
  events (\<open>src/db/repos/manualBillingEvents.ts\<close>).  Of a Stripe object the fields the code looks at are
  modelled; signatures are checked by Stripe's library.
\<close>

section \<open>Prices\<close>

datatype stripe_price_key = PersonalMonthly | PersonalYearly | ProMonthly | ProYearly | TeamMonthly | TeamYearly
datatype billing_interval = Monthly | Yearly

record resolved_price =
  sr_priceId :: string
  sr_planCode :: plan_code
  sr_billingInterval :: billing_interval

fun price_key_details :: "stripe_price_key \<Rightarrow> plan_code \<times> billing_interval" where
  "price_key_details PersonalMonthly = (Personal, Monthly)"
| "price_key_details PersonalYearly = (Personal, Yearly)"
| "price_key_details ProMonthly = (Pro, Monthly)"
| "price_key_details ProYearly = (Pro, Yearly)"
| "price_key_details TeamMonthly = (Team, Monthly)"
| "price_key_details TeamYearly = (Team, Yearly)"

fun price_id :: "stripe_price_ids \<Rightarrow> stripe_price_key \<Rightarrow> string" where
  "price_id ids PersonalMonthly = sp_personalMonthly ids"
| "price_id ids PersonalYearly = sp_personalYearly ids"
| "price_id ids ProMonthly = sp_proMonthly ids"
| "price_id ids ProYearly = sp_proYearly ids"
| "price_id ids TeamMonthly = sp_teamMonthly ids"
| "price_id ids TeamYearly = sp_teamYearly ids"

definition price_keys :: "stripe_price_key list" where
  "price_keys = [PersonalMonthly, PersonalYearly, ProMonthly, ProYearly, TeamMonthly, TeamYearly]"

definition resolve_stripe_price :: "stripe_price_ids \<Rightarrow> stripe_price_key \<Rightarrow> resolved_price" where
  "resolve_stripe_price ids key =
     \<lparr> sr_priceId = price_id ids key, sr_planCode = fst (price_key_details key), sr_billingInterval = snd (price_key_details key) \<rparr>"

definition resolve_plan_from_stripe_price_id :: "stripe_price_ids option \<Rightarrow> string option \<Rightarrow> resolved_price option" where
  "resolve_plan_from_stripe_price_id stripePriceIds priceId =
     (case stripePriceIds of
        None \<Rightarrow> None
      | Some ids \<Rightarrow>
          if \<not> truthy priceId then None
          else map_option (resolve_stripe_price ids) (select_first (\<lambda>k. price_id ids k = the priceId) price_keys))"

section \<open>Events\<close>

record checkout_session =
  cs_customer :: "string option"             \<comment> \<open>None: no customer, or an expanded object\<close>
  cs_metadataUser :: "string option"
  cs_clientReferenceId :: "string option"

record stripe_subscription =
  ss_id :: string
  ss_customer :: "string option"
  ss_metadataUser :: "string option"
  ss_status :: string
  ss_trialEnd :: "int option"
  ss_priceId :: "string option"              \<comment> \<open>of the first item\<close>
  ss_currentPeriodStart :: "int option"
  ss_currentPeriodEnd :: "int option"

datatype subscription_ref = SubscriptionId string | SubscriptionObject "string option"

record invoice_line =
  il_subscription :: "string option"
  il_periodEnd :: "int option"

record stripe_invoice =
  si_customer :: "string option"
  si_metadataUser :: "string option"
  si_subscription :: "subscription_ref option"
  si_lines :: "invoice_line list"

datatype stripe_event_data =
    CheckoutCompleted checkout_session
  | SubscriptionCreated stripe_subscription
  | SubscriptionUpdated stripe_subscription
  | SubscriptionDeleted stripe_subscription
  | InvoicePaymentSucceeded stripe_invoice
  | InvoicePaymentFailed stripe_invoice
  | OtherEvent

record stripe_event =
  ev_id :: string
  ev_type :: string
  ev_data :: stripe_event_data

datatype webhook_result = Processed | DuplicateEvent | Ignored

section \<open>Reading the events\<close>

text \<open>\<open>BigInt(s)\<close>: blanks around it, a signed decimal number or an unsigned one with a radix prefix;
  the empty string is 0.\<close>

fun radix_value :: "nat \<Rightarrow> string \<Rightarrow> nat option" where
  "radix_value r s = foldl (\<lambda>acc c. case acc of None \<Rightarrow> None
     | Some n \<Rightarrow> (case hex_value c of None \<Rightarrow> None | Some v \<Rightarrow> if v < r then Some (r * n + v) else None)) (Some 0) s"

definition js_bigint :: "string \<Rightarrow> int option" where
  "js_bigint raw =
     (let s = js_trim raw; number = (\<lambda>r ds. if ds = [] then None else map_option int (radix_value r ds))
      in if s = [] then Some 0
         else if js_starts_with ''0x'' s \<or> js_starts_with ''0X'' s then number 16 (drop 2 s)
         else if js_starts_with ''0o'' s \<or> js_starts_with ''0O'' s then number 8 (drop 2 s)
         else if js_starts_with ''0b'' s \<or> js_starts_with ''0B'' s then number 2 (drop 2 s)
         else if hd s = CHR ''-'' then map_option uminus (number 10 (tl s))
         else if hd s = CHR ''+'' then number 10 (tl s)
         else number 10 s)"

definition parse_telegram_user_id_metadata :: "string option \<Rightarrow> bigint option" where
  "parse_telegram_user_id_metadata value = (case value of None \<Rightarrow> None | Some s \<Rightarrow> js_bigint s)"

definition map_stripe_subscription_status :: "string \<Rightarrow> subscription_status" where
  "map_stripe_subscription_status status =
     (if status = ''trialing'' then Trialing else if status = ''active'' then SubActive else if status = ''paused'' then SubPaused
      else if status = ''past_due'' then PastDue else if status = ''canceled'' then Canceled else if status = ''unpaid'' then Unpaid
      else if status = ''incomplete'' then Incomplete else if status = ''incomplete_expired'' then IncompleteExpired else SubFree)"

definition can_replace_stripe_subscription :: "subscription_status \<Rightarrow> bool" where
  "can_replace_stripe_subscription status \<longleftrightarrow> status \<in> {SubFree, Canceled, IncompleteExpired}"

definition get_invoice_subscription_id :: "stripe_invoice \<Rightarrow> string option" where
  "get_invoice_subscription_id invoice =
     (case si_subscription invoice of None \<Rightarrow> None | Some (SubscriptionId i) \<Rightarrow> Some i | Some (SubscriptionObject i) \<Rightarrow> i)"

definition is_subscription_invoice_line :: "invoice_line \<Rightarrow> string \<Rightarrow> bool" where
  "is_subscription_invoice_line line i \<longleftrightarrow> il_subscription line = Some i"

definition get_invoice_paid_through_at :: "stripe_invoice \<Rightarrow> string option \<Rightarrow> instant option" where
  "get_invoice_paid_through_at invoice stripeSubscriptionId =
     (if \<not> truthy stripeSubscriptionId then None
      else let periodEnds = List.map_filter il_periodEnd (filter (\<lambda>l. is_subscription_invoice_line l (the stripeSubscriptionId)) (si_lines invoice))
           in if periodEnds = [] then None else Some (Max (set periodEnds) * 1000))"

section \<open>Manual billing events\<close>

definition events_by_user_and_reference :: "bigint \<Rightarrow> string \<Rightarrow> db \<Rightarrow> manual_event_row list" where
  "events_by_user_and_reference i ref d =
     filter (\<lambda>b. mb_telegramUserId b = i \<and> mb_paymentReference b = Some ref) (manualBillingEvents d)"

text \<open>\<open>ORDER BY created_at DESC\<close>; equal times in reverse order of insertion.\<close>

definition newest_first :: "manual_event_row list \<Rightarrow> manual_event_row list" where
  "newest_first es = sort_key (\<lambda>b. - mb_createdAt b) (rev es)"

definition list_manual_billing_events_for_user :: "bigint \<Rightarrow> db \<Rightarrow> manual_event_row list" where
  "list_manual_billing_events_for_user i d = newest_first (filter (\<lambda>b. mb_telegramUserId b = i) (manualBillingEvents d))"

definition list_recent_manual_billing_events :: "nat \<Rightarrow> db \<Rightarrow> manual_event_row list" where
  "list_recent_manual_billing_events limit d = take limit (newest_first (manualBillingEvents d))"

definition latest_manual_event :: "bigint \<Rightarrow> db \<Rightarrow> manual_event_row option" where
  "latest_manual_event i d = (case list_manual_billing_events_for_user i d of [] \<Rightarrow> None | b # _ \<Rightarrow> Some b)"

definition find_latest_manual_billing_event_for_user :: "bigint \<Rightarrow> manual_event_row option io" where
  "find_latest_manual_billing_event_for_user i = db_read (latest_manual_event i)"

section \<open>Whose event is it\<close>

definition find_user_for_stripe_subject :: "bigint option \<Rightarrow> string option \<Rightarrow> string option \<Rightarrow> user_row option io" where
  "find_user_for_stripe_subject telegramUserId stripeCustomerId stripeSubscriptionId =
     bind (if truthy stripeSubscriptionId then find_user_by_stripe_subscription_id (the stripeSubscriptionId) else ret None) (\<lambda>bySubscription.
       case bySubscription of
         Some u \<Rightarrow> ret (Some u)
       | None \<Rightarrow>
           bind (if truthy stripeCustomerId then find_user_by_stripe_customer_id (the stripeCustomerId) else ret None) (\<lambda>byCustomer.
             case byCustomer of
               Some u \<Rightarrow> ret (Some u)
             | None \<Rightarrow> (case telegramUserId of None \<Rightarrow> ret None | Some i \<Rightarrow> find_user_by_id i)))"

definition has_stripe_id :: "user_row \<Rightarrow> bool" where
  "has_stripe_id user \<longleftrightarrow> truthy (u_stripeSubscriptionId user) \<or> truthy (u_stripeCustomerId user)"

text \<open>\<open>!= null\<close> and equal.\<close>

definition same_id :: "string option \<Rightarrow> string option \<Rightarrow> bool" where
  "same_id given stored \<longleftrightarrow> given \<noteq> None \<and> stored = given"

definition should_ignore_stripe_update :: "user_row \<Rightarrow> string option \<Rightarrow> string option \<Rightarrow> bool io" where
  "should_ignore_stripe_update user stripeSubscriptionId stripeCustomerId =
     bind (if has_stripe_id user then ret False
           else if u_planCode user \<noteq> Free then ret True
           else bind (find_latest_manual_billing_event_for_user (u_id user)) (\<lambda>latest.
                  ret (case latest of Some b \<Rightarrow> mb_planCode b = Free | None \<Rightarrow> False))) (\<lambda>manual.
       if manual then ret True
       else if has_stripe_id user \<and> (stripeSubscriptionId \<noteq> None \<or> stripeCustomerId \<noteq> None) \<and>
           \<not> (same_id stripeSubscriptionId (u_stripeSubscriptionId user) \<or> same_id stripeCustomerId (u_stripeCustomerId user)) then ret True
       else if u_planCode user \<noteq> Business then ret False
       else if \<not> (truthy stripeSubscriptionId \<and> u_stripeSubscriptionId user = stripeSubscriptionId \<or>
                   truthy stripeCustomerId \<and> u_stripeCustomerId user = stripeCustomerId) then ret True
       else bind (find_latest_manual_billing_event_for_user (u_id user)) (\<lambda>latest.
              ret (case latest of Some b \<Rightarrow> mb_keptStripeLink b | None \<Rightarrow> False)))"

text \<open>The common beginning of three handlers: find the subject, lock its row, check that Stripe may change it.\<close>

definition with_stripe_subject ::
  "bigint option \<Rightarrow> string option \<Rightarrow> string option \<Rightarrow> (user_row \<Rightarrow> webhook_result io) \<Rightarrow> webhook_result io" where
  "with_stripe_subject telegramUserId stripeCustomerId stripeSubscriptionId update =
     bind (find_user_for_stripe_subject telegramUserId stripeCustomerId stripeSubscriptionId) (\<lambda>found.
       case found of
         None \<Rightarrow> ret Ignored
       | Some f \<Rightarrow>
           bind (find_user_by_id_for_update (u_id f)) (\<lambda>locked.
             case locked of
               None \<Rightarrow> ret Ignored
             | Some user \<Rightarrow>
                 bind (should_ignore_stripe_update user stripeSubscriptionId stripeCustomerId) (\<lambda>ignore.
                   if ignore then ret Ignored else update user)))"

section \<open>The handlers\<close>

definition apply_checkout :: "checkout_session \<Rightarrow> webhook_result io" where
  "apply_checkout session =
     with_stripe_subject
       (parse_telegram_user_id_metadata (case cs_metadataUser session of Some m \<Rightarrow> Some m | None \<Rightarrow> cs_clientReferenceId session))
       (cs_customer session) None
       (\<lambda>user. bind (update_user_billing_state (u_id user) (empty_patch\<lparr> bp_stripeCustomerId :=
                 Some (case cs_customer session of Some c \<Rightarrow> Some c | None \<Rightarrow> u_stripeCustomerId user) \<rparr>)) (\<lambda>_. ret Processed))"

definition subscription_patch :: "resolved_price \<Rightarrow> stripe_subscription \<Rightarrow> user_row \<Rightarrow> billing_patch" where
  "subscription_patch plan s user =
     \<lparr> bp_planCode = Some (sr_planCode plan), bp_subscriptionStatus = Some (map_stripe_subscription_status (ss_status s)),
       bp_stripeCustomerId = Some (case ss_customer s of Some c \<Rightarrow> Some c | None \<Rightarrow> u_stripeCustomerId user),
       bp_stripeSubscriptionId = Some (Some (ss_id s)),
       bp_trialEndsAt = Some (map_option (\<lambda>t. t * 1000) (ss_trialEnd s)),
       bp_currentPeriodStart = Some (map_option (\<lambda>t. t * 1000) (ss_currentPeriodStart s)),
       bp_currentPeriodEnd = Some (map_option (\<lambda>t. t * 1000) (ss_currentPeriodEnd s)),
       bp_paidThroughAt = None \<rparr>"

definition apply_stripe_subscription :: "bool \<Rightarrow> stripe_subscription \<Rightarrow> webhook_result io" where
  "apply_stripe_subscription created s =
     with_stripe_subject (parse_telegram_user_id_metadata (ss_metadataUser s)) (ss_customer s) (Some (ss_id s)) (\<lambda>user.
       if truthy (u_stripeSubscriptionId user) \<and> u_stripeSubscriptionId user \<noteq> Some (ss_id s) \<and>
          (\<not> created \<or> \<not> can_replace_stripe_subscription (u_subscriptionStatus user)) then ret Ignored
       else bind (ask stripe_prices) (\<lambda>prices.
            case resolve_plan_from_stripe_price_id prices (ss_priceId s) of
              None \<Rightarrow> ret Ignored
            | Some plan \<Rightarrow> bind (update_user_billing_state (u_id user) (subscription_patch plan s user)) (\<lambda>_. ret Processed)))"

definition apply_stripe_invoice_payment_succeeded :: "stripe_invoice \<Rightarrow> webhook_result io" where
  "apply_stripe_invoice_payment_succeeded invoice =
     (let i = get_invoice_subscription_id invoice
      in with_stripe_subject (parse_telegram_user_id_metadata (si_metadataUser invoice)) (si_customer invoice) i (\<lambda>user.
           if \<not> truthy i \<or> u_stripeSubscriptionId user \<noteq> i then ret Ignored
           else case get_invoice_paid_through_at invoice i of
               None \<Rightarrow> ret Ignored
             | Some p \<Rightarrow> bind (update_user_paid_through_at_if_later (u_id user) p) (\<lambda>_. ret Processed)))"

definition validate_stripe_invoice_subject :: "stripe_invoice \<Rightarrow> webhook_result io" where
  "validate_stripe_invoice_subject invoice =
     (let i = get_invoice_subscription_id invoice
      in bind (find_user_for_stripe_subject (parse_telegram_user_id_metadata (si_metadataUser invoice)) (si_customer invoice) i) (\<lambda>found.
           case found of
             None \<Rightarrow> ret Ignored
           | Some user \<Rightarrow> bind (should_ignore_stripe_update user i (si_customer invoice)) (\<lambda>_. ret Ignored)))"

definition insert_webhook_event :: "string \<Rightarrow> string \<Rightarrow> db \<Rightarrow> bool \<times> db" where
  "insert_webhook_event eventId eventType d =
     (if list_ex (\<lambda>b. bw_eventId b = eventId) (billingWebhookEvents d) then (False, d)
      else (True, d\<lparr> billingWebhookEvents := billingWebhookEvents d @ [\<lparr> bw_eventId = eventId, bw_eventType = eventType \<rparr>] \<rparr>))"

definition record_billing_webhook_event :: "string \<Rightarrow> string \<Rightarrow> bool io" where
  "record_billing_webhook_event eventId eventType = db_stmt (\<lambda>_ d. Inr (insert_webhook_event eventId eventType d))"

fun apply_stripe_event :: "stripe_event_data \<Rightarrow> webhook_result io" where
  "apply_stripe_event (CheckoutCompleted session) = apply_checkout session"
| "apply_stripe_event (SubscriptionCreated s) = apply_stripe_subscription True s"
| "apply_stripe_event (SubscriptionUpdated s) = apply_stripe_subscription False s"
| "apply_stripe_event (SubscriptionDeleted s) = apply_stripe_subscription False s"
| "apply_stripe_event (InvoicePaymentSucceeded invoice) = apply_stripe_invoice_payment_succeeded invoice"
| "apply_stripe_event (InvoicePaymentFailed invoice) = validate_stripe_invoice_subject invoice"
| "apply_stripe_event OtherEvent = ret Ignored"

definition webhook_body :: "stripe_event \<Rightarrow> webhook_result io" where
  "webhook_body ev =
     bind (record_billing_webhook_event (ev_id ev) (ev_type ev)) (\<lambda>inserted.
       if \<not> inserted then ret DuplicateEvent else apply_stripe_event (ev_data ev))"

definition process_stripe_webhook_event :: "stripe_event \<Rightarrow> webhook_result io" where
  "process_stripe_webhook_event ev = transaction (webhook_body ev)"

section \<open>What Stripe may not change\<close>

text \<open>Plans an operator granted: a plan or a return to free without any Stripe id, and a business plan that keeps its Stripe link.\<close>

definition operator_managed :: "user_row \<Rightarrow> db \<Rightarrow> bool" where
  "operator_managed u d \<longleftrightarrow>
     \<not> has_stripe_id u \<and> (u_planCode u \<noteq> Free \<or> (\<exists>b. latest_manual_event (u_id u) d = Some b \<and> mb_planCode b = Free)) \<or>
     u_planCode u = Business \<and> (\<exists>b. latest_manual_event (u_id u) d = Some b \<and> mb_keptStripeLink b)"

lemma quiet_users [quiet_rules]:
  "quiet (find_user_by_id_for_update i)" "quiet (find_latest_manual_billing_event_for_user i)"
  "quiet (find_user_by_stripe_customer_id c)" "quiet (find_user_by_stripe_subscription_id s)"
  "quiet (find_user_for_stripe_subject tg cu su)" "quiet (should_ignore_stripe_update u su cu)"
  unfolding find_user_by_id_for_update_def find_latest_manual_billing_event_for_user_def find_user_by_stripe_customer_id_def
    find_user_by_stripe_subscription_id_def find_user_for_stripe_subject_def should_ignore_stripe_update_def find_user_by_id_def
  by (intro quiet_rules)+

lemma operator_managed_ignored:
  assumes "should_ignore_stripe_update u s c e w = (Inr b, w')" "operator_managed u (w_db w)"
  shows b
  using assms
  by (auto simp: should_ignore_stripe_update_def find_latest_manual_billing_event_for_user_def operator_managed_def bind_Inr db_read_Inr ret_Inr
      split: if_splits)

definition user_kept :: "user_row \<Rightarrow> manual_event_row list \<Rightarrow> db \<Rightarrow> bool" where
  "user_kept u M d \<longleftrightarrow> user_by_id (u_id u) d = Some u \<and> manualBillingEvents d = M"

lemma user_kept_update:
  "user_kept u M d \<Longrightarrow> i \<noteq> u_id u \<Longrightarrow> (\<And>v. u_id (f v) = u_id v) \<Longrightarrow> user_kept u M (update_user i f d)"
  by (auto simp: user_kept_def user_by_id_update) (simp add: update_user_def)

lemma guarded_billing_update:
  assumes "i \<noteq> u_id u"
  shows "guarded e (user_kept u M) G (update_user_billing_state i p)" "guarded e (user_kept u M) G (update_user_paid_through_at_if_later i t)"
  unfolding update_user_billing_state_def update_user_paid_through_at_if_later_def Let_def
  by (intro guarded_rules guarded_stmt; use assms in \<open>auto split: if_splits intro!: user_kept_update\<close>)+

lemma guarded_reads [guarded_rules]:
  "guarded e J G (find_user_for_stripe_subject tg cu su)" "guarded e J G (should_ignore_stripe_update v su cu)"
  unfolding find_user_for_stripe_subject_def find_user_by_stripe_customer_id_def find_user_by_stripe_subscription_id_def find_user_by_id_def
    should_ignore_stripe_update_def find_latest_manual_billing_event_for_user_def
  by (intro guarded_rules)+

lemma guarded_subject:
  assumes managed: "\<And>d. user_kept u M d \<Longrightarrow> operator_managed u d"
    and upd: "\<And>v. u_id v \<noteq> u_id u \<Longrightarrow> guarded e (user_kept u M) G (f v)"
  shows "guarded e (user_kept u M) G (with_stripe_subject i c s f)"
proof -
  have body: "guarded e (user_kept u M) G (bind (should_ignore_stripe_update user s c) (\<lambda>ignore. if ignore then ret Ignored else f user))"
    if kept: "user_kept u M d" "user_by_id j d = Some user" for d j user
  proof (cases "u_id user = u_id u")
    case True
    have "u_id user = j" using kept(2) by (auto simp: user_by_id_def dest: select_first_Some)
    then have "user = u" using True kept by (simp add: user_kept_def)
    show ?thesis
    proof (rule guarded_bind_run [OF guarded_reads(2)])
      fix w b w' assume "user_kept u M (w_db w)" "should_ignore_stripe_update user s c e w = (Inr b, w')"
      then have b using operator_managed_ignored [of u s c e w b w'] managed \<open>user = u\<close> by blast
      then show "guarded e (user_kept u M) G (if b then ret Ignored else f user)" by (simp add: guarded_ret)
    qed
  next
    case False
    then show ?thesis by (intro guarded_rules upd)
  qed
  have locked: "guarded e (user_kept u M) G (bind (find_user_by_id_for_update j) (\<lambda>locked. case locked of None \<Rightarrow> ret Ignored
      | Some user \<Rightarrow> bind (should_ignore_stripe_update user s c) (\<lambda>ignore. if ignore then ret Ignored else f user)))" for j
    unfolding find_user_by_id_for_update_def
    by (rule guarded_bind_read) (auto split: option.split intro!: body guarded_ret)
  show ?thesis
    unfolding with_stripe_subject_def
    by (rule guarded_bind [OF guarded_reads(1)], rule guarded_case_option, rule guarded_ret) (rule locked)
qed

lemma guarded_events:
  assumes "\<And>d. user_kept u M d \<Longrightarrow> operator_managed u d"
  shows "guarded e (user_kept u M) G (apply_stripe_event ed)"
proof (cases ed)
  case (CheckoutCompleted session)
  then show ?thesis by (auto simp: apply_checkout_def intro!: guarded_subject assms guarded_rules guarded_billing_update)
next
  case (SubscriptionCreated s)
  then show ?thesis by (auto simp: apply_stripe_subscription_def intro!: guarded_subject assms guarded_rules guarded_billing_update)
next
  case (SubscriptionUpdated s)
  then show ?thesis by (auto simp: apply_stripe_subscription_def intro!: guarded_subject assms guarded_rules guarded_billing_update)
next
  case (SubscriptionDeleted s)
  then show ?thesis by (auto simp: apply_stripe_subscription_def intro!: guarded_subject assms guarded_rules guarded_billing_update)
next
  case (InvoicePaymentSucceeded inv)
  then show ?thesis
    by (auto simp: apply_stripe_invoice_payment_succeeded_def Let_def intro!: guarded_subject assms guarded_rules guarded_billing_update)
next
  case (InvoicePaymentFailed inv)
  then show ?thesis
    by (auto simp: validate_stripe_invoice_subject_def Let_def intro!: guarded_rules)
qed (simp add: guarded_ret)

text \<open>C20: no webhook, whatever it says and whatever fails while it is processed, changes the row of a user whose plan an
  operator manages: a paid plan or a deliberate return to free without Stripe ids, or a business plan that keeps its Stripe link.\<close>

theorem operator_plans_survive_stripe:
  assumes "user_by_id i (w_db w) = Some u" "operator_managed u (w_db w)"
  shows "user_by_id i (w_db (snd (process_stripe_webhook_event ev e w))) = Some u"
proof -
  have i: "u_id u = i" using assms(1) by (auto simp: user_by_id_def dest: select_first_Some)
  let ?I = "user_kept u (manualBillingEvents (w_db w))"
  have managed: "operator_managed u d" if "?I d" for d
    using assms(2) that by (simp add: operator_managed_def user_kept_def latest_manual_event_def list_manual_billing_events_for_user_def)
  have rec: "guarded e ?I (\<lambda>_. True) (record_billing_webhook_event a b)" for a b
    unfolding record_billing_webhook_event_def
    by (rule guarded_stmt) (auto simp: insert_webhook_event_def user_kept_def user_by_id_def split: if_splits)
  have "guarded e ?I (\<lambda>_. True) (process_stripe_webhook_event ev)"
    unfolding process_stripe_webhook_event_def webhook_body_def by (intro guarded_rules guarded_events rec managed)
  moreover have "?I (w_db w)" using assms(1) i by (simp add: user_kept_def)
  ultimately have "?I (w_db (snd (process_stripe_webhook_event ev e w)))" by (simp add: guarded_def)
  then show ?thesis by (simp add: user_kept_def i)
qed

section \<open>Paid time\<close>

definition paid_until :: "bigint \<Rightarrow> instant \<Rightarrow> db \<Rightarrow> bool" where
  "paid_until i p d \<longleftrightarrow> (\<exists>u q. user_by_id i d = Some u \<and> u_paidThroughAt u = Some q \<and> p \<le> q)"

lemma paid_until_update:
  assumes "paid_until i p d" "\<And>u. u_id (f u) = u_id u"
    and "\<And>u q. u_paidThroughAt u = Some q \<Longrightarrow> \<exists>r. u_paidThroughAt (f u) = Some r \<and> q \<le> r"
  shows "paid_until i p (update_user j f d)"
proof -
  obtain u q where u: "user_by_id i d = Some u" "u_paidThroughAt u = Some q" "p \<le> q" using assms(1) by (auto simp: paid_until_def)
  obtain r where "u_paidThroughAt (f u) = Some r" "q \<le> r" using assms(3) [OF u(2)] by blast
  with u show ?thesis by (cases "u_id u = j") (auto simp: paid_until_def user_by_id_update assms(2))
qed

lemma later_is_later: "v = Some q \<Longrightarrow> \<exists>r. later_deadline p v = Some r \<and> q \<le> r"
  by (auto simp: later_deadline_def)

lemma paid_until_billing:
  "bp_paidThroughAt p = None \<Longrightarrow> keeps (paid_until i t) (update_user_billing_state j p)"
  "keeps (paid_until i t) (update_user_paid_through_at_if_later j q)"
  unfolding update_user_billing_state_def update_user_paid_through_at_if_later_def Let_def
  by (intro keeps_rules keeps_db_stmt; auto split: if_splits intro!: paid_until_update later_is_later simp: apply_patch_def)+

text \<open>C21: no webhook takes paid time back: a user who is paid up to some time before an event is processed is paid at least
  that far afterwards.\<close>

theorem webhooks_keep_paid_time:
  assumes "user_by_id i (w_db w) = Some u" "u_paidThroughAt u = Some p"
  shows "\<exists>u' p'. user_by_id i (w_db (snd (process_stripe_webhook_event ev e w))) = Some u' \<and> u_paidThroughAt u' = Some p' \<and> p \<le> p'"
proof -
  have rec: "keeps (paid_until i p) (record_billing_webhook_event a b)" for a b
    unfolding record_billing_webhook_event_def
    by (rule keeps_db_stmt) (auto simp: insert_webhook_event_def paid_until_def user_by_id_def split: if_splits)
  have read: "keeps (paid_until i p) (find_user_for_stripe_subject a b c)" "keeps (paid_until i p) (should_ignore_stripe_update v b c)"
    "keeps (paid_until i p) (find_user_by_id_for_update j)" for a b c v j
    unfolding find_user_for_stripe_subject_def find_user_by_stripe_customer_id_def find_user_by_stripe_subscription_id_def find_user_by_id_def
      should_ignore_stripe_update_def find_latest_manual_billing_event_for_user_def find_user_by_id_for_update_def
    by (intro keeps_rules)+
  have upd: "keeps (paid_until i p) (apply_stripe_event ed)" for ed
    unfolding with_stripe_subject_def
    by (cases ed) (auto simp: apply_checkout_def apply_stripe_subscription_def apply_stripe_invoice_payment_succeeded_def with_stripe_subject_def
        validate_stripe_invoice_subject_def Let_def empty_patch_def subscription_patch_def intro!: keeps_rules read paid_until_billing)
  have "keeps (paid_until i p) (process_stripe_webhook_event ev)"
    unfolding process_stripe_webhook_event_def webhook_body_def by (intro keeps_rules rec upd)
  moreover have "paid_until i p (w_db w)" using assms by (auto simp: paid_until_def)
  ultimately show ?thesis unfolding keeps_def paid_until_def by blast
qed

section \<open>Once per event\<close>

definition event_recorded :: "string \<Rightarrow> db \<Rightarrow> bool" where
  "event_recorded i d \<longleftrightarrow> list_ex (\<lambda>b. bw_eventId b = i) (billingWebhookEvents d)"

lemma event_recorded_update [simp]: "event_recorded i (update_user j f d) = event_recorded i d"
  by (simp add: event_recorded_def update_user_def)

lemma recorded_kept:
  "keeps (event_recorded i) (update_user_billing_state j p)" "keeps (event_recorded i) (update_user_paid_through_at_if_later j t)"
  "keeps (event_recorded i) (find_user_for_stripe_subject tg cu su)" "keeps (event_recorded i) (should_ignore_stripe_update v su cu)"
  "keeps (event_recorded i) (find_user_by_id_for_update j)"
  unfolding update_user_billing_state_def update_user_paid_through_at_if_later_def Let_def find_user_for_stripe_subject_def
    find_user_by_stripe_customer_id_def find_user_by_stripe_subscription_id_def find_user_by_id_def
    should_ignore_stripe_update_def find_latest_manual_billing_event_for_user_def find_user_by_id_for_update_def
  by (intro keeps_rules keeps_db_stmt; auto split: if_splits)+

lemma recorded_event_kept: "keeps (event_recorded i) (apply_stripe_event ed)"
  by (cases ed) (auto simp: apply_checkout_def apply_stripe_subscription_def apply_stripe_invoice_payment_succeeded_def with_stripe_subject_def
      validate_stripe_invoice_subject_def Let_def intro!: keeps_rules recorded_kept)

lemma open_webhook: "stays_open (webhook_body ev)"
proof -
  have o: "stays_open (update_user_billing_state j p)" "stays_open (update_user_paid_through_at_if_later j t)"
    "stays_open (find_user_for_stripe_subject tg cu su)" "stays_open (should_ignore_stripe_update v su cu)"
    "stays_open (find_user_by_id_for_update j)" for j p t tg cu su v
    unfolding update_user_billing_state_def update_user_paid_through_at_if_later_def Let_def find_user_for_stripe_subject_def
      find_user_by_stripe_customer_id_def find_user_by_stripe_subscription_id_def find_user_by_id_def
      should_ignore_stripe_update_def find_latest_manual_billing_event_for_user_def find_user_by_id_for_update_def
    by (intro open_rules)+
  have "stays_open (apply_stripe_event ed)" for ed
    by (cases ed) (auto simp: apply_checkout_def apply_stripe_subscription_def apply_stripe_invoice_payment_succeeded_def with_stripe_subject_def
        validate_stripe_invoice_subject_def Let_def intro!: open_rules o)
  then show ?thesis unfolding webhook_body_def record_billing_webhook_event_def by (intro open_rules)
qed

lemma recorded_by_body: "webhook_body ev e w = (Inr r, w') \<Longrightarrow> event_recorded (ev_id ev) (w_db w')"
proof -
  assume b: "webhook_body ev e w = (Inr r, w')"
  obtain ins w1 where i: "record_billing_webhook_event (ev_id ev) (ev_type ev) e w = (Inr ins, w1)"
    and k: "(if \<not> ins then ret DuplicateEvent else apply_stripe_event (ev_data ev)) e w1 = (Inr r, w')"
    using b unfolding webhook_body_def bind_Inr by (elim exE conjE)
  have r1: "event_recorded (ev_id ev) (w_db w1)"
    using i by (auto simp: record_billing_webhook_event_def db_stmt_Inr insert_webhook_event_def event_recorded_def list_ex_iff split: if_splits)
  then show ?thesis using k keepsD [OF recorded_event_kept r1, of "ev_data ev" e] by (auto simp: ret_Inr split: if_splits)
qed

lemma inside_webhook: "inside (webhook_body ev)"
proof -
  have o: "inside (update_user_billing_state j p)" "inside (update_user_paid_through_at_if_later j t)"
    "inside (find_user_for_stripe_subject tg cu su)" "inside (should_ignore_stripe_update v su cu)"
    "inside (find_user_by_id_for_update j)" for j p t tg cu su v
    unfolding update_user_billing_state_def update_user_paid_through_at_if_later_def Let_def find_user_for_stripe_subject_def
      find_user_by_stripe_customer_id_def find_user_by_stripe_subscription_id_def find_user_by_id_def
      should_ignore_stripe_update_def find_latest_manual_billing_event_for_user_def find_user_by_id_for_update_def
    by (intro inside_rules)+
  have "inside (apply_stripe_event ed)" for ed
    by (cases ed) (auto simp: apply_checkout_def apply_stripe_subscription_def apply_stripe_invoice_payment_succeeded_def with_stripe_subject_def
        validate_stripe_invoice_subject_def Let_def intro!: inside_rules o)
  then show ?thesis unfolding webhook_body_def record_billing_webhook_event_def by (intro inside_rules)
qed

text \<open>A run that returns, or changes anything, has recorded its event.\<close>

lemma processed_recorded:
  assumes "process_stripe_webhook_event ev e w = (r, w')"
  shows "(\<exists>a. r = Inr a) \<or> w_db w' \<noteq> w_db w \<Longrightarrow> event_recorded (ev_id ev) (w_db w')"
  using assms unfolding process_stripe_webhook_event_def
proof (cases rule: transaction_inside [OF _ inside_webhook, consumes 1])
  case 1
  assume "(\<exists>a. r = Inr a) \<or> w_db w' \<noteq> w_db w"
  with 1 obtain a w2 where "webhook_body ev e (begin_tx e w) = (Inr a, w2)" "w_tx w2 = Aborted" by auto
  with stays_openD [OF open_webhook] show ?thesis by fastforce
next
  case (2 a w2)
  then show ?thesis using recorded_by_body [OF 2(1)] by simp
qed

lemma recorded_body:
  assumes "event_recorded (ev_id ev) (w_db w)" "webhook_body ev e w = (r, w')"
  shows "w_db w' = w_db w \<and> (\<forall>a. r = Inr a \<longrightarrow> a = DuplicateEvent)"
proof -
  have "insert_webhook_event (ev_id ev) x (w_db w) = (False, w_db w)" for x using assms(1) by (simp add: insert_webhook_event_def event_recorded_def)
  then show ?thesis
    using assms(2) by (auto simp: webhook_body_def record_billing_webhook_event_def bind_def db_stmt_def Let_def ret_def
        split: prod.splits sum.splits fault.splits if_splits)
qed

text \<open>C22: Stripe delivers an event as often as it likes: when it is processed twice, at most one of the runs changes the database,
  and once a run has answered, a later run of the event answers ``duplicate'' or fails, and changes nothing.\<close>

theorem stripe_event_applied_once:
  assumes "process_stripe_webhook_event ev e w = (r, w1)" "process_stripe_webhook_event ev e2 w1 = (r2, w2)"
  shows "(w_db w1 = w_db w \<or> w_db w2 = w_db w1) \<and>
    (\<forall>a. r = Inr a \<longrightarrow> w_db w2 = w_db w1 \<and> (\<forall>b. r2 = Inr b \<longrightarrow> b = DuplicateEvent))"
proof (cases "(\<exists>a. r = Inr a) \<or> w_db w1 \<noteq> w_db w")
  case True
  have rec: "event_recorded (ev_id ev) (w_db w1)" using processed_recorded [OF assms(1)] True by blast
  have "w_db w2 = w_db w1 \<and> (\<forall>b. r2 = Inr b \<longrightarrow> b = DuplicateEvent)"
    using assms(2) unfolding process_stripe_webhook_event_def
  proof (cases rule: transaction_inside [OF _ inside_webhook, consumes 1])
    case 1
    then show ?thesis using recorded_body [of ev "begin_tx e2 w1" e2] rec by auto
  next
    case (2 a w3)
    then show ?thesis using recorded_body [OF _ 2(1)] rec by auto
  qed
  then show ?thesis by blast
qed auto

section \<open>Concrete events\<close>

definition stripe_user :: user_row where
  "stripe_user = (new_user 0 7 None None True)\<lparr> u_planCode := Pro, u_subscriptionStatus := SubActive, u_paidThroughAt := Some 50 \<rparr>"

definition stripe_db :: db where "stripe_db = empty_db\<lparr> users := [stripe_user] \<rparr>"

definition sample_event :: stripe_event where
  "sample_event = \<lparr> ev_id = ''evt_1'', ev_type = ''checkout.session.completed'',
     ev_data = CheckoutCompleted \<lparr> cs_customer = Some ''cus_1'', cs_metadataUser = Some ''7'', cs_clientReferenceId = None \<rparr> \<rparr>"

theorem operator_plans_survive_stripe_witness:
  "user_by_id 7 (w_db (snd (process_stripe_webhook_event sample_event calm_env (start_world stripe_db)))) = Some stripe_user"
  by (rule operator_plans_survive_stripe)
    (simp_all add: stripe_db_def stripe_user_def new_user_def user_by_id_def operator_managed_def has_stripe_id_def)

theorem webhooks_keep_paid_time_witness:
  "\<exists>u' p'. user_by_id 7 (w_db (snd (process_stripe_webhook_event sample_event calm_env (start_world stripe_db)))) = Some u' \<and>
     u_paidThroughAt u' = Some p' \<and> 50 \<le> p'"
  by (rule webhooks_keep_paid_time [where u = stripe_user]) (simp_all add: stripe_db_def stripe_user_def new_user_def user_by_id_def)

theorem stripe_event_applied_once_witness:
  "\<exists>r w1 r2 w2. process_stripe_webhook_event sample_event calm_env (start_world stripe_db) = (r, w1) \<and>
     process_stripe_webhook_event sample_event calm_env w1 = (r2, w2) \<and> (w_db w1 = stripe_db \<or> w_db w2 = w_db w1)"
proof -
  obtain r w1 where a: "process_stripe_webhook_event sample_event calm_env (start_world stripe_db) = (r, w1)" by fastforce
  obtain r2 w2 where b: "process_stripe_webhook_event sample_event calm_env w1 = (r2, w2)" by fastforce
  show ?thesis using stripe_event_applied_once [OF a b] a b by auto
qed

end
