(* ===== verification/ManualGrants.thy ===== *)
theory ManualGrants
  imports Webhooks IsoTime
begin

text \<open>
  Plans granted by an operator (\<open>src/billing/manual.ts\<close>) and the writes of the manual billing events
  (\<open>src/db/repos/manualBillingEvents.ts\<close>).  Plan and status arrive as text and are validated; a payment
  reference identifies a grant.
\<close>

section \<open>Input and result\<close>

record grant_input =
  gi_telegramUserId :: bigint
  gi_planCode :: string
  gi_subscriptionStatus :: string
  gi_paidThroughAt :: "instant option"
  gi_paymentReference :: string
  gi_note :: "string option"
  gi_keptStripeLink :: bool
  gi_operatorSource :: string
  gi_expectedUpdatedAt :: "string option"

datatype grant_error =
    GrantUserNotFound | InvalidPlan | InvalidStatus | FreeStatusRequired | PaidThroughRequired | KeepStripeLinkNotAllowed
  | FreeStatusNotAllowedForPaidPlan | ConcurrentUpdate | PaymentReferenceRequired | PaymentReferenceConflict
  | PaymentReferenceTooLong | NoteTooLong | PaidThroughNotAllowed | CanceledNotAllowedForBusiness

record grant_summary =
  gs_telegramUserId :: string
  gs_planCode :: string
  gs_subscriptionStatus :: string
  gs_paidThroughAt :: "string option"
  gs_paymentReference :: "string option"
  gs_note :: "string option"
  gs_keptStripeLink :: bool
  gs_manualBillingEventId :: uuid
  gs_operatorSource :: string

datatype grant_result = Granted grant_summary | GrantRepeated grant_summary bool | GrantRefused grant_error

fun plan_name :: "plan_code \<Rightarrow> string" where
  "plan_name Free = ''free''" | "plan_name Personal = ''personal''" | "plan_name Pro = ''pro''"
| "plan_name Team = ''team''" | "plan_name Business = ''business''"

definition plan_of_name :: "string \<Rightarrow> plan_code option" where
  "plan_of_name s = select_first (\<lambda>p. plan_name p = s) [Free, Personal, Pro, Team, Business]"

fun manual_status_name :: "subscription_status \<Rightarrow> string" where
  "manual_status_name SubFree = ''free''" | "manual_status_name SubActive = ''active''" | "manual_status_name Canceled = ''canceled''"
| "manual_status_name _ = []"

definition status_of_name :: "string \<Rightarrow> subscription_status option" where
  "status_of_name s = select_first (\<lambda>x. manual_status_name x = s) [SubFree, SubActive, Canceled]"

definition normalize_plan_input :: "grant_input \<Rightarrow> grant_input" where
  "normalize_plan_input inp = inp\<lparr> gi_paymentReference := js_trim (gi_paymentReference inp),
     gi_note := (case gi_note inp of None \<Rightarrow> None | Some n \<Rightarrow> if js_trim n = [] then None else Some (js_trim n)) \<rparr>"

text \<open>None: the input is valid.\<close>

definition validate_plan_input :: "grant_input \<Rightarrow> grant_error option" where
  "validate_plan_input inp =
     (if plan_of_name (gi_planCode inp) = None then Some InvalidPlan
      else if status_of_name (gi_subscriptionStatus inp) = None then Some InvalidStatus
      else if gi_planCode inp = ''free'' \<and> gi_subscriptionStatus inp \<noteq> ''free'' then Some FreeStatusRequired
      else if gi_planCode inp \<noteq> ''free'' \<and> gi_subscriptionStatus inp = ''free'' then Some FreeStatusNotAllowedForPaidPlan
      else if gi_keptStripeLink inp \<and> gi_planCode inp \<noteq> ''business'' then Some KeepStripeLinkNotAllowed
      else if gi_planCode inp \<in> {''personal'', ''pro'', ''team''} \<and> gi_subscriptionStatus inp = ''active'' \<and> gi_paidThroughAt inp = None
        then Some PaidThroughRequired
      else if gi_subscriptionStatus inp = ''canceled'' \<and> gi_paidThroughAt inp \<noteq> None then Some PaidThroughNotAllowed
      else if gi_planCode inp = ''business'' \<and> gi_subscriptionStatus inp = ''canceled'' then Some CanceledNotAllowedForBusiness
      else if gi_paymentReference inp = [] then Some PaymentReferenceRequired
      else if 255 < length (gi_paymentReference inp) then Some PaymentReferenceTooLong
      else if (case gi_note inp of None \<Rightarrow> False | Some n \<Rightarrow> 1000 < length n) then Some NoteTooLong
      else None)"

definition granted_plan :: "grant_input \<Rightarrow> plan_code" where
  "granted_plan inp = the (plan_of_name (gi_planCode inp))"

definition granted_status :: "grant_input \<Rightarrow> subscription_status" where
  "granted_status inp = the (status_of_name (gi_subscriptionStatus inp))"

definition build_billing_patch :: "grant_input \<Rightarrow> billing_patch" where
  "build_billing_patch inp =
     (let patch = empty_patch\<lparr> bp_planCode := Some (granted_plan inp), bp_subscriptionStatus := Some (granted_status inp),
            bp_paidThroughAt := Some (gi_paidThroughAt inp) \<rparr>
      in if gi_keptStripeLink inp then patch
         else patch\<lparr> bp_stripeCustomerId := Some None, bp_stripeSubscriptionId := Some None, bp_trialEndsAt := Some None,
                bp_currentPeriodStart := Some None, bp_currentPeriodEnd := Some None \<rparr>)"

definition summarize :: "grant_input \<Rightarrow> uuid \<Rightarrow> grant_summary" where
  "summarize inp i = \<lparr> gs_telegramUserId = int_string (gi_telegramUserId inp), gs_planCode = gi_planCode inp,
     gs_subscriptionStatus = gi_subscriptionStatus inp, gs_paidThroughAt = map_option iso_timestamp (gi_paidThroughAt inp),
     gs_paymentReference = Some (gi_paymentReference inp), gs_note = gi_note inp, gs_keptStripeLink = gi_keptStripeLink inp,
     gs_manualBillingEventId = i, gs_operatorSource = gi_operatorSource inp \<rparr>"

definition summarize_event :: "manual_event_row \<Rightarrow> grant_summary" where
  "summarize_event b = \<lparr> gs_telegramUserId = int_string (mb_telegramUserId b), gs_planCode = plan_name (mb_planCode b),
     gs_subscriptionStatus = manual_status_name (mb_subscriptionStatus b), gs_paidThroughAt = map_option iso_timestamp (mb_paidThroughAt b),
     gs_paymentReference = mb_paymentReference b, gs_note = mb_note b, gs_keptStripeLink = mb_keptStripeLink b,
     gs_manualBillingEventId = mb_id b, gs_operatorSource = mb_operatorSource b \<rparr>"

definition payload_matches_event :: "manual_event_row \<Rightarrow> grant_input \<Rightarrow> bool" where
  "payload_matches_event b inp \<longleftrightarrow> plan_name (mb_planCode b) = gi_planCode inp \<and>
     manual_status_name (mb_subscriptionStatus b) = gi_subscriptionStatus inp \<and>
     mb_paidThroughAt b = gi_paidThroughAt inp \<and> mb_keptStripeLink b = gi_keptStripeLink inp \<and> mb_note b = gi_note inp"

definition user_matches_stored_event :: "user_row \<Rightarrow> manual_event_row \<Rightarrow> bool" where
  "user_matches_stored_event u b \<longleftrightarrow> u_planCode u = mb_planCode b \<and> u_subscriptionStatus u = mb_subscriptionStatus b \<and>
     u_paidThroughAt u = mb_paidThroughAt b \<and>
     (\<not> mb_keptStripeLink b \<longrightarrow> u_stripeCustomerId u = None \<and> u_stripeSubscriptionId u = None \<and> u_trialEndsAt u = None \<and>
        u_currentPeriodStart u = None \<and> u_currentPeriodEnd u = None)"

section \<open>Events\<close>

definition find_manual_billing_event_by_user_and_payment_reference :: "bigint \<Rightarrow> string \<Rightarrow> manual_event_row option io" where
  "find_manual_billing_event_by_user_and_payment_reference i ref =
     bind (db_read (\<lambda>d. take 2 (newest_first (events_by_user_and_reference i ref d)))) (\<lambda>rows.
       if 1 < length rows then throw (Thrown ''multiple events found'') else ret (js_nth rows 0))"

definition find_any_manual_billing_event_by_payment_reference :: "string \<Rightarrow> manual_event_row option io" where
  "find_any_manual_billing_event_by_payment_reference ref =
     bind (db_read (\<lambda>d. take 2 (filter (\<lambda>b. mb_paymentReference b = Some ref) (manualBillingEvents d)))) (\<lambda>rows.
       if 1 < length rows then throw (Thrown ''multiple events found'') else ret (js_nth rows 0))"

definition new_manual_event :: "uuid \<Rightarrow> instant \<Rightarrow> grant_input \<Rightarrow> manual_event_row" where
  "new_manual_event i t inp =
     \<lparr> mb_id = i, mb_telegramUserId = gi_telegramUserId inp, mb_planCode = granted_plan inp, mb_subscriptionStatus = granted_status inp,
       mb_paidThroughAt = gi_paidThroughAt inp, mb_paymentReference = Some (gi_paymentReference inp), mb_note = gi_note inp,
       mb_keptStripeLink = gi_keptStripeLink inp, mb_operatorSource = gi_operatorSource inp, mb_createdAt = t \<rparr>"

text \<open>Both unique indexes are on the reference, so an equal reference is the only conflict.\<close>

definition insert_manual_event :: "manual_event_row \<Rightarrow> db \<Rightarrow> manual_event_row option \<times> db" where
  "insert_manual_event b d =
     (if list_ex (\<lambda>c. mb_paymentReference c = mb_paymentReference b) (manualBillingEvents d) then (None, d)
      else (Some b, d\<lparr> manualBillingEvents := manualBillingEvents d @ [b] \<rparr>))"

definition find_or_create_manual_billing_event :: "grant_input \<Rightarrow> (manual_event_row \<times> bool) io" where
  "find_or_create_manual_billing_event inp =
     bind random_uuid (\<lambda>i.
     bind (db_stmt (\<lambda>t d. Inr (insert_manual_event (new_manual_event i t inp) d))) (\<lambda>inserted.
       case inserted of
         Some b \<Rightarrow> ret (b, True)
       | None \<Rightarrow>
           bind (find_manual_billing_event_by_user_and_payment_reference (gi_telegramUserId inp) (gi_paymentReference inp)) (\<lambda>byUser.
             case byUser of
               Some b \<Rightarrow> ret (b, False)
             | None \<Rightarrow>
                 bind (find_any_manual_billing_event_by_payment_reference (gi_paymentReference inp)) (\<lambda>byPayref.
                   case byPayref of
                     Some b \<Rightarrow> ret (b, False)
                   | None \<Rightarrow> throw (Thrown ''findOrCreateManualBillingEvent: race condition lost'')))))"

section \<open>The grant\<close>

text \<open>An event with the reference exists: it must be this grant; then the user is brought into its state.\<close>

definition repeat_grant :: "grant_input \<Rightarrow> user_row \<Rightarrow> manual_event_row \<Rightarrow> grant_result io" where
  "repeat_grant inp user b =
     (if \<not> payload_matches_event b inp then ret (GrantRefused PaymentReferenceConflict)
      else if user_matches_stored_event user b then ret (GrantRepeated (summarize_event b) False)
      else bind (update_user_billing_state (gi_telegramUserId inp) (build_billing_patch inp)) (\<lambda>_.
           ret (GrantRepeated (summarize_event b) True)))"

text \<open>The callback of the transaction, lines 255 to 332.\<close>

definition grant_body :: "grant_input \<Rightarrow> grant_result io" where
  "grant_body inp =
     bind (find_or_create_user_by_id (gi_telegramUserId inp)) (\<lambda>_.
     bind advisory_lock (\<lambda>_.
     bind (find_user_by_id_for_update (gi_telegramUserId inp)) (\<lambda>found.
       case found of
         None \<Rightarrow> ret (GrantRefused GrantUserNotFound)
       | Some user \<Rightarrow>
           bind (find_manual_billing_event_by_user_and_payment_reference (gi_telegramUserId inp) (gi_paymentReference inp)) (\<lambda>existing.
             case existing of
               Some b \<Rightarrow> repeat_grant inp user b
             | None \<Rightarrow>
                 bind (find_or_create_manual_billing_event inp) (\<lambda>(b, created).
                   if \<not> created then
                     (if mb_telegramUserId b \<noteq> gi_telegramUserId inp then ret (GrantRefused PaymentReferenceConflict)
                      else repeat_grant inp user b)
                   else if (case gi_expectedUpdatedAt inp of None \<Rightarrow> False | Some s \<Rightarrow> iso_timestamp (u_updatedAt user) \<noteq> s)
                   then throw (Raised ''ConcurrentUpdateSignal'')
                   else bind (update_user_billing_state (gi_telegramUserId inp) (build_billing_patch inp)) (\<lambda>_.
                        ret (Granted (summarize inp (mb_id b)))))))))"

definition grant_manual_user_plan :: "grant_input \<Rightarrow> grant_result io" where
  "grant_manual_user_plan rawInput =
     (let inp = normalize_plan_input rawInput
      in case validate_plan_input inp of
           Some code \<Rightarrow> ret (GrantRefused code)
         | None \<Rightarrow> catch (transaction (grant_body inp))
             (\<lambda>err. if err = Raised ''ConcurrentUpdateSignal'' then ret (GrantRefused ConcurrentUpdate) else throw err))"

section \<open>What a grant does\<close>

lemma plan_of_name_plan [simp]: "plan_of_name (plan_name p) = Some p"
  by (cases p) (simp_all add: plan_of_name_def)

lemma plan_of_name_Some: "plan_of_name s = Some p \<Longrightarrow> plan_name p = s"
  by (auto simp: plan_of_name_def split: if_splits)

lemma status_of_name_Some: "status_of_name s = Some x \<Longrightarrow> manual_status_name x = s \<and> s \<noteq> []"
  by (auto simp: status_of_name_def split: if_splits)

lemma status_of_manual_name: "manual_status_name x \<noteq> [] \<Longrightarrow> status_of_name (manual_status_name x) = Some x"
  by (cases x) (simp_all add: status_of_name_def)

lemma validD:
  assumes "validate_plan_input inp = None"
  shows "plan_name (granted_plan inp) = gi_planCode inp" "manual_status_name (granted_status inp) = gi_subscriptionStatus inp"
    "gi_subscriptionStatus inp \<noteq> []"
proof -
  obtain p x where "plan_of_name (gi_planCode inp) = Some p" "status_of_name (gi_subscriptionStatus inp) = Some x"
    using assms by (auto simp: validate_plan_input_def split: if_splits)
  then show "plan_name (granted_plan inp) = gi_planCode inp" "manual_status_name (granted_status inp) = gi_subscriptionStatus inp"
    "gi_subscriptionStatus inp \<noteq> []"
    using plan_of_name_Some status_of_name_Some by (auto simp: granted_plan_def granted_status_def)
qed

lemma payload_determines:
  assumes "payload_matches_event b inp" "validate_plan_input inp = None"
  shows "mb_planCode b = granted_plan inp" "mb_subscriptionStatus b = granted_status inp"
proof -
  have "plan_of_name (gi_planCode inp) = Some (mb_planCode b)" using assms(1) plan_of_name_plan [of "mb_planCode b"] by (simp add: payload_matches_event_def)
  then show "mb_planCode b = granted_plan inp" by (simp add: granted_plan_def)
  have "status_of_name (gi_subscriptionStatus inp) = Some (mb_subscriptionStatus b)"
    using assms(1) status_of_manual_name [of "mb_subscriptionStatus b"] validD(3) [OF assms(2)] by (simp add: payload_matches_event_def)
  then show "mb_subscriptionStatus b = granted_status inp" by (simp add: granted_status_def)
qed

lemma new_event_payload: "validate_plan_input inp = None \<Longrightarrow> payload_matches_event (new_manual_event i t inp) inp"
  using validD [of inp] by (simp add: payload_matches_event_def new_manual_event_def)

lemma patched_matches:
  assumes "payload_matches_event b inp" "validate_plan_input inp = None"
  shows "user_matches_stored_event (apply_patch (build_billing_patch inp) t u) b"
  using assms(1) payload_determines [OF assms]
  by (auto simp: user_matches_stored_event_def apply_patch_def build_billing_patch_def empty_patch_def Let_def payload_matches_event_def)

text \<open>Another database for the user with id \<open>i\<close> only.\<close>

definition only_user :: "bigint \<Rightarrow> db \<Rightarrow> db \<Rightarrow> bool" where
  "only_user i d d' \<longleftrightarrow> (\<forall>j. j \<noteq> i \<longrightarrow> user_by_id j d' = user_by_id j d)"

definition users_kept :: "db \<Rightarrow> db \<Rightarrow> bool" where
  "users_kept d d' \<longleftrightarrow> (\<forall>j u. user_by_id j d = Some u \<longrightarrow> user_by_id j d' = Some u)"

lemma user_by_id_append: "user_by_id j (d\<lparr> users := users d @ [r] \<rparr>) = (case user_by_id j d of Some u \<Rightarrow> Some u | None \<Rightarrow> if u_id r = j then Some r else None)"
  by (simp add: user_by_id_def select_first_append split: option.split)

lemma find_or_create_user_Inr:
  assumes "find_or_create_user_by_id i e w = (Inr u, w')"
  shows "only_user i (w_db w) (w_db w') \<and> users_kept (w_db w) (w_db w') \<and> manualBillingEvents (w_db w') = manualBillingEvents (w_db w)"
proof -
  obtain ex w1 where f: "find_user_by_id i e w = (Inr ex, w1)" and k: "(case ex of Some u \<Rightarrow> ret u
       | None \<Rightarrow> bind (db_stmt (\<lambda>t d. Inr (insert_user_unless_present (new_user t i None None False) d))) (\<lambda>created.
             case created of Some u \<Rightarrow> ret u
             | None \<Rightarrow> bind (find_user_by_id i) (\<lambda>raced. case raced of None \<Rightarrow> throw (Thrown ''findOrCreateUserById: no row returned'') | Some u \<Rightarrow> ret u))) e w1 = (Inr u, w')"
    using assms unfolding find_or_create_user_by_id_def bind_Inr [where m = "find_user_by_id i"] by (elim exE conjE)
  have w1: "w_db w1 = w_db w" "ex = user_by_id i (w_db w)" using f by (auto simp: find_user_by_id_def db_read_Inr)
  show ?thesis
  proof (cases ex)
    case (Some v)
    have "w' = w1" using k unfolding Some option.case by (simp add: ret_Inr)
    with w1(1) show ?thesis by (simp add: only_user_def users_kept_def)
  next
    case None
    then obtain t where "w_db w' = (w_db w)\<lparr> users := users (w_db w) @ [new_user t i None None False] \<rparr>"
      using k w1 unfolding None option.case by (auto simp: bind_Inr db_stmt_Inr insert_user_unless_present_def ret_Inr new_user_def split: option.splits if_splits)
    then show ?thesis by (auto simp: only_user_def users_kept_def user_by_id_append new_user_def split: option.splits)
  qed
qed

lemma js_nth_take2: "\<not> 1 < length (take 2 xs) \<Longrightarrow> js_nth (take 2 xs) 0 = (case xs of [] \<Rightarrow> None | x # _ \<Rightarrow> Some x) \<and> length xs \<le> 1"
  by (cases xs; cases "tl xs") (auto simp: js_nth_def)

lemma find_event_Inr:
  assumes "find_manual_billing_event_by_user_and_payment_reference i ref e w = (Inr r, w')"
  shows "w_db w' = w_db w \<and> w_tx w' = w_tx w \<and> (case r of
      Some b \<Rightarrow> b \<in> set (manualBillingEvents (w_db w)) \<and> mb_telegramUserId b = i \<and> mb_paymentReference b = Some ref
    | None \<Rightarrow> \<forall>b\<in>set (manualBillingEvents (w_db w)). mb_telegramUserId b = i \<longrightarrow> mb_paymentReference b \<noteq> Some ref)"
proof -
  let ?es = "newest_first (events_by_user_and_reference i ref (w_db w))"
  have r: "r = (case ?es of [] \<Rightarrow> None | x # _ \<Rightarrow> Some x)" "w_db w' = w_db w" "w_tx w' = w_tx w"
    using assms js_nth_take2 [of ?es]
    by (auto simp: find_manual_billing_event_by_user_and_payment_reference_def bind_Inr db_read_Inr ret_Inr throw_def split: if_splits)
  have es: "set ?es = {b \<in> set (manualBillingEvents (w_db w)). mb_telegramUserId b = i \<and> mb_paymentReference b = Some ref}"
    by (auto simp: newest_first_def events_by_user_and_reference_def)
  show ?thesis
  proof (cases ?es)
    case Nil
    then have "set ?es = {}" by simp
    with es r Nil show ?thesis by auto
  next
    case (Cons b bs)
    then have "b \<in> set ?es" by simp
    with es r Cons show ?thesis by auto
  qed
qed

lemma find_any_event_Inr:
  assumes "find_any_manual_billing_event_by_payment_reference ref e w = (Inr (Some b), w')"
  shows "w_db w' = w_db w \<and> b \<in> set (manualBillingEvents (w_db w)) \<and> mb_paymentReference b = Some ref"
proof -
  let ?es = "filter (\<lambda>b. mb_paymentReference b = Some ref) (manualBillingEvents (w_db w))"
  have r: "Some b = (case ?es of [] \<Rightarrow> None | x # _ \<Rightarrow> Some x)" "w_db w' = w_db w"
    using assms js_nth_take2 [of ?es]
    by (auto simp: find_any_manual_billing_event_by_payment_reference_def bind_Inr db_read_Inr ret_Inr throw_def split: if_splits)
  then have "b \<in> set ?es" by (cases ?es) auto
  with r show ?thesis by auto
qed

lemma billing_update_Inr:
  assumes "update_user_billing_state i p e w = (Inr r, w')"
  obtains t where "w_db w' = update_user i (apply_patch p t) (w_db w)"
  using assms by (auto simp: update_user_billing_state_def bind_Inr now_Inr db_stmt_Inr Let_def split: if_splits)

lemma patched_user:
  assumes "user_by_id i d = Some user" "payload_matches_event b inp" "validate_plan_input inp = None"
  shows "\<exists>u. user_by_id i (update_user i (apply_patch (build_billing_patch inp) t) d) = Some u \<and> user_matches_stored_event u b"
    "only_user i d (update_user i (apply_patch p t) d)"
proof -
  have "u_id user = i" using assms(1) by (auto simp: user_by_id_def dest: select_first_Some)
  then show "\<exists>u. user_by_id i (update_user i (apply_patch (build_billing_patch inp) t) d) = Some u \<and> user_matches_stored_event u b"
    using assms(1) patched_matches [OF assms(2,3)] by (simp add: user_by_id_update)
  show "only_user i d (update_user i (apply_patch p t) d)"
    unfolding only_user_def
  proof (intro allI impI)
    fix j assume "j \<noteq> i"
    moreover have "u_id u = j" if "user_by_id j d = Some u" for u using that by (auto simp: user_by_id_def dest: select_first_Some)
    ultimately show "user_by_id j (update_user i (apply_patch p t) d) = user_by_id j d"
      by (cases "user_by_id j d") (auto simp: user_by_id_update)
  qed
qed

text \<open>The contract of a grant: what it leaves in the database for each kind of answer.\<close>

definition grant_effect :: "grant_input \<Rightarrow> db \<Rightarrow> db \<Rightarrow> grant_result \<Rightarrow> bool" where
  "grant_effect inp d d' r \<longleftrightarrow> only_user (gi_telegramUserId inp) d d' \<and>
     (case r of
        GrantRefused c \<Rightarrow> manualBillingEvents d' = manualBillingEvents d \<and> users_kept d d'
      | Granted s \<Rightarrow> (\<exists>b u. manualBillingEvents d' = manualBillingEvents d @ [b] \<and>
            mb_telegramUserId b = gi_telegramUserId inp \<and> mb_paymentReference b = Some (gi_paymentReference inp) \<and>
            (\<forall>c\<in>set (manualBillingEvents d). mb_paymentReference c \<noteq> Some (gi_paymentReference inp)) \<and> payload_matches_event b inp \<and>
            user_by_id (gi_telegramUserId inp) d' = Some u \<and> user_matches_stored_event u b)
      | GrantRepeated s reconciled \<Rightarrow> manualBillingEvents d' = manualBillingEvents d \<and>
          (\<exists>b u. b \<in> set (manualBillingEvents d) \<and> mb_telegramUserId b = gi_telegramUserId inp \<and>
            mb_paymentReference b = Some (gi_paymentReference inp) \<and> payload_matches_event b inp \<and>
            user_by_id (gi_telegramUserId inp) d' = Some u \<and> user_matches_stored_event u b))"

lemma only_user_trans: "only_user i d d1 \<Longrightarrow> only_user i d1 d2 \<Longrightarrow> only_user i d d2"
  by (simp add: only_user_def)

lemma users_kept_trans: "users_kept d d1 \<Longrightarrow> users_kept d1 d2 \<Longrightarrow> users_kept d d2"
  by (simp add: users_kept_def)

lemma only_user_refl [simp]: "only_user i d d" "users_kept d d"
  by (simp_all add: only_user_def users_kept_def)

lemma repeat_grant_Inr:
  assumes "repeat_grant inp user b e w = (Inr r, w')" "user_by_id (gi_telegramUserId inp) (w_db w) = Some user" "validate_plan_input inp = None"
    and "b \<in> set (manualBillingEvents (w_db w))" "mb_telegramUserId b = gi_telegramUserId inp" "mb_paymentReference b = Some (gi_paymentReference inp)"
  shows "grant_effect inp (w_db w) (w_db w') r"
proof (cases "payload_matches_event b inp")
  case False
  then show ?thesis using assms(1) by (auto simp: repeat_grant_def ret_Inr grant_effect_def)
next
  case True
  show ?thesis
  proof (cases "user_matches_stored_event user b")
    case True
    then show ?thesis using assms \<open>payload_matches_event b inp\<close> by (auto simp: repeat_grant_def ret_Inr grant_effect_def)
  next
    case False
    then obtain x w1 where u: "update_user_billing_state (gi_telegramUserId inp) (build_billing_patch inp) e w = (Inr x, w1)"
      and r: "r = GrantRepeated (summarize_event b) True" "w' = w1"
      using assms(1) True by (auto simp: repeat_grant_def bind_Inr ret_Inr)
    obtain t where "w_db w1 = update_user (gi_telegramUserId inp) (apply_patch (build_billing_patch inp) t) (w_db w)" using u by (rule billing_update_Inr)
    with patched_user [OF assms(2) True assms(3)] show ?thesis
      using assms(4-6) True r by (auto simp: grant_effect_def update_user_def)
  qed
qed

lemma find_or_create_event_Inr:
  assumes "find_or_create_manual_billing_event inp e w = (Inr (b, created), w')"
    and "\<forall>c\<in>set (manualBillingEvents (w_db w)). mb_telegramUserId c = gi_telegramUserId inp \<longrightarrow> mb_paymentReference c \<noteq> Some (gi_paymentReference inp)"
  shows "if created then (\<exists>i t. b = new_manual_event i t inp) \<and> w_db w' = (w_db w)\<lparr> manualBillingEvents := manualBillingEvents (w_db w) @ [b] \<rparr> \<and>
      (\<forall>c\<in>set (manualBillingEvents (w_db w)). mb_paymentReference c \<noteq> Some (gi_paymentReference inp))
    else w_db w' = w_db w \<and> mb_telegramUserId b \<noteq> gi_telegramUserId inp"
proof -
  obtain i w1 ins w2 where s: "db_stmt (\<lambda>t d. Inr (insert_manual_event (new_manual_event i t inp) d)) e w1 = (Inr ins, w2)"
    and w1: "w_db w1 = w_db w" and k: "(case ins of Some b \<Rightarrow> ret (b, True)
       | None \<Rightarrow> bind (find_manual_billing_event_by_user_and_payment_reference (gi_telegramUserId inp) (gi_paymentReference inp)) (\<lambda>byUser.
             case byUser of Some b \<Rightarrow> ret (b, False)
             | None \<Rightarrow> bind (find_any_manual_billing_event_by_payment_reference (gi_paymentReference inp)) (\<lambda>byPayref.
                   case byPayref of Some b \<Rightarrow> ret (b, False)
                   | None \<Rightarrow> throw (Thrown ''findOrCreateManualBillingEvent: race condition lost'')))) e w2 = (Inr (b, created), w')"
    using assms(1) quietD [OF quiet_random_uuid] unfolding find_or_create_manual_billing_event_def bind_Inr [where m = random_uuid] bind_Inr [where m = "db_stmt _"]
    by blast
  obtain t where t: "insert_manual_event (new_manual_event i t inp) (w_db w) = (ins, w_db w2)" using s w1 by (auto simp: db_stmt_Inr)
  show ?thesis
  proof (cases ins)
    case (Some c)
    then have "b = c" "created" "w' = w2" using k by (auto simp: ret_Inr)
    with t Some show ?thesis by (auto simp: insert_manual_event_def list_ex_iff new_manual_event_def split: if_splits)
  next
    case None
    then have d2: "w_db w2 = w_db w" using t by (auto simp: insert_manual_event_def split: if_splits)
    obtain byUser w3 where f: "find_manual_billing_event_by_user_and_payment_reference (gi_telegramUserId inp) (gi_paymentReference inp) e w2 = (Inr byUser, w3)"
      and k2: "(case byUser of Some b \<Rightarrow> ret (b, False)
             | None \<Rightarrow> bind (find_any_manual_billing_event_by_payment_reference (gi_paymentReference inp)) (\<lambda>byPayref.
                   case byPayref of Some b \<Rightarrow> ret (b, False)
                   | None \<Rightarrow> throw (Thrown ''findOrCreateManualBillingEvent: race condition lost''))) e w3 = (Inr (b, created), w')"
      using k unfolding None option.case bind_Inr [where m = "find_manual_billing_event_by_user_and_payment_reference _ _"] by (elim exE conjE)
    have bu: "byUser = None" and d3: "w_db w3 = w_db w" using find_event_Inr [OF f] assms(2) d2 by (auto split: option.splits)
    obtain bp w4 where g: "find_any_manual_billing_event_by_payment_reference (gi_paymentReference inp) e w3 = (Inr bp, w4)"
      and k3: "(case bp of Some b \<Rightarrow> ret (b, False) | None \<Rightarrow> throw (Thrown ''findOrCreateManualBillingEvent: race condition lost'')) e w4 = (Inr (b, created), w')"
      using k2 unfolding bu option.case bind_Inr by (elim exE conjE)
    have "bp = Some b" "\<not> created" "w' = w4" using k3 by (cases bp; auto simp: ret_Inr throw_def)+
    with find_any_event_Inr [of "gi_paymentReference inp" e w3 b w4] g d3 assms(2) show ?thesis by auto
  qed
qed

lemma grant_body_Inr:
  assumes "grant_body inp e w = (Inr r, w')" "validate_plan_input inp = None"
  shows "grant_effect inp (w_db w) (w_db w') r"
proof -
  let ?i = "gi_telegramUserId inp"
  obtain u w1 x w2 found w3 where f: "find_or_create_user_by_id ?i e w = (Inr u, w1)" and l: "advisory_lock e w1 = (Inr x, w2)"
    and fu: "find_user_by_id_for_update ?i e w2 = (Inr found, w3)"
    and k: "(case found of
         None \<Rightarrow> ret (GrantRefused GrantUserNotFound)
       | Some user \<Rightarrow>
           bind (find_manual_billing_event_by_user_and_payment_reference ?i (gi_paymentReference inp)) (\<lambda>existing.
             case existing of
               Some b \<Rightarrow> repeat_grant inp user b
             | None \<Rightarrow>
                 bind (find_or_create_manual_billing_event inp) (\<lambda>(b, created).
                   if \<not> created then
                     (if mb_telegramUserId b \<noteq> ?i then ret (GrantRefused PaymentReferenceConflict)
                      else repeat_grant inp user b)
                   else if (case gi_expectedUpdatedAt inp of None \<Rightarrow> False | Some s \<Rightarrow> iso_timestamp (u_updatedAt user) \<noteq> s)
                   then throw (Raised ''ConcurrentUpdateSignal'')
                   else bind (update_user_billing_state ?i (build_billing_patch inp)) (\<lambda>_.
                        ret (Granted (summarize inp (mb_id b))))))) e w3 = (Inr r, w')"
    using assms(1) unfolding grant_body_def bind_Inr [where m = "find_or_create_user_by_id _"] bind_Inr [where m = advisory_lock]
      bind_Inr [where m = "find_user_by_id_for_update _"] by (elim exE conjE)
  note d1 = find_or_create_user_Inr [OF f]
  have d3: "w_db w3 = w_db w1" "found = user_by_id ?i (w_db w1)"
    using quietD [OF quiet_advisory_lock l] fu by (auto simp: find_user_by_id_for_update_def db_read_Inr)
  have up: "grant_effect inp (w_db w) d' r" if "grant_effect inp (w_db w1) d' r" for d'
    using that d1 only_user_trans [of ?i "w_db w" "w_db w1" d'] users_kept_trans [of "w_db w" "w_db w1" d']
    by (auto simp: grant_effect_def split: grant_result.splits)
  show ?thesis
  proof (cases found)
    case None
    then show ?thesis using k d3 by (intro up) (auto simp: ret_Inr grant_effect_def)
  next
    case (Some user)
    obtain ex w4 where fe: "find_manual_billing_event_by_user_and_payment_reference ?i (gi_paymentReference inp) e w3 = (Inr ex, w4)"
      and k2: "(case ex of
               Some b \<Rightarrow> repeat_grant inp user b
             | None \<Rightarrow>
                 bind (find_or_create_manual_billing_event inp) (\<lambda>(b, created).
                   if \<not> created then
                     (if mb_telegramUserId b \<noteq> ?i then ret (GrantRefused PaymentReferenceConflict)
                      else repeat_grant inp user b)
                   else if (case gi_expectedUpdatedAt inp of None \<Rightarrow> False | Some s \<Rightarrow> iso_timestamp (u_updatedAt user) \<noteq> s)
                   then throw (Raised ''ConcurrentUpdateSignal'')
                   else bind (update_user_billing_state ?i (build_billing_patch inp)) (\<lambda>_.
                        ret (Granted (summarize inp (mb_id b)))))) e w4 = (Inr r, w')"
      using k unfolding Some option.case bind_Inr [where m = "find_manual_billing_event_by_user_and_payment_reference _ _"] by (elim exE conjE)
    note ev = find_event_Inr [OF fe]
    have d4: "w_db w4 = w_db w1" "user_by_id ?i (w_db w4) = Some user" using ev d3 Some by simp_all
    show ?thesis
    proof (cases ex)
      case (Some b)
      have "grant_effect inp (w_db w4) (w_db w') r"
        by (rule repeat_grant_Inr [OF _ d4(2) assms(2)]) (use k2 ev Some d3 d4 in auto)
      then show ?thesis using d4 by (intro up) simp
    next
      case None
      obtain bc w5 where fc: "find_or_create_manual_billing_event inp e w4 = (Inr bc, w5)" and k3: "(case bc of (b, created) \<Rightarrow>
                   if \<not> created then
                     (if mb_telegramUserId b \<noteq> ?i then ret (GrantRefused PaymentReferenceConflict)
                      else repeat_grant inp user b)
                   else if (case gi_expectedUpdatedAt inp of None \<Rightarrow> False | Some s \<Rightarrow> iso_timestamp (u_updatedAt user) \<noteq> s)
                   then throw (Raised ''ConcurrentUpdateSignal'')
                   else bind (update_user_billing_state ?i (build_billing_patch inp)) (\<lambda>_.
                        ret (Granted (summarize inp (mb_id b))))) e w5 = (Inr r, w')"
        using k2 unfolding None option.case bind_Inr [where m = "find_or_create_manual_billing_event _"] by (elim exE conjE)
      obtain b created where bc: "bc = (b, created)" by (cases bc)
      have fresh: "\<forall>c\<in>set (manualBillingEvents (w_db w4)). mb_telegramUserId c = ?i \<longrightarrow> mb_paymentReference c \<noteq> Some (gi_paymentReference inp)"
        using ev None d3 d4 by auto
      note cr = find_or_create_event_Inr [OF fc [unfolded bc] fresh]
      show ?thesis
      proof (cases created)
        case False
        then show ?thesis using k3 bc cr d4 by (intro up) (auto simp: ret_Inr grant_effect_def)
      next
        case True
        then obtain y w6 where u: "update_user_billing_state ?i (build_billing_patch inp) e w5 = (Inr y, w6)"
          and r: "r = Granted (summarize inp (mb_id b))" "w' = w6"
          using k3 bc by (auto simp: bind_Inr ret_Inr throw_def split: if_splits)
        obtain t where t: "w_db w6 = update_user ?i (apply_patch (build_billing_patch inp) t) (w_db w5)" using u by (rule billing_update_Inr)
        obtain j s where b: "b = new_manual_event j s inp" using cr True by auto
        have d5: "w_db w5 = (w_db w1)\<lparr> manualBillingEvents := manualBillingEvents (w_db w1) @ [b] \<rparr>" using cr True d4 by simp
        have pay: "payload_matches_event b inp" using new_event_payload [OF assms(2)] b by simp
        have u5: "user_by_id ?i (w_db w5) = Some user" using d4 d5 by (simp add: user_by_id_def)
        obtain v where v: "user_by_id ?i (w_db w6) = Some v" "user_matches_stored_event v b" using patched_user(1) [OF u5 pay assms(2)] t by auto
        have "only_user ?i (w_db w1) (w_db w5)" by (simp add: d5 only_user_def user_by_id_def)
        then have "only_user ?i (w_db w1) (w_db w6)" using patched_user(2) [OF u5 pay assms(2)] t only_user_trans by metis
        then show ?thesis
          using r t v d5 pay cr True b d4 by (intro up) (auto simp: grant_effect_def update_user_def new_manual_event_def)
      qed
    qed
  qed
qed

lemma open_repeat: "stays_open (repeat_grant inp u b)"
  unfolding repeat_grant_def update_user_billing_state_def by (intro open_rules)

lemma open_find_events: "stays_open (find_manual_billing_event_by_user_and_payment_reference i ref)"
  "stays_open (find_any_manual_billing_event_by_payment_reference ref)"
  unfolding find_manual_billing_event_by_user_and_payment_reference_def find_any_manual_billing_event_by_payment_reference_def
  by (intro open_rules)+

lemma open_find_or_create: "stays_open (find_or_create_user_by_id i)" "stays_open (find_or_create_manual_billing_event inp)"
  unfolding find_or_create_user_by_id_def find_user_by_id_def find_or_create_manual_billing_event_def
  by (intro open_rules open_find_events)+

lemma open_grant_body: "stays_open (grant_body inp)"
  unfolding grant_body_def find_user_by_id_for_update_def update_user_billing_state_def split_def
  by (intro open_rules open_find_events open_find_or_create open_repeat)

lemma transaction_Raised: "transaction m e w = (Inl (Raised s), w') \<Longrightarrow> w_db w' = w_db w"
  by (auto simp: transaction_def Let_def split: prod.splits sum.splits tx_state.splits fault.splits if_splits)

text \<open>A grant that returns has had exactly the effect its answer names.\<close>

lemma grant_returns:
  assumes "grant_manual_user_plan raw e w = (Inr r, w')"
  shows "grant_effect (normalize_plan_input raw) (w_db w) (w_db w') r"
    "(\<forall>c. r \<noteq> GrantRefused c) \<Longrightarrow> validate_plan_input (normalize_plan_input raw) = None"
proof -
  let ?inp = "normalize_plan_input raw"
  have "grant_effect ?inp (w_db w) (w_db w') r \<and> ((\<forall>c. r \<noteq> GrantRefused c) \<longrightarrow> validate_plan_input ?inp = None)"
  proof (cases "validate_plan_input ?inp")
    case (Some code)
    then show ?thesis using assms by (auto simp: grant_manual_user_plan_def ret_Inr grant_effect_def)
  next
    case None
    then consider "transaction (grant_body ?inp) e w = (Inr r, w')"
      | w1 where "transaction (grant_body ?inp) e w = (Inl (Raised ''ConcurrentUpdateSignal''), w1)" "r = GrantRefused ConcurrentUpdate" "w' = w1"
      using assms by (auto simp: grant_manual_user_plan_def catch_Inr ret_Inr throw_def split: if_splits)
    then show ?thesis
    proof cases
      case 1
      obtain w2 where "grant_body ?inp e (begin_tx e w) = (Inr r, w2)" "w_db w' = w_db w2"
        using transaction_open_InrD [OF 1 open_grant_body] by blast
      then show ?thesis using grant_body_Inr [OF _ None, of e "begin_tx e w"] None by simp
    next
      case 2
      then show ?thesis using transaction_Raised [OF 2(1)] by (simp add: grant_effect_def)
    qed
  qed
  then show "grant_effect ?inp (w_db w) (w_db w') r" "(\<forall>c. r \<noteq> GrantRefused c) \<Longrightarrow> validate_plan_input ?inp = None" by simp_all
qed

section \<open>Properties\<close>


text \<open>The billing states a grant may leave: free without a paid status, a paid plan active until a date (business may
  go on without one), or a canceled one without a date; Stripe ids only on a business plan that keeps its link.\<close>

definition granted_state :: "bool \<Rightarrow> user_row \<Rightarrow> bool" where
  "granted_state kept u \<longleftrightarrow>
     (u_planCode u = Free \<longleftrightarrow> u_subscriptionStatus u = SubFree) \<and>
     u_subscriptionStatus u \<in> {SubFree, SubActive, Canceled} \<and>
     (u_planCode u \<in> {Personal, Pro, Team} \<and> u_subscriptionStatus u = SubActive \<longrightarrow> u_paidThroughAt u \<noteq> None) \<and>
     (u_subscriptionStatus u = Canceled \<longrightarrow> u_paidThroughAt u = None \<and> u_planCode u \<noteq> Business) \<and>
     (u_stripeCustomerId u \<noteq> None \<or> u_stripeSubscriptionId u \<noteq> None \<longrightarrow> kept \<and> u_planCode u = Business)"

lemma valid_names:
  assumes "validate_plan_input inp = None" "gi_planCode inp = plan_name p" "gi_subscriptionStatus inp = manual_status_name x"
  shows "(p = Free \<longleftrightarrow> x = SubFree)" "x \<in> {SubFree, SubActive, Canceled}" "gi_keptStripeLink inp \<longrightarrow> p = Business"
    "p \<in> {Personal, Pro, Team} \<and> x = SubActive \<longrightarrow> gi_paidThroughAt inp \<noteq> None"
    "x = Canceled \<longrightarrow> gi_paidThroughAt inp = None \<and> p \<noteq> Business"
  using assms by (cases p; cases x; simp add: validate_plan_input_def status_of_name_def split: if_splits)+

lemma granted_state_of_event:
  assumes "payload_matches_event b inp" "validate_plan_input inp = None" "user_matches_stored_event u b"
  shows "granted_state (gi_keptStripeLink inp) u"
proof -
  have "gi_planCode inp = plan_name (mb_planCode b)" "gi_subscriptionStatus inp = manual_status_name (mb_subscriptionStatus b)"
    "mb_keptStripeLink b = gi_keptStripeLink inp" "mb_paidThroughAt b = gi_paidThroughAt inp"
    using assms(1) by (simp_all add: payload_matches_event_def)
  with valid_names [OF assms(2), of "mb_planCode b" "mb_subscriptionStatus b"] assms(3) show ?thesis
    by (auto simp: granted_state_def user_matches_stored_event_def)
qed

text \<open>C24: Whatever text the operator sends, a grant that succeeds (new or repeated) leaves the user in a well-formed
  billing state: free exactly when the status is free, a personal, pro or team plan active only with an end date, a
  canceled one with none and never a business plan, and Stripe ids only where a business grant keeps the link.\<close>

theorem granted_user_well_formed:
  assumes "grant_manual_user_plan raw e w = (Inr r, w')" "\<forall>c. r \<noteq> GrantRefused c"
  shows "\<exists>u. user_by_id (gi_telegramUserId raw) (w_db w') = Some u \<and> granted_state (gi_keptStripeLink raw) u"
proof -
  note v = grant_returns(2) [OF assms]
  have n: "gi_telegramUserId (normalize_plan_input raw) = gi_telegramUserId raw" "gi_keptStripeLink (normalize_plan_input raw) = gi_keptStripeLink raw"
    by (simp_all add: normalize_plan_input_def)
  obtain b u where "user_by_id (gi_telegramUserId raw) (w_db w') = Some u" "user_matches_stored_event u b" "payload_matches_event b (normalize_plan_input raw)"
    using grant_returns(1) [OF assms(1)] assms(2) n by (cases r) (auto simp: grant_effect_def)
  then show ?thesis using granted_state_of_event [OF _ v, of b u] n by auto
qed

section \<open>A concrete grant\<close>

definition sample_grant :: grant_input where
  "sample_grant = \<lparr> gi_telegramUserId = 7, gi_planCode = ''pro'', gi_subscriptionStatus = ''active'', gi_paidThroughAt = Some 86400000,
     gi_paymentReference = '' inv-1 '', gi_note = None, gi_keptStripeLink = False, gi_operatorSource = ''cli'', gi_expectedUpdatedAt = None \<rparr>"

definition is_granted :: "(exn + grant_result) \<Rightarrow> bool" where
  "is_granted r \<longleftrightarrow> (case r of Inr (Granted s) \<Rightarrow> True | _ \<Rightarrow> False)"

lemma sample_grant_runs: "is_granted (fst (grant_manual_user_plan sample_grant calm_env (start_world stripe_db)))"
  by code_simp

lemma sample_grant_ids:
  "gi_telegramUserId sample_grant = 7" "gi_keptStripeLink sample_grant = False"
  "manualBillingEvents (w_db (start_world stripe_db)) = []"
  by (simp_all add: sample_grant_def stripe_db_def)


theorem granted_user_well_formed_witness:
  "\<exists>u. user_by_id 7 (w_db (snd (grant_manual_user_plan sample_grant calm_env (start_world stripe_db)))) = Some u \<and> granted_state False u"
proof -
  obtain s w' where g: "grant_manual_user_plan sample_grant calm_env (start_world stripe_db) = (Inr (Granted s), w')"
    using sample_grant_runs
    by (cases "grant_manual_user_plan sample_grant calm_env (start_world stripe_db)")
      (auto simp: is_granted_def split: sum.splits grant_result.splits)
  show ?thesis using granted_user_well_formed [OF g] unfolding g snd_conv by (simp add: sample_grant_ids)
qed

end
