(* ===== verification/Authorization.thy ===== *)
theory Authorization
  imports ChatMigration TelegramErrors
begin

text \<open>
  Who may manage which chat and alias: \<open>src/telegram/authorization.ts\<close> (administrators, with a cache of five
  minutes), \<open>src/telegram/moveTarget.ts\<close> (may the actor and the bot use this chat), \<open>src/telegram/orphanProbe.ts\<close>
  (is the chat definitively gone), \<open>src/telegram/orphanRecovery.ts\<close> (the creator's fallback) and
  \<open>src/telegram/aliasResolver.ts\<close>.  Telegram's answers come from the environment, at the tick of the request.
\<close>

section \<open>Caches of verdicts\<close>

text \<open>A \<open>Map\<close> keeps its keys in the order they were first set.  The membership cache moves a key to the end when it
  is set again; the reachability cache keeps its place.  Both drop their oldest key when they are full.\<close>

definition cache_ttl_ms :: int where "cache_ttl_ms = 5 * 60 * 1000"
definition cache_max_size :: nat where "cache_max_size = 10000"
definition reach_ttl_ms :: int where "reach_ttl_ms = 60 * 1000"
definition reach_max_size :: nat where "reach_max_size = 5000"

definition map_set :: "'k \<Rightarrow> 'v \<Rightarrow> ('k \<times> 'v) list \<Rightarrow> ('k \<times> 'v) list" where
  "map_set k v c = (if k \<in> set (map fst c) then map (\<lambda>(l, u). if l = k then (l, v) else (l, u)) c else c @ [(k, v)])"

definition drop_oldest :: "nat \<Rightarrow> 'k list \<Rightarrow> 'k list" where
  "drop_oldest cap c = (if cap \<le> length c then tl c else c)"

definition put_member :: "'k \<Rightarrow> 'v \<Rightarrow> ('k \<times> 'v) list \<Rightarrow> ('k \<times> 'v) list" where
  "put_member k v c = map_set k v (drop_oldest cache_max_size (filter (\<lambda>x. fst x \<noteq> k) c))"

definition put_reach :: "'k \<Rightarrow> 'v \<Rightarrow> ('k \<times> 'v) list \<Rightarrow> ('k \<times> 'v) list" where
  "put_reach k v c = map_set k v (drop_oldest reach_max_size c)"

text \<open>What the users of a cache rely on.\<close>

locale verdict_cache =
  fixes put :: "'k \<Rightarrow> 'v \<Rightarrow> ('k \<times> 'v) list \<Rightarrow> ('k \<times> 'v) list"
    and cap :: nat
  assumes put_bounded: "length c \<le> cap \<Longrightarrow> length (put k v c) \<le> cap"
    and put_distinct: "distinct (map fst c) \<Longrightarrow> distinct (map fst (put k v c))"
    and put_get: "distinct (map fst c) \<Longrightarrow> map_of (put k v c) k = Some v"
    and put_entries: "set (put k v c) \<subseteq> insert (k, v) (set c)"
begin

lemma put_all:
  assumes "\<And>l u. (l, u) \<in> set c \<Longrightarrow> P l u" and "P k v" and "(l, u) \<in> set (put k v c)"
  shows "P l u"
  using assms put_entries [of k v c] by blast

lemma puts_bounded: "length c \<le> cap \<Longrightarrow> length (fold (\<lambda>(k, v). put k v) kvs c) \<le> cap"
  by (induction kvs arbitrary: c) (auto simp: put_bounded)

lemma puts_distinct: "distinct (map fst c) \<Longrightarrow> distinct (map fst (fold (\<lambda>(k, v). put k v) kvs c))"
  by (induction kvs arbitrary: c) (auto simp: put_distinct)

end

lemma drop_oldest_set: "set (drop_oldest cap c) \<subseteq> set c"
  by (cases c) (auto simp: drop_oldest_def)

lemma drop_oldest_distinct: "distinct (map fst c) \<Longrightarrow> distinct (map fst (drop_oldest cap c))"
  by (cases c) (auto simp: drop_oldest_def)

lemma drop_oldest_length: "0 < cap \<Longrightarrow> length c \<le> cap \<Longrightarrow> length (drop_oldest cap c) < cap"
  by (cases c) (auto simp: drop_oldest_def)

lemma map_set_length: "length (map_set k v c) \<le> Suc (length c)"
  by (simp add: map_set_def)

lemma map_set_keys: "map fst (map_set k v c) = (if k \<in> set (map fst c) then map fst c else map fst c @ [k])"
  by (auto simp: map_set_def)

lemma map_set_distinct: "distinct (map fst c) \<Longrightarrow> distinct (map fst (map_set k v c))"
  by (simp add: map_set_keys)

lemma map_set_entries: "set (map_set k v c) \<subseteq> insert (k, v) (set c)"
  by (auto simp: map_set_def split: if_splits)

lemma map_set_get: "map_of (map_set k v c) k = Some v"
proof (cases "k \<in> set (map fst c)")
  case True
  then have "map_of (map (\<lambda>(l, u). if l = k then (l, v) else (l, u)) c) k = Some v" by (induction c) auto
  with True show ?thesis by (simp add: map_set_def)
next
  case False
  then have "map_of c k = None" by (simp add: map_of_eq_None_iff)
  with False show ?thesis by (simp add: map_set_def map_add_def)
qed

interpretation member_cache: verdict_cache put_member cache_max_size
proof (unfold_locales, goal_cases)
  case (1 c k v)
  have "length (filter (\<lambda>x. fst x \<noteq> k) c) \<le> cache_max_size" using 1 by (rule le_trans [OF length_filter_le])
  then show ?case
    using drop_oldest_length [of cache_max_size "filter (\<lambda>x. fst x \<noteq> k) c"]
      map_set_length [of k v "drop_oldest cache_max_size (filter (\<lambda>x. fst x \<noteq> k) c)"]
    by (simp add: put_member_def cache_max_size_def)
next
  case (2 c k v)
  then show ?case by (auto simp: put_member_def distinct_map_filter intro!: map_set_distinct drop_oldest_distinct)
next
  case (4 k v c)
  have "set (drop_oldest cache_max_size (filter (\<lambda>x. fst x \<noteq> k) c)) \<subseteq> set c" using drop_oldest_set by fastforce
  then show ?case using map_set_entries unfolding put_member_def by fast
qed (simp add: put_member_def map_set_get)

interpretation reach_cache: verdict_cache put_reach reach_max_size
proof (unfold_locales, goal_cases)
  case (1 c k v)
  then show ?case
    using drop_oldest_length [of reach_max_size c] map_set_length [of k v "drop_oldest reach_max_size c"]
    by (simp add: put_reach_def reach_max_size_def)
next
  case (2 c k v)
  then show ?case by (auto simp: put_reach_def intro!: map_set_distinct drop_oldest_distinct)
next
  case (4 k v c)
  then show ?case using map_set_entries drop_oldest_set unfolding put_reach_def by fast
qed (simp add: put_reach_def map_set_get)

section \<open>Administrators\<close>

definition is_admin_status :: "string \<Rightarrow> bool" where
  "is_admin_status s \<longleftrightarrow> s \<in> {''creator'', ''administrator''}"

fun admin_answer :: "send_error + chat_member_info \<Rightarrow> bool" where
  "admin_answer (Inl err) = False"
| "admin_answer (Inr member) = is_admin_status (cm_status member)"

definition cached_verdict :: "(world \<Rightarrow> ('k \<times> (bool \<times> instant)) list) \<Rightarrow> 'k \<Rightarrow> bool option io" where
  "cached_verdict cache k =
     bind (peek cache) (\<lambda>c.
       case map_of c k of
         None \<Rightarrow> ret None
       | Some (r, expiresAt) \<Rightarrow> bind now (\<lambda>t. ret (if t < expiresAt then Some r else None)))"

definition remember_member :: "bigint \<times> bigint \<Rightarrow> bool \<Rightarrow> unit io" where
  "remember_member k r =
     bind now (\<lambda>t. bind (peek w_memberCache) (\<lambda>c. set_member_cache (put_member k (r, t + cache_ttl_ms) c)))"

definition can_manage_chat :: "bool \<Rightarrow> bigint \<Rightarrow> bigint \<Rightarrow> bool io" where
  "can_manage_chat fresh userId chatId =
     (if chatId = userId then ret True
      else bind (if fresh then ret None else cached_verdict w_memberCache (chatId, userId)) (\<lambda>cached.
        case cached of
          Some r \<Rightarrow> ret r
        | None \<Rightarrow>
            bind (at_tick (\<lambda>e t. admin_answer (chat_member e t chatId userId))) (\<lambda>r.
            bind (remember_member (chatId, userId) r) (\<lambda>_.
            ret r))))"

definition get_accessible_chats :: "bigint \<Rightarrow> chat_row list io" where
  "get_accessible_chats userId =
     bind (db_read find_active_chats) (\<lambda>allChats.
     bind (for_map allChats (\<lambda>chat. bind (can_manage_chat False userId (ch_id chat)) (\<lambda>allowed. ret (chat, allowed)))) (\<lambda>checked.
     ret (map fst (filter snd checked))))"

definition can_manage_alias :: "bool \<Rightarrow> bigint \<Rightarrow> uuid \<Rightarrow> bool io" where
  "can_manage_alias fresh userId aliasId =
     bind (db_read (find_alias_by_id aliasId)) (\<lambda>found.
       case found of
         None \<Rightarrow> ret False
       | Some a \<Rightarrow> if al_status a = Deleted then ret False else can_manage_chat fresh userId (al_chatId a))"

section \<open>Move targets\<close>

datatype move_denial = NotAdmin | CannotPost | NotMember | CannotSend | ForeignDm | DmNotHere | ProbeFailed | ActorNotAdmin

record move_probe =
  mp_chatId :: bigint
  mp_chatType :: string
  mp_actorId :: "bigint option"
  mp_interactionChatId :: "bigint option"

definition get_member :: "bigint \<Rightarrow> bigint \<Rightarrow> chat_member_info option io" where
  "get_member chatId userId =
     at_tick (\<lambda>e t. case chat_member e t chatId userId of Inl err \<Rightarrow> None | Inr m \<Rightarrow> Some m)"

text \<open>Lines 91 to 107: what the bot's membership allows; None is \<open>{ok: true}\<close>.\<close>

definition bot_denial :: "string \<Rightarrow> chat_member_info \<Rightarrow> move_denial option" where
  "bot_denial chatType m =
     (if chatType = ''channel''
      then (if cm_status m \<noteq> ''administrator'' then Some NotAdmin
            else if cm_canPostMessages m = Some True then None else Some CannotPost)
      else if cm_status m = ''administrator'' \<or> cm_status m = ''member'' then None
      else if cm_status m = ''restricted''
      then (if cm_isMember m \<noteq> Some True then Some NotMember
            else if cm_canSendMessages m = Some True then None else Some CannotSend)
      else Some NotMember)"

definition can_bot_send_to_chat :: "move_probe \<Rightarrow> move_denial option io" where
  "can_bot_send_to_chat p =
     (if mp_chatType p = ''private''
      then (if mp_actorId p = Some (mp_chatId p)
            then ret (if mp_interactionChatId p = Some (mp_chatId p) then None else Some DmNotHere)
            else ret (Some ForeignDm))
      else bind (at_tick bot_id) (\<lambda>me.
        case me of
          Inl err \<Rightarrow> throw (Raised ''GrammyError'')
        | Inr botId \<Rightarrow>
            bind (get_member (mp_chatId p) botId) (\<lambda>member.
            ret (case member of None \<Rightarrow> Some ProbeFailed | Some m \<Rightarrow> bot_denial (mp_chatType p) m))))"

definition can_actor_use_move_target :: "move_probe \<Rightarrow> bigint \<Rightarrow> move_denial option io" where
  "can_actor_use_move_target p actorId =
     (let probe = p\<lparr>mp_actorId := Some actorId\<rparr> in
      if mp_chatType p = ''private'' then can_bot_send_to_chat probe
      else bind (get_member (mp_chatId p) actorId) (\<lambda>actorMember.
        case actorMember of
          None \<Rightarrow> ret (Some ProbeFailed)
        | Some m \<Rightarrow> if is_admin_status (cm_status m) then can_bot_send_to_chat probe else ret (Some ActorNotAdmin)))"

section \<open>Reachability\<close>

datatype reachability = Reachable | DeadChat | UnknownChat

definition definitive_dead_patterns :: "string list" where
  "definitive_dead_patterns = [''chat not found'', ''bot was kicked'', ''bot is not a member'', ''group chat was deactivated'',
     ''chat was deleted'', ''user is deactivated'']"

definition definitive_failure :: "send_failure \<Rightarrow> bool" where
  "definitive_failure f \<longleftrightarrow> sf_code f \<noteq> None \<and> \<not> sf_transient f \<and>
     list_ex (\<lambda>pattern. js_includes (js_lower (sf_description f)) pattern) definitive_dead_patterns"

text \<open>The verdict of one answer: dead, reachable, unknown, or moved to another chat.\<close>

fun reach_answer :: "send_error + chat_member_info \<Rightarrow> bigint + reachability" where
  "reach_answer (Inr m) = Inr (if cm_status m = ''left'' \<or> cm_status m = ''kicked'' then DeadChat else Reachable)"
| "reach_answer (Inl err) =
     (let failure = describe_send_error err in
      case sf_migrateToChatId failure of
        Some c \<Rightarrow> Inl c
      | None \<Rightarrow> Inr (if definitive_failure failure then DeadChat else UnknownChat))"

definition remember_reach :: "bigint \<Rightarrow> bool \<Rightarrow> unit io" where
  "remember_reach chatId dead =
     bind now (\<lambda>t. bind (peek w_reachCache) (\<lambda>c. set_reach_cache (put_reach chatId (dead, t + reach_ttl_ms) c)))"

definition probe_chat_reachability :: "bool \<Rightarrow> bigint \<Rightarrow> (bigint \<Rightarrow> bigint \<Rightarrow> unit io) \<Rightarrow> reachability io" where
  "probe_chat_reachability fresh chatId onMigrate =
     bind (if fresh then ret None else cached_verdict w_reachCache chatId) (\<lambda>cached.
       case cached of
         Some dead \<Rightarrow> ret (if dead then DeadChat else Reachable)
       | None \<Rightarrow>
           bind (at_tick bot_id) (\<lambda>me.
             case me of
               Inl err \<Rightarrow> ret UnknownChat
             | Inr botId \<Rightarrow>
                 bind (at_tick (\<lambda>e t. reach_answer (chat_member e t chatId botId))) (\<lambda>answer.
                   case answer of
                     Inl newChatId \<Rightarrow> bind (catch (onMigrate chatId newChatId) (\<lambda>_. ret ())) (\<lambda>_. ret UnknownChat)
                   | Inr v \<Rightarrow> bind (if v = UnknownChat then ret () else remember_reach chatId (v = DeadChat)) (\<lambda>_. ret v))))"

section \<open>Orphan recovery\<close>

definition migration_repair_hook :: "bigint \<Rightarrow> bigint \<Rightarrow> unit io" where
  "migration_repair_hook oldChatId newChatId =
     catch (bind (repair_chat_migration True oldChatId newChatId None) (\<lambda>_. ret ())) (\<lambda>_. ret ())"

definition can_recover_orphan_alias :: "bool \<Rightarrow> bigint \<Rightarrow> uuid \<Rightarrow> bool io" where
  "can_recover_orphan_alias fresh actorId aliasId =
     bind (db_read (find_alias_by_id aliasId)) (\<lambda>found.
       case found of
         None \<Rightarrow> ret False
       | Some a \<Rightarrow>
           if al_status a = Deleted then ret False
           else if al_createdBy a \<noteq> actorId then ret False
           else bind (probe_chat_reachability fresh (al_chatId a) migration_repair_hook) (\<lambda>verdict.
             ret (verdict = DeadChat)))"

text \<open>\<open>new Set(...)\<close> keeps the first occurrences, so the chats are probed in the order of the aliases.\<close>

definition list_recoverable_orphans :: "bigint \<Rightarrow> alias_row list option \<Rightarrow> alias_row list io" where
  "list_recoverable_orphans actorId candidates =
     bind (case candidates of Some as \<Rightarrow> ret as | None \<Rightarrow> db_read (find_aliases_by_creator actorId)) (\<lambda>as.
       let own = filter (\<lambda>a. al_status a \<noteq> Deleted \<and> al_createdBy a = actorId) as in
       if own = [] then ret []
       else bind (for_map (rev (remdups (rev (map al_chatId own)))) (\<lambda>c.
              bind (probe_chat_reachability False c migration_repair_hook) (\<lambda>v. ret (c, v)))) (\<lambda>verdicts.
            ret (filter (\<lambda>a. map_of verdicts (al_chatId a) = Some DeadChat) own)))"

section \<open>Resolving an alias by name\<close>

datatype resolve_failure = AliasNotFound | AliasAmbiguous | AliasForbidden

definition resolve_candidates :: "bigint \<Rightarrow> bigint \<Rightarrow> string \<Rightarrow> string \<Rightarrow> db \<Rightarrow> alias_row list" where
  "resolve_candidates userId currentChatId input chatType d =
     (if js_includes input ''@''
      then (case find_alias_by_full_address input d of None \<Rightarrow> [] | Some a \<Rightarrow> [a])
      else if chatType = ''private''
      then filter (\<lambda>a. al_localPart a = input) (find_aliases_by_creator userId d)
      else filter (\<lambda>a. al_localPart a = input) (list_aliases_by_chat currentChatId d))"

definition resolve_manageable_alias :: "bigint \<Rightarrow> bigint \<Rightarrow> string \<Rightarrow> string \<Rightarrow> (resolve_failure + alias_row) io" where
  "resolve_manageable_alias userId currentChatId rawInput chatType =
     (let input = js_lower (js_trim rawInput) in
      if input = [] then ret (Inl AliasNotFound)
      else bind (db_read (resolve_candidates userId currentChatId input chatType)) (\<lambda>candidates.
        case candidates of
          [] \<Rightarrow> ret (Inl AliasNotFound)
        | [a] \<Rightarrow> bind (can_manage_alias True userId (al_id a)) (\<lambda>allowed. ret (if allowed then Inr a else Inl AliasForbidden))
        | _ \<Rightarrow> ret (Inl AliasAmbiguous)))"

section \<open>What a permission rests on\<close>

text \<open>Something the environment showed while a computation ran.\<close>

definition during :: "world \<Rightarrow> world \<Rightarrow> (nat \<Rightarrow> bool) \<Rightarrow> bool" where
  "during w w' P \<longleftrightarrow> (\<exists>t. w_tick w \<le> t \<and> t < w_tick w' \<and> P t)"

lemma during_mono: "during v v' P \<Longrightarrow> w_tick w \<le> w_tick v \<Longrightarrow> w_tick v' \<le> w_tick w' \<Longrightarrow> during w w' P"
  unfolding during_def by (meson le_trans less_le_trans)

definition is_admin_at :: "env \<Rightarrow> bigint \<Rightarrow> bigint \<Rightarrow> nat \<Rightarrow> bool" where
  "is_admin_at e chatId userId t \<longleftrightarrow> admin_answer (chat_member e t chatId userId)"

definition chat_dead_at :: "env \<Rightarrow> bigint \<Rightarrow> nat \<Rightarrow> bool" where
  "chat_dead_at e chatId t \<longleftrightarrow> (\<exists>botId s. s < t \<and> bot_id e s = Inr botId \<and> reach_answer (chat_member e t chatId botId) = Inr DeadChat)"

definition bot_can_post_at :: "env \<Rightarrow> string \<Rightarrow> bigint \<Rightarrow> nat \<Rightarrow> bool" where
  "bot_can_post_at e chatType chatId t \<longleftrightarrow>
     (\<exists>botId m s. s < t \<and> bot_id e s = Inr botId \<and> chat_member e t chatId botId = Inr m \<and> bot_denial chatType m = None)"

lemma quiet_cached [quiet_rules]: "quiet (cached_verdict cache k)"
  unfolding cached_verdict_def by (intro quiet_rules)

lemma quiet_remember [quiet_rules]: "quiet (remember_member k r)" "quiet (remember_reach c r)"
  unfolding remember_member_def remember_reach_def by (intro quiet_rules)+

lemma quiet_can_manage [quiet_rules]: "quiet (can_manage_chat fresh u c)" "quiet (can_manage_alias fresh u i)"
  unfolding can_manage_alias_def can_manage_chat_def by (intro quiet_rules)+

lemma quiet_use_target [quiet_rules]: "quiet (can_actor_use_move_target p a)"
  unfolding can_actor_use_move_target_def can_bot_send_to_chat_def get_member_def Let_def by (intro quiet_rules)

lemma keeps_authorization [keeps_rules]:
  "keeps I (can_manage_chat fresh u c)" "keeps I (can_manage_alias fresh u i)" "keeps I (can_actor_use_move_target p a)"
  "keeps I (remember_reach c r)" "keeps I (cached_verdict cache k)"
  unfolding can_manage_alias_def can_manage_chat_def can_actor_use_move_target_def can_bot_send_to_chat_def get_member_def Let_def
    remember_member_def remember_reach_def cached_verdict_def
  by (intro keeps_rules)+

lemma advances_authorization [advances_rules]:
  "advances (can_manage_chat fresh u c)" "advances (can_manage_alias fresh u i)" "advances (can_actor_use_move_target p a)"
  "advances (remember_reach c r)" "advances (cached_verdict cache k)"
  unfolding can_manage_alias_def can_manage_chat_def can_actor_use_move_target_def can_bot_send_to_chat_def get_member_def Let_def
    remember_member_def remember_reach_def cached_verdict_def
  by (intro advances_rules)+

lemma advances_repair [advances_rules]: "advances (repair_chat_migration api oldC newC meta)"
  unfolding repair_chat_migration_def fetch_chat_meta_def with_chat_migration_lock_def rekey_body_def register_new_chat_def
    upsert_chat_def repoint_stmt_def insert_alias_move_event_def deactivate_chat_def
  by (intro advances_rules)

lemma advances_recover [advances_rules]:
  "advances (can_recover_orphan_alias fresh u i)"
  unfolding can_recover_orphan_alias_def probe_chat_reachability_def migration_repair_hook_def by (intro advances_rules)

lemma fresh_admin:
  assumes "can_manage_chat True u c e w = (Inr True, w')"
  shows "c = u \<or> during w w' (is_admin_at e c u)"
  using assms
  by (auto simp: can_manage_chat_def remember_member_def run_simps during_def is_admin_at_def split: if_splits intro!: exI [of _ "w_tick w"])

lemma fresh_alias_admin:
  assumes "can_manage_alias True u i e w = (Inr True, w')"
  shows "\<exists>a. find_alias_by_id i (w_db w) = Some a \<and> al_status a \<noteq> Deleted \<and>
    (al_chatId a = u \<or> during w w' (is_admin_at e (al_chatId a) u))"
proof -
  obtain found w1 where r: "db_read (find_alias_by_id i) e w = (Inr found, w1)" and
    rest: "(case found of None \<Rightarrow> ret False
       | Some a \<Rightarrow> if al_status a = Deleted then ret False else can_manage_chat True u (al_chatId a)) e w1 = (Inr True, w')"
    using assms unfolding can_manage_alias_def bind_Inr by blast
  obtain a where a: "found = Some a" "al_status a \<noteq> Deleted" "can_manage_chat True u (al_chatId a) e w1 = (Inr True, w')"
    using rest by (auto simp: ret_Inr split: option.splits if_splits)
  have "al_chatId a = u \<or> during w w' (is_admin_at e (al_chatId a) u)"
    using fresh_admin [OF a(3)] r by (auto simp: db_read_Inr intro: during_mono)
  moreover have "find_alias_by_id i (w_db w) = Some a" using r a(1) by (simp add: db_read_Inr)
  ultimately show ?thesis using a(2) by blast
qed

lemma fresh_dead:
  assumes "probe_chat_reachability True c hook e w = (Inr DeadChat, w')"
  shows "during w w' (chat_dead_at e c) \<and> w_db w' = w_db w \<and> w_tx w' = w_tx w"
proof -
  obtain me w1 where m: "at_tick bot_id e w = (Inr me, w1)" and
    rest: "(case me of Inl err \<Rightarrow> ret UnknownChat | Inr botId \<Rightarrow>
        bind (at_tick (\<lambda>e t. reach_answer (chat_member e t c botId))) (\<lambda>answer. case answer of
           Inl newChatId \<Rightarrow> bind (catch (hook c newChatId) (\<lambda>_. ret ())) (\<lambda>_. ret UnknownChat)
         | Inr v \<Rightarrow> bind (if v = UnknownChat then ret () else remember_reach c (v = DeadChat)) (\<lambda>_. ret v))) e w1 = (Inr DeadChat, w')"
    using assms by (auto simp: probe_chat_reachability_def bind_Inr ret_Inr)
  obtain b u w2 where b: "me = Inr b" "reach_answer (chat_member e (w_tick w1) c b) = Inr DeadChat"
    and w2: "remember_reach c True e (w1\<lparr>w_tick := Suc (w_tick w1)\<rparr>) = (Inr u, w')"
    using rest by (auto simp: bind_Inr ret_Inr at_tick_Inr split: sum.splits if_splits)
  have "w_tick w1 < w_tick w'" using advancesD [OF advances_authorization(4) w2] by (simp add: Suc_le_eq)
  moreover have "chat_dead_at e c (w_tick w1)" "w_tick w \<le> w_tick w1"
    using b m unfolding chat_dead_at_def by (auto simp: at_tick_Inr intro!: exI [of _ b] exI [of _ "w_tick w"] dest: sym)
  ultimately have "during w w' (chat_dead_at e c)" unfolding during_def by blast
  then show ?thesis using m quietD [OF quiet_remember(2) w2] by (simp add: at_tick_Inr)
qed

text \<open>The fallback leaves the database alone unless the probe finds that the chat migrated.\<close>

definition untouched_or_repaired :: "db \<Rightarrow> db \<Rightarrow> bool" where
  "untouched_or_repaired d d' \<longleftrightarrow> d' = d \<or> (\<exists>c c' op t. repaired c c' op t d d')"

definition harmless :: "'a io \<Rightarrow> bool" where
  "harmless m \<longleftrightarrow> (\<forall>e w. w_db (snd (m e w)) = w_db w \<and> (w_tx w = NoTx \<longrightarrow> w_tx (snd (m e w)) = NoTx))"

definition may_repair :: "'a io \<Rightarrow> bool" where
  "may_repair m \<longleftrightarrow> (\<forall>e w. w_tx w = NoTx \<longrightarrow> untouched_or_repaired (w_db w) (w_db (snd (m e w))))"

lemma harmless_basic:
  "harmless (ret a)" "harmless (at_tick g)" "harmless now" "harmless (peek p)" "harmless (set_reach_cache rc)"
  by (simp_all add: harmless_def ret_def at_tick_def now_def cache_simps)

lemma harmless_read: "harmless (db_read f)"
  by (auto simp: harmless_def db_read_def db_stmt_def Let_def abort_def break_tx_def split: fault.splits)

lemma harmless_bind: "harmless m \<Longrightarrow> (\<And>a. harmless (f a)) \<Longrightarrow> harmless (bind m f)"
  unfolding harmless_def bind_def by (auto split: prod.splits sum.splits) (metis snd_conv)+

lemma harmless_cache: "harmless (cached_verdict cache k)" "harmless (remember_reach c r)"
  unfolding cached_verdict_def remember_reach_def
  by (auto intro!: harmless_bind harmless_basic split: option.splits prod.splits)

lemma may_repair_harmless: "harmless m \<Longrightarrow> may_repair m"
  by (simp add: harmless_def may_repair_def untouched_or_repaired_def)

lemma may_repair_after: "harmless m \<Longrightarrow> (\<And>a. may_repair (f a)) \<Longrightarrow> may_repair (bind m f)"
  unfolding harmless_def may_repair_def bind_def untouched_or_repaired_def
  by (auto split: prod.splits sum.splits) (metis snd_conv)+

lemma may_repair_before: "may_repair m \<Longrightarrow> (\<And>a. harmless (f a)) \<Longrightarrow> may_repair (bind m f)"
  unfolding harmless_def may_repair_def bind_def by (auto split: prod.splits sum.splits) (metis snd_conv)+

lemma may_repair_swallow: "may_repair m \<Longrightarrow> may_repair (catch m (\<lambda>_. ret ()))"
  unfolding may_repair_def catch_def ret_def by (auto split: prod.splits sum.splits) (metis snd_conv)+

lemma may_repair_repair: "may_repair (repair_chat_migration api c c' meta)"
  unfolding may_repair_def
proof (intro allI impI)
  fix e :: env and w :: world assume "w_tx w = NoTx"
  moreover obtain r w' where r: "repair_chat_migration api c c' meta e w = (r, w')" by fastforce
  ultimately show "untouched_or_repaired (w_db w) (w_db (snd (repair_chat_migration api c c' meta e w)))"
    using repair_effect [OF r] by (cases r) (auto simp: untouched_or_repaired_def)
qed

lemma may_repair_recover: "may_repair (can_recover_orphan_alias fresh u i)"
proof -
  have hook: "may_repair (catch (migration_repair_hook c c') (\<lambda>_. ret ()))" for c c'
    unfolding migration_repair_hook_def by (intro may_repair_swallow may_repair_before may_repair_repair harmless_basic)
  note here = may_repair_harmless [OF harmless_basic(1)]
  have moved: "may_repair (bind (catch (migration_repair_hook c c') (\<lambda>_. ret ())) (\<lambda>_. ret UnknownChat))" for c c'
    by (intro may_repair_before hook harmless_basic)
  have noted: "may_repair (bind (if v = UnknownChat then ret () else remember_reach c (v = DeadChat)) (\<lambda>_. ret v))" for c v
    by (intro may_repair_harmless harmless_bind) (simp_all add: harmless_basic harmless_cache)
  have cached: "harmless (if fresh then ret None else cached_verdict w_reachCache c)" for c
    by (simp add: harmless_basic harmless_cache)
  have "may_repair (probe_chat_reachability fresh c migration_repair_hook)" for c
    unfolding probe_chat_reachability_def
    by (intro may_repair_after cached)
      (auto intro!: may_repair_after harmless_basic harmless_cache here moved noted split: option.splits sum.splits)
  then have "may_repair (bind (probe_chat_reachability fresh c migration_repair_hook) (\<lambda>verdict. ret (verdict = DeadChat)))" for c
    by (rule may_repair_before) (rule harmless_basic)
  then show ?thesis unfolding can_recover_orphan_alias_def
    by (intro may_repair_after harmless_read) (auto intro!: here split: option.splits)
qed

lemma recovered_orphan:
  assumes "can_recover_orphan_alias True u i e w = (Inr True, w')"
  shows "\<exists>a. find_alias_by_id i (w_db w) = Some a \<and> al_status a \<noteq> Deleted \<and> al_createdBy a = u \<and>
    during w w' (chat_dead_at e (al_chatId a)) \<and> w_db w' = w_db w \<and> w_tx w' = w_tx w"
proof -
  obtain found w1 where r: "db_read (find_alias_by_id i) e w = (Inr found, w1)" and
    rest: "(case found of None \<Rightarrow> ret False
       | Some a \<Rightarrow> if al_status a = Deleted then ret False else if al_createdBy a \<noteq> u then ret False
           else bind (probe_chat_reachability True (al_chatId a) migration_repair_hook) (\<lambda>verdict. ret (verdict = DeadChat))) e w1 = (Inr True, w')"
    using assms unfolding can_recover_orphan_alias_def bind_Inr by blast
  obtain a where a: "found = Some a" "al_status a \<noteq> Deleted" "al_createdBy a = u"
    "probe_chat_reachability True (al_chatId a) migration_repair_hook e w1 = (Inr DeadChat, w')"
    using rest by (auto simp: run_simps split: option.splits if_splits)
  have "during w w' (chat_dead_at e (al_chatId a))"
    using fresh_dead [OF a(4)] r by (auto simp: db_read_Inr intro: during_mono)
  moreover have "find_alias_by_id i (w_db w) = Some a" "w_db w' = w_db w" "w_tx w' = w_tx w"
    using r a(1) fresh_dead [OF a(4)] by (simp_all add: db_read_Inr)
  ultimately show ?thesis using a(2,3) by blast
qed

lemma usable_target:
  assumes "can_actor_use_move_target p u e w = (Inr None, w')"
  shows "if mp_chatType p = ''private'' then mp_chatId p = u \<and> mp_interactionChatId p = Some u
    else during w w' (is_admin_at e (mp_chatId p) u) \<and> during w w' (bot_can_post_at e (mp_chatType p) (mp_chatId p))"
proof (cases "mp_chatType p = ''private''")
  case True
  then show ?thesis using assms by (auto simp: can_actor_use_move_target_def can_bot_send_to_chat_def Let_def run_simps split: if_splits)
next
  case False
  define t where "t = w_tick w"
  obtain m where m: "chat_member e t (mp_chatId p) u = Inr m" "is_admin_status (cm_status m)"
    and bot: "can_bot_send_to_chat (p\<lparr>mp_actorId := Some u\<rparr>) e (w\<lparr>w_tick := Suc t\<rparr>) = (Inr None, w')"
    using assms False
    by (auto simp: can_actor_use_move_target_def get_member_def Let_def run_simps t_def split: sum.splits option.splits if_splits)
  have "\<exists>b k. bot_id e (Suc t) = Inr b \<and> chat_member e (Suc (Suc t)) (mp_chatId p) b = Inr k \<and> bot_denial (mp_chatType p) k = None"
    and tick: "w_tick w' = Suc (Suc (Suc t))"
    using bot False
    by (auto simp: can_bot_send_to_chat_def get_member_def run_simps dest: sym split: sum.splits option.splits)
  then have "bot_can_post_at e (mp_chatType p) (mp_chatId p) (Suc (Suc t))" unfolding bot_can_post_at_def by blast
  moreover have "is_admin_at e (mp_chatId p) u t" using m by (simp add: is_admin_at_def t_def)
  ultimately show ?thesis using False tick unfolding during_def t_def by (auto intro: exI [of _ "Suc (Suc (w_tick w))"])
qed

section \<open>The membership cache\<close>

text \<open>Every entry is an answer Telegram gave, kept for five minutes; one entry per chat and user, ten thousand at most.\<close>

definition entry_sound :: "env \<Rightarrow> nat \<Rightarrow> bigint \<times> bigint \<Rightarrow> bool \<times> instant \<Rightarrow> bool" where
  "entry_sound e n k v \<longleftrightarrow> (\<exists>t < n. is_admin_at e (fst k) (snd k) t = fst v \<and> snd v = clock e (Suc t) + cache_ttl_ms)"

definition cache_sound :: "env \<Rightarrow> world \<Rightarrow> bool" where
  "cache_sound e w \<longleftrightarrow> distinct (map fst (w_memberCache w)) \<and> length (w_memberCache w) \<le> cache_max_size \<and>
     (\<forall>k v. (k, v) \<in> set (w_memberCache w) \<longrightarrow> entry_sound e (w_tick w) k v)"

lemma entry_sound_mono: "entry_sound e n k v \<Longrightarrow> n \<le> m \<Longrightarrow> entry_sound e m k v"
  unfolding entry_sound_def by (meson less_le_trans)

lemma cache_sound_tick: "cache_sound e w \<Longrightarrow> cache_sound e (w\<lparr>w_tick := Suc (w_tick w)\<rparr>)"
  unfolding cache_sound_def by (simp add: entry_sound_mono [of e "w_tick w" _ _ "Suc (w_tick w)"])

text \<open>The world after a live request.\<close>

definition asked :: "env \<Rightarrow> bigint \<Rightarrow> bigint \<Rightarrow> world \<Rightarrow> world" where
  "asked e c u w = w\<lparr>w_tick := Suc (Suc (w_tick w)),
     w_memberCache := put_member (c, u) (is_admin_at e c u (w_tick w), clock e (Suc (w_tick w)) + cache_ttl_ms) (w_memberCache w)\<rparr>"

lemma asked_sound: "cache_sound e w \<Longrightarrow> cache_sound e (asked e c u w)"
proof -
  assume s: "cache_sound e w"
  let ?v = "(is_admin_at e c u (w_tick w), clock e (Suc (w_tick w)) + cache_ttl_ms)"
  have old: "entry_sound e (Suc (Suc (w_tick w))) l v" if "(l, v) \<in> set (w_memberCache w)" for l v
  proof (rule entry_sound_mono)
    show "entry_sound e (w_tick w) l v" using s that unfolding cache_sound_def by blast
  qed simp
  have new: "entry_sound e (Suc (Suc (w_tick w))) (c, u) ?v" unfolding entry_sound_def by (rule exI [of _ "w_tick w"]) simp
  have "entry_sound e (Suc (Suc (w_tick w))) l v" if "(l, v) \<in> set (put_member (c, u) ?v (w_memberCache w))" for l v
    using old new that by (rule member_cache.put_all)
  then show ?thesis using s by (simp add: cache_sound_def asked_def member_cache.put_distinct member_cache.put_bounded)
qed

lemma ask_run:
  "bind (at_tick (\<lambda>e t. admin_answer (chat_member e t c u))) (\<lambda>r. bind (remember_member (c, u) r) (\<lambda>_. ret r)) e w =
   (Inr (is_admin_at e c u (w_tick w)), asked e c u w)"
  by (simp add: bind_def at_tick_def remember_member_def now_def cache_simps ret_def asked_def is_admin_at_def)

lemma manage_run:
  assumes "can_manage_chat fresh u c e w = (q, w1)" and "c \<noteq> u"
  shows "(\<exists>r x. \<not> fresh \<and> ((c, u), (r, x)) \<in> set (w_memberCache w) \<and> clock e (w_tick w) < x \<and> q = Inr r \<and> w1 = w\<lparr>w_tick := Suc (w_tick w)\<rparr>) \<or>
    (\<exists>v. v \<in> {w, w\<lparr>w_tick := Suc (w_tick w)\<rparr>} \<and> q = Inr (is_admin_at e c u (w_tick v)) \<and> w1 = asked e c u v)"
proof (cases "fresh \<or> map_of (w_memberCache w) (c, u) = None")
  case True
  with assms have "q = Inr (is_admin_at e c u (w_tick w)) \<and> w1 = asked e c u w"
    using ask_run [of c u e w] by (auto simp: can_manage_chat_def cached_verdict_def cache_simps bind_def ret_def split: if_splits)
  then show ?thesis by blast
next
  case False
  then obtain r x where h: "\<not> fresh" "map_of (w_memberCache w) (c, u) = Some (r, x)" by auto
  let ?w = "w\<lparr>w_tick := Suc (w_tick w)\<rparr>"
  have cached: "cached_verdict w_memberCache (c, u) e w = (Inr (if clock e (w_tick w) < x then Some r else None), ?w)"
    using h by (simp add: cached_verdict_def cache_simps bind_def ret_def now_def at_tick_def)
  show ?thesis
  proof (cases "clock e (w_tick w) < x")
    case True
    with assms h cached have "q = Inr r" "w1 = ?w" by (auto simp: can_manage_chat_def bind_def ret_def)
    with True h map_of_SomeD [OF h(2)] show ?thesis by blast
  next
    case False
    have "can_manage_chat fresh u c e w = bind (at_tick (\<lambda>e t. admin_answer (chat_member e t c u))) (\<lambda>r. bind (remember_member (c, u) r) (\<lambda>_. ret r)) e ?w"
      using False h assms(2) cached by (simp add: can_manage_chat_def bind_def)
    with assms(1) ask_run [of c u e ?w] have "q = Inr (is_admin_at e c u (w_tick ?w)) \<and> w1 = asked e c u ?w" by simp
    then show ?thesis by blast
  qed
qed

text \<open>C16: A permission to manage a chat rests on an answer of Telegram that is no older than five minutes, and with \<open>fresh\<close> on
  one given after the request began; the cache stays sound and bounded.  After the repair of a migration no verdict on
  either chat is left in the membership or the reachability cache.\<close>

theorem cached_permission_is_recent:
  assumes "cache_sound e w"
  shows "(case can_manage_chat fresh u c e w of (q, w1) \<Rightarrow>
      cache_sound e w1 \<and>
      (q = Inr True \<longrightarrow> c = u \<or> (\<exists>t < w_tick w1. is_admin_at e c u t \<and>
         (w_tick w \<le> t \<or> \<not> fresh \<and> clock e (w_tick w) < clock e (Suc t) + cache_ttl_ms)))) \<and>
    (\<forall>n w2. repair_chat_migration api oldC newC meta e w = (Inr n, w2) \<longrightarrow>
      (\<forall>c u r x. c = oldC \<or> c = newC \<longrightarrow> ((c, u), (r, x)) \<notin> set (w_memberCache w2) \<and> (c, (r, x)) \<notin> set (w_reachCache w2)))"
proof (intro conjI allI impI)
  obtain q w1 where run: "can_manage_chat fresh u c e w = (q, w1)" by fastforce
  have "cache_sound e w1 \<and> (q = Inr True \<longrightarrow> c = u \<or> (\<exists>t < w_tick w1. is_admin_at e c u t \<and>
         (w_tick w \<le> t \<or> \<not> fresh \<and> clock e (w_tick w) < clock e (Suc t) + cache_ttl_ms)))"
  proof (cases "c = u")
    case True
    with run assms show ?thesis by (auto simp: can_manage_chat_def ret_def)
  next
    case False
    from manage_run [OF run False] show ?thesis
    proof (elim disjE exE conjE)
      fix r x assume h: "\<not> fresh" "((c, u), (r, x)) \<in> set (w_memberCache w)" "clock e (w_tick w) < x" "q = Inr r" "w1 = w\<lparr>w_tick := Suc (w_tick w)\<rparr>"
      have "entry_sound e (w_tick w) (c, u) (r, x)" using assms h(2) unfolding cache_sound_def by blast
      then obtain t where "t < w_tick w" "is_admin_at e c u t = r" "x = clock e (Suc t) + cache_ttl_ms" by (auto simp: entry_sound_def)
      then show ?thesis using h cache_sound_tick [OF assms] by (auto intro!: exI [of _ t])
    next
      fix v assume "v \<in> {w, w\<lparr>w_tick := Suc (w_tick w)\<rparr>}" and r: "q = Inr (is_admin_at e c u (w_tick v))" "w1 = asked e c u v"
      then have "cache_sound e v" "w_tick w \<le> w_tick v" using assms cache_sound_tick by auto
      then show ?thesis using r asked_sound by (auto simp: asked_def intro!: exI [of _ "w_tick v"])
    qed
  qed
  with run show "case can_manage_chat fresh u c e w of (q, w1) \<Rightarrow> cache_sound e w1 \<and>
      (q = Inr True \<longrightarrow> c = u \<or> (\<exists>t < w_tick w1. is_admin_at e c u t \<and>
         (w_tick w \<le> t \<or> \<not> fresh \<and> clock e (w_tick w) < clock e (Suc t) + cache_ttl_ms)))" by simp
next
  fix n w2 c' u' r x assume run: "repair_chat_migration api oldC newC meta e w = (Inr n, w2)" and c: "c' = oldC \<or> c' = newC"
  then obtain w1 where "w2 = w1\<lparr>w_memberCache := filter (\<lambda>((chat, user), entry). chat \<noteq> oldC \<and> chat \<noteq> newC) (w_memberCache w1),
     w_reachCache := filter (\<lambda>(chat, entry). chat \<noteq> oldC \<and> chat \<noteq> newC) (w_reachCache w1)\<rparr>"
    by (auto simp: repair_chat_migration_def bind_Inr ret_Inr invalidations_run)
  with c show "((c', u'), (r, x)) \<notin> set (w_memberCache w2)" "(c', (r, x)) \<notin> set (w_reachCache w2)" by auto
qed

theorem cached_permission_is_recent_witness:
  "\<exists>w1. can_manage_chat False 7 10 calm_env (start_world empty_db) = (Inr True, w1) \<and> cache_sound calm_env w1 \<and>
     fst (can_manage_chat False 7 10 calm_env w1) = Inr True"
proof -
  have s: "cache_sound calm_env (start_world empty_db)" by (simp add: cache_sound_def)
  define w1 where "w1 = snd (can_manage_chat False 7 10 calm_env (start_world empty_db))"
  have "fst (can_manage_chat False 7 10 calm_env (start_world empty_db)) = Inr True" by code_simp
  then have w1: "can_manage_chat False 7 10 calm_env (start_world empty_db) = (Inr True, w1)"
    unfolding w1_def by (metis prod.collapse)
  have again: "fst (can_manage_chat False 7 10 calm_env w1) = Inr True" unfolding w1_def by code_simp
  have "cache_sound calm_env w1"
    using conjunct1 [OF cached_permission_is_recent [OF s, where fresh = False and u = 7 and c = 10]] w1 by simp
  with w1 again show ?thesis by blast
qed

end
