(* ===== verification/Callbacks.thy ===== *)
theory Callbacks
  imports JsDate
begin

text \<open>
  The registry of callback data (\<open>src/telegram/callbacks.ts\<close>): every button carries a tag and its arguments
  between colons; the patterns of the handlers are regular expressions over the same shape.  A pattern is
  matched as a regular expression matches it: the first group takes as much as it can.
\<close>

section \<open>Patterns\<close>

text \<open>The groups that occur: \<open>[0-9a-f-]{36}\<close>, \<open>-?\d+\<close>, \<open>\d+\<close>, \<open>.+\<close>, \<open>[A-Za-z0-9_-]{22}\<close>, \<open>en|uk|fr|it\<close>.\<close>

datatype callback_field = HexId | SignedInt | Digits | AnyText | Token22 | LocaleName

definition hex_id_char :: "char \<Rightarrow> bool" where
  "hex_id_char c \<longleftrightarrow> is_digit c \<or> c = CHR ''-'' \<or> (97 \<le> char_code c \<and> char_code c \<le> 102)"

definition token_char :: "char \<Rightarrow> bool" where
  "token_char c \<longleftrightarrow> is_digit c \<or> c = CHR ''-'' \<or> c = CHR ''_'' \<or> (97 \<le> char_code c \<and> char_code c \<le> 122) \<or>
     (65 \<le> char_code c \<and> char_code c \<le> 90)"

definition digits :: "string \<Rightarrow> bool" where
  "digits s \<longleftrightarrow> s \<noteq> [] \<and> list_all is_digit s"

fun field_ok :: "callback_field \<Rightarrow> string \<Rightarrow> bool" where
  "field_ok HexId s = (length s = 36 \<and> list_all hex_id_char s)"
| "field_ok SignedInt s = (if s \<noteq> [] \<and> hd s = CHR ''-'' then digits (tl s) else digits s)"
| "field_ok Digits s = digits s"
| "field_ok AnyText s = (s \<noteq> [] \<and> list_all (\<lambda>c. char_code c \<noteq> 10 \<and> char_code c \<noteq> 13) s)"
| "field_ok Token22 s = (length s = 22 \<and> list_all token_char s)"
| "field_ok LocaleName s = (s \<in> {''en'', ''uk'', ''fr'', ''it''})"

record callback =
  cb_tag :: string
  cb_fields :: "callback_field list"

fun join_args :: "string list \<Rightarrow> string" where
  "join_args [] = []"
| "join_args [a] = a"
| "join_args (a # b # as) = a @ CHR '':'' # join_args (b # as)"

definition build_callback :: "callback \<Rightarrow> string list \<Rightarrow> string" where
  "build_callback cb args = cb_tag cb @ CHR '':'' # join_args args"

text \<open>The places of a colon, the last one first.\<close>

definition colons :: "string \<Rightarrow> nat list" where
  "colons s = rev (filter (\<lambda>i. s ! i = CHR '':'') [0..<length s])"

fun first_some :: "('a \<Rightarrow> 'b option) \<Rightarrow> 'a list \<Rightarrow> 'b option" where
  "first_some f [] = None"
| "first_some f (x # xs) = (case f x of Some y \<Rightarrow> Some y | None \<Rightarrow> first_some f xs)"

fun match_fields :: "callback_field list \<Rightarrow> string \<Rightarrow> string list option" where
  "match_fields [] s = (if s = [] then Some [] else None)"
| "match_fields [f] s = (if field_ok f s then Some [s] else None)"
| "match_fields (f # g # fs) s =
     first_some (\<lambda>i. if field_ok f (take i s) then map_option (\<lambda>as. take i s # as) (match_fields (g # fs) (drop (Suc i) s)) else None)
       (colons s)"

definition match_callback :: "callback \<Rightarrow> string \<Rightarrow> string list option" where
  "match_callback cb s =
     (if js_starts_with s (cb_tag cb @ '':'') then match_fields (cb_fields cb) (drop (length (cb_tag cb @ '':'')) s) else None)"

section \<open>The registry\<close>

definition chat_selection_data :: string where "chat_selection_data = ''cs''"
definition new_cancel_data :: string where "new_cancel_data = ''nc''"
definition billing_upgrade_data :: string where "billing_upgrade_data = ''bill:upgrade''"
definition billing_portal_data :: string where "billing_portal_data = ''bill:portal''"
definition language_close_data :: string where "language_close_data = ''lang:close''"
definition delete_me_confirm_data :: string where "delete_me_confirm_data = ''delme:c''"
definition delete_me_cancel_data :: string where "delete_me_cancel_data = ''delme:x''"

definition chat_menu_cb :: callback where "chat_menu_cb = \<lparr> cb_tag = ''cm'', cb_fields = [SignedInt] \<rparr>"
definition alias_list_cb :: callback where "alias_list_cb = \<lparr> cb_tag = ''cl'', cb_fields = [SignedInt] \<rparr>"
definition new_email_cb :: callback where "new_email_cb = \<lparr> cb_tag = ''cn'', cb_fields = [SignedInt] \<rparr>"
definition skip_alias_cb :: callback where "skip_alias_cb = \<lparr> cb_tag = ''ns'', cb_fields = [SignedInt] \<rparr>"
definition alias_detail_cb :: callback where "alias_detail_cb = \<lparr> cb_tag = ''am'', cb_fields = [HexId] \<rparr>"
definition alias_pause_cb :: callback where "alias_pause_cb = \<lparr> cb_tag = ''ap'', cb_fields = [HexId] \<rparr>"
definition alias_resume_cb :: callback where "alias_resume_cb = \<lparr> cb_tag = ''ar'', cb_fields = [HexId] \<rparr>"
definition alias_delete_cb :: callback where "alias_delete_cb = \<lparr> cb_tag = ''ad'', cb_fields = [HexId] \<rparr>"
definition alias_delete_confirm_cb :: callback where "alias_delete_confirm_cb = \<lparr> cb_tag = ''adc'', cb_fields = [HexId, Digits] \<rparr>"
definition alias_delete_cancel_cb :: callback where "alias_delete_cancel_cb = \<lparr> cb_tag = ''adx'', cb_fields = [HexId] \<rparr>"
definition alias_orphan_cb :: callback where "alias_orphan_cb = \<lparr> cb_tag = ''orp'', cb_fields = [HexId] \<rparr>"
definition alias_orphan_delete_cb :: callback where "alias_orphan_delete_cb = \<lparr> cb_tag = ''orpd'', cb_fields = [HexId, Digits] \<rparr>"
definition alias_move_cb :: callback where "alias_move_cb = \<lparr> cb_tag = ''mv'', cb_fields = [HexId] \<rparr>"
definition alias_move_target_cb :: callback where "alias_move_target_cb = \<lparr> cb_tag = ''mt'', cb_fields = [HexId, SignedInt, Digits] \<rparr>"
definition alias_move_confirm_cb :: callback where "alias_move_confirm_cb = \<lparr> cb_tag = ''mc'', cb_fields = [HexId, SignedInt, Digits] \<rparr>"
definition alias_set_topic_cb :: callback where "alias_set_topic_cb = \<lparr> cb_tag = ''tp'', cb_fields = [HexId, Digits] \<rparr>"
definition alias_clear_topic_cb :: callback where "alias_clear_topic_cb = \<lparr> cb_tag = ''tg'', cb_fields = [HexId, Digits] \<rparr>"
definition menu_close_cb :: callback where "menu_close_cb = \<lparr> cb_tag = ''mx'', cb_fields = [Digits] \<rparr>"
definition alias_settings_cb :: callback where "alias_settings_cb = \<lparr> cb_tag = ''ac'', cb_fields = [HexId] \<rparr>"
definition alias_label_edit_cb :: callback where "alias_label_edit_cb = \<lparr> cb_tag = ''ale'', cb_fields = [HexId] \<rparr>"
definition alias_label_clear_cb :: callback where "alias_label_clear_cb = \<lparr> cb_tag = ''alc'', cb_fields = [HexId] \<rparr>"
definition alias_label_cancel_cb :: callback where "alias_label_cancel_cb = \<lparr> cb_tag = ''alx'', cb_fields = [HexId] \<rparr>"
definition quick_allow_cb :: callback where "quick_allow_cb = \<lparr> cb_tag = ''qa'', cb_fields = [HexId, AnyText] \<rparr>"
definition quick_allow_rules_cb :: callback where "quick_allow_rules_cb = \<lparr> cb_tag = ''qr'', cb_fields = [HexId, AnyText] \<rparr>"
definition activation_allow_cb :: callback where "activation_allow_cb = \<lparr> cb_tag = ''rn'', cb_fields = [HexId, Token22] \<rparr>"
definition activation_rules_cb :: callback where "activation_rules_cb = \<lparr> cb_tag = ''rl'', cb_fields = [HexId] \<rparr>"
definition set_mode_cb :: callback where "set_mode_cb = \<lparr> cb_tag = ''set_mode'', cb_fields = [AnyText, AnyText] \<rparr>"
definition toggle_body_dedup_cb :: callback where "toggle_body_dedup_cb = \<lparr> cb_tag = ''toggle_body_dedup'', cb_fields = [HexId] \<rparr>"
definition toggle_privacy_mode_cb :: callback where "toggle_privacy_mode_cb = \<lparr> cb_tag = ''toggle_privacy_mode'', cb_fields = [HexId] \<rparr>"
definition allow_rules_cb :: callback where "allow_rules_cb = \<lparr> cb_tag = ''al'', cb_fields = [HexId] \<rparr>"
definition delete_rule_cb :: callback where "delete_rule_cb = \<lparr> cb_tag = ''dr'', cb_fields = [HexId] \<rparr>"
definition add_rule_cb :: callback where "add_rule_cb = \<lparr> cb_tag = ''aa'', cb_fields = [HexId] \<rparr>"
definition cancel_add_rule_cb :: callback where "cancel_add_rule_cb = \<lparr> cb_tag = ''na'', cb_fields = [HexId] \<rparr>"
definition upgrade_plan_cb :: callback where "upgrade_plan_cb = \<lparr> cb_tag = ''upg'', cb_fields = [AnyText] \<rparr>"
definition language_set_cb :: callback where "language_set_cb = \<lparr> cb_tag = ''lang'', cb_fields = [LocaleName] \<rparr>"

definition static_callbacks :: "string list" where
  "static_callbacks = [chat_selection_data, new_cancel_data, billing_upgrade_data, billing_portal_data, language_close_data, delete_me_confirm_data, delete_me_cancel_data]"

definition callbacks :: "callback list" where
  "callbacks =
     [chat_menu_cb, alias_list_cb, new_email_cb, skip_alias_cb, alias_detail_cb,
      alias_pause_cb, alias_resume_cb, alias_delete_cb, alias_delete_confirm_cb, alias_delete_cancel_cb,
      alias_orphan_cb, alias_orphan_delete_cb, alias_move_cb, alias_move_target_cb, alias_move_confirm_cb,
      alias_set_topic_cb, alias_clear_topic_cb, menu_close_cb, alias_settings_cb, alias_label_edit_cb,
      alias_label_clear_cb, alias_label_cancel_cb, quick_allow_cb, quick_allow_rules_cb, activation_allow_cb,
      activation_rules_cb, set_mode_cb, toggle_body_dedup_cb, toggle_privacy_mode_cb, allow_rules_cb,
      delete_rule_cb, add_rule_cb, cancel_add_rule_cb, upgrade_plan_cb, language_set_cb]"

section \<open>Round trips\<close>

text \<open>Arguments a button may be built with: each fits its group, and only the last may hold a colon, unless an
  earlier group is free text.\<close>

fun args_ok :: "callback_field list \<Rightarrow> string list \<Rightarrow> bool" where
  "args_ok [] as = (as = [])"
| "args_ok [f] as = (case as of [a] \<Rightarrow> field_ok f a | _ \<Rightarrow> False)"
| "args_ok (f # g # fs) as =
     (case as of
        a # b # bs \<Rightarrow> field_ok f a \<and> CHR '':'' \<notin> set a \<and> (f = AnyText \<longrightarrow> CHR '':'' \<notin> set (join_args (b # bs))) \<and> args_ok (g # fs) (b # bs)
      | _ \<Rightarrow> False)"

lemma colon_not_in_field: "field_ok f s \<Longrightarrow> f \<noteq> AnyText \<Longrightarrow> CHR '':'' \<notin> set s"
proof -
  have "\<not> hex_id_char (CHR '':'')" "\<not> token_char (CHR '':'')" "\<not> is_digit (CHR '':'')"
    by (simp_all add: hex_id_char_def token_char_def is_digit_def char_code_def)
  moreover assume "field_ok f s" "f \<noteq> AnyText"
  ultimately show ?thesis
    by (cases f; cases s) (auto simp: list_all_iff digits_def split: if_splits)
qed

lemma first_some_eq:
  assumes "first_some f xs = Some y"
  shows "\<exists>x\<in>set xs. f x = Some y"
  using assms by (induction xs) (auto split: option.splits)

lemma first_some_append: "first_some f (xs @ ys) = (case first_some f xs of Some y \<Rightarrow> Some y | None \<Rightarrow> first_some f ys)"
  by (induction xs) (auto split: option.split)

lemma first_some_None: "first_some f xs = None \<longleftrightarrow> (\<forall>x\<in>set xs. f x = None)"
  by (induction xs) (auto split: option.splits)

text \<open>What matches was put together from its groups.\<close>

lemma match_fields_join:
  "match_fields fs s = Some as \<Longrightarrow> s = join_args as \<and> list_all2 field_ok fs as \<and> length as = length fs"
proof (induction fs s arbitrary: as rule: match_fields.induct)
  case (3 f g fs s)
  then obtain i where i: "i \<in> set (colons s)" and m: "field_ok f (take i s)"
    and r: "map_option (\<lambda>as. take i s # as) (match_fields (g # fs) (drop (Suc i) s)) = Some as"
    by (auto dest!: first_some_eq split: if_splits)
  then obtain bs where bs: "match_fields (g # fs) (drop (Suc i) s) = Some bs" "as = take i s # bs" by auto
  have ih: "drop (Suc i) s = join_args bs \<and> list_all2 field_ok (g # fs) bs \<and> length bs = length (g # fs)"
    using "3.IH" [of i bs] m bs(1) by simp
  have ii: "i < length s" "s ! i = CHR '':''" using i by (auto simp: colons_def)
  then have "s = take i s @ CHR '':'' # drop (Suc i) s" by (metis id_take_nth_drop)
  with ih bs m show ?case by (cases bs) auto
qed (auto split: if_splits)

lemma upt_split: "k < n \<Longrightarrow> [0..<n] = [0..<k] @ k # [Suc k..<n]"
  using upt_add_eq_append [of 0 k "n - k"] by (simp add: upt_conv_Cons)

lemma args_ok_match: "args_ok fs as \<Longrightarrow> match_fields fs (join_args as) = Some as"
proof (induction fs as rule: args_ok.induct)
  case (2 f as)
  then show ?case by (cases as rule: join_args.cases) auto
next
  case (3 f g fs as)
  then obtain a b bs where as: "as = a # b # bs" and fa: "field_ok f a" "CHR '':'' \<notin> set a"
    and any: "f = AnyText \<longrightarrow> CHR '':'' \<notin> set (join_args (b # bs))" and rest: "args_ok (g # fs) (b # bs)"
    by (auto split: list.splits)
  let ?t = "join_args (b # bs)"
  let ?s = "a @ CHR '':'' # ?t"
  let ?f = "\<lambda>i. if field_ok f (take i ?s) then map_option (\<lambda>as. take i ?s # as) (match_fields (g # fs) (drop (Suc i) ?s)) else None"
  have up: "[0..<length ?s] = [0..<length a] @ length a # [Suc (length a)..<length ?s]"
    using upt_split [of "length a" "length ?s"] by simp
  have none: "filter (\<lambda>i. ?s ! i = CHR '':'') [0..<length a] = []"
    using fa(2) by (auto simp: filter_empty_conv nth_append in_set_conv_nth)
  have split: "colons ?s = rev (filter (\<lambda>i. ?s ! i = CHR '':'') [Suc (length a)..<length ?s]) @ [length a]"
    unfolding colons_def up using none by simp
  have later: "?f i = None" if "i \<in> set (rev (filter (\<lambda>i. ?s ! i = CHR '':'') [Suc (length a)..<length ?s]))" for i
  proof -
    have i: "Suc (length a) \<le> i" "i < length ?s" "?s ! i = CHR '':''" using that by auto
    have "CHR '':'' \<in> set (take i ?s)" using i(1) by (auto simp: take_append take_Cons' split: nat.split)
    moreover have "?t ! (i - Suc (length a)) = CHR '':''" "i - Suc (length a) < length ?t"
      using i by (auto simp: nth_append nth_Cons' split: if_splits)
    then have "CHR '':'' \<in> set ?t" by (metis nth_mem)
    ultimately show ?thesis using any colon_not_in_field [of f "take i ?s"] by auto
  qed
  have "match_fields (f # g # fs) ?s = ?f (length a)"
    using later by (simp only: match_fields.simps split first_some_append) (simp add: first_some_None option.case_eq_if del: set_rev)
  also have "\<dots> = Some as" using fa(1) 3(1) rest as by simp
  finally show ?case by (simp add: as)
qed auto

lemma tag_no_colon: "list_all (\<lambda>cb. CHR '':'' \<notin> set (cb_tag cb)) callbacks"
  and tags_distinct: "distinct (map cb_tag callbacks)"
  and static_unmatched: "list_all (\<lambda>s. list_all (\<lambda>cb. match_callback cb s = None) callbacks) static_callbacks"
  by code_simp+

lemma starts_with_tag: "js_starts_with s (t @ '':'') \<longleftrightarrow> (\<exists>r. s = t @ CHR '':'' # r)"
proof (induction t arbitrary: s)
  case Nil
  then show ?case by (cases s) auto
next
  case (Cons c t)
  then show ?case by (cases s) auto
qed

lemma colon_prefix_unique: "CHR '':'' \<notin> set t \<Longrightarrow> CHR '':'' \<notin> set u \<Longrightarrow> t @ CHR '':'' # r = u @ CHR '':'' # q \<Longrightarrow> t = u"
proof (induction t arbitrary: u)
  case Nil
  then show ?case by (cases u) auto
next
  case (Cons c t)
  then show ?case by (cases u) auto
qed

lemma match_callback_Some:
  "match_callback cb s = Some args \<longleftrightarrow> (\<exists>r. s = cb_tag cb @ CHR '':'' # r \<and> match_fields (cb_fields cb) r = Some args)"
  using starts_with_tag [of s "cb_tag cb"] by (auto simp: match_callback_def)



end
