(* ===== verification/AliasMove.thy ===== *)
theory AliasMove
  imports Authorization Callbacks Users
begin

text \<open>
  Moving and deleting an alias from the menus: \<open>src/telegram/menu/moveMenu.ts\<close> (picker, confirmation,
  execution) and \<open>src/telegram/menu/orphanMenu.ts\<close>.  A reply of the bot is the value the handler returns; that
  Telegram may refuse to show it changes nothing.
\<close>

section \<open>The picker\<close>

definition resolve_move_authz_path :: "bool \<Rightarrow> bigint \<Rightarrow> uuid \<Rightarrow> authz_path option io" where
  "resolve_move_authz_path fresh actorId aliasId =
     bind (can_manage_alias fresh actorId aliasId) (\<lambda>admin.
       if admin then ret (Some AdminPath)
       else bind (can_recover_orphan_alias fresh actorId aliasId) (\<lambda>orphan.
         ret (if orphan then Some OrphanPath else None)))"

text \<open>The icons in UTF-8.\<close>

definition chat_icon :: "string \<Rightarrow> string" where
  "chat_icon ty =
     (if ty = ''channel'' then [CHR 0xF0, CHR 0x9F, CHR 0x93, CHR 0xA2]
      else if ty = ''private'' then [CHR 0xF0, CHR 0x9F, CHR 0x91, CHR 0xA4] else [CHR 0xF0, CHR 0x9F, CHR 0x91, CHR 0xA5])"

definition move_target_data :: "alias_row \<Rightarrow> bigint \<Rightarrow> string" where
  "move_target_data a chatId = build_callback alias_move_target_cb [al_id a, int_string chatId, int_string (al_routingVersion a)]"

text \<open>Lines 66 to 98: the buttons, one per chat the actor may pick.\<close>

definition picker_targets :: "alias_row \<Rightarrow> bigint \<Rightarrow> bigint option \<Rightarrow> chat_row list \<Rightarrow> chat_row list" where
  "picker_targets a actorId chatId accessible =
     filter (\<lambda>c. ch_id c \<noteq> al_chatId a \<and> \<not> (ch_id c = actorId \<and> chatId \<noteq> Some actorId)) accessible"

definition picker_buttons :: "(string \<Rightarrow> string) \<Rightarrow> alias_row \<Rightarrow> bigint \<Rightarrow> bigint option \<Rightarrow> chat_row list \<Rightarrow> (string \<times> string) list" where
  "picker_buttons message a actorId chatId accessible =
     (let targets = picker_targets a actorId chatId accessible in
      map (\<lambda>c. (chat_icon (ch_type c) @ '' '' @ ch_title c, move_target_data a (ch_id c))) targets @
      (if chatId = Some actorId \<and> al_chatId a \<noteq> actorId \<and> \<not> list_ex (\<lambda>c. ch_id c = actorId) targets
       then [(message ''aliasMenu.moveToOwnDm'', move_target_data a actorId)] else []) @
      [(message ''aliasMenu.backButton'', build_callback alias_detail_cb [al_id a])])"

text \<open>None: the alias is gone, or the update names no sender.  The header line of the message is left out.\<close>

definition edit_move_picker_menu :: "bigint option \<Rightarrow> string option \<Rightarrow> bigint option \<Rightarrow> uuid \<Rightarrow> (string \<times> string) list option io" where
  "edit_move_picker_menu from languageCode chatId aliasId =
     bind (resolve_locale from languageCode) (\<lambda>locale.
     bind (db_read (find_alias_by_id aliasId)) (\<lambda>found.
       case (found, from) of
         (Some a, Some actorId) \<Rightarrow>
           bind (get_accessible_chats actorId) (\<lambda>accessible.
           bind (ask (\<lambda>e key. catalogue e (Some locale) key [])) (\<lambda>message.
           ret (Some (picker_buttons message a actorId chatId accessible))))
       | _ \<Rightarrow> ret None))"

section \<open>Executing a move\<close>

datatype move_reply =
    MoveAliasNotFound
  | MoveDeniedToast
  | MoveDenied move_denial
  | MoveChatMigrated
  | MoveRoutingChanged
  | MoveDone authz_path

text \<open>Lines 200 to 215, under the lock of the target chat: None when it was deactivated meanwhile.\<close>

definition move_under_lock :: "move_params \<Rightarrow> alias_row option option io" where
  "move_under_lock p =
     bind (db_read (find_chat_by_id (mv_newChatId p))) (\<lambda>targetRow.
       if (case targetRow of Some r \<Rightarrow> \<not> ch_isActive r | None \<Rightarrow> False) then ret None
       else bind (savepoint (move_alias_body p)) (\<lambda>moved. ret (Some moved)))"

definition move_params_of :: "alias_row \<Rightarrow> bigint \<Rightarrow> bigint \<Rightarrow> int \<Rightarrow> authz_path \<Rightarrow> move_params" where
  "move_params_of a actorId targetChatId expectedVersion authzPath =
     \<lparr> mv_aliasId = al_id a, mv_expectedVersion = expectedVersion, mv_newChatId = targetChatId, mv_oldChatId = al_chatId a,
       mv_oldThreadId = al_messageThreadId a, mv_actorId = Some actorId, mv_authzPath = authzPath,
       mv_aliasOwnerId = al_createdBy a, mv_operationId = None \<rparr>"

definition target_chat_type :: "bigint \<Rightarrow> bigint \<Rightarrow> chat_row option \<Rightarrow> string" where
  "target_chat_type actorId targetChatId targetChat =
     (if targetChatId = actorId then ''private'' else (case targetChat of Some c \<Rightarrow> ch_type c | None \<Rightarrow> ''supergroup''))"

definition target_probe :: "bigint \<Rightarrow> bigint option \<Rightarrow> bigint \<Rightarrow> chat_row option \<Rightarrow> move_probe" where
  "target_probe actorId chatId targetChatId targetChat =
     \<lparr> mp_chatId = targetChatId, mp_chatType = target_chat_type actorId targetChatId targetChat,
       mp_actorId = Some actorId, mp_interactionChatId = chatId \<rparr>"

definition authorized_move :: "bigint \<Rightarrow> bigint option \<Rightarrow> alias_row \<Rightarrow> bigint \<Rightarrow> int \<Rightarrow> authz_path \<Rightarrow> move_reply io" where
  "authorized_move actorId chatId a targetChatId expectedVersion authzPath =
     bind (db_read (find_chat_by_id targetChatId)) (\<lambda>targetChat.
     bind (can_actor_use_move_target (target_probe actorId chatId targetChatId targetChat) actorId) (\<lambda>denied.
       case denied of
         Some reason \<Rightarrow> ret (MoveDenied reason)
       | None \<Rightarrow>
           bind (with_chat_migration_lock targetChatId
             (move_under_lock (move_params_of a actorId targetChatId expectedVersion authzPath))) (\<lambda>moved.
           ret (case moved of None \<Rightarrow> MoveChatMigrated | Some None \<Rightarrow> MoveRoutingChanged | Some (Some _) \<Rightarrow> MoveDone authzPath))))"

definition execute_alias_move :: "bigint option \<Rightarrow> bigint option \<Rightarrow> uuid \<Rightarrow> bigint \<Rightarrow> int \<Rightarrow> move_reply option io" where
  "execute_alias_move from chatId aliasId targetChatId expectedVersion =
     (case from of
        None \<Rightarrow> ret None
      | Some actorId \<Rightarrow>
          bind (db_read (find_alias_by_id aliasId)) (\<lambda>found.
            case found of
              None \<Rightarrow> ret (Some MoveAliasNotFound)
            | Some a \<Rightarrow>
                if al_status a = Deleted then ret (Some MoveAliasNotFound)
                else bind (resolve_move_authz_path True actorId aliasId) (\<lambda>path.
                  case path of
                    None \<Rightarrow> ret (Some MoveDeniedToast)
                  | Some authzPath \<Rightarrow>
                      bind (authorized_move actorId chatId a targetChatId expectedVersion authzPath) (\<lambda>reply. ret (Some reply)))))"

section \<open>Orphans\<close>

datatype orphan_reply = OrphanUnavailable | OrphanNotFound | OrphanRoutingChanged | OrphanDeleted | OrphanMenu "string list"

definition edit_orphan_menu :: "bigint option \<Rightarrow> uuid \<Rightarrow> orphan_reply option io" where
  "edit_orphan_menu from aliasId =
     (case from of
        None \<Rightarrow> ret None
      | Some actorId \<Rightarrow>
          bind (db_read (find_alias_by_id aliasId)) (\<lambda>found.
            case found of
              None \<Rightarrow> ret (Some OrphanNotFound)
            | Some a \<Rightarrow>
                bind (can_recover_orphan_alias True actorId aliasId) (\<lambda>recoverable.
                ret (Some (if recoverable
                  then OrphanMenu [build_callback alias_move_cb [al_id a], build_callback alias_orphan_delete_cb [al_id a, int_string (al_routingVersion a)]]
                  else OrphanUnavailable)))))"

definition execute_orphan_delete :: "bigint option \<Rightarrow> uuid \<Rightarrow> int \<Rightarrow> orphan_reply option io" where
  "execute_orphan_delete from aliasId expectedVersion =
     (case from of
        None \<Rightarrow> ret None
      | Some actorId \<Rightarrow>
          bind (can_recover_orphan_alias True actorId aliasId) (\<lambda>recoverable.
            if \<not> recoverable then ret (Some OrphanUnavailable)
            else bind (db_read (find_alias_by_id aliasId)) (\<lambda>found.
              case found of
                None \<Rightarrow> ret (Some OrphanNotFound)
              | Some a \<Rightarrow>
                  bind (soft_delete_alias_with_cas aliasId expectedVersion) (\<lambda>deleted.
                  ret (Some (case deleted of None \<Rightarrow> OrphanRoutingChanged | Some _ \<Rightarrow> OrphanDeleted))))))"

section \<open>What a mutation rests on\<close>

lemma harmless_manage_chat: "harmless (can_manage_chat fresh u c)"
proof -
  have set: "harmless (set_member_cache mc)" for mc by (simp add: harmless_def cache_simps)
  have remember: "harmless (remember_member k r)" for k r
    unfolding remember_member_def by (intro harmless_bind harmless_basic set)
  show ?thesis unfolding can_manage_chat_def by (auto intro!: harmless_bind harmless_basic harmless_cache remember split: option.splits)
qed

lemma harmless_authorization:
  "harmless (can_manage_alias fresh u i)" "harmless (can_actor_use_move_target p a)"
proof -
  show "harmless (can_manage_alias fresh u i)"
    unfolding can_manage_alias_def
    by (auto intro!: harmless_bind harmless_basic harmless_read harmless_manage_chat split: option.splits)
  have "harmless (throw x)" for x by (simp add: harmless_def throw_def)
  then show "harmless (can_actor_use_move_target p a)"
    unfolding can_actor_use_move_target_def can_bot_send_to_chat_def get_member_def Let_def
    by (auto intro!: harmless_bind harmless_basic split: option.splits sum.splits)
qed

lemma harmlessD:
  assumes "harmless m" and "m e w = (r, w')"
  shows "w_db w' = w_db w" and "w_tx w = NoTx \<Longrightarrow> w_tx w' = NoTx"
  using assms unfolding harmless_def by (metis snd_conv)+

lemma advances_savepoint [advances_rules]: "advances m \<Longrightarrow> advances (savepoint m)"
proof -
  have r: "advances (rollback_to_savepoint d x)" for d x by (simp add: advances_def rollback_to_savepoint_def Let_def)
  assume "advances m"
  then show ?thesis unfolding savepoint_def by (intro advances_rules r)
qed

lemma advances_move [advances_rules]: "advances (with_chat_migration_lock c (move_under_lock p))"
  unfolding with_chat_migration_lock_def move_under_lock_def move_alias_body_def insert_alias_move_event_def
  by (intro advances_rules)

lemma advances_handlers [advances_rules]:
  "advances (resolve_move_authz_path fresh u i)" "advances (authorized_move actorId chatId a c v path)"
  unfolding resolve_move_authz_path_def authorized_move_def by (intro advances_rules)+

definition source_permission :: "env \<Rightarrow> world \<Rightarrow> world \<Rightarrow> bigint \<Rightarrow> alias_row \<Rightarrow> authz_path \<Rightarrow> bool" where
  "source_permission e w w' actorId a path \<longleftrightarrow>
     (case path of
        AdminPath \<Rightarrow> al_chatId a = actorId \<or> during w w' (is_admin_at e (al_chatId a) actorId)
      | OrphanPath \<Rightarrow> al_createdBy a = actorId \<and> during w w' (chat_dead_at e (al_chatId a))
      | MigrationPath \<Rightarrow> False)"

definition target_permission :: "env \<Rightarrow> world \<Rightarrow> world \<Rightarrow> bigint \<Rightarrow> bigint option \<Rightarrow> bigint \<Rightarrow> string \<Rightarrow> bool" where
  "target_permission e w w' actorId chatId targetChatId chatType \<longleftrightarrow>
     (if chatType = ''private'' then targetChatId = actorId \<and> chatId = Some actorId
      else during w w' (is_admin_at e targetChatId actorId) \<and> during w w' (bot_can_post_at e chatType targetChatId))"

lemma source_permission_mono:
  "source_permission e v v' u a path \<Longrightarrow> w_tick w \<le> w_tick v \<Longrightarrow> w_tick v' \<le> w_tick w' \<Longrightarrow> source_permission e w w' u a path"
  unfolding source_permission_def by (auto split: authz_path.splits intro: during_mono)

lemma target_permission_mono:
  "target_permission e v v' u ch c ty \<Longrightarrow> w_tick w \<le> w_tick v \<Longrightarrow> w_tick v' \<le> w_tick w' \<Longrightarrow> target_permission e w w' u ch c ty"
  unfolding target_permission_def by (auto split: if_splits intro: during_mono)

definition target_open :: "bigint \<Rightarrow> db \<Rightarrow> bool" where
  "target_open targetChatId d \<longleftrightarrow> (\<forall>c. find_chat_by_id targetChatId d = Some c \<longrightarrow> ch_isActive c)"

lemma move_under_lock_Inr:
  assumes "bind advisory_lock (\<lambda>_. move_under_lock p) e w = (Inr q, w')"
  shows "case q of Some (Some a) \<Rightarrow> target_open (mv_newChatId p) (w_db w) \<and> moved_with_audit p (w_db w) (w_db w') | _ \<Rightarrow> w_db w' = w_db w"
proof -
  define row w1 where r: "row = find_chat_by_id (mv_newChatId p) (w_db w)" and w1: "w1 = w\<lparr>w_tick := Suc (Suc (w_tick w))\<rparr>"
  have rest: "(if (case row of Some r \<Rightarrow> \<not> ch_isActive r | None \<Rightarrow> False) then ret None
       else bind (savepoint (move_alias_body p)) (\<lambda>moved. ret (Some moved))) e w1 = (Inr q, w')"
    using assms by (auto simp: move_under_lock_def bind_Inr advisory_lock_Inr db_read_Inr r w1)
  show ?thesis
  proof (cases "case row of Some r \<Rightarrow> \<not> ch_isActive r | None \<Rightarrow> False")
    case True
    with rest show ?thesis by (simp add: ret_Inr w1)
  next
    case False
    with rest obtain m where sp: "savepoint (move_alias_body p) e w1 = (Inr m, w')" and q: "q = Some m"
      by (auto simp: bind_Inr ret_Inr)
    obtain v v' where "move_alias_body p e v = (Inr m, v')" "w_db v = w_db w1" "w_db w' = w_db v'"
      using sp by (rule savepoint_InrD) blast
    then have "m = None \<and> w_db w' = w_db w \<or> (\<exists>a. m = Some a \<and> moved_with_audit p (w_db w) (w_db w'))"
      using move_alias_body_Inr [of p e v m v'] w1 by simp
    moreover have "target_open (mv_newChatId p) (w_db w)" using False r by (auto simp: target_open_def)
    ultimately show ?thesis using q by auto
  qed
qed

lemma locked_move:
  assumes "with_chat_migration_lock c (move_under_lock p) e w = (q, w')"
  shows "w_db w' = w_db w \<or> target_open (mv_newChatId p) (w_db w) \<and> moved_with_audit p (w_db w) (w_db w')"
    and "q = Inr (Some (Some a)) \<Longrightarrow> target_open (mv_newChatId p) (w_db w) \<and> moved_with_audit p (w_db w) (w_db w')"
proof -
  let ?m = "bind advisory_lock (\<lambda>_. move_under_lock p)"
  have t: "transaction ?m e w = (q, w')" using assms by (simp add: with_chat_migration_lock_def)
  show "w_db w' = w_db w \<or> target_open (mv_newChatId p) (w_db w) \<and> moved_with_audit p (w_db w) (w_db w')"
    using transaction_atomic [OF t] move_under_lock_Inr [of p e "begin_tx e w"] by (fastforce split: option.splits)
  have o: "stays_open ?m" unfolding move_under_lock_def by (intro open_rules)
  show "target_open (mv_newChatId p) (w_db w) \<and> moved_with_audit p (w_db w) (w_db w')" if q: "q = Inr (Some (Some a))"
  proof -
    obtain w2 where "?m e (begin_tx e w) = (Inr (Some (Some a)), w2)" "w_db w' = w_db w2"
      using t [unfolded q] o by (rule transaction_open_InrD)
    then show ?thesis using move_under_lock_Inr [of p e "begin_tx e w" "Some (Some a)" w2] by simp
  qed
qed

lemma authorized_move_effect:
  assumes "authorized_move actorId chatId a c v path e w = (q, w')" and "w_tx w = NoTx"
  shows "w_db w' = w_db w \<and> (\<forall>p. q \<noteq> Inr (MoveDone p)) \<or>
    target_permission e w w' actorId chatId c (target_chat_type actorId c (find_chat_by_id c (w_db w))) \<and>
    target_open c (w_db w) \<and> moved_with_audit (move_params_of a actorId c v path) (w_db w) (w_db w')"
proof -
  let ?p = "move_params_of a actorId c v path"
  have pc: "mv_newChatId ?p = c" by (simp add: move_params_of_def)
  obtain q1 w1 where r1: "db_read (find_chat_by_id c) e w = (q1, w1)" by fastforce
  have d1: "w_db w1 = w_db w" "w_tx w1 = NoTx" using harmlessD [OF harmless_read r1] assms(2) by simp_all
  show ?thesis
  proof (cases q1)
    case (Inl x)
    with assms(1) r1 d1 show ?thesis by (auto simp: authorized_move_def bind_def)
  next
    case (Inr tc)
    have tc: "tc = find_chat_by_id c (w_db w)" using r1 Inr by (simp add: db_read_Inr)
    obtain q2 w2 where r2: "can_actor_use_move_target (target_probe actorId chatId c tc) actorId e w1 = (q2, w2)" by fastforce
    have d2: "w_db w2 = w_db w" "w_tx w2 = NoTx" using harmlessD [OF harmless_authorization(2) r2] d1 by simp_all
    note run = assms(1) [unfolded authorized_move_def bind_def r1 Inr r2 prod.case sum.case]
    show ?thesis
    proof (cases "q2 = Inr None")
      case False
      with run d2 show ?thesis by (auto simp: ret_def bind_def r2 split: sum.splits option.splits)
    next
      case True
      obtain q3 w3 where r3: "with_chat_migration_lock c (move_under_lock ?p) e w2 = (q3, w3)" by fastforce
      have w': "w' = w3" "(\<exists>p. q = Inr (MoveDone p)) \<longrightarrow> (\<exists>a. q3 = Inr (Some (Some a)))"
        using run True r3 by (auto simp: bind_def r2 ret_def split: sum.splits option.splits)
      have ticks: "w_tick w \<le> w_tick w1" "w_tick w1 \<le> w_tick w2" "w_tick w2 \<le> w_tick w'"
        using advancesD [OF advances_db(1) r1] advancesD [OF advances_authorization(3) r2] advancesD [OF advances_move r3] w'(1) by simp_all
      have perm: "target_permission e w w' actorId chatId c (target_chat_type actorId c tc)"
        using usable_target [OF r2 [unfolded True]] ticks during_mono [of w1 w2 _ w w']
        by (auto simp: target_permission_def target_probe_def split: if_splits)
      show ?thesis using locked_move [OF r3] w' perm d2 unfolding pc tc by auto
    qed
  qed
qed

lemma resolve_effect:
  assumes "resolve_move_authz_path True actorId i e w = (q, w')" and "w_tx w = NoTx"
  shows "untouched_or_repaired (w_db w) (w_db w')"
    and "q = Inr (Some path) \<Longrightarrow> w_db w' = w_db w \<and> w_tx w' = NoTx \<and>
      (\<exists>a. find_alias_by_id i (w_db w) = Some a \<and> al_status a \<noteq> Deleted \<and> source_permission e w w' actorId a path)"
proof -
  obtain q1 w1 where r1: "can_manage_alias True actorId i e w = (q1, w1)" by fastforce
  have d1: "w_db w1 = w_db w" "w_tx w1 = NoTx" using harmlessD [OF harmless_authorization(1) r1] assms(2) by simp_all
  have t1: "w_tick w \<le> w_tick w1" using advancesD [OF advances_authorization(2) r1] .
  obtain q2 w2 where r2: "can_recover_orphan_alias True actorId i e w1 = (q2, w2)" by fastforce
  have rep: "untouched_or_repaired (w_db w) (w_db w2)"
    using may_repair_recover d1 r2 unfolding may_repair_def by (metis snd_conv)
  have same: "untouched_or_repaired d d" for d by (simp add: untouched_or_repaired_def)
  show "untouched_or_repaired (w_db w) (w_db w')"
    using assms(1) r1 r2 rep d1 same by (auto simp: resolve_move_authz_path_def bind_def ret_def split: sum.splits if_splits)
  assume q: "q = Inr (Some path)"
  show "w_db w' = w_db w \<and> w_tx w' = NoTx \<and>
      (\<exists>a. find_alias_by_id i (w_db w) = Some a \<and> al_status a \<noteq> Deleted \<and> source_permission e w w' actorId a path)"
  proof (cases "q1 = Inr True")
    case True
    with assms(1) r1 q have "w' = w1" "path = AdminPath" by (auto simp: resolve_move_authz_path_def bind_def ret_def)
    then show ?thesis using fresh_alias_admin [OF r1 [unfolded True]] d1 by (auto simp: source_permission_def)
  next
    case False
    with assms(1) r1 r2 q have w': "w' = w2" "path = OrphanPath" "q2 = Inr True"
      by (auto simp: resolve_move_authz_path_def bind_def ret_def split: sum.splits if_splits)
    obtain a where "find_alias_by_id i (w_db w1) = Some a" "al_status a \<noteq> Deleted" "al_createdBy a = actorId"
      "during w1 w2 (chat_dead_at e (al_chatId a))" "w_db w2 = w_db w1" "w_tx w2 = w_tx w1"
      using recovered_orphan [OF r2 [unfolded w'(3)]] by blast
    moreover have "w_tick w2 \<le> w_tick w'" by (simp add: w')
    ultimately show ?thesis using d1 w' t1 during_mono [of w1 w2 _ w w'] by (auto simp: source_permission_def)
  qed
qed

definition permitted_move :: "env \<Rightarrow> world \<Rightarrow> world \<Rightarrow> bigint \<Rightarrow> bigint option \<Rightarrow> uuid \<Rightarrow> bigint \<Rightarrow> int \<Rightarrow> bool" where
  "permitted_move e w w' actorId chatId i c v \<longleftrightarrow>
     (\<exists>a path. find_alias_by_id i (w_db w) = Some a \<and> al_status a \<noteq> Deleted \<and>
        source_permission e w w' actorId a path \<and>
        target_permission e w w' actorId chatId c (target_chat_type actorId c (find_chat_by_id c (w_db w))) \<and>
        target_open c (w_db w) \<and> moved_with_audit (move_params_of a actorId c v path) (w_db w) (w_db w'))"

lemma move_effect:
  assumes "execute_alias_move (Some actorId) chatId i c v e w = (r, w')" and "w_tx w = NoTx"
  shows "(untouched_or_repaired (w_db w) (w_db w') \<and> (\<forall>path. r \<noteq> Inr (Some (MoveDone path)))) \<or>
    permitted_move e w w' actorId chatId i c v"
proof -
  obtain q1 w1 where r1: "db_read (find_alias_by_id i) e w = (q1, w1)" by fastforce
  have d1: "w_db w1 = w_db w" "w_tx w1 = NoTx" using harmlessD [OF harmless_read r1] assms(2) by simp_all
  have same: "untouched_or_repaired d d" for d by (simp add: untouched_or_repaired_def)
  note run = assms(1) [unfolded execute_alias_move_def]
  show ?thesis
  proof (cases "\<exists>a. q1 = Inr (Some a) \<and> al_status a \<noteq> Deleted")
    case False
    with run r1 d1 same show ?thesis by (auto simp: bind_def ret_def split: sum.splits option.splits if_splits)
  next
    case True
    then obtain a where q1: "q1 = Inr (Some a)" "al_status a \<noteq> Deleted" by blast
    have a: "find_alias_by_id i (w_db w) = Some a" using r1 q1 by (simp add: db_read_Inr)
    obtain q2 w2 where r2: "resolve_move_authz_path True actorId i e w1 = (q2, w2)" by fastforce
    show ?thesis
    proof (cases "\<exists>path. q2 = Inr (Some path)")
      case False
      with run r1 q1 r2 resolve_effect(1) [OF r2 d1(2)] d1 show ?thesis
        by (auto simp: bind_def ret_def split: sum.splits option.splits)
    next
      case True
      then obtain path where q2: "q2 = Inr (Some path)" by blast
      obtain q3 where r3: "authorized_move actorId chatId a c v path e w2 = (q3, w')" and q3: "r = Inr (Some p) \<Longrightarrow> q3 = Inr p" for p
        using run r1 q1 r2 q2 by (auto simp: bind_def ret_def split: sum.splits prod.splits)
      have src: "w_db w2 = w_db w" "w_tx w2 = NoTx" "source_permission e w1 w2 actorId a path"
        using resolve_effect(2) [OF r2 d1(2) q2] d1 a by auto
      have ticks: "w_tick w \<le> w_tick w1" "w_tick w \<le> w_tick w2" "w_tick w2 \<le> w_tick w'"
        using advancesD [OF advances_db(1) r1] advancesD [OF advances_handlers(1) r2] advancesD [OF advances_handlers(2) r3] by simp_all
      show ?thesis using authorized_move_effect [OF r3 src(2)]
      proof (elim disjE conjE)
        assume "w_db w' = w_db w2" "\<forall>p. q3 \<noteq> Inr (MoveDone p)"
        then show ?thesis using q3 src(1) same by auto
      next
        assume "target_permission e w2 w' actorId chatId c (target_chat_type actorId c (find_chat_by_id c (w_db w2)))"
          "target_open c (w_db w2)" "moved_with_audit (move_params_of a actorId c v path) (w_db w2) (w_db w')"
        then have "permitted_move e w w' actorId chatId i c v"
          using a q1(2) src source_permission_mono [OF src(3) ticks(1,3)] target_permission_mono [OF _ ticks(2)]
          unfolding permitted_move_def by auto
        then show ?thesis ..
      qed
    qed
  qed
qed


definition move_world :: world where
  "move_world = start_world (empty_db\<lparr>aliases := [sample_alias],
     chats := [\<lparr> ch_id = 20, ch_title = ''ops'', ch_type = ''supergroup'', ch_isActive = True, ch_updatedAt = 0 \<rparr>]\<rparr>)"

lemma sample_move: "fst (execute_alias_move (Some 7) (Some 10) ''a1'' 20 3 calm_env move_world) = Inr (Some (MoveDone AdminPath))"
  by code_simp


text \<open>The other recovery action: an orphan is deleted by its creator only, while its chat is dead, and with the version he saw.\<close>

definition orphan_deleted :: "env \<Rightarrow> world \<Rightarrow> world \<Rightarrow> bigint \<Rightarrow> uuid \<Rightarrow> int \<Rightarrow> bool" where
  "orphan_deleted e w w' actorId i v \<longleftrightarrow>
     (\<exists>a suffix t. find_alias_by_id i (w_db w) = Some a \<and> al_status a \<noteq> Deleted \<and> al_createdBy a = actorId \<and>
        during w w' (chat_dead_at e (al_chatId a)) \<and> w_db w' = snd (cas_update i v (tombstone_row suffix t) (w_db w)))"

lemma soft_delete_effect:
  assumes "soft_delete_alias_with_cas i v e w = (r, w')"
  shows "w_db w' = w_db w \<or> (\<exists>suffix t. w_db w' = snd (cas_update i v (tombstone_row suffix t) (w_db w)))"
  using assms
  by (auto simp: soft_delete_alias_with_cas_def bind_def now_def at_tick_def db_stmt_def Let_def
      split: prod.splits sum.splits fault.splits if_splits) (metis snd_conv)+

lemma orphan_deletion_is_authorized:
  assumes "execute_orphan_delete (Some actorId) i v e w = (r, w')" and "w_tx w = NoTx"
  shows "untouched_or_repaired (w_db w) (w_db w') \<or> orphan_deleted e w w' actorId i v"
proof -
  obtain q1 w1 where r1: "can_recover_orphan_alias True actorId i e w = (q1, w1)" by fastforce
  have same: "untouched_or_repaired d d" for d by (simp add: untouched_or_repaired_def)
  have rep: "untouched_or_repaired (w_db w) (w_db w1)"
    using may_repair_recover assms(2) r1 unfolding may_repair_def by (metis snd_conv)
  show ?thesis
  proof (cases "q1 = Inr True")
    case False
    with assms(1) r1 rep show ?thesis by (auto simp: execute_orphan_delete_def bind_def ret_def split: sum.splits)
  next
    case True
    obtain a where a: "find_alias_by_id i (w_db w) = Some a" "al_status a \<noteq> Deleted" "al_createdBy a = actorId"
      "during w w1 (chat_dead_at e (al_chatId a))" "w_db w1 = w_db w"
      using recovered_orphan [OF r1 [unfolded True]] by blast
    obtain q2 w2 where r2: "db_read (find_alias_by_id i) e w1 = (q2, w2)" by fastforce
    have d2: "w_db w2 = w_db w" "w_tick w1 \<le> w_tick w2"
      using harmlessD(1) [OF harmless_read r2] a(5) advancesD [OF advances_db(1) r2] by simp_all
    obtain q3 w3 where r3: "soft_delete_alias_with_cas i v e w2 = (q3, w3)" by fastforce
    have "advances (soft_delete_alias_with_cas i v)" unfolding soft_delete_alias_with_cas_def by (intro advances_rules)
    then have t: "w_tick w2 \<le> w_tick w3" using r3 by (rule advancesD)
    have "w' = w2 \<or> w' = w3"
      using assms(1) r1 True r2 r3 by (auto simp: execute_orphan_delete_def bind_def ret_def split: sum.splits option.splits)
    then show ?thesis
    proof
      assume "w' = w2"
      with d2 same show ?thesis by simp
    next
      assume w': "w' = w3"
      with a(4) d2(2) t have "during w w' (chat_dead_at e (al_chatId a))" by (auto intro: during_mono)
      then show ?thesis using soft_delete_effect [OF r3] d2 w' a same unfolding orphan_deleted_def by auto
    qed
  qed
qed

end
