(* ===== verification/Impersonation.thy ===== *)
theory Impersonation
  imports Limits JsDate
begin

text \<open>
  The guard against alias names that impersonate a mailbox or a brand
  (\<open>src/abuse/aliasImpersonationGuard.ts\<close>): leet spellings are read back, separators removed, and
  the result compared with three blocklists.
\<close>

section \<open>The guard\<close>

definition exact_blocklist :: "string list" where
  "exact_blocklist = [''admin'', ''postmaster'', ''webmaster'', ''abuse'', ''security'', ''noreply'', ''support'', ''root'', ''hostmaster'']"

definition prefix_blocklist :: "string list" where
  "prefix_blocklist = [''support'', ''admin'', ''noreply'', ''security'', ''billing'', ''payments'', ''account'', ''verify'']"

definition brand_substrings_long :: "string list" where
  "brand_substrings_long = [''paypal'', ''stripe'', ''amazon'', ''google'', ''microsoft'', ''github'', ''facebook'', ''instagram'',
     ''twitter'', ''tiktok'', ''youtube'', ''netflix'', ''spotify'', ''dropbox'', ''gitlab'', ''coinbase'', ''binance'', ''kraken'',
     ''revolut'', ''barclays'', ''wellsfargo'', ''bankofamerica'', ''telegram'', ''discord'', ''whatsapp'', ''shopify'', ''cloudflare'']"

definition brand_short_bounded :: "string list" where
  "brand_short_bounded = [''meta'', ''bank'', ''wise'', ''chase'', ''apple'', ''hsbc'', ''slack'', ''adobe'', ''figma'', ''notion'']"

definition is_separator :: "char \<Rightarrow> bool" where
  "is_separator c \<longleftrightarrow> c = CHR ''.'' \<or> c = CHR ''_'' \<or> c = CHR ''-''"

text \<open>\<open>(?:^|[._\d-])brand(?:[._\d-]|$)\<close>, anywhere in the candidate.\<close>

definition boundary_char :: "char \<Rightarrow> bool" where
  "boundary_char c \<longleftrightarrow> is_separator c \<or> is_digit c"

definition short_brand_at_boundary :: "string \<Rightarrow> string \<Rightarrow> bool" where
  "short_brand_at_boundary candidate brand \<longleftrightarrow>
     list_ex (\<lambda>i. js_starts_with (drop i candidate) brand \<and> (i = 0 \<or> boundary_char (candidate ! (i - 1))) \<and>
       (i + length brand = length candidate \<or> boundary_char (candidate ! (i + length brand)))) [0..<Suc (length candidate)]"

definition leet_base :: "char \<Rightarrow> char" where
  "leet_base c = (if c = CHR ''0'' then CHR ''o'' else if c = CHR ''3'' then CHR ''e'' else if c = CHR ''4'' then CHR ''a''
     else if c = CHR ''5'' then CHR ''s'' else if c = CHR ''@'' then CHR ''a'' else c)"

definition max_leet_ones_expanded :: nat where "max_leet_ones_expanded = 5"

definition ones_of :: "string \<Rightarrow> nat list" where
  "ones_of s = filter (\<lambda>i. s ! i = CHR ''1'') [0..<length s]"

definition replace_ones :: "char \<Rightarrow> string \<Rightarrow> string" where
  "replace_ones c s = map (\<lambda>d. if d = CHR ''1'' then c else d) s"

text \<open>\<open>chars[ones[j]] = (bits >> j) & 1 ? "l" : "i"\<close> for every \<open>j\<close>.\<close>

definition spell_mask :: "nat list \<Rightarrow> string \<Rightarrow> nat \<Rightarrow> string" where
  "spell_mask ones base bits =
     fold (\<lambda>j chars. chars[ones ! j := (if odd (bits div 2 ^ j) then CHR ''l'' else CHR ''i'')]) [0..<length ones] base"

definition leet_variants :: "string \<Rightarrow> string list" where
  "leet_variants lower =
     (let ones = ones_of lower; base = map leet_base lower in
      if ones = [] then [base]
      else if max_leet_ones_expanded < length ones
      then (let allI = replace_ones (CHR ''i'') base; allL = replace_ones (CHR ''l'') base
            in if allI = allL then [allI] else [allI, allL])
      else map (spell_mask ones base) [0..<2 ^ length ones])"

definition strip_separators :: "string \<Rightarrow> string" where
  "strip_separators s = filter (\<lambda>c. \<not> is_separator c) s"

fun matches_prefix_at_boundary :: "string \<Rightarrow> string \<Rightarrow> bool" where
  "matches_prefix_at_boundary [] p = (p = [])"
| "matches_prefix_at_boundary (c # cs) [] = (is_separator c \<or> is_digit c)"
| "matches_prefix_at_boundary (c # cs) (q # p) =
     (if is_separator c then matches_prefix_at_boundary cs (q # p) else c = q \<and> matches_prefix_at_boundary cs p)"

definition matches_any_blocklist :: "string \<Rightarrow> string \<Rightarrow> bool" where
  "matches_any_blocklist candidate stripped \<longleftrightarrow>
     stripped \<in> set exact_blocklist \<or>
     list_ex (matches_prefix_at_boundary candidate) prefix_blocklist \<or>
     list_ex (js_includes stripped) brand_substrings_long \<or>
     list_ex (\<lambda>brand. short_brand_at_boundary candidate brand \<or> candidate \<noteq> stripped \<and> js_includes stripped brand) brand_short_bounded"

definition impersonates :: "string \<Rightarrow> bool" where
  "impersonates rawName \<longleftrightarrow>
     (let lower = js_lower rawName
      in list_ex (\<lambda>candidate. matches_any_blocklist candidate (strip_separators candidate)) (lower # leet_variants lower))"

definition assert_alias_not_impersonation :: "string \<Rightarrow> unit io" where
  "assert_alias_not_impersonation rawName =
     bind (ask should_enforce_hosted_limits) (\<lambda>enforced.
       if enforced \<and> impersonates rawName then throw (Raised ''AliasImpersonationError'') else ret ())"

section \<open>Readings of a name\<close>

text \<open>The reference: every digit that looks like a letter is read as one, a \<open>1\<close> as \<open>i\<close> or as \<open>l\<close>.\<close>

fun readings :: "string \<Rightarrow> string list" where
  "readings [] = [[]]"
| "readings (c # s) =
     (if c = CHR ''1'' then map ((#) (CHR ''i'')) (readings s) @ map ((#) (CHR ''l'')) (readings s)
      else map ((#) (leet_base c)) (readings s))"

definition reads_as :: "char \<Rightarrow> char \<Rightarrow> bool" where
  "reads_as c r \<longleftrightarrow> (if c = CHR ''1'' then r = CHR ''i'' \<or> r = CHR ''l'' else r = leet_base c)"

lemma readings_iff: "r \<in> set (readings s) \<longleftrightarrow> list_all2 reads_as s r"
  by (induction s arbitrary: r) (auto simp: reads_as_def list_all2_Cons1)

lemma fold_update_length: "length (fold (\<lambda>j c. c[f j := g j]) js c) = length c"
  by (induction js arbitrary: c) auto

lemma fold_update_other: "\<forall>j\<in>set js. f j \<noteq> k \<Longrightarrow> fold (\<lambda>j c. c[f j := g j]) js c ! k = c ! k"
  by (induction js arbitrary: c) auto

lemma fold_update_at:
  assumes "j \<in> set js" and "distinct (map f js)" and "f j < length c"
  shows "fold (\<lambda>j c. c[f j := g j]) js c ! f j = g j"
  using assms
proof (induction js arbitrary: c)
  case (Cons i js)
  show ?case
  proof (cases "i = j")
    case True
    then have "\<forall>k\<in>set js. f k \<noteq> f j" using Cons.prems(2) by (metis distinct.simps(2) imageI list.simps(9) set_map)
    then show ?thesis using True Cons.prems(3) by (simp add: fold_update_other)
  next
    case False
    then show ?thesis using Cons by simp
  qed
qed simp

lemma ones_of_iff: "i \<in> set (ones_of s) \<longleftrightarrow> i < length s \<and> s ! i = CHR ''1''"
  by (auto simp: ones_of_def)

lemma spell_mask_length: "length (spell_mask ones base bits) = length base"
  by (simp add: spell_mask_def fold_update_length)

lemma spell_mask_other: "i \<notin> set ones \<Longrightarrow> spell_mask ones base bits ! i = base ! i"
  unfolding spell_mask_def by (rule fold_update_other) (auto simp: in_set_conv_nth)

lemma spell_mask_one:
  assumes "j < length ones" and "distinct ones" and "ones ! j < length base"
  shows "spell_mask ones base bits ! (ones ! j) = (if odd (bits div 2 ^ j) then CHR ''l'' else CHR ''i'')"
  unfolding spell_mask_def using assms by (intro fold_update_at) (auto simp: map_nth)

lemma spell_mask_reading:
  shows "spell_mask (ones_of s) (map leet_base s) bits \<in> set (readings s)"
  unfolding readings_iff
proof (rule list_all2_all_nthI)
  show "length s = length (spell_mask (ones_of s) (map leet_base s) bits)" by (simp add: spell_mask_length)
next
  fix i assume i: "i < length s"
  show "reads_as (s ! i) (spell_mask (ones_of s) (map leet_base s) bits ! i)"
  proof (cases "i \<in> set (ones_of s)")
    case True
    then obtain j where "j < length (ones_of s)" "ones_of s ! j = i" by (auto simp: in_set_conv_nth)
    moreover have "distinct (ones_of s)" by (simp add: ones_of_def)
    ultimately show ?thesis using spell_mask_one [of j "ones_of s" "map leet_base s" bits] i True
      by (simp add: reads_as_def ones_of_iff)
  next
    case False
    then show ?thesis using i spell_mask_other by (simp add: reads_as_def ones_of_iff)
  qed
qed

lemma reading_spelled:
  assumes "r \<in> set (readings s)"
  shows "\<exists>bits < 2 ^ length (ones_of s). r = spell_mask (ones_of s) (map leet_base s) bits"
proof -
  let ?ones = "ones_of s"
  let ?bs = "map (\<lambda>j. r ! (?ones ! j) = CHR ''l'') [0..<length ?ones]"
  let ?bits = "horner_sum of_bool 2 ?bs :: nat"
  have r: "list_all2 reads_as s r" using assms by (simp add: readings_iff)
  have d: "distinct ?ones" by (simp add: ones_of_def)
  have "r ! i = spell_mask ?ones (map leet_base s) ?bits ! i" if i: "i < length s" for i
  proof (cases "i \<in> set ?ones")
    case True
    then obtain j where j: "j < length ?ones" "?ones ! j = i" by (auto simp: in_set_conv_nth)
    have "odd (?bits div 2 ^ j) \<longleftrightarrow> r ! i = CHR ''l''"
      using j by (simp flip: bit_iff_odd add: bit_horner_sum_bit_iff)
    moreover have "r ! i = CHR ''i'' \<or> r ! i = CHR ''l''"
      using list_all2_nthD [OF r i] True by (simp add: reads_as_def ones_of_iff)
    ultimately show ?thesis using spell_mask_one [OF j(1) d, of "map leet_base s" ?bits] i j(2) by auto
  next
    case False
    then show ?thesis using list_all2_nthD [OF r i] i spell_mask_other by (simp add: reads_as_def ones_of_iff)
  qed
  then have "r = spell_mask ?ones (map leet_base s) ?bits"
    using list_all2_lengthD [OF r] by (intro nth_equalityI) (simp_all add: spell_mask_length)
  moreover have "?bits < 2 ^ length ?ones" using horner_sum_of_bool_2_less [of ?bs] by simp
  ultimately show ?thesis by blast
qed

lemma leet_variants_readings:
  assumes "length (ones_of s) \<le> max_leet_ones_expanded"
  shows "set (leet_variants s) = set (readings s)"
proof (cases "ones_of s = []")
  case True
  then have base: "spell_mask (ones_of s) (map leet_base s) bits = map leet_base s" for bits by (simp add: spell_mask_def)
  have "map leet_base s \<in> set (readings s)" using spell_mask_reading [of s 0] unfolding base .
  moreover have "r = map leet_base s" if "r \<in> set (readings s)" for r using reading_spelled [OF that] unfolding base by blast
  ultimately have "set (readings s) = {map leet_base s}" by blast
  then show ?thesis using True by (simp add: leet_variants_def)
next
  case False
  then have "set (leet_variants s) = spell_mask (ones_of s) (map leet_base s) ` {0..<2 ^ length (ones_of s)}"
    using assms by (simp add: leet_variants_def Let_def)
  also have "\<dots> = set (readings s)" using spell_mask_reading reading_spelled [of _ s] by fastforce
  finally show ?thesis .
qed

section \<open>Disguises\<close>

text \<open>A text spells a name when separators are put anywhere and letters are replaced by digits that look like them.\<close>

fun spells :: "string \<Rightarrow> string \<Rightarrow> bool" where
  "spells [] b = (b = [])"
| "spells (c # cs) b =
     (if is_separator c then spells cs b
      else case b of [] \<Rightarrow> False | q # bs \<Rightarrow> reads_as c q \<and> spells cs bs)"

lemma leet_base_separator: "is_separator c \<Longrightarrow> leet_base c = c \<and> c \<noteq> CHR ''1''"
  by (auto simp: is_separator_def leet_base_def)

lemma reads_as_no_separator: "reads_as c q \<Longrightarrow> \<not> is_separator c \<Longrightarrow> \<not> is_separator q"
  by (auto simp: reads_as_def leet_base_def is_separator_def split: if_splits)

lemma spells_reading: "spells s b \<Longrightarrow> \<exists>r\<in>set (readings s). strip_separators r = b"
proof (induction s b rule: spells.induct)
  case (2 c cs b)
  show ?case
  proof (cases "is_separator c")
    case True
    with 2 obtain r where "r \<in> set (readings cs)" "strip_separators r = b" by auto
    moreover have "c # r \<in> set (readings (c # cs))" using \<open>r \<in> set (readings cs)\<close> leet_base_separator [OF True] by simp
    ultimately show ?thesis using True by (intro bexI [of _ "c # r"]) (auto simp: strip_separators_def)
  next
    case False
    with 2 obtain q bs r where b: "b = q # bs" "reads_as c q" "r \<in> set (readings cs)" "strip_separators r = bs"
      by (auto split: list.splits)
    then have "q # r \<in> set (readings (c # cs))" by (simp add: readings_iff del: readings.simps)
    moreover have "strip_separators (q # r) = b" using b reads_as_no_separator [OF b(2) False] by (simp add: strip_separators_def)
    ultimately show ?thesis by blast
  qed
qed (simp add: strip_separators_def)

lemma readings_nonempty: "readings s \<noteq> []"
  by (induction s) auto

lemma starts_with_own_prefix: "js_starts_with (b @ s) b"
  by (induction b) (cases s; simp)+

lemma spells_inside:
  assumes "spells mid b"
  shows "\<exists>r\<in>set (readings (pre @ mid @ post)). js_includes (strip_separators r) b"
proof -
  obtain r1 r2 r3 where r: "r1 \<in> set (readings pre)" "r2 \<in> set (readings mid)" "strip_separators r2 = b" "r3 \<in> set (readings post)"
    using spells_reading [OF assms] readings_nonempty [of pre] readings_nonempty [of post] by (meson list.set_sel(1))
  then have "r1 @ r2 @ r3 \<in> set (readings (pre @ mid @ post))" by (simp add: readings_iff list_all2_appendI)
  moreover have "js_includes (strip_separators (r1 @ r2 @ r3)) b"
    using js_includes_append [OF starts_with_own_prefix [of b "strip_separators r3"], of "strip_separators r1"] r(3)
    by (simp add: strip_separators_def)
  ultimately show ?thesis by blast
qed

text \<open>C14: On a hosted deployment the guard sees through every disguise of up to five ones: a name is refused exactly when
  itself or one of its readings is blocked, so no brand comes through with separators between its letters or
  digits in their place, wherever it stands in the name, and no reserved mailbox does.\<close>

theorem no_disguised_brand:
  assumes "should_enforce_hosted_limits e" and "length (ones_of (js_lower name)) \<le> 5"
  shows "(fst (assert_alias_not_impersonation name e w) = Inr () \<longleftrightarrow>
      (\<forall>r\<in>set (js_lower name # readings (js_lower name)). \<not> matches_any_blocklist r (strip_separators r))) \<and>
    (\<forall>pre mid post brand. js_lower name = pre @ mid @ post \<and> spells mid brand \<and> brand \<in> set brand_substrings_long \<longrightarrow>
      assert_alias_not_impersonation name e w = (Inl (Raised ''AliasImpersonationError''), w)) \<and>
    (\<forall>mailbox. spells (js_lower name) mailbox \<and> mailbox \<in> set exact_blocklist \<longrightarrow>
      assert_alias_not_impersonation name e w = (Inl (Raised ''AliasImpersonationError''), w))"
proof -
  let ?s = "js_lower name"
  have imp: "impersonates name \<longleftrightarrow> (\<exists>r\<in>set (?s # readings ?s). matches_any_blocklist r (strip_separators r))"
    using leet_variants_readings [of ?s] assms(2) by (auto simp: impersonates_def Let_def list_ex_iff max_leet_ones_expanded_def)
  have guard: "assert_alias_not_impersonation name e w = (if impersonates name then (Inl (Raised ''AliasImpersonationError''), w) else (Inr (), w))"
    using assms(1) by (simp add: assert_alias_not_impersonation_def bind_def ask_def throw_def ret_def)
  have hit: "impersonates name" if "r \<in> set (readings ?s)" "matches_any_blocklist r (strip_separators r)" for r
    using that imp by auto
  show ?thesis
  proof (intro conjI allI impI)
    show "fst (assert_alias_not_impersonation name e w) = Inr () \<longleftrightarrow>
      (\<forall>r\<in>set (?s # readings ?s). \<not> matches_any_blocklist r (strip_separators r))"
      unfolding guard using imp by auto
  next
    fix pre mid post brand assume "?s = pre @ mid @ post \<and> spells mid brand \<and> brand \<in> set brand_substrings_long"
    then have "impersonates name" using spells_inside [of mid brand pre post] hit by (auto simp: matches_any_blocklist_def list_ex_iff)
    then show "assert_alias_not_impersonation name e w = (Inl (Raised ''AliasImpersonationError''), w)" by (simp add: guard)
  next
    fix mailbox assume "spells ?s mailbox \<and> mailbox \<in> set exact_blocklist"
    then have "impersonates name" using spells_reading [of ?s mailbox] hit by (auto simp: matches_any_blocklist_def)
    then show "assert_alias_not_impersonation name e w = (Inl (Raised ''AliasImpersonationError''), w)" by (simp add: guard)
  qed
qed

lemma no_disguised_brand_witness:
  "assert_alias_not_impersonation ''my.G-1t.1ab'' (calm_env\<lparr>app_mode_env := Some ''hosted''\<rparr>) (start_world empty_db) =
     (Inl (Raised ''AliasImpersonationError''), start_world empty_db)"
proof -
  have h: "should_enforce_hosted_limits (calm_env\<lparr>app_mode_env := Some ''hosted''\<rparr>)" by (simp add: should_enforce_hosted_limits_def)
  have "length (ones_of (js_lower ''my.G-1t.1ab'')) \<le> 5" by code_simp
  moreover have "js_lower ''my.G-1t.1ab'' = ''my.'' @ ''g-1t.1ab'' @ [] \<and> spells ''g-1t.1ab'' ''gitlab'' \<and> ''gitlab'' \<in> set brand_substrings_long"
    by code_simp
  ultimately show ?thesis using no_disguised_brand [OF h, of "''my.G-1t.1ab''" "start_world empty_db"] by blast
qed

text \<open>More than five ones are only read all alike, as the source says.\<close>

lemma six_ones_escape: "\<not> impersonates ''g1t1ab-1-1-1-1''" "impersonates ''g1t1ab-1-1-1''"
  by code_simp+

end
