(* ===== verification/HostedLimits.thy ===== *)
theory HostedLimits
  imports Users IsoTime "HOL-Library.List_Lexorder"
begin

text \<open>
  Daily limits of a hosted deployment: counters per bucket and day (\<open>src/db/repos/hostedOnboardingAttempts.ts\<close>),
  the limit on new aliases (\<open>src/abuse/hostedAliasCreation.ts\<close>) and the one on new accounts
  (\<open>src/abuse/hostedOnboarding.ts\<close>).
\<close>

section \<open>Buckets\<close>

record rate_bucket =
  rb_bucketType :: string
  rb_bucketKey :: string
  rb_limit :: int

definition is_bucket :: "string \<Rightarrow> string \<Rightarrow> string \<Rightarrow> bucket_row \<Rightarrow> bool" where
  "is_bucket ty k ws r \<longleftrightarrow> hb_bucketType r = ty \<and> hb_bucketKey r = k \<and> hb_windowStart r = ws"

definition find_bucket :: "string \<Rightarrow> string \<Rightarrow> string \<Rightarrow> db \<Rightarrow> bucket_row option" where
  "find_bucket ty k ws d = select_first (is_bucket ty k ws) (hostedOnboardingAttempts d)"

definition bucket_attempts :: "string \<Rightarrow> string \<Rightarrow> string \<Rightarrow> db \<Rightarrow> int" where
  "bucket_attempts ty k ws d = (case find_bucket ty k ws d of None \<Rightarrow> 0 | Some r \<Rightarrow> hb_attempts r)"

text \<open>\<open>INSERT ... ON CONFLICT (bucket_type, bucket_key, window_start) DO UPDATE\<close>\<close>

definition count_attempt :: "string \<Rightarrow> string \<Rightarrow> string \<Rightarrow> db \<Rightarrow> db" where
  "count_attempt ty k ws d =
     (if find_bucket ty k ws d = None
      then d\<lparr> hostedOnboardingAttempts := hostedOnboardingAttempts d @
             [\<lparr> hb_bucketType = ty, hb_bucketKey = k, hb_windowStart = ws, hb_attempts = 1 \<rparr>] \<rparr>
      else d\<lparr> hostedOnboardingAttempts :=
             update_where (is_bucket ty k ws) (\<lambda>r. r\<lparr> hb_attempts := hb_attempts r + 1 \<rparr>) (hostedOnboardingAttempts d) \<rparr>)"

definition increment_bucket :: "string \<Rightarrow> string \<Rightarrow> string \<Rightarrow> unit io" where
  "increment_bucket ty k ws = db_write (count_attempt ty k ws)"

text \<open>\<open>localeCompare\<close> on \<open>type:key\<close>; the callers' tags are ASCII, where it is the order of the characters.\<close>

definition bucket_order :: "rate_bucket list \<Rightarrow> rate_bucket list" where
  "bucket_order = sort_key (\<lambda>b. map char_code (rb_bucketType b @ '':'' @ rb_bucketKey b))"

definition reserve_hosted_rate_limit_buckets_in_transaction :: "string \<Rightarrow> rate_bucket list \<Rightarrow> bool io" where
  "reserve_hosted_rate_limit_buckets_in_transaction windowStart buckets =
     (if buckets = [] then ret True
      else let sortedBuckets = bucket_order buckets in
        bind (for_each sortedBuckets (\<lambda>_. advisory_lock)) (\<lambda>_.
        bind (for_map sortedBuckets (\<lambda>b. db_read (find_bucket (rb_bucketType b) (rb_bucketKey b) windowStart))) (\<lambda>existingBuckets.
          if list_ex (\<lambda>(row, b). rb_limit b \<le> (case row of None \<Rightarrow> 0 | Some r \<Rightarrow> hb_attempts r)) (zip existingBuckets sortedBuckets)
          then ret False
          else bind (for_each sortedBuckets (\<lambda>b. increment_bucket (rb_bucketType b) (rb_bucketKey b) windowStart)) (\<lambda>_.
            ret True))))"

section \<open>Accounts and aliases\<close>

record onboarding_limits =
  perTelegramUserDaily :: int
  globalDaily :: int

definition default_limits :: onboarding_limits where
  "default_limits = \<lparr> perTelegramUserDaily = 3, globalDaily = 100 \<rparr>"

definition onboarding_buckets :: "onboarding_limits \<Rightarrow> bigint \<Rightarrow> rate_bucket list" where
  "onboarding_buckets limits telegramUserId =
     [\<lparr> rb_bucketType = ''global'', rb_bucketKey = ''all'', rb_limit = globalDaily limits \<rparr>,
      \<lparr> rb_bucketType = ''telegram_user'', rb_bucketKey = int_string telegramUserId, rb_limit = perTelegramUserDaily limits \<rparr>]"

definition reserve_hosted_onboarding_attempt_in_transaction :: "bigint \<Rightarrow> onboarding_limits \<Rightarrow> bool io" where
  "reserve_hosted_onboarding_attempt_in_transaction telegramUserId limits =
     bind now (\<lambda>t. reserve_hosted_rate_limit_buckets_in_transaction (iso_date t) (onboarding_buckets limits telegramUserId))"

definition reserve_hosted_onboarding_attempt :: "bigint \<Rightarrow> onboarding_limits \<Rightarrow> bool io" where
  "reserve_hosted_onboarding_attempt telegramUserId limits =
     bind now (\<lambda>t. transaction (reserve_hosted_rate_limit_buckets_in_transaction (iso_date t) (onboarding_buckets limits telegramUserId)))"

definition daily_alias_attempts_per_telegram_user :: int where "daily_alias_attempts_per_telegram_user = 10"

definition alias_bucket :: "bigint \<Rightarrow> rate_bucket" where
  "alias_bucket telegramUserId = \<lparr> rb_bucketType = ''alias_create_telegram_user'', rb_bucketKey = int_string telegramUserId,
     rb_limit = daily_alias_attempts_per_telegram_user \<rparr>"

definition reserve_hosted_alias_create_attempt :: "bigint \<Rightarrow> unit io" where
  "reserve_hosted_alias_create_attempt telegramUserId =
     bind now (\<lambda>t.
     bind (ask should_enforce_hosted_limits) (\<lambda>throttled.
       if \<not> throttled then ret ()
       else bind (reserve_hosted_rate_limit_buckets_in_transaction (iso_date t) [alias_bucket telegramUserId]) (\<lambda>ok.
         if ok then ret () else throw (Raised ''HostedAliasCreateRateLimitError''))))"

definition onboarding_body :: "bigint \<Rightarrow> string option \<Rightarrow> string option \<Rightarrow> user_row io" where
  "onboarding_body userId username locale =
     bind advisory_lock (\<lambda>_.
     bind (find_user_by_id userId) (\<lambda>existing.
       if existing \<noteq> None then upsert_user userId username locale
       else bind (reserve_hosted_onboarding_attempt_in_transaction userId default_limits) (\<lambda>ok.
         if \<not> ok then throw (Raised ''HostedOnboardingRateLimitError'')
         else upsert_user userId username locale)))"

definition ensure_user_with_onboarding_limit :: "bigint \<Rightarrow> string option \<Rightarrow> string option \<Rightarrow> user_row io" where
  "ensure_user_with_onboarding_limit userId username locale = transaction (onboarding_body userId username locale)"

section \<open>What a reservation does\<close>

lemma count_attempt_attempts:
  "bucket_attempts ty k ws (count_attempt ty' k' ws' d) =
     bucket_attempts ty k ws d + (if ty = ty' \<and> k = k' \<and> ws = ws' then 1 else 0)"
proof -
  have keep: "is_bucket ty k ws (r\<lparr> hb_attempts := n \<rparr>) = is_bucket ty k ws r" for r n by (simp add: is_bucket_def)
  have sel: "select_first (is_bucket ty k ws) (update_where (is_bucket ty' k' ws') (\<lambda>r. r\<lparr> hb_attempts := hb_attempts r + 1 \<rparr>) rs) =
      map_option (\<lambda>r. if is_bucket ty' k' ws' r then r\<lparr> hb_attempts := hb_attempts r + 1 \<rparr> else r) (select_first (is_bucket ty k ws) rs)" for rs
    by (induction rs) (auto simp: keep)
  show ?thesis
  proof (cases "ty = ty' \<and> k = k' \<and> ws = ws'")
    case True
    then have eq: "ty' = ty" "k' = k" "ws' = ws" by simp_all
    show ?thesis
    proof (cases "find_bucket ty k ws d")
      case None
      then show ?thesis unfolding eq
        by (simp add: bucket_attempts_def count_attempt_def) (simp add: find_bucket_def select_first_append is_bucket_def)
    next
      case (Some r)
      then have "is_bucket ty k ws r" by (auto simp: find_bucket_def dest: select_first_Some)
      then show ?thesis using Some unfolding eq
        by (simp add: bucket_attempts_def count_attempt_def) (simp add: find_bucket_def sel [unfolded eq])
    qed
  next
    case False
    then have other: "is_bucket ty k ws r \<Longrightarrow> \<not> is_bucket ty' k' ws' r" for r by (auto simp: is_bucket_def)
    have new: "\<not> is_bucket ty k ws \<lparr> hb_bucketType = ty', hb_bucketKey = k', hb_windowStart = ws', hb_attempts = 1 \<rparr>"
      using False by (auto simp: is_bucket_def)
    have "find_bucket ty k ws (count_attempt ty' k' ws' d) = find_bucket ty k ws d"
    proof (cases "select_first (is_bucket ty k ws) (hostedOnboardingAttempts d)")
      case None
      then show ?thesis using new by (simp add: find_bucket_def count_attempt_def sel select_first_append)
    next
      case (Some r)
      then have "\<not> is_bucket ty' k' ws' r" using other by (auto dest: select_first_Some)
      then show ?thesis using Some by (simp add: find_bucket_def count_attempt_def sel select_first_append)
    qed
    then show ?thesis using False by (auto simp: bucket_attempts_def)
  qed
qed

lemma count_attempt_frame [simp]:
  "users (count_attempt ty k ws d) = users d" "aliases (count_attempt ty k ws d) = aliases d" "chats (count_attempt ty k ws d) = chats d"
  "inboundDomains (count_attempt ty k ws d) = inboundDomains d"
  by (simp_all add: count_attempt_def)

text \<open>What a reservation did: every bucket was below its limit and has one attempt more, all others are as before.\<close>

definition reserved :: "string \<Rightarrow> rate_bucket list \<Rightarrow> db \<Rightarrow> db \<Rightarrow> bool" where
  "reserved ws buckets d d' \<longleftrightarrow>
     (\<forall>b\<in>set buckets. bucket_attempts (rb_bucketType b) (rb_bucketKey b) ws d < rb_limit b) \<and>
     d' = fold (\<lambda>b. count_attempt (rb_bucketType b) (rb_bucketKey b) ws) (bucket_order buckets) d"

lemma increments_run:
  "for_each bs (\<lambda>b. increment_bucket (rb_bucketType b) (rb_bucketKey b) ws) e w = (Inr u, w') \<Longrightarrow>
   w_db w' = fold (\<lambda>b. count_attempt (rb_bucketType b) (rb_bucketKey b) ws) bs (w_db w)"
  by (induction bs arbitrary: w) (auto simp: run_simps increment_bucket_def)

lemma lookups_run:
  "for_map bs (\<lambda>b. db_read (find_bucket (rb_bucketType b) (rb_bucketKey b) ws)) e w = (Inr rows, w') \<Longrightarrow>
   w_db w' = w_db w \<and> rows = map (\<lambda>b. find_bucket (rb_bucketType b) (rb_bucketKey b) ws (w_db w)) bs"
proof (induction bs arbitrary: w rows)
  case (Cons b bs)
  let ?f = "\<lambda>b. find_bucket (rb_bucketType b) (rb_bucketKey b) ws"
  obtain rest where "for_map bs (\<lambda>b. db_read (?f b)) e (w\<lparr>w_tick := Suc (w_tick w)\<rparr>) = (Inr rest, w')" "rows = ?f b (w_db w) # rest"
    using Cons.prems by (auto simp: bind_Inr ret_Inr db_read_Inr)
  then show ?case using Cons.IH by fastforce
qed (simp add: ret_Inr)

lemma set_bucket_order [simp]: "set (bucket_order bs) = set bs"
  by (simp add: bucket_order_def)

lemma reserve_Inr:
  assumes "reserve_hosted_rate_limit_buckets_in_transaction ws bs e w = (Inr ok, w')"
  shows "if ok then reserved ws bs (w_db w) (w_db w') else w_db w' = w_db w"
proof (cases "bs = []")
  case True
  with assms show ?thesis
    by (auto simp: reserve_hosted_rate_limit_buckets_in_transaction_def ret_Inr reserved_def bucket_order_def)
next
  case False
  let ?bs = "bucket_order bs"
  let ?full = "\<lambda>(row, b). rb_limit b \<le> (case row of None \<Rightarrow> 0 | Some r \<Rightarrow> hb_attempts r)"
  obtain u1 w1 rows w2 where l: "for_each ?bs (\<lambda>_. advisory_lock) e w = (Inr u1, w1)"
    and r: "for_map ?bs (\<lambda>b. db_read (find_bucket (rb_bucketType b) (rb_bucketKey b) ws)) e w1 = (Inr rows, w2)"
    and rest: "(if list_ex ?full (zip rows ?bs) then ret False
       else bind (for_each ?bs (\<lambda>b. increment_bucket (rb_bucketType b) (rb_bucketKey b) ws)) (\<lambda>_. ret True)) e w2 = (Inr ok, w')"
    using assms False unfolding reserve_hosted_rate_limit_buckets_in_transaction_def Let_def by (auto simp: bind_Inr)
  have d2: "w_db w2 = w_db w" "rows = map (\<lambda>b. find_bucket (rb_bucketType b) (rb_bucketKey b) ws (w_db w)) ?bs"
    using locks_Inr [OF l] lookups_run [OF r] by simp_all
  have "list_ex ?full (zip rows ?bs) \<longleftrightarrow> (\<exists>b\<in>set ?bs. rb_limit b \<le> bucket_attempts (rb_bucketType b) (rb_bucketKey b) ws (w_db w))"
    by (auto simp: d2(2) zip_map1 zip_same_conv_map list_ex_iff bucket_attempts_def)
  then have free: "\<not> list_ex ?full (zip rows ?bs) \<longleftrightarrow> (\<forall>b\<in>set bs. bucket_attempts (rb_bucketType b) (rb_bucketKey b) ws (w_db w) < rb_limit b)"
    by (auto simp: not_le)
  show ?thesis
  proof (cases "list_ex ?full (zip rows ?bs)")
    case True
    with rest d2(1) show ?thesis by (simp add: ret_Inr)
  next
    case False
    with rest obtain u where "for_each ?bs (\<lambda>b. increment_bucket (rb_bucketType b) (rb_bucketKey b) ws) e w2 = (Inr u, w')" and ok
      by (auto simp: bind_Inr ret_Inr)
    then show ?thesis using increments_run [of ?bs ws e w2 u w'] False free d2(1) by (simp add: reserved_def)
  qed
qed

text \<open>The counters of a day that its callers use are below their limits.\<close>

definition within_limits :: "db \<Rightarrow> bool" where
  "within_limits d \<longleftrightarrow> (\<forall>ws. bucket_attempts ''global'' ''all'' ws d \<le> 100) \<and>
     (\<forall>ws k. bucket_attempts ''telegram_user'' k ws d \<le> 3 \<and> bucket_attempts ''alias_create_telegram_user'' k ws d \<le> 10)"

lemma onboarding_order: "set (bucket_order (onboarding_buckets default_limits i)) = set (onboarding_buckets default_limits i)"
  by simp

lemma reserved_onboarding:
  assumes "reserved ws (onboarding_buckets default_limits i) d d'"
  shows "bucket_attempts ty k ws' d' = bucket_attempts ty k ws' d +
      (if ws' = ws \<and> (ty = ''global'' \<and> k = ''all'' \<or> ty = ''telegram_user'' \<and> k = int_string i) then 1 else 0)"
    and "bucket_attempts ''global'' ''all'' ws d < 100" and "bucket_attempts ''telegram_user'' (int_string i) ws d < 3"
    and "users d' = users d"
proof -
  let ?g = "\<lparr> rb_bucketType = ''global'', rb_bucketKey = ''all'', rb_limit = 100 \<rparr>"
  let ?u = "\<lparr> rb_bucketType = ''telegram_user'', rb_bucketKey = int_string i, rb_limit = 3 \<rparr>"
  have bs: "onboarding_buckets default_limits i = [?g, ?u]" by (simp add: onboarding_buckets_def default_limits_def)
  have "bucket_order [?g, ?u] = [?g, ?u]" by (simp add: bucket_order_def char_code_def)
  then have d': "d' = count_attempt ''telegram_user'' (int_string i) ws (count_attempt ''global'' ''all'' ws d)"
    using assms by (simp add: reserved_def bs)
  show "bucket_attempts ty k ws' d' = bucket_attempts ty k ws' d +
      (if ws' = ws \<and> (ty = ''global'' \<and> k = ''all'' \<or> ty = ''telegram_user'' \<and> k = int_string i) then 1 else 0)"
    unfolding d' count_attempt_attempts by auto
  show "bucket_attempts ''global'' ''all'' ws d < 100" "bucket_attempts ''telegram_user'' (int_string i) ws d < 3"
    using assms by (simp_all add: reserved_def bs)
  show "users d' = users d" by (simp add: d')
qed

lemma reserved_within: "within_limits d \<Longrightarrow> reserved ws (onboarding_buckets default_limits i) d d' \<Longrightarrow> within_limits d'"
  unfolding within_limits_def using reserved_onboarding [of ws i d d'] by (auto simp: less_eq_iff_succ_less intro: order_trans)

section \<open>New accounts\<close>

lemma upsert_attempts:
  assumes "upsert_user i username locale e w = (Inr u, w')"
  shows "hostedOnboardingAttempts (w_db w') = hostedOnboardingAttempts (w_db w)"
    and "user_by_id i (w_db w') \<noteq> None"
    and "user_by_id i (w_db w) \<noteq> None \<Longrightarrow> map u_id (users (w_db w')) = map u_id (users (w_db w))"
    and "user_by_id i (w_db w) = None \<Longrightarrow> map u_id (users (w_db w')) = map u_id (users (w_db w)) @ [i]"
  using assms
  by (auto simp: upsert_user_def bind_Inr now_Inr db_stmt_Inr upsert_user_row_def update_user_def new_user_def Let_def ret_Inr
      map_update_where split: option.splits)

lemma attempts_cong: "hostedOnboardingAttempts d' = hostedOnboardingAttempts d \<Longrightarrow> bucket_attempts ty k ws d' = bucket_attempts ty k ws d"
  by (simp add: bucket_attempts_def find_bucket_def)

definition charged_for :: "bigint \<Rightarrow> string \<Rightarrow> db \<Rightarrow> db \<Rightarrow> bool" where
  "charged_for i ws d d' \<longleftrightarrow>
     bucket_attempts ''global'' ''all'' ws d < 100 \<and> bucket_attempts ''telegram_user'' (int_string i) ws d < 3 \<and>
     (\<forall>ty k ws'. bucket_attempts ty k ws' d' = bucket_attempts ty k ws' d +
        (if ws' = ws \<and> (ty = ''global'' \<and> k = ''all'' \<or> ty = ''telegram_user'' \<and> k = int_string i) then 1 else 0))"

lemma onboarding_body_Inr:
  assumes "onboarding_body i username locale e w = (Inr u, w')"
  shows "user_by_id i (w_db w') \<noteq> None \<and>
    (if user_by_id i (w_db w) = None
     then map u_id (users (w_db w')) = map u_id (users (w_db w)) @ [i] \<and> (\<exists>ws. charged_for i ws (w_db w) (w_db w'))
     else map u_id (users (w_db w')) = map u_id (users (w_db w)) \<and> hostedOnboardingAttempts (w_db w') = hostedOnboardingAttempts (w_db w))"
proof -
  define v where "v = w\<lparr>w_tick := Suc (Suc (w_tick w))\<rparr>"
  have rest: "(if user_by_id i (w_db w) \<noteq> None then upsert_user i username locale
       else bind (reserve_hosted_onboarding_attempt_in_transaction i default_limits) (\<lambda>ok.
         if \<not> ok then throw (Raised ''HostedOnboardingRateLimitError'') else upsert_user i username locale)) e v = (Inr u, w')"
    using assms by (auto simp: onboarding_body_def bind_Inr advisory_lock_Inr find_user_by_id_def db_read_Inr v_def)
  show ?thesis
  proof (cases "user_by_id i (w_db w) = None")
    case False
    with rest have "upsert_user i username locale e v = (Inr u, w')" by simp
    then show ?thesis using False upsert_attempts [of i username "locale" e v u w'] by (auto simp: v_def)
  next
    case True
    with rest obtain ok x where r: "reserve_hosted_onboarding_attempt_in_transaction i default_limits e v = (Inr ok, x)"
      and up: "(if \<not> ok then throw (Raised ''HostedOnboardingRateLimitError'') else upsert_user i username locale) e x = (Inr u, w')"
      by (auto simp: bind_Inr)
    have ok: "ok" and ups: "upsert_user i username locale e x = (Inr u, w')" using up by (auto split: if_splits)
    obtain ws y where "reserve_hosted_rate_limit_buckets_in_transaction ws (onboarding_buckets default_limits i) e y = (Inr True, x)" "w_db y = w_db w"
      using r ok by (auto simp: reserve_hosted_onboarding_attempt_in_transaction_def bind_Inr now_Inr v_def)
    then have res: "reserved ws (onboarding_buckets default_limits i) (w_db w) (w_db x)" using reserve_Inr by fastforce
    note ups_eff = upsert_attempts [OF ups]
    have "charged_for i ws (w_db w) (w_db w')"
      using reserved_onboarding [OF res] attempts_cong [OF ups_eff(1)] by (simp add: charged_for_def)
    moreover have "user_by_id i (w_db x) = None" using True reserved_onboarding(4) [OF res] by (simp add: user_by_id_def)
    ultimately show ?thesis using True ups_eff reserved_onboarding(4) [OF res] by auto
  qed
qed

lemma within_limits_charged: "within_limits d \<Longrightarrow> charged_for i ws d d' \<Longrightarrow> within_limits d'"
  by (auto simp: within_limits_def charged_for_def)

lemma within_limits_cong: "within_limits d \<Longrightarrow> hostedOnboardingAttempts d' = hostedOnboardingAttempts d \<Longrightarrow> within_limits d'"
  by (simp add: within_limits_def attempts_cong [of d' d])


lemma sample_onboarding:
  "\<exists>u w'. ensure_user_with_onboarding_limit 7 (Some ''ann'') None calm_env (start_world empty_db) = (Inr u, w') \<and> u_id u = 7"
proof -
  have day: "iso_date 0 = ''1970-01-01''" by code_simp
  have bs: "bucket_order
      [\<lparr> rb_bucketType = ''global'', rb_bucketKey = ''all'', rb_limit = 100 \<rparr>,
       \<lparr> rb_bucketType = ''telegram_user'', rb_bucketKey = int_string 7, rb_limit = 3 \<rparr>] =
      [\<lparr> rb_bucketType = ''global'', rb_bucketKey = ''all'', rb_limit = 100 \<rparr>,
       \<lparr> rb_bucketType = ''telegram_user'', rb_bucketKey = int_string 7, rb_limit = 3 \<rparr>]"
    by code_simp
  have "\<exists>u w2. onboarding_body 7 (Some ''ann'') None calm_env (begin_tx calm_env (start_world empty_db)) = (Inr u, w2) \<and>
      u_id u = 7 \<and> w_tx w2 = InTx"
    by (simp add: onboarding_body_def step_simps begin_tx_def find_user_by_id_def user_by_id_def day bs
        reserve_hosted_onboarding_attempt_in_transaction_def reserve_hosted_rate_limit_buckets_in_transaction_def
        onboarding_buckets_def default_limits_def find_bucket_def increment_bucket_def count_attempt_def is_bucket_def
        upsert_user_def upsert_user_row_def new_user_def Let_def)
  then obtain u w2 where "onboarding_body 7 (Some ''ann'') None calm_env (begin_tx calm_env (start_world empty_db)) = (Inr u, w2)"
    "u_id u = 7" "w_tx w2 = InTx" by blast
  then show ?thesis
    using transaction_fine [of calm_env "start_world empty_db" "onboarding_body 7 (Some ''ann'') None" u w2]
    by (simp add: ensure_user_with_onboarding_limit_def)
qed


end
