(* ===== verification/NewEmail.thy ===== *)
theory NewEmail
  imports AliasMove Impersonation HostedLimits Session
begin

text \<open>
  Creating an alias (\<open>src/telegram/commands/newemail.ts\<close>): the checks on the name, the transaction under the
  locks of the chat and of the user, and up to five candidates for a name.  Of the bot's replies the kind is kept.
\<close>

section \<open>Names\<close>

definition name_char :: "char \<Rightarrow> bool" where
  "name_char c \<longleftrightarrow> is_digit c \<or> is_separator c \<or> (97 \<le> char_code c \<and> char_code c \<le> 122)"

definition name_re :: "string \<Rightarrow> bool" where
  "name_re s \<longleftrightarrow> 1 \<le> length s \<and> length s \<le> 32 \<and> list_all name_char s"

text \<open>\<open>parseInt(s, 10)\<close> of digits; exact, where JavaScript rounds above \<open>2 ^ 53\<close>.\<close>

definition digits_value :: "string \<Rightarrow> nat" where
  "digits_value s = foldl (\<lambda>n c. 10 * n + (char_code c - 48)) 0 s"

definition inbox_number :: "string \<Rightarrow> nat option" where
  "inbox_number s = (if js_starts_with s ''inbox-'' \<and> digits (drop 6 s) then Some (digits_value (drop 6 s)) else None)"

definition next_inbox_name_of :: "alias_row list \<Rightarrow> string" where
  "next_inbox_name_of as =
     (let maxN = foldl (\<lambda>m a. case inbox_number (al_localPart a) of Some n \<Rightarrow> max m n | None \<Rightarrow> m) 0 as;
          plainInboxTaken = list_ex (\<lambda>a. al_localPart a = ''inbox'') as
      in if \<not> plainInboxTaken \<and> maxN = 0 then ''inbox'' else ''inbox-'' @ int_string (int (max maxN 1 + 1)))"

definition next_inbox_name :: "bigint \<Rightarrow> string io" where
  "next_inbox_name chatId = bind (db_read (list_aliases_by_chat chatId)) (\<lambda>as. ret (next_inbox_name_of as))"

section \<open>One candidate\<close>

text \<open>\<open>isLocalPartConflict\<close>: SQLSTATE 23505 anywhere in the chain of causes, or the words of a unique violation.\<close>

definition is_local_part_conflict :: "env \<Rightarrow> exn \<Rightarrow> bool" where
  "is_local_part_conflict e x \<longleftrightarrow> x = QueryError ''23505'' \<or>
     list_ex (js_includes (error_message e x)) [''idx_alias_local_part'', ''idx_alias_domain_local_part'', ''duplicate key value'', ''unique constraint'']"

text \<open>\<open>withUserQuotaLock\<close> on a transaction that is open: a savepoint.\<close>

definition nested_user_quota_lock :: "'a io \<Rightarrow> 'a io" where
  "nested_user_quota_lock work =
     bind (ask should_enforce_hosted_limits) (\<lambda>hosted.
       if \<not> hosted then work else savepoint (bind advisory_lock (\<lambda>_. work)))"

definition shared_domain :: "domain_row option io" where
  "shared_domain =
     bind (ask config_app_mode) (\<lambda>mode.
       if mode \<noteq> Some ''hosted'' then ret None
       else bind (ask hosted_mail_domain) (\<lambda>domain. case domain of
           None \<Rightarrow> throw (Raised ''TypeError'')
         | Some dn \<Rightarrow> bind (ensure_shared_inbound_domain dn) (\<lambda>row. ret (Some row))))"

definition new_alias_of :: "bigint \<Rightarrow> bigint \<Rightarrow> bigint option \<Rightarrow> string \<Rightarrow> string \<Rightarrow> domain_row option \<Rightarrow> new_alias" where
  "new_alias_of createdBy chatId threadId candidate mailDomain inboundDomain =
     \<lparr> na_localPart = candidate,
       na_fullAddress = candidate @ ''@'' @ (case inboundDomain of Some r \<Rightarrow> dm_domain r | None \<Rightarrow> mailDomain),
       na_domainId = map_option dm_id inboundDomain, na_chatId = chatId, na_messageThreadId = threadId,
       na_createdBy = createdBy, na_renderMode = ''html'', na_privacyModeEnabled = False, na_bodyDedupEnabled = False,
       na_status = Active \<rparr>"

text \<open>Lines 298 to 324.\<close>

definition allocate_alias :: "bigint \<Rightarrow> bigint \<Rightarrow> bigint option \<Rightarrow> string \<Rightarrow> alias_row io" where
  "allocate_alias createdBy chatId threadId candidate =
     bind shared_domain (\<lambda>inboundDomain.
     bind (ask mail_domain) (\<lambda>mailDomain.
     bind (check_alias_create_limit (Some createdBy)) (\<lambda>limit.
       if limit \<noteq> LimitOk then throw (Thrown ''quota-blocked'')
       else bind (reserve_hosted_alias_create_attempt createdBy) (\<lambda>_.
         create_alias (new_alias_of createdBy chatId threadId candidate mailDomain inboundDomain)))))"

definition create_in_chat :: "bigint \<Rightarrow> bigint \<Rightarrow> bigint option \<Rightarrow> string \<Rightarrow> alias_row io" where
  "create_in_chat createdBy chatId threadId candidate =
     bind (db_read (find_chat_by_id chatId)) (\<lambda>chatRow.
       if (case chatRow of Some r \<Rightarrow> \<not> ch_isActive r | None \<Rightarrow> False) then throw (Thrown ''chat-migrated'')
       else nested_user_quota_lock (allocate_alias createdBy chatId threadId candidate))"

section \<open>The command\<close>

datatype new_reply =
    NewNameTooLong | NewInvalidName | NewImpersonation | NewNameCooldown | NewQuotaBlocked | NewChatUnavailable
  | NewRateLimited | NewSharedDomainUnavailable | NewNameTaken | NewUniqueNameFailed | NewCreated alias_row

definition max_name_attempts :: nat where "max_name_attempts = 5"
definition name_reuse_cooldown_ms :: int where "name_reuse_cooldown_ms = 24 * 60 * 60 * 1000"

text \<open>The \<open>catch\<close> of lines 327 to 355: a reply, another candidate (None), or the error again.\<close>

definition creation_failed :: "bool \<Rightarrow> exn \<Rightarrow> new_reply option io" where
  "creation_failed named err =
     bind (ask (\<lambda>e. (error_message e err, is_local_part_conflict e err))) (\<lambda>(msg, conflict).
       if msg = ''quota-blocked'' then ret (Some NewQuotaBlocked)
       else if msg = ''chat-migrated'' then ret (Some NewChatUnavailable)
       else if err = Raised ''HostedAliasCreateRateLimitError'' then ret (Some NewRateLimited)
       else if js_includes msg ''ensureSharedInboundDomain'' then ret (Some NewSharedDomainUnavailable)
       else if conflict then ret (if named then Some NewNameTaken else None)
       else throw err)"

definition create_candidate :: "bigint \<Rightarrow> bigint \<Rightarrow> bigint option \<Rightarrow> bool \<Rightarrow> string \<Rightarrow> new_reply option io" where
  "create_candidate createdBy chatId threadId named candidate =
     bind (catch (bind (with_chat_migration_lock chatId (create_in_chat createdBy chatId threadId candidate)) (\<lambda>a. ret (Inr a)))
           (\<lambda>x. ret (Inl x))) (\<lambda>outcome.
       case outcome of Inr a \<Rightarrow> ret (Some (NewCreated a)) | Inl err \<Rightarrow> creation_failed named err)"

definition try_candidate :: "bigint \<Rightarrow> bigint \<Rightarrow> bigint option \<Rightarrow> bool \<Rightarrow> instant \<Rightarrow> string \<Rightarrow> new_reply option io" where
  "try_candidate createdBy chatId threadId named cooldownSince candidate =
     bind (db_read (find_recent_alias_tombstone candidate cooldownSince)) (\<lambda>tombstone.
       if (case tombstone of Some a \<Rightarrow> al_createdBy a \<noteq> createdBy | None \<Rightarrow> False)
       then ret (if named then Some NewNameCooldown else None)
       else create_candidate createdBy chatId threadId named candidate)"

primrec name_loop :: "bigint \<Rightarrow> bigint \<Rightarrow> bigint option \<Rightarrow> bool \<Rightarrow> instant \<Rightarrow> string \<Rightarrow> nat \<Rightarrow> new_reply io" where
  "name_loop createdBy chatId threadId named since baseName 0 = ret NewUniqueNameFailed"
| "name_loop createdBy chatId threadId named since baseName (Suc left) =
     bind (if Suc left = max_name_attempts then ret baseName
           else bind (at_tick name_suffix) (\<lambda>s. ret (baseName @ ''-'' @ s))) (\<lambda>candidate.
     bind (try_candidate createdBy chatId threadId named since candidate) (\<lambda>reply.
       case reply of Some r \<Rightarrow> ret r | None \<Rightarrow> name_loop createdBy chatId threadId named since baseName left))"

definition create_named :: "bigint \<Rightarrow> string \<Rightarrow> bigint \<Rightarrow> bigint option \<Rightarrow> new_reply io" where
  "create_named createdBy rawName chatId threadId =
     bind (if rawName \<noteq> [] then ret rawName else next_inbox_name chatId) (\<lambda>baseName.
     bind now (\<lambda>t.
     name_loop createdBy chatId threadId (rawName \<noteq> []) (t - name_reuse_cooldown_ms) baseName max_name_attempts))"

text \<open>Lines 245 to 263; None when the name may be used, or when there is none.\<close>

definition name_refusal :: "string \<Rightarrow> new_reply option io" where
  "name_refusal rawName =
     (if rawName = [] then ret None
      else if 32 < length rawName then ret (Some NewNameTooLong)
      else if \<not> name_re rawName then ret (Some NewInvalidName)
      else catch (bind (assert_alias_not_impersonation rawName) (\<lambda>_. ret None))
        (\<lambda>x. if x = Raised ''AliasImpersonationError'' then ret (Some NewImpersonation) else throw x))"

definition create_email_alias :: "bigint option \<Rightarrow> string \<Rightarrow> bigint \<Rightarrow> bigint option \<Rightarrow> new_reply option io" where
  "create_email_alias from rawName chatId threadId =
     (case from of
        None \<Rightarrow> ret None
      | Some createdBy \<Rightarrow>
          bind (ask config_app_mode) (\<lambda>config.
          if config = None then throw (Raised ''ConfigError'')
          else bind (name_refusal rawName) (\<lambda>refusal. case refusal of
              Some reply \<Rightarrow> ret (Some reply)
            | None \<Rightarrow> bind (create_named createdBy rawName chatId threadId) (\<lambda>reply. ret (Some reply)))))"

section \<open>An alias is granted\<close>

definition below_alias_limit :: "env \<Rightarrow> bigint \<Rightarrow> db \<Rightarrow> bool" where
  "below_alias_limit e createdBy d \<longleftrightarrow>
     (\<exists>u t. user_by_id createdBy d = Some u \<and>
        int (count_active_aliases_by_user createdBy d) < lim_aliases (pl_limits (effective_plan_at (plan_table e) t u)))"

definition alias_granted :: "env \<Rightarrow> bigint \<Rightarrow> bigint \<Rightarrow> bigint option \<Rightarrow> string \<Rightarrow> alias_row \<Rightarrow> db \<Rightarrow> db \<Rightarrow> bool" where
  "alias_granted e createdBy chatId threadId candidate a d d' \<longleftrightarrow>
     aliases d' = aliases d @ [a] \<and>
     al_localPart a = candidate \<and> al_chatId a = chatId \<and> al_messageThreadId a = threadId \<and> al_createdBy a = createdBy \<and> al_status a = Active \<and>
     (\<forall>b\<in>set (aliases d). (al_localPart b, al_domainId b) \<noteq> (al_localPart a, al_domainId a) \<and>
        js_lower (al_fullAddress b) \<noteq> js_lower (al_fullAddress a)) \<and>
     target_open chatId d \<and>
     (should_enforce_hosted_limits e \<longrightarrow>
        below_alias_limit e createdBy d \<and>
        (\<exists>ws. bucket_attempts ''alias_create_telegram_user'' (int_string createdBy) ws d < 10 \<and>
           bucket_attempts ''alias_create_telegram_user'' (int_string createdBy) ws d' =
             bucket_attempts ''alias_create_telegram_user'' (int_string createdBy) ws d + 1))"

lemma matching_user_id: "user_by_id i d = Some u \<Longrightarrow> u_id u = i"
  by (auto simp: user_by_id_def dest: select_first_Some)

lemma alias_limit_ok:
  assumes "check_alias_create_limit (Some i) e w = (Inr LimitOk, w')"
  shows "w_db w' = w_db w \<and> (should_enforce_hosted_limits e \<longrightarrow> below_alias_limit e i (w_db w))"
  using assms matching_user_id
  by (fastforce simp: check_alias_create_limit_def bind_Inr ask_Inr ret_Inr find_user_by_id_def db_read_Inr get_effective_plan_def now_Inr
      below_alias_limit_def not_le split: if_splits option.splits)

lemma shared_domain_frame:
  assumes "shared_domain e w = (Inr r, w')"
  shows "aliases (w_db w') = aliases (w_db w) \<and> users (w_db w') = users (w_db w) \<and> chats (w_db w') = chats (w_db w) \<and>
    hostedOnboardingAttempts (w_db w') = hostedOnboardingAttempts (w_db w)"
  using assms
  by (auto simp: shared_domain_def ensure_shared_inbound_domain_def shared_and_active_def insert_shared_domain_def Let_def bind_Inr ask_Inr
      ret_Inr db_read_Inr db_stmt_Inr random_uuid_Inr split: if_splits option.splits)

lemma reserve_alias_Inr:
  assumes "reserve_hosted_alias_create_attempt i e w = (Inr u, w')"
  shows "aliases (w_db w') = aliases (w_db w) \<and>
    (should_enforce_hosted_limits e \<longrightarrow> (\<exists>ws. bucket_attempts ''alias_create_telegram_user'' (int_string i) ws (w_db w) < 10 \<and>
       bucket_attempts ''alias_create_telegram_user'' (int_string i) ws (w_db w') =
         bucket_attempts ''alias_create_telegram_user'' (int_string i) ws (w_db w) + 1))"
proof (cases "should_enforce_hosted_limits e")
  case False
  with assms show ?thesis by (auto simp: reserve_hosted_alias_create_attempt_def bind_Inr now_Inr ask_Inr ret_Inr)
next
  case True
  define v where "v = w\<lparr>w_tick := Suc (w_tick w)\<rparr>"
  define ws where "ws = iso_date (clock e (w_tick w))"
  have r: "reserve_hosted_rate_limit_buckets_in_transaction ws [alias_bucket i] e v = (Inr True, w')"
    using assms True by (auto simp: reserve_hosted_alias_create_attempt_def bind_Inr now_Inr ask_Inr ret_Inr v_def ws_def split: if_splits)
  have "reserved ws [alias_bucket i] (w_db w) (w_db w')" using reserve_Inr [OF r] by (simp add: v_def)
  then have "bucket_attempts ''alias_create_telegram_user'' (int_string i) ws (w_db w) < 10"
    "w_db w' = count_attempt ''alias_create_telegram_user'' (int_string i) ws (w_db w)"
    by (simp_all add: reserved_def alias_bucket_def daily_alias_attempts_per_telegram_user_def bucket_order_def)
  then show ?thesis using count_attempt_attempts by (auto intro!: exI [of _ ws])
qed

lemma create_alias_Inr:
  assumes "create_alias n e w = (Inr a, w')"
  shows "aliases (w_db w') = aliases (w_db w) @ [a] \<and> hostedOnboardingAttempts (w_db w') = hostedOnboardingAttempts (w_db w) \<and>
    al_localPart a = na_localPart n \<and> al_chatId a = na_chatId n \<and> al_messageThreadId a = na_messageThreadId n \<and>
    al_createdBy a = na_createdBy n \<and> al_status a = na_status n \<and>
    (\<forall>b\<in>set (aliases (w_db w)). (al_localPart b, al_domainId b) \<noteq> (al_localPart a, al_domainId a) \<and>
        js_lower (al_fullAddress b) \<noteq> js_lower (al_fullAddress a))"
  using assms
  by (auto simp: create_alias_def create_alias_stmt_def alias_conflict_def list_ex_iff Let_def bind_Inr random_uuid_Inr db_stmt_Inr split: if_splits)

lemma allocate_Inr:
  assumes "allocate_alias createdBy chatId threadId candidate e w = (Inr a, w')" and "target_open chatId (w_db w)"
  shows "alias_granted e createdBy chatId threadId candidate a (w_db w) (w_db w')"
proof -
  obtain dom w1 limit w2 u w3 md where d: "shared_domain e w = (Inr dom, w1)"
    and l: "check_alias_create_limit (Some createdBy) e w1 = (Inr limit, w2)" and lim: "limit = LimitOk"
    and r: "reserve_hosted_alias_create_attempt createdBy e w2 = (Inr u, w3)"
    and c: "create_alias (new_alias_of createdBy chatId threadId candidate md dom) e w3 = (Inr a, w')"
    using assms(1) by (auto simp: allocate_alias_def bind_Inr ask_Inr split: if_splits)
  have l': "w_db w2 = w_db w1" "should_enforce_hosted_limits e \<longrightarrow> below_alias_limit e createdBy (w_db w1)"
    using alias_limit_ok l lim by blast+
  have "below_alias_limit e createdBy (w_db w1) \<longleftrightarrow> below_alias_limit e createdBy (w_db w)"
    using shared_domain_frame [OF d] by (simp add: below_alias_limit_def user_by_id_def count_active_aliases_by_user_def)
  then show ?thesis
    using shared_domain_frame [OF d] l' reserve_alias_Inr [OF r] create_alias_Inr [OF c] assms(2)
      attempts_cong [of "w_db w1" "w_db w"] attempts_cong [of "w_db w'" "w_db w3"]
    unfolding alias_granted_def by (simp add: new_alias_of_def)
qed

lemma create_in_chat_Inr:
  assumes "create_in_chat createdBy chatId threadId candidate e w = (Inr a, w')"
  shows "alias_granted e createdBy chatId threadId candidate a (w_db w) (w_db w')"
proof -
  let ?v = "w\<lparr>w_tick := Suc (w_tick w)\<rparr>"
  have lock: "nested_user_quota_lock (allocate_alias createdBy chatId threadId candidate) e ?v = (Inr a, w')"
    and chat: "target_open chatId (w_db w)"
    using assms by (auto simp: create_in_chat_def bind_Inr db_read_Inr target_open_def split: option.splits if_splits)
  show ?thesis
  proof (cases "should_enforce_hosted_limits e")
    case False
    with lock have "allocate_alias createdBy chatId threadId candidate e ?v = (Inr a, w')"
      by (auto simp: nested_user_quota_lock_def bind_Inr ask_Inr)
    then show ?thesis using allocate_Inr [of createdBy chatId threadId candidate e ?v a w'] chat by simp
  next
    case True
    with lock have "savepoint (bind advisory_lock (\<lambda>_. allocate_alias createdBy chatId threadId candidate)) e ?v = (Inr a, w')"
      by (auto simp: nested_user_quota_lock_def bind_Inr ask_Inr)
    then obtain v v' where v: "bind advisory_lock (\<lambda>_. allocate_alias createdBy chatId threadId candidate) e v = (Inr a, v')"
      "w_db v = w_db w" "w_db w' = w_db v'" by (rule savepoint_InrD) simp
    then have "allocate_alias createdBy chatId threadId candidate e (v\<lparr>w_tick := Suc (w_tick v)\<rparr>) = (Inr a, v')"
      by (auto simp: bind_Inr advisory_lock_Inr)
    then show ?thesis using allocate_Inr [of createdBy chatId threadId candidate e "v\<lparr>w_tick := Suc (w_tick v)\<rparr>" a v'] v chat by simp
  qed
qed

lemma open_create_in_chat [open_rules]: "stays_open (create_in_chat createdBy chatId threadId candidate)"
proof -
  have "stays_open (allocate_alias createdBy chatId threadId candidate)"
    unfolding allocate_alias_def shared_domain_def ensure_shared_inbound_domain_def shared_and_active_def check_alias_create_limit_def
      find_user_by_id_def get_effective_plan_def reserve_hosted_alias_create_attempt_def
      reserve_hosted_rate_limit_buckets_in_transaction_def increment_bucket_def create_alias_def Let_def
    by (intro open_rules)
  then show ?thesis unfolding create_in_chat_def nested_user_quota_lock_def by (intro open_rules)
qed

text \<open>A transaction that raises has changed nothing, unless the answer to its commit was lost.\<close>

lemma transaction_Inl_effect: "transaction m e w = (Inl x, w') \<Longrightarrow> w_db w' = w_db w \<or> x = DbRefused"
  by (auto simp: transaction_def Let_def split: if_splits prod.splits sum.splits tx_state.splits fault.splits)

lemma transaction_settles: "transaction m e w = (r, w') \<Longrightarrow> w_tx w = NoTx \<Longrightarrow> w_tx w' = NoTx"
  by (auto simp: transaction_def Let_def split: if_splits prod.splits sum.splits tx_state.splits fault.splits)

lemma locked_creation:
  assumes "with_chat_migration_lock chatId (create_in_chat createdBy chatId threadId candidate) e w = (r, w')"
  shows "case r of
      Inr a \<Rightarrow> alias_granted e createdBy chatId threadId candidate a (w_db w) (w_db w')
    | Inl x \<Rightarrow> w_db w' = w_db w \<or> x = DbRefused \<and> (\<exists>a. alias_granted e createdBy chatId threadId candidate a (w_db w) (w_db w'))"
proof -
  let ?m = "bind advisory_lock (\<lambda>_. create_in_chat createdBy chatId threadId candidate)"
  have t: "transaction ?m e w = (r, w')" using assms by (simp add: with_chat_migration_lock_def)
  have eff: "alias_granted e createdBy chatId threadId candidate a (w_db v) (w_db v')" if "?m e v = (Inr a, v')" for a v v'
    using that create_in_chat_Inr [of createdBy chatId threadId candidate e "v\<lparr>w_tick := Suc (w_tick v)\<rparr>" a v']
    by (auto simp: bind_Inr advisory_lock_Inr)
  show ?thesis
  proof (cases r)
    case (Inl x)
    show ?thesis using transaction_atomic [OF t] transaction_Inl_effect [OF t [unfolded Inl]] eff [of "begin_tx e w"] Inl by fastforce
  next
    case (Inr a)
    have "stays_open ?m" by (intro open_rules)
    then obtain w2 where "?m e (begin_tx e w) = (Inr a, w2)" "w_db w' = w_db w2"
      using t [unfolded Inr] by (metis transaction_open_InrD)
    then show ?thesis using eff [of "begin_tx e w" a w2] Inr by simp
  qed
qed

text \<open>One step of the loop: the alias was granted, or nothing happened.\<close>

lemma candidate_effect:
  assumes "create_candidate createdBy chatId threadId named candidate e w = (r, w')" and "w_tx w = NoTx"
    and "\<not> is_local_part_conflict e DbRefused"
  shows "w_tx w' = NoTx \<and>
    (w_db w' = w_db w \<and> (\<forall>a. r \<noteq> Inr (Some (NewCreated a))) \<or>
     r \<noteq> Inr None \<and> (\<exists>a. alias_granted e createdBy chatId threadId candidate a (w_db w) (w_db w') \<and> (\<forall>b. r = Inr (Some (NewCreated b)) \<longrightarrow> b = a)))"
proof -
  obtain q w1 where run: "with_chat_migration_lock chatId (create_in_chat createdBy chatId threadId candidate) e w = (q, w1)" by fastforce
  have tx: "w_tx w1 = NoTx" using run assms(2) unfolding with_chat_migration_lock_def by (rule transaction_settles)
  show ?thesis
  proof (cases q)
    case (Inr a)
    then have "r = Inr (Some (NewCreated a))" "w' = w1"
      using assms(1) run by (simp_all add: create_candidate_def bind_def catch_def ret_def)
    then show ?thesis using locked_creation [OF run] Inr tx by auto
  next
    case (Inl x)
    then have f: "creation_failed named x e w1 = (r, w')"
      using assms(1) run by (simp add: create_candidate_def bind_def catch_def ret_def)
    have fail: "w' = w1 \<and> (\<forall>a. r \<noteq> Inr (Some (NewCreated a))) \<and> (r = Inr None \<longrightarrow> is_local_part_conflict e x)"
      using f by (auto simp: creation_failed_def bind_def ask_def ret_def throw_def Let_def split: if_splits)
    show ?thesis using locked_creation [OF run] Inl fail tx assms(3) by auto
  qed
qed

text \<open>What a call of the loop may have done.\<close>

definition loop_outcome :: "env \<Rightarrow> instant \<Rightarrow> bigint \<Rightarrow> bigint \<Rightarrow> bigint option \<Rightarrow> (string \<Rightarrow> bool) \<Rightarrow> db \<Rightarrow> (exn + new_reply) \<Rightarrow> db \<Rightarrow> bool" where
  "loop_outcome e since createdBy chatId threadId P d r d' \<longleftrightarrow>
     d' = d \<and> (\<forall>a. r \<noteq> Inr (NewCreated a)) \<or>
     (\<exists>a. alias_granted e createdBy chatId threadId (al_localPart a) a d d' \<and> P (al_localPart a) \<and>
        (\<forall>b. find_recent_alias_tombstone (al_localPart a) since d = Some b \<longrightarrow> al_createdBy b = createdBy) \<and>
        (\<forall>b. r = Inr (NewCreated b) \<longrightarrow> b = a))"

lemma try_effect:
  assumes "try_candidate createdBy chatId threadId named since candidate e w = (r, w')" and "w_tx w = NoTx"
    and "\<not> is_local_part_conflict e DbRefused"
  shows "w_tx w' = NoTx \<and> (r = Inr None \<longrightarrow> w_db w' = w_db w) \<and>
    loop_outcome e since createdBy chatId threadId (\<lambda>n. n = candidate) (w_db w) (map_sum id (\<lambda>x. case x of Some y \<Rightarrow> y | None \<Rightarrow> NewNameTaken) r) (w_db w')"
proof -
  obtain q w1 where r1: "db_read (find_recent_alias_tombstone candidate since) e w = (q, w1)" by fastforce
  have d1: "w_db w1 = w_db w" "w_tx w1 = NoTx" using harmlessD [OF harmless_read r1] assms(2) by simp_all
  show ?thesis
  proof (cases "\<exists>t. q = Inr t \<and> (\<forall>a. t = Some a \<longrightarrow> al_createdBy a = createdBy)")
    case False
    with assms(1) r1 d1 have "w_db w' = w_db w \<and> w_tx w' = NoTx \<and> (\<forall>a. r \<noteq> Inr (Some (NewCreated a)))"
      by (auto simp: try_candidate_def bind_def ret_def split: sum.splits option.splits if_splits)
    then show ?thesis by (cases r) (auto simp: loop_outcome_def split: option.splits)
  next
    case True
    then obtain t where t: "q = Inr t" "\<forall>a. t = Some a \<longrightarrow> al_createdBy a = createdBy" by blast
    have c: "create_candidate createdBy chatId threadId named candidate e w1 = (r, w')"
      using assms(1) r1 t by (auto simp: try_candidate_def bind_def split: option.splits if_splits)
    have tomb: "t = find_recent_alias_tombstone candidate since (w_db w)" using r1 t(1) by (simp add: db_read_Inr)
    show ?thesis using candidate_effect [OF c d1(2) assms(3)] t(2) d1(1) unfolding tomb loop_outcome_def
      by (cases r) (auto simp: alias_granted_def split: option.splits)
  qed
qed

definition candidate_of :: "string \<Rightarrow> string \<Rightarrow> bool" where
  "candidate_of baseName n \<longleftrightarrow> n = baseName \<or> (\<exists>s. n = baseName @ ''-'' @ s)"

lemma loop_outcome_mono: "loop_outcome e since c ch th P d r d' \<Longrightarrow> (\<And>n. P n \<Longrightarrow> Q n) \<Longrightarrow> loop_outcome e since c ch th Q d r d'"
  unfolding loop_outcome_def by blast

text \<open>The reply of a step that ends the loop, and of one that goes on.\<close>

lemma step_effect:
  assumes "bind (try_candidate createdBy chatId threadId named since candidate) (\<lambda>reply. case reply of Some y \<Rightarrow> ret y | None \<Rightarrow> m) e w = (r, w')"
    and "w_tx w = NoTx" and "\<not> is_local_part_conflict e DbRefused"
  shows "loop_outcome e since createdBy chatId threadId (\<lambda>n. n = candidate) (w_db w) r (w_db w') \<or>
    \<not> named \<and> (\<exists>v. w_tx v = NoTx \<and> w_db v = w_db w \<and> m e v = (r, w'))"
proof -
  obtain q v where t: "try_candidate createdBy chatId threadId named since candidate e w = (q, v)" by fastforce
  note eff = try_effect [OF t assms(2,3)]
  have named: "\<not> named" if "q = Inr None"
    using t that by (auto simp: try_candidate_def create_candidate_def creation_failed_def bind_Inr ret_Inr split: if_splits option.splits sum.splits prod.splits)
      (metis sumE)+
  show ?thesis
  proof (cases q)
    case (Inl x)
    with assms(1) t have "r = Inl x" "w' = v" by (simp_all add: bind_def)
    with eff Inl show ?thesis by simp
  next
    case (Inr y)
    show ?thesis
    proof (cases y)
      case None
      with assms(1) t Inr have "m e v = (r, w')" by (simp add: bind_def)
      with eff Inr None named show ?thesis by auto
    next
      case (Some z)
      with assms(1) t Inr have "r = Inr z" "w' = v" by (simp_all add: bind_def ret_def)
      with eff Inr Some show ?thesis by simp
    qed
  qed
qed

lemma loop_effect:
  assumes "name_loop createdBy chatId threadId named since baseName n e w = (r, w')" and "w_tx w = NoTx"
    and "\<not> is_local_part_conflict e DbRefused"
  shows "loop_outcome e since createdBy chatId threadId (candidate_of baseName) (w_db w) r (w_db w')"
  using assms
proof (induction n arbitrary: w)
  case 0
  then show ?case by (auto simp: loop_outcome_def ret_def)
next
  case (Suc n)
  define candidate where "candidate = (if Suc n = max_name_attempts then baseName else baseName @ ''-'' @ name_suffix e (w_tick w))"
  define v where "v = (if Suc n = max_name_attempts then w else w\<lparr>w_tick := Suc (w_tick w)\<rparr>)"
  have v: "w_db v = w_db w" "w_tx v = NoTx" "candidate_of baseName candidate"
    using Suc.prems(2) by (simp_all add: v_def candidate_def candidate_of_def)
  have "bind (try_candidate createdBy chatId threadId named since candidate)
      (\<lambda>reply. case reply of Some y \<Rightarrow> ret y | None \<Rightarrow> name_loop createdBy chatId threadId named since baseName n) e v = (r, w')"
    using Suc.prems(1) by (auto simp: v_def candidate_def bind_def at_tick_def ret_def split: if_splits)
  from step_effect [OF this v(2) Suc.prems(3)] show ?case
  proof
    assume "loop_outcome e since createdBy chatId threadId (\<lambda>n. n = candidate) (w_db v) r (w_db w')"
    then show ?thesis using v(1,3) by (auto intro: loop_outcome_mono)
  next
    assume "\<not> named \<and> (\<exists>x. w_tx x = NoTx \<and> w_db x = w_db v \<and> name_loop createdBy chatId threadId named since baseName n e x = (r, w'))"
    then obtain x where "w_tx x = NoTx" "w_db x = w_db w" "name_loop createdBy chatId threadId named since baseName n e x = (r, w')"
      using v(1) by auto
    then show ?thesis using Suc.IH [of x] Suc.prems(3) by simp
  qed
qed

lemma name_loop_first:
  "name_loop createdBy chatId threadId named since baseName max_name_attempts =
     bind (try_candidate createdBy chatId threadId named since baseName)
       (\<lambda>reply. case reply of Some y \<Rightarrow> ret y | None \<Rightarrow> name_loop createdBy chatId threadId named since baseName 4)"
proof -
  have five: "max_name_attempts = Suc 4" by (simp add: max_name_attempts_def)
  show ?thesis unfolding five name_loop.simps by (rule ext)+ (simp add: max_name_attempts_def bind_def ret_def)
qed

lemma named_loop_effect:
  assumes "name_loop createdBy chatId threadId True since baseName max_name_attempts e w = (r, w')" and "w_tx w = NoTx"
    and "\<not> is_local_part_conflict e DbRefused"
  shows "loop_outcome e since createdBy chatId threadId (\<lambda>n. n = baseName) (w_db w) r (w_db w')"
proof -
  from step_effect [OF assms(1) [unfolded name_loop_first] assms(2,3)] show ?thesis by simp
qed

lemma named_effect:
  assumes "create_named createdBy rawName chatId threadId e w = (r, w')" and "w_tx w = NoTx" and "\<not> is_local_part_conflict e DbRefused"
  shows "\<exists>t\<ge>w_tick w. loop_outcome e (clock e t - name_reuse_cooldown_ms) createdBy chatId threadId
    (\<lambda>n. rawName \<noteq> [] \<longrightarrow> n = rawName) (w_db w) r (w_db w')"
proof (cases "rawName = []")
  case False
  let ?v = "w\<lparr>w_tick := Suc (w_tick w)\<rparr>"
  have "name_loop createdBy chatId threadId True (clock e (w_tick w) - name_reuse_cooldown_ms) rawName max_name_attempts e ?v = (r, w')"
    using assms(1) False by (simp add: create_named_def bind_def ret_def now_def at_tick_def)
  from named_loop_effect [OF this] show ?thesis using assms(2,3) by (auto intro!: exI [of _ "w_tick w"] elim: loop_outcome_mono)
next
  case True
  obtain q v where n: "next_inbox_name chatId e w = (q, v)" by fastforce
  have h: "harmless (next_inbox_name chatId)" unfolding next_inbox_name_def by (intro harmless_bind harmless_read harmless_basic)
  have a: "advances (next_inbox_name chatId)" unfolding next_inbox_name_def by (intro advances_rules)
  note v = harmlessD [OF h n] advancesD [OF a n]
  show ?thesis
  proof (cases q)
    case (Inl x)
    with assms(1) True n v show ?thesis by (auto simp: create_named_def bind_def loop_outcome_def)
  next
    case (Inr base)
    let ?v = "v\<lparr>w_tick := Suc (w_tick v)\<rparr>"
    have "name_loop createdBy chatId threadId False (clock e (w_tick v) - name_reuse_cooldown_ms) base max_name_attempts e ?v = (r, w')"
      using assms(1) True n Inr by (simp add: create_named_def bind_def now_def at_tick_def)
    from loop_effect [OF this] have "loop_outcome e (clock e (w_tick v) - name_reuse_cooldown_ms) createdBy chatId threadId
        (\<lambda>n. rawName \<noteq> [] \<longrightarrow> n = rawName) (w_db w) r (w_db w')"
      using assms(2,3) v True by (auto elim: loop_outcome_mono)
    then show ?thesis using v(3) by blast
  qed
qed

lemma name_refusal_effect:
  assumes "name_refusal rawName e w = (q, v)"
  shows "v = w \<and> (\<forall>a. q \<noteq> Inr (Some (NewCreated a))) \<and>
    (q = Inr None \<longrightarrow> rawName = [] \<or> name_re rawName \<and> \<not> (should_enforce_hosted_limits e \<and> impersonates rawName))"
  using assms
  by (auto simp: name_refusal_def assert_alias_not_impersonation_def bind_def catch_def ask_def throw_def ret_def split: if_splits)

lemma creation_effect:
  assumes "create_email_alias (Some createdBy) rawName chatId threadId e w = (r, w')" and "w_tx w = NoTx"
    and "\<not> is_local_part_conflict e DbRefused"
  shows "w_db w' = w_db w \<and> (\<forall>a. r \<noteq> Inr (Some (NewCreated a))) \<or>
    (\<exists>a t. alias_granted e createdBy chatId threadId (al_localPart a) a (w_db w) (w_db w') \<and> w_tick w \<le> t \<and>
       (\<forall>b. find_recent_alias_tombstone (al_localPart a) (clock e t - name_reuse_cooldown_ms) (w_db w) = Some b \<longrightarrow> al_createdBy b = createdBy) \<and>
       (rawName \<noteq> [] \<longrightarrow> al_localPart a = rawName \<and> name_re rawName \<and> \<not> (should_enforce_hosted_limits e \<and> impersonates rawName)) \<and>
       (\<forall>b. r = Inr (Some (NewCreated b)) \<longrightarrow> b = a))"
proof -
  obtain q v where n: "name_refusal rawName e w = (q, v)" by fastforce
  note name = name_refusal_effect [OF n]
  show ?thesis
  proof (cases "config_app_mode e = None \<or> q \<noteq> Inr None")
    case True
    have "w' = w \<and> (\<forall>a. r \<noteq> Inr (Some (NewCreated a)))"
    proof (cases "config_app_mode e = None")
      case True
      with assms(1) show ?thesis by (auto simp: create_email_alias_def bind_def ask_def throw_def)
    next
      case config: False
      show ?thesis
      proof (cases q)
        case (Inl x)
        with assms(1) n config name show ?thesis by (auto simp: create_email_alias_def bind_def ask_def)
      next
        case (Inr y)
        with True config obtain z where "y = Some z" by auto
        with assms(1) n config name Inr show ?thesis by (auto simp: create_email_alias_def bind_def ask_def ret_def)
      qed
    qed
    then show ?thesis by simp
  next
    case False
    with n name have n': "name_refusal rawName e w = (Inr None, w)" by simp
    obtain p where c: "create_named createdBy rawName chatId threadId e w = (p, w')" and p: "\<And>z. r = Inr (Some z) \<Longrightarrow> p = Inr z"
      using assms(1) False n' by (auto simp: create_email_alias_def bind_def ask_def ret_def split: sum.splits prod.splits)
    obtain t where t: "w_tick w \<le> t" and lo: "loop_outcome e (clock e t - name_reuse_cooldown_ms) createdBy chatId threadId
        (\<lambda>n. rawName \<noteq> [] \<longrightarrow> n = rawName) (w_db w) p (w_db w')"
      using named_effect [OF c assms(2,3)] by blast
    have ok: "rawName = [] \<or> name_re rawName \<and> \<not> (should_enforce_hosted_limits e \<and> impersonates rawName)"
      using name False by blast
    from lo [unfolded loop_outcome_def] show ?thesis
    proof
      assume "w_db w' = w_db w \<and> (\<forall>a. p \<noteq> Inr (NewCreated a))"
      then show ?thesis using p by blast
    next
      assume "\<exists>a. alias_granted e createdBy chatId threadId (al_localPart a) a (w_db w) (w_db w') \<and> (rawName \<noteq> [] \<longrightarrow> al_localPart a = rawName) \<and>
        (\<forall>b. find_recent_alias_tombstone (al_localPart a) (clock e t - name_reuse_cooldown_ms) (w_db w) = Some b \<longrightarrow> al_createdBy b = createdBy) \<and>
        (\<forall>b. p = Inr (NewCreated b) \<longrightarrow> b = a)"
      then obtain a where a: "alias_granted e createdBy chatId threadId (al_localPart a) a (w_db w) (w_db w')"
          "rawName \<noteq> [] \<longrightarrow> al_localPart a = rawName"
          "\<forall>b. find_recent_alias_tombstone (al_localPart a) (clock e t - name_reuse_cooldown_ms) (w_db w) = Some b \<longrightarrow> al_createdBy b = createdBy"
          "\<forall>b. p = Inr (NewCreated b) \<longrightarrow> b = a" by blast
      have "\<forall>b. r = Inr (Some (NewCreated b)) \<longrightarrow> b = a" using a(4) p by blast
      with a(1-3) t ok show ?thesis by (intro disjI2 exI [of _ a] exI [of _ t]) auto
    qed
  qed
qed

section \<open>The ways to a new alias\<close>

text \<open>\<open>/newemail\<close>, the button for an automatic name (\<open>ns\<close> of \<open>bot.ts\<close>) and a name typed after the prompt, with the
  user's session.\<close>

definition get_prompt :: "bigint \<Rightarrow> pending_action option io" where
  "get_prompt userId =
     bind now (\<lambda>t. bind (peek w_sessions) (\<lambda>s. case get_pending t userId s of (p, s') \<Rightarrow> bind (set_sessions s') (\<lambda>_. ret p)))"

definition set_prompt :: "bigint \<Rightarrow> pending_action \<Rightarrow> unit io" where
  "set_prompt userId p = bind now (\<lambda>t. bind (peek w_sessions) (\<lambda>s. set_sessions (set_pending t userId p s)))"

definition clear_prompt :: "bigint \<Rightarrow> unit io" where
  "clear_prompt userId = bind now (\<lambda>t. bind (peek w_sessions) (\<lambda>s. set_sessions (clear_pending t userId s)))"

datatype new_answer = Answer new_reply | AccountInactive | AccessDenied | NamePrompted

definition guarded_creation :: "bool \<Rightarrow> bigint \<Rightarrow> bigint \<Rightarrow> new_answer option io \<Rightarrow> new_answer option io" where
  "guarded_creation clear userId chatId work =
     (let refuse = (\<lambda>answer. bind (if clear then clear_prompt userId else ret ()) (\<lambda>_. ret (Some answer))) in
      bind (has_active_hosted_user (Some userId)) (\<lambda>active.
        if \<not> active then refuse AccountInactive
        else bind (can_manage_chat True userId chatId) (\<lambda>allowed.
          if \<not> allowed then refuse AccessDenied else work)))"

definition newemail_target :: "pending_action option \<Rightarrow> bigint \<Rightarrow> bigint option \<Rightarrow> (bigint \<times> bigint option \<times> string option) io" where
  "newemail_target pending chatId threadId =
     (case pending of
        Some (PendingNewEmail c title th) \<Rightarrow> ret (c, None, Some title)
      | _ \<Rightarrow> bind (db_read (find_chat_by_id chatId)) (\<lambda>row. ret (chatId, threadId, map_option ch_title row)))"

definition create_answer :: "bigint \<Rightarrow> string \<Rightarrow> bigint \<Rightarrow> bigint option \<Rightarrow> new_answer option io" where
  "create_answer userId rawName chatId threadId =
     bind (create_email_alias (Some userId) rawName chatId threadId) (\<lambda>r. ret (map_option Answer r))"

definition clear_and_create :: "bigint \<Rightarrow> string \<Rightarrow> bigint \<Rightarrow> bigint option \<Rightarrow> new_answer option io" where
  "clear_and_create userId rawName chatId threadId = bind (clear_prompt userId) (\<lambda>_. create_answer userId rawName chatId threadId)"

definition newemail_handler :: "bigint option \<Rightarrow> string \<Rightarrow> bigint \<Rightarrow> bigint option \<Rightarrow> new_answer option io" where
  "newemail_handler from text chatId threadId =
     (case from of
        None \<Rightarrow> ret None
      | Some userId \<Rightarrow>
          let rawName = js_trim text in
          bind (get_prompt userId) (\<lambda>pending.
          bind (newemail_target pending chatId threadId) (\<lambda>(target, thread, title).
            if rawName = [] \<and> pending = None
            then guarded_creation False userId target
              (bind (set_prompt userId (PendingNewEmail target (or_else title ''this chat'') thread)) (\<lambda>_. ret (Some NamePrompted)))
            else guarded_creation True userId target (clear_and_create userId rawName target thread))))"

text \<open>The callback \<open>ns\<close> of \<open>bot.ts\<close>: the topic of the pending prompt is not looked at.\<close>

definition skip_alias_callback :: "bigint option \<Rightarrow> bigint \<Rightarrow> new_answer option io" where
  "skip_alias_callback from chatId =
     (case from of
        None \<Rightarrow> ret (Some AccountInactive)
      | Some userId \<Rightarrow>
          guarded_creation False userId chatId
            (bind (clear_prompt userId) (\<lambda>_.
             bind (db_read (find_chat_by_id chatId)) (\<lambda>_. create_answer userId [] chatId None))))"

text \<open>The branch of \<open>handlePendingTextMessage\<close> for a new alias.\<close>

definition typed_name :: "bigint \<Rightarrow> string \<Rightarrow> bigint \<Rightarrow> bigint option \<Rightarrow> new_answer option io" where
  "typed_name userId text chatId threadId = guarded_creation True userId chatId (clear_and_create userId (js_trim text) chatId threadId)"

datatype creation_request =
    NewCommand string bigint "bigint option"               \<comment> \<open>text, chat, topic\<close>
  | SkipName bigint
  | TypedName string bigint "bigint option"                            \<comment> \<open>text, the prompt's chat and topic\<close>

fun run_creation :: "bigint \<Rightarrow> creation_request \<Rightarrow> new_answer option io" where
  "run_creation userId (NewCommand text chatId threadId) = newemail_handler (Some userId) text chatId threadId"
| "run_creation userId (SkipName chatId) = skip_alias_callback (Some userId) chatId"
| "run_creation userId (TypedName text chatId threadId) = typed_name userId text chatId threadId"

text \<open>Where a request may create an alias, and under which name (the empty one is an automatic name).\<close>

fun request_place :: "pending_action option \<Rightarrow> creation_request \<Rightarrow> string \<times> bigint \<times> bigint option" where
  "request_place pending (NewCommand text chatId threadId) =
     (case pending of Some (PendingNewEmail c title th) \<Rightarrow> (js_trim text, c, None) | _ \<Rightarrow> (js_trim text, chatId, threadId))"
| "request_place pending (SkipName chatId) = ([], chatId, None)"
| "request_place pending (TypedName text chatId threadId) = (js_trim text, chatId, threadId)"

definition creation_allowed :: "env \<Rightarrow> world \<Rightarrow> world \<Rightarrow> bigint \<Rightarrow> string \<Rightarrow> bigint \<Rightarrow> bigint option \<Rightarrow> alias_row \<Rightarrow> bool" where
  "creation_allowed e w w' userId rawName chatId threadId a \<longleftrightarrow>
     alias_granted e userId chatId threadId (al_localPart a) a (w_db w) (w_db w') \<and>
     (\<exists>t\<ge>w_tick w. \<forall>b. find_recent_alias_tombstone (al_localPart a) (clock e t - name_reuse_cooldown_ms) (w_db w) = Some b \<longrightarrow>
        al_createdBy b = userId) \<and>
     (rawName \<noteq> [] \<longrightarrow> al_localPart a = rawName \<and> name_re rawName \<and> \<not> (should_enforce_hosted_limits e \<and> impersonates rawName))"

definition created_answer :: "exn + new_answer option \<Rightarrow> alias_row \<Rightarrow> bool" where
  "created_answer r a \<longleftrightarrow> r = Inr (Some (Answer (NewCreated a)))"

text \<open>What a piece of a handler may do, when it starts in a world with this database outside a transaction.\<close>

definition creates :: "bigint \<Rightarrow> string \<Rightarrow> bigint \<Rightarrow> bigint option \<Rightarrow> bool \<Rightarrow> new_answer option io \<Rightarrow> bool" where
  "creates userId rawName chatId threadId checked m \<longleftrightarrow>
     (\<forall>e w r w'. m e w = (r, w') \<longrightarrow> w_tx w = NoTx \<longrightarrow> \<not> is_local_part_conflict e DbRefused \<longrightarrow>
        w_db w' = w_db w \<and> (\<forall>a. \<not> created_answer r a) \<or>
        (\<exists>a. creation_allowed e w w' userId rawName chatId threadId a \<and> (\<forall>b. created_answer r b \<longrightarrow> b = a) \<and>
           (checked \<longrightarrow> chatId = userId \<or> during w w' (is_admin_at e chatId userId))))"

lemma creates_create: "creates u n c th False (create_answer u n c th)"
  unfolding creates_def
proof (intro allI impI)
  fix e w r w' assume run: "create_answer u n c th e w = (r, w')" and w: "w_tx w = NoTx" "\<not> is_local_part_conflict e DbRefused"
  obtain q where q: "create_email_alias (Some u) n c th e w = (q, w')" "\<And>a. created_answer r a \<Longrightarrow> q = Inr (Some (NewCreated a))"
    using run by (auto simp: create_answer_def bind_def ret_def created_answer_def split: sum.splits prod.splits)
  show "w_db w' = w_db w \<and> (\<forall>a. \<not> created_answer r a) \<or>
        (\<exists>a. creation_allowed e w w' u n c th a \<and> (\<forall>b. created_answer r b \<longrightarrow> b = a) \<and>
           (False \<longrightarrow> c = u \<or> during w w' (is_admin_at e c u)))"
    using creation_effect [OF q(1) w] q(2) unfolding creation_allowed_def by (elim disjE) blast+
qed

lemma creation_allowed_earlier:
  "creation_allowed e v w' u n c th a \<Longrightarrow> w_db v = w_db w \<Longrightarrow> w_tick w \<le> w_tick v \<Longrightarrow> creation_allowed e w w' u n c th a"
  unfolding creation_allowed_def by (auto intro: le_trans)

lemma bind_ret: "bind (ret a) f = f a"
  by (rule ext)+ (simp add: bind_def ret_def)

lemma bind_assoc: "bind (bind m f) g = bind m (\<lambda>a. bind (f a) g)"
  by (rule ext)+ (simp add: bind_def split: prod.split sum.split)

lemma creates_after:
  assumes "harmless p" and "advances p" and "\<And>a. creates u n c th k (f a)"
  shows "creates u n c th k (bind p f)"
  unfolding creates_def
proof (intro allI impI)
  fix e w r w' assume run: "bind p f e w = (r, w')" and w: "w_tx w = NoTx" "\<not> is_local_part_conflict e DbRefused"
  obtain q v where q: "p e w = (q, v)" by fastforce
  have v: "w_db v = w_db w" "w_tx v = NoTx" "w_tick w \<le> w_tick v"
    using harmlessD [OF assms(1) q] w(1) advancesD [OF assms(2) q] by simp_all
  show "w_db w' = w_db w \<and> (\<forall>a. \<not> created_answer r a) \<or>
        (\<exists>a. creation_allowed e w w' u n c th a \<and> (\<forall>b. created_answer r b \<longrightarrow> b = a) \<and> (k \<longrightarrow> c = u \<or> during w w' (is_admin_at e c u)))"
  proof (cases q)
    case (Inl x)
    with run q v show ?thesis by (auto simp: bind_def created_answer_def)
  next
    case (Inr a)
    with run q have "f a e v = (r, w')" by (simp add: bind_def)
    with assms(3) [of a] v(2) w(2) have "w_db w' = w_db v \<and> (\<forall>a. \<not> created_answer r a) \<or>
        (\<exists>a. creation_allowed e v w' u n c th a \<and> (\<forall>b. created_answer r b \<longrightarrow> b = a) \<and> (k \<longrightarrow> c = u \<or> during v w' (is_admin_at e c u)))"
      unfolding creates_def by blast
    then show ?thesis using v creation_allowed_earlier [of e v w' u n c th _ w] during_mono [of v w' _ w w'] by auto
  qed
qed

lemma creates_ret: "(\<And>a. \<not> created_answer (Inr x) a) \<Longrightarrow> creates u n c th k (ret x)"
  by (auto simp: creates_def ret_def)

lemma harmless_ask: "harmless (ask f)"
  by (simp add: harmless_def ask_def)

lemma active_user_rules: "harmless (has_active_hosted_user i)" "advances (has_active_hosted_user i)"
proof -
  show "harmless (has_active_hosted_user i)" unfolding has_active_hosted_user_def find_user_by_id_def
    by (auto intro!: harmless_bind harmless_ask harmless_basic harmless_read split: option.split)
  show "advances (has_active_hosted_user i)" unfolding has_active_hosted_user_def find_user_by_id_def
    by (intro advances_rules)
qed

lemma harmless_sessions: "harmless (set_sessions s)"
  by (simp add: harmless_def cache_simps)

lemma prompt_rules:
  "harmless (get_prompt u)" "harmless (set_prompt u p)" "harmless (clear_prompt u)" "harmless (if b then clear_prompt u else ret ())"
  "advances (get_prompt u)" "advances (set_prompt u p)" "advances (clear_prompt u)" "advances (if b then clear_prompt u else ret ())"
  unfolding get_prompt_def set_prompt_def clear_prompt_def
  by (auto intro!: harmless_bind harmless_basic harmless_sessions advances_rules split: prod.splits)

lemma creates_guarded:
  assumes "creates u n c th False m" and "advances m"
  shows "creates u n c th True (guarded_creation clear u c m)"
proof -
  have gate: "creates u n c th True (bind (can_manage_chat True u c) (\<lambda>allowed. if \<not> allowed then no else m))"
    if no: "creates u n c th True no" for no
    unfolding creates_def
  proof (intro allI impI)
    fix e w r w' assume run: "bind (can_manage_chat True u c) (\<lambda>allowed. if \<not> allowed then no else m) e w = (r, w')"
      and w: "w_tx w = NoTx" "\<not> is_local_part_conflict e DbRefused"
    obtain q v where q: "can_manage_chat True u c e w = (q, v)" by fastforce
    have v: "w_db v = w_db w" "w_tx v = NoTx" "w_tick w \<le> w_tick v"
      using harmlessD [OF harmless_manage_chat q] w(1) advancesD [OF advances_authorization(1) q] by simp_all
    show "w_db w' = w_db w \<and> (\<forall>a. \<not> created_answer r a) \<or>
        (\<exists>a. creation_allowed e w w' u n c th a \<and> (\<forall>b. created_answer r b \<longrightarrow> b = a) \<and> (True \<longrightarrow> c = u \<or> during w w' (is_admin_at e c u)))"
    proof (cases "q = Inr True")
      case False
      show ?thesis
      proof (cases q)
        case (Inl x)
        with run q v show ?thesis by (auto simp: bind_def created_answer_def)
      next
        case (Inr b)
        with False run q have "no e v = (r, w')" by (auto simp: bind_def split: if_splits)
        with no v(2) w(2) have "w_db w' = w_db v \<and> (\<forall>a. \<not> created_answer r a) \<or>
          (\<exists>a. creation_allowed e v w' u n c th a \<and> (\<forall>b. created_answer r b \<longrightarrow> b = a) \<and> (True \<longrightarrow> c = u \<or> during v w' (is_admin_at e c u)))"
          unfolding creates_def by blast
        then show ?thesis using v creation_allowed_earlier [of e v w' u n c th _ w] during_mono [of v w' _ w w'] by auto
      qed
    next
      case True
      with run q have m: "m e v = (r, w')" by (simp add: bind_def)
      have "c = u \<or> during w w' (is_admin_at e c u)"
        using fresh_admin [OF q [unfolded True]] advancesD [OF assms(2) m] by (auto intro: during_mono)
      moreover have "w_db w' = w_db v \<and> (\<forall>a. \<not> created_answer r a) \<or>
        (\<exists>a. creation_allowed e v w' u n c th a \<and> (\<forall>b. created_answer r b \<longrightarrow> b = a))"
        using assms(1) m v(2) w(2) unfolding creates_def by blast
      ultimately show ?thesis using v creation_allowed_earlier [of e v w' u n c th _ w] by auto
    qed
  qed
  have refuse: "creates u n c th True (bind (if clear then clear_prompt u else ret ()) (\<lambda>_. ret (Some answer)))"
    if "\<And>a. answer \<noteq> Answer (NewCreated a)" for answer
    using that by (intro creates_after prompt_rules creates_ret) (auto simp: created_answer_def)
  show ?thesis unfolding guarded_creation_def Let_def
    by (intro creates_after active_user_rules) (simp add: gate [OF refuse] refuse)
qed

lemma advances_create [advances_rules]: "advances (create_answer u n c th)" "advances (clear_and_create u n c th)"
proof -
  have shared: "advances shared_domain"
    unfolding shared_domain_def ensure_shared_inbound_domain_def shared_and_active_def Let_def by (intro advances_rules)
  have limit: "advances (check_alias_create_limit i)" for i
    unfolding check_alias_create_limit_def find_user_by_id_def get_effective_plan_def by (intro advances_rules)
  have maps: "(\<And>x. advances (f x)) \<Longrightarrow> advances (for_map xs f)" for f :: "'x \<Rightarrow> 'y io" and xs
    by (induction xs) (auto intro!: advances_rules)
  have reserve: "advances (reserve_hosted_alias_create_attempt i)" for i
    unfolding reserve_hosted_alias_create_attempt_def reserve_hosted_rate_limit_buckets_in_transaction_def increment_bucket_def Let_def
    by (intro advances_rules maps)
  have allocate: "advances (allocate_alias u c th cand)" for cand
    unfolding allocate_alias_def create_alias_def by (intro advances_rules shared limit reserve)
  have candidate: "advances (try_candidate u c th nm since cand)" for nm since cand
    unfolding try_candidate_def create_candidate_def creation_failed_def with_chat_migration_lock_def create_in_chat_def nested_user_quota_lock_def
    by (intro advances_rules allocate)
  have loop: "advances (name_loop u c th nm since base k)" for nm since base k
    by (induction k) (auto intro!: advances_rules candidate)
  show create: "advances (create_answer u n c th)"
    unfolding create_answer_def create_email_alias_def name_refusal_def assert_alias_not_impersonation_def create_named_def next_inbox_name_def
    by (auto intro!: advances_rules loop)
  show "advances (clear_and_create u n c th)"
    unfolding clear_and_create_def by (intro advances_rules prompt_rules create)
qed

lemma creates_clear: "creates u n c th False (clear_and_create u n c th)"
  unfolding clear_and_create_def by (intro creates_after prompt_rules creates_create)

lemma skip_creates: "creates userId [] c None True (skip_alias_callback (Some userId) c)"
proof -
  have "creates userId [] c None True (guarded_creation False userId c
      (bind (clear_prompt userId) (\<lambda>_. bind (db_read (find_chat_by_id c)) (\<lambda>_. create_answer userId [] c None))))"
    by (intro creates_guarded creates_after harmless_read advances_rules creates_create prompt_rules)
  then show ?thesis by (simp add: skip_alias_callback_def)
qed

text \<open>An automatic name never keeps the topic the prompt was opened in.\<close>

lemma auto_name_drops_topic:
  assumes "skip_alias_callback (Some userId) c e w = (r, w')" and "w_tx w = NoTx" and "\<not> is_local_part_conflict e DbRefused"
    and "created_answer r a"
  shows "al_messageThreadId a = None"
  using skip_creates [of userId c] assms unfolding creates_def creation_allowed_def alias_granted_def by blast

lemma newemail_creates:
  assumes "request_place pending (NewCommand input c th) = (rawName, chatId, threadId)"
  shows "creates userId rawName chatId threadId True (bind (newemail_target pending c th) (\<lambda>(target, thread, title).
            if js_trim input = [] \<and> pending = None
            then guarded_creation False userId target
              (bind (set_prompt userId (PendingNewEmail target (or_else title ''this chat'') thread)) (\<lambda>_. ret (Some NamePrompted)))
            else guarded_creation True userId target (clear_and_create userId (js_trim input) target thread)))"
proof -
  have made: "creates userId n c th True (guarded_creation clear userId c (clear_and_create userId n c th))" for n c th clear
    by (intro creates_guarded creates_clear advances_create)
  have prompt: "creates userId n c th True (guarded_creation False userId c (bind (set_prompt userId p) (\<lambda>_. ret (Some NamePrompted))))" for n c th p
    by (intro creates_guarded creates_after creates_ret advances_rules prompt_rules) (auto simp: created_answer_def)
  have read: "creates userId n c th True (bind (db_read (find_chat_by_id c)) f)" if "\<And>row. creates userId n c th True (f row)" for n c th f
    using that by (intro creates_after harmless_read advances_rules)
  show ?thesis
  proof (cases "\<exists>p title q. pending = Some (PendingNewEmail p title q)")
    case True
    with assms made show ?thesis by (auto simp: newemail_target_def bind_ret)
  next
    case False
    then have "newemail_target pending c th = bind (db_read (find_chat_by_id c)) (\<lambda>row. ret (c, th, map_option ch_title row))"
      and "request_place pending (NewCommand input c th) = (js_trim input, c, th)"
      by (auto simp: newemail_target_def split: option.splits pending_action.splits)
    then show ?thesis using assms read made prompt by (auto simp: bind_assoc bind_ret)
  qed
qed

lemma createsD:
  assumes "creates u n c th k m" and "m e w = (r, w')" and "w_tx w = NoTx" and "\<not> is_local_part_conflict e DbRefused"
  shows "w_db w' = w_db w \<and> (\<forall>a. \<not> created_answer r a) \<or>
    (\<exists>a. creation_allowed e w w' u n c th a \<and> (\<forall>b. created_answer r b \<longrightarrow> b = a) \<and> (k \<longrightarrow> c = u \<or> during w w' (is_admin_at e c u)))"
  using assms unfolding creates_def by blast

lemma bind_run: "m e w = (Inr a, w1) \<Longrightarrow> bind m f e w = f a e w1"
  by (simp add: bind_def)

lemma get_prompt_run:
  "get_pending (clock e (w_tick w)) userId (w_sessions w) = (p, s) \<Longrightarrow>
   get_prompt userId e w = (Inr p, w\<lparr>w_tick := Suc (w_tick w), w_sessions := s\<rparr>)"
  by (simp add: get_prompt_def bind_def now_def at_tick_def cache_simps ret_def)

lemma run_creation_effect:
  assumes "run_creation userId req e w = (r, w')" and "w_tx w = NoTx" and "\<not> is_local_part_conflict e DbRefused"
    and "request_place (fst (get_pending (clock e (w_tick w)) userId (w_sessions w))) req = (rawName, chatId, threadId)"
  shows "w_db w' = w_db w \<and> (\<forall>a. \<not> created_answer r a) \<or>
    (\<exists>a. creation_allowed e w w' userId rawName chatId threadId a \<and> (\<forall>b. created_answer r b \<longrightarrow> b = a) \<and>
       (chatId = userId \<or> during w w' (is_admin_at e chatId userId)))"
proof (cases req)
  case (NewCommand input c th)
  obtain p s where p: "get_pending (clock e (w_tick w)) userId (w_sessions w) = (p, s)" by fastforce
  let ?v = "w\<lparr>w_tick := Suc (w_tick w), w_sessions := s\<rparr>"
  have "bind (newemail_target p c th) (\<lambda>(target, thread, title).
            if js_trim input = [] \<and> p = None
            then guarded_creation False userId target
              (bind (set_prompt userId (PendingNewEmail target (or_else title ''this chat'') thread)) (\<lambda>_. ret (Some NamePrompted)))
            else guarded_creation True userId target (clear_and_create userId (js_trim input) target thread)) e ?v = (r, w')"
    using assms(1) by (simp add: NewCommand newemail_handler_def Let_def bind_run [where m = "get_prompt userId", OF get_prompt_run [OF p]])
  note run = this
  have place: "request_place p (NewCommand input c th) = (rawName, chatId, threadId)" using assms(4) p NewCommand by simp
  have "w_db w' = w_db ?v \<and> (\<forall>a. \<not> created_answer r a) \<or>
    (\<exists>a. creation_allowed e ?v w' userId rawName chatId threadId a \<and> (\<forall>b. created_answer r b \<longrightarrow> b = a) \<and>
       (True \<longrightarrow> chatId = userId \<or> during ?v w' (is_admin_at e chatId userId)))"
    by (rule createsD [OF newemail_creates [OF place] run _ assms(3)]) (simp add: assms(2))
  then show ?thesis using creation_allowed_earlier [of e ?v w' userId rawName chatId threadId _ w] during_mono [of ?v w' _ w w'] by auto
next
  case (SkipName c)
  with skip_creates [of userId c] assms show ?thesis unfolding creates_def by auto
next
  case (TypedName input c th)
  have "creates userId rawName chatId threadId True (guarded_creation True userId chatId (clear_and_create userId rawName chatId threadId))"
    by (intro creates_guarded creates_clear advances_create)
  with TypedName assms show ?thesis unfolding creates_def by (auto simp: typed_name_def)
qed


lemma sample_creation:
  "\<exists>a w'. create_email_alias (Some 7) ''alerts'' 7 None calm_env ((start_world empty_db)\<lparr>w_tick := 1\<rparr>) = (Inr (Some (NewCreated a)), w')"
proof -
  have "name_refusal ''alerts'' calm_env ((start_world empty_db)\<lparr>w_tick := 1\<rparr>) = (Inr None, (start_world empty_db)\<lparr>w_tick := 1\<rparr>)"
    by (simp add: name_refusal_def name_re_def name_char_def is_digit_def is_separator_def char_code_def assert_alias_not_impersonation_def
        bind_def catch_def ask_def ret_def should_enforce_hosted_limits_def)
  note refusal = this
  define v where "v = (start_world empty_db)\<lparr>w_tick := Suc (Suc (Suc 0))\<rparr>"
  have "\<exists>a w2. bind advisory_lock (\<lambda>_. create_in_chat 7 7 None ''alerts'') calm_env (begin_tx calm_env v) = (Inr a, w2) \<and> w_tx w2 = InTx"
    by (simp add: v_def create_in_chat_def step_simps begin_tx_def find_chat_by_id_def nested_user_quota_lock_def should_enforce_hosted_limits_def
        allocate_alias_def shared_domain_def check_alias_create_limit_def reserve_hosted_alias_create_attempt_def create_alias_def
        create_alias_stmt_def new_alias_of_def Let_def)
  then obtain a w2 where "bind advisory_lock (\<lambda>_. create_in_chat 7 7 None ''alerts'') calm_env (begin_tx calm_env v) = (Inr a, w2)" "w_tx w2 = InTx"
    by blast
  then have "with_chat_migration_lock 7 (create_in_chat 7 7 None ''alerts'') calm_env v = (Inr a, w2\<lparr>w_tick := Suc (w_tick w2), w_tx := NoTx\<rparr>)"
    using transaction_fine [of calm_env v "bind advisory_lock (\<lambda>_. create_in_chat 7 7 None ''alerts'')" a w2]
    by (simp add: with_chat_migration_lock_def)
  then show ?thesis using refusal
    by (simp add: create_email_alias_def create_named_def name_loop_first try_candidate_def create_candidate_def bind_def ask_def ret_def now_def
        at_tick_def db_read_def db_stmt_fine find_recent_alias_tombstone_def catch_def v_def start_world_def)
qed


end
