(* ===== verification/Menus.thy ===== *)
theory Menus
  imports NewEmail
begin

text \<open>
  The menus of the bot: \<open>src/telegram/menu/aliasMenu.ts\<close>, \<open>allowRulesMenu.ts\<close>, \<open>chatMenu.ts\<close>, the keyboards of
  \<open>src/telegram/commands/settings.ts\<close> and \<open>newemail.ts\<close>, and the lists of \<open>src/telegram/commands/listemail.ts\<close>.
  Of a message its key in the catalogue is kept, of a button its callback data; icons and labels are left out.
\<close>

section \<open>Asking Telegram\<close>

text \<open>What the handlers use of an update.\<close>

record update_ctx =
  cx_from :: "bigint option"
  cx_language :: "string option"
  cx_chat :: bigint
  cx_chatType :: string
  cx_thread :: "bigint option"    \<comment> \<open>\<open>message_thread_id\<close> of the message or of the menu that was tapped\<close>
  cx_messageId :: int

text \<open>\<open>tolerateLateCallbackAnswers\<close> of \<open>src/telegram/updateGates.ts\<close>: an answer that comes too late counts as given.\<close>

definition tolerated :: "bot_request \<Rightarrow> send_error \<Rightarrow> bool" where
  "tolerated rq err \<longleftrightarrow>
     (case (rq, err) of
        (AnswerCallback toast, BotApiError c d m) \<Rightarrow> c = 400 \<and> js_includes (js_lower d) ''query is too old''
      | _ \<Rightarrow> False)"

definition ask_bot :: "bot_request \<Rightarrow> unit io" where
  "ask_bot rq =
     bind (at_tick (\<lambda>e t. bot_refusal e t rq)) (\<lambda>refused.
       case refused of
         None \<Rightarrow> ret ()
       | Some err \<Rightarrow>
           if tolerated rq err then ret ()
           else throw (Raised (case err of BotApiError c d m \<Rightarrow> ''GrammyError'' | PlainError m \<Rightarrow> ''HttpError'')))"

abbreviation answer_callback :: "string option \<Rightarrow> unit io" where
  "answer_callback toast \<equiv> ask_bot (AnswerCallback toast)"

definition ctx_locale :: "update_ctx \<Rightarrow> string io" where
  "ctx_locale cx = resolve_locale (cx_from cx) (cx_language cx)"

definition opener :: "update_ctx \<Rightarrow> bigint" where
  "opener cx = or_else (cx_from cx) 0"

section \<open>Chats\<close>

text \<open>\<open>buildPlanFooter\<close>: plan, aliases used and allowed; any error leaves the footer out.\<close>

definition build_plan_footer :: "bigint \<Rightarrow> (plan_definition \<times> nat \<times> int) option io" where
  "build_plan_footer userId =
     bind (ask config_app_mode) (\<lambda>mode.
       if mode = None then throw (Raised ''ConfigError'')
       else if mode \<noteq> Some ''hosted'' then ret None
       else catch
         (bind (find_user_by_id userId) (\<lambda>user. case user of
            None \<Rightarrow> ret None
          | Some u \<Rightarrow>
              bind (get_effective_plan u) (\<lambda>plan.
              bind (db_read (count_active_aliases_by_user (u_id u))) (\<lambda>used.
              ret (Some (plan, used, lim_aliases (pl_limits plan)))))))
         (\<lambda>_. ret None))"

definition chat_selection_buttons :: "bigint \<Rightarrow> chat_row list \<Rightarrow> string list" where
  "chat_selection_buttons openerId found =
     map (\<lambda>c. build_callback chat_menu_cb [int_string (ch_id c)]) found @ [build_callback menu_close_cb [int_string openerId]]"

definition chat_selection_menu :: "(string \<Rightarrow> string list \<Rightarrow> bot_request) \<Rightarrow> string \<Rightarrow> update_ctx \<Rightarrow> unit io" where
  "chat_selection_menu request noChats cx =
     (case cx_from cx of
        None \<Rightarrow> ret ()
      | Some userId \<Rightarrow>
          bind (ctx_locale cx) (\<lambda>locale.
          bind (get_accessible_chats userId) (\<lambda>found.
            if found = [] then ask_bot (request noChats [])
            else bind (build_plan_footer userId) (\<lambda>footer.
              ask_bot (request (if footer = None then ''chatMenu.selectChat'' else ''chatMenu.selectChat+planFooter'')
                (chat_selection_buttons userId found))))))"

definition send_chat_selection_menu :: "update_ctx \<Rightarrow> unit io" where
  "send_chat_selection_menu = chat_selection_menu ReplyText ''chatMenu.noChats''"

definition edit_chat_selection_menu :: "update_ctx \<Rightarrow> unit io" where
  "edit_chat_selection_menu = chat_selection_menu EditText ''chatMenu.noChatsEdit''"

definition edit_chat_management_menu :: "update_ctx \<Rightarrow> bigint \<Rightarrow> unit io" where
  "edit_chat_management_menu cx chatId =
     bind (ctx_locale cx) (\<lambda>locale.
     ask_bot (EditText ''chatMenu.managing''
       [build_callback new_email_cb [int_string chatId], build_callback alias_list_cb [int_string chatId], chat_selection_data]))"

section \<open>Aliases\<close>

definition filter_visible_aliases :: "bigint option \<Rightarrow> alias_row list \<Rightarrow> alias_row list io" where
  "filter_visible_aliases from as =
     (case from of
        None \<Rightarrow> ret []
      | Some userId \<Rightarrow>
          bind (for_map as (\<lambda>a. bind (can_manage_alias False userId (al_id a)) (\<lambda>allowed. ret (a, allowed)))) (\<lambda>checked.
          ret (map fst (filter snd checked))))"

definition alias_list_buttons :: "bigint \<Rightarrow> bigint \<Rightarrow> alias_row list \<Rightarrow> string list" where
  "alias_list_buttons openerId chatId as =
     (if as = [] then [build_callback new_email_cb [int_string chatId]]
      else map (\<lambda>a. build_callback alias_detail_cb [al_id a]) as) @
     [build_callback chat_menu_cb [int_string chatId], build_callback menu_close_cb [int_string openerId]]"

definition edit_alias_list_menu :: "update_ctx \<Rightarrow> bigint \<Rightarrow> unit io" where
  "edit_alias_list_menu cx chatId =
     bind (ctx_locale cx) (\<lambda>locale.
     bind (db_read (list_aliases_by_chat chatId)) (\<lambda>all.
     bind (filter_visible_aliases (cx_from cx) all) (\<lambda>as.
     ask_bot (EditText (if as = [] then ''aliasMenu.emptyHeader'' else ''aliasMenu.listHeader'') (alias_list_buttons (opener cx) chatId as)))))"

text \<open>The keyboard of an alias, seen from the topic the menu is open in.\<close>

definition alias_detail_buttons :: "bigint \<Rightarrow> bigint option \<Rightarrow> alias_row \<Rightarrow> string list" where
  "alias_detail_buttons openerId currentThreadId a =
     (case al_status a of
        Active \<Rightarrow> [build_callback alias_pause_cb [al_id a]]
      | Paused \<Rightarrow> [build_callback alias_resume_cb [al_id a]]
      | Deleted \<Rightarrow> []) @
     [build_callback alias_delete_cb [al_id a], build_callback allow_rules_cb [al_id a],
      build_callback alias_settings_cb [al_id a], build_callback alias_move_cb [al_id a]] @
     (if currentThreadId \<noteq> None \<and> (al_messageThreadId a = None \<or> currentThreadId \<noteq> al_messageThreadId a)
      then [build_callback alias_set_topic_cb [al_id a, int_string (al_routingVersion a)]] else []) @
     (if al_messageThreadId a \<noteq> None
      then [build_callback alias_clear_topic_cb [al_id a, int_string (al_routingVersion a)]] else []) @
     build_callback alias_label_edit_cb [al_id a] #
     (if truthy (al_label a) then [build_callback alias_label_clear_cb [al_id a]] else []) @
     [build_callback alias_list_cb [int_string (al_chatId a)], build_callback menu_close_cb [int_string openerId]]"

definition show_topic_hint :: "bigint option \<Rightarrow> alias_row \<Rightarrow> chat_row option \<Rightarrow> bool" where
  "show_topic_hint currentThreadId a chat \<longleftrightarrow>
     map_option ch_type chat = Some ''supergroup'' \<and> al_messageThreadId a = None \<and> currentThreadId = None"

definition alias_detail_menu :: "(string \<Rightarrow> string list \<Rightarrow> bot_request) \<Rightarrow> bot_request \<Rightarrow> update_ctx \<Rightarrow> uuid \<Rightarrow> unit io" where
  "alias_detail_menu request missing cx aliasId =
     bind (ctx_locale cx) (\<lambda>locale.
     bind (db_read (find_alias_by_id aliasId)) (\<lambda>found.
       case found of
         None \<Rightarrow> ask_bot missing
       | Some a \<Rightarrow>
           bind (db_read (list_allow_rules (al_id a))) (\<lambda>rules.
           bind (db_read (find_chat_by_id (al_chatId a))) (\<lambda>chat.
           ask_bot (request (if show_topic_hint (cx_thread cx) a chat then ''aliasMenu.detailLines+topicHowTo'' else ''aliasMenu.detailLines'')
             (alias_detail_buttons (opener cx) (cx_thread cx) a))))))"

definition edit_alias_detail_menu :: "update_ctx \<Rightarrow> uuid \<Rightarrow> unit io" where
  "edit_alias_detail_menu = alias_detail_menu EditText (AnswerCallback (Some ''common.aliasNotFoundShort''))"

definition send_alias_detail_menu :: "update_ctx \<Rightarrow> uuid \<Rightarrow> unit io" where
  "send_alias_detail_menu = alias_detail_menu ReplyText (ReplyText ''common.aliasNotFound'' [])"

definition edit_alias_delete_confirm_menu :: "update_ctx \<Rightarrow> uuid \<Rightarrow> unit io" where
  "edit_alias_delete_confirm_menu cx aliasId =
     bind (ctx_locale cx) (\<lambda>locale.
     bind (db_read (find_alias_by_id aliasId)) (\<lambda>found.
       case found of
         None \<Rightarrow> answer_callback (Some ''common.aliasNotFoundShort'')
       | Some a \<Rightarrow>
           ask_bot (EditText ''aliasMenu.deleteConfirmHeader''
             [build_callback alias_delete_confirm_cb [al_id a, int_string (al_routingVersion a)],
              build_callback alias_delete_cancel_cb [al_id a]])))"

section \<open>Settings and allow rules\<close>

definition render_modes :: "string list" where "render_modes = [''plaintext'', ''html'']"

definition alias_settings_buttons :: "bool \<Rightarrow> alias_row \<Rightarrow> string list" where
  "alias_settings_buttons includeBack a =
     map (\<lambda>mode. build_callback set_mode_cb [al_id a, mode]) render_modes @
     [build_callback toggle_privacy_mode_cb [al_id a], build_callback toggle_body_dedup_cb [al_id a]] @
     (if includeBack then [build_callback alias_detail_cb [al_id a]] else [])"

definition allow_rules_buttons :: "allow_rule_row list \<Rightarrow> uuid \<Rightarrow> string list" where
  "allow_rules_buttons rules aliasId =
     map (\<lambda>r. build_callback delete_rule_cb [ar_id r]) rules @
     [build_callback add_rule_cb [aliasId], build_callback alias_detail_cb [aliasId]]"

definition rules_header :: "nat \<Rightarrow> string" where
  "rules_header n = (if n = 0 then ''allowRulesMenu.headerEmpty'' else ''allowRulesMenu.headerWithRules'')"

definition send_allow_rules_menu :: "update_ctx \<Rightarrow> uuid \<Rightarrow> unit io" where
  "send_allow_rules_menu cx aliasId =
     bind (db_read (find_alias_by_id aliasId)) (\<lambda>found.
       case found of
         None \<Rightarrow> ret ()
       | Some a \<Rightarrow>
           bind (ctx_locale cx) (\<lambda>locale.
           bind (db_read (list_allow_rules aliasId)) (\<lambda>rules.
           ask_bot (ReplyText (rules_header (length rules)) (allow_rules_buttons rules aliasId)))))"

definition edit_allow_rules_menu :: "update_ctx \<Rightarrow> uuid \<Rightarrow> unit io" where
  "edit_allow_rules_menu cx aliasId =
     bind (ctx_locale cx) (\<lambda>locale.
     bind (db_read (find_alias_by_id aliasId)) (\<lambda>found.
       case found of
         None \<Rightarrow> answer_callback (Some ''common.aliasNotFoundShort'')
       | Some a \<Rightarrow>
           bind (db_read (list_allow_rules aliasId)) (\<lambda>rules.
           ask_bot (EditText (rules_header (length rules)) (allow_rules_buttons rules aliasId)))))"

definition quick_allow_domains :: "string list" where
  "quick_allow_domains = [''google.com'', ''github.com'', ''gmail.com'']"

definition quick_allow_buttons :: "bool \<Rightarrow> uuid \<Rightarrow> string list" where
  "quick_allow_buttons toRules aliasId =
     map (\<lambda>dn. build_callback (if toRules then quick_allow_rules_cb else quick_allow_cb) [aliasId, dn]) quick_allow_domains @
     [build_callback add_rule_cb [aliasId]]"

section \<open>The lists of /listemail\<close>

definition list_for_current_chat :: "update_ctx \<Rightarrow> bigint \<Rightarrow> unit io" where
  "list_for_current_chat cx userId =
     bind (ctx_locale cx) (\<lambda>locale.
     bind (can_manage_chat True userId (cx_chat cx)) (\<lambda>allowed.
       if \<not> allowed then ask_bot (ReplyText ''common.accessDenied'' [])
       else bind (db_read (list_aliases_by_chat (cx_chat cx))) (\<lambda>all.
         bind (filter_visible_aliases (Some userId) all) (\<lambda>as.
           if as = [] then ask_bot (ReplyText ''listemail.noAliasesForChat'' [])
           else ask_bot (ReplyText ''listemail.aliasesForChat'' (map (\<lambda>a. build_callback alias_detail_cb [al_id a]) as))))))"

text \<open>The groups are read only for the titles of their chats; the keyboard is flat.\<close>

definition list_all_chats :: "update_ctx \<Rightarrow> bigint \<Rightarrow> unit io" where
  "list_all_chats cx userId =
     bind (ctx_locale cx) (\<lambda>locale.
     bind (db_read (find_aliases_by_creator userId)) (\<lambda>as.
     bind (filter_visible_aliases (Some userId) as) (\<lambda>visible.
     bind (let candidates = filter (\<lambda>a. al_id a \<notin> set (map al_id visible)) as
           in if candidates = [] then ret [] else list_recoverable_orphans userId (Some candidates)) (\<lambda>orphans.
       if visible = [] \<and> orphans = [] then ask_bot (ReplyText ''listemail.noAliases'' [])
       else if visible = []
       then ask_bot (ReplyText ''listemail.orphanHeader'' (map (\<lambda>a. build_callback alias_orphan_cb [al_id a]) orphans))
       else bind (for_map (rev (remdups (rev (map al_chatId visible)))) (\<lambda>c. db_read (find_chat_by_id c))) (\<lambda>titles.
         ask_bot (ReplyText ''listemail.allAliases''
           (map (\<lambda>a. build_callback alias_detail_cb [al_id a]) visible @ map (\<lambda>a. build_callback alias_orphan_cb [al_id a]) orphans)))))))"

definition listemail_handler :: "update_ctx \<Rightarrow> unit io" where
  "listemail_handler cx =
     (case cx_from cx of
        None \<Rightarrow> ret ()
      | Some userId \<Rightarrow> if cx_chatType cx = ''private'' then list_all_chats cx userId else list_for_current_chat cx userId)"

section \<open>Reading and asking changes no row\<close>

text \<open>A computation that only looks: the database and the state of the connection stay as they are.\<close>

definition looks :: "'a io \<Rightarrow> bool" where
  "looks m \<longleftrightarrow> harmless m \<and> advances m"

named_theorems looks_rules \<open>computations that only look\<close>

lemma looks_basic [looks_rules]:
  "looks (ret a)" "looks (throw x)" "looks (ask f)" "looks (at_tick g)" "looks now" "looks (peek p)" "looks (db_read r)"
  "looks (set_member_cache mc)" "looks (set_reach_cache rc)" "looks (set_sessions ss)" "looks (set_auth_limiter ls)"
  "looks (set_pre_auth_limiter ls)" "looks (set_last_export le)"
  by (auto simp: looks_def harmless_read intro!: advances_rules)
    (simp_all add: harmless_def ret_def throw_def ask_def at_tick_def now_def cache_simps)

lemma looks_bind [looks_rules]: "looks m \<Longrightarrow> (\<And>a. looks (f a)) \<Longrightarrow> looks (bind m f)"
  by (auto simp: looks_def intro: harmless_bind advances_bind)

lemma looks_catch [looks_rules]: "looks m \<Longrightarrow> (\<And>x. looks (h x)) \<Longrightarrow> looks (catch m h)"
proof -
  assume m: "looks m" and h: "\<And>x. looks (h x)"
  have "harmless (catch m h)"
    using m h unfolding looks_def harmless_def catch_def by (auto split: prod.splits sum.splits) (metis snd_conv)+
  then show ?thesis using m h by (auto simp: looks_def intro: advances_catch)
qed

lemma looks_cases [looks_rules]:
  "(b \<Longrightarrow> looks m) \<Longrightarrow> (\<not> b \<Longrightarrow> looks n) \<Longrightarrow> looks (if b then m else n)"
  "(v = None \<Longrightarrow> looks m) \<Longrightarrow> (\<And>x. v = Some x \<Longrightarrow> looks (f x)) \<Longrightarrow> looks (case v of None \<Rightarrow> m | Some x \<Rightarrow> f x)"
  "(\<And>x y. z = (x, y) \<Longrightarrow> looks (g x y)) \<Longrightarrow> looks (case z of (x, y) \<Rightarrow> g x y)"
  by (cases b; cases v; cases z; simp)+

lemma looks_for_map [looks_rules]: "(\<And>x. looks (f x)) \<Longrightarrow> looks (for_map xs f)"
  by (induction xs) (auto intro!: looks_rules)

lemma looks_ask_bot [looks_rules]: "looks (ask_bot rq)"
  unfolding ask_bot_def by (intro looks_rules)

lemma looks_permissions [looks_rules]: "looks (can_manage_chat fresh u c)" "looks (can_manage_alias fresh u i)"
  by (simp_all add: looks_def harmless_manage_chat harmless_authorization advances_authorization)

lemma looks_locale [looks_rules]: "looks (ctx_locale cx)"
  unfolding ctx_locale_def resolve_locale_def find_user_by_id_def Let_def by (intro looks_rules)

lemma looks_prompts [looks_rules]: "looks (get_prompt u)" "looks (set_prompt u p)" "looks (clear_prompt u)"
  by (simp_all add: looks_def prompt_rules)

lemma looks_menus [looks_rules]:
  "looks (edit_chat_selection_menu cx)" "looks (send_chat_selection_menu cx)" "looks (edit_chat_management_menu cx c)"
  "looks (edit_alias_list_menu cx c)" "looks (edit_alias_detail_menu cx i)" "looks (send_alias_detail_menu cx i)"
  "looks (edit_alias_delete_confirm_menu cx i)" "looks (send_allow_rules_menu cx i)" "looks (edit_allow_rules_menu cx i)"
  unfolding edit_chat_selection_menu_def send_chat_selection_menu_def chat_selection_menu_def build_plan_footer_def
    edit_chat_management_menu_def edit_alias_list_menu_def filter_visible_aliases_def edit_alias_detail_menu_def
    send_alias_detail_menu_def alias_detail_menu_def edit_alias_delete_confirm_menu_def send_allow_rules_menu_def
    edit_allow_rules_menu_def get_accessible_chats_def find_user_by_id_def get_effective_plan_def Let_def
  by (intro looks_rules)+

end
