(* ===== verification/Taps.thy ===== *)
theory Taps
  imports Menus AllowButton
begin

text \<open>
  The buttons of the bot: the guards of \<open>src/telegram/middleware/authorization.ts\<close>, the callback handlers of
  \<open>createBot\<close> (\<open>src/telegram/bot.ts\<close>) and the buttons of a bounce notice (\<open>src/activation/allowButton.ts\<close>).  The
  handlers of \<open>moveMenu.ts\<close>, \<open>orphanMenu.ts\<close> and \<open>newemail.ts\<close> come from the theories of these files, where a reply
  is the value returned.  The handlers stand behind \<open>authMiddleware\<close>, on which no lemma rests.  Not here: the buttons of \<open>/language\<close>, \<open>/upgrade\<close>, \<open>/portal\<close> and \<open>/delete_me\<close>.
\<close>

section \<open>Guards\<close>

definition denied :: "bool \<Rightarrow> bool io" where
  "denied allowed = bind (if allowed then ret () else answer_callback (Some ''Access denied'')) (\<lambda>_. ret allowed)"

definition assert_chat_access :: "update_ctx \<Rightarrow> bigint \<Rightarrow> bool \<Rightarrow> bool io" where
  "assert_chat_access cx chatId fresh =
     (case cx_from cx of
        None \<Rightarrow> denied False
      | Some userId \<Rightarrow> bind (can_manage_chat fresh userId chatId) denied)"

definition assert_alias_access :: "update_ctx \<Rightarrow> uuid \<Rightarrow> bool \<Rightarrow> bool io" where
  "assert_alias_access cx aliasId fresh =
     (case cx_from cx of
        None \<Rightarrow> denied False
      | Some userId \<Rightarrow> bind (can_manage_alias fresh userId aliasId) denied)"

definition inactive :: "bool \<Rightarrow> bool io" where
  "inactive active = bind (if active then ret () else answer_callback (Some ''Hosted account inactive'')) (\<lambda>_. ret active)"

definition assert_hosted_chat_ready :: "update_ctx \<Rightarrow> bool io" where
  "assert_hosted_chat_ready cx =
     (if or_else (cx_from cx) 0 = 0 then inactive False else bind (has_active_hosted_user (cx_from cx)) inactive)"

definition assert_hosted_alias_ready :: "uuid \<Rightarrow> bool io" where
  "assert_hosted_alias_ready aliasId =
     bind (db_read (find_alias_by_id aliasId)) (\<lambda>found.
       case found of None \<Rightarrow> ret True | Some a \<Rightarrow> bind (has_active_hosted_user (Some (al_createdBy a))) inactive)"

definition assert_move_access :: "update_ctx \<Rightarrow> uuid \<Rightarrow> bool io" where
  "assert_move_access cx aliasId =
     bind (case cx_from cx of None \<Rightarrow> ret None | Some userId \<Rightarrow> resolve_move_authz_path False userId aliasId) (\<lambda>path.
     denied (path \<noteq> None))"

text \<open>\<open>if (!(await guard)) return;\<close>\<close>

definition only_if :: "bool io \<Rightarrow> unit io \<Rightarrow> unit io" where
  "only_if guard body = bind guard (\<lambda>ok. if \<not> ok then ret () else body)"

section \<open>Chats and new aliases\<close>

definition chat_selection_tap :: "update_ctx \<Rightarrow> unit io" where
  "chat_selection_tap cx = bind (answer_callback None) (\<lambda>_. edit_chat_selection_menu cx)"

definition chat_menu_tap :: "update_ctx \<Rightarrow> bigint \<Rightarrow> unit io" where
  "chat_menu_tap cx chatId = only_if (assert_chat_access cx chatId False)
     (bind (answer_callback None) (\<lambda>_.
      bind (db_read (find_chat_by_id chatId)) (\<lambda>chat.
        case chat of
          None \<Rightarrow> bind (ctx_locale cx) (\<lambda>_. answer_callback (Some ''common.chatNotFoundShort''))
        | Some c \<Rightarrow> edit_chat_management_menu cx chatId)))"

definition alias_list_tap :: "update_ctx \<Rightarrow> bigint \<Rightarrow> unit io" where
  "alias_list_tap cx chatId = only_if (assert_chat_access cx chatId False)
     (bind (answer_callback None) (\<lambda>_.
      bind (db_read (find_chat_by_id chatId)) (\<lambda>chat.
      edit_alias_list_menu cx chatId)))"

definition prompt_buttons :: "bigint \<Rightarrow> string list" where
  "prompt_buttons chatId = [build_callback skip_alias_cb [int_string chatId], new_cancel_data]"

definition new_email_tap :: "update_ctx \<Rightarrow> bigint \<Rightarrow> unit io" where
  "new_email_tap cx chatId = only_if (assert_hosted_chat_ready cx) (only_if (assert_chat_access cx chatId True)
     (bind (answer_callback None) (\<lambda>_.
        case cx_from cx of
          None \<Rightarrow> ret ()
        | Some userId \<Rightarrow>
            bind (db_read (find_chat_by_id chatId)) (\<lambda>chat.
            bind (ctx_locale cx) (\<lambda>_.
            bind (set_prompt userId (PendingNewEmail chatId (or_else (map_option ch_title chat) (''Chat '' @ int_string chatId)) None)) (\<lambda>_.
            ask_bot (EditText ''newemail.prompt'' (prompt_buttons chatId))))))))"

definition skip_alias_tap :: "update_ctx \<Rightarrow> bigint \<Rightarrow> unit io" where
  "skip_alias_tap cx chatId = bind (skip_alias_callback (cx_from cx) chatId) (\<lambda>_. ret ())"

definition clear_sender_prompt :: "update_ctx \<Rightarrow> unit io" where
  "clear_sender_prompt cx = (case cx_from cx of None \<Rightarrow> ret () | Some userId \<Rightarrow> clear_prompt userId)"

definition new_cancel_tap :: "update_ctx \<Rightarrow> unit io" where
  "new_cancel_tap cx =
     bind (ctx_locale cx) (\<lambda>_.
     bind (answer_callback (Some ''newemail.cancelledToast'')) (\<lambda>_.
     bind (clear_sender_prompt cx) (\<lambda>_.
     edit_chat_selection_menu cx)))"

section \<open>One alias\<close>

definition alias_detail_tap :: "update_ctx \<Rightarrow> uuid \<Rightarrow> unit io" where
  "alias_detail_tap cx aliasId =
     (case cx_from cx of
        None \<Rightarrow> ret ()
      | Some userId \<Rightarrow>
          bind (can_manage_alias False userId aliasId) (\<lambda>allowed.
            if allowed then bind (answer_callback None) (\<lambda>_. edit_alias_detail_menu cx aliasId)
            else bind (edit_orphan_menu (Some userId) aliasId) (\<lambda>_. ret ())))"

definition status_tap :: "alias_status \<Rightarrow> string \<Rightarrow> update_ctx \<Rightarrow> uuid \<Rightarrow> unit io" where
  "status_tap st toast cx aliasId = only_if (assert_alias_access cx aliasId True)
     (bind (ctx_locale cx) (\<lambda>_.
      bind (answer_callback (Some toast)) (\<lambda>_.
      bind (update_alias_status aliasId st) (\<lambda>_.
      edit_alias_detail_menu cx aliasId))))"

definition pause_tap :: "update_ctx \<Rightarrow> uuid \<Rightarrow> unit io" where
  "pause_tap = status_tap Paused ''aliasActions.pausedToast''"

definition resume_tap :: "update_ctx \<Rightarrow> uuid \<Rightarrow> unit io" where
  "resume_tap = status_tap Active ''aliasActions.resumedToast''"

definition delete_tap :: "update_ctx \<Rightarrow> uuid \<Rightarrow> unit io" where
  "delete_tap cx aliasId = only_if (assert_alias_access cx aliasId False)
     (bind (answer_callback None) (\<lambda>_. edit_alias_delete_confirm_menu cx aliasId))"

definition delete_cancel_tap :: "update_ctx \<Rightarrow> uuid \<Rightarrow> unit io" where
  "delete_cancel_tap cx aliasId = only_if (assert_alias_access cx aliasId False)
     (bind (ctx_locale cx) (\<lambda>_.
      bind (answer_callback (Some ''aliasActions.keptToast'')) (\<lambda>_.
      edit_alias_detail_menu cx aliasId)))"

definition routing_changed :: "unit io" where
  "routing_changed = bind (answer_callback None) (\<lambda>_. ask_bot (ReplyText ''aliasActions.routingChanged'' []))"

definition delete_confirm_tap :: "update_ctx \<Rightarrow> uuid \<Rightarrow> int \<Rightarrow> unit io" where
  "delete_confirm_tap cx aliasId version = only_if (assert_alias_access cx aliasId True)
     (bind (ctx_locale cx) (\<lambda>_.
      bind (db_read (find_alias_by_id aliasId)) (\<lambda>found.
        case found of
          None \<Rightarrow> answer_callback (Some ''common.aliasNotFoundShort'')
        | Some a \<Rightarrow>
            bind (soft_delete_alias_with_cas aliasId version) (\<lambda>deletion.
              if deletion = None then routing_changed
              else bind (answer_callback (Some ''aliasActions.deletedToast'')) (\<lambda>_.
                bind (db_read (find_chat_by_id (al_chatId a))) (\<lambda>_.
                edit_alias_list_menu cx (al_chatId a)))))))"

definition move_tap :: "update_ctx \<Rightarrow> uuid \<Rightarrow> unit io" where
  "move_tap cx aliasId = only_if (assert_move_access cx aliasId)
     (bind (answer_callback None) (\<lambda>_.
      bind (edit_move_picker_menu (cx_from cx) (cx_language cx) (Some (cx_chat cx)) aliasId) (\<lambda>_. ret ())))"

definition edit_move_confirm_menu :: "update_ctx \<Rightarrow> uuid \<Rightarrow> bigint \<Rightarrow> int \<Rightarrow> unit io" where
  "edit_move_confirm_menu cx aliasId targetChatId expectedVersion =
     bind (ctx_locale cx) (\<lambda>_.
     bind (db_read (find_alias_by_id aliasId)) (\<lambda>found.
       case found of
         None \<Rightarrow> answer_callback (Some ''common.aliasNotFoundShort'')
       | Some a \<Rightarrow>
           bind (db_read (find_chat_by_id targetChatId)) (\<lambda>_.
           ask_bot (EditText ''aliasMenu.moveConfirmHeader''
             [build_callback alias_move_confirm_cb [al_id a, int_string targetChatId, int_string expectedVersion],
              build_callback alias_detail_cb [al_id a]]))))"

definition move_target_tap :: "update_ctx \<Rightarrow> uuid \<Rightarrow> bigint \<Rightarrow> int \<Rightarrow> unit io" where
  "move_target_tap cx aliasId chatId version = only_if (assert_move_access cx aliasId)
     (bind (answer_callback None) (\<lambda>_. edit_move_confirm_menu cx aliasId chatId version))"

definition move_confirm_tap :: "update_ctx \<Rightarrow> uuid \<Rightarrow> bigint \<Rightarrow> int \<Rightarrow> unit io" where
  "move_confirm_tap cx aliasId chatId version = only_if (assert_move_access cx aliasId)
     (bind (answer_callback None) (\<lambda>_.
      bind (execute_alias_move (cx_from cx) (Some (cx_chat cx)) aliasId chatId version) (\<lambda>_. ret ())))"

definition orphan_tap :: "update_ctx \<Rightarrow> uuid \<Rightarrow> unit io" where
  "orphan_tap cx aliasId = bind (edit_orphan_menu (cx_from cx) aliasId) (\<lambda>_. ret ())"

definition orphan_delete_tap :: "update_ctx \<Rightarrow> uuid \<Rightarrow> int \<Rightarrow> unit io" where
  "orphan_delete_tap cx aliasId version =
     bind (answer_callback None) (\<lambda>_. bind (execute_orphan_delete (cx_from cx) aliasId version) (\<lambda>_. ret ()))"

definition topic_tap :: "update_ctx \<Rightarrow> bigint option \<Rightarrow> uuid \<Rightarrow> int \<Rightarrow> unit io" where
  "topic_tap cx threadId aliasId version = only_if (assert_alias_access cx aliasId True)
     (bind (ctx_locale cx) (\<lambda>_.
      bind (set_alias_topic_with_cas aliasId version threadId) (\<lambda>updated.
        if updated = None then routing_changed
        else bind (answer_callback (Some (if threadId = None then ''aliasMenu.topicCleared'' else ''aliasMenu.topicSet''))) (\<lambda>_.
          edit_alias_detail_menu cx aliasId))))"

definition menu_close_tap :: "update_ctx \<Rightarrow> string \<Rightarrow> unit io" where
  "menu_close_tap cx openerId =
     (if cx_from cx \<noteq> None \<and> int_string (the (cx_from cx)) \<noteq> openerId then answer_callback None
      else bind (answer_callback None) (\<lambda>_.
        catch (ask_bot DeleteMenu) (\<lambda>_. catch (ask_bot (EditKeyboard [])) (\<lambda>_. ret ()))))"

section \<open>Settings\<close>

definition show_settings :: "update_ctx \<Rightarrow> uuid \<Rightarrow> unit io" where
  "show_settings cx aliasId =
     bind (db_read (find_alias_by_id aliasId)) (\<lambda>found.
       case found of
         None \<Rightarrow> ret ()
       | Some a \<Rightarrow> bind (ctx_locale cx) (\<lambda>_. ask_bot (EditText ''settingsCommand.header'' (alias_settings_buttons True a))))"

definition settings_tap :: "update_ctx \<Rightarrow> uuid \<Rightarrow> unit io" where
  "settings_tap cx aliasId = only_if (assert_alias_access cx aliasId False)
     (bind (answer_callback None) (\<lambda>_. show_settings cx aliasId))"

definition set_mode_tap :: "update_ctx \<Rightarrow> uuid \<Rightarrow> string \<Rightarrow> unit io" where
  "set_mode_tap cx aliasId mode = only_if (assert_alias_access cx aliasId True)
     (bind (ctx_locale cx) (\<lambda>_.
        if mode \<notin> {''plaintext'', ''html''} then answer_callback (Some ''settingsCommand.invalidModeToast'')
        else bind (update_alias_render_mode aliasId mode) (\<lambda>_.
          bind (answer_callback (Some ''settingsCommand.modeSetToast'')) (\<lambda>_. show_settings cx aliasId))))"

definition toggle_tap :: "(alias_row \<Rightarrow> unit io) \<Rightarrow> string \<Rightarrow> update_ctx \<Rightarrow> uuid \<Rightarrow> unit io" where
  "toggle_tap toggle toast cx aliasId = only_if (assert_alias_access cx aliasId True)
     (bind (ctx_locale cx) (\<lambda>_.
      bind (db_read (find_alias_by_id aliasId)) (\<lambda>found.
        case found of
          None \<Rightarrow> answer_callback (Some ''common.aliasNotFoundShort'')
        | Some a \<Rightarrow> bind (toggle a) (\<lambda>_. bind (answer_callback (Some toast)) (\<lambda>_. show_settings cx aliasId)))))"

definition toggle_body_dedup_tap :: "update_ctx \<Rightarrow> uuid \<Rightarrow> unit io" where
  "toggle_body_dedup_tap cx aliasId =
     toggle_tap (\<lambda>a. update_alias_body_dedup aliasId (\<not> al_bodyDedupEnabled a)) ''settingsCommand.bodyDedupToast'' cx aliasId"

definition toggle_privacy_mode_tap :: "update_ctx \<Rightarrow> uuid \<Rightarrow> unit io" where
  "toggle_privacy_mode_tap cx aliasId =
     toggle_tap (\<lambda>a. update_alias_privacy_mode aliasId (\<not> al_privacyModeEnabled a)) ''settingsCommand.privacyToast'' cx aliasId"

definition label_edit_tap :: "update_ctx \<Rightarrow> uuid \<Rightarrow> unit io" where
  "label_edit_tap cx aliasId = only_if (assert_alias_access cx aliasId True)
     (bind (answer_callback None) (\<lambda>_.
        case cx_from cx of
          None \<Rightarrow> ret ()
        | Some userId \<Rightarrow>
            bind (db_read (find_alias_by_id aliasId)) (\<lambda>found.
              case found of
                None \<Rightarrow> ret ()
              | Some a \<Rightarrow>
                  bind (set_prompt userId (PendingAliasLabel aliasId (Some (cx_chat cx)) (Some (cx_messageId cx)))) (\<lambda>_.
                  bind (ctx_locale cx) (\<lambda>_.
                  ask_bot (EditText ''label.prompt'' [build_callback alias_label_cancel_cb [aliasId]]))))))"

definition label_clear_tap :: "update_ctx \<Rightarrow> uuid \<Rightarrow> unit io" where
  "label_clear_tap cx aliasId = only_if (assert_alias_access cx aliasId True)
     (bind (ctx_locale cx) (\<lambda>_.
      bind (update_alias_label aliasId None) (\<lambda>_.
      bind (answer_callback (Some ''label.clearedToast'')) (\<lambda>_.
      edit_alias_detail_menu cx aliasId))))"

definition label_cancel_tap :: "update_ctx \<Rightarrow> uuid \<Rightarrow> unit io" where
  "label_cancel_tap cx aliasId = only_if (assert_alias_access cx aliasId False)
     (bind (clear_sender_prompt cx) (\<lambda>_.
      bind (ctx_locale cx) (\<lambda>_.
      bind (answer_callback (Some ''label.cancelledToast'')) (\<lambda>_.
      edit_alias_detail_menu cx aliasId))))"

section \<open>Allow rules\<close>

definition allow_rules_tap :: "update_ctx \<Rightarrow> uuid \<Rightarrow> unit io" where
  "allow_rules_tap cx aliasId = only_if (assert_alias_access cx aliasId False)
     (bind (answer_callback None) (\<lambda>_. edit_allow_rules_menu cx aliasId))"

text \<open>The answer goes out before the check.\<close>

definition delete_rule_tap :: "update_ctx \<Rightarrow> uuid \<Rightarrow> unit io" where
  "delete_rule_tap cx ruleId =
     bind (ctx_locale cx) (\<lambda>_.
     bind (db_read (find_allow_rule_by_id ruleId)) (\<lambda>found.
       case found of
         None \<Rightarrow> answer_callback (Some ''common.ruleNotFoundShort'')
       | Some rule \<Rightarrow>
           bind (answer_callback (Some ''allowCommand.removedToast'')) (\<lambda>_.
           only_if (assert_alias_access cx (ar_emailAddressId rule) True)
             (bind (remove_allow_rule (ar_emailAddressId rule) (ar_matchValue rule)) (\<lambda>_.
              edit_allow_rules_menu cx (ar_emailAddressId rule))))))"

definition add_rule_tap :: "update_ctx \<Rightarrow> uuid \<Rightarrow> unit io" where
  "add_rule_tap cx aliasId = only_if (assert_hosted_alias_ready aliasId) (only_if (assert_alias_access cx aliasId True)
     (bind (answer_callback None) (\<lambda>_.
        case cx_from cx of
          None \<Rightarrow> ret ()
        | Some userId \<Rightarrow>
            bind (db_read (find_alias_by_id aliasId)) (\<lambda>found.
              case found of
                None \<Rightarrow> ret ()
              | Some a \<Rightarrow>
                  bind (set_prompt userId (PendingAllowRule (al_id a) (al_localPart a))) (\<lambda>_.
                  bind (ctx_locale cx) (\<lambda>_.
                  ask_bot (EditText ''allowCommand.addRulePrompt''
                    (quick_allow_buttons True (al_id a) @ [build_callback cancel_add_rule_cb [al_id a]]))))))))"

definition cancel_add_rule_tap :: "update_ctx \<Rightarrow> uuid \<Rightarrow> unit io" where
  "cancel_add_rule_tap cx aliasId = only_if (assert_alias_access cx aliasId False)
     (bind (ctx_locale cx) (\<lambda>_.
      bind (answer_callback (Some ''aliasActions.cancelledToast'')) (\<lambda>_.
      bind (clear_sender_prompt cx) (\<lambda>_.
      edit_allow_rules_menu cx aliasId))))"

text \<open>\<open>addAllowRuleForAlias\<close> with its replies; true unless nothing was added.\<close>

definition limit_reply :: "limit_result \<Rightarrow> bot_request" where
  "limit_reply limit =
     (case limit of
        LimitHit SubscriptionInactive n used \<Rightarrow> ReplyText ''allowCommand.subscriptionInactive'' []
      | LimitHit AllowRuleLimit n used \<Rightarrow> ReplyText ''allowCommand.limitReached'' [billing_upgrade_data]
      | _ \<Rightarrow> ReplyText ''allowCommand.createUnavailable'' [])"

definition add_rule_and_reply :: "update_ctx \<Rightarrow> alias_row \<Rightarrow> string \<Rightarrow> bool io" where
  "add_rule_and_reply cx a v =
     bind (ctx_locale cx) (\<lambda>_.
     bind (add_allow_rule_for_alias a v) (\<lambda>outcome.
       case outcome of
         None \<Rightarrow> bind (ask_bot (ReplyText ''allowCommand.invalidFormat'' [])) (\<lambda>_. ret False)
       | Some (RuleLimit limit) \<Rightarrow>
           bind (if limit = LimitOk then ret () else bind (ctx_locale cx) (\<lambda>_. ask_bot (limit_reply limit))) (\<lambda>_. ret False)
       | Some RuleDuplicate \<Rightarrow> bind (ask_bot (ReplyText ''allowCommand.alreadyExists'' [])) (\<lambda>_. ret True)
       | Some _ \<Rightarrow> bind (ask_bot (ReplyText ''allowCommand.added'' [])) (\<lambda>_. ret True)))"

definition quick_allow_tap :: "(update_ctx \<Rightarrow> uuid \<Rightarrow> unit io) \<Rightarrow> update_ctx \<Rightarrow> uuid \<Rightarrow> string \<Rightarrow> unit io" where
  "quick_allow_tap show_after cx aliasId dmn = only_if (assert_hosted_alias_ready aliasId) (only_if (assert_alias_access cx aliasId True)
     (bind (ctx_locale cx) (\<lambda>_.
      bind (db_read (find_alias_by_id aliasId)) (\<lambda>found.
        case found of
          None \<Rightarrow> answer_callback (Some ''common.aliasNotFoundShort'')
        | Some a \<Rightarrow>
            bind (answer_callback (Some ''allowCommand.addingToast'')) (\<lambda>_.
            bind (add_rule_and_reply cx a dmn) (\<lambda>added.
              if added then catch (show_after cx aliasId) (\<lambda>_. ret ()) else ret ()))))))"

section \<open>The buttons of a bounce notice\<close>

definition quietly :: "unit io \<Rightarrow> unit io" where
  "quietly m = catch m (\<lambda>_. ret ())"

definition activation_reply :: "update_ctx \<Rightarrow> uuid \<Rightarrow> allow_outcome \<Rightarrow> unit io" where
  "activation_reply cx aliasId outcome =
     (let menu = (\<lambda>key. bind (ask_bot (ReplyText key [])) (\<lambda>_. send_allow_rules_menu cx aliasId)) in
      case outcome of
        AllowExpired \<Rightarrow> menu ''activationNotice.expired''
      | AllowAdded a dmn \<Rightarrow> ask_bot (ReplyText ''activationNotice.added'' [])
      | AllowDuplicate a dmn \<Rightarrow> ask_bot (ReplyText ''activationNotice.alreadyAllowed'' [])
      | AllowLimited a dmn n \<Rightarrow> menu (if n = None then ''activationNotice.addFailed'' else ''activationNotice.ruleLimit'')
      | AllowFailed a dmn \<Rightarrow> menu ''activationNotice.addFailed'')"

definition activation_allow_tap :: "update_ctx \<Rightarrow> uuid \<Rightarrow> string \<Rightarrow> unit io" where
  "activation_allow_tap cx aliasId token =
     bind (ctx_locale cx) (\<lambda>_.
     bind (catch (assert_alias_access cx aliasId True) (\<lambda>_. ret False)) (\<lambda>allowed.
     bind (at_tick auth_in_time) (\<lambda>in_time.
       if \<not> in_time then quietly (answer_callback (Some ''common.accessDenied''))
       else if \<not> allowed then ret ()
       else bind (try_io (apply_activation_allow aliasId token)) (\<lambda>result.
         case result of
           Inl _ \<Rightarrow> quietly (answer_callback (Some ''activationNotice.tryAgainToast''))
         | Inr outcome \<Rightarrow>
             bind (quietly (answer_callback None)) (\<lambda>_.
             bind (quietly (ask_bot (EditKeyboard [build_callback activation_rules_cb [aliasId]]))) (\<lambda>_.
             activation_reply cx aliasId outcome))))))"

definition activation_rules_tap :: "update_ctx \<Rightarrow> uuid \<Rightarrow> unit io" where
  "activation_rules_tap cx aliasId = only_if (assert_alias_access cx aliasId False)
     (bind (answer_callback None) (\<lambda>_. send_allow_rules_menu cx aliasId))"

section \<open>Routing a tap\<close>

text \<open>\<open>BigInt(s)\<close> and \<open>Number(s)\<close> of what a pattern matched.\<close>

definition signed_value :: "string \<Rightarrow> int" where
  "signed_value s = (case s of [] \<Rightarrow> 0 | c # ds \<Rightarrow> if c = CHR ''-'' then - int (digits_value ds) else int (digits_value s))"

definition tap_handlers :: "update_ctx \<Rightarrow> (callback \<times> (string list \<Rightarrow> unit io)) list" where
  "tap_handlers cx =
     [(chat_menu_cb, \<lambda>m. chat_menu_tap cx (signed_value (m ! 0))),
      (alias_list_cb, \<lambda>m. alias_list_tap cx (signed_value (m ! 0))),
      (new_email_cb, \<lambda>m. new_email_tap cx (signed_value (m ! 0))),
      (skip_alias_cb, \<lambda>m. skip_alias_tap cx (signed_value (m ! 0))),
      (alias_detail_cb, \<lambda>m. alias_detail_tap cx (m ! 0)),
      (alias_pause_cb, \<lambda>m. pause_tap cx (m ! 0)),
      (alias_resume_cb, \<lambda>m. resume_tap cx (m ! 0)),
      (alias_delete_cb, \<lambda>m. delete_tap cx (m ! 0)),
      (alias_delete_cancel_cb, \<lambda>m. delete_cancel_tap cx (m ! 0)),
      (alias_delete_confirm_cb, \<lambda>m. delete_confirm_tap cx (m ! 0) (signed_value (m ! 1))),
      (alias_move_cb, \<lambda>m. move_tap cx (m ! 0)),
      (alias_move_target_cb, \<lambda>m. move_target_tap cx (m ! 0) (signed_value (m ! 1)) (signed_value (m ! 2))),
      (alias_move_confirm_cb, \<lambda>m. move_confirm_tap cx (m ! 0) (signed_value (m ! 1)) (signed_value (m ! 2))),
      (alias_orphan_cb, \<lambda>m. orphan_tap cx (m ! 0)),
      (alias_orphan_delete_cb, \<lambda>m. orphan_delete_tap cx (m ! 0) (signed_value (m ! 1))),
      (alias_set_topic_cb, \<lambda>m. topic_tap cx (cx_thread cx) (m ! 0) (signed_value (m ! 1))),
      (alias_clear_topic_cb, \<lambda>m. topic_tap cx None (m ! 0) (signed_value (m ! 1))),
      (menu_close_cb, \<lambda>m. menu_close_tap cx (m ! 0)),
      (alias_settings_cb, \<lambda>m. settings_tap cx (m ! 0)),
      (set_mode_cb, \<lambda>m. set_mode_tap cx (m ! 0) (m ! 1)),
      (toggle_body_dedup_cb, \<lambda>m. toggle_body_dedup_tap cx (m ! 0)),
      (toggle_privacy_mode_cb, \<lambda>m. toggle_privacy_mode_tap cx (m ! 0)),
      (allow_rules_cb, \<lambda>m. allow_rules_tap cx (m ! 0)),
      (delete_rule_cb, \<lambda>m. delete_rule_tap cx (m ! 0)),
      (add_rule_cb, \<lambda>m. add_rule_tap cx (m ! 0)),
      (cancel_add_rule_cb, \<lambda>m. cancel_add_rule_tap cx (m ! 0)),
      (quick_allow_cb, \<lambda>m. quick_allow_tap edit_alias_detail_menu cx (m ! 0) (m ! 1)),
      (quick_allow_rules_cb, \<lambda>m. quick_allow_tap edit_allow_rules_menu cx (m ! 0) (m ! 1)),
      (activation_allow_cb, \<lambda>m. activation_allow_tap cx (m ! 0) (m ! 1)),
      (activation_rules_cb, \<lambda>m. activation_rules_tap cx (m ! 0)),
      (alias_label_edit_cb, \<lambda>m. label_edit_tap cx (m ! 0)),
      (alias_label_clear_cb, \<lambda>m. label_clear_tap cx (m ! 0)),
      (alias_label_cancel_cb, \<lambda>m. label_cancel_tap cx (m ! 0))]"

fun route_tap :: "(callback \<times> (string list \<Rightarrow> unit io)) list \<Rightarrow> string \<Rightarrow> unit io" where
  "route_tap [] tapped = ret ()"
| "route_tap ((cb, handler) # rest) tapped =
     (case match_callback cb tapped of Some m \<Rightarrow> handler m | None \<Rightarrow> route_tap rest tapped)"

definition handle_tap :: "update_ctx \<Rightarrow> string \<Rightarrow> unit io" where
  "handle_tap cx tapped =
     (if tapped = chat_selection_data then chat_selection_tap cx
      else if tapped = new_cancel_data then new_cancel_tap cx
      else route_tap (tap_handlers cx) tapped)"

section \<open>What a tap may do\<close>

text \<open>Everything but the rows of one alias.\<close>

definition others :: "uuid \<Rightarrow> db \<Rightarrow> db" where
  "others i d = d\<lparr> aliases := delete_where (\<lambda>a. al_id a = i) (aliases d),
     allowRules := delete_where (\<lambda>r. ar_emailAddressId r = i) (allowRules d),
     aliasActivation := delete_where (\<lambda>v. av_aliasId v = i) (aliasActivation d) \<rparr>"

text \<open>The user administers the chat of the alias by an answer of Telegram given between the two worlds, or it is his own
  chat with the bot.\<close>

definition manages :: "env \<Rightarrow> world \<Rightarrow> world \<Rightarrow> bigint \<Rightarrow> uuid \<Rightarrow> bool" where
  "manages e w w' userId i \<longleftrightarrow>
     (\<exists>a. find_alias_by_id i (w_db w) = Some a \<and> al_status a \<noteq> Deleted \<and>
        (al_chatId a = userId \<or> during w w' (is_admin_at e (al_chatId a) userId)))"

definition created_alias :: "env \<Rightarrow> world \<Rightarrow> world \<Rightarrow> bigint \<Rightarrow> bool" where
  "created_alias e w w' userId \<longleftrightarrow>
     (\<exists>name c th a. creation_allowed e w w' userId name c th a \<and> (c = userId \<or> during w w' (is_admin_at e c userId)))"

definition repaired_chats :: "db \<Rightarrow> db \<Rightarrow> bool" where
  "repaired_chats = rtranclp untouched_or_repaired"

definition permitted :: "env \<Rightarrow> world \<Rightarrow> world \<Rightarrow> bigint \<Rightarrow> bigint \<Rightarrow> bool" where
  "permitted e w w' userId chatId \<longleftrightarrow>
     repaired_chats (w_db w) (w_db w') \<or>
     (\<exists>i. manages e w w' userId i \<and> others i (w_db w') = others i (w_db w)) \<or>
     (\<exists>i v. orphan_deleted e w w' userId i v) \<or>
     (\<exists>i c v. permitted_move e w w' userId (Some chatId) i c v) \<or>
     created_alias e w w' userId"

definition lawful :: "bigint \<Rightarrow> bigint \<Rightarrow> 'a io \<Rightarrow> bool" where
  "lawful userId chatId m \<longleftrightarrow>
     (\<forall>e w r w'. m e w = (r, w') \<longrightarrow> w_tx w = NoTx \<longrightarrow> \<not> is_local_part_conflict e DbRefused \<longrightarrow> permitted e w w' userId chatId)"

named_theorems lawful_rules \<open>handlers that respect the permissions\<close>

lemma lawfulI:
  "(\<And>e w r w'. m e w = (r, w') \<Longrightarrow> w_tx w = NoTx \<Longrightarrow> \<not> is_local_part_conflict e DbRefused \<Longrightarrow> permitted e w w' u c) \<Longrightarrow> lawful u c m"
  by (simp add: lawful_def)

lemma lawfulD:
  "lawful u c m \<Longrightarrow> m e w = (r, w') \<Longrightarrow> w_tx w = NoTx \<Longrightarrow> \<not> is_local_part_conflict e DbRefused \<Longrightarrow> permitted e w w' u c"
  by (simp add: lawful_def)

lemma repaired_same: "repaired_chats d d" and repaired_once: "untouched_or_repaired d d' \<Longrightarrow> repaired_chats d d'"
  by (simp_all add: repaired_chats_def)

lemma permitted_unchanged: "w_db w' = w_db w \<Longrightarrow> permitted e w w' u c"
  by (simp add: permitted_def repaired_same)

text \<open>Looking before and after does not matter.\<close>

lemma permitted_wider:
  assumes "permitted e v v' u c" and "w_db v = w_db w" and "w_db w' = w_db v'" and "w_tick w \<le> w_tick v" and "w_tick v' \<le> w_tick w'"
  shows "permitted e w w' u c"
proof -
  have d: "during w w' P" if "during v v' P" for P using that assms(4,5) by (rule during_mono)
  have m: "manages e v v' u i \<Longrightarrow> manages e w w' u i" for i using d assms(2) unfolding manages_def by auto
  have o: "orphan_deleted e v v' u i k \<Longrightarrow> orphan_deleted e w w' u i k" for i k using d assms(2,3) unfolding orphan_deleted_def by auto
  have p: "permitted_move e v v' u ch i t k \<Longrightarrow> permitted_move e w w' u ch i t k" for ch i t k
    using source_permission_mono [OF _ assms(4,5)] target_permission_mono [OF _ assms(4,5)] assms(2,3)
    unfolding permitted_move_def by metis
  have n: "creation_allowed e v v' u nm ch th a \<Longrightarrow> creation_allowed e w w' u nm ch th a" for nm ch th a
    using assms(2-4) unfolding creation_allowed_def by (auto intro: le_trans)
  show ?thesis using assms(1-3) m o p n d unfolding permitted_def created_alias_def by metis
qed

lemma looksD:
  assumes "looks m" and "m e w = (r, w')"
  shows "w_db w' = w_db w" "w_tx w = NoTx \<Longrightarrow> w_tx w' = NoTx" "w_tick w \<le> w_tick w'"
  using assms harmlessD [of m e w r w'] advancesD [of m e w r w'] by (auto simp: looks_def)

lemma lawful_looks: "looks m \<Longrightarrow> lawful u c m"
  by (rule lawfulI) (rule permitted_unchanged, erule looksD(1))

lemma lawful_after [lawful_rules]:
  assumes "looks p" and "\<And>a. lawful u c (f a)"
  shows "lawful u c (bind p f)"
proof (rule lawfulI)
  fix e w r w' assume run: "bind p f e w = (r, w')" and w: "w_tx w = NoTx" "\<not> is_local_part_conflict e DbRefused"
  obtain q v where q: "p e w = (q, v)" by fastforce
  note v = looksD [OF assms(1) q]
  show "permitted e w w' u c"
  proof (cases q)
    case (Inl x)
    with run q v show ?thesis by (simp add: bind_def permitted_unchanged)
  next
    case (Inr a)
    with run q have r: "f a e v = (r, w')" by (simp add: bind_def)
    show ?thesis by (rule permitted_wider [OF lawfulD [OF assms(2) r v(2) [OF w(1)] w(2)] v(1) refl v(3)]) simp
  qed
qed

lemma lawful_before [lawful_rules]:
  assumes "lawful u c m" and "\<And>a. looks (f a)"
  shows "lawful u c (bind m f)"
proof (rule lawfulI)
  fix e w r w' assume run: "bind m f e w = (r, w')" and w: "w_tx w = NoTx" "\<not> is_local_part_conflict e DbRefused"
  obtain q v where q: "m e w = (q, v)" by fastforce
  note p = lawfulD [OF assms(1) q w]
  show "permitted e w w' u c"
  proof (cases q)
    case (Inl x)
    with run q p show ?thesis by (simp add: bind_def)
  next
    case (Inr a)
    with run q have r: "f a e v = (r, w')" by (simp add: bind_def)
    show ?thesis by (rule permitted_wider [OF p refl]) (simp_all add: looksD [OF assms(2) r])
  qed
qed

lemma lawful_cases [lawful_rules]:
  "(b \<Longrightarrow> lawful u c m) \<Longrightarrow> (\<not> b \<Longrightarrow> lawful u c n) \<Longrightarrow> lawful u c (if b then m else n)"
  "(v = None \<Longrightarrow> lawful u c m) \<Longrightarrow> (\<And>x. v = Some x \<Longrightarrow> lawful u c (f x)) \<Longrightarrow> lawful u c (case v of None \<Rightarrow> m | Some x \<Rightarrow> f x)"
  by (cases b; cases v; simp)+

lemma looks_uuid: "looks random_uuid"
  by (simp add: random_uuid_def looks_basic)

text \<open>Operations that stay inside one alias.\<close>

definition within :: "uuid \<Rightarrow> 'a io \<Rightarrow> bool" where
  "within i m \<longleftrightarrow> (\<forall>x. keeps (\<lambda>d. others i d = x) m) \<and> advances m"

named_theorems within_rules \<open>computations inside one alias\<close>

lemma within_looks [within_rules]: "looks m \<Longrightarrow> within i m"
  by (auto simp: within_def looks_def harmless_def keeps_def)

lemma within_bind [within_rules]: "within i m \<Longrightarrow> (\<And>a. within i (f a)) \<Longrightarrow> within i (bind m f)"
  by (auto simp: within_def intro: keeps_bind advances_bind)

lemma within_catch [within_rules]: "within i m \<Longrightarrow> (\<And>x. within i (h x)) \<Longrightarrow> within i (catch m h)"
  by (auto simp: within_def intro: keeps_catch advances_catch)

lemma within_cases [within_rules]:
  "(b \<Longrightarrow> within i m) \<Longrightarrow> (\<not> b \<Longrightarrow> within i n) \<Longrightarrow> within i (if b then m else n)"
  "(v = None \<Longrightarrow> within i m) \<Longrightarrow> (\<And>x. v = Some x \<Longrightarrow> within i (f x)) \<Longrightarrow> within i (case v of None \<Rightarrow> m | Some x \<Rightarrow> f x)"
  by (cases b; cases v; simp)+

lemma within_transaction [within_rules]: "within i m \<Longrightarrow> within i (transaction m)"
  by (auto simp: within_def intro: keeps_transaction advances_transaction)

lemma within_try [within_rules]: "within i m \<Longrightarrow> within i (try_io m)"
  by (simp add: within_def keeps_def advances_def try_io_def)

lemma within_find [within_rules]:
  assumes "\<And>found. (\<And>a. found = Some a \<Longrightarrow> al_id a = i) \<Longrightarrow> within i (f found)"
  shows "within i (bind (db_read (find_alias_by_id i)) f)"
proof -
  let ?g = "\<lambda>found. if \<exists>a. found = Some a \<and> al_id a \<noteq> i then ret undefined else f found"
  have eq: "bind (db_read (find_alias_by_id i)) f = bind (db_read (find_alias_by_id i)) ?g"
    by (intro ext) (auto simp: bind_def db_read_Inr find_alias_by_id_def dest: select_first_Some split: prod.split sum.split)
  have "within i (bind (db_read (find_alias_by_id i)) ?g)"
    by (intro within_bind within_cases within_looks [OF looks_basic(7)] within_looks [OF looks_basic(1)] assms) auto
  then show ?thesis by (subst eq)
qed

lemma within_write:
  assumes "\<And>d. others i (f d) = others i d"
  shows "within i (db_write f)"
  using assms by (auto simp: within_def intro!: keeps_db_write advances_rules)

lemma within_stmt:
  assumes "\<And>t d a d'. f t d = Inr (a, d') \<Longrightarrow> others i d' = others i d"
  shows "within i (db_stmt f)"
proof -
  have "keeps (\<lambda>d. others i d = x) (db_stmt f)" for x by (rule keeps_db_stmt) (simp add: assms)
  then show ?thesis by (simp add: within_def advances_rules)
qed

lemma delete_update_same: "(\<And>a. q a \<Longrightarrow> p a) \<Longrightarrow> (\<And>a. p (f a) = p a) \<Longrightarrow> delete_where p (update_where q f xs) = delete_where p xs"
  by (induction xs) (auto simp: update_where_def)

lemma others_set_alias: "(\<And>a. al_id (f a) = al_id a) \<Longrightarrow> others i (set_alias i f d) = others i d"
  by (simp add: others_def set_alias_def delete_update_same)

lemma others_cas: "(\<And>a. al_id (f a) = al_id a) \<Longrightarrow> others i (snd (cas_update i v f d)) = others i d"
proof -
  assume "\<And>a. al_id (f a) = al_id a"
  then have "delete_where (\<lambda>a. al_id a = i) (update_where (cas_condition i v) f (aliases d)) = delete_where (\<lambda>a. al_id a = i) (aliases d)"
    by (intro delete_update_same) (auto simp: cas_condition_def)
  then show ?thesis by (simp add: others_def cas_update_def)
qed

lemma within_cas: "(\<And>a. al_id (f a) = al_id a) \<Longrightarrow> within i (db_stmt (\<lambda>_ d. Inr (cas_update i v f d)))"
  using others_cas by (intro within_stmt) (metis Inr_inject snd_conv)

lemma within_alias_updates [within_rules]:
  "within i (update_alias_status i st)" "within i (update_alias_render_mode i md)" "within i (update_alias_body_dedup i b)"
  "within i (update_alias_privacy_mode i b)" "within i (update_alias_label i l)"
  unfolding update_alias_status_def update_alias_render_mode_def update_alias_body_dedup_def update_alias_privacy_mode_def
    update_alias_label_def
  by (intro within_bind within_looks looks_rules within_write others_set_alias; simp)+

lemma within_routing_updates [within_rules]: "within i (set_alias_topic_with_cas i v th)" "within i (soft_delete_alias_with_cas i v)"
  unfolding set_alias_topic_with_cas_def soft_delete_alias_with_cas_def
  by (intro within_bind within_looks looks_rules within_cas; simp add: topic_row_def tombstone_row_def Let_def)+

lemma delete_delete: "(\<And>r. q r \<Longrightarrow> p r) \<Longrightarrow> delete_where p (delete_where q xs) = delete_where p xs"
  by (induction xs) auto

lemma within_remove_rule [within_rules]: "within i (remove_allow_rule i v)"
proof -
  have "delete_where (\<lambda>r. ar_emailAddressId r = i) (delete_where (\<lambda>r. ar_emailAddressId r = i \<and> ar_matchValue r = v) rs) =
      delete_where (\<lambda>r. ar_emailAddressId r = i) rs" for rs :: "allow_rule_row list"
    by (rule delete_delete) simp
  then show ?thesis unfolding remove_allow_rule_def by (intro within_write) (simp add: others_def)
qed

lemma within_savepoint [within_rules]: "within i m \<Longrightarrow> within i (savepoint m)"
proof -
  assume m: "within i m"
  have "keeps I (savepoint m)" if k: "keeps I m" for I
    unfolding savepoint_def
  proof (rule keeps_bind [OF keeps_db_read], rule keepsI)
    fix e and w :: world assume I: "I (w_db w)"
    let ?M = "bind m (\<lambda>a. bind (db_read (\<lambda>_. ())) (\<lambda>_. ret a))"
    have "keeps I ?M" by (intro keeps_rules k)
    moreover obtain r v where r: "?M e w = (r, v)" by fastforce
    ultimately have "I (w_db v)" using I keepsD [of I ?M w e] by simp
    then show "I (w_db (snd (bind (peek w_db) (\<lambda>d. catch ?M (rollback_to_savepoint d)) e w)))"
      using I r by (simp add: bind_def [of "peek w_db"] peek_def catch_def rollback_to_savepoint_def Let_def split: sum.splits)
  qed
  then show ?thesis using m by (auto simp: within_def intro: advances_savepoint)
qed

lemma looks_limits [looks_rules]:
  "looks (has_active_hosted_user i)" "looks (check_allow_rule_create_limit i)"
  unfolding check_allow_rule_create_limit_def has_active_hosted_user_def find_user_by_id_def get_effective_plan_def
  by (intro looks_rules)+

lemma within_add_rule: "within i (add_allow_rule i ty v)"
  unfolding add_allow_rule_def Let_def
  by (intro within_bind within_looks [OF looks_uuid] within_stmt) (auto simp: others_def delete_where_def)

lemma within_insert_rule: "within i (insert_allow_rule i own rule expected)"
  unfolding insert_allow_rule_def insert_unless_duplicate_def insert_within_limit_def
  by (intro within_bind within_cases within_add_rule) (auto intro!: within_looks looks_rules)

lemma within_lock [within_rules]: "within i advisory_lock"
  by (simp add: within_def keeps_advisory_lock advances_rules)

lemma within_add_rule_for_alias: "within (al_id a) (add_allow_rule_for_alias a v)"
  unfolding add_allow_rule_for_alias_def with_user_quota_lock_def
  by (cases "parse_allow_value v")
    (auto intro!: within_bind within_cases within_transaction within_lock within_insert_rule intro: within_looks looks_rules)

lemma within_consume: "within i (db_stmt (\<lambda>t d. Inr (consume_activation_token i tok t d)))"
proof (rule within_stmt)
  fix t :: instant and d a d' assume h: "Inr (consume_activation_token i tok t d) = (Inr (a, d') :: exn + _)"
  have "delete_where (\<lambda>v. av_aliasId v = i) (update_where (live_token i tok t) (\<lambda>r. r\<lparr>av_token := None\<rparr>) (aliasActivation d)) =
      delete_where (\<lambda>v. av_aliasId v = i) (aliasActivation d)"
    by (rule delete_update_same) (auto simp: live_token_def is_activation_def)
  then show "others i d' = others i d" using h by (auto simp: consume_activation_token_def others_def update_activations_def)
qed

lemma within_claimed:
  assumes "\<And>a. current = Some a \<Longrightarrow> al_id a = i"
  shows "within i (case claimed_rule own current c of
      None \<Rightarrow> ret AllowExpired
    | Some (a, dmn, expected) \<Rightarrow>
        catch (bind (savepoint (insert_allow_rule (al_id a) own (DomainValue dmn) (Some expected))) (\<lambda>inserted. ret (allow_outcome_of a dmn inserted)))
          (\<lambda>_. ret (AllowFailed a dmn)))"
proof (cases "claimed_rule own current c")
  case None
  then show ?thesis by (auto intro: within_looks looks_rules)
next
  case (Some x)
  obtain a dmn expected where x: "x = (a, dmn, expected)" by (cases x)
  with Some assms have "al_id a = i" by (auto simp: claimed_rule_def split: option.splits if_splits)
  with Some x show ?thesis
    by (auto intro!: within_catch within_bind within_savepoint within_insert_rule intro: within_looks looks_rules)
qed

lemma within_activation: "within i (apply_activation_allow i tok)"
  unfolding apply_activation_allow_def with_bounded_transaction_def
  by (intro within_transaction within_bind [OF within_looks [OF looks_basic(7)]] within_find within_cases within_bind [OF within_lock]
      within_bind [OF within_consume] within_claimed) (auto intro: within_looks looks_rules)

section \<open>Every handler is lawful\<close>

lemma looks_guards [looks_rules]:
  "looks (denied b)" "looks (inactive b)" "looks (assert_chat_access cx c fresh)" "looks (assert_alias_access cx i fresh)"
  "looks (assert_hosted_chat_ready cx)" "looks (assert_hosted_alias_ready i)" "looks (clear_sender_prompt cx)" "looks routing_changed"
  "looks (show_settings cx i)"
  unfolding denied_def inactive_def assert_chat_access_def assert_alias_access_def assert_hosted_chat_ready_def
    assert_hosted_alias_ready_def clear_sender_prompt_def routing_changed_def show_settings_def
  by (intro looks_rules)+

lemma looks_quietly [looks_rules]: "looks m \<Longrightarrow> looks (quietly m)"
  unfolding quietly_def by (intro looks_rules)

lemma looks_only_if [looks_rules]: "looks g \<Longrightarrow> looks m \<Longrightarrow> looks (only_if g m)"
  unfolding only_if_def by (intro looks_rules)

lemma lawful_only_if: "looks g \<Longrightarrow> lawful u c m \<Longrightarrow> lawful u c (only_if g m)"
  unfolding only_if_def by (intro lawful_rules lawful_looks [OF looks_basic(1)])

lemma lawful_managed:
  assumes "can_manage_alias True u i e w = (Inr True, v)" and "within i body" and "body e v = (r, w')"
  shows "permitted e w w' u c"
proof -
  have v: "w_db v = w_db w" using looksD(1) [OF looks_permissions(2) assms(1)] .
  have t: "w_tick v \<le> w_tick w'" using assms(2,3) by (auto simp: within_def dest: advancesD)
  have "manages e w w' u i"
    using fresh_alias_admin [OF assms(1)] t unfolding manages_def by (auto intro: during_mono)
  moreover have "others i (w_db w') = others i (w_db v)"
    using assms(2,3) keepsD [of "\<lambda>d. others i d = others i (w_db v)" body v e] by (simp add: within_def)
  ultimately show ?thesis using v by (auto simp: permitted_def)
qed

lemma lawful_guarded:
  assumes "cx_from cx = Some u" and "within i body"
  shows "lawful u c (only_if (assert_alias_access cx i True) body)"
proof (rule lawfulI)
  fix e w r w' assume run: "only_if (assert_alias_access cx i True) body e w = (r, w')" and w: "w_tx w = NoTx"
  obtain q v where q: "can_manage_alias True u i e w = (q, v)" by fastforce
  note same = looksD(1) [OF looks_permissions(2) q]
  show "permitted e w w' u c"
  proof (cases "q = Inr True")
    case True
    with run q assms(1) have "body e v = (r, w')"
      by (simp add: only_if_def assert_alias_access_def bind_def denied_def ret_def)
    with q True assms(2) show ?thesis by (auto intro: lawful_managed)
  next
    case False
    define tail where "tail = bind (denied False) (\<lambda>ok. if \<not> ok then ret () else body)"
    have "tail e v' = bind (denied False) (\<lambda>_. ret ()) e v'" for v'
      by (auto simp: tail_def denied_def bind_def ret_def split: prod.split sum.split)
    then have "(r, w') = bind (denied False) (\<lambda>_. ret ()) e v \<or> w' = v"
      using run q False assms(1)
      by (cases q) (auto simp: only_if_def assert_alias_access_def tail_def bind_def split: prod.splits sum.splits)
    moreover have "looks (bind (denied False) (\<lambda>_. ret ()))" by (intro looks_rules)
    ultimately have "w_db w' = w_db v" by (metis looksD(1))
    with same show ?thesis by (simp add: permitted_unchanged)
  qed
qed

text \<open>Handlers that only look, or only write the session.\<close>

lemma looking_taps [looks_rules]:
  "looks (chat_selection_tap cx)" "looks (chat_menu_tap cx ch)" "looks (alias_list_tap cx ch)" "looks (new_email_tap cx ch)"
  "looks (new_cancel_tap cx)" "looks (delete_tap cx i)" "looks (delete_cancel_tap cx i)" "looks (menu_close_tap cx s)"
  "looks (settings_tap cx i)" "looks (label_edit_tap cx i)" "looks (label_cancel_tap cx i)" "looks (allow_rules_tap cx i)"
  "looks (add_rule_tap cx i)" "looks (cancel_add_rule_tap cx i)" "looks (activation_rules_tap cx i)"
  unfolding chat_selection_tap_def chat_menu_tap_def alias_list_tap_def new_email_tap_def new_cancel_tap_def delete_tap_def
    delete_cancel_tap_def menu_close_tap_def settings_tap_def label_edit_tap_def label_cancel_tap_def allow_rules_tap_def
    add_rule_tap_def cancel_add_rule_tap_def activation_rules_tap_def
  by (intro looks_rules)+

text \<open>Handlers that change one alias.\<close>

lemma within_reply: "within (al_id a) (add_rule_and_reply cx a v)"
proof -
  have "looks (case outcome of
         None \<Rightarrow> bind (ask_bot (ReplyText ''allowCommand.invalidFormat'' [])) (\<lambda>_. ret False)
       | Some (RuleLimit limit) \<Rightarrow>
           bind (if limit = LimitOk then ret () else bind (ctx_locale cx) (\<lambda>_. ask_bot (limit_reply limit))) (\<lambda>_. ret False)
       | Some RuleDuplicate \<Rightarrow> bind (ask_bot (ReplyText ''allowCommand.alreadyExists'' [])) (\<lambda>_. ret True)
       | Some _ \<Rightarrow> bind (ask_bot (ReplyText ''allowCommand.added'' [])) (\<lambda>_. ret True))" for outcome
    by (cases outcome) (auto intro!: looks_rules split: rule_insert.split)
  then show ?thesis unfolding add_rule_and_reply_def
    by (intro within_bind [OF within_looks [OF looks_locale]] within_bind [OF within_add_rule_for_alias] within_looks)
qed

lemma looks_activation_reply [looks_rules]: "looks (activation_reply cx i outcome)"
  unfolding activation_reply_def Let_def by (cases outcome) (auto intro!: looks_rules)

lemma changing_taps:
  assumes "cx_from cx = Some u"
  shows "lawful u c (status_tap st toast cx i)"
    and "lawful u c (delete_confirm_tap cx i v)"
    and "lawful u c (topic_tap cx th i v)"
    and "lawful u c (set_mode_tap cx i md)"
    and "lawful u c (toggle_body_dedup_tap cx i)"
    and "lawful u c (toggle_privacy_mode_tap cx i)"
    and "lawful u c (label_clear_tap cx i)"
  unfolding status_tap_def delete_confirm_tap_def topic_tap_def set_mode_tap_def toggle_body_dedup_tap_def
    toggle_privacy_mode_tap_def toggle_tap_def label_clear_tap_def
  by (intro lawful_guarded [OF assms] within_bind within_alias_updates within_routing_updates within_cases within_looks looks_rules)+

lemma quick_allow_lawful:
  assumes "cx_from cx = Some u" and "\<And>i. looks (show_after cx i)"
  shows "lawful u c (quick_allow_tap show_after cx i dmn)"
proof -
  have body: "within i (bind (db_read (find_alias_by_id i)) (\<lambda>found.
        case found of
          None \<Rightarrow> answer_callback (Some ''common.aliasNotFoundShort'')
        | Some a \<Rightarrow>
            bind (answer_callback (Some ''allowCommand.addingToast'')) (\<lambda>_.
            bind (add_rule_and_reply cx a dmn) (\<lambda>added.
              if added then catch (show_after cx i) (\<lambda>_. ret ()) else ret ()))))"
    (is "within i (bind _ ?f)")
  proof (rule within_find)
    fix found :: "alias_row option" assume found: "\<And>a. found = Some a \<Longrightarrow> al_id a = i"
    show "within i (?f found)"
    proof (cases found)
      case None
      then show ?thesis by (simp add: within_looks looks_rules)
    next
      case (Some a)
      with found have reply: "within i (add_rule_and_reply cx a dmn)" using within_reply [of a] by simp
      show ?thesis unfolding Some option.case
        by (rule within_bind [OF within_looks [OF looks_ask_bot]], rule within_bind [OF reply], intro within_looks looks_rules assms(2))
    qed
  qed
  show ?thesis unfolding quick_allow_tap_def
    by (intro lawful_only_if looks_guards lawful_guarded [OF assms(1)] within_bind [OF within_looks [OF looks_locale]] body)
qed

lemma delete_rule_lawful:
  assumes "cx_from cx = Some u"
  shows "lawful u c (delete_rule_tap cx i)"
  unfolding delete_rule_tap_def
  by (intro lawful_after looks_locale looks_basic looks_ask_bot lawful_cases lawful_guarded [OF assms] within_bind within_remove_rule within_looks
      looks_menus lawful_looks)

lemma activation_lawful:
  assumes "cx_from cx = Some u"
  shows "lawful u c (activation_allow_tap cx i tok)"
proof -
  let ?use = "bind (try_io (apply_activation_allow i tok)) (\<lambda>result.
         case result of
           Inl _ \<Rightarrow> quietly (answer_callback (Some ''activationNotice.tryAgainToast''))
         | Inr outcome \<Rightarrow>
             bind (quietly (answer_callback None)) (\<lambda>_.
             bind (quietly (ask_bot (EditKeyboard [build_callback activation_rules_cb [i]]))) (\<lambda>_.
             activation_reply cx i outcome)))"
  let ?rest = "\<lambda>allowed. bind (at_tick auth_in_time) (\<lambda>in_time.
       if \<not> in_time then quietly (answer_callback (Some ''common.accessDenied''))
       else if \<not> allowed then ret () else ?use)"
  have use: "within i ?use"
    by (intro within_bind within_try within_activation within_looks) (auto intro!: looks_rules split: sum.split)
  have checked: "lawful u c (bind (catch (assert_alias_access cx i True) (\<lambda>_. ret False)) ?rest)"
  proof (rule lawfulI)
    fix e w r w' assume run: "bind (catch (assert_alias_access cx i True) (\<lambda>_. ret False)) ?rest e w = (r, w')" and w: "w_tx w = NoTx"
    obtain q v where q: "can_manage_alias True u i e w = (q, v)" by fastforce
    show "permitted e w w' u c"
    proof (cases "q = Inr True")
      case True
      with run q assms have "?rest True e v = (r, w')"
        by (simp add: assert_alias_access_def bind_def catch_def denied_def ret_def)
      moreover have "within i (?rest True)" by (simp add: within_bind within_looks looks_rules use)
      ultimately show ?thesis using q True by (auto intro: lawful_managed)
    next
      case False
      obtain p x where p: "catch (assert_alias_access cx i True) (\<lambda>_. ret False) e w = (p, x)" by fastforce
      have "p = Inr False"
        using p q False assms
        by (cases q) (auto simp: assert_alias_access_def catch_def bind_def denied_def ret_def split: prod.splits sum.splits if_splits)
      with run p have "?rest False e x = (r, w')" by (simp add: bind_def)
      moreover have "looks (?rest False)" by (simp add: looks_rules)
      ultimately have "w_db w' = w_db x" by (rule looksD(1) [rotated])
      moreover have "looks (catch (assert_alias_access cx i True) (\<lambda>_. ret False))" by (intro looks_rules)
      then have "w_db x = w_db w" using p by (rule looksD(1))
      ultimately show ?thesis by (simp add: permitted_unchanged)
    qed
  qed
  note checked = this
  show ?thesis unfolding activation_allow_tap_def by (rule lawful_after [OF looks_locale]) (rule checked)
qed

text \<open>Moving, recovering and creating.\<close>

lemma probe_dead:
  assumes "probe_chat_reachability fresh c hook e w = (Inr DeadChat, w')"
  shows "w_db w' = w_db w \<and> (w_tx w = NoTx \<longrightarrow> w_tx w' = NoTx)"
proof -
  have asked: "harmless (if v = UnknownChat then ret () else remember_reach c (v = DeadChat))" for v
    by (simp add: harmless_basic harmless_cache)
  have h: "harmless (if fresh then ret None else cached_verdict w_reachCache c)" by (simp add: harmless_basic harmless_cache)
  obtain cached w1 where c: "(if fresh then ret None else cached_verdict w_reachCache c) e w = (Inr cached, w1)" and
    rest: "(case cached of Some dead \<Rightarrow> ret (if dead then DeadChat else Reachable)
       | None \<Rightarrow> bind (at_tick bot_id) (\<lambda>me. case me of Inl err \<Rightarrow> ret UnknownChat
             | Inr botId \<Rightarrow> bind (at_tick (\<lambda>e t. reach_answer (chat_member e t c botId))) (\<lambda>answer. case answer of
                     Inl newChatId \<Rightarrow> bind (catch (hook c newChatId) (\<lambda>_. ret ())) (\<lambda>_. ret UnknownChat)
                   | Inr v \<Rightarrow> bind (if v = UnknownChat then ret () else remember_reach c (v = DeadChat)) (\<lambda>_. ret v)))) e w1 = (Inr DeadChat, w')"
    using assms unfolding probe_chat_reachability_def bind_Inr by blast
  note w1 = harmlessD [OF h c]
  show ?thesis
  proof (cases cached)
    case (Some dead)
    with rest w1 show ?thesis by (simp add: ret_Inr)
  next
    case None
    obtain u w2 where "remember_reach c True e w2 = (Inr u, w')" "w_db w2 = w_db w1" "w_tx w2 = w_tx w1"
      using rest None by (auto simp: bind_Inr ret_Inr at_tick_Inr split: sum.splits if_splits)
    then show ?thesis using w1 harmlessD [OF harmless_cache(2)] by metis
  qed
qed

lemma recover_dead:
  assumes run: "can_recover_orphan_alias fresh u i e w = (Inr True, w')"
  shows "w_db w' = w_db w \<and> (w_tx w = NoTx \<longrightarrow> w_tx w' = NoTx)"
proof -
  obtain found x where f: "db_read (find_alias_by_id i) e w = (Inr found, x)" and
    "(case found of None \<Rightarrow> ret False | Some a \<Rightarrow> if al_status a = Deleted then ret False else if al_createdBy a \<noteq> u then ret False
       else bind (probe_chat_reachability fresh (al_chatId a) migration_repair_hook) (\<lambda>verdict. ret (verdict = DeadChat))) e x = (Inr True, w')"
    using run [unfolded can_recover_orphan_alias_def, unfolded bind_Inr [of "db_read (find_alias_by_id i)"]] by blast
  then obtain a :: alias_row where "probe_chat_reachability fresh (al_chatId a) migration_repair_hook e x = (Inr DeadChat, w')"
    by (auto simp: bind_Inr ret_Inr split: option.splits if_splits)
  then show ?thesis using probe_dead looksD [OF looks_basic(7) f] by metis
qed

text \<open>A guard that may run into a migration, but not when it says yes.\<close>

definition gate :: "bool io \<Rightarrow> bool" where
  "gate p \<longleftrightarrow> advances p \<and> (\<forall>e w r w'. p e w = (r, w') \<longrightarrow> w_tx w = NoTx \<longrightarrow>
     untouched_or_repaired (w_db w) (w_db w') \<and> (r = Inr True \<longrightarrow> w_db w' = w_db w \<and> w_tx w' = NoTx))"

lemma lawful_gate:
  assumes "gate p" and "lawful u c m"
  shows "lawful u c (only_if p m)"
proof (rule lawfulI)
  fix e w r w' assume run: "only_if p m e w = (r, w')" and w: "w_tx w = NoTx" "\<not> is_local_part_conflict e DbRefused"
  obtain q v where q: "p e w = (q, v)" by fastforce
  have v: "untouched_or_repaired (w_db w) (w_db v)" "q = Inr True \<Longrightarrow> w_db v = w_db w \<and> w_tx v = NoTx" "w_tick w \<le> w_tick v"
    using assms(1) q w(1) unfolding gate_def by (blast, blast, blast dest: advancesD)
  show "permitted e w w' u c"
  proof (cases "q = Inr True")
    case True
    with run q have "m e v = (r, w')" by (simp add: only_if_def bind_def)
    then have "permitted e v w' u c" using lawfulD [OF assms(2)] v(2) True w(2) by blast
    then show ?thesis by (rule permitted_wider) (use v True in auto)
  next
    case False
    with run q have "w' = v" by (auto simp: only_if_def bind_def ret_def split: sum.splits)
    with v(1) show ?thesis by (simp add: permitted_def repaired_once)
  qed
qed

lemma gate_move:
  assumes "cx_from cx = Some u"
  shows "gate (assert_move_access cx i)"
  unfolding gate_def
proof (intro conjI allI impI)
  show "advances (assert_move_access cx i)"
    unfolding assert_move_access_def using looks_guards(1) by (intro advances_rules) (simp add: looks_def)
  fix e w r w' assume run: "assert_move_access cx i e w = (r, w')" and w: "w_tx w = NoTx"
  obtain q1 w1 where r1: "can_manage_alias False u i e w = (q1, w1)" by fastforce
  note w1 = looksD [OF looks_permissions(2) r1]
  obtain q2 w2 where r2: "can_recover_orphan_alias False u i e w1 = (q2, w2)" by fastforce
  have rep: "untouched_or_repaired (w_db w) (w_db w2)"
    using may_repair_recover w1 w r2 unfolding may_repair_def by (metis snd_conv)
  have same: "untouched_or_repaired d d" for d by (simp add: untouched_or_repaired_def)
  obtain q v where q: "resolve_move_authz_path False u i e w = (q, v)" by fastforce
  have v: "untouched_or_repaired (w_db w) (w_db v)"
    using q r1 r2 rep w1 same by (auto simp: resolve_move_authz_path_def bind_def ret_def split: sum.splits if_splits)
  have yes: "w_db v = w_db w \<and> w_tx v = NoTx" if "q = Inr (Some path)" for path
  proof (cases "q1 = Inr True")
    case True
    with q r1 w1 w show ?thesis by (auto simp: resolve_move_authz_path_def bind_def ret_def)
  next
    case False
    with q r1 r2 that have "v = w2" "q2 = Inr True"
      by (auto simp: resolve_move_authz_path_def bind_def ret_def split: sum.splits if_splits)
    then show ?thesis using recover_dead r2 w1 w by metis
  qed
  have d: "denied (path \<noteq> None) e v = (r, w')" if "q = Inr path" for path
    using run q assms that by (simp add: assert_move_access_def bind_def)
  have r: "w_db w' = w_db v" "r = Inr True \<Longrightarrow> \<exists>path. q = Inr (Some path) \<and> w' = v"
  proof -
    show "w_db w' = w_db v" using d run q assms looksD(1) [OF looks_guards(1)]
      by (cases q) (auto simp: assert_move_access_def bind_def)
    show "\<exists>path. q = Inr (Some path) \<and> w' = v" if "r = Inr True"
      using d run q assms that by (cases q) (auto simp: assert_move_access_def bind_def denied_def ret_def split: prod.splits sum.splits if_splits)
  qed
  show "untouched_or_repaired (w_db w) (w_db w')" using v r(1) by simp
  show "w_db w' = w_db w" "w_tx w' = NoTx" if "r = Inr True" using r that yes by auto
qed

lemma lawful_repair: "may_repair m \<Longrightarrow> lawful u c m"
  by (rule lawfulI) (metis may_repair_def permitted_def repaired_once snd_conv)

lemma orphan_menu_lawful: "lawful u c (edit_orphan_menu sender i)"
proof (cases sender)
  case None
  then show ?thesis by (simp add: edit_orphan_menu_def lawful_looks looks_basic)
next
  case (Some actorId)
  show ?thesis unfolding edit_orphan_menu_def Some option.case
    by (rule lawful_after [OF looks_basic(7)], rule lawful_cases, rule lawful_looks [OF looks_basic(1)],
        rule lawful_repair [OF may_repair_before [OF may_repair_recover harmless_basic(1)]])
qed

lemma moving_taps:
  assumes "cx_from cx = Some u"
  shows "lawful u (cx_chat cx) (alias_detail_tap cx i)"
    and "lawful u (cx_chat cx) (move_tap cx i)"
    and "lawful u (cx_chat cx) (move_target_tap cx i t v)"
    and "lawful u (cx_chat cx) (move_confirm_tap cx i t v)"
    and "lawful u (cx_chat cx) (orphan_tap cx i)"
    and "lawful u (cx_chat cx) (orphan_delete_tap cx i v)"
    and "lawful u (cx_chat cx) (skip_alias_tap cx t)"
proof -
  have picker: "looks (edit_move_picker_menu (Some u) lang ch i)" for lang ch
    unfolding edit_move_picker_menu_def resolve_locale_def find_user_by_id_def get_accessible_chats_def Let_def
    by (intro looks_rules)
  have move: "lawful u (cx_chat cx) (execute_alias_move (Some u) (Some (cx_chat cx)) i t v)"
    by (rule lawfulI) (auto simp: permitted_def dest!: move_effect intro: repaired_once)
  have orphan: "lawful u (cx_chat cx) (execute_orphan_delete (Some u) i v)"
    by (rule lawfulI) (auto simp: permitted_def dest!: orphan_deletion_is_authorized intro: repaired_once)
  have skip: "lawful u (cx_chat cx) (skip_alias_callback (Some u) t)"
  proof (rule lawfulI)
    fix e w r w' assume "skip_alias_callback (Some u) t e w = (r, w')" "w_tx w = NoTx" "\<not> is_local_part_conflict e DbRefused"
    from createsD [OF skip_creates this] show "permitted e w w' u (cx_chat cx)"
      unfolding permitted_def created_alias_def using repaired_same by fastforce
  qed
  have confirm: "looks (edit_move_confirm_menu cx i t v)" unfolding edit_move_confirm_menu_def by (intro looks_rules)
  show "lawful u (cx_chat cx) (alias_detail_tap cx i)"
    unfolding alias_detail_tap_def assms option.case
    by (intro lawful_after [OF looks_permissions(2)] lawful_cases lawful_before [OF orphan_menu_lawful] looks_basic)
      (intro lawful_looks looks_rules)
  show "lawful u (cx_chat cx) (move_tap cx i)" "lawful u (cx_chat cx) (move_target_tap cx i t v)"
    unfolding move_tap_def move_target_tap_def assms
    by (intro lawful_gate gate_move [OF assms] lawful_looks looks_bind looks_ask_bot picker looks_basic confirm)+
  show "lawful u (cx_chat cx) (move_confirm_tap cx i t v)"
    unfolding move_confirm_tap_def assms
    by (intro lawful_gate gate_move [OF assms] lawful_after [OF looks_ask_bot] lawful_before [OF move] looks_basic)
  show "lawful u (cx_chat cx) (orphan_tap cx i)"
    unfolding orphan_tap_def by (intro lawful_before [OF orphan_menu_lawful] looks_basic)
  show "lawful u (cx_chat cx) (orphan_delete_tap cx i v)"
    unfolding orphan_delete_tap_def assms by (intro lawful_after [OF looks_ask_bot] lawful_before [OF orphan] looks_basic)
  show "lawful u (cx_chat cx) (skip_alias_tap cx t)"
    unfolding skip_alias_tap_def assms by (intro lawful_before [OF skip] looks_basic)
qed

lemma handlers_lawful:
  assumes u: "cx_from cx = Some u" and entry: "(cb, handler) \<in> set (tap_handlers cx)"
  shows "lawful u (cx_chat cx) (handler m)"
proof -
  note quick = quick_allow_lawful [OF u, of edit_alias_detail_menu, OF looks_menus(5)]
    quick_allow_lawful [OF u, of edit_allow_rules_menu, OF looks_menus(9)]
  have "list_all (\<lambda>(cb, h). \<forall>m. lawful u (cx_chat cx) (h m)) (tap_handlers cx)"
    by (simp add: tap_handlers_def pause_tap_def resume_tap_def changing_taps [OF u] moving_taps [OF u]
        delete_rule_lawful [OF u] activation_lawful [OF u] quick looking_taps [THEN lawful_looks])
  then show ?thesis using entry by (auto simp: list_all_iff)
qed

lemma routed_lawful:
  assumes "\<And>cb handler m. (cb, handler) \<in> set handlers \<Longrightarrow> lawful u c (handler m)"
  shows "lawful u c (route_tap handlers tapped)"
  using assms
proof (induction handlers)
  case Nil
  then show ?case by (simp add: lawful_looks looks_basic)
next
  case (Cons entry rest)
  then show ?case by (cases entry) (auto split: option.split)
qed


definition tapped_id :: uuid where
  "tapped_id = ''123e4567-e89b-12d3-a456-426614174000''"

definition tap_world :: world where
  "tap_world = start_world (empty_db\<lparr>aliases := [sample_alias\<lparr>al_id := tapped_id\<rparr>]\<rparr>)"

definition sample_cx :: update_ctx where
  "sample_cx = \<lparr> cx_from = Some 7, cx_language = None, cx_chat = 10, cx_chatType = ''group'', cx_thread = None, cx_messageId = 1 \<rparr>"

lemma sample_match:
  "list_all (\<lambda>cb. match_callback cb (build_callback alias_pause_cb [tapped_id]) = None)
     [chat_menu_cb, alias_list_cb, new_email_cb, skip_alias_cb, alias_detail_cb] \<and>
   match_callback alias_pause_cb (build_callback alias_pause_cb [tapped_id]) = Some [tapped_id] \<and>
   build_callback alias_pause_cb [tapped_id] \<notin> {chat_selection_data, new_cancel_data}"
  by code_simp

lemma sample_route: "handle_tap sample_cx (build_callback alias_pause_cb [tapped_id]) = pause_tap sample_cx tapped_id"
  using sample_match by (simp add: handle_tap_def tap_handlers_def)

lemma sample_pause:
  "case pause_tap sample_cx tapped_id calm_env tap_world of (r, w') \<Rightarrow> r = Inr () \<and> map al_status (aliases (w_db w')) = [Paused]"
  by code_simp


end
