(* ===== verification/Spec2Isabelle.thy ===== *)
theory Spec2Isabelle
  imports InboundQueue Sender ChatMigration AliasActivation Renderer Deliver RetryRun EncryptionStream Shutdown Cleanup NoticeQueue InboundRoutes ManualGrants Session Taps
begin

text \<open>
  Verification of email-to-telegram: a service that receives email for aliases, decides whether to
  accept it, and delivers it to Telegram chats, with retries, plan limits, encryption at rest, paid
  plans and the housekeeping around them.  Paths below are under \<open>src/src/\<close>.

  \<^bold>\<open>How the program works.\<close>  The mail worker asks \<open>http/routes/preflight.ts\<close> and then uploads the mail to
  \<open>http/routes/raw.ts\<close>.  The raw route checks the worker's signature and the replay ledger, stores the file,
  and queues the mail (\<open>email/pipeline/queue.ts\<close>): under the owner's lock it checks the sender against the allow
  rules, duplicates, the hourly rate and the plan, and writes the delivery log and the usage counters.  After the
  202 the mail is delivered (\<open>email/pipeline/deliver.ts\<close>): rendered, its attachments stored, sent through
  \<open>telegram/sender.ts\<close>, and the log follows Telegram's answer.  What failed for a passing reason is repeated by the
  worker of \<open>email/retry.ts\<close>; what is old is removed by \<open>storage/cleanup.ts\<close>.  A bounce of a new alias is told to its
  owner by the notice queue (\<open>activation/*\<close>), whose button adds an allow rule.  Alias mutations are compare-and-swap
  statements on a routing version (\<open>db/repos/aliasRouting.ts\<close>); plans change by Stripe webhooks and manual grants
  (\<open>billing/*\<close>).

  \<^bold>\<open>The effect layer.\<close>  Theory \<open>Effects\<close> models an \<open>async\<close> function as a function from an environment and a world to a
  result (an exception or a value) and the next world.  The world holds the tables (theory \<open>Schema\<close>, one record per
  table), the state of the transaction, the process-wide caches and the trace of everything sent, answered, written to or
  deleted from the disk.  Each interaction consumes one tick, and the environment (clock, outcome of every database
  round trip, Telegram, disk, hashes, random values, third-party parsers) is an arbitrary function of the tick: a theorem
  holds for every schedule of failures.  A transaction is rolled back, aborted and committed as PostgreSQL does it.
  \<open>stays_open\<close>, \<open>quiet\<close>, \<open>emits\<close>, \<open>keeps\<close>, \<open>inside\<close> and \<open>guarded\<close> (theories \<open>Effects\<close>, \<open>Guarded\<close>) are the closure properties
  most proofs rest on, each with a collection of rules.

  \<^bold>\<open>Theories.\<close>
  \<^item> \<open>Prelude\<close>, \<open>Interfaces\<close>: JavaScript strings and nullable values, tables as lists; the locales \<open>ledger\<close>,
    \<open>once_only\<close> and \<open>versioned\<close>, interpreted in \<open>UsageRepo\<close>, \<open>AliasRepo\<close> and \<open>DeliveryRepo\<close> on the program's own operations.
  \<^item> \<open>JsDate\<close>, \<open>IsoTime\<close>, \<open>Json\<close>, \<open>Libraries\<close>: the calendar in UTC, the part of JSON the program prints and reads, and
    the values of third-party code.
  \<^item> \<open>Plans\<close>, \<open>UsageRepo\<close>, \<open>Limits\<close>: \<open>billing/plans.ts\<close>, the counters of \<open>db/repos/usage.ts\<close>, \<open>storageUsage.ts\<close>,
    \<open>quotaNotifications.ts\<close>, \<open>billing/usageRefund.ts\<close>; \<open>billing/limits.ts\<close>, \<open>billing/quotaNotifier.ts\<close>.
  \<^item> \<open>AliasRepo\<close>, \<open>ChatMigration\<close>: \<open>db/repos/aliases.ts\<close>, \<open>aliasRouting.ts\<close>, \<open>chats.ts\<close>, \<open>inboundDomains.ts\<close>;
    \<open>telegram/chatMigration.ts\<close>.
  \<^item> \<open>DeliveryRepo\<close>, \<open>Tokens\<close>: the delivery tables with their uniqueness rules and signed links.
  \<^item> \<open>MailParser\<close>, \<open>SenderRules\<close>, \<open>InboundQueue\<close>: parsing and cleaning, sender authentication and allow rules, acceptance.
  \<^item> \<open>TelegramErrors\<close>, \<open>Sender\<close>, \<open>Renderer\<close>, \<open>DeliveryRoute\<close>, \<open>Deliver\<close>: classification of failures, the bounded send
    loop, the message, and the delivery stage.
  \<^item> \<open>Retry\<close>, \<open>RetryRun\<close>, \<open>Shutdown\<close>: one repetition, a cycle of the worker, and the order of a shutdown
    (\<open>utils/inFlight.ts\<close>, \<open>startup/shutdown.ts\<close>).
  \<^item> \<open>Encryption\<close>, \<open>EncryptionStream\<close>, \<open>LogMetadata\<close>, \<open>Storage\<close>, \<open>Cleanup\<close>: \<open>security/encryption.ts\<close>,
    \<open>security/deliveryLogMetadata.ts\<close>, \<open>storage/disk.ts\<close>, \<open>storage/cleanup.ts\<close>.
  \<^item> \<open>AliasActivation\<close>, \<open>AllowButton\<close>, \<open>Notice\<close>, \<open>NoticeQueue\<close>: \<open>db/repos/aliasActivation.ts\<close>, \<open>activation/*\<close> and
    \<open>telegram/commands/allow.ts\<close>.
  \<^item> \<open>WorkerAuth\<close>, \<open>InboundRoutes\<close>: \<open>utils/workerAuth.ts\<close>, \<open>db/repos/workerRequestNonces.ts\<close>, the two inbound routes and
    the hosted block list.
  \<^item> \<open>Users\<close>, \<open>Webhooks\<close>, \<open>ManualGrants\<close>: \<open>db/repos/users.ts\<close>, \<open>billing/webhooks.ts\<close>, \<open>billing/stripe.ts\<close>,
    \<open>billing/manual.ts\<close>.
  \<^item> \<open>Callbacks\<close>, \<open>Session\<close>: the callback data of the buttons (\<open>telegram/callbacks.ts\<close>) with its round trip, and the pending
    prompts (\<open>telegram/session.ts\<close>);
  \<^item> \<open>RateLimit\<close>: the sliding window limiter of \<open>utils/rateLimit.ts\<close>, and that it is one;
  \<^item> \<open>Menus\<close>, \<open>Taps\<close>: what the menus show (\<open>telegram/menu/\<close>, \<open>/listemail\<close>) and what the buttons do
    (\<open>telegram/bot.ts\<close>, \<open>telegram/middleware/authorization.ts\<close>, \<open>activation/allowButton.ts\<close>): \<open>handle_tap\<close> dispatches
    a tap to its handler, and every handler is shown to respect the permissions of who tapped;
  \<^item> \<open>Authorization\<close>, \<open>AliasMove\<close>: who may manage a chat or an alias, with the caches of verdicts as locale
    \<open>verdict_cache\<close> (\<open>telegram/authorization.ts\<close>, \<open>moveTarget.ts\<close>, \<open>orphanProbe.ts\<close>, \<open>orphanRecovery.ts\<close>,
    \<open>aliasResolver.ts\<close>), and the menus that move and recover aliases (\<open>telegram/menu/moveMenu.ts\<close>, \<open>orphanMenu.ts\<close>);
  \<^item> \<open>Impersonation\<close>, \<open>HostedLimits\<close>, \<open>NewEmail\<close>: the guard on alias names, the daily counters
    (\<open>abuse/\<close>, \<open>db/repos/hostedOnboardingAttempts.ts\<close>) and the creation of aliases
    (\<open>telegram/commands/newemail.ts\<close>);
  \<^bold>\<open>What is shown.\<close>  For the path of a mail: what is accepted, from whom and within which limits, what the counters
  then say, what the route's answer guarantees, where the message goes and how the log follows, that repetitions stay
  within their budget and that a cycle settles every due log, and that cleaning removes nothing too early.  For the
  alias: that a spent routing version authorizes nothing, that moves and migrations are all or nothing and audited.  For
  notices: their number, their content and the one rule the button may add.  For billing: what a webhook may not change,
  that it is applied once, and the exact outcome of a manual grant.  For the rest: round trips of encryption, tokens and
  metadata, the bounds of the queues, and the order of a shutdown.

  \<^bold>\<open>Bounds and fuel.\<close>  A send is tried at most three times, a delivery repeated at most three times, a notice claimed at
  most three times; these loops are recursions over the attempts left, with the program's own bounds.  \<open>Json\<close> parses with
  fuel equal to the length of the text, and every character of the result consumes one.  The notice queue's work is bounded
  by a measure of 7 per admitted job.  Sizes, counters and times are unbounded integers: JavaScript's \<open>bigint\<close> is one, and the
  \<open>number\<close>s modelled this way (byte counts, milliseconds) stay far below 2 to the 53.

  \<^bold>\<open>Not modelled.\<close>  Statements of other clients between two ticks (the program takes advisory locks and row locks where they
  matter; single statements are atomic anyway); foreign keys except where a deletion relies on their cascades; column widths,
  except where an oversized value is a reported finding (a refused statement is an outcome of the environment); the HTML
  sanitiser \<open>utils/structuredEmailHtml.ts\<close> over a third-party parser (a parameter); metrics and log lines; configuration
  parsing, process wiring and the CLI; the texts and keyboards of the bot, the translations and the pages of the admin and view
  routes, which are presentation; \<open>dataLifecycle/exportUser.ts\<close>, which formats rows.
\<close>

end
